(* ===== verification/Prelude.thy ===== *)
theory Prelude
  imports Main "HOL-Library.Word"
begin

unbundle bit_operations_syntax

text \<open>
  Shared vocabulary of the development: the machine-integer types of the C
  sources, the collections that component proofs extend, and the generic facts on
  lists and words that more than one component needs.  Nothing here models code.
\<close>

section \<open>Machine integers\<close>

type_synonym u8 = "8 word"
type_synonym u16 = "16 word"
type_synonym u32 = "32 word"
type_synonym u64 = "64 word"

text \<open>
  An \<open>int32_t\<close> that the code compares and negates is an \<^typ>\<open>int\<close>; where it is
  produced by the cast \<open>(int32_t)x\<close> of a \<open>uint32_t\<close> the model writes \<open>sint x\<close>.
\<close>

named_theorems byte_nat \<open>byte comparisons as comparisons of natural numbers\<close>

lemma u8_lt_nat [byte_nat]: "(a :: u8) < b \<longleftrightarrow> unat a < unat b"
  by (rule word_less_nat_alt)

lemma u8_le_nat [byte_nat]: "(a :: u8) \<le> b \<longleftrightarrow> unat a \<le> unat b"
  by (rule word_le_nat_alt)

lemma u8_eq_nat: "(a :: u8) = b \<longleftrightarrow> unat a = unat b"
  by (simp add: word_unat_eq_iff)

lemma unat_u8_of_nat: "n < 256 \<Longrightarrow> unat (word_of_nat n :: u8) = n"
  by (simp add: unsigned_of_nat take_bit_eq_mod)

lemma unat_u8_lt: "unat (b :: u8) < 256"
  using unsigned_less [of b] by simp

text \<open>A fact about every byte follows from its 256 instances.\<close>

lemma u8_exhaust:
  assumes "\<forall>n \<in> set [0..<256]. P (word_of_nat n :: u8)"
  shows "P b"
proof -
  have "P (word_of_nat (unat b))"
    using assms unat_u8_lt [of b] by (metis atLeastLessThan_iff set_upt zero_le)
  then show ?thesis by simp
qed

section \<open>Lists\<close>

lemma drop_eq_nth_Cons: "i < length xs \<Longrightarrow> drop i xs = xs ! i # drop (Suc i) xs"
  by (rule Cons_nth_drop_Suc [symmetric])

lemma last_take_nth: "xs \<noteq> [] \<Longrightarrow> last xs = xs ! (length xs - 1)"
  by (rule last_conv_nth)

lemma sorted_append_last:
  "sorted (xs @ [x]) \<longleftrightarrow> sorted xs \<and> (\<forall>y \<in> set xs. y \<le> (x :: 'a :: linorder))"
  by (auto simp: sorted_append)

end
