(* ===== verification/Utf8.thy ===== *)
theory Utf8
  imports Prelude
begin

text \<open>
  \<open>wasm/src/jav_utf8.c\<close>: the validation of WebAssembly names (Core specification,
  section 5.2.4).  \<open>jav_name_utf8_ok\<close> is the C loop over the byte index; the
  specification is the grammar itself, the concatenations of the encodings of
  Unicode scalar values.  The theorem states that the loop accepts exactly these.
\<close>

section \<open>The loop\<close>

definition utf8_cont :: "u8 \<Rightarrow> bool" where
  "utf8_cont b \<longleftrightarrow> b AND 0xC0 = 0x80"

function utf8_scan :: "u8 list \<Rightarrow> nat \<Rightarrow> bool" where
  "utf8_scan p i =
     (if \<not> i < length p then True
      else let b0 = p ! i; n = length p in
        if b0 < 0x80 then utf8_scan p (i + 1)
        else if b0 < 0xC2 then False
        else if b0 < 0xE0 then
          (if n - i < 2 \<or> \<not> utf8_cont (p ! (i + 1)) then False
           else utf8_scan p (i + 2))
        else if b0 < 0xF0 then
          (if n - i < 3 then False
           else let lo = (if b0 = 0xE0 then 0xA0 else 0x80);
                    hi = (if b0 = 0xED then 0x9F else 0xBF) in
             if p ! (i + 1) < lo \<or> hi < p ! (i + 1) \<or> \<not> utf8_cont (p ! (i + 2)) then False
             else utf8_scan p (i + 3))
        else if b0 < 0xF5 then
          (if n - i < 4 then False
           else let lo = (if b0 = 0xF0 then 0x90 else 0x80);
                    hi = (if b0 = 0xF4 then 0x8F else 0xBF) in
             if p ! (i + 1) < lo \<or> hi < p ! (i + 1) \<or> \<not> utf8_cont (p ! (i + 2))
                \<or> \<not> utf8_cont (p ! (i + 3)) then False
             else utf8_scan p (i + 4))
        else False)"
  by pat_completeness auto
termination
  by (relation "measure (\<lambda>(p, i). length p - i)") auto

declare utf8_scan.simps [simp del]

definition jav_name_utf8_ok :: "u8 list \<Rightarrow> bool" where
  "jav_name_utf8_ok b = utf8_scan b 0"

section \<open>The grammar\<close>

definition scalar_value :: "nat \<Rightarrow> bool" where
  "scalar_value c \<longleftrightarrow> c < 0xD800 \<or> (0xE000 \<le> c \<and> c < 0x110000)"

definition utf8_enc :: "nat \<Rightarrow> u8 list" where
  "utf8_enc c =
     (if c < 0x80 then [word_of_nat c]
      else if c < 0x800 then [word_of_nat (0xC0 + c div 64), word_of_nat (0x80 + c mod 64)]
      else if c < 0x10000 then
        [word_of_nat (0xE0 + c div 4096), word_of_nat (0x80 + c div 64 mod 64),
         word_of_nat (0x80 + c mod 64)]
      else
        [word_of_nat (0xF0 + c div 262144), word_of_nat (0x80 + c div 4096 mod 64),
         word_of_nat (0x80 + c div 64 mod 64), word_of_nat (0x80 + c mod 64)])"

definition utf8_string :: "nat list \<Rightarrow> u8 list" where
  "utf8_string cs = concat (map utf8_enc cs)"

section \<open>The loop accepts exactly the grammar\<close>

lemma utf8_cont_nat: "utf8_cont b \<longleftrightarrow> 128 \<le> unat b \<and> unat b < 192"
proof -
  have "\<forall>n \<in> set [0..<256]. utf8_cont (word_of_nat n) \<longleftrightarrow>
      128 \<le> unat (word_of_nat n :: u8) \<and> unat (word_of_nat n :: u8) < 192"
    unfolding utf8_cont_def by code_simp
  then show ?thesis by (rule u8_exhaust)
qed

lemma utf8_scan_end: "length p \<le> i \<Longrightarrow> utf8_scan p i"
  by (subst utf8_scan.simps) simp

text \<open>The loop reads the input from the current index on and nothing before it.\<close>

lemma utf8_scan_shift: "utf8_scan (xs @ ys) (length xs + i) = utf8_scan ys i"
proof (induction ys i rule: utf8_scan.induct)
  case (1 ys i)
  show ?case
    apply (subst (1 2) utf8_scan.simps)
    using "1.IH" by (simp add: Let_def nth_append add.assoc)
qed

lemma utf8_scan_append: "utf8_scan (xs @ ys) (length xs) = utf8_scan ys 0"
  using utf8_scan_shift [of xs ys 0] by simp

text \<open>
  Encoding a scalar value and scanning it back: one lemma per width, each a case of
  the loop on bytes whose numeric values are known.
\<close>

lemma utf8_scan_enc1:
  assumes "c < 0x80"
  shows "utf8_scan (utf8_enc c @ ys) 0 = utf8_scan ys 0"
proof -
  have "utf8_enc c = [word_of_nat c]" and "unat (word_of_nat c :: u8) = c"
    using assms by (simp_all add: utf8_enc_def unat_u8_of_nat)
  then show ?thesis
    using assms utf8_scan_append [of "utf8_enc c" ys]
    by (subst utf8_scan.simps) (simp add: byte_nat)
qed

lemma utf8_scan_enc2:
  assumes "0x80 \<le> c" "c < 0x800"
  shows "utf8_scan (utf8_enc c @ ys) 0 = utf8_scan ys 0"
proof -
  define b0 b1 :: u8
    where "b0 = word_of_nat (0xC0 + c div 64)" and "b1 = word_of_nat (0x80 + c mod 64)"
  have u: "unat b0 = 0xC0 + c div 64" "unat b1 = 0x80 + c mod 64"
    unfolding b0_def b1_def using assms by (intro unat_u8_of_nat; simp; fail)+
  have e: "utf8_enc c = [b0, b1]" using assms by (simp add: utf8_enc_def b0_def b1_def)
  have r: "2 \<le> c div 64" "c div 64 < 32" "c mod 64 < 64" using assms by simp_all
  show ?thesis
    using utf8_scan_append [of "utf8_enc c" ys] r unfolding e
    by (subst utf8_scan.simps) (simp add: Let_def byte_nat utf8_cont_nat u)
qed

lemma utf8_scan_enc3:
  assumes "0x800 \<le> c" "c < 0x10000" "scalar_value c"
  shows "utf8_scan (utf8_enc c @ ys) 0 = utf8_scan ys 0"
proof -
  define b0 b1 b2 :: u8
    where "b0 = word_of_nat (0xE0 + c div 4096)"
      and "b1 = word_of_nat (0x80 + c div 64 mod 64)" and "b2 = word_of_nat (0x80 + c mod 64)"
  have u: "unat b0 = 0xE0 + c div 4096" "unat b1 = 0x80 + c div 64 mod 64" "unat b2 = 0x80 + c mod 64"
    unfolding b0_def b1_def b2_def using assms by (intro unat_u8_of_nat; simp; fail)+
  have e: "utf8_enc c = [b0, b1, b2]" using assms by (simp add: utf8_enc_def b0_def b1_def b2_def)
  have r: "c div 4096 < 16" "c mod 64 < 64" "c div 64 mod 64 < 64" using assms by simp_all
  have q: "c div 64 = 64 * (c div 4096) + c div 64 mod 64"
    using div_mult_mod_eq [of "c div 64" 64] by (simp add: div_mult2_eq [symmetric])
  have lo: "32 \<le> c div 64 mod 64" if "c div 4096 = 0"
  proof -
    have "32 \<le> c div 64" using assms by simp
    with q that show ?thesis by linarith
  qed
  have hi: "c div 64 mod 64 \<le> 31" if "c div 4096 = 13"
  proof -
    have "c < 57344" using that by simp
    then have "c div 64 < 864" using assms by (simp add: scalar_value_def)
    with q that show ?thesis by linarith
  qed
  have s: "utf8_scan ([b0, b1, b2] @ ys) 3 = utf8_scan ys 0"
    using utf8_scan_append [of "[b0, b1, b2]" ys] by (simp add: numeral_3_eq_3)
  obtain x0 x1 x2 where "unat b0 = 224 + x0" "unat b1 = 128 + x1" "unat b2 = 128 + x2"
    and "x0 < 16" "x1 < 64" "x2 < 64" "x0 = 0 \<longrightarrow> 32 \<le> x1" "x0 = 13 \<longrightarrow> x1 \<le> 31"
    using u r lo hi by simp
  then show ?thesis
    using s unfolding e
    by (subst utf8_scan.simps) (auto simp: Let_def byte_nat utf8_cont_nat word_unat_eq_iff)
qed

lemma utf8_scan_enc4:
  assumes "0x10000 \<le> c" "c < 0x110000"
  shows "utf8_scan (utf8_enc c @ ys) 0 = utf8_scan ys 0"
proof -
  define b0 b1 b2 b3 :: u8
    where "b0 = word_of_nat (0xF0 + c div 262144)"
      and "b1 = word_of_nat (0x80 + c div 4096 mod 64)"
      and "b2 = word_of_nat (0x80 + c div 64 mod 64)" and "b3 = word_of_nat (0x80 + c mod 64)"
  have u: "unat b0 = 0xF0 + c div 262144" "unat b1 = 0x80 + c div 4096 mod 64"
    "unat b2 = 0x80 + c div 64 mod 64" "unat b3 = 0x80 + c mod 64"
    unfolding b0_def b1_def b2_def b3_def using assms by (intro unat_u8_of_nat; simp; fail)+
  have e: "utf8_enc c = [b0, b1, b2, b3]"
    using assms by (simp add: utf8_enc_def b0_def b1_def b2_def b3_def)
  have r: "c div 262144 < 5" "c mod 64 < 64" "c div 64 mod 64 < 64" "c div 4096 mod 64 < 64"
    using assms by simp_all
  have q: "c div 4096 = 64 * (c div 262144) + c div 4096 mod 64"
    using div_mult_mod_eq [of "c div 4096" 64] by (simp add: div_mult2_eq [symmetric])
  have lo: "16 \<le> c div 4096 mod 64" if "c div 262144 = 0"
  proof -
    have "16 \<le> c div 4096" using assms by simp
    with q that show ?thesis by linarith
  qed
  have hi: "c div 4096 mod 64 \<le> 15" if "c div 262144 = 4"
  proof -
    have "c div 4096 < 272" using assms by simp
    with q that show ?thesis by linarith
  qed
  have s: "utf8_scan ([b0, b1, b2, b3] @ ys) 4 = utf8_scan ys 0"
    using utf8_scan_append [of "[b0, b1, b2, b3]" ys] by (simp add: eval_nat_numeral)
  obtain x0 x1 x2 x3 where "unat b0 = 240 + x0" "unat b1 = 128 + x1" "unat b2 = 128 + x2"
    "unat b3 = 128 + x3" and "x0 < 5" "x1 < 64" "x2 < 64" "x3 < 64"
    "x0 = 0 \<longrightarrow> 16 \<le> x1" "x0 = 4 \<longrightarrow> x1 \<le> 15"
    using u r lo hi by simp
  then show ?thesis
    using s unfolding e
    by (subst utf8_scan.simps) (auto simp: Let_def byte_nat utf8_cont_nat word_unat_eq_iff)
qed

lemma utf8_scan_enc:
  assumes "scalar_value c"
  shows "utf8_scan (utf8_enc c @ ys) 0 = utf8_scan ys 0"
proof -
  consider "c < 0x80" | "0x80 \<le> c" "c < 0x800" | "0x800 \<le> c" "c < 0x10000"
    | "0x10000 \<le> c" "c < 0x110000"
    using assms by (fastforce simp: scalar_value_def)
  then show ?thesis
    using assms by cases (simp_all add: utf8_scan_enc1 utf8_scan_enc2 utf8_scan_enc3 utf8_scan_enc4)
qed

lemma utf8_scan_string:
  "list_all scalar_value cs \<Longrightarrow> utf8_scan (utf8_string cs) 0"
  by (induction cs) (simp_all add: utf8_string_def utf8_scan_end utf8_scan_enc)

text \<open>
  Conversely, where the scan accepts, the input starts with the encoding of a scalar
  value and the scan accepts what follows it.
\<close>

lemma utf8_cont_obtain:
  assumes "utf8_cont b"
  obtains m where "unat b = 128 + m" "m < 64"
proof -
  from assms have "128 \<le> unat b" "unat b < 192" by (simp_all add: utf8_cont_nat)
  then show thesis using that [of "unat b - 128"] by simp
qed

lemma word_of_nat_unat_eq: "unat (b :: u8) = n \<Longrightarrow> word_of_nat n = b"
  by auto

lemma base64_digit:
  assumes "m < (64 :: nat)"
  shows "(n * 64 + m) div 64 = n" "(n * 64 + m) mod 64 = m"
  using assms by simp_all

lemma utf8_dec2:
  assumes "unat b0 = 192 + x0" "2 \<le> x0" "x0 < 32" "unat b1 = 128 + x1" "x1 < 64"
  shows "\<exists>c. scalar_value c \<and> utf8_enc c = [b0, b1]"
proof -
  define c where "c = x0 * 64 + x1"
  have "c div 64 = x0" "c mod 64 = x1" "128 \<le> c" "c < 2048"
    using assms by (simp_all add: c_def)
  then have "scalar_value c" "utf8_enc c = [b0, b1]"
    using assms word_of_nat_unat_eq [OF assms(1)] word_of_nat_unat_eq [OF assms(4)]
    by (simp_all add: scalar_value_def utf8_enc_def)
  then show ?thesis by blast
qed

lemma utf8_dec3:
  assumes "unat b0 = 224 + x0" "x0 < 16" "unat b1 = 128 + x1" "x1 < 64"
    and "unat b2 = 128 + x2" "x2 < 64" "x0 = 0 \<longrightarrow> 32 \<le> x1" "x0 = 13 \<longrightarrow> x1 < 32"
  shows "\<exists>c. scalar_value c \<and> utf8_enc c = [b0, b1, b2]"
proof -
  define c where "c = (x0 * 64 + x1) * 64 + x2"
  have d: "c div 64 = x0 * 64 + x1" "c mod 64 = x2"
    unfolding c_def by (rule base64_digit [OF assms(6)])+
  then have "c div 64 mod 64 = x1" "c div 4096 = x0"
    using assms(4) div_mult2_eq [of c 64 64] by simp_all
  moreover have "2048 \<le> c" "c < 65536" using assms by (cases "x0 = 0"; simp add: c_def)+
  moreover have "scalar_value c"
  proof -
    consider "x0 < 13" | "x0 = 13" | "13 < x0" by linarith
    then show ?thesis using assms by cases (simp_all add: scalar_value_def c_def)
  qed
  ultimately have "scalar_value c \<and> utf8_enc c = [b0, b1, b2]"
    using d assms word_of_nat_unat_eq [OF assms(1)] word_of_nat_unat_eq [OF assms(3)]
      word_of_nat_unat_eq [OF assms(5)] by (simp add: utf8_enc_def)
  then show ?thesis by blast
qed

lemma utf8_dec4:
  assumes "unat b0 = 240 + x0" "x0 < 5" "unat b1 = 128 + x1" "x1 < 64"
    and "unat b2 = 128 + x2" "x2 < 64" "unat b3 = 128 + x3" "x3 < 64"
    and "x0 = 0 \<longrightarrow> 16 \<le> x1" "x0 = 4 \<longrightarrow> x1 < 16"
  shows "\<exists>c. scalar_value c \<and> utf8_enc c = [b0, b1, b2, b3]"
proof -
  define c where "c = ((x0 * 64 + x1) * 64 + x2) * 64 + x3"
  have d: "c div 64 = (x0 * 64 + x1) * 64 + x2" "c mod 64 = x3"
    unfolding c_def by (rule base64_digit [OF assms(8)])+
  have e: "c div 64 mod 64 = x2" "c div 64 div 64 = x0 * 64 + x1"
    unfolding d by (rule base64_digit [OF assms(6)])+
  have f: "c div 64 div 64 mod 64 = x1" "c div 64 div 64 div 64 = x0"
    unfolding e by (rule base64_digit [OF assms(4)])+
  have g: "c div 4096 = c div 64 div 64" "c div 262144 = c div 64 div 64 div 64"
    by (simp_all flip: div_mult2_eq)
  have "65536 \<le> c" "c < 1114112"
    using assms by (cases "x0 = 0"; cases "x0 = 4"; simp add: c_def)+
  then have "scalar_value c \<and> utf8_enc c = [b0, b1, b2, b3]"
    using d(2) e(1) f g assms word_of_nat_unat_eq [OF assms(1)] word_of_nat_unat_eq [OF assms(3)]
      word_of_nat_unat_eq [OF assms(5)] word_of_nat_unat_eq [OF assms(7)]
    by (simp add: utf8_enc_def scalar_value_def)
  then show ?thesis by blast
qed


text \<open>The loop on a list with a first byte, as a recursion on the list.\<close>

lemma utf8_scan_Cons_Suc [simp]: "utf8_scan (x # p) (Suc i) = utf8_scan p i"
  using utf8_scan_shift [of "[x]" p i] by simp

lemma utf8_scan_Cons_numeral [simp]:
  "utf8_scan (x # p) (numeral k) = utf8_scan p (pred_numeral k)"
  by (simp add: numeral_eq_Suc)

lemma utf8_scan_Cons:
  "utf8_scan (b0 # q) 0 \<longleftrightarrow>
     (if unat b0 < 128 then utf8_scan q 0
      else if unat b0 < 194 then False
      else if unat b0 < 224 then
        (case q of b1 # r \<Rightarrow> utf8_cont b1 \<and> utf8_scan r 0 | _ \<Rightarrow> False)
      else if unat b0 < 240 then
        (case q of b1 # b2 # r \<Rightarrow>
           128 \<le> unat b1 \<and> unat b1 < 192 \<and> (unat b0 = 224 \<longrightarrow> 160 \<le> unat b1) \<and>
           (unat b0 = 237 \<longrightarrow> unat b1 < 160) \<and> utf8_cont b2 \<and> utf8_scan r 0 | _ \<Rightarrow> False)
      else if unat b0 < 245 then
        (case q of b1 # b2 # b3 # r \<Rightarrow>
           128 \<le> unat b1 \<and> unat b1 < 192 \<and> (unat b0 = 240 \<longrightarrow> 144 \<le> unat b1) \<and>
           (unat b0 = 244 \<longrightarrow> unat b1 < 144) \<and> utf8_cont b2 \<and> utf8_cont b3 \<and> utf8_scan r 0
         | _ \<Rightarrow> False)
      else False)"
  by (subst utf8_scan.simps)
    (auto simp: Let_def byte_nat word_unat_eq_iff split: list.split)

lemma utf8_scan_dest:
  assumes scan: "utf8_scan p 0" and ne: "p \<noteq> []"
  shows "\<exists>c ys. scalar_value c \<and> p = utf8_enc c @ ys \<and> utf8_scan ys 0"
proof -
  from ne obtain b0 q where p: "p = b0 # q" by (cases p) auto
  note s = scan [unfolded p utf8_scan_Cons]
  consider (w1) "unat b0 < 128" | (w2) "194 \<le> unat b0" "unat b0 < 224"
    | (w3) "224 \<le> unat b0" "unat b0 < 240" | (w4) "240 \<le> unat b0" "unat b0 < 245"
    using s by (auto split: if_splits)
  then have "\<exists>c e r. scalar_value c \<and> utf8_enc c = e \<and> p = e @ r \<and> utf8_scan r 0"
  proof cases
    case w1
    then have "scalar_value (unat b0)" "utf8_enc (unat b0) = [b0]"
      by (simp_all add: scalar_value_def utf8_enc_def)
    with w1 s p show ?thesis by auto
  next
    case w2
    with s obtain b1 r where q: "q = b1 # r" and b1: "utf8_cont b1" and sr: "utf8_scan r 0"
      by (auto split: list.splits)
    obtain x1 where "unat b1 = 128 + x1" "x1 < 64" using b1 by (rule utf8_cont_obtain)
    then have "\<exists>c. scalar_value c \<and> utf8_enc c = [b0, b1]"
      using w2 by (intro utf8_dec2 [of b0 "unat b0 - 192" b1 x1]) simp_all
    then obtain c where "scalar_value c" "utf8_enc c = [b0, b1]" by blast
    with sr p q show ?thesis by force
  next
    case w3
    with s obtain b1 b2 r where q: "q = b1 # b2 # r" and b2: "utf8_cont b2"
      and b1: "128 \<le> unat b1" "unat b1 < 192" and sr: "utf8_scan r 0"
      and lim: "unat b0 = 224 \<longrightarrow> 160 \<le> unat b1" "unat b0 = 237 \<longrightarrow> unat b1 < 160"
      by (auto split: list.splits)
    obtain x2 where "unat b2 = 128 + x2" "x2 < 64" using b2 by (rule utf8_cont_obtain)
    then have "\<exists>c. scalar_value c \<and> utf8_enc c = [b0, b1, b2]"
      using w3 b1 lim
      by (intro utf8_dec3 [of b0 "unat b0 - 224" b1 "unat b1 - 128" b2 x2]) auto
    then obtain c where "scalar_value c" "utf8_enc c = [b0, b1, b2]" by blast
    with sr p q show ?thesis by force
  next
    case w4
    with s obtain b1 b2 b3 r where q: "q = b1 # b2 # b3 # r"
      and b2: "utf8_cont b2" "utf8_cont b3" and sr: "utf8_scan r 0"
      and b1: "128 \<le> unat b1" "unat b1 < 192"
      and lim: "unat b0 = 240 \<longrightarrow> 144 \<le> unat b1" "unat b0 = 244 \<longrightarrow> unat b1 < 144"
      by (auto split: list.splits)
    obtain x2 where "unat b2 = 128 + x2" "x2 < 64" using b2(1) by (rule utf8_cont_obtain)
    moreover obtain x3 where "unat b3 = 128 + x3" "x3 < 64" using b2(2) by (rule utf8_cont_obtain)
    ultimately have "\<exists>c. scalar_value c \<and> utf8_enc c = [b0, b1, b2, b3]"
      using w4 b1 lim
      by (intro utf8_dec4 [of b0 "unat b0 - 240" b1 "unat b1 - 128" b2 x2 b3 x3]) auto
    then obtain c where "scalar_value c" "utf8_enc c = [b0, b1, b2, b3]" by blast
    with sr p q show ?thesis by force
  qed
  then show ?thesis by blast
qed

lemma utf8_enc_length_pos: "0 < length (utf8_enc c)"
  by (simp add: utf8_enc_def)

lemma utf8_scan_decodes:
  "utf8_scan p 0 \<Longrightarrow> \<exists>cs. list_all scalar_value cs \<and> p = utf8_string cs"
proof (induction "length p" arbitrary: p rule: less_induct)
  case less
  show ?case
  proof (cases "p = []")
    case True
    then show ?thesis by (intro exI [of _ "[]"]) (simp add: utf8_string_def)
  next
    case False
    with less.prems obtain c ys where c: "scalar_value c" and p: "p = utf8_enc c @ ys"
      and s: "utf8_scan ys 0"
      using utf8_scan_dest by blast
    from p utf8_enc_length_pos have "length ys < length p" by simp
    with s obtain cs where "list_all scalar_value cs" "ys = utf8_string cs"
      using less.hyps by blast
    with c p show ?thesis by (intro exI [of _ "c # cs"]) (simp add: utf8_string_def)
  qed
qed

section \<open>Properties\<close>

text \<open>
  C26. Name validation is exact: a byte string is accepted exactly when it is the
  concatenation of the UTF-8 encodings of a sequence of Unicode scalar values (no
  surrogates, no overlong form, nothing above U+10FFFF, no truncation).
\<close>

theorem utf8_ok_iff:
  "jav_name_utf8_ok b \<longleftrightarrow> (\<exists>cs. list_all scalar_value cs \<and> b = utf8_string cs)"
  unfolding jav_name_utf8_ok_def
  using utf8_scan_decodes utf8_scan_string by blast

end
