(* ===== verification/Subtype.thy ===== *)
theory Subtype
  imports Prelude
begin

text \<open>
  \<open>wasm/src/jav_subtype.c\<close> and \<open>jav_subtype.h\<close>: the reference subtype relation
  (Core specification, section 3.3) that the validator, the linker and the run-time
  casts consult.  A heap type is an \<open>int32_t\<close>: a negative abstract code or a
  non-negative type index.

  The C loop over the declared supertypes, \<open>super_chain\<close>, follows \<open>supers\<close> with no
  bound of its own, so the model lets it diverge: \<open>None\<close> is "the call does not
  return".  \<open>wf_subtype_ctx\<close> is what the type-section pass establishes, and under it
  every call returns.
\<close>

section \<open>Heap types and the context\<close>

abbreviation HT_BOT :: int where "HT_BOT \<equiv> -128"
abbreviation HT_NOEXN :: int where "HT_NOEXN \<equiv> -12"
abbreviation HT_NOFUNC :: int where "HT_NOFUNC \<equiv> -13"
abbreviation HT_NOEXTERN :: int where "HT_NOEXTERN \<equiv> -14"
abbreviation HT_NONE :: int where "HT_NONE \<equiv> -15"
abbreviation HT_FUNC :: int where "HT_FUNC \<equiv> -16"
abbreviation HT_EXTERN :: int where "HT_EXTERN \<equiv> -17"
abbreviation HT_ANY :: int where "HT_ANY \<equiv> -18"
abbreviation HT_EQ :: int where "HT_EQ \<equiv> -19"
abbreviation HT_I31 :: int where "HT_I31 \<equiv> -20"
abbreviation HT_STRUCT :: int where "HT_STRUCT \<equiv> -21"
abbreviation HT_ARRAY :: int where "HT_ARRAY \<equiv> -22"
abbreviation HT_EXN :: int where "HT_EXN \<equiv> -23"

abbreviation (input) WST_STRUCT :: nat where "WST_STRUCT \<equiv> 0"
abbreviation (input) WST_ARRAY :: nat where "WST_ARRAY \<equiv> 1"
abbreviation (input) WST_FUNC :: nat where "WST_FUNC \<equiv> 2"

text \<open>The arrays are lists; the optional \<open>canon\<close> pointer is an option.\<close>

record subtype_ctx =
  sc_kinds :: "nat list"
  sc_supers :: "int list"
  sc_ntypes :: nat
  sc_canon :: "int list option"

section \<open>The abstract lattice\<close>

definition abstract_parent :: "int \<Rightarrow> int" where
  "abstract_parent a =
     (if a = HT_I31 then HT_EQ
      else if a = HT_STRUCT then HT_EQ
      else if a = HT_ARRAY then HT_EQ
      else if a = HT_EQ then HT_ANY
      else if a = HT_NOFUNC then HT_FUNC
      else if a = HT_NOEXTERN then HT_EXTERN
      else if a = HT_NONE then HT_ANY
      else if a = HT_NOEXN then HT_EXN
      else HT_BOT)"

text \<open>The number of parents above a code: what the climbing loop decreases.\<close>

definition abstract_rank :: "int \<Rightarrow> nat" where
  "abstract_rank a =
     (if a = HT_BOT then 0
      else if a \<in> {HT_I31, HT_STRUCT, HT_ARRAY} then 3
      else if a \<in> {HT_EQ, HT_NOFUNC, HT_NOEXTERN, HT_NONE, HT_NOEXN} then 2
      else 1)"

function abstract_sub :: "int \<Rightarrow> int \<Rightarrow> bool" where
  "abstract_sub t b =
     (if t \<noteq> HT_BOT then (if t = b then True else abstract_sub (abstract_parent t) b)
      else False)"
  by pat_completeness auto
termination
  by (relation "measure (\<lambda>(t, b). abstract_rank t)")
    (auto simp: abstract_rank_def abstract_parent_def)

declare abstract_sub.simps [simp del]

definition in_any_hierarchy :: "subtype_ctx option \<Rightarrow> int \<Rightarrow> bool" where
  "in_any_hierarchy cx b =
     (if 0 \<le> b then
        (case cx of
           Some c \<Rightarrow>
             if nat b < sc_ntypes c
             then sc_kinds c ! nat b = WST_STRUCT \<or> sc_kinds c ! nat b = WST_ARRAY
             else False
         | None \<Rightarrow> False)
      else b \<in> {HT_ANY, HT_EQ, HT_I31, HT_STRUCT, HT_ARRAY, HT_NONE})"

definition in_func_hierarchy :: "subtype_ctx option \<Rightarrow> int \<Rightarrow> bool" where
  "in_func_hierarchy cx b =
     (if 0 \<le> b then
        (case cx of
           Some c \<Rightarrow> if nat b < sc_ntypes c then sc_kinds c ! nat b = WST_FUNC else False
         | None \<Rightarrow> False)
      else b = HT_FUNC \<or> b = HT_NOFUNC)"

section \<open>The relation\<close>

text \<open>Concrete against concrete: climb the declared supertypes of \<open>t\<close> looking for \<open>b\<close>.\<close>

partial_function (option) super_chain :: "subtype_ctx \<Rightarrow> int \<Rightarrow> int \<Rightarrow> bool option" where
  "super_chain c b t =
     (if 0 \<le> t \<and> nat t < sc_ntypes c then
        (if (case sc_canon c of
               Some cn \<Rightarrow> cn ! nat t = cn ! nat b
             | None \<Rightarrow> t = b)
         then Some True
         else super_chain c b (sc_supers c ! nat t))
      else Some False)"

declare super_chain.simps [code]

definition jav_ht_sub :: "subtype_ctx option \<Rightarrow> int \<Rightarrow> int \<Rightarrow> bool option" where
  "jav_ht_sub cx a b =
     (if a = b then Some True
      else if a = HT_BOT then Some True
      else if a = HT_NONE then Some (in_any_hierarchy cx b)
      else if a = HT_NOFUNC then Some (in_func_hierarchy cx b)
      else if a = HT_NOEXTERN then Some (b = HT_EXTERN \<or> b = HT_NOEXTERN)
      else if a = HT_NOEXN then Some (b = HT_EXN \<or> b = HT_NOEXN)
      else if 0 \<le> a then
        (if 0 \<le> b then
           (case cx of None \<Rightarrow> Some (a = b) | Some c \<Rightarrow> super_chain c b a)
         else
           (case cx of
              None \<Rightarrow> Some False
            | Some c \<Rightarrow>
                if \<not> nat a < sc_ntypes c then Some False
                else if sc_kinds c ! nat a = WST_STRUCT then Some (abstract_sub HT_STRUCT b)
                else if sc_kinds c ! nat a = WST_ARRAY then Some (abstract_sub HT_ARRAY b)
                else if sc_kinds c ! nat a = WST_FUNC then Some (abstract_sub HT_FUNC b)
                else Some False))
      else if 0 \<le> b then Some False
      else Some (abstract_sub a b))"

text \<open>The loop over the four tops; a diverging test makes the whole call diverge.\<close>

fun compatible_loop :: "subtype_ctx option \<Rightarrow> int \<Rightarrow> int \<Rightarrow> int list \<Rightarrow> bool option" where
  "compatible_loop cx a b [] = Some False"
| "compatible_loop cx a b (t # ts) =
     (case jav_ht_sub cx a t of
        None \<Rightarrow> None
      | Some False \<Rightarrow> compatible_loop cx a b ts
      | Some True \<Rightarrow>
          (case jav_ht_sub cx b t of
             None \<Rightarrow> None
           | Some True \<Rightarrow> Some True
           | Some False \<Rightarrow> compatible_loop cx a b ts))"

definition jav_ht_compatible :: "subtype_ctx option \<Rightarrow> int \<Rightarrow> int \<Rightarrow> bool option" where
  "jav_ht_compatible cx a b = compatible_loop cx a b [HT_ANY, HT_FUNC, HT_EXTERN, HT_EXN]"

definition jav_rt_sub :: "subtype_ctx option \<Rightarrow> bool \<Rightarrow> int \<Rightarrow> bool \<Rightarrow> int \<Rightarrow> bool option" where
  "jav_rt_sub cx a_nullable a b_nullable b =
     (case jav_ht_sub cx a b of
        None \<Rightarrow> None
      | Some False \<Rightarrow> Some False
      | Some True \<Rightarrow> Some (\<not> a_nullable \<or> b_nullable))"

section \<open>Well-formed contexts\<close>

text \<open>
  What validation of the type section and canonicalization establish: the arrays have
  one entry per type, a declared supertype is an earlier type of the same kind, and
  types with one canonical id have the same kind and canonically equal supertypes.
\<close>

definition canon_eq :: "subtype_ctx \<Rightarrow> int \<Rightarrow> int \<Rightarrow> bool" where
  "canon_eq c t b = (case sc_canon c of Some cn \<Rightarrow> cn ! nat t = cn ! nat b | None \<Rightarrow> t = b)"

definition canon_super :: "subtype_ctx \<Rightarrow> int \<Rightarrow> int \<Rightarrow> bool" where
  "canon_super c t u \<longleftrightarrow>
     (t < 0 \<and> u < 0) \<or> (0 \<le> t \<and> 0 \<le> u \<and> canon_eq c t u)"

definition wf_subtype_ctx :: "subtype_ctx \<Rightarrow> bool" where
  "wf_subtype_ctx c \<longleftrightarrow>
     length (sc_kinds c) = sc_ntypes c \<and> length (sc_supers c) = sc_ntypes c \<and>
     (case sc_canon c of Some cn \<Rightarrow> length cn = sc_ntypes c | None \<Rightarrow> True) \<and>
     (\<forall>t < sc_ntypes c.
        sc_kinds c ! t \<in> {WST_STRUCT, WST_ARRAY, WST_FUNC} \<and> sc_supers c ! t < int t \<and>
        (0 \<le> sc_supers c ! t \<longrightarrow> sc_kinds c ! nat (sc_supers c ! t) = sc_kinds c ! t)) \<and>
     (\<forall>t < sc_ntypes c. \<forall>u < sc_ntypes c. canon_eq c (int t) (int u) \<longrightarrow>
        sc_kinds c ! t = sc_kinds c ! u \<and> canon_super c (sc_supers c ! t) (sc_supers c ! u))"

definition wf_lattice :: "subtype_ctx option \<Rightarrow> bool" where
  "wf_lattice cx = (case cx of None \<Rightarrow> True | Some c \<Rightarrow> wf_subtype_ctx c)"

text \<open>A heap type that names no type outside the context.\<close>

definition ht_in_ctx :: "subtype_ctx option \<Rightarrow> int \<Rightarrow> bool" where
  "ht_in_ctx cx a = (case cx of None \<Rightarrow> True | Some c \<Rightarrow> a < int (sc_ntypes c))"


section \<open>The climbing loops\<close>

lemma abstract_parent3: "abstract_parent (abstract_parent (abstract_parent a)) = HT_BOT"
  by (simp add: abstract_parent_def)

lemma abstract_sub_iff:
  "abstract_sub a b \<longleftrightarrow> a \<noteq> HT_BOT \<and>
     (b = a \<or> (b \<noteq> HT_BOT \<and> (b = abstract_parent a \<or> b = abstract_parent (abstract_parent a))))"
proof -
  have p: "abstract_parent HT_BOT = HT_BOT" by (simp add: abstract_parent_def)
  have e: "abstract_sub HT_BOT b = False" for b by (subst abstract_sub.simps) simp
  show ?thesis
    using p e abstract_parent3 [of a]
    by (simp add: abstract_sub.simps [of a b] abstract_sub.simps [of "abstract_parent a" b]
        abstract_sub.simps [of "abstract_parent (abstract_parent a)" b])
qed


lemma super_chain_unfold:
  "0 \<le> t \<Longrightarrow> nat t < sc_ntypes c \<Longrightarrow>
     super_chain c b t =
       (if canon_eq c t b then Some True else super_chain c b (sc_supers c ! nat t))"
  by (subst super_chain.simps) (simp add: canon_eq_def)

lemma super_chain_out: "\<not> (0 \<le> t \<and> nat t < sc_ntypes c) \<Longrightarrow> super_chain c b t = Some False"
  by (subst super_chain.simps) (rule if_not_P)

lemma super_chain_neg: "t < 0 \<Longrightarrow> super_chain c b t = Some False"
  by (simp add: super_chain_out)

lemma super_chain_True_range:
  assumes "super_chain c b t = Some True"
  shows "0 \<le> t \<and> nat t < sc_ntypes c"
proof (rule ccontr)
  assume "\<not> ?thesis"
  then have "super_chain c b t = Some False" by (rule super_chain_out)
  with assms show False by simp
qed

lemma wf_super_lt:
  "wf_subtype_ctx c \<Longrightarrow> 0 \<le> t \<Longrightarrow> nat t < sc_ntypes c \<Longrightarrow> sc_supers c ! nat t < t"
  by (auto simp: wf_subtype_ctx_def)

text \<open>Every declared supertype is an earlier type: all that termination needs.\<close>

definition supers_earlier :: "subtype_ctx option \<Rightarrow> bool" where
  "supers_earlier cx =
     (case cx of None \<Rightarrow> True | Some c \<Rightarrow> \<forall>t < sc_ntypes c. sc_supers c ! t < int t)"

lemma wf_supers_earlier: "wf_lattice cx \<Longrightarrow> supers_earlier cx"
  by (auto simp: wf_lattice_def wf_subtype_ctx_def supers_earlier_def split: option.splits)

lemma super_chain_total:
  assumes "supers_earlier (Some c)"
  shows "\<exists>r. super_chain c b t = Some r"
proof (induction "nat t" arbitrary: t rule: less_induct)
  case less
  show ?case
  proof (cases "0 \<le> t \<and> nat t < sc_ntypes c")
    case True
    let ?u = "sc_supers c ! nat t"
    have "?u < t" using True assms by (auto simp: supers_earlier_def)
    then have "\<exists>r. super_chain c b ?u = Some r"
      by (cases "0 \<le> ?u") (auto intro: less simp: super_chain_neg)
    with True show ?thesis by (auto simp: super_chain_unfold)
  next
    case False
    then show ?thesis using super_chain_out by blast
  qed
qed

lemma canon_eq_refl: "canon_eq c a a"
  by (simp add: canon_eq_def split: option.split)

lemma canon_eq_sym: "canon_eq c a b \<Longrightarrow> canon_eq c b a"
  by (auto simp: canon_eq_def split: option.splits)

lemma canon_eq_trans: "canon_eq c a b \<Longrightarrow> canon_eq c b d \<Longrightarrow> canon_eq c a d"
  by (auto simp: canon_eq_def split: option.splits)

lemma wf_canon_super:
  assumes "wf_subtype_ctx c" "0 \<le> t" "nat t < sc_ntypes c" "0 \<le> u" "nat u < sc_ntypes c" "canon_eq c t u"
  shows "sc_kinds c ! nat t = sc_kinds c ! nat u"
    and "canon_super c (sc_supers c ! nat t) (sc_supers c ! nat u)"
  using assms by (auto simp: wf_subtype_ctx_def)

lemma super_chain_canon:
  assumes "wf_subtype_ctx c" "0 \<le> t" "nat t < sc_ntypes c" "0 \<le> u" "nat u < sc_ntypes c"
    "canon_eq c t u"
  shows "super_chain c d t = super_chain c d u"
  using assms(2-)
proof (induction "nat t" arbitrary: t u rule: less_induct)
  case less
  let ?t = "sc_supers c ! nat t" and ?u = "sc_supers c ! nat u"
  have lt: "?t < t" "?u < u" using less.prems wf_super_lt [OF assms(1)] by blast+
  have d: "canon_eq c t d \<longleftrightarrow> canon_eq c u d"
    using less.prems canon_eq_sym canon_eq_trans by blast
  have "canon_super c ?t ?u" using less.prems wf_canon_super(2) [OF assms(1)] by blast
  then have "super_chain c d ?t = super_chain c d ?u"
    using lt less.prems less.hyps [of ?t ?u]
    by (auto simp: canon_super_def super_chain_neg)
  with d show ?case using less.prems by (simp add: super_chain_unfold)
qed

lemma super_chain_trans:
  assumes wf: "wf_subtype_ctx c" and b: "0 \<le> b" "nat b < sc_ntypes c"
    and ab: "super_chain c b a = Some True" and bd: "super_chain c d b = Some True"
  shows "super_chain c d a = Some True"
  using ab
proof (induction "nat a" arbitrary: a rule: less_induct)
  case less
  have a: "0 \<le> a" "nat a < sc_ntypes c"
    using super_chain_True_range [OF less.prems] by simp_all
  show ?case
  proof (cases "canon_eq c a b")
    case True
    with a b bd show ?thesis using super_chain_canon [OF wf] by auto
  next
    case False
    let ?u = "sc_supers c ! nat a"
    have u: "super_chain c b ?u = Some True" using False less.prems a by (simp add: super_chain_unfold)
    then have "0 \<le> ?u" by (metis linorder_not_le option.inject super_chain_neg)
    with u have "super_chain c d ?u = Some True"
      using less.hyps [of ?u] wf_super_lt [OF wf a] by simp
    with a show ?thesis by (simp add: super_chain_unfold)
  qed
qed

lemma super_chain_kind:
  assumes wf: "wf_subtype_ctx c" and b: "0 \<le> b" "nat b < sc_ntypes c"
    and ab: "super_chain c b a = Some True"
  shows "0 \<le> a \<and> nat a < sc_ntypes c \<and> sc_kinds c ! nat a = sc_kinds c ! nat b"
  using ab
proof (induction "nat a" arbitrary: a rule: less_induct)
  case less
  have a: "0 \<le> a" "nat a < sc_ntypes c"
    using super_chain_True_range [OF less.prems] by simp_all
  show ?case
  proof (cases "canon_eq c a b")
    case True
    with a b show ?thesis using wf_canon_super(1) [OF wf] by blast
  next
    case False
    let ?u = "sc_supers c ! nat a"
    have u: "super_chain c b ?u = Some True" using False less.prems a by (simp add: super_chain_unfold)
    then have "0 \<le> ?u" by (metis linorder_not_le option.inject super_chain_neg)
    moreover from this have "sc_kinds c ! nat ?u = sc_kinds c ! nat a"
      using wf a by (auto simp: wf_subtype_ctx_def)
    ultimately show ?thesis using a u less.hyps [of ?u] wf_super_lt [OF wf a] by simp
  qed
qed

lemma jav_ht_sub_total:
  assumes "supers_earlier cx"
  shows "\<exists>r. jav_ht_sub cx a b = Some r"
  using assms super_chain_total
  by (auto simp: jav_ht_sub_def split: option.split)

text \<open>
  The answer "yes" of the call, as a predicate: what the callers branch on.
\<close>

definition ht_sub :: "subtype_ctx option \<Rightarrow> int \<Rightarrow> int \<Rightarrow> bool" where
  "ht_sub cx a b \<longleftrightarrow> jav_ht_sub cx a b = Some True"

lemma ht_sub_refl: "ht_sub cx a a"
  by (simp add: ht_sub_def jav_ht_sub_def)

lemma abstract_sub_refl: "a \<noteq> HT_BOT \<Longrightarrow> abstract_sub a a"
  by (subst abstract_sub.simps) simp

lemma abstract_sub_upper:
  "abstract_sub a b \<Longrightarrow> a \<noteq> b \<Longrightarrow> b \<in> {HT_EQ, HT_ANY, HT_FUNC, HT_EXTERN, HT_EXN}"
  by (auto simp: abstract_sub_iff abstract_parent_def split: if_splits)

lemma abstract_sub_trans: "abstract_sub a b \<Longrightarrow> abstract_sub b d \<Longrightarrow> abstract_sub a d"
proof (induction a b rule: abstract_sub.induct)
  case (1 t b)
  then show ?case
    by (cases "t = b") (simp_all add: abstract_sub.simps [of t b] abstract_sub.simps [of t d]
        split: if_splits)
qed

lemma ht_sub_upper:
  "b \<in> {HT_EQ, HT_ANY, HT_FUNC, HT_EXTERN, HT_EXN, HT_STRUCT, HT_ARRAY, HT_I31} \<Longrightarrow>
     ht_sub cx b d \<longleftrightarrow> d < 0 \<and> abstract_sub b d"
  by (auto simp: ht_sub_def jav_ht_sub_def abstract_sub_refl)

lemma ht_sub_abstract_trans:
  "abstract_sub a b \<Longrightarrow> a \<noteq> b \<Longrightarrow> ht_sub cx b d \<Longrightarrow> d < 0 \<and> abstract_sub a d"
  using abstract_sub_upper [of a b] ht_sub_upper [of b cx d] abstract_sub_trans [of a b d] by blast

text \<open>The concrete types: below another concrete type, or below an abstract type by kind.\<close>

lemma ht_sub_concrete:
  "0 \<le> a \<Longrightarrow> 0 \<le> b \<Longrightarrow> ht_sub (Some c) a b \<longleftrightarrow> a = b \<or> super_chain c b a = Some True"
  by (auto simp: ht_sub_def jav_ht_sub_def)

definition kind_ht :: "nat \<Rightarrow> int" where
  "kind_ht k = (if k = WST_STRUCT then HT_STRUCT else if k = WST_ARRAY then HT_ARRAY else HT_FUNC)"

lemma ht_sub_kind:
  assumes "0 \<le> a" "b < 0" "nat a < sc_ntypes c" "wf_subtype_ctx c"
  shows "ht_sub (Some c) a b \<longleftrightarrow> abstract_sub (kind_ht (sc_kinds c ! nat a)) b"
  using assms by (auto simp: ht_sub_def jav_ht_sub_def kind_ht_def wf_subtype_ctx_def)

lemma ht_sub_concrete_trans:
  assumes wf: "wf_subtype_ctx c" and a: "0 \<le> a" "nat a < sc_ntypes c"
    and b: "ht_in_ctx (Some c) b" and ab: "ht_sub (Some c) a b" and bd: "ht_sub (Some c) b d"
  shows "ht_sub (Some c) a d"
proof (cases "0 \<le> b")
  case True
  then have b': "nat b < sc_ntypes c" using b by (simp add: ht_in_ctx_def)
  show ?thesis
  proof (cases "0 \<le> d")
    case True
    then show ?thesis
      using \<open>0 \<le> b\<close> b' a ab bd super_chain_trans [OF wf, of b a d] by (auto simp: ht_sub_concrete)
  next
    case False
    have "sc_kinds c ! nat a = sc_kinds c ! nat b"
      using ab a True super_chain_kind [OF wf True b'] by (auto simp: ht_sub_concrete)
    then show ?thesis using False True a b' bd wf by (simp add: ht_sub_kind)
  qed
next
  case False
  let ?k = "kind_ht (sc_kinds c ! nat a)"
  have k: "abstract_sub ?k b" using False a ab wf by (simp add: ht_sub_kind)
  have "d < 0 \<and> abstract_sub ?k d"
  proof (cases "?k = b")
    case True
    then show ?thesis using bd ht_sub_upper [of b "Some c" d] by (auto simp: kind_ht_def split: if_splits)
  next
    case False
    then show ?thesis using k bd ht_sub_abstract_trans by blast
  qed
  then show ?thesis using a wf by (simp add: ht_sub_kind)
qed

lemma abstract_sub_BOT: "\<not> abstract_sub a HT_BOT"
  by (simp add: abstract_sub_iff)

text \<open>The relation, one equation per class of its left side.\<close>

lemma ht_sub_bot_left: "ht_sub cx HT_BOT b"
  by (simp add: ht_sub_def jav_ht_sub_def)

lemma ht_sub_none: "ht_sub cx HT_NONE b \<longleftrightarrow> in_any_hierarchy cx b"
  by (auto simp: ht_sub_def jav_ht_sub_def in_any_hierarchy_def)

lemma ht_sub_nofunc: "ht_sub cx HT_NOFUNC b \<longleftrightarrow> in_func_hierarchy cx b"
  by (auto simp: ht_sub_def jav_ht_sub_def in_func_hierarchy_def)

lemma ht_sub_noextern: "ht_sub cx HT_NOEXTERN b \<longleftrightarrow> b = HT_EXTERN \<or> b = HT_NOEXTERN"
  by (auto simp: ht_sub_def jav_ht_sub_def)

lemma ht_sub_noexn: "ht_sub cx HT_NOEXN b \<longleftrightarrow> b = HT_EXN \<or> b = HT_NOEXN"
  by (auto simp: ht_sub_def jav_ht_sub_def)

lemma ht_sub_abstract:
  "a < 0 \<Longrightarrow> a \<notin> {HT_BOT, HT_NONE, HT_NOFUNC, HT_NOEXTERN, HT_NOEXN} \<Longrightarrow>
     ht_sub cx a b \<longleftrightarrow> b < 0 \<and> abstract_sub a b"
  by (auto simp: ht_sub_def jav_ht_sub_def abstract_sub_refl)

lemma ht_sub_None_concrete: "0 \<le> a \<Longrightarrow> ht_sub None a b \<longleftrightarrow> a = b"
  by (auto simp: ht_sub_def jav_ht_sub_def)

lemma kind_ht_in: "kind_ht k \<in> {HT_STRUCT, HT_ARRAY, HT_FUNC}"
  by (simp add: kind_ht_def)

lemma in_any_concrete:
  assumes "wf_subtype_ctx c" "0 \<le> b" "nat b < sc_ntypes c"
  shows "in_any_hierarchy (Some c) b \<longleftrightarrow> kind_ht (sc_kinds c ! nat b) \<noteq> HT_FUNC"
proof -
  have "sc_kinds c ! nat b \<in> {WST_STRUCT, WST_ARRAY, WST_FUNC}"
    using assms by (auto simp: wf_subtype_ctx_def)
  with assms show ?thesis by (auto simp: in_any_hierarchy_def kind_ht_def)
qed

lemma in_func_concrete:
  assumes "wf_subtype_ctx c" "0 \<le> b" "nat b < sc_ntypes c"
  shows "in_func_hierarchy (Some c) b \<longleftrightarrow> kind_ht (sc_kinds c ! nat b) = HT_FUNC"
proof -
  have "sc_kinds c ! nat b \<in> {WST_STRUCT, WST_ARRAY, WST_FUNC}"
    using assms by (auto simp: wf_subtype_ctx_def)
  with assms show ?thesis by (auto simp: in_func_hierarchy_def kind_ht_def)
qed

lemma in_any_abstract:
  "b < 0 \<Longrightarrow> in_any_hierarchy cx b \<longleftrightarrow>
     b \<in> {HT_ANY, HT_EQ, HT_I31, HT_STRUCT, HT_ARRAY, HT_NONE}"
  by (simp add: in_any_hierarchy_def)

lemma in_func_abstract: "b < 0 \<Longrightarrow> in_func_hierarchy cx b \<longleftrightarrow> b \<in> {HT_FUNC, HT_NOFUNC}"
  by (simp add: in_func_hierarchy_def)

lemma kind_ht_any: "abstract_sub (kind_ht k) HT_ANY \<longleftrightarrow> kind_ht k \<noteq> HT_FUNC"
  by (simp add: kind_ht_def abstract_sub_iff abstract_parent_def)

lemma kind_ht_func: "abstract_sub (kind_ht k) HT_FUNC \<longleftrightarrow> kind_ht k = HT_FUNC"
  by (simp add: kind_ht_def abstract_sub_iff abstract_parent_def)

text \<open>Membership in the two hierarchies that hold concrete types, read off the relation.\<close>

lemma abstract_sub_ANY: "abstract_sub b HT_ANY \<longleftrightarrow> b \<in> {HT_ANY, HT_EQ, HT_I31, HT_STRUCT, HT_ARRAY, HT_NONE}"
  by (auto simp: abstract_sub_iff abstract_parent_def)

lemma abstract_sub_FUNC: "abstract_sub b HT_FUNC \<longleftrightarrow> b \<in> {HT_FUNC, HT_NOFUNC}"
  by (auto simp: abstract_sub_iff abstract_parent_def)

lemma in_any_iff:
  assumes "wf_lattice cx" "ht_in_ctx cx b" "b \<noteq> HT_BOT"
  shows "in_any_hierarchy cx b \<longleftrightarrow> ht_sub cx b HT_ANY"
proof (cases "0 \<le> b")
  case True
  with assms show ?thesis
    by (cases cx) (simp_all add: ht_sub_None_concrete in_any_hierarchy_def [of None] in_any_concrete ht_sub_kind
        kind_ht_any wf_lattice_def ht_in_ctx_def)
next
  case False
  with assms(3) show ?thesis
    by (cases "b \<in> {HT_NONE, HT_NOFUNC, HT_NOEXTERN, HT_NOEXN}")
      (auto simp: in_any_abstract in_func_abstract ht_sub_none ht_sub_nofunc ht_sub_noextern ht_sub_noexn
        ht_sub_abstract abstract_sub_ANY)
qed

lemma in_func_iff:
  assumes "wf_lattice cx" "ht_in_ctx cx b" "b \<noteq> HT_BOT"
  shows "in_func_hierarchy cx b \<longleftrightarrow> ht_sub cx b HT_FUNC"
proof (cases "0 \<le> b")
  case True
  with assms show ?thesis
    by (cases cx) (simp_all add: ht_sub_None_concrete in_func_hierarchy_def [of None] in_func_concrete ht_sub_kind
        kind_ht_func wf_lattice_def ht_in_ctx_def)
next
  case False
  with assms(3) show ?thesis
    by (cases "b \<in> {HT_NONE, HT_NOFUNC, HT_NOEXTERN, HT_NOEXN}")
      (auto simp: in_any_abstract in_func_abstract ht_sub_none ht_sub_nofunc ht_sub_noextern ht_sub_noexn
        ht_sub_abstract abstract_sub_FUNC)
qed


lemma abstract_sub_of_any:
  "abstract_sub b d \<Longrightarrow> b \<in> {HT_ANY, HT_EQ, HT_I31, HT_STRUCT, HT_ARRAY} \<Longrightarrow>
     d \<in> {HT_ANY, HT_EQ, HT_I31, HT_STRUCT, HT_ARRAY}"
  by (auto simp: abstract_sub_iff abstract_parent_def)

lemma abstract_sub_of_func: "abstract_sub HT_FUNC d \<Longrightarrow> d = HT_FUNC"
  by (auto simp: abstract_sub_iff abstract_parent_def)

lemma hierarchy_up_concrete:
  assumes wf: "wf_subtype_ctx c" and b: "0 \<le> b" "nat b < sc_ntypes c" and d: "ht_in_ctx (Some c) d"
    and bd: "ht_sub (Some c) b d"
  shows "in_any_hierarchy (Some c) b \<Longrightarrow> in_any_hierarchy (Some c) d"
    and "in_func_hierarchy (Some c) b \<Longrightarrow> in_func_hierarchy (Some c) d"
proof -
  let ?k = "kind_ht (sc_kinds c ! nat b)"
  have "(?k \<noteq> HT_FUNC \<longrightarrow> in_any_hierarchy (Some c) d) \<and> (?k = HT_FUNC \<longrightarrow> in_func_hierarchy (Some c) d)"
  proof (cases "0 \<le> d")
    case True
    with d have d': "nat d < sc_ntypes c" by (simp add: ht_in_ctx_def)
    have "sc_kinds c ! nat b = sc_kinds c ! nat d"
      using bd b True super_chain_kind [OF wf True d'] by (auto simp: ht_sub_concrete)
    with wf True d' show ?thesis by (simp add: in_any_concrete in_func_concrete)
  next
    case False
    then have "abstract_sub ?k d" using bd b wf by (simp add: ht_sub_kind)
    with False show ?thesis
      using kind_ht_in [of "sc_kinds c ! nat b"] abstract_sub_of_any [of ?k d] abstract_sub_of_func [of d]
      by (auto simp: in_any_abstract in_func_abstract)
  qed
  then show "in_any_hierarchy (Some c) b \<Longrightarrow> in_any_hierarchy (Some c) d"
    and "in_func_hierarchy (Some c) b \<Longrightarrow> in_func_hierarchy (Some c) d"
    using wf b by (simp_all add: in_any_concrete in_func_concrete)
qed

lemma hierarchy_up:
  assumes "wf_lattice cx" "ht_in_ctx cx b" "ht_in_ctx cx d" "ht_sub cx b d"
  shows "in_any_hierarchy cx b \<Longrightarrow> in_any_hierarchy cx d"
    and "in_func_hierarchy cx b \<Longrightarrow> in_func_hierarchy cx d"
proof -
  have "(in_any_hierarchy cx b \<longrightarrow> in_any_hierarchy cx d) \<and>
        (in_func_hierarchy cx b \<longrightarrow> in_func_hierarchy cx d)"
  proof (cases "0 \<le> b")
    case True
    with assms show ?thesis
      by (cases cx) (auto simp: ht_sub_None_concrete wf_lattice_def ht_in_ctx_def
          dest: hierarchy_up_concrete)
  next
    case False
    then show ?thesis using assms(4)
      by (auto simp: in_any_abstract in_func_abstract ht_sub_none ht_sub_nofunc ht_sub_abstract
          dest: abstract_sub_of_any abstract_sub_of_func)
  qed
  then show "in_any_hierarchy cx b \<Longrightarrow> in_any_hierarchy cx d"
    and "in_func_hierarchy cx b \<Longrightarrow> in_func_hierarchy cx d" by blast+
qed

lemma ht_sub_trans:
  assumes wf: "wf_lattice cx" and ctx: "ht_in_ctx cx a" "ht_in_ctx cx b" "ht_in_ctx cx d"
    and ab: "ht_sub cx a b" and bd: "ht_sub cx b d"
  shows "ht_sub cx a d"
proof -
  consider "a = b \<or> a = HT_BOT" | "0 \<le> a" "a \<noteq> b"
    | "a \<noteq> b" "a \<in> {HT_NONE, HT_NOFUNC, HT_NOEXTERN, HT_NOEXN}"
    | "a < 0" "a \<noteq> b" "a \<notin> {HT_BOT, HT_NONE, HT_NOFUNC, HT_NOEXTERN, HT_NOEXN}"
    by fastforce
  then show ?thesis
  proof cases
    case 1
    with bd show ?thesis by (auto simp: ht_sub_bot_left)
  next
    case 2
    with assms show ?thesis
      by (cases cx)
        (auto simp: ht_sub_None_concrete wf_lattice_def ht_in_ctx_def intro: ht_sub_concrete_trans)
  next
    case 3
    have "b \<in> {HT_EXTERN, HT_EXN} \<Longrightarrow> d = b"
      using bd by (auto simp: ht_sub_abstract abstract_sub_iff abstract_parent_def)
    with 3 ab bd hierarchy_up [OF wf ctx(2,3) bd] show ?thesis
      by (auto simp: ht_sub_none ht_sub_nofunc ht_sub_noextern ht_sub_noexn)
  next
    case 4
    then have "abstract_sub a b" using ab by (simp add: ht_sub_abstract)
    with 4 bd have "d < 0 \<and> abstract_sub a d" using ht_sub_abstract_trans by blast
    with 4 show ?thesis by (simp add: ht_sub_abstract)
  qed
qed


section \<open>The declarative relation\<close>

inductive ht_le :: "subtype_ctx option \<Rightarrow> int \<Rightarrow> int \<Rightarrow> bool" for cx where
  hle_refl: "ht_le cx a a"
| hle_trans: "ht_le cx a b \<Longrightarrow> ht_in_ctx cx b \<Longrightarrow> ht_le cx b d \<Longrightarrow> ht_le cx a d"
| hle_bot: "ht_le cx HT_BOT a"
| hle_eq: "ht_le cx HT_EQ HT_ANY"
| le_i31: "ht_le cx HT_I31 HT_EQ"
| hle_struct: "ht_le cx HT_STRUCT HT_EQ"
| hle_array: "ht_le cx HT_ARRAY HT_EQ"
| hle_none: "ht_le cx b HT_ANY \<Longrightarrow> ht_in_ctx cx b \<Longrightarrow> b \<noteq> HT_BOT \<Longrightarrow> ht_le cx HT_NONE b"
| hle_nofunc: "ht_le cx b HT_FUNC \<Longrightarrow> ht_in_ctx cx b \<Longrightarrow> b \<noteq> HT_BOT \<Longrightarrow> ht_le cx HT_NOFUNC b"
| hle_noextern: "ht_le cx HT_NOEXTERN HT_EXTERN"
| hle_noexn: "ht_le cx HT_NOEXN HT_EXN"
| hle_kind: "cx = Some c \<Longrightarrow> 0 \<le> a \<Longrightarrow> nat a < sc_ntypes c \<Longrightarrow>
    ht_le cx a (kind_ht (sc_kinds c ! nat a))"
| hle_super: "cx = Some c \<Longrightarrow> 0 \<le> a \<Longrightarrow> nat a < sc_ntypes c \<Longrightarrow> 0 \<le> sc_supers c ! nat a \<Longrightarrow>
    ht_le cx a (sc_supers c ! nat a)"
| hle_canon: "cx = Some c \<Longrightarrow> 0 \<le> a \<Longrightarrow> nat a < sc_ntypes c \<Longrightarrow> 0 \<le> b \<Longrightarrow> nat b < sc_ntypes c \<Longrightarrow>
    canon_eq c a b \<Longrightarrow> ht_le cx a b"

lemma ht_in_ctx_abstract: "a < 0 \<Longrightarrow> ht_in_ctx cx a"
  by (auto simp: ht_in_ctx_def split: option.split)

lemma wf_super_in_ctx:
  "wf_subtype_ctx c \<Longrightarrow> 0 \<le> a \<Longrightarrow> nat a < sc_ntypes c \<Longrightarrow> ht_in_ctx (Some c) (sc_supers c ! nat a)"
  using wf_super_lt [of c a] by (simp add: ht_in_ctx_def)

lemma ht_sub_super:
  assumes "wf_subtype_ctx c" "0 \<le> a" "nat a < sc_ntypes c" "0 \<le> sc_supers c ! nat a"
  shows "ht_sub (Some c) a (sc_supers c ! nat a)"
proof -
  let ?u = "sc_supers c ! nat a"
  have "?u < a" using assms wf_super_lt by blast
  then have "super_chain c ?u ?u = Some True"
    using assms by (simp add: super_chain_unfold canon_eq_refl)
  then show ?thesis using assms by (simp add: ht_sub_concrete super_chain_unfold)
qed

lemma ht_le_imp_sub:
  assumes wf: "wf_lattice cx"
  shows "ht_le cx a b \<Longrightarrow> ht_in_ctx cx a \<Longrightarrow> ht_in_ctx cx b \<Longrightarrow> ht_sub cx a b"
proof (induction rule: ht_le.induct)
  case (hle_trans a b d)
  then show ?case using ht_sub_trans [OF wf] by blast
next
  case (hle_none b)
  then show ?case using wf by (simp add: ht_sub_none in_any_iff ht_in_ctx_abstract)
next
  case (hle_nofunc b)
  then show ?case using wf by (simp add: ht_sub_nofunc in_func_iff ht_in_ctx_abstract)
next
  case (hle_kind c a)
  then show ?case using wf kind_ht_in [of "sc_kinds c ! nat a"]
    by (auto simp: wf_lattice_def ht_sub_kind abstract_sub_refl)
next
  case (hle_super c a)
  then show ?case using wf by (simp add: wf_lattice_def ht_sub_super)
next
  case (hle_canon c a b)
  then show ?case by (simp add: ht_sub_concrete super_chain_unfold)
qed (simp_all add: ht_sub_refl ht_sub_bot_left ht_sub_abstract ht_sub_noextern ht_sub_noexn
    abstract_sub_iff abstract_parent_def)

lemma abstract_edge_le: "abstract_parent a \<noteq> HT_BOT \<Longrightarrow> ht_le cx a (abstract_parent a)"
  using ht_le.intros(4-7,10,11) [of cx] hle_none [OF hle_refl, of cx] hle_nofunc [OF hle_refl, of cx]
  by (auto simp: abstract_parent_def ht_in_ctx_abstract split: if_splits)

lemma abstract_sub_imp_le: "abstract_sub a b \<Longrightarrow> ht_le cx a b"
proof (induction a b rule: abstract_sub.induct)
  case (1 t b)
  show ?case
  proof (cases "t = b")
    case True
    then show ?thesis by (simp add: hle_refl)
  next
    case False
    with "1.prems" have t: "t \<noteq> HT_BOT" "abstract_sub (abstract_parent t) b"
      by (simp_all add: abstract_sub.simps [of t b] split: if_splits)
    then have p: "abstract_parent t \<noteq> HT_BOT" using abstract_sub_iff by blast
    moreover have "ht_in_ctx cx (abstract_parent t)"
      by (rule ht_in_ctx_abstract) (simp add: abstract_parent_def)
    ultimately show ?thesis
      using hle_trans [OF abstract_edge_le [OF p]] "1.IH" [OF t(1) False t(2)] by blast
  qed
qed

lemma super_chain_imp_le:
  assumes wf: "wf_subtype_ctx c" and b: "0 \<le> b" "nat b < sc_ntypes c"
  shows "super_chain c b a = Some True \<Longrightarrow> ht_le (Some c) a b"
proof (induction "nat a" arbitrary: a rule: less_induct)
  case less
  have a: "0 \<le> a" "nat a < sc_ntypes c"
    using super_chain_True_range [OF less.prems] by simp_all
  show ?case
  proof (cases "canon_eq c a b")
    case True
    with a b show ?thesis by (intro hle_canon) auto
  next
    case False
    let ?u = "sc_supers c ! nat a"
    have u: "super_chain c b ?u = Some True" using False less.prems a by (simp add: super_chain_unfold)
    then have u0: "0 \<le> ?u" using super_chain_True_range by blast
    have "ht_le (Some c) ?u b"
      using less.hyps [of ?u] u u0 wf_super_lt [OF wf a] by simp
    then show ?thesis
      using hle_trans [OF hle_super wf_super_in_ctx [OF wf a]] a u0 by blast
  qed
qed

lemma in_any_imp_le:
  assumes wf: "wf_lattice cx" and b: "ht_in_ctx cx b"
  shows "in_any_hierarchy cx b \<Longrightarrow> ht_le cx HT_NONE b"
    and "in_func_hierarchy cx b \<Longrightarrow> ht_le cx HT_NOFUNC b"
proof -
  have "b \<noteq> HT_BOT \<longrightarrow> (in_any_hierarchy cx b \<longrightarrow> b = HT_NONE \<or> ht_le cx b HT_ANY) \<and>
     (in_func_hierarchy cx b \<longrightarrow> b = HT_NOFUNC \<or> ht_le cx b HT_FUNC)"
  proof (cases "0 \<le> b")
    case False
    then show ?thesis
      using abstract_sub_imp_le abstract_sub_ANY abstract_sub_FUNC
      by (auto simp: in_any_abstract in_func_abstract)
  next
    case True
    show ?thesis
    proof (cases cx)
      case None
      with True show ?thesis by (simp add: in_any_hierarchy_def in_func_hierarchy_def)
    next
      case (Some c)
      with True b wf have b': "nat b < sc_ntypes c" and wfc: "wf_subtype_ctx c"
        by (simp_all add: ht_in_ctx_def wf_lattice_def)
      let ?k = "kind_ht (sc_kinds c ! nat b)"
      have k: "ht_le cx b ?k" using Some True b' by (rule hle_kind)
      have "ht_in_ctx cx ?k" using kind_ht_in [of "sc_kinds c ! nat b"] by (auto intro: ht_in_ctx_abstract)
      then have up: "abstract_sub ?k t \<Longrightarrow> ht_le cx b t" for t
        using k hle_trans abstract_sub_imp_le by blast
      then show ?thesis
        using up [of HT_ANY] up [of HT_FUNC] wfc True b' Some by (simp add: in_any_concrete in_func_concrete kind_ht_any kind_ht_func)
    qed
  qed
  moreover have "\<not> in_any_hierarchy cx HT_BOT" "\<not> in_func_hierarchy cx HT_BOT"
    by (simp_all add: in_any_abstract in_func_abstract)
  ultimately show "in_any_hierarchy cx b \<Longrightarrow> ht_le cx HT_NONE b"
    and "in_func_hierarchy cx b \<Longrightarrow> ht_le cx HT_NOFUNC b"
    using b by (auto intro: hle_refl hle_none hle_nofunc)
qed

lemma ht_sub_imp_le:
  assumes wf: "wf_lattice cx" and ctx: "ht_in_ctx cx a" "ht_in_ctx cx b" and ab: "ht_sub cx a b"
  shows "ht_le cx a b"
proof -
  consider "a = HT_BOT" | "0 \<le> a" | "a = HT_NONE" | "a = HT_NOFUNC" | "a = HT_NOEXTERN" | "a = HT_NOEXN"
    | "a < 0" "a \<notin> {HT_BOT, HT_NONE, HT_NOFUNC, HT_NOEXTERN, HT_NOEXN}"
    by fastforce
  then show ?thesis
  proof cases
    case 2
    show ?thesis
    proof (cases cx)
      case None
      with 2 ab show ?thesis by (simp add: ht_sub_None_concrete hle_refl)
    next
      case (Some c)
      with 2 ctx wf have a: "nat a < sc_ntypes c" and wfc: "wf_subtype_ctx c"
        by (simp_all add: ht_in_ctx_def wf_lattice_def)
      show ?thesis
      proof (cases "0 \<le> b")
        case True
        with Some 2 a ab ctx show ?thesis
          by (auto simp: ht_sub_concrete ht_in_ctx_def intro: hle_refl super_chain_imp_le [OF wfc])
      next
        case False
        then have "abstract_sub (kind_ht (sc_kinds c ! nat a)) b"
          using ab Some 2 a wfc by (simp add: ht_sub_kind)
        then show ?thesis
          using hle_trans [OF hle_kind [OF Some 2 a]] abstract_sub_imp_le kind_ht_in ht_in_ctx_abstract
          by (metis insertE singletonD neg_numeral_less_zero)
      qed
    qed
  qed (use ab wf ctx in \<open>auto simp: ht_sub_none ht_sub_nofunc ht_sub_noextern ht_sub_noexn ht_sub_abstract
        intro: ht_le.intros(1,3,10,11) in_any_imp_le abstract_sub_imp_le\<close>)
qed


section \<open>The interface the validator relies on\<close>

text \<open>
  A subtype test is a preorder on the types of a well-formed context.  The clients
  compare references (with nullability) and result sequences; both lift.
\<close>

locale subtyping =
  fixes wf :: "'c \<Rightarrow> bool" and in_ctx :: "'c \<Rightarrow> 't \<Rightarrow> bool" and sub :: "'c \<Rightarrow> 't \<Rightarrow> 't \<Rightarrow> bool"
  assumes sub_refl: "sub c a a"
    and sub_trans: "wf c \<Longrightarrow> in_ctx c a \<Longrightarrow> in_ctx c b \<Longrightarrow> in_ctx c d \<Longrightarrow>
      sub c a b \<Longrightarrow> sub c b d \<Longrightarrow> sub c a d"
begin

lemma nullable_trans:
  assumes "wf c" "in_ctx c a" "in_ctx c b" "in_ctx c d"
    and "sub c a b \<and> (an \<longrightarrow> bn)" "sub c b d \<and> (bn \<longrightarrow> dn)"
  shows "sub c a d \<and> (an \<longrightarrow> dn)"
  using assms sub_trans by blast

lemma seq_refl: "list_all2 (sub c) xs xs"
  by (rule list_all2_refl) (rule sub_refl)

lemma seq_trans:
  assumes "wf c" "list_all (in_ctx c) xs" "list_all (in_ctx c) ys" "list_all (in_ctx c) zs"
    and "list_all2 (sub c) xs ys" "list_all2 (sub c) ys zs"
  shows "list_all2 (sub c) xs zs"
  using assms(2-)
proof (induction xs arbitrary: ys zs)
  case Nil
  then show ?case by simp
next
  case (Cons x xs)
  then obtain y ys' where y: "ys = y # ys'" by (cases ys) simp_all
  with Cons.prems obtain z zs' where "zs = z # zs'" by (cases zs) simp_all
  note yz = y this
  with Cons.prems have "sub c x y" "sub c y z" "in_ctx c x" "in_ctx c y" "in_ctx c z" by simp_all
  then have "sub c x z" using sub_trans [OF assms(1)] by blast
  with yz Cons.prems Cons.IH [of ys' zs'] show ?case by simp
qed

end

interpretation heap: subtyping wf_lattice ht_in_ctx ht_sub
  by unfold_locales (blast intro: ht_sub_refl ht_sub_trans)+

section \<open>Hierarchies\<close>

lemma jav_ht_sub_eq:
  assumes "wf_lattice cx"
  shows "jav_ht_sub cx a b = Some (ht_sub cx a b)"
  using jav_ht_sub_total [OF wf_supers_earlier [OF assms], of a b] by (auto simp: ht_sub_def)

lemma compatible_loop_eq:
  assumes "wf_lattice cx"
  shows "compatible_loop cx a b ts = Some (\<exists>t \<in> set ts. ht_sub cx a t \<and> ht_sub cx b t)"
  by (induction ts) (auto simp: jav_ht_sub_eq [OF assms] split: bool.split)

abbreviation ht_tops :: "int list" where
  "ht_tops \<equiv> [HT_ANY, HT_FUNC, HT_EXTERN, HT_EXN]"

text \<open>The heap types a validated module can name.\<close>

definition ht_valid :: "subtype_ctx option \<Rightarrow> int \<Rightarrow> bool" where
  "ht_valid cx a \<longleftrightarrow> (if 0 \<le> a then (case cx of None \<Rightarrow> False | Some c \<Rightarrow> a < int (sc_ntypes c))
     else HT_EXN \<le> a \<and> a \<le> HT_NOEXN)"

definition ht_top :: "subtype_ctx option \<Rightarrow> int \<Rightarrow> int" where
  "ht_top cx a =
     (if in_any_hierarchy cx a then HT_ANY else if in_func_hierarchy cx a then HT_FUNC
      else if a = HT_EXTERN \<or> a = HT_NOEXTERN then HT_EXTERN else HT_EXN)"

lemma ht_valid_abstract:
  "a < 0 \<Longrightarrow> ht_valid cx a \<Longrightarrow>
     a \<in> {HT_EXN, HT_ARRAY, HT_STRUCT, HT_I31, HT_EQ, HT_ANY, HT_EXTERN, HT_FUNC, HT_NONE, HT_NOEXTERN,
          HT_NOFUNC, HT_NOEXN}"
proof -
  assume "a < 0" "ht_valid cx a"
  then have "a \<in> {HT_EXN..HT_NOEXN}" by (simp add: ht_valid_def)
  also have "{HT_EXN..HT_NOEXN} = set [HT_EXN, HT_ARRAY, HT_STRUCT, HT_I31, HT_EQ, HT_ANY,
      HT_EXTERN, HT_FUNC, HT_NONE, HT_NOEXTERN, HT_NOFUNC, HT_NOEXN]"
    by code_simp
  finally show ?thesis by simp
qed

lemma ht_sub_top_iff:
  assumes wf: "wf_lattice cx" and a: "ht_valid cx a" and t: "t \<in> set ht_tops"
  shows "ht_sub cx a t \<longleftrightarrow> t = ht_top cx a"
proof (cases "0 \<le> a")
  case True
  with a obtain c where c: "cx = Some c" "nat a < sc_ntypes c"
    by (auto simp: ht_valid_def split: option.splits)
  moreover have "wf_subtype_ctx c" using c wf by (simp add: wf_lattice_def)
  ultimately show ?thesis using True t kind_ht_in [of "sc_kinds c ! nat a"]
    by (auto simp: ht_sub_kind ht_top_def in_any_concrete in_func_concrete abstract_sub_iff
        abstract_parent_def)
next
  case False
  with ht_valid_abstract [of a cx] a have "a \<in> {HT_EXN, HT_ARRAY, HT_STRUCT, HT_I31, HT_EQ, HT_ANY,
      HT_EXTERN, HT_FUNC, HT_NONE, HT_NOEXTERN, HT_NOFUNC, HT_NOEXN}" by simp
  moreover have "t = HT_ANY \<or> t = HT_FUNC \<or> t = HT_EXTERN \<or> t = HT_EXN" using t by simp
  ultimately show ?thesis
    by (elim insertE emptyE; elim disjE)
      (simp_all add: ht_top_def in_any_abstract in_func_abstract ht_sub_none ht_sub_nofunc
        ht_sub_noextern ht_sub_noexn ht_sub_abstract abstract_sub_iff abstract_parent_def)
qed

lemma ht_top_in: "ht_top cx a \<in> set ht_tops"
  by (simp add: ht_top_def)

section \<open>Divergence\<close>

text \<open>
  A set of type indices closed under \<open>supers\<close> that never meets \<open>b\<close>: the climb never
  leaves it.
\<close>

lemma super_chain_cycle:
  assumes closed: "\<And>t. t \<in> S \<Longrightarrow> 0 \<le> t \<and> nat t < sc_ntypes c \<and> sc_supers c ! nat t \<in> S"
    and miss: "\<And>t. t \<in> S \<Longrightarrow> \<not> canon_eq c t b" and t: "t \<in> S"
  shows "super_chain c b t = None"
proof (rule ccontr)
  assume "super_chain c b t \<noteq> None"
  then obtain r where r: "super_chain c b t = Some r" by blast
  have "\<not> (c = c \<and> b = b \<and> t \<in> S)"
  proof (rule super_chain.raw_induct [where P = "\<lambda>c' b' t' r. \<not> (c' = c \<and> b' = b \<and> t' \<in> S)", OF _ r])
    fix f c' b' t' r
    assume IH: "\<And>c' b' t' r. f c' b' t' = Some r \<Longrightarrow> \<not> (c' = c \<and> b' = b \<and> t' \<in> S)"
      and eq: "(if 0 \<le> t' \<and> nat t' < sc_ntypes c' then
          (if (case sc_canon c' of Some cn \<Rightarrow> cn ! nat t' = cn ! nat b' | None \<Rightarrow> t' = b')
           then Some True else f c' b' (sc_supers c' ! nat t'))
        else Some False) = Some r"
    show "\<not> (c' = c \<and> b' = b \<and> t' \<in> S)"
      using IH [of c b "sc_supers c ! nat t'" r] eq closed [of t'] miss [of t']
      by (auto simp: canon_eq_def)
  qed
  with t show False by simp
qed

section \<open>Properties\<close>

text \<open>
  C22. The C decision procedure decides the declarative subtype relation of section 3.3:
  in a context whose type section validated, the call answers yes exactly on the pairs
  the rules derive.
\<close>

theorem ht_sub_correct:
  assumes "wf_lattice cx" "ht_in_ctx cx a" "ht_in_ctx cx b"
  shows "jav_ht_sub cx a b = Some True \<longleftrightarrow> ht_le cx a b"
  using assms ht_le_imp_sub ht_sub_imp_le unfolding ht_sub_def [symmetric] by blast

text \<open>
  The subtype test returns on every pair of heap types, whatever their indices, when
  every declared supertype is an earlier type.
\<close>

theorem ht_sub_returns:
  assumes "supers_earlier cx"
  shows "\<exists>r. jav_ht_sub cx a b = Some r"
  using assms by (rule jav_ht_sub_total)

text \<open>
  Reference subtyping with nullability is transitive: a value accepted where
  \<open>(ref null_b? b)\<close> is expected is accepted wherever that type is.
\<close>

theorem rt_sub_trans:
  assumes "wf_lattice cx" "ht_in_ctx cx a" "ht_in_ctx cx b" "ht_in_ctx cx d"
    and "jav_rt_sub cx an a bn b = Some True" "jav_rt_sub cx bn b dn d = Some True"
  shows "jav_rt_sub cx an a dn d = Some True"
  using assms(5,6) heap.nullable_trans [OF assms(1-4), of an bn dn]
  by (auto simp: jav_rt_sub_def jav_ht_sub_eq [OF assms(1)] split: bool.splits)

text \<open>
  The validity test of casts compares hierarchies: on valid heap types it answers
  yes exactly when both have the same top, so it is an equivalence relation with the
  four classes any, func, extern and exn.
\<close>

theorem ht_compatible_iff:
  assumes "wf_lattice cx" "ht_valid cx a" "ht_valid cx b"
  shows "jav_ht_compatible cx a b = Some (ht_top cx a = ht_top cx b)"
proof -
  have "(\<exists>t \<in> set ht_tops. ht_sub cx a t \<and> ht_sub cx b t) \<longleftrightarrow> ht_top cx a = ht_top cx b"
    using ht_sub_top_iff [OF assms(1,2)] ht_sub_top_iff [OF assms(1,3)] ht_top_in by metis
  then show ?thesis
    unfolding jav_ht_compatible_def compatible_loop_eq [OF assms(1)] by simp
qed

section \<open>Witnesses\<close>

text \<open>A struct type, a subtype of it and a function type, as a validated module has them.\<close>

definition ex_ctx :: subtype_ctx where
  "ex_ctx = \<lparr>sc_kinds = [0, 0, 2], sc_supers = [-1, 0, -1], sc_ntypes = 3,
     sc_canon = Some [0, 1, 2]\<rparr>"

lemma ex_ctx_wf: "wf_lattice (Some ex_ctx)"
  by (simp add: wf_lattice_def wf_subtype_ctx_def ex_ctx_def canon_eq_def canon_super_def
      numeral_3_eq_3 All_less_Suc)

lemma ex_ctx_in: "ht_in_ctx (Some ex_ctx) 0" "ht_in_ctx (Some ex_ctx) 1" "ht_in_ctx (Some ex_ctx) HT_EQ"
  by (simp_all add: ht_in_ctx_def ex_ctx_def)

lemma ex_ctx_sub:
  "jav_ht_sub (Some ex_ctx) 1 0 = Some True" "jav_ht_sub (Some ex_ctx) 0 HT_EQ = Some True"
proof -
  have "super_chain ex_ctx 0 0 = Some True"
    by (subst super_chain_unfold) (simp_all add: ex_ctx_def canon_eq_def)
  moreover have "super_chain ex_ctx 0 1 = super_chain ex_ctx 0 0"
    by (subst super_chain_unfold) (simp_all add: ex_ctx_def canon_eq_def)
  ultimately show "jav_ht_sub (Some ex_ctx) 1 0 = Some True" by (simp add: jav_ht_sub_def)
  show "jav_ht_sub (Some ex_ctx) 0 HT_EQ = Some True"
    by (simp add: jav_ht_sub_def ex_ctx_def abstract_sub_iff abstract_parent_def)
qed

theorem ht_sub_correct_witness:
  "ht_le (Some ex_ctx) 1 0"
  using ht_sub_correct [OF ex_ctx_wf ex_ctx_in(2,1)] ex_ctx_sub(1) by blast

theorem ht_sub_returns_witness:
  "\<exists>r. jav_ht_sub (Some ex_ctx) 1 0 = Some r"
  by (rule ht_sub_returns [OF wf_supers_earlier [OF ex_ctx_wf]])

theorem rt_sub_trans_witness:
  "jav_rt_sub (Some ex_ctx) False 1 True HT_EQ = Some True"
  by (rule rt_sub_trans [OF ex_ctx_wf ex_ctx_in(2,1,3), of False True True])
    (simp_all add: jav_rt_sub_def ex_ctx_sub)

theorem ht_compatible_iff_witness:
  "jav_ht_compatible (Some ex_ctx) 1 2 = Some False"
  by (subst ht_compatible_iff [OF ex_ctx_wf])
    (simp_all add: ht_valid_def ht_top_def in_any_hierarchy_def in_func_hierarchy_def ex_ctx_def)

end
