(* ===== verification/Vtypes.thy ===== *)
theory Vtypes
  imports Subtype
begin

text \<open>
  The vocabulary of the body validator: the value types and operand types of
  \<open>wasm/src/validate.c\<close>, the reject reasons of \<open>jav_error.h\<close>, and the validation context
  \<open>jav_vctx_t\<close> of \<open>validate.h\<close>.  A C array with its count is a list; a pointer that the
  code tests against \<open>NULL\<close> is an option; a count kept beside a pointer that may be
  \<open>NULL\<close> stays a field of its own.
\<close>

section \<open>Value types and operand types\<close>

datatype valtype = WVT_BOT | WVT_I32 | WVT_I64 | WVT_F32 | WVT_F64 | WVT_V128 | WVT_REF | WVT_REF_NN

text \<open>\<open>vtype_t\<close>: Bot, a number, or a reference with nullability and heap type.\<close>

datatype vtype = VT_BOT | VT_NUM valtype | VT_REF bool int

fun vt_is_ref :: "vtype \<Rightarrow> bool" where
  "vt_is_ref (VT_REF _ _) = True"
| "vt_is_ref _ = False"

fun vt_is_bot :: "vtype \<Rightarrow> bool" where
  "vt_is_bot VT_BOT = True"
| "vt_is_bot _ = False"

text \<open>The \<open>num\<close> and \<open>ht\<close> fields of a \<open>vtype_t\<close>, where the code reads them directly.\<close>

definition vt_num :: "vtype \<Rightarrow> valtype option" where
  "vt_num t = (case t of VT_NUM w \<Rightarrow> Some w | _ \<Rightarrow> None)"

definition vt_ht :: "vtype \<Rightarrow> int" where
  "vt_ht t = (case t of VT_REF _ h \<Rightarrow> h | _ \<Rightarrow> 0)"

definition vt_nullable :: "vtype \<Rightarrow> bool" where
  "vt_nullable t = (case t of VT_REF n _ \<Rightarrow> n | _ \<Rightarrow> False)"

definition vt_from :: "valtype \<Rightarrow> u32 \<Rightarrow> vtype" where
  "vt_from w tidx =
     (case w of
        WVT_I32 \<Rightarrow> VT_NUM w | WVT_I64 \<Rightarrow> VT_NUM w | WVT_F32 \<Rightarrow> VT_NUM w
      | WVT_F64 \<Rightarrow> VT_NUM w | WVT_V128 \<Rightarrow> VT_NUM w
      | WVT_REF \<Rightarrow> VT_REF True (sint tidx)
      | WVT_REF_NN \<Rightarrow> VT_REF False (sint tidx)
      | WVT_BOT \<Rightarrow> VT_BOT)"

definition vt_defaultable :: "valtype \<Rightarrow> bool" where
  "vt_defaultable w \<longleftrightarrow> w \<in> {WVT_I32, WVT_I64, WVT_F32, WVT_F64, WVT_V128, WVT_REF}"

definition vt_is_numvec :: "valtype \<Rightarrow> bool" where
  "vt_is_numvec w \<longleftrightarrow> w \<in> {WVT_I32, WVT_I64, WVT_F32, WVT_F64, WVT_V128}"

text \<open>
  The Boolean reading of \<open>jav_rt_sub\<close>: the call returned and answered yes.  On the lattice of
  a validated type section it always returns (\<open>ht_sub_returns\<close>).
\<close>

definition rt_sub :: "subtype_ctx option \<Rightarrow> bool \<Rightarrow> int \<Rightarrow> bool \<Rightarrow> int \<Rightarrow> bool" where
  "rt_sub lat an a bn b \<longleftrightarrow> jav_rt_sub lat an a bn b = Some True"

definition ht_compat :: "subtype_ctx option \<Rightarrow> int \<Rightarrow> int \<Rightarrow> bool" where
  "ht_compat lat a b \<longleftrightarrow> jav_ht_compatible lat a b = Some True"

definition vt_sub :: "subtype_ctx option \<Rightarrow> vtype \<Rightarrow> vtype \<Rightarrow> bool" where
  "vt_sub lat a e =
     (if vt_is_ref a \<and> vt_is_ref e then rt_sub lat (vt_nullable a) (vt_ht a) (vt_nullable e) (vt_ht e)
      else if \<not> vt_is_ref a \<and> \<not> vt_is_ref e then a = e
      else False)"

definition storage_sub ::
  "subtype_ctx option \<Rightarrow> valtype \<Rightarrow> u32 \<Rightarrow> nat \<Rightarrow> valtype \<Rightarrow> u32 \<Rightarrow> nat \<Rightarrow> bool" where
  "storage_sub lat aw ax apk bw bx bpk =
     (if apk \<noteq> 0 \<or> bpk \<noteq> 0 then apk = bpk
      else vt_sub lat (vt_from aw ax) (vt_from bw bx))"

section \<open>Reject reasons\<close>

datatype jav_err =
    JAV_E_NONE | JAV_E_TYPE_MISMATCH | JAV_E_CONST_EXPR_REQUIRED | JAV_E_DUPLICATE_EXPORT_NAME
  | JAV_E_UNKNOWN_FUNCTION | JAV_E_UNKNOWN_GLOBAL | JAV_E_UNKNOWN_TABLE | JAV_E_UNKNOWN_MEMORY
  | JAV_E_UNKNOWN_TYPE | JAV_E_UNKNOWN_TAG | JAV_E_UNDECLARED_FUNCTION_REFERENCE
  | JAV_E_SIZE_MIN_GT_MAX | JAV_E_MEMORY_SIZE | JAV_E_TABLE_SIZE | JAV_E_START_FUNCTION
  | JAV_E_OOB_MEMORY | JAV_E_OOB_TABLE | JAV_E_INCOMPATIBLE_IMPORT | JAV_E_UNKNOWN_IMPORT
  | JAV_E_ALLOCATION_FAILED | JAV_E_UNKNOWN_LOCAL | JAV_E_UNKNOWN_LABEL | JAV_E_UNKNOWN_DATA
  | JAV_E_UNKNOWN_ELEM | JAV_E_ALIGNMENT | JAV_E_INVALID_LANE | JAV_E_UNINITIALIZED_LOCAL
  | JAV_E_IMMUTABLE_GLOBAL | JAV_E_IMMUTABLE_ARRAY | JAV_E_IMMUTABLE_FIELD | JAV_E_SUB_TYPE
  | JAV_E_ARRAY_TYPES_MISMATCH | JAV_E_OFFSET_OUT_OF_RANGE | JAV_E_ARRAY_NOT_NUMERIC
  | JAV_E_INVALID_RESULT_ARITY | JAV_E_NONEMPTY_TAG_RESULT | JAV_E_SECTION_ORDER
  | JAV_E_FUNC_CODE_LENGTHS | JAV_E_DATA_COUNT_LENGTHS | JAV_E_TOO_MANY_LOCALS
  | JAV_E_DATA_COUNT_REQUIRED

section \<open>The validation context\<close>

record functype =
  ft_params :: "valtype list"
  ft_results :: "valtype list"
  ft_param_tidx :: "u32 list option"
  ft_result_tidx :: "u32 list option"

abbreviation ft_nparams :: "functype \<Rightarrow> nat" where "ft_nparams f \<equiv> length (ft_params f)"
abbreviation ft_nresults :: "functype \<Rightarrow> nat" where "ft_nresults f \<equiv> length (ft_results f)"

record structtype =
  sty_fields :: "valtype list"
  sty_field_tidx :: "u32 list option"
  sty_field_mut :: "bool list option"

record arraytype =
  aty_elem :: valtype
  aty_elem_tidx :: u32
  aty_elem_mut :: bool

record vctx =
  cx_types :: "functype list option"
  cx_ntypes :: nat
  cx_func_sigs :: "functype list option"
  cx_nfuncs :: nat
  cx_globals :: "valtype list"
  cx_global_tidx :: "u32 list option"
  cx_global_mut :: "bool list option"
  cx_func_type_idx :: "u32 list option"
  cx_func_ref_declared :: "bool list option"
  cx_locals :: "valtype list"
  cx_nparams :: nat
  cx_local_tidx :: "u32 list option"
  cx_results :: "valtype list"
  cx_result_tidx :: "u32 list option"
  cx_ntables :: nat
  cx_table_reftype :: "valtype list option"
  cx_table_tidx :: "u32 list option"
  cx_table_is64 :: "bool list option"
  cx_nmemories :: nat
  cx_mem_is64 :: "bool list option"
  cx_structtypes :: "structtype list option"
  cx_nstructtypes :: nat
  cx_arraytypes :: "arraytype list option"
  cx_narraytypes :: nat
  cx_ndatas :: nat
  cx_have_datacount :: bool
  cx_nelems :: nat
  cx_elem_reftype :: "valtype list option"
  cx_elem_tidx :: "u32 list option"
  cx_type_field_packs :: "nat list option list option"
  cx_num_type_field_packs :: nat
  cx_tags :: "functype list option"
  cx_ntags :: nat
  cx_lattice :: "subtype_ctx option"

abbreviation cx_nlocals :: "vctx \<Rightarrow> nat" where "cx_nlocals cx \<equiv> length (cx_locals cx)"
abbreviation cx_nglobals :: "vctx \<Rightarrow> nat" where "cx_nglobals cx \<equiv> length (cx_globals cx)"
abbreviation cx_nresults :: "vctx \<Rightarrow> nat" where "cx_nresults cx \<equiv> length (cx_results cx)"

text \<open>An optional parallel array of type indices read at \<open>i\<close>, \<open>0\<close> when it is absent.\<close>

definition tidx_at :: "u32 list option \<Rightarrow> nat \<Rightarrow> u32" where
  "tidx_at tx i = (case tx of None \<Rightarrow> 0 | Some l \<Rightarrow> l ! i)"

text \<open>The operand type at position \<open>i\<close> of a result sequence, and the whole sequence.\<close>

definition typ_at :: "valtype list \<Rightarrow> u32 list option \<Rightarrow> nat \<Rightarrow> vtype" where
  "typ_at ts tx i = vt_from (ts ! i) (tidx_at tx i)"

definition vts :: "valtype list \<Rightarrow> u32 list option \<Rightarrow> nat \<Rightarrow> vtype list" where
  "vts ts tx n = map (typ_at ts tx) [0..<n]"

lemma length_vts [simp]: "length (vts ts tx n) = n"
  by (simp add: vts_def)

lemma vts_Suc: "vts ts tx (Suc n) = vts ts tx n @ [typ_at ts tx n]"
  by (simp add: vts_def)

lemma vts_0 [simp]: "vts ts tx 0 = []"
  by (simp add: vts_def)

definition tbl_at :: "vctx \<Rightarrow> nat \<Rightarrow> valtype" where
  "tbl_at cx t =
     (case cx_table_is64 cx of
        Some is64 \<Rightarrow> if t < cx_ntables cx \<and> is64 ! t then WVT_I64 else WVT_I32
      | None \<Rightarrow> WVT_I32)"

definition tbl_rt :: "vctx \<Rightarrow> nat \<Rightarrow> vtype" where
  "tbl_rt cx t =
     (case cx_table_reftype cx of
        None \<Rightarrow> VT_REF True HT_FUNC
      | Some rts \<Rightarrow> vt_from (rts ! t) (tidx_at (cx_table_tidx cx) t))"

definition elem_rt :: "vctx \<Rightarrow> nat \<Rightarrow> vtype" where
  "elem_rt cx y =
     (case cx_elem_reftype cx of
        None \<Rightarrow> VT_REF True HT_FUNC
      | Some rts \<Rightarrow> vt_from (rts ! y) (tidx_at (cx_elem_tidx cx) y))"

definition data_err :: "vctx \<Rightarrow> jav_err" where
  "data_err cx = (if cx_have_datacount cx then JAV_E_UNKNOWN_DATA else JAV_E_DATA_COUNT_REQUIRED)"

end
