(* ===== verification/OpTables.thy ===== *)
theory OpTables
  imports Vtypes
begin

text \<open>
  The generated per-opcode tables the validator is driven by: \<open>jav_opsig\<close> (the value-type
  signature of every ordinary opcode, \<open>wasm/src/gen/jav_type_meta.h\<close>) and \<open>jav_jit_meta\<close>
  (the kinds of its immediates and its height effect, \<open>wasm/src/gen/jav_jit_meta.h\<close>), with
  the sub-tables of the prefixed opcodes 0xfb, 0xfc and 0xfd.  Rows are listed in the
  order of the source; an index the source leaves out is the all-zero row.
\<close>

section \<open>Rows\<close>

datatype jop =
    JOP_NONE | JOP_ULEB32 | JOP_ULEB64 | JOP_SLEB32 | JOP_SLEB64 | JOP_F32 | JOP_F64 | JOP_U8
  | JOP_MEMARG | JOP_BLOCKTYPE | JOP_CONST | JOP_BRTABLE_COUNT

record opsig =
  sig_pops :: "valtype list"
  sig_pushes :: "valtype list"
  sig_pop_ht :: "int list option"
  sig_push_ht :: "int list option"
  sig_present :: bool

record jit_meta =
  jm_operands :: "jop list"
  jm_pop :: nat
  jm_push :: nat

definition opsig_row ::
  "valtype list \<Rightarrow> valtype list \<Rightarrow> int list option \<Rightarrow> int list option \<Rightarrow> opsig" where
  "opsig_row ps rs ph rh =
     \<lparr>sig_pops = ps, sig_pushes = rs, sig_pop_ht = ph, sig_push_ht = rh, sig_present = True\<rparr>"

definition opsig_zero :: opsig where
  "opsig_zero =
     \<lparr>sig_pops = [], sig_pushes = [], sig_pop_ht = None, sig_push_ht = None, sig_present = False\<rparr>"

definition meta_row :: "jop list \<Rightarrow> nat \<Rightarrow> nat \<Rightarrow> jit_meta" where
  "meta_row ks p q = \<lparr>jm_operands = ks, jm_pop = p, jm_push = q\<rparr>"

definition meta_zero :: jit_meta where
  "meta_zero = \<lparr>jm_operands = [], jm_pop = 0, jm_push = 0\<rparr>"

text \<open>A table with designated initialisers: the row given for an index, or the zero row.\<close>

definition row_at :: "'r \<Rightarrow> (nat \<times> 'r) list \<Rightarrow> nat \<Rightarrow> 'r" where
  "row_at z rows i = (case map_of rows i of Some r \<Rightarrow> r | None \<Rightarrow> z)"

section \<open>The tables\<close>

definition jav_opsig_sub_fc_rows :: "(nat \<times> opsig) list" where
  "jav_opsig_sub_fc_rows =
    [(11, opsig_row [WVT_I32, WVT_I32, WVT_I32] [] None None),
     (10, opsig_row [WVT_I32, WVT_I32, WVT_I32] [] None None),
     (8, opsig_row [WVT_I32, WVT_I32, WVT_I32] [] None None), (9, opsig_row [] [] None None),
     (16, opsig_row [] [WVT_BOT] None None),
     (15, opsig_row [WVT_BOT, WVT_I32] [WVT_BOT] None None),
     (17, opsig_row [WVT_I32, WVT_BOT, WVT_I32] [] None None),
     (14, opsig_row [WVT_I32, WVT_I32, WVT_I32] [] None None),
     (12, opsig_row [WVT_I32, WVT_I32, WVT_I32] [] None None), (13, opsig_row [] [] None None),
     (0, opsig_row [WVT_F32] [WVT_I32] None None),
     (2, opsig_row [WVT_F64] [WVT_I32] None None),
     (1, opsig_row [WVT_F32] [WVT_I32] None None),
     (3, opsig_row [WVT_F64] [WVT_I32] None None),
     (4, opsig_row [WVT_F32] [WVT_I64] None None),
     (6, opsig_row [WVT_F64] [WVT_I64] None None),
     (5, opsig_row [WVT_F32] [WVT_I64] None None), (7, opsig_row [WVT_F64] [WVT_I64] None None)]"

definition jav_opsig_sub_fb_rows :: "(nat \<times> opsig) list" where
  "jav_opsig_sub_fb_rows =
    [(28, opsig_row [WVT_I32] [WVT_REF] None (Some [HT_I31])),
     (29, opsig_row [WVT_REF] [WVT_I32] (Some [HT_I31]) None),
     (30, opsig_row [WVT_REF] [WVT_I32] (Some [HT_I31]) None),
     (0, opsig_row [WVT_BOT] [WVT_BOT] None None),
     (2, opsig_row [WVT_REF] [WVT_BOT] (Some [HT_EXTERN]) None),
     (5, opsig_row [WVT_REF, WVT_BOT] [] (Some [HT_EXTERN, 0]) None),
     (6, opsig_row [WVT_BOT, WVT_I32] [WVT_BOT] None None),
     (11, opsig_row [WVT_REF, WVT_I32] [WVT_BOT] (Some [HT_EXTERN, 0]) None),
     (14, opsig_row [WVT_REF, WVT_I32, WVT_BOT] [] (Some [HT_EXTERN, 0, 0]) None),
     (15, opsig_row [WVT_REF] [WVT_I32] (Some [HT_EXTERN]) None),
     (1, opsig_row [] [WVT_BOT] None None),
     (3, opsig_row [WVT_REF] [WVT_I32] (Some [HT_EXTERN]) None),
     (4, opsig_row [WVT_REF] [WVT_I32] (Some [HT_EXTERN]) None),
     (7, opsig_row [WVT_I32] [WVT_BOT] None None),
     (8, opsig_row [WVT_BOT] [WVT_BOT] None None),
     (9, opsig_row [WVT_I32, WVT_I32] [WVT_BOT] None None),
     (10, opsig_row [WVT_I32, WVT_I32] [WVT_BOT] None None),
     (12, opsig_row [WVT_REF, WVT_I32] [WVT_I32] (Some [HT_EXTERN, 0]) None),
     (13, opsig_row [WVT_REF, WVT_I32] [WVT_I32] (Some [HT_EXTERN, 0]) None),
     (16, opsig_row [WVT_REF, WVT_I32, WVT_BOT, WVT_I32] [] (Some [HT_EXTERN, 0, 0, 0]) None),
     (17, opsig_row [WVT_REF, WVT_I32, WVT_REF, WVT_I32, WVT_I32] [] (Some [HT_EXTERN, 0, HT_EXTERN, 0, 0]) None),
     (18, opsig_row [WVT_REF, WVT_I32, WVT_I32, WVT_I32] [] (Some [HT_EXTERN, 0, 0, 0]) None),
     (19, opsig_row [WVT_REF, WVT_I32, WVT_I32, WVT_I32] [] (Some [HT_EXTERN, 0, 0, 0]) None),
     (26, opsig_row [WVT_BOT] [WVT_BOT] None None),
     (27, opsig_row [WVT_BOT] [WVT_BOT] None None),
     (20, opsig_row [WVT_BOT] [WVT_I32] None None),
     (21, opsig_row [WVT_BOT] [WVT_I32] None None),
     (22, opsig_row [WVT_BOT] [WVT_BOT] None None),
     (23, opsig_row [WVT_BOT] [WVT_BOT] None None), (24, opsig_row [] [] None None),
     (25, opsig_row [] [] None None)]"

definition jav_opsig_sub_fd_rows1 :: "(nat \<times> opsig) list" where
  "jav_opsig_sub_fd_rows1 =
    [(0, opsig_row [WVT_I32] [WVT_V128] None None),
     (11, opsig_row [WVT_I32, WVT_V128] [] None None),
     (1, opsig_row [WVT_I32] [WVT_V128] None None),
     (2, opsig_row [WVT_I32] [WVT_V128] None None),
     (3, opsig_row [WVT_I32] [WVT_V128] None None),
     (4, opsig_row [WVT_I32] [WVT_V128] None None),
     (5, opsig_row [WVT_I32] [WVT_V128] None None),
     (6, opsig_row [WVT_I32] [WVT_V128] None None),
     (92, opsig_row [WVT_I32] [WVT_V128] None None),
     (93, opsig_row [WVT_I32] [WVT_V128] None None), (12, opsig_row [] [WVT_V128] None None),
     (13, opsig_row [WVT_V128, WVT_V128] [WVT_V128] None None),
     (7, opsig_row [WVT_I32] [WVT_V128] None None),
     (8, opsig_row [WVT_I32] [WVT_V128] None None),
     (9, opsig_row [WVT_I32] [WVT_V128] None None),
     (10, opsig_row [WVT_I32] [WVT_V128] None None),
     (84, opsig_row [WVT_I32, WVT_V128] [WVT_V128] None None),
     (85, opsig_row [WVT_I32, WVT_V128] [WVT_V128] None None),
     (86, opsig_row [WVT_I32, WVT_V128] [WVT_V128] None None),
     (87, opsig_row [WVT_I32, WVT_V128] [WVT_V128] None None),
     (88, opsig_row [WVT_I32, WVT_V128] [] None None),
     (89, opsig_row [WVT_I32, WVT_V128] [] None None),
     (90, opsig_row [WVT_I32, WVT_V128] [] None None),
     (91, opsig_row [WVT_I32, WVT_V128] [] None None),
     (15, opsig_row [WVT_I32] [WVT_V128] None None),
     (16, opsig_row [WVT_I32] [WVT_V128] None None),
     (17, opsig_row [WVT_I32] [WVT_V128] None None),
     (18, opsig_row [WVT_I64] [WVT_V128] None None),
     (19, opsig_row [WVT_F32] [WVT_V128] None None),
     (20, opsig_row [WVT_F64] [WVT_V128] None None),
     (110, opsig_row [WVT_V128, WVT_V128] [WVT_V128] None None),
     (142, opsig_row [WVT_V128, WVT_V128] [WVT_V128] None None),
     (174, opsig_row [WVT_V128, WVT_V128] [WVT_V128] None None),
     (206, opsig_row [WVT_V128, WVT_V128] [WVT_V128] None None),
     (228, opsig_row [WVT_V128, WVT_V128] [WVT_V128] None None),
     (240, opsig_row [WVT_V128, WVT_V128] [WVT_V128] None None),
     (113, opsig_row [WVT_V128, WVT_V128] [WVT_V128] None None),
     (145, opsig_row [WVT_V128, WVT_V128] [WVT_V128] None None),
     (177, opsig_row [WVT_V128, WVT_V128] [WVT_V128] None None),
     (209, opsig_row [WVT_V128, WVT_V128] [WVT_V128] None None),
     (229, opsig_row [WVT_V128, WVT_V128] [WVT_V128] None None),
     (241, opsig_row [WVT_V128, WVT_V128] [WVT_V128] None None),
     (149, opsig_row [WVT_V128, WVT_V128] [WVT_V128] None None),
     (181, opsig_row [WVT_V128, WVT_V128] [WVT_V128] None None),
     (213, opsig_row [WVT_V128, WVT_V128] [WVT_V128] None None),
     (230, opsig_row [WVT_V128, WVT_V128] [WVT_V128] None None),
     (242, opsig_row [WVT_V128, WVT_V128] [WVT_V128] None None),
     (231, opsig_row [WVT_V128, WVT_V128] [WVT_V128] None None),
     (243, opsig_row [WVT_V128, WVT_V128] [WVT_V128] None None),
     (35, opsig_row [WVT_V128, WVT_V128] [WVT_V128] None None),
     (45, opsig_row [WVT_V128, WVT_V128] [WVT_V128] None None),
     (55, opsig_row [WVT_V128, WVT_V128] [WVT_V128] None None),
     (214, opsig_row [WVT_V128, WVT_V128] [WVT_V128] None None),
     (36, opsig_row [WVT_V128, WVT_V128] [WVT_V128] None None),
     (46, opsig_row [WVT_V128, WVT_V128] [WVT_V128] None None),
     (56, opsig_row [WVT_V128, WVT_V128] [WVT_V128] None None),
     (215, opsig_row [WVT_V128, WVT_V128] [WVT_V128] None None),
     (37, opsig_row [WVT_V128, WVT_V128] [WVT_V128] None None),
     (47, opsig_row [WVT_V128, WVT_V128] [WVT_V128] None None),
     (57, opsig_row [WVT_V128, WVT_V128] [WVT_V128] None None),
     (216, opsig_row [WVT_V128, WVT_V128] [WVT_V128] None None),
     (39, opsig_row [WVT_V128, WVT_V128] [WVT_V128] None None),
     (49, opsig_row [WVT_V128, WVT_V128] [WVT_V128] None None),
     (59, opsig_row [WVT_V128, WVT_V128] [WVT_V128] None None),
     (217, opsig_row [WVT_V128, WVT_V128] [WVT_V128] None None),
     (41, opsig_row [WVT_V128, WVT_V128] [WVT_V128] None None),
     (51, opsig_row [WVT_V128, WVT_V128] [WVT_V128] None None),
     (61, opsig_row [WVT_V128, WVT_V128] [WVT_V128] None None),
     (218, opsig_row [WVT_V128, WVT_V128] [WVT_V128] None None),
     (43, opsig_row [WVT_V128, WVT_V128] [WVT_V128] None None),
     (53, opsig_row [WVT_V128, WVT_V128] [WVT_V128] None None),
     (63, opsig_row [WVT_V128, WVT_V128] [WVT_V128] None None),
     (219, opsig_row [WVT_V128, WVT_V128] [WVT_V128] None None),
     (65, opsig_row [WVT_V128, WVT_V128] [WVT_V128] None None),
     (66, opsig_row [WVT_V128, WVT_V128] [WVT_V128] None None),
     (67, opsig_row [WVT_V128, WVT_V128] [WVT_V128] None None),
     (68, opsig_row [WVT_V128, WVT_V128] [WVT_V128] None None),
     (69, opsig_row [WVT_V128, WVT_V128] [WVT_V128] None None),
     (70, opsig_row [WVT_V128, WVT_V128] [WVT_V128] None None),
     (71, opsig_row [WVT_V128, WVT_V128] [WVT_V128] None None),
     (72, opsig_row [WVT_V128, WVT_V128] [WVT_V128] None None),
     (73, opsig_row [WVT_V128, WVT_V128] [WVT_V128] None None),
     (74, opsig_row [WVT_V128, WVT_V128] [WVT_V128] None None),
     (75, opsig_row [WVT_V128, WVT_V128] [WVT_V128] None None),
     (76, opsig_row [WVT_V128, WVT_V128] [WVT_V128] None None),
     (38, opsig_row [WVT_V128, WVT_V128] [WVT_V128] None None),
     (48, opsig_row [WVT_V128, WVT_V128] [WVT_V128] None None),
     (58, opsig_row [WVT_V128, WVT_V128] [WVT_V128] None None),
     (40, opsig_row [WVT_V128, WVT_V128] [WVT_V128] None None),
     (50, opsig_row [WVT_V128, WVT_V128] [WVT_V128] None None),
     (60, opsig_row [WVT_V128, WVT_V128] [WVT_V128] None None),
     (42, opsig_row [WVT_V128, WVT_V128] [WVT_V128] None None),
     (52, opsig_row [WVT_V128, WVT_V128] [WVT_V128] None None),
     (62, opsig_row [WVT_V128, WVT_V128] [WVT_V128] None None),
     (44, opsig_row [WVT_V128, WVT_V128] [WVT_V128] None None),
     (54, opsig_row [WVT_V128, WVT_V128] [WVT_V128] None None),
     (64, opsig_row [WVT_V128, WVT_V128] [WVT_V128] None None),
     (123, opsig_row [WVT_V128, WVT_V128] [WVT_V128] None None),
     (155, opsig_row [WVT_V128, WVT_V128] [WVT_V128] None None),
     (111, opsig_row [WVT_V128, WVT_V128] [WVT_V128] None None),
     (112, opsig_row [WVT_V128, WVT_V128] [WVT_V128] None None),
     (114, opsig_row [WVT_V128, WVT_V128] [WVT_V128] None None),
     (115, opsig_row [WVT_V128, WVT_V128] [WVT_V128] None None),
     (143, opsig_row [WVT_V128, WVT_V128] [WVT_V128] None None),
     (144, opsig_row [WVT_V128, WVT_V128] [WVT_V128] None None),
     (146, opsig_row [WVT_V128, WVT_V128] [WVT_V128] None None),
     (147, opsig_row [WVT_V128, WVT_V128] [WVT_V128] None None),
     (99, opsig_row [WVT_V128] [WVT_I32] None None),
     (131, opsig_row [WVT_V128] [WVT_I32] None None),
     (163, opsig_row [WVT_V128] [WVT_I32] None None),
     (195, opsig_row [WVT_V128] [WVT_I32] None None),
     (100, opsig_row [WVT_V128] [WVT_I32] None None),
     (132, opsig_row [WVT_V128] [WVT_I32] None None),
     (164, opsig_row [WVT_V128] [WVT_I32] None None),
     (196, opsig_row [WVT_V128] [WVT_I32] None None),
     (83, opsig_row [WVT_V128] [WVT_I32] None None),
     (14, opsig_row [WVT_V128, WVT_V128] [WVT_V128] None None),
     (130, opsig_row [WVT_V128, WVT_V128] [WVT_V128] None None),
     (135, opsig_row [WVT_V128] [WVT_V128] None None),
     (136, opsig_row [WVT_V128] [WVT_V128] None None),
     (137, opsig_row [WVT_V128] [WVT_V128] None None),
     (138, opsig_row [WVT_V128] [WVT_V128] None None),
     (167, opsig_row [WVT_V128] [WVT_V128] None None),
     (168, opsig_row [WVT_V128] [WVT_V128] None None),
     (169, opsig_row [WVT_V128] [WVT_V128] None None),
     (170, opsig_row [WVT_V128] [WVT_V128] None None),
     (199, opsig_row [WVT_V128] [WVT_V128] None None),
     (200, opsig_row [WVT_V128] [WVT_V128] None None),
     (201, opsig_row [WVT_V128] [WVT_V128] None None),
     (202, opsig_row [WVT_V128] [WVT_V128] None None),
     (156, opsig_row [WVT_V128, WVT_V128] [WVT_V128] None None),
     (157, opsig_row [WVT_V128, WVT_V128] [WVT_V128] None None),
     (158, opsig_row [WVT_V128, WVT_V128] [WVT_V128] None None),
     (159, opsig_row [WVT_V128, WVT_V128] [WVT_V128] None None),
     (188, opsig_row [WVT_V128, WVT_V128] [WVT_V128] None None),
     (189, opsig_row [WVT_V128, WVT_V128] [WVT_V128] None None),
     (190, opsig_row [WVT_V128, WVT_V128] [WVT_V128] None None),
     (191, opsig_row [WVT_V128, WVT_V128] [WVT_V128] None None),
     (220, opsig_row [WVT_V128, WVT_V128] [WVT_V128] None None),
     (221, opsig_row [WVT_V128, WVT_V128] [WVT_V128] None None)]"

definition jav_opsig_sub_fd_rows2 :: "(nat \<times> opsig) list" where
  "jav_opsig_sub_fd_rows2 =
    [(222, opsig_row [WVT_V128, WVT_V128] [WVT_V128] None None),
     (223, opsig_row [WVT_V128, WVT_V128] [WVT_V128] None None),
     (186, opsig_row [WVT_V128, WVT_V128] [WVT_V128] None None),
     (124, opsig_row [WVT_V128] [WVT_V128] None None),
     (125, opsig_row [WVT_V128] [WVT_V128] None None),
     (126, opsig_row [WVT_V128] [WVT_V128] None None),
     (127, opsig_row [WVT_V128] [WVT_V128] None None),
     (250, opsig_row [WVT_V128] [WVT_V128] None None),
     (251, opsig_row [WVT_V128] [WVT_V128] None None),
     (254, opsig_row [WVT_V128] [WVT_V128] None None),
     (255, opsig_row [WVT_V128] [WVT_V128] None None),
     (95, opsig_row [WVT_V128] [WVT_V128] None None),
     (94, opsig_row [WVT_V128] [WVT_V128] None None),
     (98, opsig_row [WVT_V128] [WVT_V128] None None),
     (101, opsig_row [WVT_V128, WVT_V128] [WVT_V128] None None),
     (102, opsig_row [WVT_V128, WVT_V128] [WVT_V128] None None),
     (133, opsig_row [WVT_V128, WVT_V128] [WVT_V128] None None),
     (134, opsig_row [WVT_V128, WVT_V128] [WVT_V128] None None),
     (248, opsig_row [WVT_V128] [WVT_V128] None None),
     (249, opsig_row [WVT_V128] [WVT_V128] None None),
     (252, opsig_row [WVT_V128] [WVT_V128] None None),
     (253, opsig_row [WVT_V128] [WVT_V128] None None),
     (21, opsig_row [WVT_V128] [WVT_I32] None None),
     (22, opsig_row [WVT_V128] [WVT_I32] None None),
     (23, opsig_row [WVT_V128, WVT_I32] [WVT_V128] None None),
     (24, opsig_row [WVT_V128] [WVT_I32] None None),
     (25, opsig_row [WVT_V128] [WVT_I32] None None),
     (26, opsig_row [WVT_V128, WVT_I32] [WVT_V128] None None),
     (27, opsig_row [WVT_V128] [WVT_I32] None None),
     (28, opsig_row [WVT_V128, WVT_I32] [WVT_V128] None None),
     (29, opsig_row [WVT_V128] [WVT_I64] None None),
     (30, opsig_row [WVT_V128, WVT_I64] [WVT_V128] None None),
     (31, opsig_row [WVT_V128] [WVT_F32] None None),
     (32, opsig_row [WVT_V128, WVT_F32] [WVT_V128] None None),
     (33, opsig_row [WVT_V128] [WVT_F64] None None),
     (34, opsig_row [WVT_V128, WVT_F64] [WVT_V128] None None),
     (77, opsig_row [WVT_V128] [WVT_V128] None None),
     (78, opsig_row [WVT_V128, WVT_V128] [WVT_V128] None None),
     (79, opsig_row [WVT_V128, WVT_V128] [WVT_V128] None None),
     (80, opsig_row [WVT_V128, WVT_V128] [WVT_V128] None None),
     (81, opsig_row [WVT_V128, WVT_V128] [WVT_V128] None None),
     (82, opsig_row [WVT_V128, WVT_V128, WVT_V128] [WVT_V128] None None),
     (107, opsig_row [WVT_V128, WVT_I32] [WVT_V128] None None),
     (139, opsig_row [WVT_V128, WVT_I32] [WVT_V128] None None),
     (171, opsig_row [WVT_V128, WVT_I32] [WVT_V128] None None),
     (203, opsig_row [WVT_V128, WVT_I32] [WVT_V128] None None),
     (108, opsig_row [WVT_V128, WVT_I32] [WVT_V128] None None),
     (140, opsig_row [WVT_V128, WVT_I32] [WVT_V128] None None),
     (172, opsig_row [WVT_V128, WVT_I32] [WVT_V128] None None),
     (204, opsig_row [WVT_V128, WVT_I32] [WVT_V128] None None),
     (109, opsig_row [WVT_V128, WVT_I32] [WVT_V128] None None),
     (141, opsig_row [WVT_V128, WVT_I32] [WVT_V128] None None),
     (173, opsig_row [WVT_V128, WVT_I32] [WVT_V128] None None),
     (205, opsig_row [WVT_V128, WVT_I32] [WVT_V128] None None),
     (97, opsig_row [WVT_V128] [WVT_V128] None None),
     (129, opsig_row [WVT_V128] [WVT_V128] None None),
     (161, opsig_row [WVT_V128] [WVT_V128] None None),
     (193, opsig_row [WVT_V128] [WVT_V128] None None),
     (225, opsig_row [WVT_V128] [WVT_V128] None None),
     (237, opsig_row [WVT_V128] [WVT_V128] None None),
     (96, opsig_row [WVT_V128] [WVT_V128] None None),
     (128, opsig_row [WVT_V128] [WVT_V128] None None),
     (160, opsig_row [WVT_V128] [WVT_V128] None None),
     (192, opsig_row [WVT_V128] [WVT_V128] None None),
     (118, opsig_row [WVT_V128, WVT_V128] [WVT_V128] None None),
     (150, opsig_row [WVT_V128, WVT_V128] [WVT_V128] None None),
     (182, opsig_row [WVT_V128, WVT_V128] [WVT_V128] None None),
     (120, opsig_row [WVT_V128, WVT_V128] [WVT_V128] None None),
     (152, opsig_row [WVT_V128, WVT_V128] [WVT_V128] None None),
     (184, opsig_row [WVT_V128, WVT_V128] [WVT_V128] None None),
     (119, opsig_row [WVT_V128, WVT_V128] [WVT_V128] None None),
     (151, opsig_row [WVT_V128, WVT_V128] [WVT_V128] None None),
     (183, opsig_row [WVT_V128, WVT_V128] [WVT_V128] None None),
     (121, opsig_row [WVT_V128, WVT_V128] [WVT_V128] None None),
     (153, opsig_row [WVT_V128, WVT_V128] [WVT_V128] None None),
     (185, opsig_row [WVT_V128, WVT_V128] [WVT_V128] None None),
     (224, opsig_row [WVT_V128] [WVT_V128] None None),
     (236, opsig_row [WVT_V128] [WVT_V128] None None),
     (227, opsig_row [WVT_V128] [WVT_V128] None None),
     (239, opsig_row [WVT_V128] [WVT_V128] None None),
     (103, opsig_row [WVT_V128] [WVT_V128] None None),
     (116, opsig_row [WVT_V128] [WVT_V128] None None),
     (104, opsig_row [WVT_V128] [WVT_V128] None None),
     (117, opsig_row [WVT_V128] [WVT_V128] None None),
     (105, opsig_row [WVT_V128] [WVT_V128] None None),
     (122, opsig_row [WVT_V128] [WVT_V128] None None),
     (106, opsig_row [WVT_V128] [WVT_V128] None None),
     (148, opsig_row [WVT_V128] [WVT_V128] None None),
     (232, opsig_row [WVT_V128, WVT_V128] [WVT_V128] None None),
     (244, opsig_row [WVT_V128, WVT_V128] [WVT_V128] None None),
     (233, opsig_row [WVT_V128, WVT_V128] [WVT_V128] None None),
     (245, opsig_row [WVT_V128, WVT_V128] [WVT_V128] None None),
     (234, opsig_row [WVT_V128, WVT_V128] [WVT_V128] None None),
     (246, opsig_row [WVT_V128, WVT_V128] [WVT_V128] None None),
     (235, opsig_row [WVT_V128, WVT_V128] [WVT_V128] None None),
     (247, opsig_row [WVT_V128, WVT_V128] [WVT_V128] None None),
     (256, opsig_row [WVT_V128, WVT_V128] [WVT_V128] None None),
     (257, opsig_row [WVT_V128] [WVT_V128] None None),
     (258, opsig_row [WVT_V128] [WVT_V128] None None),
     (259, opsig_row [WVT_V128] [WVT_V128] None None),
     (260, opsig_row [WVT_V128] [WVT_V128] None None),
     (261, opsig_row [WVT_V128, WVT_V128, WVT_V128] [WVT_V128] None None),
     (263, opsig_row [WVT_V128, WVT_V128, WVT_V128] [WVT_V128] None None),
     (262, opsig_row [WVT_V128, WVT_V128, WVT_V128] [WVT_V128] None None),
     (264, opsig_row [WVT_V128, WVT_V128, WVT_V128] [WVT_V128] None None),
     (265, opsig_row [WVT_V128, WVT_V128, WVT_V128] [WVT_V128] None None),
     (266, opsig_row [WVT_V128, WVT_V128, WVT_V128] [WVT_V128] None None),
     (267, opsig_row [WVT_V128, WVT_V128, WVT_V128] [WVT_V128] None None),
     (268, opsig_row [WVT_V128, WVT_V128, WVT_V128] [WVT_V128] None None),
     (269, opsig_row [WVT_V128, WVT_V128] [WVT_V128] None None),
     (271, opsig_row [WVT_V128, WVT_V128] [WVT_V128] None None),
     (270, opsig_row [WVT_V128, WVT_V128] [WVT_V128] None None),
     (272, opsig_row [WVT_V128, WVT_V128] [WVT_V128] None None),
     (273, opsig_row [WVT_V128, WVT_V128] [WVT_V128] None None),
     (274, opsig_row [WVT_V128, WVT_V128] [WVT_V128] None None),
     (275, opsig_row [WVT_V128, WVT_V128, WVT_V128] [WVT_V128] None None)]"

definition jav_opsig_rows1 :: "(nat \<times> opsig) list" where
  "jav_opsig_rows1 =
    [(32, opsig_row [] [WVT_BOT] None None), (33, opsig_row [WVT_BOT] [] None None),
     (34, opsig_row [WVT_BOT] [WVT_BOT] None None), (35, opsig_row [] [WVT_BOT] None None),
     (36, opsig_row [WVT_BOT] [] None None), (40, opsig_row [WVT_I32] [WVT_I32] None None),
     (41, opsig_row [WVT_I32] [WVT_I64] None None),
     (42, opsig_row [WVT_I32] [WVT_F32] None None),
     (43, opsig_row [WVT_I32] [WVT_F64] None None),
     (44, opsig_row [WVT_I32] [WVT_I32] None None),
     (45, opsig_row [WVT_I32] [WVT_I32] None None),
     (46, opsig_row [WVT_I32] [WVT_I32] None None),
     (47, opsig_row [WVT_I32] [WVT_I32] None None),
     (48, opsig_row [WVT_I32] [WVT_I64] None None),
     (49, opsig_row [WVT_I32] [WVT_I64] None None),
     (50, opsig_row [WVT_I32] [WVT_I64] None None),
     (51, opsig_row [WVT_I32] [WVT_I64] None None),
     (52, opsig_row [WVT_I32] [WVT_I64] None None),
     (53, opsig_row [WVT_I32] [WVT_I64] None None),
     (54, opsig_row [WVT_I32, WVT_I32] [] None None),
     (55, opsig_row [WVT_I32, WVT_I64] [] None None),
     (56, opsig_row [WVT_I32, WVT_F32] [] None None),
     (57, opsig_row [WVT_I32, WVT_F64] [] None None),
     (58, opsig_row [WVT_I32, WVT_I32] [] None None),
     (59, opsig_row [WVT_I32, WVT_I32] [] None None),
     (60, opsig_row [WVT_I32, WVT_I64] [] None None),
     (61, opsig_row [WVT_I32, WVT_I64] [] None None),
     (62, opsig_row [WVT_I32, WVT_I64] [] None None), (63, opsig_row [] [WVT_BOT] None None),
     (64, opsig_row [WVT_I32] [WVT_BOT] None None), (8, opsig_row [WVT_BOT] [] None None),
     (10, opsig_row [WVT_BOT] [] None None), (31, opsig_row [] [] None None),
     (65, opsig_row [] [WVT_I32] None None), (66, opsig_row [] [WVT_I64] None None),
     (106, opsig_row [WVT_I32, WVT_I32] [WVT_I32] None None),
     (124, opsig_row [WVT_I64, WVT_I64] [WVT_I64] None None),
     (146, opsig_row [WVT_F32, WVT_F32] [WVT_F32] None None),
     (160, opsig_row [WVT_F64, WVT_F64] [WVT_F64] None None),
     (107, opsig_row [WVT_I32, WVT_I32] [WVT_I32] None None),
     (125, opsig_row [WVT_I64, WVT_I64] [WVT_I64] None None),
     (147, opsig_row [WVT_F32, WVT_F32] [WVT_F32] None None),
     (161, opsig_row [WVT_F64, WVT_F64] [WVT_F64] None None),
     (108, opsig_row [WVT_I32, WVT_I32] [WVT_I32] None None),
     (126, opsig_row [WVT_I64, WVT_I64] [WVT_I64] None None),
     (148, opsig_row [WVT_F32, WVT_F32] [WVT_F32] None None),
     (162, opsig_row [WVT_F64, WVT_F64] [WVT_F64] None None),
     (113, opsig_row [WVT_I32, WVT_I32] [WVT_I32] None None),
     (131, opsig_row [WVT_I64, WVT_I64] [WVT_I64] None None),
     (114, opsig_row [WVT_I32, WVT_I32] [WVT_I32] None None),
     (132, opsig_row [WVT_I64, WVT_I64] [WVT_I64] None None),
     (115, opsig_row [WVT_I32, WVT_I32] [WVT_I32] None None),
     (133, opsig_row [WVT_I64, WVT_I64] [WVT_I64] None None),
     (70, opsig_row [WVT_I32, WVT_I32] [WVT_I32] None None),
     (81, opsig_row [WVT_I64, WVT_I64] [WVT_I32] None None),
     (91, opsig_row [WVT_F32, WVT_F32] [WVT_I32] None None),
     (97, opsig_row [WVT_F64, WVT_F64] [WVT_I32] None None),
     (71, opsig_row [WVT_I32, WVT_I32] [WVT_I32] None None),
     (82, opsig_row [WVT_I64, WVT_I64] [WVT_I32] None None),
     (92, opsig_row [WVT_F32, WVT_F32] [WVT_I32] None None),
     (98, opsig_row [WVT_F64, WVT_F64] [WVT_I32] None None),
     (72, opsig_row [WVT_I32, WVT_I32] [WVT_I32] None None),
     (83, opsig_row [WVT_I64, WVT_I64] [WVT_I32] None None),
     (93, opsig_row [WVT_F32, WVT_F32] [WVT_I32] None None),
     (99, opsig_row [WVT_F64, WVT_F64] [WVT_I32] None None),
     (74, opsig_row [WVT_I32, WVT_I32] [WVT_I32] None None),
     (85, opsig_row [WVT_I64, WVT_I64] [WVT_I32] None None),
     (94, opsig_row [WVT_F32, WVT_F32] [WVT_I32] None None),
     (100, opsig_row [WVT_F64, WVT_F64] [WVT_I32] None None),
     (76, opsig_row [WVT_I32, WVT_I32] [WVT_I32] None None),
     (87, opsig_row [WVT_I64, WVT_I64] [WVT_I32] None None),
     (95, opsig_row [WVT_F32, WVT_F32] [WVT_I32] None None),
     (101, opsig_row [WVT_F64, WVT_F64] [WVT_I32] None None),
     (78, opsig_row [WVT_I32, WVT_I32] [WVT_I32] None None),
     (89, opsig_row [WVT_I64, WVT_I64] [WVT_I32] None None),
     (96, opsig_row [WVT_F32, WVT_F32] [WVT_I32] None None),
     (102, opsig_row [WVT_F64, WVT_F64] [WVT_I32] None None),
     (69, opsig_row [WVT_I32] [WVT_I32] None None),
     (80, opsig_row [WVT_I64] [WVT_I32] None None),
     (109, opsig_row [WVT_I32, WVT_I32] [WVT_I32] None None),
     (127, opsig_row [WVT_I64, WVT_I64] [WVT_I64] None None),
     (110, opsig_row [WVT_I32, WVT_I32] [WVT_I32] None None),
     (128, opsig_row [WVT_I64, WVT_I64] [WVT_I64] None None),
     (111, opsig_row [WVT_I32, WVT_I32] [WVT_I32] None None),
     (129, opsig_row [WVT_I64, WVT_I64] [WVT_I64] None None),
     (112, opsig_row [WVT_I32, WVT_I32] [WVT_I32] None None),
     (130, opsig_row [WVT_I64, WVT_I64] [WVT_I64] None None),
     (149, opsig_row [WVT_F32, WVT_F32] [WVT_F32] None None),
     (163, opsig_row [WVT_F64, WVT_F64] [WVT_F64] None None),
     (73, opsig_row [WVT_I32, WVT_I32] [WVT_I32] None None),
     (84, opsig_row [WVT_I64, WVT_I64] [WVT_I32] None None),
     (75, opsig_row [WVT_I32, WVT_I32] [WVT_I32] None None),
     (86, opsig_row [WVT_I64, WVT_I64] [WVT_I32] None None),
     (77, opsig_row [WVT_I32, WVT_I32] [WVT_I32] None None),
     (88, opsig_row [WVT_I64, WVT_I64] [WVT_I32] None None),
     (79, opsig_row [WVT_I32, WVT_I32] [WVT_I32] None None),
     (90, opsig_row [WVT_I64, WVT_I64] [WVT_I32] None None),
     (116, opsig_row [WVT_I32, WVT_I32] [WVT_I32] None None),
     (134, opsig_row [WVT_I64, WVT_I64] [WVT_I64] None None),
     (117, opsig_row [WVT_I32, WVT_I32] [WVT_I32] None None),
     (135, opsig_row [WVT_I64, WVT_I64] [WVT_I64] None None),
     (118, opsig_row [WVT_I32, WVT_I32] [WVT_I32] None None),
     (136, opsig_row [WVT_I64, WVT_I64] [WVT_I64] None None),
     (119, opsig_row [WVT_I32, WVT_I32] [WVT_I32] None None),
     (137, opsig_row [WVT_I64, WVT_I64] [WVT_I64] None None),
     (120, opsig_row [WVT_I32, WVT_I32] [WVT_I32] None None),
     (138, opsig_row [WVT_I64, WVT_I64] [WVT_I64] None None),
     (103, opsig_row [WVT_I32] [WVT_I32] None None),
     (121, opsig_row [WVT_I64] [WVT_I64] None None),
     (104, opsig_row [WVT_I32] [WVT_I32] None None),
     (122, opsig_row [WVT_I64] [WVT_I64] None None),
     (105, opsig_row [WVT_I32] [WVT_I32] None None),
     (123, opsig_row [WVT_I64] [WVT_I64] None None),
     (140, opsig_row [WVT_F32] [WVT_F32] None None),
     (154, opsig_row [WVT_F64] [WVT_F64] None None),
     (139, opsig_row [WVT_F32] [WVT_F32] None None),
     (153, opsig_row [WVT_F64] [WVT_F64] None None),
     (141, opsig_row [WVT_F32] [WVT_F32] None None),
     (155, opsig_row [WVT_F64] [WVT_F64] None None),
     (142, opsig_row [WVT_F32] [WVT_F32] None None),
     (156, opsig_row [WVT_F64] [WVT_F64] None None),
     (143, opsig_row [WVT_F32] [WVT_F32] None None),
     (157, opsig_row [WVT_F64] [WVT_F64] None None),
     (144, opsig_row [WVT_F32] [WVT_F32] None None),
     (158, opsig_row [WVT_F64] [WVT_F64] None None),
     (145, opsig_row [WVT_F32] [WVT_F32] None None),
     (159, opsig_row [WVT_F64] [WVT_F64] None None),
     (150, opsig_row [WVT_F32, WVT_F32] [WVT_F32] None None),
     (164, opsig_row [WVT_F64, WVT_F64] [WVT_F64] None None),
     (151, opsig_row [WVT_F32, WVT_F32] [WVT_F32] None None),
     (165, opsig_row [WVT_F64, WVT_F64] [WVT_F64] None None),
     (152, opsig_row [WVT_F32, WVT_F32] [WVT_F32] None None),
     (166, opsig_row [WVT_F64, WVT_F64] [WVT_F64] None None),
     (67, opsig_row [] [WVT_F32] None None), (68, opsig_row [] [WVT_F64] None None),
     (167, opsig_row [WVT_I64] [WVT_I32] None None),
     (172, opsig_row [WVT_I32] [WVT_I64] None None),
     (173, opsig_row [WVT_I32] [WVT_I64] None None),
     (192, opsig_row [WVT_I32] [WVT_I32] None None),
     (193, opsig_row [WVT_I32] [WVT_I32] None None)]"

definition jav_opsig_rows2 :: "(nat \<times> opsig) list" where
  "jav_opsig_rows2 =
    [(194, opsig_row [WVT_I64] [WVT_I64] None None),
     (195, opsig_row [WVT_I64] [WVT_I64] None None),
     (196, opsig_row [WVT_I64] [WVT_I64] None None),
     (168, opsig_row [WVT_F32] [WVT_I32] None None),
     (169, opsig_row [WVT_F32] [WVT_I32] None None),
     (170, opsig_row [WVT_F64] [WVT_I32] None None),
     (171, opsig_row [WVT_F64] [WVT_I32] None None),
     (174, opsig_row [WVT_F32] [WVT_I64] None None),
     (175, opsig_row [WVT_F32] [WVT_I64] None None),
     (176, opsig_row [WVT_F64] [WVT_I64] None None),
     (177, opsig_row [WVT_F64] [WVT_I64] None None),
     (178, opsig_row [WVT_I32] [WVT_F32] None None),
     (179, opsig_row [WVT_I32] [WVT_F32] None None),
     (180, opsig_row [WVT_I64] [WVT_F32] None None),
     (181, opsig_row [WVT_I64] [WVT_F32] None None),
     (183, opsig_row [WVT_I32] [WVT_F64] None None),
     (184, opsig_row [WVT_I32] [WVT_F64] None None),
     (185, opsig_row [WVT_I64] [WVT_F64] None None),
     (186, opsig_row [WVT_I64] [WVT_F64] None None),
     (182, opsig_row [WVT_F64] [WVT_F32] None None),
     (187, opsig_row [WVT_F32] [WVT_F64] None None),
     (188, opsig_row [WVT_F32] [WVT_I32] None None),
     (189, opsig_row [WVT_F64] [WVT_I64] None None),
     (190, opsig_row [WVT_I32] [WVT_F32] None None),
     (191, opsig_row [WVT_I64] [WVT_F64] None None), (0, opsig_row [] [] None None),
     (1, opsig_row [] [] None None), (2, opsig_row [] [] None None),
     (3, opsig_row [] [] None None), (4, opsig_row [WVT_I32] [] None None),
     (5, opsig_row [] [] None None), (11, opsig_row [] [] None None),
     (12, opsig_row [] [] None None), (13, opsig_row [WVT_I32] [] None None),
     (14, opsig_row [WVT_I32] [] None None), (15, opsig_row [] [] None None),
     (16, opsig_row [WVT_BOT] [] None None), (26, opsig_row [WVT_BOT] [] None None),
     (27, opsig_row [WVT_BOT, WVT_BOT, WVT_I32] [WVT_BOT] None None),
     (28, opsig_row [WVT_BOT, WVT_BOT, WVT_I32] [WVT_BOT] None None),
     (17, opsig_row [WVT_BOT, WVT_I32] [] None None), (18, opsig_row [WVT_BOT] [] None None),
     (19, opsig_row [WVT_BOT, WVT_I32] [] None None),
     (21, opsig_row [WVT_BOT, WVT_BOT] [] None None),
     (20, opsig_row [WVT_BOT, WVT_BOT] [] None None),
     (208, opsig_row [] [WVT_REF] None (Some [HT_FUNC])),
     (209, opsig_row [WVT_REF] [WVT_I32] (Some [HT_FUNC]) None),
     (210, opsig_row [] [WVT_REF] None (Some [HT_FUNC])),
     (212, opsig_row [WVT_REF] [WVT_REF] (Some [HT_FUNC]) (Some [HT_FUNC])),
     (213, opsig_row [WVT_BOT] [WVT_BOT] None None), (214, opsig_row [WVT_BOT] [] None None),
     (211, opsig_row [WVT_REF, WVT_REF] [WVT_I32] (Some [HT_EXTERN, HT_EXTERN]) None),
     (37, opsig_row [WVT_I32] [WVT_BOT] None None),
     (38, opsig_row [WVT_I32, WVT_BOT] [] None None)]"

definition jav_jit_meta_sub_fc_rows :: "(nat \<times> jit_meta) list" where
  "jav_jit_meta_sub_fc_rows =
    [(11, meta_row [JOP_ULEB32] 3 0), (10, meta_row [JOP_ULEB32, JOP_ULEB32] 3 0),
     (8, meta_row [JOP_ULEB32, JOP_ULEB32] 3 0), (9, meta_row [JOP_ULEB32] 0 0),
     (16, meta_row [JOP_ULEB32] 0 1), (15, meta_row [JOP_ULEB32] 2 1),
     (17, meta_row [JOP_ULEB32] 3 0), (14, meta_row [JOP_ULEB32, JOP_ULEB32] 3 0),
     (12, meta_row [JOP_ULEB32, JOP_ULEB32] 3 0), (13, meta_row [JOP_ULEB32] 0 0),
     (0, meta_row [JOP_CONST, JOP_CONST] 1 1), (2, meta_row [JOP_CONST, JOP_CONST] 1 1),
     (1, meta_row [JOP_CONST, JOP_CONST] 1 1), (3, meta_row [JOP_CONST, JOP_CONST] 1 1),
     (4, meta_row [JOP_CONST, JOP_CONST] 1 1), (6, meta_row [JOP_CONST, JOP_CONST] 1 1),
     (5, meta_row [JOP_CONST, JOP_CONST] 1 1), (7, meta_row [JOP_CONST, JOP_CONST] 1 1)]"

definition jav_jit_meta_sub_fb_rows :: "(nat \<times> jit_meta) list" where
  "jav_jit_meta_sub_fb_rows =
    [(28, meta_row [] 1 1), (29, meta_row [] 1 1), (30, meta_row [] 1 1),
     (0, meta_row [JOP_ULEB32] 1 1), (2, meta_row [JOP_ULEB32, JOP_ULEB32] 1 1),
     (5, meta_row [JOP_ULEB32, JOP_ULEB32] 2 0), (6, meta_row [JOP_ULEB32] 2 1),
     (11, meta_row [JOP_ULEB32] 2 1), (14, meta_row [JOP_ULEB32] 3 0), (15, meta_row [] 1 1),
     (1, meta_row [JOP_ULEB32] 0 1), (3, meta_row [JOP_ULEB32, JOP_ULEB32] 1 1),
     (4, meta_row [JOP_ULEB32, JOP_ULEB32] 1 1), (7, meta_row [JOP_ULEB32] 1 1),
     (8, meta_row [JOP_ULEB32, JOP_ULEB32] 1 1), (9, meta_row [JOP_ULEB32, JOP_ULEB32] 2 1),
     (10, meta_row [JOP_ULEB32, JOP_ULEB32] 2 1), (12, meta_row [JOP_ULEB32] 2 1),
     (13, meta_row [JOP_ULEB32] 2 1), (16, meta_row [JOP_ULEB32] 4 0),
     (17, meta_row [JOP_ULEB32, JOP_ULEB32] 5 0), (18, meta_row [JOP_ULEB32, JOP_ULEB32] 4 0),
     (19, meta_row [JOP_ULEB32, JOP_ULEB32] 4 0), (26, meta_row [] 1 1), (27, meta_row [] 1 1),
     (20, meta_row [JOP_SLEB64] 1 1), (21, meta_row [JOP_SLEB64] 1 1),
     (22, meta_row [JOP_SLEB64] 1 1), (23, meta_row [JOP_SLEB64] 1 1),
     (24, meta_row [JOP_U8, JOP_ULEB32, JOP_SLEB64, JOP_SLEB64] 0 0),
     (25, meta_row [JOP_U8, JOP_ULEB32, JOP_SLEB64, JOP_SLEB64] 0 0)]"

definition jav_jit_meta_sub_fd_rows1 :: "(nat \<times> jit_meta) list" where
  "jav_jit_meta_sub_fd_rows1 =
    [(0, meta_row [JOP_MEMARG] 1 1), (11, meta_row [JOP_MEMARG] 2 0),
     (1, meta_row [JOP_MEMARG] 1 1), (2, meta_row [JOP_MEMARG] 1 1),
     (3, meta_row [JOP_MEMARG] 1 1), (4, meta_row [JOP_MEMARG] 1 1),
     (5, meta_row [JOP_MEMARG] 1 1), (6, meta_row [JOP_MEMARG] 1 1),
     (92, meta_row [JOP_MEMARG] 1 1), (93, meta_row [JOP_MEMARG] 1 1),
     (12, meta_row [JOP_F64, JOP_F64] 0 1), (13, meta_row [JOP_F64, JOP_F64] 2 1),
     (7, meta_row [JOP_MEMARG] 1 1), (8, meta_row [JOP_MEMARG] 1 1),
     (9, meta_row [JOP_MEMARG] 1 1), (10, meta_row [JOP_MEMARG] 1 1),
     (84, meta_row [JOP_MEMARG, JOP_U8] 2 1), (85, meta_row [JOP_MEMARG, JOP_U8] 2 1),
     (86, meta_row [JOP_MEMARG, JOP_U8] 2 1), (87, meta_row [JOP_MEMARG, JOP_U8] 2 1),
     (88, meta_row [JOP_MEMARG, JOP_U8] 2 0), (89, meta_row [JOP_MEMARG, JOP_U8] 2 0),
     (90, meta_row [JOP_MEMARG, JOP_U8] 2 0), (91, meta_row [JOP_MEMARG, JOP_U8] 2 0),
     (15, meta_row [] 1 1), (16, meta_row [] 1 1), (17, meta_row [] 1 1),
     (18, meta_row [] 1 1), (19, meta_row [] 1 1), (20, meta_row [] 1 1),
     (110, meta_row [] 2 1), (142, meta_row [] 2 1), (174, meta_row [] 2 1),
     (206, meta_row [] 2 1), (228, meta_row [] 2 1), (240, meta_row [] 2 1),
     (113, meta_row [] 2 1), (145, meta_row [] 2 1), (177, meta_row [] 2 1),
     (209, meta_row [] 2 1), (229, meta_row [] 2 1), (241, meta_row [] 2 1),
     (149, meta_row [] 2 1), (181, meta_row [] 2 1), (213, meta_row [] 2 1),
     (230, meta_row [] 2 1), (242, meta_row [] 2 1), (231, meta_row [] 2 1),
     (243, meta_row [] 2 1), (35, meta_row [] 2 1), (45, meta_row [] 2 1),
     (55, meta_row [] 2 1), (214, meta_row [] 2 1), (36, meta_row [] 2 1),
     (46, meta_row [] 2 1), (56, meta_row [] 2 1), (215, meta_row [] 2 1),
     (37, meta_row [] 2 1), (47, meta_row [] 2 1), (57, meta_row [] 2 1),
     (216, meta_row [] 2 1), (39, meta_row [] 2 1), (49, meta_row [] 2 1),
     (59, meta_row [] 2 1), (217, meta_row [] 2 1), (41, meta_row [] 2 1),
     (51, meta_row [] 2 1), (61, meta_row [] 2 1), (218, meta_row [] 2 1),
     (43, meta_row [] 2 1), (53, meta_row [] 2 1), (63, meta_row [] 2 1),
     (219, meta_row [] 2 1), (65, meta_row [] 2 1), (66, meta_row [] 2 1),
     (67, meta_row [] 2 1), (68, meta_row [] 2 1), (69, meta_row [] 2 1),
     (70, meta_row [] 2 1), (71, meta_row [] 2 1), (72, meta_row [] 2 1),
     (73, meta_row [] 2 1), (74, meta_row [] 2 1), (75, meta_row [] 2 1),
     (76, meta_row [] 2 1), (38, meta_row [] 2 1), (48, meta_row [] 2 1),
     (58, meta_row [] 2 1), (40, meta_row [] 2 1), (50, meta_row [] 2 1),
     (60, meta_row [] 2 1), (42, meta_row [] 2 1), (52, meta_row [] 2 1),
     (62, meta_row [] 2 1), (44, meta_row [] 2 1), (54, meta_row [] 2 1),
     (64, meta_row [] 2 1), (123, meta_row [] 2 1), (155, meta_row [] 2 1),
     (111, meta_row [] 2 1), (112, meta_row [] 2 1), (114, meta_row [] 2 1),
     (115, meta_row [] 2 1), (143, meta_row [] 2 1), (144, meta_row [] 2 1),
     (146, meta_row [] 2 1), (147, meta_row [] 2 1), (99, meta_row [] 1 1),
     (131, meta_row [] 1 1), (163, meta_row [] 1 1), (195, meta_row [] 1 1),
     (100, meta_row [] 1 1), (132, meta_row [] 1 1), (164, meta_row [] 1 1),
     (196, meta_row [] 1 1), (83, meta_row [] 1 1), (14, meta_row [] 2 1),
     (130, meta_row [] 2 1), (135, meta_row [] 1 1), (136, meta_row [] 1 1),
     (137, meta_row [] 1 1), (138, meta_row [] 1 1), (167, meta_row [] 1 1),
     (168, meta_row [] 1 1), (169, meta_row [] 1 1), (170, meta_row [] 1 1),
     (199, meta_row [] 1 1), (200, meta_row [] 1 1), (201, meta_row [] 1 1),
     (202, meta_row [] 1 1), (156, meta_row [] 2 1), (157, meta_row [] 2 1),
     (158, meta_row [] 2 1), (159, meta_row [] 2 1), (188, meta_row [] 2 1),
     (189, meta_row [] 2 1), (190, meta_row [] 2 1), (191, meta_row [] 2 1),
     (220, meta_row [] 2 1), (221, meta_row [] 2 1)]"

definition jav_jit_meta_sub_fd_rows2 :: "(nat \<times> jit_meta) list" where
  "jav_jit_meta_sub_fd_rows2 =
    [(222, meta_row [] 2 1), (223, meta_row [] 2 1), (186, meta_row [] 2 1),
     (124, meta_row [] 1 1), (125, meta_row [] 1 1), (126, meta_row [] 1 1),
     (127, meta_row [] 1 1), (250, meta_row [] 1 1), (251, meta_row [] 1 1),
     (254, meta_row [] 1 1), (255, meta_row [] 1 1), (95, meta_row [] 1 1),
     (94, meta_row [] 1 1), (98, meta_row [] 1 1), (101, meta_row [] 2 1),
     (102, meta_row [] 2 1), (133, meta_row [] 2 1), (134, meta_row [] 2 1),
     (248, meta_row [JOP_CONST, JOP_CONST] 1 1), (249, meta_row [JOP_CONST, JOP_CONST] 1 1),
     (252, meta_row [JOP_CONST, JOP_CONST] 1 1), (253, meta_row [JOP_CONST, JOP_CONST] 1 1),
     (21, meta_row [JOP_U8] 1 1), (22, meta_row [JOP_U8] 1 1), (23, meta_row [JOP_U8] 2 1),
     (24, meta_row [JOP_U8] 1 1), (25, meta_row [JOP_U8] 1 1), (26, meta_row [JOP_U8] 2 1),
     (27, meta_row [JOP_U8] 1 1), (28, meta_row [JOP_U8] 2 1), (29, meta_row [JOP_U8] 1 1),
     (30, meta_row [JOP_U8] 2 1), (31, meta_row [JOP_U8] 1 1), (32, meta_row [JOP_U8] 2 1),
     (33, meta_row [JOP_U8] 1 1), (34, meta_row [JOP_U8] 2 1), (77, meta_row [] 1 1),
     (78, meta_row [] 2 1), (79, meta_row [] 2 1), (80, meta_row [] 2 1),
     (81, meta_row [] 2 1), (82, meta_row [] 3 1), (107, meta_row [] 2 1),
     (139, meta_row [] 2 1), (171, meta_row [] 2 1), (203, meta_row [] 2 1),
     (108, meta_row [] 2 1), (140, meta_row [] 2 1), (172, meta_row [] 2 1),
     (204, meta_row [] 2 1), (109, meta_row [] 2 1), (141, meta_row [] 2 1),
     (173, meta_row [] 2 1), (205, meta_row [] 2 1), (97, meta_row [] 1 1),
     (129, meta_row [] 1 1), (161, meta_row [] 1 1), (193, meta_row [] 1 1),
     (225, meta_row [JOP_CONST] 1 1), (237, meta_row [JOP_CONST] 1 1), (96, meta_row [] 1 1),
     (128, meta_row [] 1 1), (160, meta_row [] 1 1), (192, meta_row [] 1 1),
     (118, meta_row [] 2 1), (150, meta_row [] 2 1), (182, meta_row [] 2 1),
     (120, meta_row [] 2 1), (152, meta_row [] 2 1), (184, meta_row [] 2 1),
     (119, meta_row [] 2 1), (151, meta_row [] 2 1), (183, meta_row [] 2 1),
     (121, meta_row [] 2 1), (153, meta_row [] 2 1), (185, meta_row [] 2 1),
     (224, meta_row [] 1 1), (236, meta_row [] 1 1), (227, meta_row [] 1 1),
     (239, meta_row [] 1 1), (103, meta_row [] 1 1), (116, meta_row [] 1 1),
     (104, meta_row [] 1 1), (117, meta_row [] 1 1), (105, meta_row [] 1 1),
     (122, meta_row [] 1 1), (106, meta_row [] 1 1), (148, meta_row [] 1 1),
     (232, meta_row [] 2 1), (244, meta_row [] 2 1), (233, meta_row [] 2 1),
     (245, meta_row [] 2 1), (234, meta_row [] 2 1), (246, meta_row [] 2 1),
     (235, meta_row [] 2 1), (247, meta_row [] 2 1), (256, meta_row [] 2 1),
     (257, meta_row [JOP_CONST, JOP_CONST] 1 1), (258, meta_row [JOP_CONST, JOP_CONST] 1 1),
     (259, meta_row [JOP_CONST, JOP_CONST] 1 1), (260, meta_row [JOP_CONST, JOP_CONST] 1 1),
     (261, meta_row [] 3 1), (263, meta_row [] 3 1), (262, meta_row [JOP_CONST] 3 1),
     (264, meta_row [JOP_CONST] 3 1), (265, meta_row [] 3 1), (266, meta_row [] 3 1),
     (267, meta_row [] 3 1), (268, meta_row [] 3 1), (269, meta_row [] 2 1),
     (271, meta_row [] 2 1), (270, meta_row [] 2 1), (272, meta_row [] 2 1),
     (273, meta_row [] 2 1), (274, meta_row [] 2 1), (275, meta_row [] 3 1)]"

definition jav_jit_meta_rows1 :: "(nat \<times> jit_meta) list" where
  "jav_jit_meta_rows1 =
    [(32, meta_row [JOP_ULEB32] 0 1), (33, meta_row [JOP_ULEB32] 1 0),
     (34, meta_row [JOP_ULEB32] 1 1), (35, meta_row [JOP_ULEB32] 0 1),
     (36, meta_row [JOP_ULEB32] 1 0), (40, meta_row [JOP_MEMARG] 1 1),
     (41, meta_row [JOP_MEMARG] 1 1), (42, meta_row [JOP_MEMARG] 1 1),
     (43, meta_row [JOP_MEMARG] 1 1), (44, meta_row [JOP_MEMARG] 1 1),
     (45, meta_row [JOP_MEMARG] 1 1), (46, meta_row [JOP_MEMARG] 1 1),
     (47, meta_row [JOP_MEMARG] 1 1), (48, meta_row [JOP_MEMARG] 1 1),
     (49, meta_row [JOP_MEMARG] 1 1), (50, meta_row [JOP_MEMARG] 1 1),
     (51, meta_row [JOP_MEMARG] 1 1), (52, meta_row [JOP_MEMARG] 1 1),
     (53, meta_row [JOP_MEMARG] 1 1), (54, meta_row [JOP_MEMARG] 2 0),
     (55, meta_row [JOP_MEMARG] 2 0), (56, meta_row [JOP_MEMARG] 2 0),
     (57, meta_row [JOP_MEMARG] 2 0), (58, meta_row [JOP_MEMARG] 2 0),
     (59, meta_row [JOP_MEMARG] 2 0), (60, meta_row [JOP_MEMARG] 2 0),
     (61, meta_row [JOP_MEMARG] 2 0), (62, meta_row [JOP_MEMARG] 2 0),
     (63, meta_row [JOP_ULEB32] 0 1), (64, meta_row [JOP_ULEB32] 1 1),
     (8, meta_row [JOP_ULEB32] 1 0), (10, meta_row [] 1 0), (31, meta_row [] 0 0),
     (65, meta_row [JOP_SLEB32] 0 1), (66, meta_row [JOP_SLEB64] 0 1), (106, meta_row [] 2 1),
     (124, meta_row [] 2 1), (146, meta_row [] 2 1), (160, meta_row [] 2 1),
     (107, meta_row [] 2 1), (125, meta_row [] 2 1), (147, meta_row [] 2 1),
     (161, meta_row [] 2 1), (108, meta_row [] 2 1), (126, meta_row [] 2 1),
     (148, meta_row [] 2 1), (162, meta_row [] 2 1), (113, meta_row [] 2 1),
     (131, meta_row [] 2 1), (114, meta_row [] 2 1), (132, meta_row [] 2 1),
     (115, meta_row [] 2 1), (133, meta_row [] 2 1), (70, meta_row [] 2 1),
     (81, meta_row [] 2 1), (91, meta_row [] 2 1), (97, meta_row [] 2 1),
     (71, meta_row [] 2 1), (82, meta_row [] 2 1), (92, meta_row [] 2 1),
     (98, meta_row [] 2 1), (72, meta_row [] 2 1), (83, meta_row [] 2 1),
     (93, meta_row [] 2 1), (99, meta_row [] 2 1), (74, meta_row [] 2 1),
     (85, meta_row [] 2 1), (94, meta_row [] 2 1), (100, meta_row [] 2 1),
     (76, meta_row [] 2 1), (87, meta_row [] 2 1), (95, meta_row [] 2 1),
     (101, meta_row [] 2 1), (78, meta_row [] 2 1), (89, meta_row [] 2 1),
     (96, meta_row [] 2 1), (102, meta_row [] 2 1), (69, meta_row [] 1 1),
     (80, meta_row [] 1 1), (109, meta_row [] 2 1), (127, meta_row [] 2 1),
     (110, meta_row [] 2 1), (128, meta_row [] 2 1), (111, meta_row [] 2 1),
     (129, meta_row [] 2 1), (112, meta_row [] 2 1), (130, meta_row [] 2 1),
     (149, meta_row [] 2 1), (163, meta_row [] 2 1), (73, meta_row [] 2 1),
     (84, meta_row [] 2 1), (75, meta_row [] 2 1), (86, meta_row [] 2 1),
     (77, meta_row [] 2 1), (88, meta_row [] 2 1), (79, meta_row [] 2 1),
     (90, meta_row [] 2 1), (116, meta_row [] 2 1), (134, meta_row [] 2 1),
     (117, meta_row [] 2 1), (135, meta_row [] 2 1), (118, meta_row [] 2 1),
     (136, meta_row [] 2 1), (119, meta_row [] 2 1), (137, meta_row [] 2 1),
     (120, meta_row [] 2 1), (138, meta_row [] 2 1), (103, meta_row [] 1 1),
     (121, meta_row [] 1 1), (104, meta_row [] 1 1), (122, meta_row [] 1 1),
     (105, meta_row [] 1 1), (123, meta_row [] 1 1), (140, meta_row [JOP_CONST] 1 1),
     (154, meta_row [JOP_CONST] 1 1), (139, meta_row [] 1 1), (153, meta_row [] 1 1),
     (141, meta_row [] 1 1), (155, meta_row [] 1 1), (142, meta_row [] 1 1),
     (156, meta_row [] 1 1), (143, meta_row [] 1 1), (157, meta_row [] 1 1),
     (144, meta_row [] 1 1), (158, meta_row [] 1 1), (145, meta_row [] 1 1),
     (159, meta_row [] 1 1), (150, meta_row [] 2 1), (164, meta_row [] 2 1),
     (151, meta_row [] 2 1), (165, meta_row [] 2 1), (152, meta_row [] 2 1),
     (166, meta_row [] 2 1), (67, meta_row [JOP_F32] 0 1), (68, meta_row [JOP_F64] 0 1),
     (167, meta_row [] 1 1), (172, meta_row [] 1 1), (173, meta_row [] 1 1),
     (192, meta_row [] 1 1), (193, meta_row [] 1 1)]"

definition jav_jit_meta_rows2 :: "(nat \<times> jit_meta) list" where
  "jav_jit_meta_rows2 =
    [(194, meta_row [] 1 1), (195, meta_row [] 1 1), (196, meta_row [] 1 1),
     (168, meta_row [JOP_CONST, JOP_CONST] 1 1), (169, meta_row [JOP_CONST, JOP_CONST] 1 1),
     (170, meta_row [JOP_CONST, JOP_CONST] 1 1), (171, meta_row [JOP_CONST, JOP_CONST] 1 1),
     (174, meta_row [JOP_CONST, JOP_CONST] 1 1), (175, meta_row [JOP_CONST, JOP_CONST] 1 1),
     (176, meta_row [JOP_CONST, JOP_CONST] 1 1), (177, meta_row [JOP_CONST, JOP_CONST] 1 1),
     (178, meta_row [] 1 1), (179, meta_row [] 1 1), (180, meta_row [] 1 1),
     (181, meta_row [] 1 1), (183, meta_row [] 1 1), (184, meta_row [] 1 1),
     (185, meta_row [] 1 1), (186, meta_row [] 1 1), (182, meta_row [] 1 1),
     (187, meta_row [] 1 1), (188, meta_row [] 1 1), (189, meta_row [] 1 1),
     (190, meta_row [] 1 1), (191, meta_row [] 1 1), (0, meta_row [] 0 0),
     (1, meta_row [] 0 0), (2, meta_row [JOP_BLOCKTYPE] 0 0),
     (3, meta_row [JOP_BLOCKTYPE] 0 0), (4, meta_row [JOP_BLOCKTYPE] 1 0),
     (5, meta_row [] 0 0), (11, meta_row [] 0 0), (12, meta_row [JOP_ULEB32] 0 0),
     (13, meta_row [JOP_ULEB32] 1 0), (14, meta_row [JOP_BRTABLE_COUNT] 1 0),
     (15, meta_row [] 0 0), (16, meta_row [JOP_ULEB32] 1 0), (26, meta_row [] 1 0),
     (27, meta_row [] 3 1), (28, meta_row [] 3 1), (17, meta_row [JOP_ULEB32, JOP_ULEB32] 2 0),
     (18, meta_row [JOP_ULEB32] 1 0), (19, meta_row [JOP_ULEB32, JOP_ULEB32] 2 0),
     (21, meta_row [JOP_ULEB32] 2 0), (20, meta_row [JOP_ULEB32] 2 0),
     (208, meta_row [JOP_SLEB64] 0 1), (209, meta_row [] 1 1),
     (210, meta_row [JOP_ULEB32] 0 1), (212, meta_row [] 1 1),
     (213, meta_row [JOP_ULEB32] 1 1), (214, meta_row [JOP_ULEB32] 1 0),
     (211, meta_row [] 2 1), (37, meta_row [JOP_ULEB32] 1 1), (38, meta_row [JOP_ULEB32] 2 0)]"

section \<open>Lookup\<close>

definition jav_opsig :: "u8 \<Rightarrow> opsig" where
  "jav_opsig op = row_at opsig_zero (jav_opsig_rows1 @ jav_opsig_rows2) (unat op)"

definition jav_jit_meta :: "u8 \<Rightarrow> jit_meta" where
  "jav_jit_meta op = row_at meta_zero (jav_jit_meta_rows1 @ jav_jit_meta_rows2) (unat op)"

text \<open>
  The sub-tables by prefix, each with its number of rows.  \<open>None\<close> is the \<open>NULL\<close> entry of an
  opcode that is no prefix.
\<close>

definition jav_opsig_sub :: "u8 \<Rightarrow> (nat \<times> (nat \<Rightarrow> opsig)) option" where
  "jav_opsig_sub op =
     (if op = 0xfc then Some (18, row_at opsig_zero jav_opsig_sub_fc_rows)
      else if op = 0xfb then Some (31, row_at opsig_zero jav_opsig_sub_fb_rows)
      else if op = 0xfd then
        Some (276, row_at opsig_zero (jav_opsig_sub_fd_rows1 @ jav_opsig_sub_fd_rows2))
      else None)"

definition jav_jit_meta_sub :: "u8 \<Rightarrow> (nat \<times> (nat \<Rightarrow> jit_meta)) option" where
  "jav_jit_meta_sub op =
     (if op = 0xfc then Some (18, row_at meta_zero jav_jit_meta_sub_fc_rows)
      else if op = 0xfb then Some (31, row_at meta_zero jav_jit_meta_sub_fb_rows)
      else if op = 0xfd then
        Some (276, row_at meta_zero (jav_jit_meta_sub_fd_rows1 @ jav_jit_meta_sub_fd_rows2))
      else None)"

end
