(* ===== verification/TcState.thy ===== *)
theory TcState
  imports OpTables
begin

text \<open>
  The state of \<open>jav_typecheck_ex\<close> in \<open>wasm/src/validate.c\<close> and its primitives: the
  operand-type stack \<open>vals\<close>, the control stack \<open>ctrls\<close>, the side-table accumulators and
  the local-initialisation flags.

  Both stacks are lists with the top at the head, so label \<open>k\<close> is \<open>ctrls ! k\<close>.  The growable
  \<open>bbq_vec\<close> accumulators are lists in append order.  The cursor \<open>pos\<close> of the C \<open>bbq_ctx_t\<close>
  is a field of the state.  The frame's private backing store \<open>single[1]\<close> needs no
  counterpart, since the model's frames hold their type sequences by value.

  The byte and LEB128 readers are \<open>bbq_runtime\<close>'s, code outside this repository: they are a
  parameter of the model, a \<open>reader\<close>.
\<close>

section \<open>Readers and the validator's fixed environment\<close>

text \<open>
  Each reader takes the bytes and the cursor, and gives success, the value stored
  through the out-pointer and the new cursor.  \<open>r_junk\<close> is what a slot of freshly
  allocated memory holds when a failing read leaves it alone.
\<close>

record reader =
  r_u8 :: "u8 list \<Rightarrow> nat \<Rightarrow> bool \<times> u8 \<times> nat"
  r_u32 :: "u8 list \<Rightarrow> nat \<Rightarrow> bool \<times> u32 \<times> nat"
  r_u64 :: "u8 list \<Rightarrow> nat \<Rightarrow> bool \<times> u64 \<times> nat"
  r_i32 :: "u8 list \<Rightarrow> nat \<Rightarrow> bool \<times> int \<times> nat"
  r_i64 :: "u8 list \<Rightarrow> nat \<Rightarrow> bool \<times> int \<times> nat"
  r_s33 :: "u8 list \<Rightarrow> nat \<Rightarrow> bool \<times> int \<times> nat"
  r_f32 :: "u8 list \<Rightarrow> nat \<Rightarrow> nat"
  r_f64 :: "u8 list \<Rightarrow> nat \<Rightarrow> nat"
  r_junk :: "u32 \<Rightarrow> u32"

text \<open>
  \<open>ve_oob\<close> and \<open>ve_oob_meta\<close> are what a read past the end of a sub-opcode table yields: the
  code indexes those tables with an unchecked sub-opcode.
\<close>

record venv =
  ve_rd :: reader
  ve_code :: "u8 list"
  ve_cx :: vctx
  ve_oob :: "u8 \<Rightarrow> nat \<Rightarrow> opsig"
  ve_oob_meta :: "u8 \<Rightarrow> nat \<Rightarrow> jit_meta"

abbreviation ve_lat :: "venv \<Rightarrow> subtype_ctx option" where
  "ve_lat E \<equiv> cx_lattice (ve_cx E)"

text \<open>
  What the readers promise: a byte read succeeds exactly inside the code and moves the
  cursor by one; every other read moves the cursor forward and never past the end.
\<close>

definition cursor_ok :: "(u8 list \<Rightarrow> nat \<Rightarrow> nat) \<Rightarrow> bool" where
  "cursor_ok f \<longleftrightarrow> (\<forall>code p. p \<le> length code \<longrightarrow> p \<le> f code p \<and> f code p \<le> length code)"

definition reader_ok :: "reader \<Rightarrow> bool" where
  "reader_ok r \<longleftrightarrow>
     (\<forall>code p. p < length code \<longrightarrow> r_u8 r code p = (True, code ! p, p + 1)) \<and>
     (\<forall>code p. length code \<le> p \<longrightarrow> fst (r_u8 r code p) = False \<and> snd (snd (r_u8 r code p)) = p) \<and>
     cursor_ok (\<lambda>c p. snd (snd (r_u32 r c p))) \<and> cursor_ok (\<lambda>c p. snd (snd (r_u64 r c p))) \<and>
     cursor_ok (\<lambda>c p. snd (snd (r_i32 r c p))) \<and> cursor_ok (\<lambda>c p. snd (snd (r_i64 r c p))) \<and>
     cursor_ok (\<lambda>c p. snd (snd (r_s33 r c p))) \<and> cursor_ok (r_f32 r) \<and> cursor_ok (r_f64 r)"

section \<open>The state\<close>

abbreviation (input) MAX_STACK :: nat where "MAX_STACK \<equiv> 1024"
abbreviation (input) MAX_DEPTH :: nat where "MAX_DEPTH \<equiv> 1024"

record st_entry =
  se_delta_ip :: int
  se_delta_stp :: int
  se_vals :: u16
  se_pop :: u16

record jav_try =
  tr_try_pc :: u32
  tr_catch_stp :: u32
  tr_ncatch :: u32
  tr_end_pc :: u32

record cframe =
  cf_opcode :: u8
  cf_start :: "valtype list"
  cf_start_tidx :: "u32 list option"
  cf_nstart :: nat
  cf_end :: "valtype list"
  cf_end_tidx :: "u32 list option"
  cf_nend :: nat
  cf_val_height :: nat
  cf_init_height :: nat
  cf_unreachable :: bool
  cf_loop_start :: nat
  cf_fixups :: "nat list"
  cf_else_e :: "nat option"
  cf_try_idx :: "nat option"

record tcst =
  tc_vals :: "vtype list"
  tc_ctrls :: "cframe list"
  tc_ok :: bool
  tc_err :: jav_err
  tc_st :: "st_entry list"
  tc_bpos :: "nat list"
  tc_tip :: "nat list"
  tc_eskip :: "int list"
  tc_trytab :: "jav_try list"
  tc_locals_init :: "bool list"
  tc_inits :: "nat list"
  tc_pos :: nat

abbreviation tc_nvals :: "tcst \<Rightarrow> nat" where "tc_nvals s \<equiv> length (tc_vals s)"
abbreviation tc_nctrls :: "tcst \<Rightarrow> nat" where "tc_nctrls s \<equiv> length (tc_ctrls s)"

text \<open>\<open>s.ok = 0\<close>, and \<open>s.err = e; s.ok = 0\<close>.\<close>

definition tc_fail :: "tcst \<Rightarrow> tcst" where
  "tc_fail s = s\<lparr>tc_ok := False\<rparr>"

definition tc_reject :: "jav_err \<Rightarrow> tcst \<Rightarrow> tcst" where
  "tc_reject e s = s\<lparr>tc_ok := False, tc_err := e\<rparr>"

section \<open>Reading\<close>

definition rd_u8 :: "venv \<Rightarrow> tcst \<Rightarrow> bool \<times> u8 \<times> tcst" where
  "rd_u8 E s = (let (k, v, p) = r_u8 (ve_rd E) (ve_code E) (tc_pos s) in (k, v, s\<lparr>tc_pos := p\<rparr>))"

definition rd_s33 :: "venv \<Rightarrow> tcst \<Rightarrow> bool \<times> int \<times> tcst" where
  "rd_s33 E s = (let (k, v, p) = r_s33 (ve_rd E) (ve_code E) (tc_pos s) in (k, v, s\<lparr>tc_pos := p\<rparr>))"

text \<open>Reads whose success flag the code ignores.\<close>

definition rd_byte :: "venv \<Rightarrow> tcst \<Rightarrow> u8 \<times> tcst" where
  "rd_byte E s = snd (rd_u8 E s)"

definition rd_u32 :: "venv \<Rightarrow> tcst \<Rightarrow> u32 \<times> tcst" where
  "rd_u32 E s = (let (k, v, p) = r_u32 (ve_rd E) (ve_code E) (tc_pos s) in (v, s\<lparr>tc_pos := p\<rparr>))"

definition rd_u64 :: "venv \<Rightarrow> tcst \<Rightarrow> u64 \<times> tcst" where
  "rd_u64 E s = (let (k, v, p) = r_u64 (ve_rd E) (ve_code E) (tc_pos s) in (v, s\<lparr>tc_pos := p\<rparr>))"

definition rd_i32 :: "venv \<Rightarrow> tcst \<Rightarrow> int \<times> tcst" where
  "rd_i32 E s = (let (k, v, p) = r_i32 (ve_rd E) (ve_code E) (tc_pos s) in (v, s\<lparr>tc_pos := p\<rparr>))"

definition rd_i64 :: "venv \<Rightarrow> tcst \<Rightarrow> int \<times> tcst" where
  "rd_i64 E s = (let (k, v, p) = r_i64 (ve_rd E) (ve_code E) (tc_pos s) in (v, s\<lparr>tc_pos := p\<rparr>))"

text \<open>\<open>bbq_read_uleb128_u32(&c, &labels[i])\<close> into a freshly allocated array.\<close>

definition rd_label :: "venv \<Rightarrow> u32 \<Rightarrow> tcst \<Rightarrow> u32 \<times> tcst" where
  "rd_label E i s =
     (let (k, v, p) = r_u32 (ve_rd E) (ve_code E) (tc_pos s)
      in (if k then v else r_junk (ve_rd E) i, s\<lparr>tc_pos := p\<rparr>))"

section \<open>The side-table accumulators\<close>

definition st_zero :: st_entry where
  "st_zero = \<lparr>se_delta_ip = 0, se_delta_stp = 0, se_vals = 0, se_pop = 0\<rparr>"

definition st_push :: "tcst \<Rightarrow> nat \<times> tcst" where
  "st_push s =
     (let s' = s\<lparr>tc_st := tc_st s @ [st_zero], tc_bpos := tc_bpos s @ [0],
                tc_tip := tc_tip s @ [0], tc_eskip := tc_eskip s @ [0]\<rparr>
      in (length (tc_st s') - 1, s'))"

definition set_bpos :: "nat \<Rightarrow> nat \<Rightarrow> tcst \<Rightarrow> tcst" where
  "set_bpos e p s = s\<lparr>tc_bpos := (tc_bpos s)[e := p]\<rparr>"

definition set_tip :: "nat \<Rightarrow> nat \<Rightarrow> tcst \<Rightarrow> tcst" where
  "set_tip e p s = s\<lparr>tc_tip := (tc_tip s)[e := p]\<rparr>"

definition set_eskip :: "nat \<Rightarrow> int \<Rightarrow> tcst \<Rightarrow> tcst" where
  "set_eskip e k s = s\<lparr>tc_eskip := (tc_eskip s)[e := k]\<rparr>"

definition set_vals_pop :: "nat \<Rightarrow> nat \<Rightarrow> int \<Rightarrow> tcst \<Rightarrow> tcst" where
  "set_vals_pop e v p s =
     s\<lparr>tc_st := (tc_st s)[e := (tc_st s ! e)\<lparr>se_vals := word_of_nat v, se_pop := word_of_int p\<rparr>]\<rparr>"

section \<open>The operand stack\<close>

definition tc_top :: "tcst \<Rightarrow> cframe" where
  "tc_top s = hd (tc_ctrls s)"

definition tc_push_vt :: "vtype \<Rightarrow> tcst \<Rightarrow> tcst" where
  "tc_push_vt t s =
     (if tc_nvals s < MAX_STACK then s\<lparr>tc_vals := t # tc_vals s\<rparr> else s\<lparr>tc_ok := False\<rparr>)"

definition tc_push :: "valtype \<Rightarrow> tcst \<Rightarrow> tcst" where
  "tc_push w s = tc_push_vt (vt_from w 0) s"

definition tc_push_ref :: "bool \<Rightarrow> int \<Rightarrow> tcst \<Rightarrow> tcst" where
  "tc_push_ref nullable ht s = tc_push_vt (VT_REF nullable ht) s"

definition tc_push1 :: "valtype \<Rightarrow> u32 \<Rightarrow> tcst \<Rightarrow> tcst" where
  "tc_push1 w tx s = tc_push_vt (vt_from w tx) s"

definition tc_pop :: "tcst \<Rightarrow> vtype \<times> tcst" where
  "tc_pop s =
     (let f = tc_top s in
      if tc_nvals s \<le> cf_val_height f then
        (VT_BOT, if cf_unreachable f then s else s\<lparr>tc_ok := False\<rparr>)
      else (hd (tc_vals s), s\<lparr>tc_vals := tl (tc_vals s)\<rparr>))"

definition tc_matches :: "subtype_ctx option \<Rightarrow> vtype \<Rightarrow> vtype \<Rightarrow> bool" where
  "tc_matches lat a e =
     (if vt_is_bot a \<or> vt_is_bot e then True
      else if vt_is_ref a \<and> vt_is_ref e then
        rt_sub lat (vt_nullable a) (vt_ht a) (vt_nullable e) (vt_ht e)
      else if \<not> vt_is_ref a \<and> \<not> vt_is_ref e then a = e
      else False)"

text \<open>\<open>tc_pop_vt\<close>; \<open>tc_pop_e\<close>, \<open>tc_pop1\<close> and \<open>tc_pop_ref_ht\<close> differ in how the expected type is given.\<close>

definition tc_pop_vt :: "subtype_ctx option \<Rightarrow> vtype \<Rightarrow> tcst \<Rightarrow> tcst" where
  "tc_pop_vt lat e s =
     (let (a, s) = tc_pop s in if \<not> tc_matches lat a e then s\<lparr>tc_ok := False\<rparr> else s)"

definition tc_pop_e :: "subtype_ctx option \<Rightarrow> valtype \<Rightarrow> tcst \<Rightarrow> tcst" where
  "tc_pop_e lat w s =
     (let (a, s) = tc_pop s in if \<not> tc_matches lat a (vt_from w 0) then s\<lparr>tc_ok := False\<rparr> else s)"

definition tc_pop_ref_ht :: "subtype_ctx option \<Rightarrow> bool \<Rightarrow> int \<Rightarrow> tcst \<Rightarrow> tcst" where
  "tc_pop_ref_ht lat nullable ht s =
     (let (a, s) = tc_pop s in
      if \<not> tc_matches lat a (VT_REF nullable ht) then s\<lparr>tc_ok := False\<rparr> else s)"

definition tc_pop1 :: "subtype_ctx option \<Rightarrow> valtype \<Rightarrow> u32 \<Rightarrow> tcst \<Rightarrow> tcst" where
  "tc_pop1 lat w tx s =
     (let (a, s) = tc_pop s in if \<not> tc_matches lat a (vt_from w tx) then s\<lparr>tc_ok := False\<rparr> else s)"

definition tc_pop_ref :: "tcst \<Rightarrow> vtype \<times> tcst" where
  "tc_pop_ref s =
     (let (a, s) = tc_pop s in
      (a, if \<not> vt_is_ref a \<and> \<not> vt_is_bot a then s\<lparr>tc_ok := False\<rparr> else s))"

text \<open>The two loops over a type sequence: pushes from the front, pops from the back.\<close>

definition tc_push_vals :: "valtype list \<Rightarrow> u32 list option \<Rightarrow> nat \<Rightarrow> tcst \<Rightarrow> tcst" where
  "tc_push_vals ts tx n s = fold (\<lambda>i. tc_push_vt (typ_at ts tx i)) [0..<n] s"

definition tc_pop_vals ::
  "subtype_ctx option \<Rightarrow> valtype list \<Rightarrow> u32 list option \<Rightarrow> nat \<Rightarrow> tcst \<Rightarrow> tcst" where
  "tc_pop_vals lat ts tx n s = fold (\<lambda>i. tc_pop_vt lat (typ_at ts tx i)) (rev [0..<n]) s"

section \<open>The control stack\<close>

definition tc_push_ctrl ::
  "u8 \<Rightarrow> valtype list \<Rightarrow> u32 list option \<Rightarrow> nat \<Rightarrow> valtype list \<Rightarrow> u32 list option \<Rightarrow> nat \<Rightarrow> tcst \<Rightarrow> tcst" where
  "tc_push_ctrl opcode start start_tidx nstart en en_tidx nend s =
     (let f = \<lparr>cf_opcode = opcode, cf_start = start, cf_start_tidx = start_tidx,
               cf_nstart = nstart mod 2 ^ 16, cf_end = en, cf_end_tidx = en_tidx,
               cf_nend = nend mod 2 ^ 16, cf_val_height = tc_nvals s,
               cf_init_height = length (tc_inits s), cf_unreachable = False, cf_loop_start = 0,
               cf_fixups = [], cf_else_e = None, cf_try_idx = None\<rparr>
      in tc_push_vals start start_tidx nstart (s\<lparr>tc_ctrls := f # tc_ctrls s\<rparr>))"

definition upd_top :: "(cframe \<Rightarrow> cframe) \<Rightarrow> tcst \<Rightarrow> tcst" where
  "upd_top g s = s\<lparr>tc_ctrls := (tc_ctrls s)[0 := g (tc_top s)]\<rparr>"

definition tc_reset_locals :: "nat \<Rightarrow> tcst \<Rightarrow> tcst" where
  "tc_reset_locals height s =
     s\<lparr>tc_locals_init := fold (\<lambda>i l. l[i := False]) (rev (drop height (tc_inits s))) (tc_locals_init s),
       tc_inits := take height (tc_inits s)\<rparr>"

definition tc_unreachable :: "tcst \<Rightarrow> tcst" where
  "tc_unreachable s =
     upd_top (\<lambda>f. f\<lparr>cf_unreachable := True\<rparr>)
       (s\<lparr>tc_vals := drop (tc_nvals s - cf_val_height (tc_top s)) (tc_vals s)\<rparr>)"

text \<open>A branch's target keeps a loop's inputs or another block's outputs: types, indices, count.\<close>

definition tc_label :: "cframe \<Rightarrow> valtype list \<times> u32 list option \<times> nat" where
  "tc_label f =
     (if cf_opcode f = 0x03 then (cf_start f, cf_start_tidx f, cf_nstart f)
      else (cf_end f, cf_end_tidx f, cf_nend f))"

text \<open>
  A branch entry's target: a loop's start is known, any other frame collects the entry
  in its fixups (\<open>if (tgt->opcode == 0x03) s.tip[e] = tgt->loop_start; else bbq_vec_push(...)\<close>).
\<close>

definition tc_target :: "nat \<Rightarrow> nat \<Rightarrow> tcst \<Rightarrow> tcst" where
  "tc_target label e s =
     (let tgt = tc_ctrls s ! label in
      if cf_opcode tgt = 0x03 then set_tip e (cf_loop_start tgt) s
      else s\<lparr>tc_ctrls := (tc_ctrls s)[label := tgt\<lparr>cf_fixups := cf_fixups tgt @ [e]\<rparr>]\<rparr>)"

text \<open>
  The block shared by every branch: given the new entry \<open>e\<close>, its position \<open>p\<close>, the height
  the branch unwinds from and the label arity, fill the entry and aim it.
\<close>

definition tc_fill_entry :: "nat \<Rightarrow> nat \<Rightarrow> nat \<Rightarrow> nat \<Rightarrow> nat \<Rightarrow> tcst \<Rightarrow> tcst" where
  "tc_fill_entry label e p height nlab s =
     (let pop = int height - int (cf_val_height (tc_ctrls s ! label)) - int nlab
      in tc_target label e (set_vals_pop e nlab (if pop > 0 then pop else 0) (set_bpos e p s)))"

end
