(* ===== verification/TcControl.thy ===== *)
theory TcControl
  imports TcState
begin

text \<open>
  The structured-control half of \<open>jav_typecheck_ex\<close> (\<open>wasm/src/validate.c\<close>): block types,
  and one handler per control instruction of the \<open>switch\<close>.  A handler is a function on
  the state; the early \<open>break\<close> of a C case is the \<open>else\<close>-less branch that returns the
  rejected state.
\<close>

section \<open>Block types\<close>

text \<open>What \<open>tc_blocktype\<close> writes through its out-parameters, and its \<open>ok\<close>/\<open>errp\<close> effects on the state.\<close>

record blocktype =
  bt_start :: "valtype list"
  bt_start_tidx :: "u32 list option"
  bt_nstart :: nat
  bt_end :: "valtype list"
  bt_end_tidx :: "u32 list option"
  bt_nend :: nat

definition bt_empty :: blocktype where
  "bt_empty = \<lparr>bt_start = [], bt_start_tidx = None, bt_nstart = 0,
     bt_end = [], bt_end_tidx = None, bt_nend = 0\<rparr>"

definition bt_single :: "valtype \<Rightarrow> u32 \<Rightarrow> blocktype" where
  "bt_single t tx = \<lparr>bt_start = [], bt_start_tidx = None, bt_nstart = 0,
     bt_end = [t], bt_end_tidx = Some [tx], bt_nend = 1\<rparr>"

definition bt_func :: "functype \<Rightarrow> blocktype" where
  "bt_func ft = \<lparr>bt_start = ft_params ft, bt_start_tidx = ft_param_tidx ft, bt_nstart = ft_nparams ft,
     bt_end = ft_results ft, bt_end_tidx = ft_result_tidx ft, bt_nend = ft_nresults ft\<rparr>"

text \<open>The value type and heap type of a negative single-valtype encoding.\<close>

definition tc_vt_from_sleb :: "int \<Rightarrow> valtype \<times> int" where
  "tc_vt_from_sleb bt =
     (if bt = -1 then (WVT_I32, 0) else if bt = -2 then (WVT_I64, 0)
      else if bt = -3 then (WVT_F32, 0) else if bt = -4 then (WVT_F64, 0)
      else if bt = -5 then (WVT_V128, 0)
      else if HT_EXN \<le> bt \<and> bt \<le> HT_NOEXN then (WVT_REF, bt)
      else (WVT_BOT, 0))"

definition tc_blocktype :: "int \<Rightarrow> vctx \<Rightarrow> tcst \<Rightarrow> blocktype \<times> tcst" where
  "tc_blocktype bt cx s =
     (if bt = -64 then (bt_empty, s)
      else if bt < 0 then
        (let (t, ht) = tc_vt_from_sleb bt in
         (bt_single t (word_of_int ht), if t = WVT_BOT then tc_fail s else s))
      else if cx_types cx \<noteq> None \<and> nat bt < cx_ntypes cx then
        (case cx_lattice cx of
           Some l \<Rightarrow>
             if sc_kinds l ! nat bt \<noteq> WST_FUNC then (bt_empty, tc_fail s)
             else (bt_func (the (cx_types cx) ! nat bt), s)
         | None \<Rightarrow> (bt_func (the (cx_types cx) ! nat bt), s))
      else (bt_empty, tc_reject JAV_E_UNKNOWN_TYPE s))"

text \<open>A heap type immediate that is a known abstract code or a type index below \<open>n\<close>.\<close>

definition ht_imm_ok :: "nat \<Rightarrow> int \<Rightarrow> bool" where
  "ht_imm_ok n ht = (if 0 \<le> ht then nat ht < n else HT_EXN \<le> ht \<and> ht \<le> HT_NOEXN)"

definition tc_read_blocktype :: "venv \<Rightarrow> tcst \<Rightarrow> blocktype \<times> tcst" where
  "tc_read_blocktype E s =
     (let (k, bt, s) = rd_s33 E s;
          s = (if \<not> k then tc_reject JAV_E_UNKNOWN_TYPE s else s)
      in if bt = -28 \<or> bt = -29 then
           (let (k, htx, s) = rd_s33 E s;
                s = (if \<not> k then tc_reject JAV_E_UNKNOWN_TYPE s else s);
                s = (if \<not> ht_imm_ok (cx_ntypes (ve_cx E)) htx then tc_reject JAV_E_UNKNOWN_TYPE s else s)
            in (bt_single (if bt = -28 then WVT_REF_NN else WVT_REF) (word_of_int htx), s))
         else tc_blocktype bt (ve_cx E) s)"

text \<open>Pushing the frame of a resolved block type.\<close>

definition tc_push_block :: "u8 \<Rightarrow> blocktype \<Rightarrow> tcst \<Rightarrow> tcst" where
  "tc_push_block op b s =
     tc_push_ctrl op (bt_start b) (bt_start_tidx b) (bt_nstart b) (bt_end b) (bt_end_tidx b) (bt_nend b) s"

section \<open>Blocks\<close>

definition op_unreachable :: "tcst \<Rightarrow> tcst" where
  "op_unreachable s = tc_unreachable s"

definition op_block :: "venv \<Rightarrow> u8 \<Rightarrow> tcst \<Rightarrow> tcst" where
  "op_block E op s =
     (if MAX_DEPTH \<le> tc_nctrls s then tc_fail s
      else let (b, s) = tc_read_blocktype E s;
               s = tc_pop_vals (ve_lat E) (bt_start b) (bt_start_tidx b) (bt_nstart b) s;
               s = tc_push_block op b s
           in upd_top (\<lambda>f. f\<lparr>cf_loop_start := tc_pos s\<rparr>) s)"

definition op_if :: "venv \<Rightarrow> tcst \<Rightarrow> tcst" where
  "op_if E s =
     (let (b, s) = tc_read_blocktype E s;
          s = tc_pop_e (ve_lat E) WVT_I32 s;
          s = tc_pop_vals (ve_lat E) (bt_start b) (bt_start_tidx b) (bt_nstart b) s;
          (e, s) = st_push s;
          s = set_vals_pop e 0 0 (set_bpos e (tc_pos s) s);
          s = tc_push_block 0x04 b s
      in upd_top (\<lambda>f. f\<lparr>cf_else_e := Some e\<rparr>) s)"

definition op_else :: "venv \<Rightarrow> tcst \<Rightarrow> tcst" where
  "op_else E s =
     (let cc = tc_top s in
      if cf_opcode cc \<noteq> 0x04 then tc_fail s
      else
        let s = tc_pop_vals (ve_lat E) (cf_end cc) (cf_end_tidx cc) (cf_nend cc) s in
        if tc_nvals s \<noteq> cf_val_height cc then tc_fail s
        else
          let else_e = the (cf_else_e cc);
              s = set_eskip else_e 1 (set_tip else_e (tc_pos s) s);
              (e2, s) = st_push s;
              s = set_vals_pop e2 (cf_nend cc) 0 (set_bpos e2 (tc_pos s) s);
              s = upd_top (\<lambda>f. f\<lparr>cf_fixups := cf_fixups f @ [e2]\<rparr>) s;
              s = tc_reset_locals (cf_init_height cc) s;
              s = upd_top (\<lambda>f. f\<lparr>cf_else_e := None, cf_opcode := 0x05, cf_unreachable := False\<rparr>) s
          in tc_push_vals (cf_start cc) (cf_start_tidx cc) (cf_nstart cc) s)"

definition set_tips :: "nat list \<Rightarrow> nat \<Rightarrow> tcst \<Rightarrow> tcst" where
  "set_tips es p s = fold (\<lambda>e. set_tip e p) es s"

definition op_end :: "venv \<Rightarrow> tcst \<Rightarrow> tcst" where
  "op_end E s =
     (let f = tc_top s;
          s = (case cf_try_idx f of
                 Some i \<Rightarrow> s\<lparr>tc_trytab := (tc_trytab s)[i := (tc_trytab s ! i)\<lparr>tr_end_pc := word_of_nat (tc_pos s)\<rparr>]\<rparr>
               | None \<Rightarrow> s);
          s = tc_pop_vals (ve_lat E) (cf_end f) (cf_end_tidx f) (cf_nend f) s;
          s = (if tc_nvals s \<noteq> cf_val_height f then tc_fail s else s);
          s = (if cf_opcode f = 0x04 then
                 (case cf_else_e f of
                    Some e \<Rightarrow> set_tip e (tc_pos s) (if cf_nstart f \<noteq> cf_nend f then tc_fail s else s)
                  | None \<Rightarrow> s)
               else s);
          s = set_tips (cf_fixups (tc_top s)) (tc_pos s) s;
          s = tc_reset_locals (cf_init_height f) s;
          s = s\<lparr>tc_ctrls := tl (tc_ctrls s)\<rparr>
      in tc_push_vals (cf_end f) (cf_end_tidx f) (cf_nend f) s)"

section \<open>Branches\<close>

definition op_br :: "venv \<Rightarrow> u8 \<Rightarrow> tcst \<Rightarrow> tcst" where
  "op_br E op s =
     (let (lab, s) = rd_u32 E s; label = unat lab in
      if tc_nctrls s \<le> label then tc_reject JAV_E_UNKNOWN_LABEL s
      else
        let (ts, tx, nlab) = tc_label (tc_ctrls s ! label);
            (e, s) = st_push s;
            s = (if op = 0x0d then tc_pop_e (ve_lat E) WVT_I32 s else s);
            s = tc_fill_entry label e (tc_pos s) (tc_nvals s) nlab s;
            s = tc_pop_vals (ve_lat E) ts tx nlab s
        in if op = 0x0d then tc_push_vals ts tx nlab s else tc_unreachable s)"

text \<open>
  \<open>for (uint32_t i = 0; i <= count; i++)\<close>: with \<open>count = 0xffffffff\<close> the guard never fails,
  so the loop is a partial function; \<open>None\<close> is "does not return".
\<close>

partial_function (option) read_labels ::
  "venv \<Rightarrow> u32 \<Rightarrow> u32 \<Rightarrow> tcst \<Rightarrow> (u32 list \<times> tcst) option" where
  "read_labels E count i s =
     (if i \<le> count then
        (let (l, s) = rd_label E i s in
         Option.bind (read_labels E count (i + 1) s) (\<lambda>(ls, s). Some (l # ls, s)))
      else Some ([], s))"

declare read_labels.simps [code]

text \<open>The operand types t* must match every target's label types (the inner loop over \<open>j\<close>).\<close>

definition br_table_operand :: "tcst \<Rightarrow> nat \<Rightarrow> nat \<Rightarrow> vtype" where
  "br_table_operand s nlab j =
     (let idx = int (tc_nvals s) - int nlab + int j in
      if int (cf_val_height (tc_top s)) \<le> idx then rev (tc_vals s) ! nat idx else VT_BOT)"

definition br_table_match :: "venv \<Rightarrow> valtype list \<Rightarrow> u32 list option \<Rightarrow> nat \<Rightarrow> tcst \<Rightarrow> bool" where
  "br_table_match E ts tx nlab s =
     list_all (\<lambda>j. tc_matches (ve_lat E) (br_table_operand s nlab j) (typ_at ts tx j)) [0..<nlab]"

text \<open>The loop over the labels; \<open>dn\<close> is the default arity, \<open>None\<close> before the first label.\<close>

fun br_table_loop ::
  "venv \<Rightarrow> nat \<Rightarrow> u32 list \<Rightarrow> (valtype list \<times> u32 list option \<times> nat) option \<Rightarrow> tcst
     \<Rightarrow> (valtype list \<times> u32 list option \<times> nat) option \<times> tcst" where
  "br_table_loop E post_vec [] dlab s = (dlab, s)"
| "br_table_loop E post_vec (l # ls) dlab s =
     (if \<not> tc_ok s then (dlab, s)
      else if tc_nctrls s \<le> unat l then (dlab, tc_reject JAV_E_UNKNOWN_LABEL s)
      else
        let (ts, tx, nlab) = tc_label (tc_ctrls s ! unat l) in
        if (case dlab of None \<Rightarrow> False | Some (_, _, dn) \<Rightarrow> nlab \<noteq> dn) then (dlab, tc_fail s)
        else
          let dlab = (case dlab of None \<Rightarrow> Some (ts, tx, nlab) | Some d \<Rightarrow> Some d) in
          if \<not> br_table_match E ts tx nlab s then (dlab, tc_fail s)
          else
            let (e, s) = st_push s;
                s = tc_fill_entry (unat l) e post_vec (tc_nvals s) nlab s
            in br_table_loop E post_vec ls dlab s)"

definition op_br_table :: "venv \<Rightarrow> tcst \<Rightarrow> tcst option" where
  "op_br_table E s =
     (let (count, s) = rd_u32 E s;
          s = tc_pop_e (ve_lat E) WVT_I32 s
      in case read_labels E count 0 s of
           None \<Rightarrow> None
         | Some (labels, s) \<Rightarrow>
             let (dlab, s) = br_table_loop E (tc_pos s) labels None s;
                 s = (if tc_ok s then
                        (case dlab of Some (ts, tx, dn) \<Rightarrow> tc_pop_vals (ve_lat E) ts tx dn s | None \<Rightarrow> s)
                      else s)
             in Some (tc_unreachable s))"

definition op_return :: "venv \<Rightarrow> tcst \<Rightarrow> tcst" where
  "op_return E s =
     (let cx = ve_cx E in
      tc_unreachable (tc_pop_vals (ve_lat E) (cx_results cx) (cx_result_tidx cx) (cx_nresults cx) s))"

definition op_br_on_null :: "venv \<Rightarrow> tcst \<Rightarrow> tcst" where
  "op_br_on_null E s =
     (let (lab, s) = rd_u32 E s; label = unat lab in
      if tc_nctrls s \<le> label then tc_reject JAV_E_UNKNOWN_LABEL s
      else
        let (ts, tx, nlab) = tc_label (tc_ctrls s ! label);
            (a, s) = tc_pop_ref s;
            ht = (if vt_is_bot a then HT_BOT else vt_ht a);
            (e, s) = st_push s;
            s = tc_fill_entry label e (tc_pos s) (tc_nvals s) nlab s;
            s = tc_pop_vals (ve_lat E) ts tx nlab s;
            s = tc_push_vals ts tx nlab s
        in tc_push_ref False ht s)"

definition op_br_on_non_null :: "venv \<Rightarrow> tcst \<Rightarrow> tcst" where
  "op_br_on_non_null E s =
     (let (lab, s) = rd_u32 E s; label = unat lab in
      if tc_nctrls s \<le> label then tc_reject JAV_E_UNKNOWN_LABEL s
      else
        let (ts, tx, nlab) = tc_label (tc_ctrls s ! label) in
        if nlab < 1 then tc_fail s
        else
          let llt = typ_at ts tx (nlab - 1) in
          if \<not> vt_is_ref llt then tc_fail s
          else
            let (e, s) = st_push s;
                s = tc_fill_entry label e (tc_pos s) (tc_nvals s) nlab s;
                s = tc_pop_ref_ht (ve_lat E) True (vt_ht llt) s;
                s = tc_pop_vals (ve_lat E) ts tx (nlab - 1) s
            in tc_push_vals ts tx (nlab - 1) s)"

text \<open>\<open>br_on_cast\<close> (\<open>sub = 24\<close>) and \<open>br_on_cast_fail\<close> (\<open>sub = 25\<close>), under prefix 0xfb.\<close>

definition lat_ht_ok :: "subtype_ctx option \<Rightarrow> int \<Rightarrow> bool" where
  "lat_ht_ok lat ht =
     (if 0 \<le> ht then (case lat of Some l \<Rightarrow> nat ht < sc_ntypes l | None \<Rightarrow> False)
      else HT_EXN \<le> ht \<and> ht \<le> HT_NOEXN)"

definition op_br_on_cast :: "venv \<Rightarrow> nat \<Rightarrow> tcst \<Rightarrow> tcst" where
  "op_br_on_cast E sub s =
     (let (flags, s) = rd_byte E s;
          (lab, s) = rd_u32 E s; label = unat lab;
          (k1, ht1, s) = rd_s33 E s;
          (k2, ht2, s) = (if k1 then rd_s33 E s else (False, 0, s))
      in if \<not> k1 \<or> \<not> k2 then tc_reject JAV_E_UNKNOWN_TYPE s
         else if tc_nctrls s \<le> label then tc_reject JAV_E_UNKNOWN_LABEL s
         else
           let rt1n = (flags AND 1 \<noteq> 0); rt2n = (drop_bit 1 flags AND 1 \<noteq> 0) in
           if \<not> lat_ht_ok (ve_lat E) ht1 \<or> \<not> lat_ht_ok (ve_lat E) ht2 then tc_fail s
           else if \<not> rt_sub (ve_lat E) rt2n ht2 rt1n ht1 then tc_fail s
           else
             let (ts, tx, nlab) = tc_label (tc_ctrls s ! label) in
             if nlab < 1 \<or> \<not> vt_is_ref (typ_at ts tx (nlab - 1)) then tc_fail s
             else
               let diffn = (rt1n \<and> \<not> rt2n);
                   branch_ref = (if sub = 24 then VT_REF rt2n ht2 else VT_REF diffn ht1);
                   fall_ref = (if sub = 24 then VT_REF diffn ht1 else VT_REF rt2n ht2)
               in if \<not> tc_matches (ve_lat E) branch_ref (typ_at ts tx (nlab - 1)) then tc_fail s
                  else
                    let (e, s) = st_push s;
                        s = tc_fill_entry label e (tc_pos s) (tc_nvals s) nlab s;
                        s = tc_pop_ref_ht (ve_lat E) rt1n ht1 s;
                        s = tc_pop_vals (ve_lat E) ts tx (nlab - 1) s;
                        s = tc_push_vals ts tx (nlab - 1) s
                    in if \<not> tc_ok s then s else tc_push_vt fall_ref s)"

section \<open>Exceptions\<close>

definition op_throw :: "venv \<Rightarrow> tcst \<Rightarrow> tcst" where
  "op_throw E s =
     (let (x, s) = rd_u32 E s in
      case cx_tags (ve_cx E) of
        None \<Rightarrow> tc_reject JAV_E_UNKNOWN_TAG s
      | Some tags \<Rightarrow>
          if cx_ntags (ve_cx E) \<le> unat x then tc_reject JAV_E_UNKNOWN_TAG s
          else let tg = tags ! unat x in
            tc_unreachable (tc_pop_vals (ve_lat E) (ft_params tg) (ft_param_tidx tg) (ft_nparams tg) s))"

definition op_throw_ref :: "venv \<Rightarrow> tcst \<Rightarrow> tcst" where
  "op_throw_ref E s = tc_unreachable (tc_pop_ref_ht (ve_lat E) True HT_EXN s)"

text \<open>One catch clause of \<open>try_table\<close>: the body of the loop over \<open>ci\<close>.\<close>

definition try_catch :: "venv \<Rightarrow> nat \<Rightarrow> tcst \<Rightarrow> tcst" where
  "try_catch E try_base s =
     (let (ck, s) = rd_byte E s;
          (tagx, s) = (if ck = 0 \<or> ck = 1 then rd_u32 E s else (0, s));
          (lab, s) = rd_u32 E s; label = unat lab
      in if 3 < ck \<or> tc_nctrls s \<le> label then tc_reject JAV_E_UNKNOWN_LABEL s
         else
           let (ts, tx, nlab) = tc_label (tc_ctrls s ! label) in
           if (ck = 0 \<or> ck = 1) \<and> (cx_tags (ve_cx E) = None \<or> cx_ntags (ve_cx E) \<le> unat tagx)
           then tc_reject JAV_E_UNKNOWN_TAG s
           else
             let tg = (if ck = 0 \<or> ck = 1 then Some (the (cx_tags (ve_cx E)) ! unat tagx) else None);
                 ntagp = (case tg of Some t \<Rightarrow> ft_nparams t | None \<Rightarrow> 0);
                 has_ref = (ck = 1 \<or> ck = 3)
             in if ntagp + (if has_ref then 1 else 0) \<noteq> nlab then tc_fail s
                else
                  let s = (case tg of
                             Some t \<Rightarrow>
                               if list_all (\<lambda>i. tc_matches (ve_lat E)
                                    (typ_at (ft_params t) (ft_param_tidx t) i) (typ_at ts tx i)) [0..<ntagp]
                               then s else tc_fail s
                           | None \<Rightarrow> s);
                      s = (if has_ref \<and> tc_ok s \<and>
                              \<not> tc_matches (ve_lat E) (VT_REF False HT_EXN) (typ_at ts tx (nlab - 1))
                           then tc_fail s else s);
                      (e, s) = st_push s;
                      pop = int try_base - int (cf_val_height (tc_ctrls s ! label));
                      s = set_vals_pop e nlab (if pop > 0 then pop else 0) s
                  in tc_target label e s)"

fun try_catches :: "venv \<Rightarrow> nat \<Rightarrow> nat \<Rightarrow> tcst \<Rightarrow> tcst" where
  "try_catches E try_base 0 s = s"
| "try_catches E try_base (Suc n) s =
     (if tc_ok s then try_catches E try_base n (try_catch E try_base s) else s)"

definition op_try_table :: "venv \<Rightarrow> tcst \<Rightarrow> tcst" where
  "op_try_table E s =
     (if MAX_DEPTH \<le> tc_nctrls s then tc_fail s
      else
        let (b, s) = tc_read_blocktype E s;
            s = tc_pop_vals (ve_lat E) (bt_start b) (bt_start_tidx b) (bt_nstart b) s;
            try_base = tc_nvals s;
            (ncatch, s) = rd_u32 E s;
            catch_stp = length (tc_st s);
            s = try_catches E try_base (unat ncatch) s
        in if \<not> tc_ok s then s
           else
             let try_pc = tc_pos s;
                 s = fold (\<lambda>e. set_bpos e try_pc) [catch_stp..<length (tc_st s)] s;
                 tt = \<lparr>tr_try_pc = word_of_nat try_pc, tr_catch_stp = word_of_nat catch_stp,
                       tr_ncatch = ncatch, tr_end_pc = 0\<rparr>;
                 s = s\<lparr>tc_trytab := tc_trytab s @ [tt]\<rparr>;
                 ti = length (tc_trytab s) - 1;
                 s = tc_push_block 0x1f b s
             in upd_top (\<lambda>f. f\<lparr>cf_try_idx := Some ti\<rparr>) s)"

end
