(* ===== verification/TcMem.thy ===== *)
theory TcMem
  imports TcState
begin

text \<open>
  \<open>tc_mem\<close> of \<open>wasm/src/validate.c\<close>: the validation of the memory instructions, scalar, vector
  and bulk (Core specification, section 3.4.5).  The opcode switch is \<open>mem_kind\<close>; the rest
  is one function per group of the code's \<open>if (k == ...)\<close> chain.
\<close>

section \<open>The opcode switch\<close>

datatype memk = MK_LD | MK_ST | MK_LDL | MK_STL | MK_SZ | MK_GR | MK_FILL | MK_COPY | MK_INIT

definition scalar_mem_kind :: "u8 \<Rightarrow> (memk \<times> nat \<times> valtype) option" where
  "scalar_mem_kind op = map_of
     [(0x28, MK_LD, 32, WVT_I32), (0x29, MK_LD, 64, WVT_I64), (0x2a, MK_LD, 32, WVT_F32),
      (0x2b, MK_LD, 64, WVT_F64), (0x2c, MK_LD, 8, WVT_I32), (0x2d, MK_LD, 8, WVT_I32),
      (0x2e, MK_LD, 16, WVT_I32), (0x2f, MK_LD, 16, WVT_I32), (0x30, MK_LD, 8, WVT_I64),
      (0x31, MK_LD, 8, WVT_I64), (0x32, MK_LD, 16, WVT_I64), (0x33, MK_LD, 16, WVT_I64),
      (0x34, MK_LD, 32, WVT_I64), (0x35, MK_LD, 32, WVT_I64), (0x36, MK_ST, 32, WVT_I32),
      (0x37, MK_ST, 64, WVT_I64), (0x38, MK_ST, 32, WVT_F32), (0x39, MK_ST, 64, WVT_F64),
      (0x3a, MK_ST, 8, WVT_I32), (0x3b, MK_ST, 16, WVT_I32), (0x3c, MK_ST, 8, WVT_I64),
      (0x3d, MK_ST, 16, WVT_I64), (0x3e, MK_ST, 32, WVT_I64), (0x3f, MK_SZ, 0, WVT_I32),
      (0x40, MK_GR, 0, WVT_I32)] op"

definition simd_mem_kind :: "nat \<Rightarrow> (memk \<times> nat \<times> valtype) option" where
  "simd_mem_kind sub = map_of
     [(0, MK_LD, 128, WVT_V128), (11, MK_ST, 128, WVT_V128),
      (1, MK_LD, 64, WVT_V128), (2, MK_LD, 64, WVT_V128), (3, MK_LD, 64, WVT_V128),
      (4, MK_LD, 64, WVT_V128), (5, MK_LD, 64, WVT_V128), (6, MK_LD, 64, WVT_V128),
      (92, MK_LD, 32, WVT_V128), (93, MK_LD, 64, WVT_V128), (7, MK_LD, 8, WVT_V128),
      (8, MK_LD, 16, WVT_V128), (9, MK_LD, 32, WVT_V128), (10, MK_LD, 64, WVT_V128),
      (84, MK_LDL, 8, WVT_I32), (85, MK_LDL, 16, WVT_I32), (86, MK_LDL, 32, WVT_I32),
      (87, MK_LDL, 64, WVT_I32), (88, MK_STL, 8, WVT_I32), (89, MK_STL, 16, WVT_I32),
      (90, MK_STL, 32, WVT_I32), (91, MK_STL, 64, WVT_I32)] sub"

definition bulk_mem_kind :: "nat \<Rightarrow> (memk \<times> nat \<times> valtype) option" where
  "bulk_mem_kind sub = map_of
     [(11, MK_FILL, 0, WVT_I32), (10, MK_COPY, 0, WVT_I32), (8, MK_INIT, 0, WVT_I32)] sub"

text \<open>\<open>None\<close> is the early \<open>return 0\<close>: not a memory instruction.\<close>

definition mem_kind :: "u8 \<Rightarrow> nat \<Rightarrow> (memk \<times> nat \<times> valtype) option" where
  "mem_kind op sub =
     (if op \<noteq> 0xfd \<and> op \<noteq> 0xfc then scalar_mem_kind op
      else if op = 0xfd then simd_mem_kind sub
      else bulk_mem_kind sub)"

section \<open>Loads and stores\<close>

definition AT64 :: "vctx \<Rightarrow> u32 \<Rightarrow> bool" where
  "AT64 cx mi =
     (case cx_mem_is64 cx of
        None \<Rightarrow> False
      | Some is64 \<Rightarrow> unat mi < cx_nmemories cx \<and> is64 ! unat mi)"

definition tc_mem_at :: "vctx \<Rightarrow> u32 \<Rightarrow> valtype" where
  "tc_mem_at cx mi = (if AT64 cx mi then WVT_I64 else WVT_I32)"

definition max_align :: "nat \<Rightarrow> nat" where
  "max_align N = (if N = 8 then 0 else if N = 16 then 1 else if N = 32 then 2
     else if N = 64 then 3 else 4)"

text \<open>The four checks, in the code's order, on the decoded immediates: the reason, or \<open>None\<close> to go on.\<close>

definition memarg_err :: "vctx \<Rightarrow> memk \<Rightarrow> nat \<Rightarrow> u32 \<Rightarrow> u32 \<Rightarrow> u64 \<Rightarrow> u8 \<Rightarrow> jav_err option" where
  "memarg_err cx k N flags memidx off lane =
     (if cx_nmemories cx \<le> unat memidx then Some JAV_E_UNKNOWN_MEMORY
      else
        let align = (if flags AND 0x40 \<noteq> 0 then flags - 64 else flags) in
        if max_align N < unat align then Some JAV_E_ALIGNMENT
        else if \<not> AT64 cx memidx \<and> drop_bit 32 off \<noteq> 0 then Some JAV_E_OFFSET_OUT_OF_RANGE
        else if (k = MK_LDL \<or> k = MK_STL) \<and> word_of_nat (128 div N) \<le> lane then Some JAV_E_INVALID_LANE
        else None)"

definition tc_mem_access :: "venv \<Rightarrow> memk \<Rightarrow> nat \<Rightarrow> valtype \<Rightarrow> tcst \<Rightarrow> tcst" where
  "tc_mem_access E k N dt s =
     (let cx = ve_cx E; lat = ve_lat E;
          (flags, s) = rd_u32 E s;
          (memidx, s) = (if flags AND 0x40 \<noteq> 0 then rd_u32 E s else (0, s));
          (off, s) = rd_u64 E s;
          (lane, s) = (if k = MK_LDL \<or> k = MK_STL then rd_byte E s else (0, s))
      in case memarg_err cx k N flags memidx off lane of
           Some e \<Rightarrow> tc_reject e s
         | None \<Rightarrow>
             let at = tc_mem_at cx memidx in
             if k = MK_LD then tc_push dt (tc_pop_e lat at s)
             else if k = MK_ST then tc_pop_e lat at (tc_pop_e lat dt s)
             else if k = MK_LDL then tc_push WVT_V128 (tc_pop_e lat at (tc_pop_e lat WVT_V128 s))
             else tc_pop_e lat at (tc_pop_e lat WVT_V128 s))"

section \<open>Size, grow and the bulk operations\<close>

definition tc_mem_size_grow :: "venv \<Rightarrow> memk \<Rightarrow> tcst \<Rightarrow> tcst" where
  "tc_mem_size_grow E k s =
     (let cx = ve_cx E; (memidx, s) = rd_u32 E s in
      if cx_nmemories cx \<le> unat memidx then tc_reject JAV_E_UNKNOWN_MEMORY s
      else let at = tc_mem_at cx memidx in
        if k = MK_SZ then tc_push at s else tc_push at (tc_pop_e (ve_lat E) at s))"

definition tc_mem_fill :: "venv \<Rightarrow> tcst \<Rightarrow> tcst" where
  "tc_mem_fill E s =
     (let cx = ve_cx E; lat = ve_lat E; (memidx, s) = rd_u32 E s in
      if cx_nmemories cx \<le> unat memidx then tc_reject JAV_E_UNKNOWN_MEMORY s
      else let at = tc_mem_at cx memidx in
        tc_pop_e lat at (tc_pop_e lat WVT_I32 (tc_pop_e lat at s)))"

definition tc_mem_copy :: "venv \<Rightarrow> tcst \<Rightarrow> tcst" where
  "tc_mem_copy E s =
     (let cx = ve_cx E; lat = ve_lat E; (d, s) = rd_u32 E s; (srcm, s) = rd_u32 E s in
      if cx_nmemories cx \<le> unat d \<or> cx_nmemories cx \<le> unat srcm then tc_reject JAV_E_UNKNOWN_MEMORY s
      else
        let atmin = (if AT64 cx d \<and> AT64 cx srcm then WVT_I64 else WVT_I32) in
        tc_pop_e lat (tc_mem_at cx d) (tc_pop_e lat (tc_mem_at cx srcm) (tc_pop_e lat atmin s)))"

definition tc_mem_init :: "venv \<Rightarrow> tcst \<Rightarrow> tcst" where
  "tc_mem_init E s =
     (let cx = ve_cx E; lat = ve_lat E; (seg, s) = rd_u32 E s; (memidx, s) = rd_u32 E s in
      if cx_ndatas cx \<le> unat seg \<or> cx_nmemories cx \<le> unat memidx then
        tc_reject (if cx_nmemories cx \<le> unat memidx then JAV_E_UNKNOWN_MEMORY else data_err cx) s
      else tc_pop_e lat (tc_mem_at cx memidx) (tc_pop_e lat WVT_I32 (tc_pop_e lat WVT_I32 s)))"

definition tc_mem :: "venv \<Rightarrow> u8 \<Rightarrow> nat \<Rightarrow> tcst \<Rightarrow> tcst option" where
  "tc_mem E op sub s =
     (case mem_kind op sub of
        None \<Rightarrow> None
      | Some (k, N, dt) \<Rightarrow>
          Some (if k = MK_LD \<or> k = MK_ST \<or> k = MK_LDL \<or> k = MK_STL then tc_mem_access E k N dt s
                else if k = MK_SZ \<or> k = MK_GR then tc_mem_size_grow E k s
                else if k = MK_FILL then tc_mem_fill E s
                else if k = MK_COPY then tc_mem_copy E s
                else tc_mem_init E s))"

end
