(* ===== verification/TcOps.thy ===== *)
theory TcOps
  imports TcControl TcMem
begin

text \<open>
  The remaining handlers of the \<open>switch\<close> in \<open>jav_typecheck_ex\<close> (\<open>wasm/src/validate.c\<close>): calls,
  parametric and variable instructions, tables, references, the 0xfb (aggregate) and
  0xfc (bulk) families, vector lanes, and the ordinary opcodes typed by \<open>jav_opsig\<close>.
\<close>

section \<open>Calls\<close>

definition tc_call_sig :: "venv \<Rightarrow> functype \<Rightarrow> tcst \<Rightarrow> tcst" where
  "tc_call_sig E ft s =
     tc_push_vals (ft_results ft) (ft_result_tidx ft) (ft_nresults ft)
       (tc_pop_vals (ve_lat E) (ft_params ft) (ft_param_tidx ft) (ft_nparams ft) s)"

text \<open>The tail of the \<open>return_call\<close> forms: the callee's results feed the function's own.\<close>

definition tc_return_results :: "venv \<Rightarrow> tcst \<Rightarrow> tcst" where
  "tc_return_results E s =
     (let cx = ve_cx E in
      tc_unreachable (tc_pop_vals (ve_lat E) (cx_results cx) (cx_result_tidx cx) (cx_nresults cx) s))"

definition op_call :: "venv \<Rightarrow> tcst \<Rightarrow> tcst" where
  "op_call E s =
     (let cx = ve_cx E; (fidx, s) = rd_u32 E s in
      if cx_func_sigs cx = None \<or> cx_nfuncs cx \<le> unat fidx then tc_reject JAV_E_UNKNOWN_FUNCTION s
      else tc_call_sig E (the (cx_func_sigs cx) ! unat fidx) s)"

definition op_return_call :: "venv \<Rightarrow> tcst \<Rightarrow> tcst" where
  "op_return_call E s =
     (let cx = ve_cx E; (fidx, s) = rd_u32 E s in
      if cx_func_sigs cx = None \<or> cx_nfuncs cx \<le> unat fidx then tc_reject JAV_E_UNKNOWN_FUNCTION s
      else let ft = the (cx_func_sigs cx) ! unat fidx in
        if ft_nresults ft \<noteq> cx_nresults cx then tc_fail s
        else tc_return_results E (tc_call_sig E ft s))"

text \<open>\<open>call_indirect\<close> (\<open>ret = False\<close>) and \<open>return_call_indirect\<close>.\<close>

definition op_call_indirect :: "venv \<Rightarrow> bool \<Rightarrow> tcst \<Rightarrow> tcst" where
  "op_call_indirect E ret s =
     (let cx = ve_cx E; lat = ve_lat E; (y, s) = rd_u32 E s; (x, s) = rd_u32 E s in
      if cx_ntables cx \<le> unat x \<or> cx_types cx = None \<or> cx_ntypes cx \<le> unat y then
        tc_reject (if cx_ntables cx \<le> unat x then JAV_E_UNKNOWN_TABLE else JAV_E_UNKNOWN_TYPE) s
      else if \<not> tc_matches lat (tbl_rt cx (unat x)) (VT_REF True HT_FUNC) then tc_fail s
      else let ft = the (cx_types cx) ! unat y in
        if ret \<and> ft_nresults ft \<noteq> cx_nresults cx then tc_fail s
        else
          let s = tc_call_sig E ft (tc_pop_e lat (tbl_at cx (unat x)) s)
          in if ret then tc_return_results E s else s)"

definition op_call_ref :: "venv \<Rightarrow> bool \<Rightarrow> tcst \<Rightarrow> tcst" where
  "op_call_ref E ret s =
     (let cx = ve_cx E; (y, s) = rd_u32 E s in
      if cx_types cx = None \<or> cx_ntypes cx \<le> unat y then tc_reject JAV_E_UNKNOWN_TYPE s
      else let ft = the (cx_types cx) ! unat y in
        if ret \<and> ft_nresults ft \<noteq> cx_nresults cx then tc_fail s
        else
          let s = tc_call_sig E ft (tc_pop_ref_ht (ve_lat E) True (sint y) s)
          in if ret then tc_return_results E s else s)"

section \<open>Parametric and variable instructions\<close>

definition op_select :: "venv \<Rightarrow> tcst \<Rightarrow> tcst" where
  "op_select E s =
     (let s = tc_pop_e (ve_lat E) WVT_I32 s; (a, s) = tc_pop s; (b, s) = tc_pop s in
      if vt_is_ref a \<or> vt_is_ref b then tc_fail s
      else if \<not> vt_is_bot a \<and> \<not> vt_is_bot b \<and> vt_num a \<noteq> vt_num b then tc_fail s
      else tc_push_vt (if vt_is_bot a then b else a) s)"

definition op_select_t :: "venv \<Rightarrow> tcst \<Rightarrow> tcst" where
  "op_select_t E s =
     (let lat = ve_lat E; (ntypes, s) = rd_u32 E s in
      if ntypes \<noteq> 1 then tc_reject JAV_E_INVALID_RESULT_ARITY s
      else
        let (k, enc, s) = rd_s33 E s in
        if \<not> k then tc_reject JAV_E_UNKNOWN_TYPE s
        else
          let (r, s) =
            (if enc = -28 \<or> enc = -29 then
               let (k, ht, s) = rd_s33 E s in
               if \<not> k \<or> \<not> lat_ht_ok lat ht then (None, tc_reject JAV_E_UNKNOWN_TYPE s)
               else (Some (VT_REF (enc = -29) ht), s)
             else
               let (w, ht) = tc_vt_from_sleb enc in
               if w = WVT_BOT then (None, tc_fail s) else (Some (vt_from w (word_of_int ht)), s))
          in case r of
               None \<Rightarrow> s
             | Some t \<Rightarrow>
                 let s = tc_pop_e lat WVT_I32 s; (a, s) = tc_pop s in
                 if \<not> tc_matches lat a t then tc_fail s
                 else let (b, s) = tc_pop s in
                   if \<not> tc_matches lat b t then tc_fail s else tc_push_vt t s)"

definition op_local :: "venv \<Rightarrow> u8 \<Rightarrow> tcst \<Rightarrow> tcst" where
  "op_local E op s =
     (let cx = ve_cx E; (x, s) = rd_u32 E s; idx = unat x in
      if cx_nlocals cx \<le> idx then tc_reject JAV_E_UNKNOWN_LOCAL s
      else
        let lt = cx_locals cx ! idx; lti = tidx_at (cx_local_tidx cx) idx in
        if op = 0x20 then
          (if \<not> tc_locals_init s ! idx then tc_reject JAV_E_UNINITIALIZED_LOCAL s
           else tc_push1 lt lti s)
        else
          let s = tc_pop1 (ve_lat E) lt lti s;
              s = (if \<not> tc_locals_init s ! idx
                   then s\<lparr>tc_locals_init := (tc_locals_init s)[idx := True], tc_inits := tc_inits s @ [idx]\<rparr>
                   else s)
          in if op = 0x22 then tc_push1 lt lti s else s)"

definition op_global :: "venv \<Rightarrow> u8 \<Rightarrow> tcst \<Rightarrow> tcst" where
  "op_global E op s =
     (let cx = ve_cx E; (x, s) = rd_u32 E s; idx = unat x in
      if cx_nglobals cx \<le> idx then tc_reject JAV_E_UNKNOWN_GLOBAL s
      else
        let gt = cx_globals cx ! idx; gtx = tidx_at (cx_global_tidx cx) idx in
        if op = 0x23 then tc_push1 gt gtx s
        else
          case cx_global_mut cx of
            None \<Rightarrow> tc_reject JAV_E_IMMUTABLE_GLOBAL s
          | Some m \<Rightarrow> if \<not> m ! idx then tc_reject JAV_E_IMMUTABLE_GLOBAL s
                      else tc_pop1 (ve_lat E) gt gtx s)"

section \<open>Tables\<close>

definition op_table_get :: "venv \<Rightarrow> tcst \<Rightarrow> tcst" where
  "op_table_get E s =
     (let cx = ve_cx E; (x, s) = rd_u32 E s; t = unat x in
      if cx_ntables cx \<le> t then tc_reject JAV_E_UNKNOWN_TABLE s
      else tc_push_vt (tbl_rt cx t) (tc_pop_e (ve_lat E) (tbl_at cx t) s))"

definition op_table_set :: "venv \<Rightarrow> tcst \<Rightarrow> tcst" where
  "op_table_set E s =
     (let cx = ve_cx E; (x, s) = rd_u32 E s; t = unat x in
      if cx_ntables cx \<le> t then tc_reject JAV_E_UNKNOWN_TABLE s
      else tc_pop_e (ve_lat E) (tbl_at cx t) (tc_pop_vt (ve_lat E) (tbl_rt cx t) s))"

text \<open>The 0xfc table, element and data instructions: sub-opcodes 9 and 12 to 17.\<close>

definition op_data_drop :: "venv \<Rightarrow> tcst \<Rightarrow> tcst" where
  "op_data_drop E s =
     (let cx = ve_cx E; (y, s) = rd_u32 E s in
      if cx_ndatas cx \<le> unat y then tc_reject (data_err cx) s else s)"

definition op_table_init :: "venv \<Rightarrow> tcst \<Rightarrow> tcst" where
  "op_table_init E s =
     (let cx = ve_cx E; lat = ve_lat E; (y, s) = rd_u32 E s; (x, s) = rd_u32 E s in
      if cx_ntables cx \<le> unat x \<or> cx_nelems cx \<le> unat y then
        tc_reject (if cx_ntables cx \<le> unat x then JAV_E_UNKNOWN_TABLE else JAV_E_UNKNOWN_ELEM) s
      else if \<not> tc_matches lat (elem_rt cx (unat y)) (tbl_rt cx (unat x)) then tc_fail s
      else tc_pop_e lat (tbl_at cx (unat x)) (tc_pop_e lat WVT_I32 (tc_pop_e lat WVT_I32 s)))"

definition op_elem_drop :: "venv \<Rightarrow> tcst \<Rightarrow> tcst" where
  "op_elem_drop E s =
     (let cx = ve_cx E; (y, s) = rd_u32 E s in
      if cx_nelems cx \<le> unat y then tc_reject JAV_E_UNKNOWN_ELEM s else s)"

definition op_table_copy :: "venv \<Rightarrow> tcst \<Rightarrow> tcst" where
  "op_table_copy E s =
     (let cx = ve_cx E; lat = ve_lat E; (x, s) = rd_u32 E s; (y, s) = rd_u32 E s in
      if cx_ntables cx \<le> unat x \<or> cx_ntables cx \<le> unat y then tc_reject JAV_E_UNKNOWN_TABLE s
      else if \<not> tc_matches lat (tbl_rt cx (unat y)) (tbl_rt cx (unat x)) then tc_fail s
      else
        let at1 = tbl_at cx (unat x); at2 = tbl_at cx (unat y);
            atmin = (if at1 = WVT_I64 \<and> at2 = WVT_I64 then WVT_I64 else WVT_I32)
        in tc_pop_e lat at1 (tc_pop_e lat at2 (tc_pop_e lat atmin s)))"

definition op_table_grow :: "venv \<Rightarrow> tcst \<Rightarrow> tcst" where
  "op_table_grow E s =
     (let cx = ve_cx E; lat = ve_lat E; (x, s) = rd_u32 E s; t = unat x in
      if cx_ntables cx \<le> t then tc_reject JAV_E_UNKNOWN_TABLE s
      else tc_push (tbl_at cx t) (tc_pop_vt lat (tbl_rt cx t) (tc_pop_e lat (tbl_at cx t) s)))"

definition op_table_size :: "venv \<Rightarrow> tcst \<Rightarrow> tcst" where
  "op_table_size E s =
     (let cx = ve_cx E; (x, s) = rd_u32 E s in
      if cx_ntables cx \<le> unat x then tc_reject JAV_E_UNKNOWN_TABLE s
      else tc_push (tbl_at cx (unat x)) s)"

definition op_table_fill :: "venv \<Rightarrow> tcst \<Rightarrow> tcst" where
  "op_table_fill E s =
     (let cx = ve_cx E; lat = ve_lat E; (x, s) = rd_u32 E s; t = unat x in
      if cx_ntables cx \<le> t then tc_reject JAV_E_UNKNOWN_TABLE s
      else tc_pop_e lat (tbl_at cx t) (tc_pop_vt lat (tbl_rt cx t) (tc_pop_e lat (tbl_at cx t) s)))"

section \<open>References\<close>

definition op_ref_null :: "venv \<Rightarrow> tcst \<Rightarrow> tcst" where
  "op_ref_null E s =
     (let (k, ht, s) = rd_s33 E s in
      if \<not> k \<or> \<not> lat_ht_ok (ve_lat E) ht then tc_reject JAV_E_UNKNOWN_TYPE s
      else tc_push_ref True ht s)"

definition op_ref_is_null :: "tcst \<Rightarrow> tcst" where
  "op_ref_is_null s = tc_push WVT_I32 (snd (tc_pop_ref s))"

definition op_ref_func :: "venv \<Rightarrow> tcst \<Rightarrow> tcst" where
  "op_ref_func E s =
     (let cx = ve_cx E; (x, s) = rd_u32 E s; fidx = unat x in
      if cx_nfuncs cx \<le> fidx then tc_reject JAV_E_UNKNOWN_FUNCTION s
      else if (case cx_func_ref_declared cx of Some d \<Rightarrow> \<not> d ! fidx | None \<Rightarrow> False)
      then tc_reject JAV_E_UNDECLARED_FUNCTION_REFERENCE s
      else tc_push_ref False
             (case cx_func_type_idx cx of Some ti \<Rightarrow> sint (ti ! fidx) | None \<Rightarrow> HT_FUNC) s)"

definition op_ref_eq :: "venv \<Rightarrow> tcst \<Rightarrow> tcst" where
  "op_ref_eq E s =
     tc_push WVT_I32 (tc_pop_ref_ht (ve_lat E) True HT_EQ (tc_pop_ref_ht (ve_lat E) True HT_EQ s))"

definition op_ref_as_non_null :: "tcst \<Rightarrow> tcst" where
  "op_ref_as_non_null s =
     (let (a, s) = tc_pop_ref s in tc_push_ref False (if vt_is_bot a then HT_BOT else vt_ht a) s)"

definition op_convert :: "venv \<Rightarrow> nat \<Rightarrow> tcst \<Rightarrow> tcst" where
  "op_convert E sub s =
     (let want = (if sub = 26 then HT_EXTERN else HT_ANY); (a, s) = tc_pop_ref s in
      if \<not> vt_is_bot a \<and> jav_ht_sub (ve_lat E) (vt_ht a) want \<noteq> Some True then tc_fail s
      else tc_push_ref (if vt_is_bot a then False else vt_nullable a)
             (if sub = 26 then HT_ANY else HT_EXTERN) s)"

definition op_ref_i31 :: "venv \<Rightarrow> tcst \<Rightarrow> tcst" where
  "op_ref_i31 E s = tc_push_ref False HT_I31 (tc_pop_e (ve_lat E) WVT_I32 s)"

definition op_ref_test_cast :: "venv \<Rightarrow> nat \<Rightarrow> tcst \<Rightarrow> tcst" where
  "op_ref_test_cast E sub s =
     (let (k, ht, s) = rd_s33 E s in
      if \<not> k then tc_reject JAV_E_UNKNOWN_TYPE s
      else if \<not> lat_ht_ok (ve_lat E) ht then tc_fail s
      else let (src, s) = tc_pop_ref s in
        if \<not> vt_is_bot src \<and> \<not> ht_compat (ve_lat E) ht (vt_ht src) then tc_fail s
        else if sub \<le> 21 then tc_push WVT_I32 s
        else tc_push_ref (\<not> (sub = 20 \<or> sub = 22)) ht s)"

end
