(* ===== verification/TcGc.thy ===== *)
theory TcGc
  imports TcOps
begin

text \<open>
  The aggregate instructions of prefix 0xfb (structs and arrays, sub-opcodes 0 to 19) in
  \<open>jav_typecheck_ex\<close>, \<open>wasm/src/validate.c\<close>.
\<close>

section \<open>Type lookups\<close>

text \<open>The guard \<open>!cx->structtypes || t >= n || (lat && lat->kinds[t] != WST_STRUCT)\<close>, negated.\<close>

definition kind_is :: "subtype_ctx option \<Rightarrow> nat \<Rightarrow> nat \<Rightarrow> bool" where
  "kind_is lat t k = (case lat of Some l \<Rightarrow> sc_kinds l ! t = k | None \<Rightarrow> True)"

definition struct_ok :: "vctx \<Rightarrow> nat \<Rightarrow> bool" where
  "struct_ok cx t \<longleftrightarrow>
     cx_structtypes cx \<noteq> None \<and> t < cx_nstructtypes cx \<and> kind_is (cx_lattice cx) t WST_STRUCT"

definition array_ok :: "vctx \<Rightarrow> nat \<Rightarrow> bool" where
  "array_ok cx t \<longleftrightarrow>
     cx_arraytypes cx \<noteq> None \<and> t < cx_narraytypes cx \<and> kind_is (cx_lattice cx) t WST_ARRAY"

definition structty :: "vctx \<Rightarrow> nat \<Rightarrow> structtype" where
  "structty cx t = the (cx_structtypes cx) ! t"

definition arrayty :: "vctx \<Rightarrow> nat \<Rightarrow> arraytype" where
  "arrayty cx t = the (cx_arraytypes cx) ! t"

text \<open>The storage widths of a type's fields (\<open>pk\<close>) and of an array's element (\<open>epk\<close>).\<close>

definition field_packs :: "vctx \<Rightarrow> nat \<Rightarrow> nat list option" where
  "field_packs cx t =
     (case cx_type_field_packs cx of
        Some ps \<Rightarrow> if t < cx_num_type_field_packs cx then ps ! t else None
      | None \<Rightarrow> None)"

definition elem_pack :: "vctx \<Rightarrow> nat \<Rightarrow> nat" where
  "elem_pack cx t = (case field_packs cx t of Some pk \<Rightarrow> pk ! 0 | None \<Rightarrow> 0)"

text \<open>\<open>array.copy\<close> reads the widths without the \<open>num_type_field_packs\<close> bound.\<close>

definition elem_pack_unbounded :: "vctx \<Rightarrow> nat \<Rightarrow> nat" where
  "elem_pack_unbounded cx t =
     (case cx_type_field_packs cx of
        Some ps \<Rightarrow> (case ps ! t of Some pk \<Rightarrow> pk ! 0 | None \<Rightarrow> 0)
      | None \<Rightarrow> 0)"

section \<open>Structs\<close>

text \<open>\<open>struct.new\<close>, \<open>struct.get\<close>, \<open>struct.set\<close>: sub-opcodes 0, 2 and 5.\<close>

definition op_struct :: "venv \<Rightarrow> nat \<Rightarrow> tcst \<Rightarrow> tcst" where
  "op_struct E sub s =
     (let cx = ve_cx E; lat = ve_lat E; (x, s) = rd_u32 E s; t = unat x in
      if \<not> struct_ok cx t then tc_reject JAV_E_UNKNOWN_TYPE s
      else
        let sty = structty cx t; pk = field_packs cx t in
        if sub = 0 then
          tc_push_ref False (sint x)
            (fold (\<lambda>fi. tc_pop1 lat (sty_fields sty ! fi) (tidx_at (sty_field_tidx sty) fi))
               (rev [0..<length (sty_fields sty)]) s)
        else
          let (f, s) = rd_u32 E s; fidx = unat f in
          if length (sty_fields sty) \<le> fidx then tc_fail s
          else
            let ft = sty_fields sty ! fidx; ftx = tidx_at (sty_field_tidx sty) fidx in
            if sub = 2 then
              (if (case pk of Some p \<Rightarrow> p ! fidx \<noteq> 0 | None \<Rightarrow> False) then tc_fail s
               else tc_push1 ft ftx (tc_pop_ref_ht lat True (sint x) s))
            else
              (if (case sty_field_mut sty of Some m \<Rightarrow> \<not> m ! fidx | None \<Rightarrow> True)
               then tc_reject JAV_E_IMMUTABLE_FIELD s
               else tc_pop_ref_ht lat True (sint x) (tc_pop1 lat ft ftx s)))"

definition op_struct_new_default :: "venv \<Rightarrow> tcst \<Rightarrow> tcst" where
  "op_struct_new_default E s =
     (let cx = ve_cx E; (x, s) = rd_u32 E s; t = unat x in
      if \<not> struct_ok cx t then tc_reject JAV_E_UNKNOWN_TYPE s
      else if \<not> list_all vt_defaultable (sty_fields (structty cx t)) then tc_fail s
      else tc_push_ref False (sint x) s)"

text \<open>\<open>struct.get_s\<close>, \<open>struct.get_u\<close>: sub-opcodes 3 and 4.\<close>

definition op_struct_get_packed :: "venv \<Rightarrow> tcst \<Rightarrow> tcst" where
  "op_struct_get_packed E s =
     (let cx = ve_cx E; (x, s) = rd_u32 E s; (f, s) = rd_u32 E s; t = unat x; fi = unat f in
      if \<not> struct_ok cx t \<or> length (sty_fields (structty cx t)) \<le> fi then tc_fail s
      else if (case field_packs cx t of None \<Rightarrow> True | Some pk \<Rightarrow> pk ! fi \<noteq> 1 \<and> pk ! fi \<noteq> 2) then tc_fail s
      else tc_push WVT_I32 (tc_pop_ref_ht (ve_lat E) True (sint x) s))"

section \<open>Arrays\<close>

text \<open>\<open>array.new\<close>, \<open>array.get\<close>, \<open>array.set\<close>, \<open>array.len\<close>: sub-opcodes 6, 11, 14 and 15.\<close>

definition op_array :: "venv \<Rightarrow> nat \<Rightarrow> tcst \<Rightarrow> tcst" where
  "op_array E sub s =
     (let cx = ve_cx E; lat = ve_lat E in
      if sub = 15 then tc_push WVT_I32 (tc_pop_ref_ht lat True HT_ARRAY s)
      else
        let (x, s) = rd_u32 E s; t = unat x in
        if \<not> array_ok cx t then tc_reject JAV_E_UNKNOWN_TYPE s
        else
          let et = aty_elem (arrayty cx t); etx = aty_elem_tidx (arrayty cx t) in
          if sub = 6 then
            tc_push_ref False (sint x) (tc_pop1 lat et etx (tc_pop_e lat WVT_I32 s))
          else if sub = 11 then
            (if elem_pack cx t \<noteq> 0 then tc_fail s
             else tc_push1 et etx (tc_pop_ref_ht lat True (sint x) (tc_pop_e lat WVT_I32 s)))
          else
            (if \<not> aty_elem_mut (arrayty cx t) then tc_reject JAV_E_IMMUTABLE_ARRAY s
             else tc_pop_ref_ht lat True (sint x) (tc_pop_e lat WVT_I32 (tc_pop1 lat et etx s))))"

text \<open>The segment checks shared by the \<open>_data\<close> and \<open>_elem\<close> forms: the reason, or \<open>None\<close>.\<close>

definition seg_data_err :: "vctx \<Rightarrow> u32 \<Rightarrow> valtype \<Rightarrow> jav_err option" where
  "seg_data_err cx seg et =
     (if cx_ndatas cx \<le> unat seg \<or> \<not> vt_is_numvec et then
        Some (if cx_ndatas cx \<le> unat seg then data_err cx else JAV_E_ARRAY_NOT_NUMERIC)
      else None)"

definition elem_seg_rt :: "vctx \<Rightarrow> u32 \<Rightarrow> vtype" where
  "elem_seg_rt cx seg =
     vt_from (case cx_elem_reftype cx of Some r \<Rightarrow> r ! unat seg | None \<Rightarrow> WVT_REF)
             (case cx_elem_tidx cx of Some x \<Rightarrow> x ! unat seg | None \<Rightarrow> word_of_int HT_FUNC)"

definition seg_elem_check :: "venv \<Rightarrow> u32 \<Rightarrow> valtype \<Rightarrow> u32 \<Rightarrow> tcst \<Rightarrow> tcst \<Rightarrow> tcst" where
  "seg_elem_check E seg et etx s s' =
     (let cx = ve_cx E in
      if cx_nelems cx \<le> unat seg \<or> (et \<noteq> WVT_REF \<and> et \<noteq> WVT_REF_NN) then
        tc_reject (if cx_nelems cx \<le> unat seg then JAV_E_UNKNOWN_ELEM else JAV_E_TYPE_MISMATCH) s
      else if \<not> vt_sub (ve_lat E) (elem_seg_rt cx seg) (vt_from et etx) then tc_fail s
      else s')"

text \<open>\<open>array.new_default\<close>, \<open>_fixed\<close>, \<open>_data\<close>, \<open>_elem\<close>: sub-opcodes 7 to 10.\<close>

definition op_array_new :: "venv \<Rightarrow> nat \<Rightarrow> tcst \<Rightarrow> tcst" where
  "op_array_new E sub s =
     (let cx = ve_cx E; lat = ve_lat E; (x, s) = rd_u32 E s; t = unat x in
      if \<not> array_ok cx t then tc_reject JAV_E_UNKNOWN_TYPE s
      else
        let et = aty_elem (arrayty cx t); etx = aty_elem_tidx (arrayty cx t) in
        if sub = 7 then
          (if \<not> vt_defaultable et then tc_fail s
           else tc_push_ref False (sint x) (tc_pop_e lat WVT_I32 s))
        else if sub = 8 then
          (let (n, s) = rd_u32 E s in
           tc_push_ref False (sint x) (fold (\<lambda>i. tc_pop1 lat et etx) [0..<unat n] s))
        else if sub = 9 then
          (let (seg, s) = rd_u32 E s in
           case seg_data_err cx seg et of
             Some e \<Rightarrow> tc_reject e s
           | None \<Rightarrow> tc_push_ref False (sint x) (tc_pop_e lat WVT_I32 (tc_pop_e lat WVT_I32 s)))
        else
          (let (seg, s) = rd_u32 E s in
           seg_elem_check E seg et etx s
             (tc_push_ref False (sint x) (tc_pop_e lat WVT_I32 (tc_pop_e lat WVT_I32 s)))))"

text \<open>\<open>array.get_s\<close>, \<open>array.get_u\<close>: sub-opcodes 12 and 13.\<close>

definition op_array_get_packed :: "venv \<Rightarrow> tcst \<Rightarrow> tcst" where
  "op_array_get_packed E s =
     (let cx = ve_cx E; lat = ve_lat E; (x, s) = rd_u32 E s; t = unat x in
      if \<not> array_ok cx t then tc_reject JAV_E_UNKNOWN_TYPE s
      else if elem_pack cx t \<noteq> 1 \<and> elem_pack cx t \<noteq> 2 then tc_fail s
      else tc_push WVT_I32 (tc_pop_ref_ht lat True (sint x) (tc_pop_e lat WVT_I32 s)))"

definition op_array_fill :: "venv \<Rightarrow> tcst \<Rightarrow> tcst" where
  "op_array_fill E s =
     (let cx = ve_cx E; lat = ve_lat E; (x, s) = rd_u32 E s; t = unat x in
      if \<not> array_ok cx t \<or> \<not> aty_elem_mut (arrayty cx t) then
        tc_reject (if array_ok cx t then JAV_E_IMMUTABLE_ARRAY else JAV_E_UNKNOWN_TYPE) s
      else
        let et = aty_elem (arrayty cx t); etx = aty_elem_tidx (arrayty cx t) in
        tc_pop_ref_ht lat True (sint x)
          (tc_pop_e lat WVT_I32 (tc_pop1 lat et etx (tc_pop_e lat WVT_I32 s))))"

definition op_array_copy :: "venv \<Rightarrow> tcst \<Rightarrow> tcst" where
  "op_array_copy E s =
     (let cx = ve_cx E; lat = ve_lat E; (d, s) = rd_u32 E s; (r, s) = rd_u32 E s;
          dt = unat d; srct = unat r in
      if \<not> array_ok cx dt \<or> \<not> array_ok cx srct \<or> \<not> aty_elem_mut (arrayty cx dt) then
        tc_reject (if array_ok cx dt \<and> array_ok cx srct then JAV_E_IMMUTABLE_ARRAY
                   else JAV_E_UNKNOWN_TYPE) s
      else if \<not> storage_sub lat
                (aty_elem (arrayty cx srct)) (aty_elem_tidx (arrayty cx srct)) (elem_pack_unbounded cx srct)
                (aty_elem (arrayty cx dt)) (aty_elem_tidx (arrayty cx dt)) (elem_pack_unbounded cx dt)
      then tc_reject JAV_E_ARRAY_TYPES_MISMATCH s
      else
        tc_pop_ref_ht lat True (sint d)
          (tc_pop_e lat WVT_I32
            (tc_pop_ref_ht lat True (sint r) (tc_pop_e lat WVT_I32 (tc_pop_e lat WVT_I32 s)))))"

text \<open>\<open>array.init_data\<close>, \<open>array.init_elem\<close>: sub-opcodes 18 and 19.\<close>

definition op_array_init :: "venv \<Rightarrow> nat \<Rightarrow> tcst \<Rightarrow> tcst" where
  "op_array_init E sub s =
     (let cx = ve_cx E; lat = ve_lat E; (x, s) = rd_u32 E s; (seg, s) = rd_u32 E s; t = unat x in
      if \<not> array_ok cx t \<or> \<not> aty_elem_mut (arrayty cx t) then
        tc_reject (if array_ok cx t then JAV_E_IMMUTABLE_ARRAY else JAV_E_UNKNOWN_TYPE) s
      else
        let et = aty_elem (arrayty cx t); etx = aty_elem_tidx (arrayty cx t);
            s' = tc_pop_ref_ht lat True (sint x)
                   (tc_pop_e lat WVT_I32 (tc_pop_e lat WVT_I32 (tc_pop_e lat WVT_I32 s)))
        in if sub = 18 then
             (case seg_data_err cx seg et of Some e \<Rightarrow> tc_reject e s | None \<Rightarrow> s')
           else seg_elem_check E seg et etx s s')"

section \<open>The 0xfb family\<close>

text \<open>\<open>None\<close>: not a special case of the prefix, left to the signature table.\<close>

definition op_fb :: "venv \<Rightarrow> nat \<Rightarrow> tcst \<Rightarrow> tcst option" where
  "op_fb E sub s =
     (if sub = 0 \<or> sub = 2 \<or> sub = 5 then Some (op_struct E sub s)
      else if sub = 6 \<or> sub = 11 \<or> sub = 14 \<or> sub = 15 then Some (op_array E sub s)
      else if sub = 1 then Some (op_struct_new_default E s)
      else if sub = 3 \<or> sub = 4 then Some (op_struct_get_packed E s)
      else if sub = 7 \<or> sub = 8 \<or> sub = 9 \<or> sub = 10 then Some (op_array_new E sub s)
      else if sub = 12 \<or> sub = 13 then Some (op_array_get_packed E s)
      else if sub = 16 then Some (op_array_fill E s)
      else if sub = 17 then Some (op_array_copy E s)
      else if sub = 18 \<or> sub = 19 then Some (op_array_init E sub s)
      else if sub = 26 \<or> sub = 27 then Some (op_convert E sub s)
      else if sub = 28 then Some (op_ref_i31 E s)
      else if sub = 20 \<or> sub = 21 \<or> sub = 22 \<or> sub = 23 then Some (op_ref_test_cast E sub s)
      else if sub = 24 \<or> sub = 25 then Some (op_br_on_cast E sub s)
      else None)"

definition op_fc :: "venv \<Rightarrow> nat \<Rightarrow> tcst \<Rightarrow> tcst option" where
  "op_fc E sub s =
     (case tc_mem E 0xfc sub s of
        Some s' \<Rightarrow> Some s'
      | None \<Rightarrow>
          if sub = 9 then Some (op_data_drop E s)
          else if sub = 12 then Some (op_table_init E s)
          else if sub = 13 then Some (op_elem_drop E s)
          else if sub = 14 then Some (op_table_copy E s)
          else if sub = 15 then Some (op_table_grow E s)
          else if sub = 16 then Some (op_table_size E s)
          else if sub = 17 then Some (op_table_fill E s)
          else None)"

end
