(* ===== verification/Typecheck.thy ===== *)
theory Typecheck
  imports TcGc
begin

text \<open>
  \<open>jav_typecheck_ex\<close> of \<open>wasm/src/validate.c\<close> put together: the ordinary opcodes, the opcode
  \<open>switch\<close>, the walk over the body, the side-table post-pass, and the constant-expression
  gate \<open>jav_validate_const_expr\<close>.
\<close>

section \<open>Ordinary opcodes\<close>

text \<open>\<open>tc_skip_operands\<close>: one immediate, then the list of them.\<close>

definition skip_operand :: "venv \<Rightarrow> jop \<Rightarrow> tcst \<Rightarrow> tcst" where
  "skip_operand E k s =
     (case k of
        JOP_BRTABLE_COUNT \<Rightarrow> snd (rd_u32 E s)
      | JOP_ULEB32 \<Rightarrow> snd (rd_u32 E s)
      | JOP_ULEB64 \<Rightarrow> snd (rd_u64 E s)
      | JOP_SLEB32 \<Rightarrow> snd (rd_i32 E s)
      | JOP_SLEB64 \<Rightarrow> snd (rd_i64 E s)
      | JOP_F32 \<Rightarrow> s\<lparr>tc_pos := r_f32 (ve_rd E) (ve_code E) (tc_pos s)\<rparr>
      | JOP_F64 \<Rightarrow> s\<lparr>tc_pos := r_f64 (ve_rd E) (ve_code E) (tc_pos s)\<rparr>
      | JOP_U8 \<Rightarrow> snd (rd_byte E s)
      | JOP_MEMARG \<Rightarrow>
          (let (fl, s) = rd_u32 E s;
               s = (if fl AND 0x40 \<noteq> 0 then snd (rd_u32 E s) else s)
           in snd (rd_u64 E s))
      | JOP_BLOCKTYPE \<Rightarrow>
          (let (v, s) = rd_i32 E s in if v = -29 \<or> v = -28 then snd (rd_i32 E s) else s)
      | JOP_CONST \<Rightarrow> s
      | JOP_NONE \<Rightarrow> s)"

definition tc_skip_operands :: "venv \<Rightarrow> jit_meta \<Rightarrow> tcst \<Rightarrow> tcst" where
  "tc_skip_operands E m s = fold (skip_operand E) (jm_operands m) s"

text \<open>The heap-type column of a signature, read as the parallel type-index array.\<close>

definition ht_col :: "int list option \<Rightarrow> u32 list option" where
  "ht_col h = map_option (map word_of_int) h"

definition tc_apply_sig :: "venv \<Rightarrow> opsig \<Rightarrow> tcst \<Rightarrow> tcst" where
  "tc_apply_sig E sig s =
     tc_push_vals (sig_pushes sig) (ht_col (sig_push_ht sig)) (length (sig_pushes sig))
       (tc_pop_vals (ve_lat E) (sig_pops sig) (ht_col (sig_pop_ht sig)) (length (sig_pops sig)) s)"

definition tc_apply_sig_plain :: "venv \<Rightarrow> opsig \<Rightarrow> tcst \<Rightarrow> tcst" where
  "tc_apply_sig_plain E sig s =
     tc_push_vals (sig_pushes sig) None (length (sig_pushes sig))
       (tc_pop_vals (ve_lat E) (sig_pops sig) None (length (sig_pops sig)) s)"

text \<open>The \<open>if (!handled)\<close> tail.\<close>

definition op_ordinary :: "venv \<Rightarrow> opsig \<Rightarrow> jit_meta \<Rightarrow> tcst \<Rightarrow> tcst" where
  "op_ordinary E sig m s =
     (if \<not> sig_present sig then tc_fail s
      else tc_apply_sig E sig (tc_skip_operands E m s))"

text \<open>\<open>jav_opsig_sub[op][sub]\<close> and \<open>jav_jit_meta_sub[op][sub]\<close>; a sub-opcode past the table reads what lies there.\<close>

definition opsig_sub :: "venv \<Rightarrow> u8 \<Rightarrow> nat \<Rightarrow> opsig" where
  "opsig_sub E op sub =
     (case jav_opsig_sub op of
        Some (n, t) \<Rightarrow> if sub < n then t sub else ve_oob E op sub
      | None \<Rightarrow> opsig_zero)"

definition meta_sub :: "venv \<Rightarrow> u8 \<Rightarrow> nat \<Rightarrow> jit_meta" where
  "meta_sub E op sub =
     (case jav_jit_meta_sub op of
        Some (n, t) \<Rightarrow> if sub < n then t sub else ve_oob_meta E op sub
      | None \<Rightarrow> meta_zero)"

section \<open>Vector lanes\<close>

definition lane_dim :: "nat list" where
  "lane_dim = [16, 16, 16, 8, 8, 8, 4, 4, 2, 2, 4, 4, 2, 2]"

definition op_lane :: "venv \<Rightarrow> nat \<Rightarrow> tcst \<Rightarrow> tcst" where
  "op_lane E sub s =
     (let (lane, s) = rd_byte E s in
      if lane_dim ! (sub - 21) \<le> unat lane then tc_reject JAV_E_INVALID_LANE s
      else tc_apply_sig_plain E (opsig_sub E 0xfd sub) s)"

fun shuffle_lanes :: "venv \<Rightarrow> nat \<Rightarrow> bool \<Rightarrow> tcst \<Rightarrow> bool \<times> tcst" where
  "shuffle_lanes E 0 bad s = (bad, s)"
| "shuffle_lanes E (Suc n) bad s =
     (let (li, s) = rd_byte E s in shuffle_lanes E n (if 32 \<le> li then True else bad) s)"

definition op_shuffle :: "venv \<Rightarrow> tcst \<Rightarrow> tcst" where
  "op_shuffle E s =
     (let (bad, s) = shuffle_lanes E 16 False s in
      if bad then tc_reject JAV_E_INVALID_LANE s
      else tc_apply_sig_plain E (opsig_sub E 0xfd 13) s)"

definition op_fd :: "venv \<Rightarrow> nat \<Rightarrow> tcst \<Rightarrow> tcst option" where
  "op_fd E sub s =
     (if 21 \<le> sub \<and> sub \<le> 34 then Some (op_lane E sub s)
      else if sub = 13 then Some (op_shuffle E s)
      else tc_mem E 0xfd sub s)"

text \<open>The \<open>default:\<close> case of the switch.\<close>

definition op_default :: "venv \<Rightarrow> u8 \<Rightarrow> tcst \<Rightarrow> tcst" where
  "op_default E op s =
     (if jav_opsig_sub op \<noteq> None then
        (let (x, s) = rd_u32 E s; sub = unat x in
         case (if op = 0xfb then op_fb E sub s else if op = 0xfc then op_fc E sub s else op_fd E sub s) of
           Some s' \<Rightarrow> s'
         | None \<Rightarrow> op_ordinary E (opsig_sub E op sub) (meta_sub E op sub) s)
      else
        case tc_mem E op 0 s of
          Some s' \<Rightarrow> s'
        | None \<Rightarrow> op_ordinary E (jav_opsig op) (jav_jit_meta op) s)"

section \<open>The walk\<close>

text \<open>
  The switch.  Only \<open>br_table\<close> can fail to return (\<open>None\<close>).
\<close>

definition tc_step :: "venv \<Rightarrow> u8 \<Rightarrow> tcst \<Rightarrow> tcst option" where
  "tc_step E op s =
     (if op = 0x0e then op_br_table E s
      else Some
       (if op = 0x00 then op_unreachable s
        else if op = 0x01 then s
        else if op = 0x02 \<or> op = 0x03 then op_block E op s
        else if op = 0x04 then op_if E s
        else if op = 0x05 then op_else E s
        else if op = 0x08 then op_throw E s
        else if op = 0x0a then op_throw_ref E s
        else if op = 0x0b then op_end E s
        else if op = 0x0c \<or> op = 0x0d then op_br E op s
        else if op = 0x0f then op_return E s
        else if op = 0x10 then op_call E s
        else if op = 0x11 then op_call_indirect E False s
        else if op = 0x12 then op_return_call E s
        else if op = 0x13 then op_call_indirect E True s
        else if op = 0x14 then op_call_ref E False s
        else if op = 0x15 then op_call_ref E True s
        else if op = 0x1a then snd (tc_pop s)
        else if op = 0x1b then op_select E s
        else if op = 0x1c then op_select_t E s
        else if op = 0x1f then op_try_table E s
        else if op = 0x20 \<or> op = 0x21 \<or> op = 0x22 then op_local E op s
        else if op = 0x23 \<or> op = 0x24 then op_global E op s
        else if op = 0x25 then op_table_get E s
        else if op = 0x26 then op_table_set E s
        else if op = 0xd0 then op_ref_null E s
        else if op = 0xd1 then op_ref_is_null s
        else if op = 0xd2 then op_ref_func E s
        else if op = 0xd3 then op_ref_eq E s
        else if op = 0xd4 then op_ref_as_non_null s
        else if op = 0xd5 then op_br_on_null E s
        else if op = 0xd6 then op_br_on_non_null E s
        else op_default E op s))"

text \<open>\<open>while (s.ok)\<close>; the second component is \<open>max_height\<close>.\<close>

partial_function (option) tc_walk :: "venv \<Rightarrow> tcst \<Rightarrow> nat \<Rightarrow> (tcst \<times> nat) option" where
  "tc_walk E s max_height =
     (if \<not> tc_ok s then Some (s, max_height)
      else
        let (k, op, s1) = rd_u8 E s in
        if \<not> k then Some (s1, max_height)
        else if tc_ctrls s1 = [] then Some (tc_fail s1, max_height)
        else Option.bind (tc_step E op s1)
               (\<lambda>s2. tc_walk E s2 (if max_height < tc_nvals s2 then tc_nvals s2 else max_height)))"

declare tc_walk.simps [code]

text \<open>The state before the walk: the local-initialisation seed and the implicit outermost block.\<close>

definition locals_seed :: "vctx \<Rightarrow> bool list" where
  "locals_seed cx = map (\<lambda>i. i < cx_nparams cx \<or> vt_defaultable (cx_locals cx ! i)) [0..<cx_nlocals cx]"

definition tc_init :: "vctx \<Rightarrow> tcst" where
  "tc_init cx =
     tc_push_ctrl 0x02 [] None 0 (cx_results cx) (cx_result_tidx cx) (cx_nresults cx)
       \<lparr>tc_vals = [], tc_ctrls = [], tc_ok = True, tc_err = JAV_E_TYPE_MISMATCH, tc_st = [],
        tc_bpos = [], tc_tip = [], tc_eskip = [], tc_trytab = [],
        tc_locals_init = locals_seed cx, tc_inits = [], tc_pos = 0\<rparr>"

section \<open>The side-table post-pass\<close>

function lower_bound :: "nat list \<Rightarrow> nat \<Rightarrow> nat \<Rightarrow> nat \<Rightarrow> nat" where
  "lower_bound bpos target lo hi =
     (if lo < hi then
        let mid = lo + (hi - lo) div 2 in
        if bpos ! mid < target then lower_bound bpos target (mid + 1) hi
        else lower_bound bpos target lo mid
      else lo)"
  by pat_completeness auto
termination
  by (relation "measure (\<lambda>(bpos, target, lo, hi). hi - lo)") (auto simp: Let_def)

declare lower_bound.simps [simp del]

text \<open>The cast of a \<open>long\<close> or \<open>int\<close> value to \<open>int32_t\<close>.\<close>

definition to_i32 :: "int \<Rightarrow> int" where
  "to_i32 x = sint (word_of_int x :: u32)"

definition st_finish :: "nat list \<Rightarrow> nat list \<Rightarrow> int list \<Rightarrow> nat \<Rightarrow> st_entry \<Rightarrow> st_entry" where
  "st_finish bpos tip eskip e en =
     en\<lparr>se_delta_ip := to_i32 (int (tip ! e) - int (bpos ! e)),
        se_delta_stp := to_i32 (int (lower_bound bpos (tip ! e) 0 (length bpos)) - int e + eskip ! e)\<rparr>"

definition st_post :: "tcst \<Rightarrow> st_entry list" where
  "st_post s = map (\<lambda>e. st_finish (tc_bpos s) (tc_tip s) (tc_eskip s) e (tc_st s ! e)) [0..<length (tc_st s)]"

section \<open>The whole function\<close>

text \<open>\<open>Inl\<close> is the reject reason written to \<open>out_err\<close>; \<open>Inr\<close> the side table and the try table.\<close>

definition jav_typecheck_ex :: "venv \<Rightarrow> (jav_err + st_entry list \<times> jav_try list) option" where
  "jav_typecheck_ex E =
     (case tc_walk E (tc_init (ve_cx E)) 0 of
        None \<Rightarrow> None
      | Some (s, max_height) \<Rightarrow>
          let s = (if tc_ctrls s \<noteq> [] then tc_fail s else s);
              s = (if MAX_STACK < max_height then tc_fail s else s)
          in Some (if \<not> tc_ok s then Inl (tc_err s) else Inr (st_post s, tc_trytab s)))"

definition jav_typecheck :: "venv \<Rightarrow> st_entry list option option" where
  "jav_typecheck E =
     (case jav_typecheck_ex E of
        None \<Rightarrow> None
      | Some (Inl _) \<Rightarrow> Some None
      | Some (Inr (st, _)) \<Rightarrow> Some (Some st))"

section \<open>Constant expressions\<close>

text \<open>The opcodes \<open>OP_I32_CONST\<close> to \<open>OP_I64_MUL\<close> of the generated \<open>opcodes.h\<close>.\<close>

definition const_admissible :: "u8 \<Rightarrow> bool" where
  "const_admissible op \<longleftrightarrow>
     op \<in> {0x41, 0x42, 0x43, 0x44, 0x23, 0xd0, 0xd2, 0x6a, 0x6b, 0x6c, 0x7c, 0x7d, 0x7e}"

partial_function (option) const_walk :: "venv \<Rightarrow> tcst \<Rightarrow> int \<Rightarrow> bool option" where
  "const_walk E s height =
     (let (k, op, s) = rd_u8 E s in
      if \<not> k then Some False
      else if op = 0x0b then Some (height = 1)
      else if \<not> const_admissible op then Some False
      else
        let m = jav_jit_meta op in
        const_walk E (tc_skip_operands E m s) (height + int (jm_push m) - int (jm_pop m)))"

declare const_walk.simps [code]

definition jav_validate_const_expr :: "venv \<Rightarrow> bool option" where
  "jav_validate_const_expr E =
     const_walk E
       \<lparr>tc_vals = [], tc_ctrls = [], tc_ok = True, tc_err = JAV_E_NONE, tc_st = [], tc_bpos = [],
        tc_tip = [], tc_eskip = [], tc_trytab = [], tc_locals_init = [], tc_inits = [], tc_pos = 0\<rparr> 0"

end
