(* ===== verification/TcFrame.thy ===== *)
theory TcFrame
  imports Typecheck
begin

text \<open>
  What the instructions without side-table entries may change.  \<open>stk E s s'\<close> says that \<open>s'\<close>
  follows from \<open>s\<close> by operations on the operand stack, the cursor, the verdict and the
  top frame's dead-code flag alone.  It is reflexive and transitive, every primitive of
  \<open>TcState\<close> satisfies it, and so does every handler built from them: the invariants need
  one lemma about \<open>stk\<close> instead of one for each of the fifty handlers.
\<close>

section \<open>Heights\<close>

definition heights_ok :: "tcst \<Rightarrow> bool" where
  "heights_ok s \<longleftrightarrow>
     tc_nvals s \<le> MAX_STACK \<and> sorted_wrt (\<ge>) (tc_nvals s # map cf_val_height (tc_ctrls s))"

text \<open>A frame without its dead-code flag.\<close>

definition frame_core :: "cframe \<Rightarrow> cframe" where
  "frame_core f = f\<lparr>cf_unreachable := False\<rparr>"

definition stk :: "venv \<Rightarrow> tcst \<Rightarrow> tcst \<Rightarrow> bool" where
  "stk E s s' \<longleftrightarrow>
     map frame_core (tc_ctrls s') = map frame_core (tc_ctrls s) \<and>
     tc_st s' = tc_st s \<and> tc_bpos s' = tc_bpos s \<and> tc_tip s' = tc_tip s \<and>
     tc_eskip s' = tc_eskip s \<and> tc_trytab s' = tc_trytab s \<and>
     tc_locals_init s' = tc_locals_init s \<and> tc_inits s' = tc_inits s \<and>
     (tc_ctrls s \<noteq> [] \<longrightarrow> heights_ok s \<longrightarrow> heights_ok s') \<and>
     (tc_ok s' \<longrightarrow> tc_ok s) \<and>
     (reader_ok (ve_rd E) \<longrightarrow> tc_pos s \<le> length (ve_code E) \<longrightarrow>
        tc_pos s \<le> tc_pos s' \<and> tc_pos s' \<le> length (ve_code E))"

named_theorems stk_rules \<open>primitives extend a chain of stack steps\<close>

lemma stk_refl [stk_rules]: "stk E s s"
  by (simp add: stk_def)

lemma stk_ctrls_ne: "stk E s s' \<Longrightarrow> tc_ctrls s' \<noteq> [] \<longleftrightarrow> tc_ctrls s \<noteq> []"
  by (auto simp: stk_def dest: arg_cong [where f = length])

lemma stk_trans: "stk E a b \<Longrightarrow> stk E b c \<Longrightarrow> stk E a c"
  using stk_ctrls_ne [of E a b] by (auto simp: stk_def)

lemma frame_core_val_height: "map frame_core fs' = map frame_core fs \<Longrightarrow>
    map cf_val_height fs' = map cf_val_height fs"
proof -
  assume "map frame_core fs' = map frame_core fs"
  then have "map cf_val_height (map frame_core fs') = map cf_val_height (map frame_core fs)" by simp
  then show ?thesis by (simp add: frame_core_def comp_def)
qed

text \<open>One step appended to a chain.\<close>

lemma stk_vals:
  assumes "tc_ctrls s \<noteq> [] \<Longrightarrow> heights_ok s \<Longrightarrow> heights_ok (s\<lparr>tc_vals := v\<rparr>)"
  shows "stk E s (s\<lparr>tc_vals := v\<rparr>)"
  using assms by (simp add: stk_def)

lemma heights_irrel [simp]:
  "heights_ok (s\<lparr>tc_ok := b\<rparr>) = heights_ok s"
  "heights_ok (s\<lparr>tc_err := e\<rparr>) = heights_ok s"
  "heights_ok (s\<lparr>tc_pos := p\<rparr>) = heights_ok s"
  by (simp_all add: heights_ok_def)

lemma stk_fail_raw: "stk E s (s\<lparr>tc_ok := False\<rparr>)"
  by (simp add: stk_def)

lemma stk_fail [stk_rules]: "stk E r s \<Longrightarrow> stk E r (tc_fail s)"
  unfolding tc_fail_def by (rule stk_trans [OF _ stk_fail_raw])

lemma stk_okF [stk_rules]: "stk E r s \<Longrightarrow> stk E r (s\<lparr>tc_ok := False\<rparr>)"
  by (rule stk_trans [OF _ stk_fail_raw])

lemma stk_reject [stk_rules]: "stk E r s \<Longrightarrow> stk E r (tc_reject e s)"
  by (erule stk_trans) (simp add: stk_def tc_reject_def heights_ok_def)

lemma heights_okD:
  "heights_ok s \<Longrightarrow> tc_ctrls s \<noteq> [] \<Longrightarrow> cf_val_height (tc_top s) \<le> tc_nvals s"
  by (cases "tc_ctrls s") (auto simp: heights_ok_def tc_top_def)

lemma heights_vals:
  assumes "heights_ok s" "tc_ctrls s \<noteq> []" "cf_val_height (tc_top s) \<le> length v" "length v \<le> MAX_STACK"
  shows "heights_ok (s\<lparr>tc_vals := v\<rparr>)"
  using assms by (cases "tc_ctrls s") (auto simp: heights_ok_def tc_top_def)

lemma stk_push_vt [stk_rules]: "stk E r s \<Longrightarrow> stk E r (tc_push_vt t s)"
  by (erule stk_trans)
    (auto simp: tc_push_vt_def intro!: stk_vals stk_fail_raw heights_vals dest: heights_okD)

lemma stk_push [stk_rules]: "stk E r s \<Longrightarrow> stk E r (tc_push w s)"
  unfolding tc_push_def by (rule stk_push_vt)

lemma stk_push1 [stk_rules]: "stk E r s \<Longrightarrow> stk E r (tc_push1 w x s)"
  unfolding tc_push1_def by (rule stk_push_vt)

lemma stk_push_ref [stk_rules]: "stk E r s \<Longrightarrow> stk E r (tc_push_ref n h s)"
  unfolding tc_push_ref_def by (rule stk_push_vt)

lemma stk_pop [stk_rules]: "stk E r s \<Longrightarrow> stk E r (snd (tc_pop s))"
proof (erule stk_trans)
  show "stk E s (snd (tc_pop s))"
  proof (cases "tc_nvals s \<le> cf_val_height (tc_top s)")
    case True
    then show ?thesis by (simp add: tc_pop_def Let_def stk_refl stk_fail_raw)
  next
    case False
    then have "stk E s (s\<lparr>tc_vals := tl (tc_vals s)\<rparr>)"
      by (intro stk_vals heights_vals) (auto simp: heights_ok_def)
    with False show ?thesis by (simp add: tc_pop_def Let_def)
  qed
qed

lemma stk_pop_pair: "tc_pop s = (a, s') \<Longrightarrow> stk E r s \<Longrightarrow> stk E r s'"
  using stk_pop [of E r s] by simp

lemma stk_pop_vt [stk_rules]: "stk E r s \<Longrightarrow> stk E r (tc_pop_vt lat e s)"
  by (auto simp: tc_pop_vt_def split: prod.split intro: stk_okF dest: stk_pop_pair)

lemma tc_pop_e_vt: "tc_pop_e lat w = tc_pop_vt lat (vt_from w 0)"
  by (rule ext) (simp add: tc_pop_e_def tc_pop_vt_def)

lemma tc_pop1_vt: "tc_pop1 lat w x = tc_pop_vt lat (vt_from w x)"
  by (rule ext) (simp add: tc_pop1_def tc_pop_vt_def)

lemma tc_pop_ref_ht_vt: "tc_pop_ref_ht lat n h = tc_pop_vt lat (VT_REF n h)"
  by (rule ext) (simp add: tc_pop_ref_ht_def tc_pop_vt_def)

lemmas pop_forms = tc_pop_e_vt tc_pop1_vt tc_pop_ref_ht_vt

lemma stk_pop_e [stk_rules]: "stk E r s \<Longrightarrow> stk E r (tc_pop_e lat w s)"
  and stk_pop1 [stk_rules]: "stk E r s \<Longrightarrow> stk E r (tc_pop1 lat w x s)"
  and stk_pop_ref_ht [stk_rules]: "stk E r s \<Longrightarrow> stk E r (tc_pop_ref_ht lat n h s)"
  unfolding pop_forms by (simp_all add: stk_pop_vt)

lemma stk_pop_ref [stk_rules]: "stk E r s \<Longrightarrow> stk E r (snd (tc_pop_ref s))"
  by (auto simp: tc_pop_ref_def split: prod.split intro: stk_okF dest: stk_pop_pair)

lemma stk_fold:
  assumes "\<And>x s. x \<in> set xs \<Longrightarrow> stk E r s \<Longrightarrow> stk E r (f x s)" and "stk E r s"
  shows "stk E r (fold f xs s)"
  using assms by (induction xs arbitrary: s) simp_all

lemma stk_push_vals [stk_rules]: "stk E r s \<Longrightarrow> stk E r (tc_push_vals ts tx n s)"
  unfolding tc_push_vals_def by (rule stk_fold) (rule stk_push_vt)

lemma stk_pop_vals [stk_rules]: "stk E r s \<Longrightarrow> stk E r (tc_pop_vals lat ts tx n s)"
  unfolding tc_pop_vals_def by (rule stk_fold) (rule stk_pop_vt)

lemma stk_fold_pop1 [stk_rules]: "stk E r s \<Longrightarrow> stk E r (fold (\<lambda>i. tc_pop1 lat (w i) (x i)) is s)"
  by (rule stk_fold) (rule stk_pop1)

lemma stk_unreachable [stk_rules]: "stk E r s \<Longrightarrow> stk E r (tc_unreachable s)"
proof (erule stk_trans)
  show "stk E s (tc_unreachable s)"
  proof (cases "tc_ctrls s")
    case (Cons f fs)
    have "heights_ok s \<Longrightarrow> heights_ok (tc_unreachable s)"
      using Cons by (auto simp: heights_ok_def tc_unreachable_def upd_top_def tc_top_def)
    then show ?thesis
      using Cons by (simp add: stk_def tc_unreachable_def upd_top_def frame_core_def tc_top_def)
  qed (simp add: stk_def tc_unreachable_def upd_top_def)
qed

section \<open>Readers\<close>

lemma cursor_okD: "cursor_ok f \<Longrightarrow> p \<le> length c \<Longrightarrow> p \<le> f c p \<and> f c p \<le> length c"
  by (simp add: cursor_ok_def)

lemma stk_pos:
  assumes "reader_ok (ve_rd E) \<Longrightarrow> tc_pos s \<le> length (ve_code E) \<Longrightarrow> tc_pos s \<le> p \<and> p \<le> length (ve_code E)"
  shows "stk E s (s\<lparr>tc_pos := p\<rparr>)"
  using assms by (simp add: stk_def)

lemma reader_ok_cursor:
  assumes "reader_ok r"
  shows "cursor_ok (\<lambda>c p. snd (snd (r_u32 r c p)))" "cursor_ok (\<lambda>c p. snd (snd (r_u64 r c p)))"
    "cursor_ok (\<lambda>c p. snd (snd (r_i32 r c p)))" "cursor_ok (\<lambda>c p. snd (snd (r_i64 r c p)))"
    "cursor_ok (\<lambda>c p. snd (snd (r_s33 r c p)))" "cursor_ok (r_f32 r)" "cursor_ok (r_f64 r)"
  using assms by (simp_all add: reader_ok_def)

lemma reader_ok_u8:
  assumes "reader_ok r"
  shows "p < length c \<Longrightarrow> r_u8 r c p = (True, c ! p, p + 1)"
    and "length c \<le> p \<Longrightarrow> \<not> fst (r_u8 r c p) \<and> snd (snd (r_u8 r c p)) = p"
  using assms by (simp_all add: reader_ok_def)

lemma reader_ok_u8_cursor: "reader_ok r \<Longrightarrow> cursor_ok (\<lambda>c p. snd (snd (r_u8 r c p)))"
proof (unfold cursor_ok_def, intro allI impI)
  fix c :: "u8 list" and p
  assume r: "reader_ok r" and p: "p \<le> length c"
  show "p \<le> snd (snd (r_u8 r c p)) \<and> snd (snd (r_u8 r c p)) \<le> length c"
    using reader_ok_u8 [OF r] p by (cases "p < length c") simp_all
qed

text \<open>Every read of the model is one of these, up to the value it returns.\<close>

lemma stk_read:
  assumes "reader_ok (ve_rd E) \<Longrightarrow> cursor_ok f" and "stk E r s"
  shows "stk E r (s\<lparr>tc_pos := f (ve_code E) (tc_pos s)\<rparr>)"
  using assms(2) by (rule stk_trans) (rule stk_pos, rule cursor_okD [OF assms(1)])

lemma rd_pos:
  "snd (rd_u32 E s) = s\<lparr>tc_pos := snd (snd (r_u32 (ve_rd E) (ve_code E) (tc_pos s)))\<rparr>"
  "snd (rd_u64 E s) = s\<lparr>tc_pos := snd (snd (r_u64 (ve_rd E) (ve_code E) (tc_pos s)))\<rparr>"
  "snd (rd_i32 E s) = s\<lparr>tc_pos := snd (snd (r_i32 (ve_rd E) (ve_code E) (tc_pos s)))\<rparr>"
  "snd (rd_i64 E s) = s\<lparr>tc_pos := snd (snd (r_i64 (ve_rd E) (ve_code E) (tc_pos s)))\<rparr>"
  "snd (snd (rd_s33 E s)) = s\<lparr>tc_pos := snd (snd (r_s33 (ve_rd E) (ve_code E) (tc_pos s)))\<rparr>"
  "snd (snd (rd_u8 E s)) = s\<lparr>tc_pos := snd (snd (r_u8 (ve_rd E) (ve_code E) (tc_pos s)))\<rparr>"
  "snd (rd_byte E s) = s\<lparr>tc_pos := snd (snd (r_u8 (ve_rd E) (ve_code E) (tc_pos s)))\<rparr>"
  "snd (rd_label E i s) = s\<lparr>tc_pos := snd (snd (r_u32 (ve_rd E) (ve_code E) (tc_pos s)))\<rparr>"
  by (simp_all add: rd_u32_def rd_u64_def rd_i32_def rd_i64_def rd_s33_def rd_u8_def rd_byte_def
      rd_label_def split_beta)

lemma stk_rd_u32 [stk_rules]: "stk E r s \<Longrightarrow> stk E r (snd (rd_u32 E s))"
  unfolding rd_pos by (rule stk_read [OF reader_ok_cursor(1)])

lemma stk_rd_u64 [stk_rules]: "stk E r s \<Longrightarrow> stk E r (snd (rd_u64 E s))"
  unfolding rd_pos by (rule stk_read [OF reader_ok_cursor(2)])

lemma stk_rd_i32 [stk_rules]: "stk E r s \<Longrightarrow> stk E r (snd (rd_i32 E s))"
  unfolding rd_pos by (rule stk_read [OF reader_ok_cursor(3)])

lemma stk_rd_i64 [stk_rules]: "stk E r s \<Longrightarrow> stk E r (snd (rd_i64 E s))"
  unfolding rd_pos by (rule stk_read [OF reader_ok_cursor(4)])

lemma stk_rd_s33 [stk_rules]: "stk E r s \<Longrightarrow> stk E r (snd (snd (rd_s33 E s)))"
  unfolding rd_pos by (rule stk_read [OF reader_ok_cursor(5)])

lemma stk_rd_label [stk_rules]: "stk E r s \<Longrightarrow> stk E r (snd (rd_label E i s))"
  unfolding rd_pos by (rule stk_read [OF reader_ok_cursor(1)])

lemma stk_rd_u8 [stk_rules]: "stk E r s \<Longrightarrow> stk E r (snd (snd (rd_u8 E s)))"
  unfolding rd_pos by (rule stk_read [OF reader_ok_u8_cursor])

lemma stk_rd_byte [stk_rules]: "stk E r s \<Longrightarrow> stk E r (snd (rd_byte E s))"
  unfolding rd_pos by (rule stk_read [OF reader_ok_u8_cursor])

lemma stk_rd_f32 [stk_rules]:
  "stk E r s \<Longrightarrow> stk E r (s\<lparr>tc_pos := r_f32 (ve_rd E) (ve_code E) (tc_pos s)\<rparr>)"
  by (rule stk_read [OF reader_ok_cursor(6)])

lemma stk_rd_f64 [stk_rules]:
  "stk E r s \<Longrightarrow> stk E r (s\<lparr>tc_pos := r_f64 (ve_rd E) (ve_code E) (tc_pos s)\<rparr>)"
  by (rule stk_read [OF reader_ok_cursor(7)])

end
