(* ===== verification/TcHandlers.thy ===== *)
theory TcHandlers
  imports TcFrame
begin

text \<open>
  Every handler that emits no side-table entry and opens or closes no block is a stack
  step (\<open>stk\<close>), except \<open>local.set\<close> and \<open>local.tee\<close>, which also record an initialisation.
\<close>

named_theorems handler_defs \<open>handlers that unfold into stack primitives\<close>

declare tc_call_sig_def [handler_defs] tc_return_results_def [handler_defs]

lemma stk_if [stk_rules]: "(b \<Longrightarrow> stk E r s) \<Longrightarrow> (\<not> b \<Longrightarrow> stk E r s') \<Longrightarrow> stk E r (if b then s else s')"
  by simp

section \<open>Control\<close>

lemma stk_throw [stk_rules]: "stk E s (op_throw E s)"
  by (simp add: op_throw_def Let_def split_beta stk_rules split: option.split)

lemma stk_throw_ref [stk_rules]: "stk E s (op_throw_ref E s)"
  by (simp add: op_throw_ref_def stk_rules)

lemma stk_return [stk_rules]: "stk E s (op_return E s)"
  by (simp add: op_return_def Let_def stk_rules)

lemma stk_op_unreachable [stk_rules]: "stk E s (op_unreachable s)"
  by (simp add: op_unreachable_def stk_rules)

section \<open>Calls\<close>

lemma stk_call_sig [stk_rules]: "stk E r s \<Longrightarrow> stk E r (tc_call_sig E ft s)"
  by (simp add: tc_call_sig_def stk_rules)

lemma stk_return_results [stk_rules]: "stk E r s \<Longrightarrow> stk E r (tc_return_results E s)"
  by (simp add: tc_return_results_def Let_def stk_rules)

lemma stk_call [stk_rules]: "stk E s (op_call E s)"
  by (simp add: op_call_def Let_def split_beta stk_rules)

lemma stk_return_call [stk_rules]: "stk E s (op_return_call E s)"
  by (simp add: op_return_call_def Let_def split_beta stk_rules)

lemma stk_call_indirect [stk_rules]: "stk E s (op_call_indirect E ret s)"
  by (simp add: op_call_indirect_def Let_def split_beta stk_rules)

lemma stk_call_ref [stk_rules]: "stk E s (op_call_ref E ret s)"
  by (simp add: op_call_ref_def Let_def split_beta stk_rules)

section \<open>Parametric instructions, globals and tables\<close>

lemma stk_select [stk_rules]: "stk E s (op_select E s)"
  by (simp add: op_select_def Let_def split_beta stk_rules)

lemma stk_select_t [stk_rules]: "stk E s (op_select_t E s)"
  by (simp add: op_select_t_def Let_def split_beta stk_rules split: option.split)

lemma stk_global [stk_rules]: "stk E s (op_global E op s)"
  by (simp add: op_global_def Let_def split_beta stk_rules split: option.split)

lemma stk_tables [stk_rules]:
  "stk E s (op_table_get E s)" "stk E s (op_table_set E s)"
  by (simp_all add: op_table_get_def op_table_set_def Let_def split_beta stk_rules)

lemma stk_bulk [stk_rules]:
  assumes "stk E r s"
  shows "stk E r (op_data_drop E s)" "stk E r (op_table_init E s)" "stk E r (op_elem_drop E s)"
    "stk E r (op_table_copy E s)" "stk E r (op_table_grow E s)" "stk E r (op_table_size E s)"
    "stk E r (op_table_fill E s)"
  using assms
  by (simp_all add: op_data_drop_def op_table_init_def op_elem_drop_def op_table_copy_def
      op_table_grow_def op_table_size_def op_table_fill_def Let_def split_beta stk_rules)

section \<open>References\<close>

lemma stk_refs [stk_rules]:
  "stk E s (op_ref_null E s)" "stk E s (op_ref_is_null s)" "stk E s (op_ref_func E s)"
  "stk E s (op_ref_eq E s)" "stk E s (op_ref_as_non_null s)"
  by (simp_all add: op_ref_null_def op_ref_is_null_def op_ref_func_def op_ref_eq_def
      op_ref_as_non_null_def Let_def split_beta stk_rules)

lemma stk_fb_refs [stk_rules]:
  assumes "stk E r s"
  shows "stk E r (op_convert E sub s)" "stk E r (op_ref_i31 E s)" "stk E r (op_ref_test_cast E sub s)"
  using assms
  by (simp_all add: op_convert_def op_ref_i31_def op_ref_test_cast_def Let_def split_beta stk_rules)

section \<open>Memory\<close>

lemma stk_mem_access [stk_rules]: "stk E r s \<Longrightarrow> stk E r (tc_mem_access E k N dt s)"
  by (simp add: tc_mem_access_def Let_def split_beta stk_rules split: option.split)

lemma stk_mem_others [stk_rules]:
  assumes "stk E r s"
  shows "stk E r (tc_mem_size_grow E k s)" "stk E r (tc_mem_fill E s)" "stk E r (tc_mem_copy E s)"
    "stk E r (tc_mem_init E s)"
  using assms
  by (simp_all add: tc_mem_size_grow_def tc_mem_fill_def tc_mem_copy_def tc_mem_init_def Let_def
      split_beta stk_rules)

lemma stk_mem: "tc_mem E op sub s = Some s' \<Longrightarrow> stk E r s \<Longrightarrow> stk E r s'"
  by (auto simp: tc_mem_def stk_rules split: option.splits)

section \<open>Aggregates\<close>

lemma stk_seg_elem [stk_rules]: "stk E r s \<Longrightarrow> stk E r s' \<Longrightarrow> stk E r (seg_elem_check E seg et etx s s')"
  by (simp add: seg_elem_check_def Let_def stk_rules)

lemma stk_struct [stk_rules]: "stk E r s \<Longrightarrow> stk E r (op_struct E sub s)"
  by (simp add: op_struct_def Let_def split_beta stk_rules)

lemma stk_struct_others [stk_rules]:
  assumes "stk E r s"
  shows "stk E r (op_struct_new_default E s)" "stk E r (op_struct_get_packed E s)"
  using assms
  by (simp_all add: op_struct_new_default_def op_struct_get_packed_def Let_def split_beta stk_rules)

lemma stk_array [stk_rules]: "stk E r s \<Longrightarrow> stk E r (op_array E sub s)"
  by (simp add: op_array_def Let_def split_beta stk_rules)

lemma stk_array_new [stk_rules]: "stk E r s \<Longrightarrow> stk E r (op_array_new E sub s)"
  by (simp add: op_array_new_def Let_def split_beta stk_rules split: option.split)

lemma stk_array_others [stk_rules]:
  assumes "stk E r s"
  shows "stk E r (op_array_get_packed E s)" "stk E r (op_array_fill E s)" "stk E r (op_array_copy E s)"
    "stk E r (op_array_init E sub s)"
  using assms
  by (simp_all add: op_array_get_packed_def op_array_fill_def op_array_copy_def op_array_init_def
      Let_def split_beta stk_rules split: option.split)

section \<open>Ordinary opcodes\<close>

lemma stk_skip_operand [stk_rules]: "stk E r s \<Longrightarrow> stk E r (skip_operand E k s)"
  by (simp add: skip_operand_def Let_def split_beta stk_rules split: jop.split)

lemma stk_ordinary [stk_rules]: "stk E r s \<Longrightarrow> stk E r (op_ordinary E sig m s)"
  unfolding op_ordinary_def tc_apply_sig_def tc_skip_operands_def
  by (intro stk_rules stk_fold) auto

lemma stk_lane [stk_rules]: "stk E r s \<Longrightarrow> stk E r (op_lane E sub s)"
  by (simp add: op_lane_def tc_apply_sig_plain_def Let_def split_beta stk_rules)

lemma stk_shuffle_lanes: "stk E r s \<Longrightarrow> stk E r (snd (shuffle_lanes E n bad s))"
  by (induction E n bad s rule: shuffle_lanes.induct) (simp_all add: split_beta stk_rules)

lemma stk_shuffle [stk_rules]: "stk E r s \<Longrightarrow> stk E r (op_shuffle E s)"
  by (simp add: op_shuffle_def tc_apply_sig_plain_def Let_def split_beta stk_rules stk_shuffle_lanes)

lemma stk_fd: "op_fd E sub s = Some s' \<Longrightarrow> stk E r s \<Longrightarrow> stk E r s'"
  by (auto simp: op_fd_def stk_rules dest: stk_mem split: if_splits)

lemma stk_fc: "op_fc E sub s = Some s' \<Longrightarrow> stk E r s \<Longrightarrow> stk E r s'"
  by (auto simp: op_fc_def stk_rules dest: stk_mem split: if_splits option.splits)

lemma stk_fb: "op_fb E sub s = Some s' \<Longrightarrow> sub \<noteq> 24 \<Longrightarrow> sub \<noteq> 25 \<Longrightarrow> stk E r s \<Longrightarrow> stk E r s'"
  by (auto simp: op_fb_def stk_rules split: if_splits)

text \<open>The switch's default case is a stack step, or the \<open>br_on_cast\<close> of the prefix 0xfb.\<close>

lemma op_default_cases:
  obtains "stk E s (op_default E op s)"
  | sub where "op = 0xfb" "sub = 24 \<or> sub = 25"
      "op_default E op s = op_br_on_cast E sub (snd (rd_u32 E s))"
proof (cases "jav_opsig_sub op = None")
  case True
  then have "stk E s (op_default E op s)"
    using stk_mem [of E op 0 s _ s] by (simp add: op_default_def stk_rules split: option.split)
  then show thesis by (rule that(1))
next
  case False
  let ?x = "fst (rd_u32 E s)" and ?s = "snd (rd_u32 E s)"
  let ?sub = "unat ?x"
  have s: "stk E s ?s" by (simp add: stk_rules)
  show thesis
  proof (cases "op = 0xfb \<and> (?sub = 24 \<or> ?sub = 25)")
    case True
    then have "op_default E op s = op_br_on_cast E ?sub ?s"
      using False by (auto simp: op_default_def Let_def split_beta op_fb_def)
    with True show thesis using that(2) [of ?sub] by simp
  next
    case not_cast: False
    have "stk E s (op_default E op s)"
      using False not_cast stk_fb [OF _ _ _ s, of ?sub] stk_fc [OF _ s, of ?sub]
        stk_fd [OF _ s, of ?sub]
      by (auto simp: op_default_def Let_def split_beta stk_rules split: option.split)
    then show thesis by (rule that(1))
  qed
qed

end
