(* ===== verification/TcInv.thy ===== *)
theory TcInv
  imports TcHandlers
begin

text \<open>
  The invariant of the body validator and its preservation by the control instructions.
  \<open>tc_inv E X n s\<close> has two bookkeeping arguments for the middle of a handler: \<open>X\<close> holds the
  side-table entries whose target is still to be recorded, and only the first \<open>n\<close> entries
  need a branch position yet.  Between instructions it is \<open>tcinv E s\<close>, with nothing left
  over.
\<close>

section \<open>The invariant\<close>

text \<open>What a frame may refer to, given the sizes of the accumulators and the cursor.\<close>

definition frame_ok :: "nat \<Rightarrow> nat \<Rightarrow> nat \<Rightarrow> cframe \<Rightarrow> bool" where
  "frame_ok m t p f \<longleftrightarrow>
     (\<forall>e \<in> set (cf_fixups f). e < m) \<and> (\<forall>e. cf_else_e f = Some e \<longrightarrow> e < m) \<and>
     (cf_opcode f = 0x04 \<longleftrightarrow> cf_else_e f \<noteq> None) \<and> (\<forall>i. cf_try_idx f = Some i \<longrightarrow> i < t) \<and>
     (cf_opcode f = 0x03 \<longrightarrow> 0 < cf_loop_start f \<and> cf_loop_start f \<le> p)"

text \<open>The entries whose target a frame still has to record.\<close>

definition frame_pending :: "cframe \<Rightarrow> nat set" where
  "frame_pending f = set (cf_fixups f) \<union> set_option (cf_else_e f)"

definition pending :: "cframe list \<Rightarrow> nat set" where
  "pending fs = (\<Union>f \<in> set fs. frame_pending f)"

definition inv_frames :: "tcst \<Rightarrow> bool" where
  "inv_frames s \<longleftrightarrow>
     list_all (frame_ok (length (tc_st s)) (length (tc_trytab s)) (tc_pos s)) (tc_ctrls s) \<and>
     sorted_wrt (\<ge>) (length (tc_inits s) # map cf_init_height (tc_ctrls s))"

definition inv_entries :: "nat set \<Rightarrow> nat \<Rightarrow> tcst \<Rightarrow> bool" where
  "inv_entries X n s \<longleftrightarrow>
     length (tc_bpos s) = length (tc_st s) \<and> length (tc_tip s) = length (tc_st s) \<and>
     length (tc_eskip s) = length (tc_st s) \<and> set (tc_eskip s) \<subseteq> {0, 1} \<and> n \<le> length (tc_st s) \<and>
     (tc_ok s \<longrightarrow> sorted (take n (tc_bpos s)) \<and> (\<forall>p \<in> set (take n (tc_bpos s)). 0 < p \<and> p \<le> tc_pos s)) \<and>
     (\<forall>e < length (tc_st s). tc_tip s ! e \<le> tc_pos s \<and>
        (tc_tip s ! e = 0 \<longrightarrow> e \<in> X \<union> pending (tc_ctrls s)))"

text \<open>A local is initialised exactly when its seed says so or it is on the \<open>inits\<close> stack.\<close>

definition inv_locals :: "bool list \<Rightarrow> bool list \<Rightarrow> nat list \<Rightarrow> bool" where
  "inv_locals seed li is \<longleftrightarrow>
     length li = length seed \<and> distinct is \<and> (\<forall>i \<in> set is. i < length seed \<and> \<not> seed ! i) \<and>
     (\<forall>i < length seed. li ! i \<longleftrightarrow> seed ! i \<or> i \<in> set is)"

definition tc_inv :: "venv \<Rightarrow> nat set \<Rightarrow> nat \<Rightarrow> tcst \<Rightarrow> bool" where
  "tc_inv E X n s \<longleftrightarrow>
     heights_ok s \<and> inv_frames s \<and> inv_entries X n s \<and>
     inv_locals (locals_seed (ve_cx E)) (tc_locals_init s) (tc_inits s) \<and>
     tc_pos s \<le> length (ve_code E)"

abbreviation tcinv :: "venv \<Rightarrow> tcst \<Rightarrow> bool" where
  "tcinv E s \<equiv> tc_inv E {} (length (tc_st s)) s"

section \<open>Stack steps\<close>

lemma frame_ok_core [simp]: "frame_ok m t p (frame_core f) = frame_ok m t p f"
  by (simp add: frame_ok_def frame_core_def)

lemma frame_pending_core [simp]: "frame_pending (frame_core f) = frame_pending f"
  by (simp add: frame_pending_def frame_core_def)

lemma frame_ok_mono:
  "frame_ok m t p f \<Longrightarrow> m \<le> m' \<Longrightarrow> t \<le> t' \<Longrightarrow> p \<le> p' \<Longrightarrow> frame_ok m' t' p' f"
  by (fastforce simp: frame_ok_def)

lemma list_all_core: "map frame_core fs' = map frame_core fs \<Longrightarrow>
    list_all (frame_ok m t p) fs' = list_all (frame_ok m t p) fs"
proof -
  assume "map frame_core fs' = map frame_core fs"
  then have "list_all (frame_ok m t p) (map frame_core fs') = list_all (frame_ok m t p) (map frame_core fs)"
    by simp
  then show ?thesis by (simp add: list.pred_map comp_def)
qed

lemma pending_core: "map frame_core fs' = map frame_core fs \<Longrightarrow> pending fs' = pending fs"
proof -
  have p: "pending gs = pending (map frame_core gs)" for gs by (simp add: pending_def)
  assume "map frame_core fs' = map frame_core fs"
  then show ?thesis using p [of fs] p [of fs'] by simp
qed

lemma init_heights_core: "map frame_core fs' = map frame_core fs \<Longrightarrow>
    map cf_init_height fs' = map cf_init_height fs"
proof -
  assume "map frame_core fs' = map frame_core fs"
  then have "map cf_init_height (map frame_core fs') = map cf_init_height (map frame_core fs)" by simp
  then show ?thesis by (simp add: frame_core_def comp_def)
qed

lemma list_all_frame_mono:
  "list_all (frame_ok m t p) fs \<Longrightarrow> m \<le> m' \<Longrightarrow> t \<le> t' \<Longrightarrow> p \<le> p' \<Longrightarrow> list_all (frame_ok m' t' p') fs"
  by (auto simp: list_all_iff intro: frame_ok_mono)

lemma tc_inv_stk:
  assumes inv: "tc_inv E X n s" and stk: "stk E s s'" and ne: "tc_ctrls s \<noteq> []" and r: "reader_ok (ve_rd E)"
  shows "tc_inv E X n s'" and "tc_pos s \<le> tc_pos s'" and "tc_ctrls s' \<noteq> []"
    and "tc_nctrls s' = tc_nctrls s" and "length (tc_st s') = length (tc_st s)"
proof -
  have core: "map frame_core (tc_ctrls s') = map frame_core (tc_ctrls s)"
    and eq: "tc_st s' = tc_st s" "tc_bpos s' = tc_bpos s" "tc_tip s' = tc_tip s"
      "tc_eskip s' = tc_eskip s" "tc_trytab s' = tc_trytab s"
      "tc_locals_init s' = tc_locals_init s" "tc_inits s' = tc_inits s"
    and h: "heights_ok s \<Longrightarrow> heights_ok s'" and ok: "tc_ok s' \<Longrightarrow> tc_ok s"
    and pos: "tc_pos s \<le> length (ve_code E) \<Longrightarrow> tc_pos s \<le> tc_pos s' \<and> tc_pos s' \<le> length (ve_code E)"
    using stk ne r by (auto simp: stk_def)
  have p: "tc_pos s \<le> tc_pos s'" "tc_pos s' \<le> length (ve_code E)" using pos inv by (simp_all add: tc_inv_def)
  have fr: "list_all (frame_ok (length (tc_st s)) (length (tc_trytab s)) (tc_pos s')) (tc_ctrls s')"
    using inv p list_all_core [OF core] by (auto simp: tc_inv_def inv_frames_def intro: list_all_frame_mono)
  have en: "inv_entries X n s'"
    using inv ok p unfolding tc_inv_def inv_entries_def eq pending_core [OF core]
    by (auto intro: order_trans)
  show "tc_inv E X n s'"
    using inv h p fr en init_heights_core [OF core] eq by (simp add: tc_inv_def inv_frames_def)
  show "tc_pos s \<le> tc_pos s'" by (rule p)
  show "tc_ctrls s' \<noteq> []" using stk_ctrls_ne [OF stk] ne by simp
  show "tc_nctrls s' = tc_nctrls s" using core by (metis length_map)
  show "length (tc_st s') = length (tc_st s)" using eq by simp
qed

section \<open>Side-table entries\<close>

lemma st_push_simps [simp]:
  "fst (st_push s) = length (tc_st s)"
  "tc_vals (snd (st_push s)) = tc_vals s" "tc_ctrls (snd (st_push s)) = tc_ctrls s"
  "tc_ok (snd (st_push s)) = tc_ok s" "tc_pos (snd (st_push s)) = tc_pos s"
  "tc_st (snd (st_push s)) = tc_st s @ [st_zero]" "tc_bpos (snd (st_push s)) = tc_bpos s @ [0]"
  "tc_tip (snd (st_push s)) = tc_tip s @ [0]" "tc_eskip (snd (st_push s)) = tc_eskip s @ [0]"
  "tc_trytab (snd (st_push s)) = tc_trytab s" "tc_inits (snd (st_push s)) = tc_inits s"
  "tc_locals_init (snd (st_push s)) = tc_locals_init s"
  by (simp_all add: st_push_def)

lemma heights_cong:
  "tc_vals s' = tc_vals s \<Longrightarrow> map cf_val_height (tc_ctrls s') = map cf_val_height (tc_ctrls s) \<Longrightarrow>
     heights_ok s' = heights_ok s"
  by (simp add: heights_ok_def)

lemma inv_st_push:
  assumes "tc_inv E X n s"
  shows "tc_inv E (insert (length (tc_st s)) X) n (snd (st_push s))"
proof -
  have "inv_entries (insert (length (tc_st s)) X) n (snd (st_push s))"
    using assms by (auto simp: tc_inv_def inv_entries_def nth_append less_Suc_eq)
  moreover have "inv_frames (snd (st_push s))"
    using assms by (auto simp: tc_inv_def inv_frames_def intro: list_all_frame_mono)
  ultimately show ?thesis
    using assms by (simp add: tc_inv_def heights_cong [of "snd (st_push s)" s])
qed

lemma inv_set_bpos:
  assumes inv: "tc_inv E X n s" and n: "length (tc_st s) = Suc n" and pos: "0 < tc_pos s"
  shows "tc_inv E X (Suc n) (set_bpos n (tc_pos s) s)"
proof -
  have len: "length (tc_bpos s) = Suc n" using inv n by (simp add: tc_inv_def inv_entries_def)
  have t: "take (Suc n) ((tc_bpos s)[n := tc_pos s]) = take n (tc_bpos s) @ [tc_pos s]"
    using len by (simp add: take_Suc_conv_app_nth upd_conv_take_nth_drop)
  have "inv_entries X (Suc n) (set_bpos n (tc_pos s) s)"
    using inv n pos len unfolding tc_inv_def inv_entries_def set_bpos_def
    by (auto simp del: take_update_cancel simp: t sorted_append)
  then show ?thesis
    using inv by (simp add: tc_inv_def set_bpos_def inv_frames_def heights_ok_def)
qed

lemma inv_set_vals_pop:
  "tc_inv E X n s \<Longrightarrow> tc_inv E X n (set_vals_pop e v q s)"
  by (simp add: tc_inv_def set_vals_pop_def inv_frames_def inv_entries_def heights_ok_def)

lemma label_frame_ok:
  assumes "tc_inv E X n s" "k < tc_nctrls s"
  shows "frame_ok (length (tc_st s)) (length (tc_trytab s)) (tc_pos s) (tc_ctrls s ! k)"
  using assms by (simp add: tc_inv_def inv_frames_def list_all_length)

lemma pending_update:
  "x \<in> pending fs \<Longrightarrow> k < length fs \<Longrightarrow> x \<in> pending (fs[k := f]) \<or> x \<in> frame_pending (fs ! k)"
  unfolding pending_def by (metis (no_types, lifting) UN_E UN_I in_set_conv_nth length_list_update nth_list_update)

lemma pending_updated: "k < length fs \<Longrightarrow> frame_pending f \<subseteq> pending (fs[k := f])"
  unfolding pending_def by (rule UN_upper) (rule set_update_memI)

lemma list_all_update: "list_all P fs \<Longrightarrow> P f \<Longrightarrow> list_all P (fs[k := f])"
  by (auto simp: list_all_iff dest: set_update_subset_insert [THEN subsetD])

lemma map_update_same: "k < length xs \<Longrightarrow> g y = g (xs ! k) \<Longrightarrow> map g (xs[k := y]) = map g xs"
  by (simp add: map_update list_update_same_conv)

lemma inv_set_tip:
  assumes "tc_inv E (insert e X) n s" "0 < p" "p \<le> tc_pos s" "e < length (tc_st s)"
  shows "tc_inv E X n (set_tip e p s)"
proof -
  have "inv_entries X n (set_tip e p s)"
    using assms by (auto simp: tc_inv_def inv_entries_def set_tip_def nth_list_update)
  then show ?thesis
    using assms by (simp add: tc_inv_def set_tip_def inv_frames_def heights_ok_def)
qed

lemma inv_target:
  assumes inv: "tc_inv E (insert e X) n s" and k: "k < tc_nctrls s" and e: "e < length (tc_st s)"
  shows "tc_inv E X n (tc_target k e s)"
proof (cases "cf_opcode (tc_ctrls s ! k) = 0x03")
  case True
  then have "0 < cf_loop_start (tc_ctrls s ! k)" "cf_loop_start (tc_ctrls s ! k) \<le> tc_pos s"
    using label_frame_ok [OF inv k] by (simp_all add: frame_ok_def)
  with True e inv_set_tip [OF inv] show ?thesis by (simp add: tc_target_def Let_def)
next
  case False
  let ?f = "tc_ctrls s ! k"
  let ?g = "?f\<lparr>cf_fixups := cf_fixups ?f @ [e]\<rparr>"
  let ?s = "s\<lparr>tc_ctrls := (tc_ctrls s)[k := ?g]\<rparr>"
  have fo: "frame_ok (length (tc_st s)) (length (tc_trytab s)) (tc_pos s) ?g"
    using label_frame_ok [OF inv k] e by (auto simp: frame_ok_def)
  have "inv_frames ?s"
    using inv fo map_update_same [OF k, of cf_init_height ?g]
    by (auto simp: tc_inv_def inv_frames_def intro: list_all_update)
  moreover have "inv_entries X n ?s"
  proof -
    have sub: "frame_pending ?f \<subseteq> frame_pending ?g" "e \<in> frame_pending ?g"
      by (auto simp: frame_pending_def)
    then have "insert e X \<union> pending (tc_ctrls s) \<subseteq> X \<union> pending ((tc_ctrls s)[k := ?g])"
      using pending_update [OF _ k] pending_updated [OF k, of ?g] by blast
    then show ?thesis
      using inv by (auto simp: tc_inv_def inv_entries_def)
  qed
  moreover have "heights_ok ?s"
    using inv heights_cong [of ?s s] map_update_same [OF k, of cf_val_height ?g] by (simp add: tc_inv_def)
  ultimately show ?thesis
    using False inv by (simp add: tc_inv_def tc_target_def Let_def)
qed

text \<open>A complete entry: pushed, perhaps separated by stack steps, then filled and aimed.\<close>

lemma fill_entry_simps [simp]:
  "tc_st (set_bpos e p s) = tc_st s" "tc_pos (set_bpos e p s) = tc_pos s"
  "tc_ctrls (set_bpos e p s) = tc_ctrls s" "length (tc_st (set_vals_pop e v q s)) = length (tc_st s)"
  "tc_ctrls (set_vals_pop e v q s) = tc_ctrls s" "tc_pos (set_vals_pop e v q s) = tc_pos s"
  "tc_ok (set_bpos e p s) = tc_ok s" "tc_ok (set_vals_pop e v q s) = tc_ok s"
  "tc_vals (set_bpos e p s) = tc_vals s" "tc_vals (set_vals_pop e v q s) = tc_vals s"
  by (simp_all add: set_bpos_def set_vals_pop_def)

lemma target_simps [simp]:
  "length (tc_st (tc_target k e s)) = length (tc_st s)" "tc_pos (tc_target k e s) = tc_pos s"
  "tc_nctrls (tc_target k e s) = tc_nctrls s" "tc_ok (tc_target k e s) = tc_ok s"
  "tc_vals (tc_target k e s) = tc_vals s"
  by (simp_all add: tc_target_def Let_def set_tip_def)

lemma fill_simps [simp]:
  "length (tc_st (tc_fill_entry k e p h m s)) = length (tc_st s)"
  "tc_pos (tc_fill_entry k e p h m s) = tc_pos s"
  "tc_nctrls (tc_fill_entry k e p h m s) = tc_nctrls s"
  by (simp_all add: tc_fill_entry_def Let_def)

lemma inv_fill_entry:
  assumes inv: "tc_inv E {n} n s" and n: "length (tc_st s) = Suc n" and pos: "0 < tc_pos s"
    and k: "k < tc_nctrls s" and p: "p = tc_pos s"
  shows "tcinv E (tc_fill_entry k n p h m s)"
proof -
  have "tc_inv E {n} (Suc n) (set_bpos n p s)" unfolding p using inv n pos by (rule inv_set_bpos)
  then show ?thesis
    using n k by (simp add: tc_fill_entry_def Let_def inv_target inv_set_vals_pop)
qed

lemma inv_X_mono: "tc_inv E X n s \<Longrightarrow> X \<subseteq> Y \<Longrightarrow> tc_inv E Y n s"
  by (auto simp: tc_inv_def inv_entries_def)

lemma inv_X_drop:
  assumes "tc_inv E X n s" "\<And>e. e \<in> X \<Longrightarrow> e < length (tc_st s) \<Longrightarrow> 0 < tc_tip s ! e"
  shows "tc_inv E Y n s"
  using assms unfolding tc_inv_def inv_entries_def by (metis Un_iff less_numeral_extra(3))

section \<open>States between instructions\<close>

definition tc_good :: "venv \<Rightarrow> tcst \<Rightarrow> bool" where
  "tc_good E s \<longleftrightarrow> tcinv E s \<and> 0 < tc_pos s \<and> tc_ctrls s \<noteq> []"

lemma good_stk:
  assumes "reader_ok (ve_rd E)" "tc_good E s" "stk E s s'"
  shows "tc_good E s'" and "tc_nctrls s' = tc_nctrls s" and "tc_pos s \<le> tc_pos s'"
  using tc_inv_stk [of E "{}" "length (tc_st s)" s s'] assms unfolding tc_good_def by auto

lemma inv_push_mid:
  assumes r: "reader_ok (ve_rd E)" and g: "tc_good E s" and st: "stk E (snd (st_push s)) s1"
  shows "tc_inv E {length (tc_st s)} (length (tc_st s)) s1" and "length (tc_st s1) = Suc (length (tc_st s))"
    and "0 < tc_pos s1" and "tc_nctrls s1 = tc_nctrls s" and "tc_pos s \<le> tc_pos s1"
proof -
  let ?n = "length (tc_st s)"
  have i: "tc_inv E {?n} ?n (snd (st_push s))"
    using g inv_st_push [of E "{}" ?n s] by (simp add: tc_good_def)
  have ne: "tc_ctrls (snd (st_push s)) \<noteq> []" using g by (simp add: tc_good_def)
  note k = tc_inv_stk [OF i st ne r]
  show "tc_inv E {?n} ?n s1" by (rule k(1))
  show "length (tc_st s1) = Suc ?n" "tc_nctrls s1 = tc_nctrls s" using k(4,5) by simp_all
  show "tc_pos s \<le> tc_pos s1" "0 < tc_pos s1" using k(2) g by (simp_all add: tc_good_def)
qed

lemma good_branch:
  assumes r: "reader_ok (ve_rd E)" and g: "tc_good E s" and st: "stk E (snd (st_push s)) s1"
    and k: "k < tc_nctrls s"
  shows "tc_good E (tc_fill_entry k (length (tc_st s)) (tc_pos s1) h m s1)"
    and "tc_nctrls (tc_fill_entry k (length (tc_st s)) (tc_pos s1) h m s1) = tc_nctrls s"
    and "tc_pos s \<le> tc_pos (tc_fill_entry k (length (tc_st s)) (tc_pos s1) h m s1)"
proof -
  note m = inv_push_mid [OF r g st]
  have "tcinv E (tc_fill_entry k (length (tc_st s)) (tc_pos s1) h m s1)"
    using m k by (intro inv_fill_entry) simp_all
  moreover have "tc_ctrls (tc_fill_entry k (length (tc_st s)) (tc_pos s1) h m s1) \<noteq> []"
    using m(4) k fill_simps(3) by (metis length_0_conv not_less_zero)
  ultimately show "tc_good E (tc_fill_entry k (length (tc_st s)) (tc_pos s1) h m s1)"
    using m(3) by (simp add: tc_good_def)
  show "tc_nctrls (tc_fill_entry k (length (tc_st s)) (tc_pos s1) h m s1) = tc_nctrls s"
    "tc_pos s \<le> tc_pos (tc_fill_entry k (length (tc_st s)) (tc_pos s1) h m s1)"
    using m by simp_all
qed

end
