(* ===== verification/TcControlInv.thy ===== *)
theory TcControlInv
  imports TcInv
begin

text \<open>
  Every control handler preserves the validator's invariant: branches, blocks, \<open>else\<close>,
  \<open>end\<close>, \<open>try_table\<close>, and the two local stores.
\<close>

text \<open>What a handler guarantees: the invariant, and a cursor that does not move back.\<close>

definition tc_next :: "venv \<Rightarrow> tcst \<Rightarrow> tcst \<Rightarrow> bool" where
  "tc_next E s s' \<longleftrightarrow> tcinv E s' \<and> tc_pos s \<le> tc_pos s'"

lemma next_good: "tc_good E s' \<Longrightarrow> tc_pos s \<le> tc_pos s' \<Longrightarrow> tc_next E s s'"
  by (simp add: tc_next_def tc_good_def)

lemma next_trans: "tc_pos r \<le> tc_pos s \<Longrightarrow> tc_next E s s' \<Longrightarrow> tc_next E r s'"
  by (simp add: tc_next_def)

lemma next_stk: "reader_ok (ve_rd E) \<Longrightarrow> tc_good E s \<Longrightarrow> stk E s s' \<Longrightarrow> tc_next E s s'"
  using good_stk [of E s s'] by (simp add: next_good)

section \<open>Branches\<close>

text \<open>
  The shape shared by all branches: stack steps, a new entry, stack steps, the entry
  filled and aimed, stack steps.
\<close>

lemma next_branch:
  assumes r: "reader_ok (ve_rd E)" and g: "tc_good E s" and st: "stk E (snd (st_push s)) s1"
    and k: "k < tc_nctrls s" and s2: "stk E (tc_fill_entry k (length (tc_st s)) (tc_pos s1) h m s1) s2"
  shows "tc_next E s s2"
proof -
  note b = good_branch [OF r g st k, of h m]
  show ?thesis
    using good_stk [OF r b(1) s2] b(3) by (intro next_good) simp_all
qed

lemma next_br:
  assumes r: "reader_ok (ve_rd E)" and g: "tc_good E s"
  shows "tc_next E s (op_br E op s)"
proof -
  define s0 where "s0 = snd (rd_u32 E s)"
  define k where "k = unat (fst (rd_u32 E s))"
  note g0 = good_stk [OF r g stk_rd_u32 [OF stk_refl], folded s0_def]
  show ?thesis
  proof (cases "k < tc_nctrls s0")
    case False
    then have "op_br E op s = tc_reject JAV_E_UNKNOWN_LABEL s0"
      by (simp add: op_br_def Let_def split_beta s0_def k_def)
    then show ?thesis
      using next_trans [OF g0(3) next_stk [OF r g0(1)], of "op_br E op s"] by (simp add: stk_rules)
  next
    case True
    obtain ts tx n where lab: "tc_label (tc_ctrls s0 ! k) = (ts, tx, n)" by (rule prod_cases3)
    define s1 where "s1 = (if op = 0x0d then tc_pop_e (ve_lat E) WVT_I32 (snd (st_push s0)) else snd (st_push s0))"
    have st: "stk E (snd (st_push s0)) s1" by (simp add: s1_def stk_rules)
    have "op_br E op s = (let s = tc_pop_vals (ve_lat E) ts tx n
        (tc_fill_entry k (length (tc_st s0)) (tc_pos s1) (tc_nvals s1) n s1)
        in if op = 0x0d then tc_push_vals ts tx n s else tc_unreachable s)"
      using True lab by (simp add: op_br_def Let_def split_beta s0_def k_def s1_def)
    moreover have "tc_next E s s2"
      if "stk E (tc_fill_entry k (length (tc_st s0)) (tc_pos s1) (tc_nvals s1) n s1) s2" for s2
      using next_trans [OF g0(3) next_branch [OF r g0(1) st True that]] .
    ultimately show ?thesis by (simp add: stk_rules Let_def)
  qed
qed

lemma next_br_on_null:
  assumes r: "reader_ok (ve_rd E)" and g: "tc_good E s"
  shows "tc_next E s (op_br_on_null E s)"
proof -
  define s0 where "s0 = snd (rd_u32 E s)"
  define k where "k = unat (fst (rd_u32 E s))"
  note g0 = good_stk [OF r g stk_rd_u32 [OF stk_refl], folded s0_def]
  define s1 where "s1 = snd (tc_pop_ref s0)"
  note g1 = good_stk [OF r g0(1) stk_pop_ref [OF stk_refl], folded s1_def]
  show ?thesis
  proof (cases "k < tc_nctrls s0")
    case False
    then have "op_br_on_null E s = tc_reject JAV_E_UNKNOWN_LABEL s0"
      by (simp add: op_br_on_null_def Let_def split_beta s0_def k_def)
    then show ?thesis
      using next_trans [OF g0(3) next_stk [OF r g0(1)], of "op_br_on_null E s"] by (simp add: stk_rules)
  next
    case True
    then have k: "k < tc_nctrls s1" using g1(2) by simp
    obtain ts tx n where lab: "tc_label (tc_ctrls s0 ! k) = (ts, tx, n)" by (rule prod_cases3)
    define s2 where "s2 = snd (st_push s1)"
    have st: "stk E (snd (st_push s1)) s2" by (simp add: s2_def stk_rules)
    define a where "a = fst (tc_pop_ref s0)"
    have "op_br_on_null E s = tc_push_ref False (if vt_is_bot a then HT_BOT else vt_ht a)
        (tc_push_vals ts tx n (tc_pop_vals (ve_lat E) ts tx n
          (tc_fill_entry k (length (tc_st s1)) (tc_pos s2) (tc_nvals s2) n s2)))"
      using True lab by (simp add: op_br_on_null_def Let_def split_beta s0_def k_def s1_def s2_def a_def)
    moreover have "tc_next E s s3"
      if "stk E (tc_fill_entry k (length (tc_st s1)) (tc_pos s2) (tc_nvals s2) n s2) s3" for s3
      using next_trans [OF order_trans [OF g0(3) g1(3)] next_branch [OF r g1(1) st k that]] .
    ultimately show ?thesis by (simp add: stk_rules)
  qed
qed

lemma next_br_on_non_null:
  assumes r: "reader_ok (ve_rd E)" and g: "tc_good E s"
  shows "tc_next E s (op_br_on_non_null E s)"
proof -
  define s0 where "s0 = snd (rd_u32 E s)"
  define k where "k = unat (fst (rd_u32 E s))"
  note g0 = good_stk [OF r g stk_rd_u32 [OF stk_refl], folded s0_def]
  have bad: "tc_next E s (tc_fail s0)" "tc_next E s (tc_reject e s0)" for e
    using next_trans [OF g0(3) next_stk [OF r g0(1)]] by (simp_all add: stk_rules)
  show ?thesis
  proof (cases "k < tc_nctrls s0")
    case False
    then show ?thesis using bad by (simp add: op_br_on_non_null_def Let_def split_beta s0_def k_def)
  next
    case True
    obtain ts tx n where lab: "tc_label (tc_ctrls s0 ! k) = (ts, tx, n)" by (rule prod_cases3)
    define s1 where "s1 = snd (st_push s0)"
    have st: "stk E (snd (st_push s0)) s1" by (simp add: s1_def stk_rules)
    have "op_br_on_non_null E s =
        (if n < 1 then tc_fail s0 else if \<not> vt_is_ref (typ_at ts tx (n - 1)) then tc_fail s0
         else tc_push_vals ts tx (n - 1) (tc_pop_vals (ve_lat E) ts tx (n - 1)
           (tc_pop_ref_ht (ve_lat E) True (vt_ht (typ_at ts tx (n - 1)))
             (tc_fill_entry k (length (tc_st s0)) (tc_pos s1) (tc_nvals s1) n s1))))"
      using True lab by (simp add: op_br_on_non_null_def Let_def split_beta s0_def k_def s1_def)
    moreover have "tc_next E s s2"
      if "stk E (tc_fill_entry k (length (tc_st s0)) (tc_pos s1) (tc_nvals s1) n s1) s2" for s2
      using next_trans [OF g0(3) next_branch [OF r g0(1) st True that]] .
    ultimately show ?thesis using bad by (simp add: stk_rules)
  qed
qed

lemma next_br_on_cast:
  assumes r: "reader_ok (ve_rd E)" and g: "tc_good E s"
  shows "tc_next E s (op_br_on_cast E sub s)"
proof -
  define sa where "sa = snd (rd_byte E s)"
  define sb where "sb = snd (rd_u32 E sa)"
  define sc where "sc = snd (snd (rd_s33 E sb))"
  define s0 where "s0 = (if fst (rd_s33 E sb) then snd (snd (rd_s33 E sc)) else sc)"
  define k where "k = unat (fst (rd_u32 E sa))"
  have "stk E s s0" unfolding s0_def sc_def sb_def sa_def by (simp add: stk_rules)
  note g0 = good_stk [OF r g this]
  have bad: "tc_next E s (tc_fail s0)" "tc_next E s (tc_reject e s0)" for e
    using next_trans [OF g0(3) next_stk [OF r g0(1)]] by (simp_all add: stk_rules)
  show ?thesis
  proof (cases "k < tc_nctrls s0 \<and> fst (rd_s33 E sb)")
    case False
    then show ?thesis using bad unfolding s0_def sc_def sb_def sa_def k_def
      by (simp add: op_br_on_cast_def Let_def split_beta split: if_splits)
  next
    case True
    obtain ts tx n where lab: "tc_label (tc_ctrls s0 ! k) = (ts, tx, n)" by (rule prod_cases3)
    define s1 where "s1 = snd (st_push s0)"
    have st: "stk E (snd (st_push s0)) s1" by (simp add: s1_def stk_rules)
    have main: "tc_next E s s2" if "stk E (tc_fill_entry k (length (tc_st s0)) (tc_pos s1) (tc_nvals s1) n s1) s2" for s2
      using next_trans [OF g0(3) next_branch [OF r g0(1) st _ that]] True by simp
    show ?thesis
      using True lab bad main unfolding s0_def sc_def sb_def sa_def k_def s1_def
      by (simp add: op_br_on_cast_def Let_def split_beta stk_rules)
  qed
qed

section \<open>br\_table\<close>

lemma read_labels_stk_res:
  "read_labels E count i s = Some res \<Longrightarrow> stk E r s \<longrightarrow> stk E r (snd res)"
proof (rule read_labels.raw_induct [where P = "\<lambda>E count i s res. stk E r s \<longrightarrow> stk E r (snd res)"])
  fix f E count i s res
  assume IH: "\<And>E count i s res. f E count i s = Some res \<Longrightarrow> stk E r s \<longrightarrow> stk E r (snd res)"
    and eq: "(if i \<le> count then
        let (l, s) = rd_label E i s in Option.bind (f E count (i + 1) s) (\<lambda>(ls, s). Some (l # ls, s))
      else Some ([], s)) = Some res"
  show "stk E r s \<longrightarrow> stk E r (snd res)"
  proof (cases "i \<le> count")
    case True
    let ?s = "snd (rd_label E i s)"
    obtain ls0 s0 where "f E count (i + 1) ?s = Some (ls0, s0)" and "snd res = s0"
      using eq True by (auto simp: Let_def split_beta bind_eq_Some_conv)
    then show ?thesis using IH [of E count "i + 1" ?s "(ls0, s0)"] by (simp add: stk_rules)
  qed (use eq in auto)
qed

lemma read_labels_stk:
  "read_labels E count i s = Some (ls, s') \<Longrightarrow> stk E r s \<Longrightarrow> stk E r s'"
  using read_labels_stk_res [of E count i s "(ls, s')" r] by simp

lemma next_br_table_loop:
  assumes r: "reader_ok (ve_rd E)"
  shows "tc_good E s \<Longrightarrow> p = tc_pos s \<Longrightarrow>
    tc_good E (snd (br_table_loop E p ls d s)) \<and> tc_pos s \<le> tc_pos (snd (br_table_loop E p ls d s))"
proof (induction ls arbitrary: d s)
  case Nil
  then show ?case by simp
next
  case (Cons l ls)
  have bad: "tc_good E (tc_fail s)" "tc_good E (tc_reject e s)"
    "tc_pos (tc_fail s) = tc_pos s" "tc_pos (tc_reject e s) = tc_pos s" for e
    using good_stk(1) [OF r Cons.prems(1) stk_fail [OF stk_refl]]
      good_stk(1) [OF r Cons.prems(1) stk_reject [OF stk_refl]]
    by (simp_all add: tc_fail_def tc_reject_def)
  show ?case
  proof (cases "tc_ok s \<and> unat l < tc_nctrls s")
    case False
    then show ?thesis using Cons.prems bad by auto
  next
    case True
    obtain ts tx n where lab: "tc_label (tc_ctrls s ! unat l) = (ts, tx, n)" by (rule prod_cases3)
    let ?s1 = "snd (st_push s)"
    let ?s2 = "tc_fill_entry (unat l) (length (tc_st s)) p (tc_nvals ?s1) n ?s1"
    have b: "tc_good E ?s2"
      using good_branch [OF r Cons.prems(1) stk_refl, of "unat l" "tc_nvals ?s1" n] True Cons.prems(2) by simp
    have p2: "tc_pos ?s2 = tc_pos s" by simp
    note ih = Cons.IH [OF b, unfolded p2, OF Cons.prems(2)]
    show ?thesis
      using True lab bad ih Cons.prems by (simp add: Let_def split_beta split: option.split)
  qed
qed

lemma next_br_table:
  assumes r: "reader_ok (ve_rd E)" and g: "tc_good E s" and some: "op_br_table E s = Some s'"
  shows "tc_next E s s'"
proof -
  define s0 where "s0 = tc_pop_e (ve_lat E) WVT_I32 (snd (rd_u32 E s))"
  obtain ls s1 where rl: "read_labels E (fst (rd_u32 E s)) 0 s0 = Some (ls, s1)"
    and s': "s' = (let (d, s) = br_table_loop E (tc_pos s1) ls None s1;
       s = (if tc_ok s then (case d of Some (ts, tx, n) \<Rightarrow> tc_pop_vals (ve_lat E) ts tx n s | None \<Rightarrow> s) else s)
       in tc_unreachable s)"
    using some by (auto simp: op_br_table_def Let_def split_beta s0_def split: option.splits)
  have "stk E s s1" using read_labels_stk [OF rl] by (simp add: s0_def stk_rules)
  note g1 = good_stk [OF r g this]
  define s2 where "s2 = snd (br_table_loop E (tc_pos s1) ls None s1)"
  note g2 = next_br_table_loop [OF r g1(1) refl, of ls None, folded s2_def]
  have "stk E s2 s'"
    unfolding s' s2_def by (simp add: Let_def split_beta stk_rules split: option.split)
  then show ?thesis using next_trans [OF _ next_stk [OF r]] g2 g1(3) by (meson order_trans)
qed

section \<open>Locals\<close>

lemma inv_locals_set:
  assumes "inv_locals seed li is" "i < length seed" "\<not> li ! i"
  shows "inv_locals seed (li[i := True]) (is @ [i])"
  using assms by (auto simp: inv_locals_def nth_list_update)

lemma length_locals_seed [simp]: "length (locals_seed cx) = cx_nlocals cx"
  by (simp add: locals_seed_def)

lemma good_local_set:
  assumes "tc_good E s" "i < cx_nlocals (ve_cx E)" "\<not> tc_locals_init s ! i"
  shows "tc_good E (s\<lparr>tc_locals_init := (tc_locals_init s)[i := True], tc_inits := tc_inits s @ [i]\<rparr>)"
proof -
  have "inv_locals (locals_seed (ve_cx E)) ((tc_locals_init s)[i := True]) (tc_inits s @ [i])"
    using assms by (intro inv_locals_set) (simp_all add: tc_good_def tc_inv_def)
  then show ?thesis
    using assms(1) by (auto simp: tc_good_def tc_inv_def inv_frames_def inv_entries_def heights_ok_def)
qed

lemma next_local:
  assumes r: "reader_ok (ve_rd E)" and g: "tc_good E s"
  shows "tc_next E s (op_local E op s)"
proof -
  define s0 where "s0 = snd (rd_u32 E s)"
  define i where "i = unat (fst (rd_u32 E s))"
  note g0 = good_stk [OF r g stk_rd_u32 [OF stk_refl], folded s0_def]
  have stack: "tc_next E s s'" if "stk E s0 s'" for s'
    using next_trans [OF g0(3) next_stk [OF r g0(1) that]] .
  show ?thesis
  proof (cases "i < cx_nlocals (ve_cx E) \<and> op \<noteq> 0x20")
    case False
    then show ?thesis
      using stack by (auto simp: op_local_def Let_def split_beta s0_def i_def stk_rules)
  next
    case True
    let ?t = "cx_locals (ve_cx E) ! i" and ?x = "tidx_at (cx_local_tidx (ve_cx E)) i"
    define s1 where "s1 = tc_pop1 (ve_lat E) ?t ?x s0"
    have "stk E s0 s1" by (simp add: s1_def stk_rules)
    note g1 = good_stk [OF r g0(1) this]
    define s2 where "s2 = (if \<not> tc_locals_init s1 ! i
      then s1\<lparr>tc_locals_init := (tc_locals_init s1)[i := True], tc_inits := tc_inits s1 @ [i]\<rparr> else s1)"
    have g2: "tc_good E s2" "tc_pos s2 = tc_pos s1"
      using g1(1) good_local_set [OF g1(1), of i] True by (simp_all add: s2_def)
    have "op_local E op s = (if op = 0x22 then tc_push1 ?t ?x s2 else s2)"
      using True by (simp add: op_local_def Let_def split_beta s0_def i_def s1_def s2_def)
    moreover have "stk E s2 (if op = 0x22 then tc_push1 ?t ?x s2 else s2)" by (simp add: stk_rules)
    moreover have "tc_pos s \<le> tc_pos s2" using g0(3) g1(3) g2(2) by simp
    ultimately show ?thesis using next_trans [OF _ next_stk [OF r g2(1)]] by metis
  qed
qed

text \<open>Rolling back: the locals set above the height are unset again.\<close>

lemma fold_unset:
  "length (fold (\<lambda>i l. l[i := False]) js li) = length li"
  "i < length li \<Longrightarrow> fold (\<lambda>i l. l[i := False]) js li ! i \<longleftrightarrow> li ! i \<and> i \<notin> set js"
proof (induction js arbitrary: li)
  case (Cons j js)
  { case 1 show ?case using Cons(1) by simp }
  { case 2 then show ?case using Cons(2) [of "li[j := False]"] by (cases "i = j") auto }
qed simp_all

lemma inv_locals_reset:
  assumes "inv_locals seed li is"
  shows "inv_locals seed (fold (\<lambda>i l. l[i := False]) (rev (drop h is)) li) (take h is)"
proof -
  have d: "set (take h is) \<inter> set (drop h is) = {}"
    using assms by (intro set_take_disj_set_drop_if_distinct) (simp_all add: inv_locals_def)
  have u: "set is = set (take h is) \<union> set (drop h is)"
    by (metis append_take_drop_id set_append)
  show ?thesis
    using assms d u by (auto simp: inv_locals_def fold_unset dest: in_set_takeD in_set_dropD)
qed

section \<open>Opening a block\<close>

lemma push_vt_simps [simp]:
  "tc_ctrls (tc_push_vt t s) = tc_ctrls s" "tc_pos (tc_push_vt t s) = tc_pos s"
  "tc_st (tc_push_vt t s) = tc_st s" "tc_tip (tc_push_vt t s) = tc_tip s"
  by (simp_all add: tc_push_vt_def)

lemma fold_push_vt_simps:
  "tc_ctrls (fold (\<lambda>i. tc_push_vt (t i)) is s) = tc_ctrls s"
  "tc_pos (fold (\<lambda>i. tc_push_vt (t i)) is s) = tc_pos s"
  "tc_st (fold (\<lambda>i. tc_push_vt (t i)) is s) = tc_st s"
  by (induction "is" arbitrary: s) simp_all

lemma push_vals_simps [simp]:
  "tc_ctrls (tc_push_vals ts tx n s) = tc_ctrls s" "tc_pos (tc_push_vals ts tx n s) = tc_pos s"
  "tc_st (tc_push_vals ts tx n s) = tc_st s"
  by (simp_all add: tc_push_vals_def fold_push_vt_simps)

lemma pop_vt_ctrls [simp]: "tc_ctrls (tc_pop_vt lat e s) = tc_ctrls s"
  by (simp add: tc_pop_vt_def tc_pop_def Let_def split_beta)

lemma pop_vals_ctrls [simp]: "tc_ctrls (tc_pop_vals lat ts tx n s) = tc_ctrls s"
proof -
  have "tc_ctrls (fold (\<lambda>i. tc_pop_vt lat (t i)) is s) = tc_ctrls s" for t "is" s
    by (induction "is" arbitrary: s) simp_all
  then show ?thesis by (simp add: tc_pop_vals_def)
qed

lemma inv_push_vt: "tc_inv E X n s \<Longrightarrow> tc_inv E X n (tc_push_vt t s)"
  by (auto simp: tc_inv_def tc_push_vt_def heights_ok_def inv_frames_def inv_entries_def)

lemma inv_push_vals: "tc_inv E X n s \<Longrightarrow> tc_inv E X n (tc_push_vals ts tx m s)"
proof -
  have "tc_inv E X n s \<Longrightarrow> tc_inv E X n (fold (\<lambda>i. tc_push_vt (t i)) is s)" for t "is"
    by (induction "is" arbitrary: s) (simp_all add: inv_push_vt)
  then show "tc_inv E X n s \<Longrightarrow> tc_inv E X n (tc_push_vals ts tx m s)"
    by (simp add: tc_push_vals_def)
qed

lemma upd_top_push_vt:
  "tc_ctrls s \<noteq> [] \<Longrightarrow> upd_top g (tc_push_vt t s) = tc_push_vt t (upd_top g s)"
  by (cases s) (simp add: tc_push_vt_def upd_top_def tc_top_def)

lemma upd_top_push_vals:
  assumes "tc_ctrls s \<noteq> []"
  shows "upd_top g (tc_push_vals ts tx n s) = tc_push_vals ts tx n (upd_top g s)"
proof -
  have "tc_ctrls s \<noteq> [] \<Longrightarrow> upd_top g (fold (\<lambda>i. tc_push_vt (t i)) is s) =
      fold (\<lambda>i. tc_push_vt (t i)) is (upd_top g s)" for t "is" s
    by (induction "is" arbitrary: s) (simp_all add: upd_top_push_vt)
  then show ?thesis using assms by (simp add: tc_push_vals_def)
qed

lemma inv_push_frame:
  assumes inv: "tc_inv E X n s" and n: "n = length (tc_st s)"
    and f: "frame_ok n (length (tc_trytab s)) (tc_pos s) f" "cf_val_height f = tc_nvals s"
      "cf_init_height f = length (tc_inits s)" "X \<subseteq> frame_pending f"
  shows "tcinv E (s\<lparr>tc_ctrls := f # tc_ctrls s\<rparr>)"
  using assms by (auto simp: tc_inv_def heights_ok_def inv_frames_def inv_entries_def pending_def)

text \<open>The frame that \<open>tc_push_block\<close> pushes, before its operands.\<close>

definition block_frame :: "u8 \<Rightarrow> blocktype \<Rightarrow> tcst \<Rightarrow> cframe" where
  "block_frame op b s =
     \<lparr>cf_opcode = op, cf_start = bt_start b, cf_start_tidx = bt_start_tidx b,
      cf_nstart = bt_nstart b mod 2 ^ 16, cf_end = bt_end b, cf_end_tidx = bt_end_tidx b,
      cf_nend = bt_nend b mod 2 ^ 16, cf_val_height = tc_nvals s,
      cf_init_height = length (tc_inits s), cf_unreachable = False, cf_loop_start = 0,
      cf_fixups = [], cf_else_e = None, cf_try_idx = None\<rparr>"

lemma upd_top_push_block:
  "upd_top g (tc_push_block op b s) =
     tc_push_vals (bt_start b) (bt_start_tidx b) (bt_nstart b)
       (s\<lparr>tc_ctrls := g (block_frame op b s) # tc_ctrls s\<rparr>)"
  unfolding tc_push_block_def tc_push_ctrl_def Let_def
  by (subst upd_top_push_vals) (simp_all add: upd_top_def tc_top_def block_frame_def)

lemma next_push_block:
  assumes inv: "tc_inv E X n s" and n: "n = length (tc_st s)"
    and f: "frame_ok n (length (tc_trytab s)) (tc_pos s) (g (block_frame op b s))"
      "X \<subseteq> frame_pending (g (block_frame op b s))"
    and g: "\<And>f. cf_val_height (g f) = cf_val_height f" "\<And>f. cf_init_height (g f) = cf_init_height f"
  shows "tc_next E s (upd_top g (tc_push_block op b s))"
proof -
  have "tcinv E (s\<lparr>tc_ctrls := g (block_frame op b s) # tc_ctrls s\<rparr>)"
    using inv n f g by (intro inv_push_frame) (simp_all add: block_frame_def)
  then show ?thesis
    unfolding tc_next_def upd_top_push_block by (auto intro: inv_push_vals)
qed

lemma stk_blocktype [stk_rules]: "stk E r s \<Longrightarrow> stk E r (snd (tc_blocktype bt cx s))"
  by (simp add: tc_blocktype_def split_beta stk_rules split: option.split)

lemma stk_read_blocktype [stk_rules]: "stk E r s \<Longrightarrow> stk E r (snd (tc_read_blocktype E s))"
  by (simp add: tc_read_blocktype_def Let_def split_beta stk_rules)

lemma next_block:
  assumes r: "reader_ok (ve_rd E)" and g: "tc_good E s" and op: "op = 0x02 \<or> op = 0x03"
  shows "tc_next E s (op_block E op s)"
proof (cases "MAX_DEPTH \<le> tc_nctrls s")
  case True
  then show ?thesis using next_stk [OF r g] by (simp add: op_block_def stk_rules)
next
  case False
  define b where "b = fst (tc_read_blocktype E s)"
  define s1 where "s1 = tc_pop_vals (ve_lat E) (bt_start b) (bt_start_tidx b) (bt_nstart b)
    (snd (tc_read_blocktype E s))"
  have "stk E s s1" by (simp add: s1_def stk_rules)
  note g1 = good_stk [OF r g this]
  have pos: "tc_pos (tc_push_block op b s1) = tc_pos s1"
    by (simp add: tc_push_block_def tc_push_ctrl_def Let_def)
  have "op_block E op s = upd_top (\<lambda>f. f\<lparr>cf_loop_start := tc_pos s1\<rparr>) (tc_push_block op b s1)"
    using False by (simp add: op_block_def Let_def split_beta b_def [symmetric] s1_def [symmetric] pos)
  moreover have "tc_next E s1 (upd_top (\<lambda>f. f\<lparr>cf_loop_start := tc_pos s1\<rparr>) (tc_push_block op b s1))"
    using g1(1) op by (intro next_push_block) (auto simp: tc_good_def frame_ok_def block_frame_def)
  ultimately show ?thesis using next_trans [OF g1(3)] by simp
qed

lemma next_if:
  assumes r: "reader_ok (ve_rd E)" and g: "tc_good E s"
  shows "tc_next E s (op_if E s)"
proof -
  define b where "b = fst (tc_read_blocktype E s)"
  define s1 where "s1 = tc_pop_vals (ve_lat E) (bt_start b) (bt_start_tidx b) (bt_nstart b)
    (tc_pop_e (ve_lat E) WVT_I32 (snd (tc_read_blocktype E s)))"
  define e where "e = length (tc_st s1)"
  have "stk E s s1" by (simp add: s1_def stk_rules)
  note g1 = good_stk [OF r g this]
  note m = inv_push_mid [OF r g1(1) stk_refl]
  define s2 where "s2 = set_vals_pop e 0 0 (set_bpos e (tc_pos (snd (st_push s1))) (snd (st_push s1)))"
  have s2: "tc_inv E {e} (Suc e) s2" "length (tc_st s2) = Suc e" "tc_pos s2 = tc_pos s1"
    using inv_set_vals_pop [OF inv_set_bpos [OF m(1,2,3)]] m(2) by (simp_all add: s2_def e_def)
  have "op_if E s = upd_top (\<lambda>f. f\<lparr>cf_else_e := Some e\<rparr>) (tc_push_block 0x04 b s2)"
    by (simp add: op_if_def Let_def split_beta b_def [symmetric] s1_def [symmetric] s2_def e_def)
  moreover have "tc_next E s2 (upd_top (\<lambda>f. f\<lparr>cf_else_e := Some e\<rparr>) (tc_push_block 0x04 b s2))"
    using s2 by (intro next_push_block [of E "{e}" "Suc e"]) (auto simp: frame_ok_def block_frame_def frame_pending_def)
  ultimately show ?thesis using next_trans [of s s2] g1(3) s2(3) by simp
qed

section \<open>Leaving an arm\<close>

lemma inv_reset:
  assumes inv: "tc_inv E X n s" and h: "h = cf_init_height (tc_top s)" and ne: "tc_ctrls s \<noteq> []"
  shows "tc_inv E X n (tc_reset_locals h s)"
proof -
  obtain f fs where c: "tc_ctrls s = f # fs" using ne by (cases "tc_ctrls s") auto
  then have "h \<le> length (tc_inits s)" and "\<forall>x \<in> set fs. cf_init_height x \<le> h"
    and "sorted_wrt (\<ge>) (map cf_init_height fs)"
    using inv h by (auto simp: tc_inv_def inv_frames_def tc_top_def)
  then have "inv_frames (tc_reset_locals h s)"
    using inv h c by (simp add: tc_inv_def inv_frames_def tc_reset_locals_def tc_top_def min_absorb2)
  moreover have "inv_locals (locals_seed (ve_cx E)) (tc_locals_init (tc_reset_locals h s))
      (tc_inits (tc_reset_locals h s))"
    using inv by (simp add: tc_inv_def tc_reset_locals_def inv_locals_reset)
  ultimately show ?thesis
    using inv by (simp add: tc_inv_def tc_reset_locals_def heights_ok_def inv_entries_def)
qed

lemma reset_simps [simp]:
  "tc_ctrls (tc_reset_locals h s) = tc_ctrls s" "tc_pos (tc_reset_locals h s) = tc_pos s"
  "tc_st (tc_reset_locals h s) = tc_st s" "tc_tip (tc_reset_locals h s) = tc_tip s"
  by (simp_all add: tc_reset_locals_def)

text \<open>Changing the top frame's flags; entries it no longer promises to patch go into \<open>X\<close>.\<close>

lemma inv_upd_top:
  assumes inv: "tc_inv E X n s" and ne: "tc_ctrls s \<noteq> []"
    and f: "frame_ok (length (tc_st s)) (length (tc_trytab s)) (tc_pos s) (g (tc_top s))"
      "cf_val_height (g (tc_top s)) = cf_val_height (tc_top s)"
      "cf_init_height (g (tc_top s)) = cf_init_height (tc_top s)"
      "frame_pending (tc_top s) \<subseteq> frame_pending (g (tc_top s)) \<union> X"
  shows "tc_inv E X n (upd_top g s)"
proof -
  obtain h fs where c: "tc_ctrls s = h # fs" using ne by (cases "tc_ctrls s") auto
  have u: "upd_top g s = s\<lparr>tc_ctrls := g h # fs\<rparr>" using c by (simp add: upd_top_def tc_top_def)
  have "heights_ok (upd_top g s)" "inv_frames (upd_top g s)"
    using inv f c by (auto simp: tc_inv_def heights_ok_def inv_frames_def u tc_top_def)
  moreover have "inv_entries X n (upd_top g s)"
  proof -
    have "X \<union> pending (tc_ctrls s) \<subseteq> X \<union> pending (g h # fs)"
      using f(4) c by (auto simp: pending_def tc_top_def)
    then show ?thesis using inv by (auto simp: tc_inv_def inv_entries_def u)
  qed
  ultimately show ?thesis using inv by (simp add: tc_inv_def u)
qed

lemma good_top: "tc_good E s \<Longrightarrow>
    frame_ok (length (tc_st s)) (length (tc_trytab s)) (tc_pos s) (tc_top s)"
  by (cases "tc_ctrls s") (auto simp: tc_good_def tc_inv_def inv_frames_def tc_top_def)

lemma set_tip_simps [simp]:
  "tc_ctrls (set_tip e p s) = tc_ctrls s" "tc_pos (set_tip e p s) = tc_pos s"
  "tc_st (set_tip e p s) = tc_st s" "tc_tip (set_tip e p s) = (tc_tip s)[e := p]"
  "tc_ctrls (set_eskip e k s) = tc_ctrls s" "tc_pos (set_eskip e k s) = tc_pos s"
  "tc_st (set_eskip e k s) = tc_st s" "tc_tip (set_eskip e k s) = tc_tip s"
  "tc_trytab (set_tip e p s) = tc_trytab s" "tc_trytab (set_eskip e k s) = tc_trytab s"
  by (simp_all add: set_tip_def set_eskip_def)

lemma inv_set_eskip: "tc_inv E X n s \<Longrightarrow> k \<in> {0, 1} \<Longrightarrow> tc_inv E X n (set_eskip e k s)"
  using set_update_subset_insert [of "tc_eskip s" e k]
  by (auto simp: tc_inv_def set_eskip_def heights_ok_def inv_frames_def inv_entries_def)

text \<open>Setting a target never hurts: the entry may or may not still be pending.\<close>

lemma inv_set_tip':
  "tc_inv E X n s \<Longrightarrow> 0 < p \<Longrightarrow> p \<le> tc_pos s \<Longrightarrow> e < length (tc_st s) \<Longrightarrow> tc_inv E X n (set_tip e p s)"
  by (rule inv_set_tip, rule inv_X_mono) auto

lemma upd_top_simps [simp]:
  "tc_st (upd_top g s) = tc_st s" "tc_pos (upd_top g s) = tc_pos s" "tc_tip (upd_top g s) = tc_tip s"
  "tc_trytab (upd_top g s) = tc_trytab s" "tc_inits (upd_top g s) = tc_inits s"
  "tc_nctrls (upd_top g s) = tc_nctrls s" "tc_ctrls (upd_top g s) \<noteq> [] \<longleftrightarrow> tc_ctrls s \<noteq> []"
  by (simp_all add: upd_top_def)

lemma upd_top_top: "tc_ctrls s \<noteq> [] \<Longrightarrow> tc_top (upd_top g s) = g (tc_top s)"
  by (cases "tc_ctrls s") (simp_all add: upd_top_def tc_top_def)

lemma reset_top [simp]: "tc_top (tc_reset_locals h s) = tc_top s" "tc_trytab (tc_reset_locals h s) = tc_trytab s"
  by (simp_all add: tc_top_def tc_reset_locals_def)

lemma pending_top: "tc_ctrls s \<noteq> [] \<Longrightarrow> frame_pending (tc_top s) \<subseteq> pending (tc_ctrls s)"
  by (cases "tc_ctrls s") (auto simp: pending_def tc_top_def)

text \<open>The frame of an \<open>if\<close> turned into the frame of its \<open>else\<close> arm.\<close>

lemma inv_else_switch:
  assumes inv: "tc_inv E {e2} n s" and n: "n = length (tc_st s)" and ne: "tc_ctrls s \<noteq> []"
    and top: "cf_opcode (tc_top s) = 0x04" "cf_else_e (tc_top s) = Some e1"
    and e1: "0 < tc_tip s ! e1" and e2: "e2 < n"
  shows "tc_inv E {} n (upd_top (\<lambda>f. f\<lparr>cf_else_e := None, cf_opcode := 0x05, cf_unreachable := False\<rparr>)
     (tc_reset_locals (cf_init_height (tc_top s)) (upd_top (\<lambda>f. f\<lparr>cf_fixups := cf_fixups f @ [e2]\<rparr>) s)))"
    (is "tc_inv E {} n (upd_top ?g (tc_reset_locals ?h (upd_top ?f s)))")
proof -
  let ?s1 = "upd_top ?f s"
  let ?s2 = "tc_reset_locals ?h ?s1"
  have fo: "frame_ok n (length (tc_trytab s)) (tc_pos s) (tc_top s)"
    using inv n ne by (cases "tc_ctrls s") (auto simp: tc_inv_def inv_frames_def tc_top_def)
  have i1: "tc_inv E {e1, e2} n ?s1"
    using fo n e2 top by (intro inv_upd_top inv_X_mono [OF inv] ne) (auto simp: frame_ok_def frame_pending_def)
  have i2: "tc_inv E {e1, e2} n ?s2"
    using i1 ne by (intro inv_reset) (simp_all add: upd_top_top)
  have i3: "tc_inv E {e1, e2} n (upd_top ?g ?s2)"
    using fo n e2 top ne
    by (intro inv_upd_top [OF i2]) (auto simp: upd_top_top frame_ok_def frame_pending_def)
  have "e2 \<in> frame_pending (tc_top (upd_top ?g ?s2))"
    using ne by (simp add: upd_top_top frame_pending_def)
  then have "e2 \<in> pending (tc_ctrls (upd_top ?g ?s2))"
    using pending_top [of "upd_top ?g ?s2"] ne by auto
  with i3 e1 show ?thesis by (auto simp: tc_inv_def inv_entries_def)
qed

lemma next_else:
  assumes r: "reader_ok (ve_rd E)" and g: "tc_good E s"
  shows "tc_next E s (op_else E s)"
proof -
  define cc where "cc = tc_top s"
  define s1 where "s1 = tc_pop_vals (ve_lat E) (cf_end cc) (cf_end_tidx cc) (cf_nend cc) s"
  have st1: "stk E s s1" by (simp add: s1_def stk_rules)
  note g1 = good_stk [OF r g st1]
  have c1: "tc_top s1 = cc" by (simp add: s1_def tc_top_def cc_def)
  have bad: "tc_next E s (tc_fail s)" "tc_next E s (tc_fail s1)"
    using next_stk [OF r g] next_trans [OF g1(3) next_stk [OF r g1(1)]] by (simp_all add: stk_rules)
  show ?thesis
  proof (cases "cf_opcode cc = 0x04 \<and> tc_nvals s1 = cf_val_height cc")
    case False
    then show ?thesis using bad by (auto simp: op_else_def Let_def cc_def [symmetric] s1_def [symmetric])
  next
    case True
    then obtain e1 where e1: "cf_else_e cc = Some e1" "e1 < length (tc_st s1)"
      using good_top [OF g1(1)] c1 by (auto simp: frame_ok_def)
    define s2 where "s2 = set_eskip e1 1 (set_tip e1 (tc_pos s1) s1)"
    have pos: "0 < tc_pos s1" and len: "length (tc_tip s1) = length (tc_st s1)"
      using g1(1) by (simp_all add: tc_good_def tc_inv_def inv_entries_def)
    have good2: "tc_good E s2"
      using g1(1) e1(2) unfolding s2_def by (auto simp: tc_good_def intro!: inv_set_eskip inv_set_tip')
    define e2 where "e2 = length (tc_st s1)"
    define s4 where "s4 = set_vals_pop e2 (cf_nend cc) 0 (set_bpos e2 (tc_pos s1) (snd (st_push s2)))"
    have i4: "tc_inv E {e2} (Suc e2) s4"
      using inv_set_vals_pop [OF inv_set_bpos [OF inv_push_mid(1,2,3) [OF r good2 stk_refl]]]
      by (simp add: s4_def s2_def e2_def)
    have tip: "0 < tc_tip s4 ! e1"
      using e1(2) pos len by (simp add: s4_def s2_def set_vals_pop_def set_bpos_def nth_append)
    have c4: "tc_ctrls s4 = tc_ctrls s1" by (simp add: s4_def s2_def)
    then have "tc_inv E {} (Suc e2) (upd_top (\<lambda>f. f\<lparr>cf_else_e := None, cf_opcode := 0x05, cf_unreachable := False\<rparr>)
        (tc_reset_locals (cf_init_height cc) (upd_top (\<lambda>f. f\<lparr>cf_fixups := cf_fixups f @ [e2]\<rparr>) s4)))"
      (is "tc_inv E {} _ ?s7")
      using inv_else_switch [OF i4 _ _ _ _ tip] True e1 c1 g1(1)
      by (simp add: tc_top_def tc_good_def s4_def s2_def e2_def)
    then have "tcinv E (tc_push_vals (cf_start cc) (cf_start_tidx cc) (cf_nstart cc) ?s7)"
      by (simp add: inv_push_vals s4_def s2_def e2_def)
    moreover have "op_else E s = tc_push_vals (cf_start cc) (cf_start_tidx cc) (cf_nstart cc) ?s7"
      using True e1 unfolding s4_def e2_def s2_def
      by (simp add: op_else_def Let_def split_beta cc_def [symmetric] s1_def [symmetric])
    ultimately show ?thesis using g1(3) by (simp add: tc_next_def s4_def s2_def)
  qed
qed

section \<open>Leaving a block\<close>

lemma set_tips_simps [simp]:
  "tc_ctrls (set_tips es p s) = tc_ctrls s" "tc_pos (set_tips es p s) = tc_pos s"
  "tc_st (set_tips es p s) = tc_st s" "length (tc_tip (set_tips es p s)) = length (tc_tip s)"
  by (induction es arbitrary: s) (simp_all add: set_tips_def)

lemma set_tips_tip:
  "i < length (tc_tip s) \<Longrightarrow> tc_tip (set_tips es p s) ! i = (if i \<in> set es then p else tc_tip s ! i)"
proof (induction es arbitrary: s)
  case (Cons e es)
  then show ?case by (cases "i = e") (simp_all add: set_tips_def nth_list_update)
qed (simp add: set_tips_def)

lemma inv_set_tips:
  "tc_inv E X n s \<Longrightarrow> 0 < p \<Longrightarrow> p \<le> tc_pos s \<Longrightarrow> \<forall>e \<in> set es. e < length (tc_st s) \<Longrightarrow>
     tc_inv E X n (set_tips es p s)"
  by (induction es arbitrary: s) (simp_all add: set_tips_def inv_set_tip')

lemma inv_pop_frame:
  assumes inv: "tc_inv E {} n s" and c: "tc_ctrls s = f # fs"
    and aimed: "\<And>e. e \<in> frame_pending f \<Longrightarrow> e < length (tc_st s) \<Longrightarrow> tc_tip s ! e \<noteq> 0"
  shows "tc_inv E {} n (s\<lparr>tc_ctrls := fs\<rparr>)"
proof -
  have "inv_entries {} n (s\<lparr>tc_ctrls := fs\<rparr>)"
    using inv c aimed unfolding tc_inv_def inv_entries_def
    by (fastforce simp: pending_def)
  then show ?thesis
    using inv c by (simp add: tc_inv_def heights_ok_def inv_frames_def)
qed

text \<open>The frame's own entries all aimed at the cursor, then the frame dropped.\<close>

lemma inv_close_frame:
  assumes inv: "tc_inv E {} n s" and ne: "tc_ctrls s \<noteq> []" and pos: "0 < tc_pos s"
    and fix': "set_option (cf_else_e (tc_top s)) \<subseteq> {e. 0 < tc_tip s ! e}"
  shows "tc_inv E {} n (tc_reset_locals (cf_init_height (tc_top s)) (set_tips (cf_fixups (tc_top s)) (tc_pos s) s)
      \<lparr>tc_ctrls := tl (tc_ctrls s)\<rparr>)"
proof -
  let ?f = "tc_top s"
  let ?s1 = "set_tips (cf_fixups ?f) (tc_pos s) s"
  let ?s2 = "tc_reset_locals (cf_init_height ?f) ?s1"
  obtain f fs where c: "tc_ctrls s = f # fs" and f: "?f = f"
    using ne by (cases "tc_ctrls s") (simp_all add: tc_top_def)
  have len: "length (tc_tip s) = length (tc_st s)" using inv by (simp add: tc_inv_def inv_entries_def)
  have "frame_ok (length (tc_st s)) (length (tc_trytab s)) (tc_pos s) ?f"
    using inv c unfolding f by (simp add: inv_frames_def tc_inv_def)
  then have fo: "\<forall>e \<in> set (cf_fixups ?f). e < length (tc_st s)" by (simp add: frame_ok_def)
  have i1: "tc_inv E {} n ?s1" using inv pos fo by (intro inv_set_tips) simp_all
  have "tc_top ?s1 = ?f" by (simp add: tc_top_def)
  then have i2: "tc_inv E {} n ?s2" using i1 ne by (intro inv_reset) simp_all
  have "0 < tc_tip ?s2 ! e" if "e \<in> frame_pending ?f" "e < length (tc_st s)" for e
    using that fix' pos len by (auto simp: set_tips_tip frame_pending_def)
  then have "tc_inv E {} n (?s2\<lparr>tc_ctrls := fs\<rparr>)"
    using c unfolding f by (intro inv_pop_frame [OF i2 [unfolded f], of f fs]) auto
  then show ?thesis using c by simp
qed

lemma inv_set_trytab:
  "tc_inv E X n s \<Longrightarrow> length (tc_trytab s) \<le> length t \<Longrightarrow> tc_inv E X n (s\<lparr>tc_trytab := t\<rparr>)"
  by (auto simp: tc_inv_def inv_frames_def inv_entries_def heights_ok_def intro: list_all_frame_mono)

lemma good_set_end_pc:
  "tc_good E s \<Longrightarrow> tc_good E (s\<lparr>tc_trytab := (tc_trytab s)[i := t]\<rparr>)"
  by (simp add: tc_good_def inv_set_trytab)

lemma next_end:
  assumes r: "reader_ok (ve_rd E)" and g: "tc_good E s"
  shows "tc_next E s (op_end E s)"
proof -
  define f where "f = tc_top s"
  define s0 where "s0 = (case cf_try_idx f of
      Some i \<Rightarrow> s\<lparr>tc_trytab := (tc_trytab s)[i := (tc_trytab s ! i)\<lparr>tr_end_pc := word_of_nat (tc_pos s)\<rparr>]\<rparr>
    | None \<Rightarrow> s)"
  have g0: "tc_good E s0" "tc_pos s0 = tc_pos s" "tc_ctrls s0 = tc_ctrls s"
    using g by (simp_all add: s0_def good_set_end_pc split: option.split)
  define s1 where "s1 = tc_pop_vals (ve_lat E) (cf_end f) (cf_end_tidx f) (cf_nend f) s0"
  define s2 where "s2 = (if tc_nvals s1 \<noteq> cf_val_height f then tc_fail s1 else s1)"
  define s2' where "s2' = (if cf_opcode f = 0x04 \<and> cf_nstart f \<noteq> cf_nend f then tc_fail s2 else s2)"
  have st: "stk E s0 s2'" by (simp add: s1_def s2_def s2'_def stk_rules)
  note g2 = good_stk [OF r g0(1) st]
  have ctrls2: "tc_ctrls s2' = tc_ctrls s" "tc_top s2' = f"
    by (simp_all add: s2'_def s2_def s1_def tc_fail_def g0 tc_top_def f_def)
  have fo: "frame_ok (length (tc_st s2')) (length (tc_trytab s2')) (tc_pos s2') f"
    using good_top [OF g2(1)] ctrls2 by simp
  define s3 where "s3 = (case cf_else_e f of Some e \<Rightarrow> set_tip e (tc_pos s2') s2' | None \<Rightarrow> s2')"
  have i3: "tcinv E s3" and p3: "tc_pos s3 = tc_pos s2'" "tc_ctrls s3 = tc_ctrls s" "tc_top s3 = f"
    and e3: "set_option (cf_else_e (tc_top s3)) \<subseteq> {e. 0 < tc_tip s3 ! e}"
  proof -
    have len: "length (tc_tip s2') = length (tc_st s2')"
      using g2(1) by (simp add: tc_good_def tc_inv_def inv_entries_def)
    show "tcinv E s3" using g2(1) fo
      by (auto simp: s3_def tc_good_def frame_ok_def inv_set_tip' split: option.split)
    show "tc_pos s3 = tc_pos s2'" "tc_ctrls s3 = tc_ctrls s" and t: "tc_top s3 = f"
      using ctrls2 by (simp_all add: s3_def tc_top_def split: option.split)
    show "set_option (cf_else_e (tc_top s3)) \<subseteq> {e. 0 < tc_tip s3 ! e}"
      using fo g2(1) len unfolding t by (auto simp: s3_def frame_ok_def tc_good_def)
  qed
  define s6 where "s6 = tc_reset_locals (cf_init_height f) (set_tips (cf_fixups f) (tc_pos s3) s3)
      \<lparr>tc_ctrls := tl (tc_ctrls s)\<rparr>"
  have "tc_inv E {} (length (tc_st s3)) s6"
    using inv_close_frame [OF i3 _ _ e3] p3 g2(1) g by (simp add: s6_def tc_good_def)
  then have "tcinv E (tc_push_vals (cf_end f) (cf_end_tidx f) (cf_nend f) s6)"
    by (simp add: inv_push_vals s6_def)
  moreover have "op_end E s = tc_push_vals (cf_end f) (cf_end_tidx f) (cf_nend f) s6"
  proof -
    have "op_end E s = (let s3 = (if cf_opcode f = 0x04 then
          (case cf_else_e f of Some e \<Rightarrow> set_tip e (tc_pos s2) (if cf_nstart f \<noteq> cf_nend f then tc_fail s2 else s2)
           | None \<Rightarrow> s2) else s2)
        in tc_push_vals (cf_end f) (cf_end_tidx f) (cf_nend f)
          (let s5 = tc_reset_locals (cf_init_height f) (set_tips (cf_fixups (tc_top s3)) (tc_pos s3) s3)
           in s5\<lparr>tc_ctrls := tl (tc_ctrls s5)\<rparr>))"
      by (simp only: op_end_def Let_def f_def [symmetric] s0_def [symmetric] s1_def [symmetric] s2_def [symmetric])
    also have "(if cf_opcode f = 0x04 then
          (case cf_else_e f of Some e \<Rightarrow> set_tip e (tc_pos s2) (if cf_nstart f \<noteq> cf_nend f then tc_fail s2 else s2)
           | None \<Rightarrow> s2) else s2) = s3"
      using fo by (auto simp: s3_def s2'_def tc_fail_def frame_ok_def)
    finally show ?thesis by (simp add: s6_def p3 Let_def)
  qed
  moreover have "tc_pos s6 = tc_pos s2'" by (simp add: s6_def p3)
  ultimately show ?thesis using g2(3) g0(2) by (simp add: tc_next_def)
qed

section \<open>try\_table\<close>

text \<open>
  While the catch clauses are read, their entries have no branch position yet: the
  invariant holds with the entries before the \<open>try_table\<close> as the positioned ones.
\<close>

definition try_mid :: "venv \<Rightarrow> nat \<Rightarrow> nat \<Rightarrow> tcst \<Rightarrow> bool" where
  "try_mid E n p s \<longleftrightarrow> tc_inv E {} n s \<and> 0 < p \<and> p \<le> tc_pos s \<and> tc_ctrls s \<noteq> []"

lemma try_mid_stk:
  "reader_ok (ve_rd E) \<Longrightarrow> try_mid E n p s \<Longrightarrow> stk E s s' \<Longrightarrow> try_mid E n p s'"
  using tc_inv_stk [of E "{}" n s s'] by (auto simp: try_mid_def)

lemma try_mid_push:
  assumes m: "try_mid E n p s" and k: "k < tc_nctrls s"
  shows "try_mid E n p (tc_target k (length (tc_st s)) (set_vals_pop (length (tc_st s)) v q (snd (st_push s))))"
proof -
  let ?e = "length (tc_st s)"
  let ?s = "set_vals_pop ?e v q (snd (st_push s))"
  have "tc_inv E {?e} n ?s"
    using m inv_st_push [of E "{}" n s] by (intro inv_set_vals_pop) (simp add: try_mid_def)
  then have "tc_inv E {} n (tc_target k ?e ?s)"
    using k by (intro inv_target) simp_all
  moreover have "tc_ctrls (tc_target k ?e ?s) \<noteq> []"
    using k target_simps(3) [of k ?e ?s] by (metis fill_entry_simps(5) length_0_conv not_less_zero st_push_simps(3))
  ultimately show ?thesis using m by (simp add: try_mid_def)
qed

text \<open>A catch clause as stack steps followed by at most one entry.\<close>

lemma try_catch_cases:
  obtains s1 where "stk E s s1" "try_catch E b s = s1"
  | s1 k v q where "stk E s s1" "k < tc_nctrls s1"
      "try_catch E b s = tc_target k (length (tc_st s1)) (set_vals_pop (length (tc_st s1)) v q (snd (st_push s1)))"
proof -
  define ck where "ck = fst (rd_byte E s)"
  define sa where "sa = snd (rd_byte E s)"
  define sb where "sb = snd (if ck = 0 \<or> ck = 1 then rd_u32 E sa else (0, sa))"
  define s0 where "s0 = snd (rd_u32 E sb)"
  define k where "k = unat (fst (rd_u32 E sb))"
  define tagx where "tagx = fst (if ck = 0 \<or> ck = 1 then rd_u32 E sa else (0, sa))"
  have st0: "stk E s s0" by (simp add: s0_def sb_def sa_def stk_rules)
  obtain ts tx n where lab: "tc_label (tc_ctrls s0 ! k) = (ts, tx, n)" by (rule prod_cases3)
  define tg where "tg = (if ck = 0 \<or> ck = 1 then Some (the (cx_tags (ve_cx E)) ! unat tagx) else None)"
  define np where "np = (case tg of Some t \<Rightarrow> ft_nparams t | None \<Rightarrow> 0)"
  define s1 where "s1 = (case tg of Some t \<Rightarrow>
      if list_all (\<lambda>i. tc_matches (ve_lat E) (typ_at (ft_params t) (ft_param_tidx t) i) (typ_at ts tx i)) [0..<np]
      then s0 else tc_fail s0 | None \<Rightarrow> s0)"
  define s2 where "s2 = (if (ck = 1 \<or> ck = 3) \<and> tc_ok s1 \<and>
      \<not> tc_matches (ve_lat E) (VT_REF False HT_EXN) (typ_at ts tx (n - 1)) then tc_fail s1 else s1)"
  have st2: "stk E s s2" using st0 by (simp add: s2_def s1_def stk_rules split: option.split)
  have c2: "tc_ctrls s2 = tc_ctrls s0" by (simp add: s2_def s1_def tc_fail_def split: option.split)
  have eq: "try_catch E b s =
      (if 3 < ck \<or> tc_nctrls s0 \<le> k then tc_reject JAV_E_UNKNOWN_LABEL s0
       else if (ck = 0 \<or> ck = 1) \<and> (cx_tags (ve_cx E) = None \<or> cx_ntags (ve_cx E) \<le> unat tagx)
       then tc_reject JAV_E_UNKNOWN_TAG s0
       else if np + (if ck = 1 \<or> ck = 3 then 1 else 0) \<noteq> n then tc_fail s0
       else (let pop = int b - int (cf_val_height (tc_ctrls (snd (st_push s2)) ! k)) in
         tc_target k (length (tc_st s2))
           (set_vals_pop (length (tc_st s2)) n (if pop > 0 then pop else 0) (snd (st_push s2)))))"
    by (simp only: try_catch_def Let_def split_beta ck_def [symmetric] sa_def [symmetric] sb_def [symmetric]
        tagx_def [symmetric] s0_def [symmetric] k_def [symmetric] lab fst_conv snd_conv tg_def [symmetric]
        np_def [symmetric] s1_def [symmetric] s2_def [symmetric] st_push_simps(1))
  show thesis
  proof (cases "try_catch E b s = tc_reject JAV_E_UNKNOWN_LABEL s0 \<or>
      try_catch E b s = tc_reject JAV_E_UNKNOWN_TAG s0 \<or> try_catch E b s = tc_fail s0")
    case True
    then have "stk E s (try_catch E b s)" using st0 by (auto simp: stk_rules)
    then show thesis using that(1) by blast
  next
    case False
    then have "k < tc_nctrls s2" using eq c2 by (auto split: if_splits)
    then show thesis using that(2) [OF st2] eq False by (simp add: Let_def split: if_splits)
  qed
qed

lemma try_mid_catch:
  assumes "reader_ok (ve_rd E)" "try_mid E n p s"
  shows "try_mid E n p (try_catch E b s)"
  by (rule try_catch_cases [of E s b]) (use assms in \<open>auto intro: try_mid_stk try_mid_push\<close>)

lemma try_mid_catches:
  "reader_ok (ve_rd E) \<Longrightarrow> try_mid E n p s \<Longrightarrow> try_mid E n p (try_catches E b m s)"
  by (induction E b m s rule: try_catches.induct) (simp_all add: try_mid_catch)

lemma fold_set_bpos:
  "m \<le> length (tc_bpos s) \<Longrightarrow> fold (\<lambda>e. set_bpos e p) [m..<k] s =
     s\<lparr>tc_bpos := fold (\<lambda>e l. l[e := p]) [m..<k] (tc_bpos s)\<rparr>"
proof (induction k)
  case (Suc k)
  then show ?case by (cases "m \<le> k") (simp_all add: set_bpos_def)
qed simp

lemma fold_update_upt:
  "m \<le> length l \<Longrightarrow> k \<le> length l \<Longrightarrow> m \<le> k \<Longrightarrow>
     fold (\<lambda>e l. l[e := p]) [m..<k] l = take m l @ replicate (k - m) p @ drop k l"
proof (induction k)
  case (Suc k)
  show ?case
  proof (cases "m \<le> k")
    case True
    have d: "drop k l = l ! k # drop (Suc k) l" using Suc.prems by (intro drop_eq_nth_Cons) simp
    have "fold (\<lambda>e l. l[e := p]) [m..<Suc k] l = (take m l @ replicate (k - m) p @ drop k l)[k := p]"
      using True Suc by simp
    also have "\<dots> = take m l @ replicate (k - m) p @ (p # drop (Suc k) l)"
      using True Suc.prems by (simp add: list_update_append d min_absorb2)
    finally show ?thesis using True by (simp add: Suc_diff_le replicate_append_same)
  next
    case False
    then have "m = Suc k" using Suc.prems by simp
    then show ?thesis by simp
  qed
qed simp

lemma inv_set_bpos_from:
  assumes inv: "tc_inv E X n s" and pos: "0 < tc_pos s"
  shows "tc_inv E X (length (tc_st s)) (fold (\<lambda>e. set_bpos e (tc_pos s)) [n..<length (tc_st s)] s)"
proof -
  let ?m = "length (tc_st s)"
  have len: "length (tc_bpos s) = ?m" "n \<le> ?m" using inv by (simp_all add: tc_inv_def inv_entries_def)
  have f: "fold (\<lambda>e. set_bpos e (tc_pos s)) [n..<?m] s =
      s\<lparr>tc_bpos := take n (tc_bpos s) @ replicate (?m - n) (tc_pos s)\<rparr>"
    using len by (simp add: fold_set_bpos fold_update_upt)
  have "inv_entries X ?m (s\<lparr>tc_bpos := take n (tc_bpos s) @ replicate (?m - n) (tc_pos s)\<rparr>)"
    using inv len pos unfolding tc_inv_def inv_entries_def
    by (auto simp: sorted_append)
  then show ?thesis
    using inv unfolding f by (simp add: tc_inv_def inv_frames_def heights_ok_def)
qed

lemma next_try_table:
  assumes r: "reader_ok (ve_rd E)" and g: "tc_good E s"
  shows "tc_next E s (op_try_table E s)"
proof (cases "MAX_DEPTH \<le> tc_nctrls s")
  case True
  then show ?thesis using next_stk [OF r g] by (simp add: op_try_table_def stk_rules)
next
  case False
  define b where "b = fst (tc_read_blocktype E s)"
  define s1 where "s1 = tc_pop_vals (ve_lat E) (bt_start b) (bt_start_tidx b) (bt_nstart b)
    (snd (tc_read_blocktype E s))"
  define s2 where "s2 = snd (rd_u32 E s1)"
  define nc where "nc = fst (rd_u32 E s1)"
  define n where "n = length (tc_st s2)"
  define s3 where "s3 = try_catches E (tc_nvals s1) (unat nc) s2"
  have "stk E s s2" by (simp add: s2_def s1_def stk_rules)
  note g2 = good_stk [OF r g this]
  have "try_mid E n (tc_pos s2) s2" using g2(1) by (simp add: try_mid_def tc_good_def n_def)
  then have m3: "try_mid E n (tc_pos s2) s3" unfolding s3_def by (intro try_mid_catches r)
  define s4 where "s4 = fold (\<lambda>e. set_bpos e (tc_pos s3)) [n..<length (tc_st s3)] s3"
  have i4: "tc_inv E {} (length (tc_st s3)) s4" unfolding s4_def
    using m3 by (intro inv_set_bpos_from) (auto simp: try_mid_def)
  have f4: "s4 = s3\<lparr>tc_bpos := tc_bpos s4\<rparr>"
    using m3 unfolding s4_def by (simp add: fold_set_bpos try_mid_def tc_inv_def inv_entries_def)
  have p3: "tc_pos s \<le> tc_pos s3" using g2(3) m3 by (simp add: try_mid_def)
  have eq: "op_try_table E s = (if \<not> tc_ok s3 then s3 else
      let tt = \<lparr>tr_try_pc = word_of_nat (tc_pos s3), tr_catch_stp = word_of_nat n,
                 tr_ncatch = nc, tr_end_pc = 0\<rparr>;
          s5 = s4\<lparr>tc_trytab := tc_trytab s4 @ [tt]\<rparr>
      in upd_top (\<lambda>f. f\<lparr>cf_try_idx := Some (length (tc_trytab s4))\<rparr>) (tc_push_block 0x1f b s5))"
    using False
    by (simp add: op_try_table_def Let_def split_beta b_def [symmetric] s1_def [symmetric]
        s2_def [symmetric] nc_def [symmetric] s3_def [symmetric] n_def [symmetric] s4_def [symmetric])
  show ?thesis
  proof (cases "tc_ok s3")
    case not_ok: False
    then have "tcinv E s3"
      using m3 by (simp add: try_mid_def tc_inv_def inv_entries_def)
    with not_ok eq p3 show ?thesis by (simp add: tc_next_def)
  next
    case True
    let ?tt = "\<lparr>tr_try_pc = word_of_nat (tc_pos s3), tr_catch_stp = word_of_nat n, tr_ncatch = nc, tr_end_pc = 0\<rparr>"
    define s5 where "s5 = s4\<lparr>tc_trytab := tc_trytab s4 @ [?tt]\<rparr>"
    have f5: "tc_st s5 = tc_st s3" "tc_pos s5 = tc_pos s3"
      unfolding s5_def by (subst f4; simp)+
    have "tc_inv E {} (length (tc_st s5)) s5"
      using i4 unfolding f5 by (simp add: s5_def inv_set_trytab)
    then have "tc_next E s5 (upd_top (\<lambda>f. f\<lparr>cf_try_idx := Some (length (tc_trytab s4))\<rparr>) (tc_push_block 0x1f b s5))"
      by (intro next_push_block) (auto simp: frame_ok_def block_frame_def s5_def)
    moreover have "op_try_table E s =
        upd_top (\<lambda>f. f\<lparr>cf_try_idx := Some (length (tc_trytab s4))\<rparr>) (tc_push_block 0x1f b s5)"
      using eq True by (simp add: Let_def s5_def)
    ultimately show ?thesis using next_trans p3 f5(2) by metis
  qed
qed

section \<open>Every instruction\<close>

lemma next_ifI: "(b \<Longrightarrow> tc_next E s x) \<Longrightarrow> (\<not> b \<Longrightarrow> tc_next E s y) \<Longrightarrow> tc_next E s (if b then x else y)"
  by simp

lemma next_step:
  assumes r: "reader_ok (ve_rd E)" and g: "tc_good E s" and step: "tc_step E op s = Some s'"
  shows "tc_next E s s'"
proof (cases "op = 0x0e")
  case True
  then show ?thesis using step next_br_table [OF r g] by (simp add: tc_step_def)
next
  case False
  have stack: "stk E s t \<Longrightarrow> tc_next E s t" for t by (rule next_stk [OF r g])
  have default: "tc_next E s (op_default E op s)"
  proof (rule op_default_cases [of E s op])
    fix sub assume "op_default E op s = op_br_on_cast E sub (snd (rd_u32 E s))"
    moreover note g0 = good_stk [OF r g stk_rd_u32 [OF stk_refl]]
    ultimately show ?thesis using next_trans [OF g0(3) next_br_on_cast [OF r g0(1)]] by simp
  qed (rule stack)
  have "tc_next E s (the (tc_step E op s))"
    unfolding tc_step_def if_not_P [OF False] option.sel
    by (rule next_ifI next_if [OF r g] next_else [OF r g] next_end [OF r g] next_br [OF r g]
        next_try_table [OF r g] next_local [OF r g] next_br_on_null [OF r g]
        next_br_on_non_null [OF r g] default
      | rule next_block [OF r g], assumption
      | rule stack, rule stk_rules stk_refl stk_pop [OF stk_refl])+
  then show ?thesis using step by simp
qed

end
