(* ===== verification/TcWalk.thy ===== *)
theory TcWalk
  imports TcControlInv
begin

text \<open>
  The walk of \<open>jav_typecheck_ex\<close> over a whole body: the invariant holds when it stops, it
  stops, and the post-pass turns the recorded positions into the entries' deltas.
\<close>

section \<open>The initial state\<close>

lemma init_inv: "tcinv E (tc_init (ve_cx E))"
proof -
  have "inv_locals (locals_seed (ve_cx E)) (locals_seed (ve_cx E)) []"
    by (simp add: inv_locals_def)
  then show ?thesis
    by (simp add: tc_init_def tc_push_ctrl_def Let_def tc_push_vals_def tc_inv_def heights_ok_def
        inv_frames_def inv_entries_def frame_ok_def)
qed

lemma init_simps [simp]: "tc_st (tc_init cx) = []" "tc_pos (tc_init cx) = 0" "tc_ok (tc_init cx)"
  by (simp_all add: tc_init_def tc_push_ctrl_def Let_def tc_push_vals_def)

section \<open>One iteration\<close>

lemma rd_u8_inv:
  assumes r: "reader_ok (ve_rd E)" and inv: "tcinv E s" and k: "rd_u8 E s = (True, op, s1)"
  shows "tcinv E s1" and "tc_pos s1 = tc_pos s + 1" and "tc_ctrls s1 = tc_ctrls s"
    and "tc_pos s < length (ve_code E)" and "op = ve_code E ! tc_pos s" and "tc_st s1 = tc_st s"
    and "tc_ok s1 = tc_ok s"
proof -
  have lt: "tc_pos s < length (ve_code E)"
    using reader_ok_u8(2) [OF r, of "ve_code E" "tc_pos s"] k
    by (cases "tc_pos s < length (ve_code E)") (auto simp: rd_u8_def split_beta)
  then have s1: "s1 = s\<lparr>tc_pos := tc_pos s + 1\<rparr>" and "op = ve_code E ! tc_pos s"
    using reader_ok_u8(1) [OF r lt] k by (simp_all add: rd_u8_def)
  moreover have "tcinv E (s\<lparr>tc_pos := tc_pos s + 1\<rparr>)"
    using inv lt unfolding tc_inv_def inv_entries_def inv_frames_def heights_ok_def
    by (auto intro: list_all_frame_mono le_SucI)
  ultimately show "tcinv E s1" "tc_pos s1 = tc_pos s + 1" "tc_ctrls s1 = tc_ctrls s" "tc_st s1 = tc_st s"
    "tc_pos s < length (ve_code E)" "op = ve_code E ! tc_pos s" "tc_ok s1 = tc_ok s"
    using lt by simp_all
qed

lemma rd_u8_end:
  assumes r: "reader_ok (ve_rd E)" and inv: "tcinv E s" and k: "rd_u8 E s = (False, op, s1)"
  shows "tc_pos s = length (ve_code E)" and "s1 = s"
proof -
  have ge: "\<not> tc_pos s < length (ve_code E)"
    using reader_ok_u8(1) [OF r, of "tc_pos s" "ve_code E"] k by (auto simp: rd_u8_def)
  then show "tc_pos s = length (ve_code E)" using inv by (simp add: tc_inv_def)
  show "s1 = s"
    using reader_ok_u8(2) [OF r, of "ve_code E" "tc_pos s"] ge k by (auto simp: rd_u8_def split_beta)
qed

text \<open>What the walk maintains, besides the invariant: the recorded peak is a stack height.\<close>

definition walk_ok :: "venv \<Rightarrow> tcst \<times> nat \<Rightarrow> bool" where
  "walk_ok E r \<longleftrightarrow> tcinv E (fst r) \<and> snd r \<le> MAX_STACK \<and>
     (tc_ok (fst r) \<longrightarrow> tc_pos (fst r) = length (ve_code E))"

lemma fail_inv: "tc_inv E X n s \<Longrightarrow> tc_inv E X n (s\<lparr>tc_ok := False\<rparr>)"
  by (simp add: tc_inv_def inv_frames_def inv_entries_def)

lemma walk_inv:
  "tc_walk E s m = Some res \<Longrightarrow> reader_ok (ve_rd E) \<longrightarrow> tcinv E s \<longrightarrow> m \<le> MAX_STACK \<longrightarrow> walk_ok E res"
proof (rule tc_walk.raw_induct [where P =
    "\<lambda>E s m res. reader_ok (ve_rd E) \<longrightarrow> tcinv E s \<longrightarrow> m \<le> MAX_STACK \<longrightarrow> walk_ok E res"])
  fix f E s m res
  assume IH: "\<And>E s m res. f E s m = Some res \<Longrightarrow>
      reader_ok (ve_rd E) \<longrightarrow> tcinv E s \<longrightarrow> m \<le> MAX_STACK \<longrightarrow> walk_ok E res"
    and eq: "(if \<not> tc_ok s then Some (s, m)
      else let (k, op, s1) = rd_u8 E s in
        if \<not> k then Some (s1, m)
        else if tc_ctrls s1 = [] then Some (tc_fail s1, m)
        else Option.bind (tc_step E op s1) (\<lambda>s2. f E s2 (if m < tc_nvals s2 then tc_nvals s2 else m))) = Some res"
  show "reader_ok (ve_rd E) \<longrightarrow> tcinv E s \<longrightarrow> m \<le> MAX_STACK \<longrightarrow> walk_ok E res"
  proof (intro impI)
    assume r: "reader_ok (ve_rd E)" and inv: "tcinv E s" and m: "m \<le> MAX_STACK"
    obtain k op s1 where rd: "rd_u8 E s = (k, op, s1)" by (rule prod_cases3)
    consider "\<not> tc_ok s" | "tc_ok s" "\<not> k" | "tc_ok s" k "tc_ctrls s1 = []" | "tc_ok s" k "tc_ctrls s1 \<noteq> []"
      by blast
    then show "walk_ok E res"
    proof cases
      case 1
      with eq inv m show ?thesis by (auto simp: walk_ok_def)
    next
      case 2
      with rd_u8_end [OF r inv] rd eq inv m show ?thesis by (auto simp: walk_ok_def)
    next
      case 3
      with rd_u8_inv [OF r inv] rd eq m show ?thesis by (auto simp: walk_ok_def fail_inv tc_fail_def)
    next
      case 4
      note i1 = rd_u8_inv [OF r inv rd [unfolded eqTrueI [OF 4(2)]]]
      obtain s2 where s2: "tc_step E op s1 = Some s2"
        and res: "f E s2 (if m < tc_nvals s2 then tc_nvals s2 else m) = Some res"
        using eq 4 rd by (auto simp: bind_eq_Some_conv)
      have "tcinv E s2"
        using next_step [OF r _ s2] i1 4 by (auto simp: tc_good_def tc_next_def)
      moreover then have "tc_nvals s2 \<le> MAX_STACK" by (simp add: tc_inv_def heights_ok_def)
      ultimately show ?thesis using IH [OF res] r m by simp
    qed
  qed
qed

section \<open>The walk returns\<close>

lemma read_labels_total:
  assumes "count \<noteq> - 1"
  shows "\<exists>r. read_labels E count i s = Some r"
proof (induction "unat (count + 1) - unat i" arbitrary: i s rule: less_induct)
  case less
  have c: "unat (count + 1) = unat count + 1"
    using assms by (metis add.commute add_eq_0_iff unatSuc plus_1_eq_Suc)
  show ?case
  proof (cases "i \<le> count")
    case False
    then show ?thesis by (subst read_labels.simps) simp
  next
    case True
    then have le: "unat i \<le> unat count" by (simp add: word_le_nat_alt)
    have "i \<noteq> - 1" using True assms by (metis word_order.extremum_unique)
    then have i1: "unat (i + 1) = unat i + 1" by (metis add.commute add_eq_0_iff unatSuc plus_1_eq_Suc)
    have "\<exists>r. read_labels E count (i + 1) (snd (rd_label E i s)) = Some r"
      by (rule less) (use le c i1 in simp)
    with True show ?thesis by (subst read_labels.simps) (auto simp: Let_def split_beta)
  qed
qed

text \<open>
  The bodies on which the walk is claimed to return: no \<open>br_table\<close> of the code announces
  \<open>0xffffffff\<close> labels.
\<close>

definition br_counts_ok :: "venv \<Rightarrow> bool" where
  "br_counts_ok E \<longleftrightarrow>
     (\<forall>p < length (ve_code E). ve_code E ! p = 0x0e \<longrightarrow>
        fst (snd (r_u32 (ve_rd E) (ve_code E) (p + 1))) \<noteq> - 1)"

lemma step_total:
  assumes r: "reader_ok (ve_rd E)" and inv: "tcinv E s" and k: "rd_u8 E s = (True, op, s1)"
    and b: "br_counts_ok E"
  shows "\<exists>s2. tc_step E op s1 = Some s2"
proof (cases "op = 0x0e")
  case True
  note i1 = rd_u8_inv [OF r inv k]
  have "fst (rd_u32 E s1) \<noteq> - 1"
    using b i1 True by (simp add: br_counts_ok_def rd_u32_def split_beta)
  then obtain ls s2 where "read_labels E (fst (rd_u32 E s1)) 0 (tc_pop_e (ve_lat E) WVT_I32 (snd (rd_u32 E s1))) = Some (ls, s2)"
    using read_labels_total by fast
  with True show ?thesis by (simp add: tc_step_def op_br_table_def Let_def split_beta)
qed (simp add: tc_step_def)

lemma walk_total:
  assumes r: "reader_ok (ve_rd E)" and b: "br_counts_ok E"
  shows "tcinv E s \<Longrightarrow> \<exists>res. tc_walk E s m = Some res"
proof (induction "length (ve_code E) - tc_pos s" arbitrary: s m rule: less_induct)
  case less
  obtain k op s1 where rd: "rd_u8 E s = (k, op, s1)" by (rule prod_cases3)
  show ?case
  proof (cases "tc_ok s \<and> k \<and> tc_ctrls s1 \<noteq> []")
    case False
    then show ?thesis by (subst tc_walk.simps) (auto simp: rd)
  next
    case True
    then have rd': "rd_u8 E s = (True, op, s1)" using rd by simp
    note i1 = rd_u8_inv [OF r less.prems rd']
    obtain s2 where s2: "tc_step E op s1 = Some s2"
      using step_total [OF r less.prems rd' b] by blast
    have n: "tcinv E s2" "tc_pos s1 \<le> tc_pos s2"
      using next_step [OF r _ s2] i1 True by (auto simp: tc_good_def tc_next_def)
    have "\<exists>res. tc_walk E s2 (if m < tc_nvals s2 then tc_nvals s2 else m) = Some res"
      using n i1 by (intro less) auto
    with True s2 show ?thesis by (subst tc_walk.simps) (simp add: rd)
  qed
qed

section \<open>The post-pass\<close>

text \<open>The binary search finds how many entries branch from before a target.\<close>

lemma lower_bound_bounds:
  "lo \<le> hi \<Longrightarrow> lo \<le> lower_bound b t lo hi \<and> lower_bound b t lo hi \<le> hi"
proof (induction b t lo hi rule: lower_bound.induct)
  case (1 b t lo hi)
  show ?case
  proof (cases "lo < hi")
    case True
    let ?mid = "lo + (hi - lo) div 2"
    have mid: "lo \<le> ?mid" "?mid < hi" using True by linarith+
    show ?thesis
      using True mid "1.IH"(1) [OF True refl] "1.IH"(2) [OF True refl]
      by (cases "b ! ?mid < t") (subst lower_bound.simps, simp add: Let_def)+
  qed (use 1 in \<open>subst (1 2) lower_bound.simps, simp\<close>)
qed

lemma lower_bound_split:
  assumes "sorted b" "hi \<le> length b" "lo \<le> hi"
    and "\<forall>k < lo. b ! k < t" "\<forall>k. hi \<le> k \<longrightarrow> k < length b \<longrightarrow> t \<le> b ! k"
  shows "(\<forall>k < lower_bound b t lo hi. b ! k < t) \<and>
    (\<forall>k. lower_bound b t lo hi \<le> k \<longrightarrow> k < length b \<longrightarrow> t \<le> b ! k)"
  using assms
proof (induction b t lo hi rule: lower_bound.induct)
  case (1 b t lo hi)
  show ?case
  proof (cases "lo < hi")
    case True
    let ?mid = "lo + (hi - lo) div 2"
    have mid: "lo \<le> ?mid" "?mid < hi" using True by linarith+
    show ?thesis
    proof (cases "b ! ?mid < t")
      case lt: True
      have "\<forall>k < ?mid + 1. b ! k < t"
      proof (intro allI impI)
        fix k assume "k < ?mid + 1"
        then have "b ! k \<le> b ! ?mid" using "1.prems"(1,2) mid by (intro sorted_nth_mono) simp_all
        with lt show "b ! k < t" by simp
      qed
      then have "(\<forall>k < lower_bound b t (?mid + 1) hi. b ! k < t) \<and>
          (\<forall>k. lower_bound b t (?mid + 1) hi \<le> k \<longrightarrow> k < length b \<longrightarrow> t \<le> b ! k)"
        using "1.prems" mid lt by (intro "1.IH"(1) [OF True refl]) simp_all
      moreover have "lower_bound b t lo hi = lower_bound b t (?mid + 1) hi"
        using True lt by (subst lower_bound.simps) (simp add: Let_def)
      ultimately show ?thesis by simp
    next
      case ge: False
      have "\<forall>k. ?mid \<le> k \<longrightarrow> k < length b \<longrightarrow> t \<le> b ! k"
      proof (intro allI impI)
        fix k assume "?mid \<le> k" "k < length b"
        then have "b ! ?mid \<le> b ! k" using "1.prems"(1) by (intro sorted_nth_mono)
        with ge show "t \<le> b ! k" by simp
      qed
      then have "(\<forall>k < lower_bound b t lo ?mid. b ! k < t) \<and>
          (\<forall>k. lower_bound b t lo ?mid \<le> k \<longrightarrow> k < length b \<longrightarrow> t \<le> b ! k)"
        using "1.prems" mid ge by (intro "1.IH"(2) [OF True refl]) simp_all
      moreover have "lower_bound b t lo hi = lower_bound b t lo ?mid"
        using True ge by (subst lower_bound.simps) (simp add: Let_def)
      ultimately show ?thesis by simp
    qed
  next
    case False
    then have "lower_bound b t lo hi = lo" by (subst lower_bound.simps) simp
    then show ?thesis using "1.prems" False by auto
  qed
qed

lemma lower_bound_card:
  assumes "sorted b"
  shows "lower_bound b t 0 (length b) = card {k. k < length b \<and> b ! k < t}"
proof -
  let ?l = "lower_bound b t 0 (length b)"
  have le: "?l \<le> length b" using lower_bound_bounds [of 0 "length b" b t] by simp
  have "{k. k < length b \<and> b ! k < t} = {..<?l}"
    using lower_bound_split [OF assms, of "length b" 0 t] le by (auto simp: not_less [symmetric])
  then show ?thesis by simp
qed

end
