(* ===== verification/TcSpec.thy ===== *)
theory TcSpec
  imports TcWalk
begin

text \<open>
  The operand-stack primitives against the reference algorithm of the Core specification:
  a pop of a type sequence takes the operands above the frame's height, top first, and
  past the height succeeds only in dead code; a push succeeds while the stack has room.
\<close>

section \<open>Popping a sequence\<close>

definition tc_avail :: "tcst \<Rightarrow> nat" where
  "tc_avail s = tc_nvals s - cf_val_height (tc_top s)"

lemma pop_vt_spec:
  "tc_vals (tc_pop_vt lat e s) = (if 0 < tc_avail s then tl (tc_vals s) else tc_vals s)"
  "tc_ok (tc_pop_vt lat e s) \<longleftrightarrow> tc_ok s \<and>
     (if 0 < tc_avail s then tc_matches lat (hd (tc_vals s)) e else cf_unreachable (tc_top s))"
  "tc_ctrls (tc_pop_vt lat e s) = tc_ctrls s"
  by (auto simp: tc_pop_vt_def tc_pop_def tc_avail_def Let_def tc_matches_def)

text \<open>The operands a pop of \<open>es\<close> compares, top first against the last expected type.\<close>

definition pop_matches :: "subtype_ctx option \<Rightarrow> vtype list \<Rightarrow> vtype list \<Rightarrow> bool" where
  "pop_matches lat vs es = list_all2 (tc_matches lat) vs (take (length vs) (rev es))"

lemma fold_pop_vt:
  "tc_vals (fold (tc_pop_vt lat) es s) = drop (min (length es) (tc_avail s)) (tc_vals s)"
  "tc_ok (fold (tc_pop_vt lat) es s) \<longleftrightarrow> tc_ok s \<and>
     (length es \<le> tc_avail s \<or> cf_unreachable (tc_top s)) \<and>
     list_all2 (tc_matches lat) (take (length es) (take (tc_avail s) (tc_vals s)))
       (take (tc_avail s) es)"
  "tc_ctrls (fold (tc_pop_vt lat) es s) = tc_ctrls s"
proof (induction es arbitrary: s)
  case (Cons e es)
  have top: "tc_top (tc_pop_vt lat e s) = tc_top s" for s by (simp add: tc_top_def pop_vt_spec)
  { case 1
    let ?s = "tc_pop_vt lat e s"
    show ?case
    proof (cases "0 < tc_avail s")
      case True
      then have "tc_avail ?s = tc_avail s - 1" by (auto simp: tc_avail_def top pop_vt_spec)
      with True Cons(1) [of ?s] show ?thesis
        by (cases "tc_vals s") (auto simp: pop_vt_spec tc_avail_def min_def drop_Cons')
    next
      case False
      then have "tc_avail ?s = 0" by (simp add: tc_avail_def top pop_vt_spec)
      with False Cons(1) [of ?s] show ?thesis by (simp add: pop_vt_spec)
    qed
  next
    case 2
    let ?s = "tc_pop_vt lat e s"
    show ?case
    proof (cases "0 < tc_avail s")
      case True
      then obtain v vs where v: "tc_vals s = v # vs" by (cases "tc_vals s") (auto simp: tc_avail_def)
      obtain a where a: "tc_avail s = Suc a" using True by (cases "tc_avail s") auto
      then have "tc_avail ?s = a" using True by (auto simp: tc_avail_def top pop_vt_spec)
      with a v Cons(2) [of ?s] show ?thesis by (auto simp: pop_vt_spec top)
    next
      case False
      then have "tc_avail ?s = 0" by (simp add: tc_avail_def top pop_vt_spec)
      with False Cons(2) [of ?s] show ?thesis by (auto simp: pop_vt_spec top)
    qed
  next
    case 3
    show ?case using Cons(3) [of "tc_pop_vt lat e s"] by (simp add: pop_vt_spec)
  }
qed simp_all

lemma pop_vals_fold: "tc_pop_vals lat ts tx n s = fold (tc_pop_vt lat) (rev (vts ts tx n)) s"
  by (simp add: tc_pop_vals_def vts_def rev_map fold_map comp_def)

lemma pop_vals_spec:
  "tc_vals (tc_pop_vals lat ts tx n s) = drop (min n (tc_avail s)) (tc_vals s)"
  "tc_ok (tc_pop_vals lat ts tx n s) \<longleftrightarrow> tc_ok s \<and>
     (n \<le> tc_avail s \<or> cf_unreachable (tc_top s)) \<and>
     pop_matches lat (take (min n (tc_avail s)) (tc_vals s)) (vts ts tx n)"
proof -
  note f = fold_pop_vt [where es = "rev (vts ts tx n)" and lat = lat and s = s]
  show "tc_vals (tc_pop_vals lat ts tx n s) = drop (min n (tc_avail s)) (tc_vals s)"
    using f(1) by (simp add: pop_vals_fold)
  have le: "tc_avail s \<le> tc_nvals s" by (simp add: tc_avail_def)
  have "take (tc_avail s) (rev (vts ts tx n)) =
      take (min n (tc_avail s)) (rev (vts ts tx n))" by (simp add: min_def)
  then show "tc_ok (tc_pop_vals lat ts tx n s) \<longleftrightarrow> tc_ok s \<and>
     (n \<le> tc_avail s \<or> cf_unreachable (tc_top s)) \<and>
     pop_matches lat (take (min n (tc_avail s)) (tc_vals s)) (vts ts tx n)"
    using f(2) le by (simp add: pop_vals_fold pop_matches_def min_absorb2)
qed

section \<open>Pushing a sequence\<close>

lemma fold_push_vt:
  "tc_nvals s + length es \<le> MAX_STACK \<Longrightarrow>
     fold tc_push_vt es s = s\<lparr>tc_vals := rev es @ tc_vals s\<rparr>"
  by (induction es arbitrary: s) (simp_all add: tc_push_vt_def)

lemma fold_push_full: "MAX_STACK \<le> tc_nvals s \<Longrightarrow> es \<noteq> [] \<Longrightarrow> \<not> tc_ok (fold tc_push_vt es s)"
proof -
  have f: "MAX_STACK \<le> tc_nvals s \<Longrightarrow> \<not> tc_ok s \<Longrightarrow> \<not> tc_ok (fold tc_push_vt es s)" for es s
    by (induction es arbitrary: s) (simp_all add: tc_push_vt_def)
  assume "MAX_STACK \<le> tc_nvals s" "es \<noteq> []"
  then show ?thesis using f by (cases es) (simp_all add: tc_push_vt_def)
qed

lemma push_vals_fold: "tc_push_vals ts tx n s = fold tc_push_vt (vts ts tx n) s"
  by (simp add: tc_push_vals_def vts_def fold_map comp_def)

lemma push_vals_spec:
  "tc_nvals s + n \<le> MAX_STACK \<Longrightarrow>
     tc_push_vals ts tx n s = s\<lparr>tc_vals := rev (vts ts tx n) @ tc_vals s\<rparr>"
  by (simp add: push_vals_fold fold_push_vt)

lemma push_vals_overflow:
  assumes "MAX_STACK < tc_nvals s + n" "tc_nvals s \<le> MAX_STACK"
  shows "\<not> tc_ok (tc_push_vals ts tx n s)"
proof -
  let ?k = "MAX_STACK - tc_nvals s"
  have "fold tc_push_vt (vts ts tx n) s =
      fold tc_push_vt (drop ?k (vts ts tx n)) (fold tc_push_vt (take ?k (vts ts tx n)) s)"
    by (metis append_take_drop_id fold_append comp_apply)
  also have "fold tc_push_vt (take ?k (vts ts tx n)) s =
      s\<lparr>tc_vals := rev (take ?k (vts ts tx n)) @ tc_vals s\<rparr>"
    using assms by (intro fold_push_vt) simp
  finally show ?thesis
    using assms unfolding push_vals_fold by (simp add: fold_push_full)
qed

section \<open>Applying a function type\<close>

text \<open>
  The transfer of \<open>[t1*] -> [t2*]\<close> on a good state: accepted exactly when the arguments are
  there (or the code is dead), they match, and the results fit; the operand stack is then
  the old one with the arguments replaced by the results.
\<close>

lemma good_avail: "tc_good E s \<Longrightarrow> tc_nvals s \<le> MAX_STACK"
  by (simp add: tc_good_def tc_inv_def heights_ok_def)

lemma call_sig_spec:
  assumes g: "tc_nvals s \<le> MAX_STACK" and k_def: "k = min (ft_nparams ft) (tc_avail s)"
  shows "tc_ok (tc_call_sig E ft s) \<longleftrightarrow> tc_ok s \<and>
      (ft_nparams ft \<le> tc_avail s \<or> cf_unreachable (tc_top s)) \<and>
      pop_matches (ve_lat E) (take k (tc_vals s)) (vts (ft_params ft) (ft_param_tidx ft) (ft_nparams ft)) \<and>
      tc_nvals s - k + ft_nresults ft \<le> MAX_STACK"
    and "tc_ok (tc_call_sig E ft s) \<Longrightarrow> tc_vals (tc_call_sig E ft s) =
      rev (vts (ft_results ft) (ft_result_tidx ft) (ft_nresults ft)) @ drop k (tc_vals s)"
proof -
  let ?s = "tc_pop_vals (ve_lat E) (ft_params ft) (ft_param_tidx ft) (ft_nparams ft) s"
  have n: "tc_nvals ?s = tc_nvals s - k" "tc_vals ?s = drop k (tc_vals s)"
    by (simp_all add: pop_vals_spec k_def)
  have fits: "tc_nvals s - k + ft_nresults ft \<le> MAX_STACK \<Longrightarrow> tc_call_sig E ft s =
      ?s\<lparr>tc_vals := rev (vts (ft_results ft) (ft_result_tidx ft) (ft_nresults ft)) @ drop k (tc_vals s)\<rparr>"
    using n push_vals_spec [of ?s] by (simp add: tc_call_sig_def)
  have over: "\<not> tc_nvals s - k + ft_nresults ft \<le> MAX_STACK \<Longrightarrow> \<not> tc_ok (tc_call_sig E ft s)"
    using n g push_vals_overflow [of ?s] by (simp add: tc_call_sig_def)
  show "tc_ok (tc_call_sig E ft s) \<longleftrightarrow> tc_ok s \<and>
      (ft_nparams ft \<le> tc_avail s \<or> cf_unreachable (tc_top s)) \<and>
      pop_matches (ve_lat E) (take k (tc_vals s)) (vts (ft_params ft) (ft_param_tidx ft) (ft_nparams ft)) \<and>
      tc_nvals s - k + ft_nresults ft \<le> MAX_STACK"
  proof (cases "tc_nvals s - k + ft_nresults ft \<le> MAX_STACK")
    case True
    then show ?thesis by (simp add: fits [OF True] pop_vals_spec k_def)
  qed (use over in simp)
  show "tc_ok (tc_call_sig E ft s) \<Longrightarrow> tc_vals (tc_call_sig E ft s) =
      rev (vts (ft_results ft) (ft_result_tidx ft) (ft_nresults ft)) @ drop k (tc_vals s)"
    using fits over by (cases "tc_nvals s - k + ft_nresults ft \<le> MAX_STACK") simp_all
qed

section \<open>Control depth\<close>

lemma push_block_depth: "tc_nctrls (tc_push_block op b s) = Suc (tc_nctrls s)"
  by (simp add: tc_push_block_def tc_push_ctrl_def Let_def)

lemma stk_depth: "stk E s s' \<Longrightarrow> tc_nctrls s' = tc_nctrls s"
  unfolding stk_def by (metis length_map)

end
