(* ===== verification/Validator.thy ===== *)
theory Validator
  imports TcSpec
begin

text \<open>
  The properties of the body validator, with the concrete bodies they are run on.  The
  witnesses and the counterexample bodies use a reader for one-byte LEB128 immediates.
\<close>

section \<open>A concrete reader and context\<close>

definition one_byte :: "(u8 \<Rightarrow> 'v) \<Rightarrow> 'v \<Rightarrow> u8 list \<Rightarrow> nat \<Rightarrow> bool \<times> 'v \<times> nat" where
  "one_byte g z code p =
     (if p < length code \<and> code ! p < 0x80 then (True, g (code ! p), p + 1) else (False, z, p))"

definition sleb7 :: "u8 \<Rightarrow> int" where
  "sleb7 b = (if b < 0x40 then uint b else uint b - 128)"

definition byte_reader :: reader where
  "byte_reader =
     \<lparr>r_u8 = (\<lambda>code p. if p < length code then (True, code ! p, p + 1) else (False, 0, p)),
      r_u32 = one_byte ucast 0, r_u64 = one_byte ucast 0, r_i32 = one_byte sleb7 0,
      r_i64 = one_byte sleb7 0, r_s33 = one_byte sleb7 0,
      r_f32 = (\<lambda>code p. if p + 4 \<le> length code then p + 4 else p),
      r_f64 = (\<lambda>code p. if p + 8 \<le> length code then p + 8 else p), r_junk = (\<lambda>i. 0)\<rparr>"

lemma byte_reader_ok: "reader_ok byte_reader"
  by (simp add: reader_ok_def byte_reader_def cursor_ok_def one_byte_def)

text \<open>A function \<open>(param i32) (result i64)\<close> in a module whose only type is \<open>[i32] -> [i64]\<close>.\<close>

definition ex_cx :: vctx where
  "ex_cx =
     \<lparr>cx_types = Some [\<lparr>ft_params = [WVT_I32], ft_results = [WVT_I64], ft_param_tidx = None,
                        ft_result_tidx = None\<rparr>],
      cx_ntypes = 1, cx_func_sigs = None, cx_nfuncs = 0, cx_globals = [], cx_global_tidx = None,
      cx_global_mut = None, cx_func_type_idx = None, cx_func_ref_declared = None,
      cx_locals = [WVT_I32], cx_nparams = 1, cx_local_tidx = None, cx_results = [WVT_I64],
      cx_result_tidx = None, cx_ntables = 0, cx_table_reftype = None, cx_table_tidx = None,
      cx_table_is64 = None, cx_nmemories = 1, cx_mem_is64 = None, cx_structtypes = None,
      cx_nstructtypes = 0, cx_arraytypes = None, cx_narraytypes = 0, cx_ndatas = 0,
      cx_have_datacount = False, cx_nelems = 0, cx_elem_reftype = None, cx_elem_tidx = None,
      cx_type_field_packs = None, cx_num_type_field_packs = 0, cx_tags = None, cx_ntags = 0,
      cx_lattice = None\<rparr>"

definition ex_env :: "u8 list \<Rightarrow> venv" where
  "ex_env code = \<lparr>ve_rd = byte_reader, ve_code = code, ve_cx = ex_cx,
     ve_oob = (\<lambda>op sub. opsig_zero), ve_oob_meta = (\<lambda>op sub. meta_zero)\<rparr>"

section \<open>Evaluating a walk\<close>

lemma walk_step:
  assumes "tc_ok s" "rd_u8 E s = (True, op, s1)" "tc_ctrls s1 \<noteq> []" "tc_step E op s1 = Some s2"
    and "tc_walk E s2 (max m (tc_nvals s2)) = r"
  shows "tc_walk E s m = r"
proof -
  have "(if m < tc_nvals s2 then tc_nvals s2 else m) = max m (tc_nvals s2)" by simp
  with assms show ?thesis by (subst tc_walk.simps) simp
qed

lemma walk_stop:
  assumes "tc_ok s" "rd_u8 E s = (False, op, s1)"
  shows "tc_walk E s m = Some (s1, m)"
  using assms by (subst tc_walk.simps) simp

lemmas reader_eval = rd_u8_def rd_s33_def rd_byte_def rd_u32_def rd_u64_def rd_i32_def rd_i64_def
  byte_reader_def one_byte_def sleb7_def

lemmas stack_eval = tc_push_def tc_push_vt_def tc_push1_def tc_pop_def tc_pop_e_def tc_pop1_def
  tc_matches_def tc_push_vals_def tc_pop_vals_def tc_pop_vt_def typ_at_def tidx_at_def vt_from_def
  tc_top_def upd_top_def tc_fail_def tc_reset_locals_def set_tips_def

lemma sig_const:
  "jav_opsig 0x41 = opsig_row [] [WVT_I32] None None" "jav_jit_meta 0x41 = meta_row [JOP_SLEB32] 0 1"
  "jav_opsig 0x42 = opsig_row [] [WVT_I64] None None" "jav_jit_meta 0x42 = meta_row [JOP_SLEB64] 0 1"
  "jav_jit_meta 0x6a = meta_row [] 2 1"
  by (simp_all add: jav_opsig_def jav_jit_meta_def row_at_def jav_opsig_rows1_def jav_opsig_rows2_def
      jav_jit_meta_rows1_def jav_jit_meta_rows2_def)

lemma not_mem_const: "tc_mem E 0x41 0 s = None" "tc_mem E 0x42 0 s = None"
  by (simp_all add: tc_mem_def mem_kind_def scalar_mem_kind_def)

lemma step_i32_const:
  "tc_step E 0x41 s = Some (tc_push WVT_I32 (snd (rd_i32 E s)))"
  by (simp add: tc_step_def op_default_def jav_opsig_sub_def not_mem_const op_ordinary_def sig_const
      opsig_row_def meta_row_def tc_apply_sig_def tc_skip_operands_def skip_operand_def ht_col_def
      tc_push_vals_def tc_pop_vals_def typ_at_def tidx_at_def tc_push_def)

lemma step_i64_const:
  "tc_step E 0x42 s = Some (tc_push WVT_I64 (snd (rd_i64 E s)))"
  by (simp add: tc_step_def op_default_def jav_opsig_sub_def not_mem_const op_ordinary_def sig_const
      opsig_row_def meta_row_def tc_apply_sig_def tc_skip_operands_def skip_operand_def ht_col_def
      tc_push_vals_def tc_pop_vals_def typ_at_def tidx_at_def tc_push_def)

section \<open>An if without an else\<close>

definition if_body :: "u8 list" where
  "if_body = [0x20, 0, 0x41, 1, 0x04, 0, 0x1a, 0x42, 0, 0x0b, 0x0b]"

text \<open>The cases of the switch that the bodies below run through.\<close>

lemma step_cases:
  "tc_step E 0x20 s = Some (op_local E 0x20 s)" "tc_step E 0x04 s = Some (op_if E s)"
  "tc_step E 0x0b s = Some (op_end E s)" "tc_step E 0x1a s = Some (snd (tc_pop s))"
  "tc_step E 0x01 s = Some s" "tc_step E 0x0c s = Some (op_br E 0x0c s)"
  "tc_step E 0x02 s = Some (op_block E 0x02 s)"
  by (simp_all add: tc_step_def)

lemmas step_eval = step_cases step_i32_const step_i64_const op_local_def op_if_def op_end_def
  op_br_def op_block_def tc_label_def tc_fill_entry_def tc_target_def tc_unreachable_def
  tc_read_blocktype_def tc_blocktype_def
  bt_func_def bt_empty_def tc_push_block_def tc_push_ctrl_def st_push_def set_bpos_def set_vals_pop_def
  st_zero_def set_tip_def tc_init_def locals_seed_def vt_defaultable_def ex_cx_def

lemma ex_env_simps [simp]:
  "ve_rd (ex_env c) = byte_reader" "ve_code (ex_env c) = c" "ve_cx (ex_env c) = ex_cx"
  by (simp_all add: ex_env_def)

lemmas vm_eval = step_eval stack_eval reader_eval

lemma if_body_walk:
  "\<exists>s m. tc_walk (ex_env if_body) (tc_init ex_cx) 0 = Some (s, m) \<and> m \<le> MAX_STACK \<and>
     tc_ctrls s = [] \<and> tc_ok s \<and>
     tc_trytab s = [] \<and> tc_st s = [st_zero] \<and> tc_bpos s = [6] \<and> tc_tip s = [10] \<and> tc_eskip s = [0]"
  apply (intro exI, rule conjI)
   apply (rule walk_step, simp add: vm_eval if_body_def, simp add: vm_eval if_body_def,
      simp add: vm_eval if_body_def, simp add: vm_eval if_body_def)+
   apply (rule walk_stop; simp add: vm_eval if_body_def)
  apply (simp add: st_zero_def)
  done

lemma typecheck_accepts:
  assumes "\<exists>s m. tc_walk E (tc_init (ve_cx E)) 0 = Some (s, m) \<and> m \<le> MAX_STACK \<and> tc_ctrls s = [] \<and>
     tc_ok s \<and> tc_trytab s = tt \<and> st_post s = st"
  shows "jav_typecheck_ex E = Some (Inr (st, tt))"
  using assms by (auto simp: jav_typecheck_ex_def)

lemma if_body_accepted:
  "jav_typecheck_ex (ex_env if_body) =
     Some (Inr ([\<lparr>se_delta_ip = 4, se_delta_stp = 1, se_vals = 0, se_pop = 0\<rparr>], []))"
proof (rule typecheck_accepts)
  obtain s m where "tc_walk (ex_env if_body) (tc_init ex_cx) 0 = Some (s, m)" "m \<le> MAX_STACK"
    "tc_ctrls s = []" "tc_ok s" "tc_trytab s = []" and
    st: "tc_st s = [st_zero]" "tc_bpos s = [6]" "tc_tip s = [10]" "tc_eskip s = [0]"
    using if_body_walk by blast
  moreover have "st_post s = [\<lparr>se_delta_ip = 4, se_delta_stp = 1, se_vals = 0, se_pop = 0\<rparr>]"
    by (simp add: st_post_def st_finish_def st st_zero_def to_i32_def lower_bound.simps Let_def)
  ultimately show "\<exists>s m. tc_walk (ex_env if_body) (tc_init (ve_cx (ex_env if_body))) 0 = Some (s, m) \<and>
      m \<le> MAX_STACK \<and> tc_ctrls s = [] \<and> tc_ok s \<and> tc_trytab s = [] \<and>
      st_post s = [\<lparr>se_delta_ip = 4, se_delta_stp = 1, se_vals = 0, se_pop = 0\<rparr>]"
    by auto
qed

section \<open>Termination\<close>


lemma if_body_counts: "br_counts_ok (ex_env if_body)"
  by (simp add: br_counts_ok_def if_body_def nth_Cons split: nat.split)


lemma read_labels_diverges: "read_labels E count i s = Some r \<Longrightarrow> count \<noteq> - 1"
proof (rule read_labels.raw_induct [where P = "\<lambda>E count i s r. count \<noteq> - 1"])
  fix f E count i s r
  assume IH: "\<And>E count i s r. f E count i s = Some r \<Longrightarrow> count \<noteq> - 1"
    and eq: "(if i \<le> count then
        let (l, s) = rd_label E i s in Option.bind (f E count (i + 1) s) (\<lambda>(ls, s). Some (l # ls, s))
      else Some ([], s)) = Some r"
  show "count \<noteq> - 1"
  proof
    assume "count = - 1"
    moreover from this have "i \<le> count" by (simp add: word_order.extremum)
    ultimately obtain r' where "f E count (i + 1) (snd (rd_label E i s)) = Some r'"
      using eq by (auto simp: Let_def split_beta bind_eq_Some_conv)
    then show False using IH \<open>count = - 1\<close> by blast
  qed
qed

text \<open>
  C28. A \<open>br_table\<close> whose count reads as \<open>0xffffffff\<close> makes validation diverge: the guard
  \<open>i <= count\<close> of the label loop holds for every \<open>uint32_t\<close> (and the label array, sized by
  \<open>count + 1\<close>, has no elements).
\<close>

theorem br_table_diverges:
  assumes "fst (rd_u32 E s) = - 1"
  shows "tc_step E 0x0e s = None"
proof -
  have "read_labels E (- 1) i t = None" for i t
    using read_labels_diverges [of E "- 1" i t] by (cases "read_labels E (- 1) i t") auto
  then show ?thesis
    using assms by (simp add: tc_step_def op_br_table_def Let_def split_beta)
qed

section \<open>The side table\<close>

lemma to_i32_id: "- (2 ^ 31) \<le> x \<Longrightarrow> x < 2 ^ 31 \<Longrightarrow> to_i32 x = x"
  by (simp add: to_i32_def signed_of_int signed_take_bit_int_eq_self)



text \<open>A reader that decodes every count to the largest \<open>uint32_t\<close>.\<close>

definition max_env :: venv where
  "max_env = (ex_env [0x0e])\<lparr>ve_rd := byte_reader\<lparr>r_u32 := (\<lambda>code p. (True, - 1, p))\<rparr>\<rparr>"

theorem br_table_diverges_witness:
  "tc_step max_env 0x0e (tc_init ex_cx) = None"
  by (rule br_table_diverges) (simp add: max_env_def rd_u32_def)

end
