(* ===== verification/ValidatorRules.thy ===== *)
theory ValidatorRules
  imports Validator
begin

text \<open>
  The typing rules the validator enforces, instruction by instruction: the invariant of a
  step, calls, memory accesses, local initialisation, the control depth, and the places
  where the code and the Core specification part.
\<close>

section \<open>The invariant of a step\<close>

text \<open>
  C1. Every instruction keeps the validator's state in bounds: the operand stack within
  \<open>MAX_STACK\<close>, frame heights nested below it, every entry index a frame holds inside the side
  table, branch positions in order, and the initialisation flags equal to the seed plus the
  \<open>inits\<close> stack.
\<close>

theorem step_invariant:
  assumes "reader_ok (ve_rd E)" "tc_good E s" "tc_step E op s = Some s'"
  shows "tcinv E s' \<and> tc_pos s \<le> tc_pos s'"
  using next_step [OF assms] by (simp add: tc_next_def)

text \<open>The state after the first opcode byte of a body is good.\<close>

lemma first_good: "0 < length c \<Longrightarrow> tc_good (ex_env c) ((tc_init ex_cx)\<lparr>tc_pos := 1\<rparr>)"
proof -
  assume c: "0 < length c"
  have "tcinv (ex_env c) (tc_init ex_cx)" using init_inv [of "ex_env c"] by simp
  then have "tcinv (ex_env c) ((tc_init ex_cx)\<lparr>tc_pos := 1\<rparr>)"
    using c by (simp add: tc_inv_def inv_entries_def inv_frames_def heights_ok_def tc_init_def
        tc_push_ctrl_def tc_push_vals_def Let_def frame_ok_def Suc_leI)
  then show ?thesis by (simp add: tc_good_def tc_init_def tc_push_ctrl_def tc_push_vals_def Let_def)
qed

theorem step_invariant_witness:
  "tcinv (ex_env if_body) (op_local (ex_env if_body) 0x20 ((tc_init ex_cx)\<lparr>tc_pos := 1\<rparr>))"
  using step_invariant [of "ex_env if_body" "(tc_init ex_cx)\<lparr>tc_pos := 1\<rparr>" "0x20"] first_good [of if_body]
  by (simp add: byte_reader_ok step_cases if_body_def)

section \<open>Calls\<close>

text \<open>
  \<open>call\<close> follows the typing rule \<open>C.funcs[x] = [t1*] -> [t2*]\<close>: the instruction is accepted
  exactly when the index names a function, the operands above the frame supply t1* (all of
  them, or in dead code those that are there) by subtyping, and t2* fits; the stack is then
  the old one with t1* replaced by t2*.
\<close>

theorem call_rule:
  assumes "tc_good E s" "rd_u32 E s = (x, s0)" "cx_func_sigs (ve_cx E) = Some sigs"
    and "ft = sigs ! unat x" "k = min (ft_nparams ft) (tc_avail s)"
  shows "(tc_ok (op_call E s) \<longleftrightarrow> tc_ok s \<and> unat x < cx_nfuncs (ve_cx E) \<and>
      (ft_nparams ft \<le> tc_avail s \<or> cf_unreachable (tc_top s)) \<and>
      pop_matches (ve_lat E) (take k (tc_vals s)) (vts (ft_params ft) (ft_param_tidx ft) (ft_nparams ft)) \<and>
      tc_nvals s - k + ft_nresults ft \<le> MAX_STACK) \<and>
    (tc_ok (op_call E s) \<longrightarrow> tc_vals (op_call E s) =
      rev (vts (ft_results ft) (ft_result_tidx ft) (ft_nresults ft)) @ drop k (tc_vals s))"
proof -
  have s0: "s0 = s\<lparr>tc_pos := tc_pos s0\<rparr>"
    using assms(2) by (auto simp: rd_u32_def split_beta)
  have same: "tc_vals s0 = tc_vals s" "tc_ctrls s0 = tc_ctrls s" "tc_ok s0 = tc_ok s"
    by (subst s0; simp)+
  then have same': "tc_avail s0 = tc_avail s" "tc_top s0 = tc_top s"
    by (simp_all add: tc_avail_def tc_top_def)
  have le: "tc_nvals s0 \<le> MAX_STACK" using good_avail [OF assms(1)] same by simp
  note c = call_sig_spec [OF le, of k ft E, unfolded same' same, OF assms(5)]
  have call: "op_call E s = (if unat x < cx_nfuncs (ve_cx E) then tc_call_sig E ft s0
      else tc_reject JAV_E_UNKNOWN_FUNCTION s0)"
    using assms(2-4) by (simp add: op_call_def)
  show ?thesis using c by (auto simp: call tc_reject_def)
qed

text \<open>A context with one imported function \<open>[i32] -> [i64]\<close> to call.\<close>

definition call_env :: venv where
  "call_env = (ex_env [0x10, 0])\<lparr>ve_cx := ex_cx\<lparr>cx_func_sigs := cx_types ex_cx, cx_nfuncs := 1\<rparr>\<rparr>"

definition call_state :: tcst where
  "call_state = (tc_init ex_cx)\<lparr>tc_vals := [VT_NUM WVT_I32], tc_pos := 1\<rparr>"

lemma call_state_good: "tc_good call_env call_state"
proof -
  have "tcinv call_env (tc_init (ve_cx call_env))" by (rule init_inv)
  then show ?thesis
    by (simp add: call_env_def call_state_def tc_good_def tc_inv_def inv_entries_def inv_frames_def
        heights_ok_def tc_init_def tc_push_ctrl_def tc_push_vals_def Let_def frame_ok_def ex_cx_def
        locals_seed_def)
qed

theorem call_rule_witness:
  "tc_ok (op_call call_env call_state) \<and> tc_vals (op_call call_env call_state) = [VT_NUM WVT_I64]"
proof -
  let ?ft = "\<lparr>ft_params = [WVT_I32], ft_results = [WVT_I64], ft_param_tidx = None, ft_result_tidx = None\<rparr>"
  have "cx_func_sigs (ve_cx call_env) = Some [?ft]" by (simp add: call_env_def ex_cx_def)
  moreover have "rd_u32 call_env call_state = (0, call_state\<lparr>tc_pos := 2\<rparr>)"
    by (simp add: rd_u32_def call_env_def call_state_def byte_reader_def one_byte_def ex_env_def)
  ultimately show ?thesis
    using call_rule [OF call_state_good, of 0 _ "[?ft]" ?ft 1]
    by (simp add: tc_avail_def call_state_def tc_init_def tc_push_ctrl_def tc_push_vals_def Let_def
        tc_top_def call_env_def ex_cx_def vts_def typ_at_def vt_from_def pop_matches_def tc_matches_def)
qed

section \<open>Memory accesses\<close>

lemma mem_kind_width:
  "mem_kind op sub = Some (k, N, dt) \<Longrightarrow> k \<in> {MK_LD, MK_ST, MK_LDL, MK_STL} \<Longrightarrow> N \<in> {8, 16, 32, 64, 128}"
  by (auto simp: mem_kind_def scalar_mem_kind_def simd_mem_kind_def bulk_mem_kind_def split: if_splits)

lemma max_align_width: "N \<in> {8, 16, 32, 64, 128} \<Longrightarrow> a \<le> max_align N \<Longrightarrow> 8 * 2 ^ a \<le> N"
proof -
  assume N: "N \<in> {8, 16, 32, 64, 128}" and a: "a \<le> max_align N"
  have "(2 :: nat) ^ a \<le> 2 ^ max_align N" using a by (intro power_increasing) simp_all
  moreover have "8 * 2 ^ max_align N \<le> N" using N by (auto simp: max_align_def)
  ultimately show "8 * 2 ^ a \<le> N" by linarith
qed

text \<open>
  C19. A load or store the validator accepts addresses an existing memory, with an alignment of
  at most the access width (\<open>8 * 2^align <= N\<close> bits), an offset that fits the memory's address
  type, and a lane inside the vector.
\<close>

theorem mem_access_safe:
  assumes "mem_kind op sub = Some (k, N, dt)" "k \<in> {MK_LD, MK_ST, MK_LDL, MK_STL}"
    and "tc_mem E op sub s = Some s'" "tc_ok s'"
    and "rd_u32 E s = (flags, s1)"
    and "(if flags AND 0x40 \<noteq> 0 then rd_u32 E s1 else (0, s1)) = (memidx, s2)"
    and "rd_u64 E s2 = (off, s3)"
  shows "unat memidx < cx_nmemories (ve_cx E) \<and>
    8 * 2 ^ unat (if flags AND 0x40 \<noteq> 0 then flags - 64 else flags) \<le> N \<and>
    (AT64 (ve_cx E) memidx \<or> unat off < 2 ^ 32) \<and>
    (k \<in> {MK_LDL, MK_STL} \<longrightarrow> unat (fst (rd_byte E s3)) < 128 div N)"
proof -
  define lane where "lane = (if k = MK_LDL \<or> k = MK_STL then fst (rd_byte E s3) else 0)"
  have N: "N \<in> {8, 16, 32, 64, 128}" using mem_kind_width assms(1,2) by blast
  have "s' = tc_mem_access E k N dt s" using assms(1-3) by (auto simp: tc_mem_def)
  then have none: "memarg_err (ve_cx E) k N flags memidx off lane = None"
    using assms(4-7)
    by (auto simp: tc_mem_access_def Let_def split_beta tc_reject_def lane_def split: option.splits if_splits)
  have "unat off < 2 ^ 32" if "drop_bit 32 off = 0"
  proof -
    have "drop_bit 32 (unat off) = 0" using that unat_drop_bit_eq [of 32 off] by (metis unat_0)
    then have "unat off div 2 ^ 32 = 0" by (simp only: drop_bit_eq_div)
    then show ?thesis by (simp add: div_eq_0_iff)
  qed
  moreover have "unat lane < 128 div N" if "lane < word_of_nat (128 div N)"
  proof -
    have "128 div N < 256" using N by auto
    then show ?thesis using that by (simp add: byte_nat unat_u8_of_nat)
  qed
  ultimately show ?thesis
    using none N max_align_width [OF N]
    by (auto simp: memarg_err_def Let_def lane_def not_le not_less split: if_splits)
qed

text \<open>An \<open>i32.load\<close> with alignment 2 and offset 4 in the example module.\<close>

theorem mem_access_safe_witness:
  "tc_ok (the (tc_mem (ex_env [0x28, 2, 4]) 0x28 0 (call_state\<lparr>tc_pos := 1\<rparr>))) \<and>
   8 * 2 ^ unat (2 :: u32) \<le> (32 :: nat)"
proof -
  let ?E = "ex_env [0x28, 2, 4]" and ?s = "call_state\<lparr>tc_pos := 1\<rparr>"
  have k: "mem_kind 0x28 0 = Some (MK_LD, 32, WVT_I32)" by (simp add: mem_kind_def scalar_mem_kind_def)
  have rd: "rd_u32 ?E ?s = (2, ?s\<lparr>tc_pos := 2\<rparr>)" "rd_u64 ?E (?s\<lparr>tc_pos := 2\<rparr>) = (4, ?s\<lparr>tc_pos := 3\<rparr>)"
    by (simp_all add: reader_eval)
  obtain s' where s': "tc_mem ?E 0x28 0 ?s = Some s'" "tc_ok s'"
    using k rd
    by (auto simp: tc_mem_def tc_mem_access_def memarg_err_def Let_def max_align_def AT64_def tc_mem_at_def
        ex_cx_def stack_eval call_state_def tc_init_def tc_push_ctrl_def word_le_nat_alt)
  then show ?thesis using mem_access_safe [OF k _ s' rd(1) _ rd(2), of 0] by simp
qed

section \<open>Local initialisation\<close>

text \<open>
  \<open>local.get x\<close> is accepted exactly when x is a parameter, has a default value, or was set
  since the entry of a block still open (the \<open>inits\<close> stack), and the stack has room.
\<close>

theorem local_get_rule:
  assumes "tc_good E s" "rd_u32 E s = (x, s0)"
  shows "tc_ok (op_local E 0x20 s) \<longleftrightarrow>
    tc_ok s \<and> unat x < cx_nlocals (ve_cx E) \<and>
    (unat x < cx_nparams (ve_cx E) \<or> vt_defaultable (cx_locals (ve_cx E) ! unat x) \<or>
     unat x \<in> set (tc_inits s)) \<and> tc_nvals s < MAX_STACK"
proof -
  have s0: "s0 = s\<lparr>tc_pos := tc_pos s0\<rparr>" using assms(2) by (auto simp: rd_u32_def split_beta)
  have same: "tc_vals s0 = tc_vals s" "tc_ok s0 = tc_ok s" "tc_locals_init s0 = tc_locals_init s"
    by (subst s0; simp)+
  have "tc_locals_init s ! unat x \<longleftrightarrow> unat x < cx_nparams (ve_cx E) \<or>
      vt_defaultable (cx_locals (ve_cx E) ! unat x) \<or> unat x \<in> set (tc_inits s)"
    if "unat x < cx_nlocals (ve_cx E)"
    using assms(1) that by (simp add: tc_good_def tc_inv_def inv_locals_def locals_seed_def)
  then show ?thesis
    using assms(2) by (auto simp: op_local_def Let_def same tc_reject_def tc_push1_def tc_push_vt_def)
qed

theorem local_get_rule_witness:
  "tc_ok (op_local (ex_env if_body) 0x20 ((tc_init ex_cx)\<lparr>tc_pos := 1\<rparr>))"
proof -
  let ?s = "(tc_init ex_cx)\<lparr>tc_pos := 1\<rparr>"
  have "rd_u32 (ex_env if_body) ?s = (0, ?s\<lparr>tc_pos := 2\<rparr>)"
    by (simp add: reader_eval if_body_def)
  then show ?thesis
    using local_get_rule [of "ex_env if_body" ?s] first_good [of if_body]
    by (simp add: if_body_def ex_cx_def tc_init_def tc_push_ctrl_def tc_push_vals_def Let_def)
qed

lemma end_inits:
  "tc_inits (op_end E s) = take (cf_init_height (tc_top s)) (tc_inits s)"
proof -
  have stack: "tc_inits (tc_pop_vals lat ts tx n t) = tc_inits t" "tc_inits (tc_push_vals ts tx n t) = tc_inits t"
    for lat ts tx n t
    using stk_pop_vals [OF stk_refl, of undefined t lat ts tx n] stk_push_vals [OF stk_refl, of undefined t ts tx n]
    by (simp_all add: stk_def)
  have tips: "tc_inits (set_tips es p t) = tc_inits t" for es p t
    by (induction es arbitrary: t) (simp_all add: set_tips_def set_tip_def)
  show ?thesis
    by (simp add: op_end_def Let_def stack tips tc_reset_locals_def set_tip_def tc_fail_def
        split: option.split)
qed

lemma inv_locals_unique:
  "inv_locals seed li is \<Longrightarrow> inv_locals seed li' is \<Longrightarrow> li = li'"
  by (auto simp: inv_locals_def list_eq_iff_nth_eq)

text \<open>
  Leaving a block forgets the locals set inside it: when the frame on top was pushed with
  the initialisations of an earlier state, and only added to them since, \<open>end\<close> brings the
  initialisation flags back to exactly what they were there.
\<close>

theorem end_restores_locals:
  assumes "reader_ok (ve_rd E)" "tc_good E s" "tcinv E s0"
    and "cf_init_height (tc_top s) = length (tc_inits s0)"
    and "take (length (tc_inits s0)) (tc_inits s) = tc_inits s0"
  shows "tc_locals_init (op_end E s) = tc_locals_init s0"
proof -
  have "inv_locals (locals_seed (ve_cx E)) (tc_locals_init (op_end E s)) (tc_inits s0)"
    using next_end [OF assms(1,2)] end_inits [of E s] assms(4,5)
    by (simp add: tc_next_def tc_inv_def)
  moreover have "inv_locals (locals_seed (ve_cx E)) (tc_locals_init s0) (tc_inits s0)"
    using assms(3) by (simp add: tc_inv_def)
  ultimately show ?thesis by (rule inv_locals_unique)
qed

theorem end_restores_locals_witness:
  "tc_locals_init (op_end (ex_env if_body) ((tc_init ex_cx)\<lparr>tc_pos := 1\<rparr>)) = tc_locals_init (tc_init ex_cx)"
  by (rule end_restores_locals [of "ex_env if_body" _ "tc_init ex_cx"])
    (use init_inv [of "ex_env if_body"] first_good [of if_body] in
      \<open>simp_all add: byte_reader_ok if_body_def tc_init_def tc_push_ctrl_def tc_push_vals_def tc_top_def\<close>)

section \<open>Control depth\<close>

lemma upd_top_depth [simp]: "tc_nctrls (upd_top g s) = tc_nctrls s"
  by (simp add: upd_top_def)

lemma read_depth [simp]:
  "tc_ctrls (snd (rd_u32 E s)) = tc_ctrls s" "tc_ctrls (snd (rd_byte E s)) = tc_ctrls s"
  "tc_ctrls (snd (snd (rd_s33 E s))) = tc_ctrls s"
  by (simp_all add: rd_pos)

lemma flow_depth [simp]:
  "tc_ctrls (tc_fail s) = tc_ctrls s" "tc_ctrls (tc_reject e s) = tc_ctrls s"
  "tc_ctrls (tc_pop_e lat w s) = tc_ctrls s" "tc_ctrls (tc_pop_ref_ht lat nl h s) = tc_ctrls s"
  "tc_ctrls (snd (tc_pop_ref s)) = tc_ctrls s" "tc_ctrls (tc_push_ref nl h s) = tc_ctrls s"
  "tc_nctrls (tc_unreachable s) = tc_nctrls s"
  by (simp_all add: tc_fail_def tc_reject_def pop_forms tc_push_ref_def tc_pop_ref_def tc_pop_def
      split_beta Let_def tc_unreachable_def)

lemma br_depth: "tc_nctrls (op_br E op s) = tc_nctrls s"
  by (simp add: op_br_def Let_def split_beta)

lemma br_on_depth:
  "tc_nctrls (op_br_on_null E s) = tc_nctrls s" "tc_nctrls (op_br_on_non_null E s) = tc_nctrls s"
  "tc_nctrls (op_br_on_cast E sub s) = tc_nctrls s"
  by (simp_all add: op_br_on_null_def op_br_on_non_null_def op_br_on_cast_def Let_def split_beta)

lemma else_depth: "tc_nctrls (op_else E s) = tc_nctrls s"
  by (simp add: op_else_def Let_def split_beta)

lemma end_depth: "tc_nctrls (op_end E s) = tc_nctrls s - 1"
  by (simp add: op_end_def Let_def split: option.split)

lemma local_depth: "tc_nctrls (op_local E op s) = tc_nctrls s"
  by (simp add: op_local_def Let_def split_beta tc_push1_def pop_forms)

lemma block_depth: "tc_nctrls s \<le> MAX_DEPTH \<Longrightarrow> tc_nctrls (op_block E op s) \<le> MAX_DEPTH"
  using stk_depth [OF stk_read_blocktype [OF stk_refl], of E s]
  by (simp add: op_block_def Let_def split_beta push_block_depth)

lemma try_catch_depth: "tc_nctrls (try_catch E b s) = tc_nctrls s"
  by (rule try_catch_cases [of E s b]) (auto dest: stk_depth)

lemma try_catches_depth: "tc_nctrls (try_catches E b n s) = tc_nctrls s"
  by (induction E b n s rule: try_catches.induct) (simp_all add: try_catch_depth)

lemma try_table_depth: "tc_nctrls s \<le> MAX_DEPTH \<Longrightarrow> tc_nctrls (op_try_table E s) \<le> MAX_DEPTH"
proof -
  have b: "tc_nctrls (fold (\<lambda>e. set_bpos e p) es t) = tc_nctrls t" for p es t
    by (induction es arbitrary: t) simp_all
  assume "tc_nctrls s \<le> MAX_DEPTH"
  then show ?thesis
    using stk_depth [OF stk_read_blocktype [OF stk_refl], of E s]
    by (simp add: op_try_table_def Let_def split_beta push_block_depth b try_catches_depth)
qed

lemma br_table_loop_depth: "tc_nctrls (snd (br_table_loop E p ls d s)) = tc_nctrls s"
proof (induction ls arbitrary: d s)
  case (Cons l ls)
  obtain ts tx n where lab: "tc_label (tc_ctrls s ! unat l) = (ts, tx, n)" by (rule prod_cases3)
  show ?case by (simp add: lab Cons.IH Let_def split_beta split: option.split)
qed simp

lemma br_table_depth: "op_br_table E s = Some s' \<Longrightarrow> tc_nctrls s' = tc_nctrls s"
  using stk_depth [OF read_labels_stk [OF _ stk_refl]]
  by (fastforce simp: op_br_table_def Let_def split_beta br_table_loop_depth split: option.splits if_splits)

lemma default_depth: "tc_nctrls (op_default E op s) = tc_nctrls s"
  by (rule op_default_cases [of E s op]) (auto simp: br_on_depth dest: stk_depth)

lemma depth_ifI:
  "(b \<Longrightarrow> tc_nctrls x \<le> m) \<Longrightarrow> (\<not> b \<Longrightarrow> tc_nctrls y \<le> m) \<Longrightarrow> tc_nctrls (if b then x else y) \<le> m"
  by simp

text \<open>
  No instruction but \<open>if\<close> can push the control stack past \<open>MAX_DEPTH\<close>, the number of frames
  the array \<open>ctrls\<close> was allocated for.
\<close>

theorem depth_bounded:
  assumes "tc_step E op s = Some s'" "op \<noteq> 0x04" "tc_nctrls s \<le> MAX_DEPTH"
  shows "tc_nctrls s' \<le> MAX_DEPTH"
proof (cases "op = 0x0e")
  case True
  then show ?thesis using assms br_table_depth [of E s s'] by (simp add: tc_step_def)
next
  case False
  have stack: "stk E s t \<Longrightarrow> tc_nctrls t \<le> MAX_DEPTH" for t using stk_depth assms(3) by metis
  have same: "tc_nctrls t = tc_nctrls s \<Longrightarrow> tc_nctrls t \<le> MAX_DEPTH" for t using assms(3) by simp
  have ended: "tc_nctrls (op_end E s) \<le> MAX_DEPTH" by (rule order_trans [OF _ assms(3)]) (simp add: end_depth)
  have "tc_nctrls (the (tc_step E op s)) \<le> MAX_DEPTH"
    unfolding tc_step_def if_not_P [OF False] if_not_P [OF assms(2)] option.sel
    by (rule depth_ifI block_depth [OF assms(3)] try_table_depth [OF assms(3)] same [OF else_depth]
        same [OF br_depth] same [OF local_depth] same [OF br_on_depth(1)] same [OF br_on_depth(2)]
        same [OF default_depth] ended
      | rule stack, rule stk_rules stk_refl stk_pop [OF stk_refl])+
  then show ?thesis using assms(1) by simp
qed

theorem depth_bounded_witness:
  "tc_nctrls (op_block (ex_env [0x02, 0x40]) 0x02 ((tc_init ex_cx)\<lparr>tc_pos := 1\<rparr>)) \<le> MAX_DEPTH"
  using depth_bounded [of "ex_env [0x02, 0x40]" "0x02" "(tc_init ex_cx)\<lparr>tc_pos := 1\<rparr>"]
  by (simp add: step_cases tc_init_def tc_push_ctrl_def tc_push_vals_def)

text \<open>
  C27. \<open>if\<close> pushes a frame at any depth: unlike \<open>block\<close>, \<open>loop\<close> and \<open>try_table\<close> it does not test
  \<open>nctrls >= MAX_DEPTH\<close>, so at depth 1024 it writes a frame past the end of \<open>ctrls\<close>.
\<close>

theorem if_depth_unchecked:
  "tc_nctrls (op_if E s) = Suc (tc_nctrls s)"
  using stk_depth [OF stk_read_blocktype [OF stk_refl], of E s]
  by (simp add: op_if_def Let_def split_beta push_block_depth)

end
