(* ===== verification/ValidatorEdge.thy ===== *)
theory ValidatorEdge
  imports ValidatorRules
begin

text \<open>
  The edges of the body validator: what \<open>end\<close> compares and what it does not, the agreement of
  the two generated opcode tables, and the gate for constant expressions.
\<close>

section \<open>The end of a block\<close>

lemma reset_locals_fields:
  "tc_vals (tc_reset_locals h s) = tc_vals s" "tc_ok (tc_reset_locals h s) = tc_ok s"
  by (simp_all add: tc_reset_locals_def)

lemma set_tips_fields:
  "tc_vals (set_tips es p s) = tc_vals s" "tc_ok (set_tips es p s) = tc_ok s"
proof (induction es arbitrary: s)
  case (Cons e es)
  { case 1 show ?case using Cons(1) [of "set_tip e p s"] by (simp add: set_tips_def set_tip_def)
  next
    case 2 show ?case using Cons(2) [of "set_tip e p s"] by (simp add: set_tips_def set_tip_def) }
qed (simp_all add: set_tips_def)

lemma push_vals_ok_mono: "tc_ok (tc_push_vals ts tx n s) \<Longrightarrow> tc_ok s"
proof -
  have "tc_ok (fold tc_push_vt es s) \<Longrightarrow> tc_ok s" for es
  proof (induction es arbitrary: s)
    case (Cons e es)
    then have "tc_ok (tc_push_vt e s)" by simp
    then show ?case by (simp add: tc_push_vt_def split: if_splits)
  qed simp
  then show "tc_ok (tc_push_vals ts tx n s) \<Longrightarrow> tc_ok s" by (simp add: push_vals_fold)
qed

lemma push_vals_ok:
  assumes "tc_nvals s \<le> MAX_STACK"
  shows "tc_ok (tc_push_vals ts tx n s) \<longleftrightarrow> tc_ok s \<and> tc_nvals s + n \<le> MAX_STACK"
proof (cases "tc_nvals s + n \<le> MAX_STACK")
  case True
  then show ?thesis by (simp add: push_vals_spec)
next
  case False
  then show ?thesis using push_vals_overflow [of s n ts tx] assms by simp
qed

text \<open>
  \<open>end\<close> accepts a block exactly when the block's results, and nothing else, lie above the
  frame's height (in dead code any part of them may be missing), they match, and, for an \<open>if\<close>
  whose \<open>else\<close> never came, the number of parameters equals the number of results.  The
  parameter and result types of such an \<open>if\<close> are not compared.
\<close>

theorem end_rule:
  assumes "tc_nvals s \<le> MAX_STACK" "cf_val_height f \<le> tc_nvals s"
    and "f = tc_top s" "n = cf_nend f" "avail = tc_nvals s - cf_val_height f"
    and "fits = (cf_val_height f + n \<le> MAX_STACK)"
  shows "tc_ok (op_end E s) \<longleftrightarrow> tc_ok s \<and> fits \<and> avail \<le> n \<and> (avail = n \<or> cf_unreachable f) \<and>
     pop_matches (ve_lat E) (take avail (tc_vals s)) (vts (cf_end f) (cf_end_tidx f) n) \<and>
     (cf_opcode f = 0x04 \<and> cf_else_e f \<noteq> None \<longrightarrow> cf_nstart f = n)"
proof -
  define p where "p = tc_pop_vals (ve_lat E) (cf_end f) (cf_end_tidx f) n
    (case cf_try_idx f of
       Some i \<Rightarrow> s\<lparr>tc_trytab := (tc_trytab s)[i := (tc_trytab s ! i)\<lparr>tr_end_pc := word_of_nat (tc_pos s)\<rparr>]\<rparr>
     | None \<Rightarrow> s)"
  have s1: "tc_vals (case cf_try_idx f of Some i \<Rightarrow> s\<lparr>tc_trytab := g i\<rparr> | None \<Rightarrow> s) = tc_vals s"
    "tc_ok (case cf_try_idx f of Some i \<Rightarrow> s\<lparr>tc_trytab := g i\<rparr> | None \<Rightarrow> s) = tc_ok s"
    "tc_top (case cf_try_idx f of Some i \<Rightarrow> s\<lparr>tc_trytab := g i\<rparr> | None \<Rightarrow> s) = f" for g
    by (simp_all add: assms(3) tc_top_def split: option.split)
  then have av: "tc_avail (case cf_try_idx f of Some i \<Rightarrow> s\<lparr>tc_trytab := g i\<rparr> | None \<Rightarrow> s) = avail" for g
    by (simp add: tc_avail_def assms(5))
  have vals: "tc_vals p = drop (min n avail) (tc_vals s)"
    and ok: "tc_ok p \<longleftrightarrow> tc_ok s \<and> (n \<le> avail \<or> cf_unreachable f) \<and>
      pop_matches (ve_lat E) (take (min n avail) (tc_vals s)) (vts (cf_end f) (cf_end_tidx f) n)"
    unfolding p_def by (simp_all add: pop_vals_spec s1 av)
  have len: "tc_nvals p = cf_val_height f \<longleftrightarrow> avail \<le> n" "tc_nvals p \<le> MAX_STACK"
    using assms(1,2) by (auto simp: vals assms(5))
  define q where "q = (if tc_nvals p \<noteq> cf_val_height f then tc_fail p else p)"
  define q2 where "q2 = (if cf_opcode f = 0x04 then
      (case cf_else_e f of
         Some e \<Rightarrow> set_tip e (tc_pos q) (if cf_nstart f \<noteq> cf_nend f then tc_fail q else q)
       | None \<Rightarrow> q) else q)"
  have q2v: "tc_vals q2 = tc_vals p"
    by (simp add: q2_def q_def set_tip_def tc_fail_def split: option.split)
  have q2ok: "tc_ok q2 \<longleftrightarrow> tc_ok p \<and> avail \<le> n \<and> (cf_opcode f = 0x04 \<and> cf_else_e f \<noteq> None \<longrightarrow> cf_nstart f = n)"
    using len(1) by (auto simp: q2_def q_def assms(4) set_tip_def tc_fail_def split: option.split)
  define q3 where "q3 = (tc_reset_locals (cf_init_height f) (set_tips (cf_fixups (tc_top q2)) (tc_pos q2) q2))"
  have q3: "tc_vals (q3\<lparr>tc_ctrls := cs\<rparr>) = tc_vals p" "tc_ok (q3\<lparr>tc_ctrls := cs\<rparr>) = tc_ok q2" for cs
    by (simp_all add: q3_def reset_locals_fields set_tips_fields q2v)
  have "op_end E s = tc_push_vals (cf_end f) (cf_end_tidx f) n (q3\<lparr>tc_ctrls := tl (tc_ctrls q3)\<rparr>)"
    unfolding op_end_def Let_def assms(3) [symmetric] assms(4) [symmetric] p_def [symmetric]
      q_def [symmetric] by (simp only: q2_def q3_def assms(4))
  then have "tc_ok (op_end E s) \<longleftrightarrow> tc_ok q2 \<and> tc_nvals p + n \<le> MAX_STACK"
    using push_vals_ok [of "q3\<lparr>tc_ctrls := tl (tc_ctrls q3)\<rparr>"] len(2) by (simp only: q3)
  then show ?thesis using len(1) by (auto simp: q2ok ok assms(6) min_def)
qed

text \<open>At the end of a body that has its one \<open>i64\<close> result on the stack.\<close>

definition end_state :: tcst where
  "end_state = (tc_init ex_cx)\<lparr>tc_vals := [VT_NUM WVT_I64], tc_pos := 1\<rparr>"

theorem end_rule_witness: "tc_ok (op_end (ex_env [0x0b]) end_state)"
proof -
  have top: "tc_top end_state = tc_top (tc_init ex_cx)" by (simp add: end_state_def tc_top_def)
  have f: "cf_val_height (tc_top (tc_init ex_cx)) = 0" "cf_nend (tc_top (tc_init ex_cx)) = 1"
    "cf_end (tc_top (tc_init ex_cx)) = [WVT_I64]" "cf_opcode (tc_top (tc_init ex_cx)) = 2"
    "cf_end_tidx (tc_top (tc_init ex_cx)) = None" "tc_ok (tc_init ex_cx)"
    by (simp_all add: tc_init_def tc_push_ctrl_def tc_push_vals_def Let_def tc_top_def ex_cx_def)
  show ?thesis
    using end_rule [of end_state "tc_top end_state" 1 1 True "ex_env [0x0b]"]
    by (simp add: top f) (simp add: end_state_def f vts_def typ_at_def vt_from_def pop_matches_def
        tc_matches_def)
qed


section \<open>The two generated tables agree\<close>

definition row_agrees :: "nat \<times> opsig \<Rightarrow> nat \<times> jit_meta \<Rightarrow> bool" where
  "row_agrees a b \<longleftrightarrow> fst a = fst b \<and> length (sig_pops (snd a)) = jm_pop (snd b) \<and>
     length (sig_pushes (snd a)) = jm_push (snd b)"

lemma agree_row_at:
  assumes "list_all2 row_agrees xs ys"
  shows "length (sig_pops (row_at opsig_zero xs i)) = jm_pop (row_at meta_zero ys i) \<and>
    length (sig_pushes (row_at opsig_zero xs i)) = jm_push (row_at meta_zero ys i)"
  using assms
proof (induction rule: list_all2_induct)
  case Nil
  then show ?case by (simp add: row_at_def opsig_zero_def meta_zero_def)
next
  case (Cons x xs y ys)
  then show ?case by (cases x; cases y) (auto simp: row_at_def row_agrees_def)
qed

lemmas row_eval = row_agrees_def opsig_row_def meta_row_def list_all2_append

lemma rows_agree:
  "list_all2 row_agrees jav_opsig_rows1 jav_jit_meta_rows1"
  "list_all2 row_agrees jav_opsig_rows2 jav_jit_meta_rows2"
  "list_all2 row_agrees jav_opsig_sub_fc_rows jav_jit_meta_sub_fc_rows"
  "list_all2 row_agrees jav_opsig_sub_fb_rows jav_jit_meta_sub_fb_rows"
  "list_all2 row_agrees jav_opsig_sub_fd_rows1 jav_jit_meta_sub_fd_rows1"
  "list_all2 row_agrees jav_opsig_sub_fd_rows2 jav_jit_meta_sub_fd_rows2"
  by code_simp+

text \<open>
  The signature table the type checker uses and the height table the constant-expression
  gate and the JIT use agree on every opcode: \<open>pop\<close> and \<open>push\<close> of \<open>jav_jit_meta\<close> are the numbers
  of operand and result types of \<open>jav_opsig\<close>, for plain and for prefixed opcodes.
\<close>

theorem sig_meta_agree:
  "length (sig_pops (jav_opsig op)) = jm_pop (jav_jit_meta op) \<and>
   length (sig_pushes (jav_opsig op)) = jm_push (jav_jit_meta op) \<and>
   rel_option (\<lambda>(n, sg) (m, mt). n = m \<and>
     (\<forall>i. length (sig_pops (sg i)) = jm_pop (mt i) \<and> length (sig_pushes (sg i)) = jm_push (mt i)))
     (jav_opsig_sub op) (jav_jit_meta_sub op)"
proof -
  have "list_all2 row_agrees (jav_opsig_rows1 @ jav_opsig_rows2) (jav_jit_meta_rows1 @ jav_jit_meta_rows2)"
    "list_all2 row_agrees (jav_opsig_sub_fd_rows1 @ jav_opsig_sub_fd_rows2)
       (jav_jit_meta_sub_fd_rows1 @ jav_jit_meta_sub_fd_rows2)"
    using rows_agree by (simp_all add: list_all2_appendI)
  note a = agree_row_at [OF this(1)] agree_row_at [OF this(2)] agree_row_at [OF rows_agree(3)]
    agree_row_at [OF rows_agree(4)]
  show ?thesis
    unfolding jav_opsig_def jav_jit_meta_def jav_opsig_sub_def jav_jit_meta_sub_def
    using a by simp
qed

section \<open>Constant expressions\<close>

lemma stk_skip_operands: "stk E s (tc_skip_operands E m s)"
  unfolding tc_skip_operands_def by (rule stk_fold) (simp_all add: stk_rules)

lemma const_walk_total:
  assumes r: "reader_ok (ve_rd E)"
  shows "tc_pos s \<le> length (ve_code E) \<Longrightarrow> \<exists>b. const_walk E s h = Some b"
proof (induction "length (ve_code E) - tc_pos s" arbitrary: s h rule: less_induct)
  case less
  obtain k op s1 where rd: "rd_u8 E s = (k, op, s1)" by (rule prod_cases3)
  show ?case
  proof (cases k)
    case False
    then have "const_walk E s h = Some False" by (subst const_walk.simps) (simp add: rd)
    then show ?thesis by blast
  next
    case True
    then have lt: "tc_pos s < length (ve_code E)"
      using reader_ok_u8(2) [OF r, of "ve_code E" "tc_pos s"] rd
      by (cases "tc_pos s < length (ve_code E)") (auto simp: rd_u8_def split_beta)
    then have p: "tc_pos s < length (ve_code E)" "s1 = s\<lparr>tc_pos := tc_pos s + 1\<rparr>"
      using reader_ok_u8(1) [OF r lt] rd by (simp_all add: rd_u8_def)
    let ?s2 = "tc_skip_operands E (jav_jit_meta op) s1"
    have "tc_pos s1 \<le> tc_pos ?s2" "tc_pos ?s2 \<le> length (ve_code E)"
      using stk_skip_operands [of E s1 "jav_jit_meta op"] r p by (simp_all add: stk_def)
    then obtain b where "const_walk E ?s2 (h + int (jm_push (jav_jit_meta op)) - int (jm_pop (jav_jit_meta op))) = Some b"
      using less(1) [of ?s2] p by fastforce
    then show ?thesis by (subst const_walk.simps) (auto simp: rd True)
  qed
qed

text \<open>
  The constant-expression gate returns a verdict on every byte string.
\<close>

theorem const_expr_returns:
  assumes "reader_ok (ve_rd E)"
  shows "\<exists>b. jav_validate_const_expr E = Some b"
  unfolding jav_validate_const_expr_def by (rule const_walk_total [OF assms]) simp

theorem const_expr_returns_witness: "\<exists>b. jav_validate_const_expr (ex_env [0x41, 7, 0x0b]) = Some b"
  by (rule const_expr_returns) (simp add: byte_reader_ok)


end
