(* ===== verification/ModuleTypes.thy ===== *)
theory ModuleTypes
  imports Vtypes
begin

text \<open>
  The type-section checks of module validation, \<open>wasm/src/jav_module_validate.c\<close>: limits, tag
  types, closed types, and the structural match of a declared supertype.  A check that calls
  the subtype test can fail to return; its model is then \<open>None\<close>.
\<close>

section \<open>The flattened module index\<close>

text \<open>
  \<open>jav_modidx_t\<close> of \<open>jav_module_index.h\<close>: the arrays indexed by type, function, global, table,
  memory and tag.  The run-time descriptors \<open>rtts\<close> and the kept bodies are left out.
\<close>

record modidx =
  md_functypes :: "functype list"
  md_kinds :: "nat list"
  md_supers :: "int list"
  md_finality :: "bool list"
  md_nsupers :: "nat list"
  md_canon :: "int list option"
  md_group_start :: "nat list"
  md_structtypes :: "structtype list"
  md_arraytypes :: "arraytype list"
  md_type_field_packs :: "nat list option list option"
  md_func_sigs :: "functype list"
  md_func_type_idx :: "u32 list"
  md_nimport_funcs :: nat
  md_global_types :: "valtype list"
  md_global_tidx :: "u32 list"
  md_global_mut :: "bool list"
  md_nimport_globals :: nat
  md_table_reftype :: "valtype list"
  md_table_tidx :: "u32 list"
  md_table_min :: "u64 list"
  md_table_max :: "u64 list"
  md_table_has_max :: "bool list"
  md_table_is64 :: "bool list"
  md_nimport_tables :: nat
  md_mem_min :: "u64 list"
  md_mem_max :: "u64 list"
  md_mem_has_max :: "bool list"
  md_mem_is64 :: "bool list"
  md_tags :: "functype list"
  md_nelems :: nat
  md_elem_reftype :: "valtype list"
  md_elem_tidx :: "u32 list"
  md_datacnt :: nat
  md_have_datacount :: bool

abbreviation md_ntypes :: "modidx \<Rightarrow> nat" where "md_ntypes m \<equiv> length (md_kinds m)"
abbreviation md_nfuncs :: "modidx \<Rightarrow> nat" where "md_nfuncs m \<equiv> length (md_func_sigs m)"
abbreviation md_nglobals :: "modidx \<Rightarrow> nat" where "md_nglobals m \<equiv> length (md_global_types m)"
abbreviation md_ntables :: "modidx \<Rightarrow> nat" where "md_ntables m \<equiv> length (md_table_reftype m)"
abbreviation md_nmems :: "modidx \<Rightarrow> nat" where "md_nmems m \<equiv> length (md_mem_min m)"
abbreviation md_ntags :: "modidx \<Rightarrow> nat" where "md_ntags m \<equiv> length (md_tags m)"

definition md_lattice :: "modidx \<Rightarrow> subtype_ctx" where
  "md_lattice m =
     \<lparr>sc_kinds = md_kinds m, sc_supers = md_supers m, sc_ntypes = md_ntypes m, sc_canon = md_canon m\<rparr>"

definition jav_module_cx :: "modidx \<Rightarrow> vctx" where
  "jav_module_cx m =
     \<lparr>cx_types = Some (md_functypes m), cx_ntypes = md_ntypes m,
      cx_func_sigs = Some (md_func_sigs m), cx_nfuncs = md_nfuncs m,
      cx_globals = md_global_types m, cx_global_tidx = Some (md_global_tidx m),
      cx_global_mut = Some (md_global_mut m), cx_func_type_idx = Some (md_func_type_idx m),
      cx_func_ref_declared = None, cx_locals = [], cx_nparams = 0, cx_local_tidx = None,
      cx_results = [], cx_result_tidx = None, cx_ntables = md_ntables m,
      cx_table_reftype = Some (md_table_reftype m), cx_table_tidx = Some (md_table_tidx m),
      cx_table_is64 = Some (md_table_is64 m), cx_nmemories = md_nmems m,
      cx_mem_is64 = Some (md_mem_is64 m), cx_structtypes = Some (md_structtypes m),
      cx_nstructtypes = md_ntypes m, cx_arraytypes = Some (md_arraytypes m),
      cx_narraytypes = md_ntypes m, cx_ndatas = md_datacnt m,
      cx_have_datacount = md_have_datacount m, cx_nelems = md_nelems m,
      cx_elem_reftype = Some (md_elem_reftype m), cx_elem_tidx = Some (md_elem_tidx m),
      cx_type_field_packs = md_type_field_packs m, cx_num_type_field_packs = md_ntypes m,
      cx_tags = Some (md_tags m), cx_ntags = md_ntags m, cx_lattice = Some (md_lattice m)\<rparr>"

section \<open>Limits\<close>

definition limits_range :: "u64 \<Rightarrow> u64 \<Rightarrow> bool \<Rightarrow> u64 \<Rightarrow> jav_err \<Rightarrow> jav_err" where
  "limits_range mn mx has_max k over =
     (if has_max \<and> mx < mn then JAV_E_SIZE_MIN_GT_MAX
      else if k < mn \<or> has_max \<and> k < mx then over
      else JAV_E_NONE)"

text \<open>The early-return loops: the first reason that is not \<open>JAV_E_NONE\<close>.\<close>

fun first_err :: "('a \<Rightarrow> jav_err) \<Rightarrow> 'a list \<Rightarrow> jav_err" where
  "first_err f [] = JAV_E_NONE"
| "first_err f (x # xs) = (if f x \<noteq> JAV_E_NONE then f x else first_err f xs)"

lemma first_err_none: "first_err f xs = JAV_E_NONE \<longleftrightarrow> (\<forall>x \<in> set xs. f x = JAV_E_NONE)"
  by (induction xs) auto

definition limits_err :: "modidx \<Rightarrow> jav_err" where
  "limits_err m =
     (let e = first_err (\<lambda>i. limits_range (md_table_min m ! i) (md_table_max m ! i)
                (md_table_has_max m ! i) (if md_table_is64 m ! i then - 1 else 0xFFFFFFFF)
                JAV_E_TABLE_SIZE) [0..<md_ntables m] in
      if e \<noteq> JAV_E_NONE then e
      else first_err (\<lambda>i. limits_range (md_mem_min m ! i) (md_mem_max m ! i)
                (md_mem_has_max m ! i) (if md_mem_is64 m ! i then push_bit 48 1 else 65536)
                JAV_E_MEMORY_SIZE) [0..<md_nmems m])"

definition tags_err :: "modidx \<Rightarrow> jav_err" where
  "tags_err m =
     first_err (\<lambda>i. if ft_nresults (md_tags m ! i) \<noteq> 0 then JAV_E_NONEMPTY_TAG_RESULT else JAV_E_NONE)
       [0..<md_ntags m]"

section \<open>Structural matching\<close>

text \<open>A conjunction of tests, left to right, that stops at the first refusal.\<close>

fun all_opt :: "('a \<Rightarrow> bool option) \<Rightarrow> 'a list \<Rightarrow> bool option" where
  "all_opt f [] = Some True"
| "all_opt f (x # xs) =
     (case f x of None \<Rightarrow> None | Some False \<Rightarrow> Some False | Some True \<Rightarrow> all_opt f xs)"

definition and_opt :: "bool option \<Rightarrow> bool option \<Rightarrow> bool option" where
  "and_opt a b = (case a of None \<Rightarrow> None | Some False \<Rightarrow> Some False | Some True \<Rightarrow> b)"

definition ref_to_ht :: "valtype \<Rightarrow> u32 \<Rightarrow> (bool \<times> int) option" where
  "ref_to_ht w tidx =
     (case w of WVT_REF \<Rightarrow> Some (True, sint tidx) | WVT_REF_NN \<Rightarrow> Some (False, sint tidx) | _ \<Rightarrow> None)"

definition reftype_sub :: "modidx \<Rightarrow> valtype \<Rightarrow> u32 \<Rightarrow> valtype \<Rightarrow> u32 \<Rightarrow> bool option" where
  "reftype_sub m aw ax bw bx =
     (case (ref_to_ht aw ax, ref_to_ht bw bx) of
        (Some (an, ah), Some (bn, bh)) \<Rightarrow> jav_rt_sub (Some (md_lattice m)) an ah bn bh
      | _ \<Rightarrow> Some False)"

definition md_vt_sub :: "modidx \<Rightarrow> valtype \<Rightarrow> u32 \<Rightarrow> valtype \<Rightarrow> u32 \<Rightarrow> bool option" where
  "md_vt_sub m aw ax bw bx =
     (case (ref_to_ht aw ax, ref_to_ht bw bx) of
        (Some (an, ah), Some (bn, bh)) \<Rightarrow> jav_rt_sub (Some (md_lattice m)) an ah bn bh
      | (None, None) \<Rightarrow> Some (aw = bw)
      | _ \<Rightarrow> Some False)"

text \<open>A field as the checks see it: value type, heap type, storage width, mutability.\<close>

type_synonym fieldty = "valtype \<times> u32 \<times> nat \<times> bool"

fun md_storage_sub :: "modidx \<Rightarrow> fieldty \<Rightarrow> fieldty \<Rightarrow> bool option" where
  "md_storage_sub m (aw, ax, apk, _) (bw, bx, bpk, _) =
     (if apk \<noteq> 0 \<or> bpk \<noteq> 0 then Some (apk = bpk) else md_vt_sub m aw ax bw bx)"

fun fd_mut :: "fieldty \<Rightarrow> bool" where
  "fd_mut (_, _, _, mut) = mut"

definition field_sub :: "modidx \<Rightarrow> fieldty \<Rightarrow> fieldty \<Rightarrow> bool option" where
  "field_sub m a b =
     (if fd_mut a \<noteq> fd_mut b then Some False
      else and_opt (md_storage_sub m a b)
             (if fd_mut a then md_storage_sub m b a else Some True))"

text \<open>The field \<open>i\<close> of struct type \<open>t\<close>, and the element of array type \<open>t\<close>.\<close>

definition packs_of :: "modidx \<Rightarrow> nat \<Rightarrow> nat list option" where
  "packs_of m t = (case md_type_field_packs m of Some ps \<Rightarrow> ps ! t | None \<Rightarrow> None)"

definition pack_at :: "modidx \<Rightarrow> nat \<Rightarrow> nat \<Rightarrow> nat" where
  "pack_at m t i = (case packs_of m t of Some pk \<Rightarrow> pk ! i | None \<Rightarrow> 0)"

definition struct_field :: "modidx \<Rightarrow> nat \<Rightarrow> nat \<Rightarrow> fieldty" where
  "struct_field m t i =
     (let s = md_structtypes m ! t in
      (sty_fields s ! i, tidx_at (sty_field_tidx s) i, pack_at m t i,
       case sty_field_mut s of Some l \<Rightarrow> l ! i | None \<Rightarrow> False))"

definition array_field :: "modidx \<Rightarrow> nat \<Rightarrow> fieldty" where
  "array_field m t =
     (let a = md_arraytypes m ! t in (aty_elem a, aty_elem_tidx a, pack_at m t 0, aty_elem_mut a))"

abbreviation nfields :: "modidx \<Rightarrow> nat \<Rightarrow> nat" where
  "nfields m t \<equiv> length (sty_fields (md_structtypes m ! t))"

definition comptype_sub :: "modidx \<Rightarrow> nat \<Rightarrow> nat \<Rightarrow> bool option" where
  "comptype_sub m a b =
     (if md_kinds m ! a = WST_STRUCT then
        (if nfields m a < nfields m b then Some False
         else all_opt (\<lambda>i. field_sub m (struct_field m a i) (struct_field m b i)) [0..<nfields m b])
      else if md_kinds m ! a = WST_ARRAY then field_sub m (array_field m a) (array_field m b)
      else
        let fa = md_functypes m ! a; fb = md_functypes m ! b in
        if ft_nparams fa \<noteq> ft_nparams fb \<or> ft_nresults fa \<noteq> ft_nresults fb then Some False
        else and_opt
          (all_opt (\<lambda>i. md_vt_sub m (ft_params fb ! i) (tidx_at (ft_param_tidx fb) i)
                          (ft_params fa ! i) (tidx_at (ft_param_tidx fa) i)) [0..<ft_nparams fa])
          (all_opt (\<lambda>i. md_vt_sub m (ft_results fa ! i) (tidx_at (ft_result_tidx fa) i)
                          (ft_results fb ! i) (tidx_at (ft_result_tidx fb) i)) [0..<ft_nresults fa]))"

section \<open>Closed types\<close>

definition htref_ok :: "modidx \<Rightarrow> valtype \<Rightarrow> u32 \<Rightarrow> bool" where
  "htref_ok m w tx \<longleftrightarrow>
     (if w \<noteq> WVT_REF \<and> w \<noteq> WVT_REF_NN then True
      else sint tx < 0 \<or> nat (sint tx) < md_ntypes m)"

text \<open>The value types a composite type names, with their heap types, in the order of the scan.\<close>

definition named_types :: "modidx \<Rightarrow> nat \<Rightarrow> (valtype \<times> u32) list" where
  "named_types m t =
     (if md_kinds m ! t = WST_STRUCT then
        (let s = md_structtypes m ! t in
         map (\<lambda>i. (sty_fields s ! i, tidx_at (sty_field_tidx s) i)) [0..<length (sty_fields s)])
      else if md_kinds m ! t = WST_ARRAY then
        (let a = md_arraytypes m ! t in [(aty_elem a, aty_elem_tidx a)])
      else
        (let f = md_functypes m ! t in
         map (\<lambda>i. (ft_params f ! i, tidx_at (ft_param_tidx f) i)) [0..<ft_nparams f] @
         map (\<lambda>i. (ft_results f ! i, tidx_at (ft_result_tidx f) i)) [0..<ft_nresults f]))"

definition type_closed_err :: "modidx \<Rightarrow> jav_err" where
  "type_closed_err m =
     first_err (\<lambda>t. if \<forall>(w, tx) \<in> set (named_types m t). htref_ok m w tx
                    then JAV_E_NONE else JAV_E_UNKNOWN_TYPE) [0..<md_ntypes m]"

section \<open>Declared supertypes\<close>

text \<open>One round of the loop; \<open>None\<close> when the structural match does not return.\<close>

definition type_err :: "modidx \<Rightarrow> nat \<Rightarrow> jav_err option" where
  "type_err m t =
     (if 1 < md_nsupers m ! t then Some JAV_E_TYPE_MISMATCH
      else
        let sup = md_supers m ! t in
        if sup < 0 then Some JAV_E_NONE
        else if int t \<le> sup then Some JAV_E_UNKNOWN_TYPE
        else if md_finality m ! nat sup then Some JAV_E_SUB_TYPE
        else if md_kinds m ! t \<noteq> md_kinds m ! nat sup then Some JAV_E_SUB_TYPE
        else map_option (\<lambda>ok. if ok then JAV_E_NONE else JAV_E_SUB_TYPE) (comptype_sub m t (nat sup)))"

fun first_err_opt :: "('a \<Rightarrow> jav_err option) \<Rightarrow> 'a list \<Rightarrow> jav_err option" where
  "first_err_opt f [] = Some JAV_E_NONE"
| "first_err_opt f (x # xs) =
     (case f x of None \<Rightarrow> None | Some e \<Rightarrow> if e \<noteq> JAV_E_NONE then Some e else first_err_opt f xs)"

definition types_err :: "modidx \<Rightarrow> jav_err option" where
  "types_err m =
     (if type_closed_err m \<noteq> JAV_E_NONE then Some (type_closed_err m)
      else first_err_opt (type_err m) [0..<md_ntypes m])"

end
