(* ===== verification/PrefixCode.thy ===== *)
theory PrefixCode
  imports Prelude
begin

text \<open>
  Byte codes that can be read back: a code is a prefix code when equal buffers starting with two
  code words start with the same one.  Sequences and counted sequences of prefix codes are again
  uniquely readable.  The serialization of types is built from such codes.
\<close>

unbundle bit_operations_syntax

section \<open>Four little-endian bytes\<close>

definition cpush32 :: "u32 \<Rightarrow> u8 list" where
  "cpush32 v = map (\<lambda>i. ucast (drop_bit (8 * i) v)) [0..<4]"

lemma length_cpush32 [simp]: "length (cpush32 v) = 4"
  by (simp add: cpush32_def)

lemma cpush32_bit: "n < 32 \<Longrightarrow> bit v n = bit (cpush32 v ! (n div 8)) (n mod 8)"
proof -
  assume n: "n < 32"
  then have "n div 8 < 4" "n mod 8 < 8" by simp_all
  then show ?thesis
    by (simp add: cpush32_def bit_ucast_iff bit_drop_bit_eq mult_div_mod_eq)
qed

lemma cpush32_inj [simp]: "cpush32 v = cpush32 w \<longleftrightarrow> v = w"
proof
  assume eq: "cpush32 v = cpush32 w"
  show "v = w"
  proof (rule bit_word_eqI)
    fix n assume "n < LENGTH(32)"
    then show "bit v n = bit w n" using cpush32_bit [of n v] cpush32_bit [of n w] eq by simp
  qed
qed simp

lemma cpush32_append: "cpush32 v @ r = cpush32 w @ s \<longleftrightarrow> v = w \<and> r = s"
  by (simp add: append_eq_append_conv)

lemma word32_of_nat_inj: "m < 2 ^ 32 \<Longrightarrow> n < 2 ^ 32 \<Longrightarrow> (word_of_nat m :: u32) = word_of_nat n \<longleftrightarrow> m = n"
  by (simp add: word_of_nat_eq_iff take_bit_nat_eq_self)

section \<open>Prefix codes\<close>

locale prefix_code =
  fixes code :: "'a \<Rightarrow> u8 list" and ok :: "'a \<Rightarrow> bool"
  assumes pinj: "ok x \<Longrightarrow> ok y \<Longrightarrow> code x @ r = code y @ s \<Longrightarrow> x = y"
    and nonempty: "ok x \<Longrightarrow> code x \<noteq> []"
begin

lemma read: "ok x \<Longrightarrow> ok y \<Longrightarrow> code x @ r = code y @ s \<longleftrightarrow> x = y \<and> r = s"
  using pinj [of x y r s] by auto

lemma read_seq:
  assumes "length xs = length ys" "list_all ok xs" "list_all ok ys"
  shows "concat (map code xs) @ r = concat (map code ys) @ s \<longleftrightarrow> xs = ys \<and> r = s"
  using assms
proof (induction xs ys rule: list_induct2)
  case (Cons x xs y ys)
  then show ?case using read [of x y "concat (map code xs) @ r" "concat (map code ys) @ s"] by auto
qed simp

lemma read_counted:
  assumes "length xs < 2 ^ 32" "length ys < 2 ^ 32" "list_all ok xs" "list_all ok ys"
  shows "cpush32 (word_of_nat (length xs)) @ concat (map code xs) @ r =
      cpush32 (word_of_nat (length ys)) @ concat (map code ys) @ s \<longleftrightarrow> xs = ys \<and> r = s"
  using read_seq [of xs ys r s] assms by (auto simp: cpush32_append word32_of_nat_inj)

lemma read_all:
  "list_all ok xs \<Longrightarrow> list_all ok ys \<Longrightarrow> concat (map code xs) = concat (map code ys) \<longleftrightarrow> xs = ys"
proof (induction xs arbitrary: ys)
  case Nil
  then show ?case using nonempty by (cases ys) auto
next
  case (Cons x xs)
  show ?case
  proof (cases ys)
    case Nil
    then show ?thesis using nonempty Cons.prems by auto
  next
    case ys: (Cons y ys')
    then show ?thesis
      using read [of x y "concat (map code xs)" "concat (map code ys')"] Cons by auto
  qed
qed

end

end
