(* ===== verification/ModuleCanon.thy ===== *)
theory ModuleCanon
  imports ModuleTypes PrefixCode
begin

text \<open>
  Type canonicalization, \<open>wasm/src/jav_module_index.c\<close>: every recursive group is serialized,
  with references inside the group as positions and references to earlier groups as their
  canonical ids, and each (group, position) is interned.  Two types get one id when their closed
  forms are equal.

  \<open>canon\<close> is an array the code fills group by group; the model keeps it as a partial map, and a
  read of an entry that was not written (or lies outside the array) makes the result \<open>None\<close>.
\<close>

section \<open>Scope of references\<close>

text \<open>The recursive group that starts at \<open>g\<close> is the run of types with \<open>group_start\<close> equal to \<open>g\<close>.\<close>

definition group_len :: "modidx \<Rightarrow> nat \<Rightarrow> nat" where
  "group_len m g = length (takeWhile (\<lambda>t. md_group_start m ! t = g) [g..<md_ntypes m])"

definition concrete_ref :: "valtype \<Rightarrow> u32 \<Rightarrow> bool" where
  "concrete_ref w tx \<longleftrightarrow> (w = WVT_REF \<or> w = WVT_REF_NN) \<and> 0 \<le> sint tx"

definition type_refs_in_scope :: "modidx \<Rightarrow> bool" where
  "type_refs_in_scope m \<longleftrightarrow>
     (\<forall>t < md_ntypes m. \<forall>(w, tx) \<in> set (named_types m t).
        \<not> (concrete_ref w tx \<and> md_group_start m ! t + group_len m (md_group_start m ! t) \<le> unat tx))"

section \<open>Serialization\<close>

definition cbool :: "bool \<Rightarrow> u8" where
  "cbool b = (if b then 1 else 0)"

text \<open>The tag byte of a value type, its position in the generated enumeration.\<close>

definition vt_code :: "valtype \<Rightarrow> u8" where
  "vt_code w =
     (case w of WVT_BOT \<Rightarrow> 0 | WVT_I32 \<Rightarrow> 1 | WVT_I64 \<Rightarrow> 2 | WVT_F32 \<Rightarrow> 3 | WVT_F64 \<Rightarrow> 4
      | WVT_V128 \<Rightarrow> 5 | WVT_REF \<Rightarrow> 6 | WVT_REF_NN \<Rightarrow> 7)"

definition canon_ref :: "int \<Rightarrow> nat \<Rightarrow> nat \<Rightarrow> (nat \<rightharpoonup> nat) \<Rightarrow> u8 list option" where
  "canon_ref ht g gn canon =
     (if ht < 0 then Some (0x41 # cpush32 (word_of_int ht))
      else if g \<le> nat ht \<and> nat ht < g + gn then Some (0x52 # cpush32 (word_of_nat (nat ht - g)))
      else map_option (\<lambda>id. 0x43 # cpush32 (word_of_nat id)) (canon (nat ht)))"

definition canon_vt :: "valtype \<Rightarrow> u32 \<Rightarrow> nat \<Rightarrow> nat \<Rightarrow> (nat \<rightharpoonup> nat) \<Rightarrow> u8 list option" where
  "canon_vt w tidx g gn canon =
     (if w = WVT_REF \<or> w = WVT_REF_NN then map_option (Cons (vt_code w)) (canon_ref (sint tidx) g gn canon)
      else Some [vt_code w])"

text \<open>Buffers pushed one after the other.\<close>

definition cat_opt :: "u8 list option list \<Rightarrow> u8 list option" where
  "cat_opt xs = map_option concat (those xs)"

definition canon_field :: "fieldty \<Rightarrow> nat \<Rightarrow> nat \<Rightarrow> (nat \<rightharpoonup> nat) \<Rightarrow> u8 list option" where
  "canon_field f g gn canon =
     (case f of (w, tx, pk, mut) \<Rightarrow>
        map_option (\<lambda>v. cbool mut # word_of_nat pk # v) (canon_vt w tx g gn canon))"

definition canon_member :: "modidx \<Rightarrow> nat \<Rightarrow> nat \<Rightarrow> nat \<Rightarrow> (nat \<rightharpoonup> nat) \<Rightarrow> u8 list option" where
  "canon_member m t g gn canon =
     cat_opt
       ([Some [word_of_nat (md_kinds m ! t)], Some [cbool (md_finality m ! t)],
         (if 0 \<le> md_supers m ! t then map_option (Cons 1) (canon_ref (md_supers m ! t) g gn canon)
          else Some [0])] @
        (if md_kinds m ! t = WST_STRUCT then
           Some (cpush32 (word_of_nat (nfields m t))) #
           map (\<lambda>i. canon_field (struct_field m t i) g gn canon) [0..<nfields m t]
         else if md_kinds m ! t = WST_ARRAY then [canon_field (array_field m t) g gn canon]
         else
           let ft = md_functypes m ! t in
           Some (cpush32 (word_of_nat (ft_nparams ft))) #
           map (\<lambda>i. canon_vt (ft_params ft ! i) (tidx_at (ft_param_tidx ft) i) g gn canon) [0..<ft_nparams ft] @
           Some (cpush32 (word_of_nat (ft_nresults ft))) #
           map (\<lambda>i. canon_vt (ft_results ft ! i) (tidx_at (ft_result_tidx ft) i) g gn canon) [0..<ft_nresults ft]))"

section \<open>Interning\<close>

definition canon_intern :: "u8 list list \<Rightarrow> u8 list \<Rightarrow> nat \<times> u8 list list" where
  "canon_intern keys k =
     (let i = length (takeWhile (\<lambda>x. x \<noteq> k) keys) in
      if i < length keys then (i, keys) else (length keys, keys @ [k]))"

text \<open>The serialized group: its members rolled up in one buffer.\<close>

definition group_buf :: "modidx \<Rightarrow> nat \<Rightarrow> (nat \<rightharpoonup> nat) \<Rightarrow> u8 list option" where
  "group_buf m g canon =
     cat_opt (map (\<lambda>i. canon_member m (g + i) g (group_len m g) canon) [0..<group_len m g])"

text \<open>The inner loop: intern \<open>gbuf\<close> with each position and record the id.\<close>

fun intern_group ::
  "nat \<Rightarrow> u8 list \<Rightarrow> nat list \<Rightarrow> u8 list list \<times> (nat \<rightharpoonup> nat) \<Rightarrow> u8 list list \<times> (nat \<rightharpoonup> nat)" where
  "intern_group g gbuf [] (keys, canon) = (keys, canon)"
| "intern_group g gbuf (i # is) (keys, canon) =
     (let (id, keys) = canon_intern keys (gbuf @ cpush32 (word_of_nat i))
      in intern_group g gbuf is (keys, canon(g + i \<mapsto> id)))"

text \<open>
  The outer loop.  The outer option is divergence, the inner one a read of an unset entry.
\<close>

partial_function (option) canon_loop ::
  "modidx \<Rightarrow> nat \<Rightarrow> u8 list list \<Rightarrow> (nat \<rightharpoonup> nat) \<Rightarrow> (nat \<rightharpoonup> nat) option option" where
  "canon_loop m t keys canon =
     (if t < md_ntypes m then
        let g = md_group_start m ! t in
        (case group_buf m g canon of
           None \<Rightarrow> Some None
         | Some gbuf \<Rightarrow>
             let (keys', canon') = intern_group g gbuf [0..<group_len m g] (keys, canon)
             in canon_loop m (g + group_len m g) keys' canon')
      else Some (Some canon))"

declare canon_loop.simps [code]

definition compute_canon :: "modidx \<Rightarrow> int list option option" where
  "compute_canon m =
     map_option (map_option (\<lambda>canon. map (\<lambda>t. int (the (canon t))) [0..<md_ntypes m]))
       (canon_loop m 0 [] Map.empty)"

end
