(* ===== verification/ModuleTypesRules.thy ===== *)
theory ModuleTypesRules
  imports ModuleTypes
begin

text \<open>
  What the type-section pass guarantees: the structural match it computes is the declarative
  one of section 3.3.8, an accepted type matches every ancestor of its supertype chain, the
  pass returns when supertypes are earlier types, and a cyclic chain makes it hang.
\<close>

section \<open>Loops that stop early\<close>

lemma all_opt_True: "all_opt f xs = Some True \<longleftrightarrow> (\<forall>x \<in> set xs. f x = Some True)"
  by (induction xs) (auto split: option.splits bool.splits)

lemma all_opt_total: "(\<And>x. x \<in> set xs \<Longrightarrow> f x \<noteq> None) \<Longrightarrow> all_opt f xs \<noteq> None"
  by (induction xs) (auto split: option.splits bool.splits)

lemma and_opt_True: "and_opt a b = Some True \<longleftrightarrow> a = Some True \<and> b = Some True"
  by (auto simp: and_opt_def split: option.splits bool.splits)

lemma and_opt_total: "a \<noteq> None \<Longrightarrow> b \<noteq> None \<Longrightarrow> and_opt a b \<noteq> None"
  by (auto simp: and_opt_def split: option.splits bool.splits)

lemma first_err_opt_none:
  "first_err_opt f xs = Some JAV_E_NONE \<longleftrightarrow> (\<forall>x \<in> set xs. f x = Some JAV_E_NONE)"
  by (induction xs) (auto split: option.splits)

lemma first_err_opt_total: "(\<And>x. x \<in> set xs \<Longrightarrow> f x \<noteq> None) \<Longrightarrow> first_err_opt f xs \<noteq> None"
  by (induction xs) (auto split: option.splits)

section \<open>The declarative match\<close>

abbreviation lat :: "modidx \<Rightarrow> subtype_ctx option" where "lat m \<equiv> Some (md_lattice m)"

definition vt_match :: "modidx \<Rightarrow> valtype \<times> u32 \<Rightarrow> valtype \<times> u32 \<Rightarrow> bool" where
  "vt_match m a b =
     (case (ref_to_ht (fst a) (snd a), ref_to_ht (fst b) (snd b)) of
        (Some (an, ah), Some (bn, bh)) \<Rightarrow> ht_le (lat m) ah bh \<and> (an \<longrightarrow> bn)
      | (None, None) \<Rightarrow> fst a = fst b
      | _ \<Rightarrow> False)"

fun fd_vt :: "fieldty \<Rightarrow> valtype \<times> u32" where "fd_vt (w, x, _, _) = (w, x)"
fun fd_pack :: "fieldty \<Rightarrow> nat" where "fd_pack (_, _, pk, _) = pk"

definition storage_match :: "modidx \<Rightarrow> fieldty \<Rightarrow> fieldty \<Rightarrow> bool" where
  "storage_match m a b \<longleftrightarrow> fd_pack a = fd_pack b \<and> (fd_pack a = 0 \<longrightarrow> vt_match m (fd_vt a) (fd_vt b))"

definition field_match :: "modidx \<Rightarrow> fieldty \<Rightarrow> fieldty \<Rightarrow> bool" where
  "field_match m a b \<longleftrightarrow>
     fd_mut a = fd_mut b \<and> storage_match m a b \<and> (fd_mut a \<longrightarrow> storage_match m b a)"

definition ft_param :: "functype \<Rightarrow> nat \<Rightarrow> valtype \<times> u32" where
  "ft_param f i = (ft_params f ! i, tidx_at (ft_param_tidx f) i)"

definition ft_result :: "functype \<Rightarrow> nat \<Rightarrow> valtype \<times> u32" where
  "ft_result f i = (ft_results f ! i, tidx_at (ft_result_tidx f) i)"

definition func_match :: "modidx \<Rightarrow> functype \<Rightarrow> functype \<Rightarrow> bool" where
  "func_match m f g \<longleftrightarrow>
     ft_nparams f = ft_nparams g \<and> ft_nresults f = ft_nresults g \<and>
     (\<forall>i < ft_nparams f. vt_match m (ft_param g i) (ft_param f i)) \<and>
     (\<forall>i < ft_nresults f. vt_match m (ft_result f i) (ft_result g i))"

definition comp_match :: "modidx \<Rightarrow> nat \<Rightarrow> nat \<Rightarrow> bool" where
  "comp_match m a b =
     (if md_kinds m ! a = WST_STRUCT then
        nfields m b \<le> nfields m a \<and>
        (\<forall>i < nfields m b. field_match m (struct_field m a i) (struct_field m b i))
      else if md_kinds m ! a = WST_ARRAY then field_match m (array_field m a) (array_field m b)
      else func_match m (md_functypes m ! a) (md_functypes m ! b))"

text \<open>Type \<open>t\<close> names only types of the module.\<close>

definition vt_closed :: "modidx \<Rightarrow> valtype \<times> u32 \<Rightarrow> bool" where
  "vt_closed m a \<longleftrightarrow> htref_ok m (fst a) (snd a)"

definition type_closed :: "modidx \<Rightarrow> nat \<Rightarrow> bool" where
  "type_closed m t \<longleftrightarrow> (\<forall>a \<in> set (named_types m t). vt_closed m a)"

lemma type_closed_err_none:
  "type_closed_err m = JAV_E_NONE \<longleftrightarrow> (\<forall>t < md_ntypes m. type_closed m t)"
  by (simp add: type_closed_err_def first_err_none type_closed_def vt_closed_def split_beta atLeast0LessThan)
    blast

lemma closed_struct:
  "type_closed m t \<Longrightarrow> md_kinds m ! t = WST_STRUCT \<Longrightarrow> i < nfields m t \<Longrightarrow>
     vt_closed m (fd_vt (struct_field m t i))"
  by (simp add: type_closed_def named_types_def struct_field_def Let_def)

lemma closed_array:
  "type_closed m t \<Longrightarrow> md_kinds m ! t = WST_ARRAY \<Longrightarrow> vt_closed m (fd_vt (array_field m t))"
  by (simp add: type_closed_def named_types_def array_field_def Let_def)

lemma closed_func:
  assumes "type_closed m t" "md_kinds m ! t \<noteq> WST_STRUCT" "md_kinds m ! t \<noteq> WST_ARRAY"
  shows "i < ft_nparams (md_functypes m ! t) \<Longrightarrow> vt_closed m (ft_param (md_functypes m ! t) i)"
    and "i < ft_nresults (md_functypes m ! t) \<Longrightarrow> vt_closed m (ft_result (md_functypes m ! t) i)"
  using assms by (auto simp: type_closed_def named_types_def ft_param_def ft_result_def Let_def)

lemma closed_in_ctx:
  "vt_closed m (w, x) \<Longrightarrow> ref_to_ht w x = Some (n, h) \<Longrightarrow> ht_in_ctx (lat m) h"
  by (auto simp: vt_closed_def htref_ok_def ref_to_ht_def ht_in_ctx_def md_lattice_def
      split: valtype.splits if_splits)

section \<open>The code decides the match\<close>

lemma rt_sub_le:
  assumes wf: "wf_lattice (lat m)" and "ht_in_ctx (lat m) a" "ht_in_ctx (lat m) b"
  shows "jav_rt_sub (lat m) an a bn b = Some True \<longleftrightarrow> ht_le (lat m) a b \<and> (an \<longrightarrow> bn)"
proof -
  have "ht_sub (lat m) a b \<longleftrightarrow> ht_le (lat m) a b"
    using assms ht_le_imp_sub ht_sub_imp_le by blast
  then show ?thesis by (auto simp: jav_rt_sub_def jav_ht_sub_eq [OF wf] split: bool.splits)
qed

lemma vt_sub_match:
  assumes wf: "wf_lattice (lat m)" and "vt_closed m (w, x)" "vt_closed m (w', x')"
  shows "md_vt_sub m w x w' x' = Some True \<longleftrightarrow> vt_match m (w, x) (w', x')"
  using rt_sub_le [OF wf] closed_in_ctx [OF assms(2)] closed_in_ctx [OF assms(3)]
  by (auto simp: md_vt_sub_def vt_match_def split: option.split)

lemma storage_sub_match:
  assumes "wf_lattice (lat m)" "vt_closed m (fd_vt a)" "vt_closed m (fd_vt b)"
  shows "md_storage_sub m a b = Some True \<longleftrightarrow> storage_match m a b"
  using assms by (cases a; cases b) (auto simp: storage_match_def vt_sub_match)

lemma field_sub_match:
  assumes "wf_lattice (lat m)" "vt_closed m (fd_vt a)" "vt_closed m (fd_vt b)"
  shows "field_sub m a b = Some True \<longleftrightarrow> field_match m a b"
  using assms by (auto simp: field_sub_def field_match_def and_opt_True storage_sub_match)

lemma comptype_sub_iff:
  assumes wf: "wf_lattice (lat m)" and "type_closed m a" "type_closed m b"
    and k: "md_kinds m ! a = md_kinds m ! b"
  shows "comptype_sub m a b = Some True \<longleftrightarrow> comp_match m a b"
proof (cases "md_kinds m ! b = WST_STRUCT \<or> md_kinds m ! b = WST_ARRAY")
  case True
  have "i < nfields m b \<Longrightarrow> nfields m b \<le> nfields m a \<Longrightarrow> md_kinds m ! b = WST_STRUCT \<Longrightarrow>
      field_sub m (struct_field m a i) (struct_field m b i) = Some True \<longleftrightarrow>
      field_match m (struct_field m a i) (struct_field m b i)" for i
    using closed_struct [OF assms(2)] closed_struct [OF assms(3)] k by (intro field_sub_match [OF wf]) simp_all
  moreover have "md_kinds m ! b = WST_ARRAY \<Longrightarrow>
      field_sub m (array_field m a) (array_field m b) = Some True \<longleftrightarrow>
      field_match m (array_field m a) (array_field m b)"
    using closed_array [OF assms(2)] closed_array [OF assms(3)] k by (intro field_sub_match [OF wf]) simp_all
  ultimately show ?thesis
    using True k by (auto simp: comptype_sub_def comp_match_def all_opt_True)
next
  case False
  then have nk: "md_kinds m ! a \<noteq> WST_STRUCT" "md_kinds m ! a \<noteq> WST_ARRAY"
    "md_kinds m ! b \<noteq> WST_STRUCT" "md_kinds m ! b \<noteq> WST_ARRAY" using k by simp_all
  note c = closed_func [OF assms(2) nk(1,2)] closed_func [OF assms(3) nk(3,4)]
  let ?f = "md_functypes m ! a" and ?g = "md_functypes m ! b"
  have "ft_nparams ?f = ft_nparams ?g \<Longrightarrow> i < ft_nparams ?f \<Longrightarrow>
      md_vt_sub m (ft_params ?g ! i) (tidx_at (ft_param_tidx ?g) i) (ft_params ?f ! i)
        (tidx_at (ft_param_tidx ?f) i) = Some True \<longleftrightarrow> vt_match m (ft_param ?g i) (ft_param ?f i)" for i
    using c(1,3) [of i] by (simp add: ft_param_def vt_sub_match [OF wf])
  moreover have "ft_nresults ?f = ft_nresults ?g \<Longrightarrow> i < ft_nresults ?f \<Longrightarrow>
      md_vt_sub m (ft_results ?f ! i) (tidx_at (ft_result_tidx ?f) i) (ft_results ?g ! i)
        (tidx_at (ft_result_tidx ?g) i) = Some True \<longleftrightarrow> vt_match m (ft_result ?f i) (ft_result ?g i)" for i
    using c(2,4) [of i] by (simp add: ft_result_def vt_sub_match [OF wf])
  ultimately show ?thesis
    using nk by (auto simp: comptype_sub_def comp_match_def func_match_def all_opt_True and_opt_True Let_def)
qed

section \<open>Matching along the supertype chain\<close>

lemma vt_match_refl: "vt_match m a a"
  by (auto simp: vt_match_def hle_refl split: option.split)

lemma vt_match_trans:
  assumes "vt_match m a b" "vt_match m b d" "vt_closed m b"
  shows "vt_match m a d"
proof -
  obtain w x where b: "b = (w, x)" by (cases b)
  have in_ctx: "ref_to_ht w x = Some (n, h) \<Longrightarrow> ht_in_ctx (lat m) h" for n h
    using closed_in_ctx assms(3) b by blast
  show ?thesis
    using assms(1,2) in_ctx hle_trans
    by (fastforce simp: vt_match_def b split: option.splits)
qed

lemma storage_match_refl: "storage_match m a a"
  by (simp add: storage_match_def vt_match_refl)

lemma storage_match_trans:
  "storage_match m a b \<Longrightarrow> storage_match m b d \<Longrightarrow> vt_closed m (fd_vt b) \<Longrightarrow> storage_match m a d"
  using vt_match_trans [of m "fd_vt a" "fd_vt b" "fd_vt d"] by (auto simp: storage_match_def)

lemma field_match_trans:
  "field_match m a b \<Longrightarrow> field_match m b d \<Longrightarrow> vt_closed m (fd_vt b) \<Longrightarrow> field_match m a d"
  using storage_match_trans [of m a b d] storage_match_trans [of m d b a] by (auto simp: field_match_def)

lemma func_match_trans:
  assumes "func_match m f g" "func_match m g h"
    and "\<And>i. i < ft_nparams g \<Longrightarrow> vt_closed m (ft_param g i)"
    and "\<And>i. i < ft_nresults g \<Longrightarrow> vt_closed m (ft_result g i)"
  shows "func_match m f h"
  using assms vt_match_trans unfolding func_match_def by metis

lemma comp_match_refl: "comp_match m a a"
  by (simp add: comp_match_def field_match_def func_match_def storage_match_refl vt_match_refl)

lemma comp_match_trans:
  assumes "comp_match m a b" "comp_match m b d" "md_kinds m ! a = md_kinds m ! b" "type_closed m b"
  shows "comp_match m a d"
proof (cases "md_kinds m ! b = WST_STRUCT \<or> md_kinds m ! b = WST_ARRAY")
  case True
  then show ?thesis
    using assms closed_struct [OF assms(4)] closed_array [OF assms(4)]
      field_match_trans [of m "array_field m a" "array_field m b" "array_field m d"]
      field_match_trans [of m "struct_field m a i" "struct_field m b i" "struct_field m d i" for i]
    by (auto simp: comp_match_def)
next
  case False
  then show ?thesis
    using assms func_match_trans [OF _ _ closed_func [OF assms(4)]] by (simp add: comp_match_def)
qed

inductive ancestor :: "modidx \<Rightarrow> nat \<Rightarrow> nat \<Rightarrow> bool" for m where
  anc_refl: "ancestor m t t"
| anc_step: "0 \<le> md_supers m ! t \<Longrightarrow> ancestor m (nat (md_supers m ! t)) u \<Longrightarrow> ancestor m t u"

section \<open>Accepted type sections\<close>

lemma types_err_none:
  "types_err m = Some JAV_E_NONE \<longleftrightarrow>
     (\<forall>t < md_ntypes m. type_closed m t \<and> type_err m t = Some JAV_E_NONE)"
  using type_closed_err_none [of m] by (auto simp: types_err_def first_err_opt_none)

lemma type_err_super:
  assumes "type_err m t = Some JAV_E_NONE" "0 \<le> md_supers m ! t"
  shows "md_supers m ! t < int t" "md_kinds m ! t = md_kinds m ! nat (md_supers m ! t)"
    "md_finality m ! nat (md_supers m ! t) = False" "md_nsupers m ! t \<le> 1"
    "comptype_sub m t (nat (md_supers m ! t)) = Some True"
  using assms by (auto simp: type_err_def Let_def split: if_splits)

text \<open>
  An accepted type matches every ancestor in its supertype chain: it has at least the
  ancestor's fields, with storage that is equal (mutable) or a subtype (immutable), the same
  array element discipline, and a function type's parameters and results vary against and with
  the chain.  The use-site subtype test, which looks only at the chain, is therefore sound for
  field access.
\<close>

theorem ancestor_layout:
  assumes "types_err m = Some JAV_E_NONE" "wf_lattice (lat m)" "ancestor m t u" "t < md_ntypes m"
  shows "u < md_ntypes m \<and> md_kinds m ! t = md_kinds m ! u \<and> comp_match m t u"
  using assms(3,4)
proof (induction rule: ancestor.induct)
  case (anc_refl t)
  then show ?case by (simp add: comp_match_refl)
next
  case (anc_step t u)
  let ?s = "nat (md_supers m ! t)"
  have ok: "type_err m t = Some JAV_E_NONE" "type_closed m t"
    using assms(1) anc_step.prems by (auto simp: types_err_none)
  note sup = type_err_super [OF ok(1) anc_step.hyps(1)]
  have s: "?s < md_ntypes m" using sup(1) anc_step.prems anc_step.hyps(1) by linarith
  then have closed: "type_closed m ?s" using assms(1) by (auto simp: types_err_none)
  have "comp_match m t ?s" using comptype_sub_iff [OF assms(2) ok(2) closed sup(2)] sup(5) by blast
  then show ?case
    using comp_match_trans [OF _ _ sup(2) closed] anc_step.IH [OF s] sup(2) by simp
qed

section \<open>Termination\<close>

lemma rt_sub_total: "supers_earlier (lat m) \<Longrightarrow> jav_rt_sub (lat m) an a bn b \<noteq> None"
  using jav_ht_sub_total [of "lat m" a b] by (auto simp: jav_rt_sub_def split: option.split bool.split)

lemma md_vt_sub_total: "supers_earlier (lat m) \<Longrightarrow> md_vt_sub m aw ax bw bx \<noteq> None"
  using rt_sub_total [of m] by (auto simp: md_vt_sub_def split: option.split)

lemma field_sub_total: "supers_earlier (lat m) \<Longrightarrow> field_sub m a b \<noteq> None"
proof -
  assume s: "supers_earlier (lat m)"
  have "md_storage_sub m a b \<noteq> None" for a b
    by (cases a; cases b) (simp add: md_vt_sub_total [OF s] del: not_None_eq)
  then show ?thesis by (simp add: field_sub_def and_opt_total del: not_None_eq)
qed

lemma comptype_sub_total: "supers_earlier (lat m) \<Longrightarrow> comptype_sub m a b \<noteq> None"
proof -
  assume s: "supers_earlier (lat m)"
  note t = field_sub_total [OF s] md_vt_sub_total [OF s]
  show ?thesis
    unfolding comptype_sub_def Let_def
    by (simp add: t all_opt_total and_opt_total del: not_None_eq)
qed

text \<open>
  The type-section pass returns when every declared supertype is an earlier type.
\<close>

theorem types_err_returns:
  assumes "\<forall>t < md_ntypes m. md_supers m ! t < int t"
  shows "\<exists>e. types_err m = Some e"
proof -
  have s: "supers_earlier (lat m)" using assms by (simp add: supers_earlier_def md_lattice_def)
  have "type_err m t \<noteq> None" for t
    using comptype_sub_total [OF s] by (simp add: type_err_def Let_def del: not_None_eq)
  then show ?thesis using first_err_opt_total [of _ "type_err m"] by (auto simp: types_err_def)
qed

section \<open>A module with three struct types\<close>

text \<open>
  Type 0 has one immutable \<open>i32\<close> field, type 1 extends it by a mutable \<open>(ref null 0)\<close>, type 2
  extends type 1 without adding a field.
\<close>

definition ref_struct :: "valtype list \<Rightarrow> u32 list \<Rightarrow> bool list \<Rightarrow> structtype" where
  "ref_struct ts xs ms = \<lparr>sty_fields = ts, sty_field_tidx = Some xs, sty_field_mut = Some ms\<rparr>"

definition struct_module :: "int list \<Rightarrow> structtype list \<Rightarrow> modidx" where
  "struct_module sups sts =
     \<lparr>md_functypes = [], md_kinds = map (\<lambda>_. WST_STRUCT) sups, md_supers = sups,
      md_finality = map (\<lambda>_. False) sups, md_nsupers = map (\<lambda>s. if s < 0 then 0 else 1) sups,
      md_canon = Some (map int [0..<length sups]), md_group_start = map (\<lambda>_. 0) sups,
      md_structtypes = sts, md_arraytypes = [], md_type_field_packs = None,
      md_func_sigs = [], md_func_type_idx = [], md_nimport_funcs = 0, md_global_types = [],
      md_global_tidx = [], md_global_mut = [], md_nimport_globals = 0, md_table_reftype = [],
      md_table_tidx = [], md_table_min = [], md_table_max = [], md_table_has_max = [],
      md_table_is64 = [], md_nimport_tables = 0, md_mem_min = [1], md_mem_max = [2],
      md_mem_has_max = [True], md_mem_is64 = [False], md_tags = [], md_nelems = 0,
      md_elem_reftype = [], md_elem_tidx = [], md_datacnt = 0, md_have_datacount = False\<rparr>"

definition three_structs :: modidx where
  "three_structs = struct_module [-1, 0, 1]
     [ref_struct [WVT_I32] [0] [False],
      ref_struct [WVT_I32, WVT_REF] [0, 0] [False, True],
      ref_struct [WVT_I32, WVT_REF] [0, 0] [False, True]]"

lemma three_wf: "wf_lattice (lat three_structs)"
  by (simp add: wf_lattice_def wf_subtype_ctx_def md_lattice_def three_structs_def struct_module_def
      canon_eq_def canon_super_def numeral_3_eq_3 All_less_Suc upt_rec)

lemma rt_sub_refl: "jav_rt_sub c n a n a = Some True"
  by (simp add: jav_rt_sub_def jav_ht_sub_def)

lemmas type_eval = type_err_def Let_def comptype_sub_def field_sub_def struct_field_def pack_at_def
  packs_of_def tidx_at_def md_vt_sub_def ref_to_ht_def and_opt_def rt_sub_refl ref_struct_def
  struct_module_def

lemma three_accepted: "types_err three_structs = Some JAV_E_NONE"
proof -
  have closed: "type_closed_err three_structs = JAV_E_NONE"
    by (simp add: type_closed_err_def first_err_none named_types_def htref_ok_def three_structs_def
        struct_module_def ref_struct_def tidx_at_def Let_def All_less_Suc numeral_3_eq_3 upt_rec)
  have "\<forall>t < 3. type_err three_structs t = Some JAV_E_NONE"
    by (simp add: numeral_3_eq_3 All_less_Suc type_eval three_structs_def upt_rec)
  moreover have "md_ntypes three_structs = 3" by (simp add: three_structs_def struct_module_def)
  ultimately show ?thesis using closed by (simp add: types_err_def first_err_opt_none)
qed

theorem ancestor_layout_witness: "comp_match three_structs 2 0"
proof -
  have "ancestor three_structs 2 0"
    by (rule anc_step, simp add: three_structs_def struct_module_def,
        rule anc_step, simp add: three_structs_def struct_module_def)
      (simp add: three_structs_def struct_module_def anc_refl)
  then show ?thesis
    using ancestor_layout [OF three_accepted three_wf, of 2 0]
    by (simp add: three_structs_def struct_module_def)
qed

theorem types_err_returns_witness: "\<exists>e. types_err three_structs = Some e"
  by (rule types_err_returns)
    (simp add: three_structs_def struct_module_def All_less_Suc numeral_3_eq_3)

text \<open>
  The structural match the type-section pass computes is the declarative one: struct width
  and depth, array element, function parameters against and results with the subtype order,
  immutable storage covariant, mutable and packed storage invariant.
\<close>

theorem comptype_sub_correct:
  assumes "wf_lattice (lat m)" "type_closed m a" "type_closed m b" "md_kinds m ! a = md_kinds m ! b"
  shows "comptype_sub m a b = Some True \<longleftrightarrow> comp_match m a b"
  using assms by (rule comptype_sub_iff)

theorem comptype_sub_correct_witness: "comp_match three_structs 1 0"
proof -
  have k: "type_closed three_structs 0" "type_closed three_structs 1"
    "type_err three_structs 1 = Some JAV_E_NONE"
    using three_accepted by (auto simp: types_err_none three_structs_def struct_module_def)
  have "md_supers three_structs ! 1 = 0" by (simp add: three_structs_def struct_module_def)
  then have "comptype_sub three_structs 1 0 = Some True" using type_err_super [OF k(3)] by simp
  then show ?thesis
    using comptype_sub_correct [OF three_wf k(2,1)] by (simp add: three_structs_def struct_module_def)
qed

section \<open>A type section that makes validation hang\<close>

text \<open>
  Types 2 and 3 of one recursive group name each other as supertype.  Type 1, a subtype of type
  0, is checked first: comparing its field \<open>(ref null 2)\<close> with \<open>(ref null 0)\<close> climbs from 2 to 3
  to 2 without end, before the pass reaches the test that supertypes are earlier types.
\<close>

definition cyclic_structs :: modidx where
  "cyclic_structs = struct_module [-1, 0, 3, 2]
     [ref_struct [WVT_REF] [0] [False], ref_struct [WVT_REF] [2] [False],
      ref_struct [] [] [], ref_struct [] [] []]"

text \<open>
  C31. On that type section the pass does not return.
\<close>

theorem types_err_diverges: "types_err cyclic_structs = None"
proof -
  let ?c = "md_lattice cyclic_structs"
  have c: "sc_ntypes ?c = 4" "sc_supers ?c = [-1, 0, 3, 2]" "sc_canon ?c = Some [0, 1, 2, 3]"
    by (simp_all add: md_lattice_def cyclic_structs_def struct_module_def upt_rec)
  have "super_chain ?c 0 2 = None"
    by (rule super_chain_cycle [where S = "{2, 3}"]) (auto simp: c canon_eq_def)
  then have sub: "jav_rt_sub (lat cyclic_structs) True 2 True 0 = None"
    by (simp add: jav_rt_sub_def jav_ht_sub_def)
  have closed: "type_closed_err cyclic_structs = JAV_E_NONE"
    by (simp add: type_closed_err_def first_err_none named_types_def htref_ok_def cyclic_structs_def
        struct_module_def ref_struct_def tidx_at_def Let_def All_less_Suc eval_nat_numeral upt_rec)
  have kinds: "md_kinds cyclic_structs = [WST_STRUCT, WST_STRUCT, WST_STRUCT, WST_STRUCT]"
    by (simp add: cyclic_structs_def struct_module_def)
  have s0: "struct_field cyclic_structs 0 0 = (WVT_REF, 0, 0, False)"
    "struct_field cyclic_structs 1 0 = (WVT_REF, 2, 0, False)"
    by (simp_all add: struct_field_def cyclic_structs_def struct_module_def ref_struct_def pack_at_def
        packs_of_def tidx_at_def)
  have "field_sub cyclic_structs (WVT_REF, 2, 0, False) (WVT_REF, 0, 0, False) = None"
    using sub by (simp add: field_sub_def md_vt_sub_def ref_to_ht_def and_opt_def)
  then have "comptype_sub cyclic_structs 1 0 = None"
    using s0 by (simp add: comptype_sub_def kinds upt_rec)
      (simp add: cyclic_structs_def struct_module_def ref_struct_def)
  then have "type_err cyclic_structs 1 = None"
    by (simp add: type_err_def kinds) (simp add: cyclic_structs_def struct_module_def)
  moreover have "type_err cyclic_structs 0 = Some JAV_E_NONE"
    by (simp add: type_err_def cyclic_structs_def struct_module_def)
  ultimately show ?thesis using closed by (simp add: types_err_def kinds upt_rec)
qed

section \<open>Limits\<close>

definition limits_ok :: "nat \<Rightarrow> u64 \<Rightarrow> u64 \<Rightarrow> bool \<Rightarrow> bool" where
  "limits_ok k mn mx has_max \<longleftrightarrow>
     unat mn \<le> k \<and> (has_max \<longrightarrow> unat mn \<le> unat mx \<and> unat mx \<le> k)"

lemma limits_range_none:
  assumes "over \<noteq> JAV_E_NONE"
  shows "limits_range mn mx h k over = JAV_E_NONE \<longleftrightarrow> limits_ok (unat k) mn mx h"
  using assms by (auto simp: limits_range_def limits_ok_def word_less_nat_alt word_le_nat_alt not_less)

text \<open>
  The limits check accepts exactly the limits within the bounds of section 3.2: minimum and
  maximum at most \<open>2^32 - 1\<close> entries (\<open>2^64 - 1\<close> for a 64-bit table) or \<open>2^16\<close> pages (\<open>2^48\<close> for a
  64-bit memory), and the minimum at most the maximum.
\<close>

theorem limits_err_correct:
  "limits_err m = JAV_E_NONE \<longleftrightarrow>
     (\<forall>i < md_ntables m. limits_ok (if md_table_is64 m ! i then 2 ^ 64 - 1 else 2 ^ 32 - 1)
        (md_table_min m ! i) (md_table_max m ! i) (md_table_has_max m ! i)) \<and>
     (\<forall>i < md_nmems m. limits_ok (if md_mem_is64 m ! i then 2 ^ 48 else 2 ^ 16)
        (md_mem_min m ! i) (md_mem_max m ! i) (md_mem_has_max m ! i))"
proof -
  have k: "unat (if b then - 1 else 0xFFFFFFFF :: u64) = (if b then 2 ^ 64 - 1 else 2 ^ 32 - 1)"
    "unat (if b then push_bit 48 1 else 65536 :: u64) = (if b then 2 ^ 48 else 2 ^ 16)" for b
    by (simp_all add: unsigned_minus_1_eq_mask mask_eq_exp_minus_1 push_bit_eq_mult)
  have either: "(if a \<noteq> JAV_E_NONE then a else b) = JAV_E_NONE \<longleftrightarrow> a = JAV_E_NONE \<and> b = JAV_E_NONE" for a b
    by simp
  show ?thesis
    unfolding limits_err_def Let_def
    by (subst either) (simp only: first_err_none limits_range_none [of JAV_E_TABLE_SIZE, simplified]
        limits_range_none [of JAV_E_MEMORY_SIZE, simplified] k set_upt atLeast0LessThan lessThan_iff Ball_def)
qed

theorem limits_err_correct_witness: "limits_err three_structs = JAV_E_NONE"
  by (subst limits_err_correct) (simp add: three_structs_def struct_module_def limits_ok_def)

end
