(* ===== verification/ModuleCanonForm.thy ===== *)
theory ModuleCanonForm
  imports ModuleCanon ModuleTypesRules
begin

text \<open>
  The closed forms of types, and that the serialization of \<open>canon_member\<close> is a uniquely readable
  code for them: the byte-level routine refines an abstract one on closed forms.
\<close>

section \<open>Closed forms\<close>

text \<open>
  A reference: an abstract heap type, a position in the own group, or a type of an earlier group.
  The type parameter is what stands for such a type: its canonical id in the code, the whole
  closed type in the specification.
\<close>

datatype 'r cref = AbsRef u32 | RecRef u32 | CanonRef 'r

type_synonym 'r cvt = "valtype \<times> 'r cref option"
type_synonym 'r cfield = "bool \<times> nat \<times> 'r cvt"

datatype 'r cbody = CStruct "'r cfield list" | CArray "'r cfield" | CFunc "'r cvt list" "'r cvt list"

text \<open>Kind, finality, declared supertype, composite type.\<close>

datatype 'r cform = CForm nat bool "'r cref option" "'r cbody"

text \<open>
  A closed type: the forms of its recursive group, in which every reference that leaves the group
  is again a closed type, and its position in the group.
\<close>

datatype ctype = CType "ctype cform list" nat

section \<open>Their codes\<close>

fun enc_cref :: "u32 cref \<Rightarrow> u8 list" where
  "enc_cref (AbsRef v) = 0x41 # cpush32 v"
| "enc_cref (RecRef v) = 0x52 # cpush32 v"
| "enc_cref (CanonRef v) = 0x43 # cpush32 v"

interpretation cref_code: prefix_code enc_cref "\<lambda>_. True"
proof
  fix x y r s assume "enc_cref x @ r = enc_cref y @ s"
  then show "x = y" by (cases x; cases y) (simp_all add: cpush32_append)
next
  fix x show "enc_cref x \<noteq> []" by (cases x) simp_all
qed

abbreviation is_ref :: "valtype \<Rightarrow> bool" where
  "is_ref w \<equiv> w = WVT_REF \<or> w = WVT_REF_NN"

fun enc_cvt :: "u32 cvt \<Rightarrow> u8 list" where
  "enc_cvt (w, None) = [vt_code w]"
| "enc_cvt (w, Some r) = vt_code w # enc_cref r"

fun cvt_ok :: "u32 cvt \<Rightarrow> bool" where
  "cvt_ok (w, r) \<longleftrightarrow> (r \<noteq> None \<longleftrightarrow> is_ref w)"

lemma vt_code_inj: "vt_code w = vt_code w' \<longleftrightarrow> w = w'"
  by (cases w; cases w') (simp_all add: vt_code_def)

interpretation cvt_code: prefix_code enc_cvt cvt_ok
proof
  fix x y r s assume ok: "cvt_ok x" "cvt_ok y" and eq: "enc_cvt x @ r = enc_cvt y @ s"
  obtain w a where x: "x = (w, a)" by (cases x)
  obtain w' b where y: "y = (w', b)" by (cases y)
  have "w = w'" using eq by (cases a; cases b) (simp_all add: x y vt_code_inj)
  then show "x = y"
    using ok eq by (cases a; cases b) (auto simp: x y cref_code.read)
next
  fix x show "enc_cvt x \<noteq> []" by (cases x rule: enc_cvt.cases) simp_all
qed

fun enc_cfield :: "u32 cfield \<Rightarrow> u8 list" where
  "enc_cfield (mut, pk, v) = cbool mut # word_of_nat pk # enc_cvt v"

fun cfield_ok :: "u32 cfield \<Rightarrow> bool" where
  "cfield_ok (mut, pk, v) \<longleftrightarrow> pk < 256 \<and> cvt_ok v"

lemma cbool_inj [simp]: "cbool a = cbool b \<longleftrightarrow> a = b"
  by (simp add: cbool_def)

lemma byte_inj: "m < 256 \<Longrightarrow> n < 256 \<Longrightarrow> (word_of_nat m :: u8) = word_of_nat n \<longleftrightarrow> m = n"
  by (simp add: word_of_nat_eq_iff take_bit_nat_eq_self)

interpretation cfield_code: prefix_code enc_cfield cfield_ok
proof
  fix x y r s assume ok: "cfield_ok x" "cfield_ok y" and eq: "enc_cfield x @ r = enc_cfield y @ s"
  obtain a p v where x: "x = (a, p, v)" by (rule prod_cases3)
  obtain b q w where y: "y = (b, q, w)" by (rule prod_cases3)
  show "x = y" using ok eq by (simp add: x y byte_inj cvt_code.read)
next
  fix x show "enc_cfield x \<noteq> []" by (cases x rule: enc_cfield.cases) simp
qed

fun enc_cbody :: "u32 cbody \<Rightarrow> u8 list" where
  "enc_cbody (CStruct fs) = cpush32 (word_of_nat (length fs)) @ concat (map enc_cfield fs)"
| "enc_cbody (CArray f) = enc_cfield f"
| "enc_cbody (CFunc ps rs) =
     cpush32 (word_of_nat (length ps)) @ concat (map enc_cvt ps) @
     cpush32 (word_of_nat (length rs)) @ concat (map enc_cvt rs)"

fun cbody_ok :: "nat \<Rightarrow> u32 cbody \<Rightarrow> bool" where
  "cbody_ok k (CStruct fs) \<longleftrightarrow> k = WST_STRUCT \<and> length fs < 2 ^ 32 \<and> list_all cfield_ok fs"
| "cbody_ok k (CArray f) \<longleftrightarrow> k = WST_ARRAY \<and> cfield_ok f"
| "cbody_ok k (CFunc ps rs) \<longleftrightarrow> k = WST_FUNC \<and> length ps < 2 ^ 32 \<and> length rs < 2 ^ 32 \<and>
     list_all cvt_ok ps \<and> list_all cvt_ok rs"

fun enc_sup :: "u32 cref option \<Rightarrow> u8 list" where
  "enc_sup None = [0]"
| "enc_sup (Some r) = 1 # enc_cref r"

fun enc_cform :: "u32 cform \<Rightarrow> u8 list" where
  "enc_cform (CForm k fin sp b) = word_of_nat k # cbool fin # enc_sup sp @ enc_cbody b"

fun cform_ok :: "u32 cform \<Rightarrow> bool" where
  "cform_ok (CForm k fin sp b) \<longleftrightarrow> cbody_ok k b"

lemma body_read:
  "cbody_ok k x \<Longrightarrow> cbody_ok k y \<Longrightarrow> enc_cbody x @ r = enc_cbody y @ s \<Longrightarrow> x = y"
  by (cases x; cases y) (auto simp: word32_of_nat_inj cfield_code.read_seq cvt_code.read_seq cfield_code.read)

lemma sup_read: "enc_sup x @ r = enc_sup y @ s \<longleftrightarrow> x = y \<and> r = s"
  by (cases x; cases y) (auto simp: cref_code.read)

lemma body_kind: "cbody_ok k b \<Longrightarrow> k \<in> {WST_STRUCT, WST_ARRAY, WST_FUNC}"
  by (cases b) simp_all

interpretation cform_code: prefix_code enc_cform cform_ok
proof
  fix x y r s assume ok: "cform_ok x" "cform_ok y" and eq: "enc_cform x @ r = enc_cform y @ s"
  obtain k a p v where x: "x = CForm k a p v" by (cases x)
  obtain l b q w where y: "y = CForm l b q w" by (cases y)
  have "k < 256" "l < 256" using ok body_kind [of k v] body_kind [of l w] by (auto simp: x y)
  then have "k = l" "a = b" "p = q" "enc_cbody v @ r = enc_cbody w @ s"
    using eq by (simp_all add: x y byte_inj sup_read)
  then show "x = y" using ok body_read [of k v w r s] by (simp add: x y)
next
  fix x show "enc_cform x \<noteq> []" by (cases x rule: enc_cform.cases) simp
qed

end
