(* ===== verification/ModuleCanonRules.thy ===== *)
theory ModuleCanonRules
  imports ModuleCanonForm
begin

text \<open>
  Canonicalization gives two types the same id exactly when their closed forms are equal, and on
  an accepted type section it establishes the well-formed lattice the subtype test relies on.
\<close>

section \<open>The closed form of a type\<close>

definition ref_form :: "int \<Rightarrow> nat \<Rightarrow> nat \<Rightarrow> (nat \<rightharpoonup> 'r) \<Rightarrow> 'r cref option" where
  "ref_form ht g gn canon =
     (if ht < 0 then Some (AbsRef (word_of_int ht))
      else if g \<le> nat ht \<and> nat ht < g + gn then Some (RecRef (word_of_nat (nat ht - g)))
      else map_option CanonRef (canon (nat ht)))"

definition vt_form :: "valtype \<Rightarrow> u32 \<Rightarrow> nat \<Rightarrow> nat \<Rightarrow> (nat \<rightharpoonup> 'r) \<Rightarrow> 'r cvt option" where
  "vt_form w tidx g gn canon =
     (if is_ref w then map_option (\<lambda>r. (w, Some r)) (ref_form (sint tidx) g gn canon) else Some (w, None))"

definition field_form :: "fieldty \<Rightarrow> nat \<Rightarrow> nat \<Rightarrow> (nat \<rightharpoonup> 'r) \<Rightarrow> 'r cfield option" where
  "field_form f g gn canon =
     (case f of (w, tx, pk, mut) \<Rightarrow> map_option (\<lambda>v. (mut, pk, v)) (vt_form w tx g gn canon))"

definition sup_form :: "modidx \<Rightarrow> nat \<Rightarrow> nat \<Rightarrow> nat \<Rightarrow> (nat \<rightharpoonup> 'r) \<Rightarrow> 'r cref option option" where
  "sup_form m t g gn canon =
     (if 0 \<le> md_supers m ! t then map_option Some (ref_form (md_supers m ! t) g gn canon) else Some None)"

definition body_form :: "modidx \<Rightarrow> nat \<Rightarrow> nat \<Rightarrow> nat \<Rightarrow> (nat \<rightharpoonup> 'r) \<Rightarrow> 'r cbody option" where
  "body_form m t g gn canon =
     (if md_kinds m ! t = WST_STRUCT then
        map_option CStruct (those (map (\<lambda>i. field_form (struct_field m t i) g gn canon) [0..<nfields m t]))
      else if md_kinds m ! t = WST_ARRAY then map_option CArray (field_form (array_field m t) g gn canon)
      else
        let ft = md_functypes m ! t in
        Option.bind
          (those (map (\<lambda>i. vt_form (ft_params ft ! i) (tidx_at (ft_param_tidx ft) i) g gn canon)
                   [0..<ft_nparams ft]))
          (\<lambda>ps. map_option (CFunc ps)
            (those (map (\<lambda>i. vt_form (ft_results ft ! i) (tidx_at (ft_result_tidx ft) i) g gn canon)
                      [0..<ft_nresults ft]))))"

definition form_of :: "modidx \<Rightarrow> nat \<Rightarrow> nat \<Rightarrow> nat \<Rightarrow> (nat \<rightharpoonup> 'r) \<Rightarrow> 'r cform option" where
  "form_of m t g gn canon =
     Option.bind (sup_form m t g gn canon)
       (\<lambda>sp. map_option (CForm (md_kinds m ! t) (md_finality m ! t) sp) (body_form m t g gn canon))"

definition group_form :: "modidx \<Rightarrow> nat \<Rightarrow> (nat \<rightharpoonup> 'r) \<Rightarrow> 'r cform list option" where
  "group_form m g canon =
     those (map (\<lambda>i. form_of m (g + i) g (group_len m g) canon) [0..<group_len m g])"

text \<open>
  The closed type of \<open>t\<close>: its whole group rolled up, with earlier groups expanded, and its position
  in the group.  It does not mention canonical ids.
\<close>

function ctype_of :: "modidx \<Rightarrow> nat \<Rightarrow> ctype option" where
  "ctype_of m t =
     (let g = md_group_start m ! t in
      map_option (\<lambda>fs. CType fs (t - g))
        (group_form m g (\<lambda>u. if u < g \<and> u < t then ctype_of m u else None)))"
  by pat_completeness auto
termination by (relation "measure snd") auto

declare ctype_of.simps [simp del]

section \<open>The serialization is the code of the closed form\<close>

lemma those_map_option: "those (map (\<lambda>x. map_option f (h x)) xs) = map_option (map f) (those (map h xs))"
  by (induction xs) (simp_all add: option.map_comp comp_def split: option.split)

lemma those_append:
  "those (xs @ ys) = Option.bind (those xs) (\<lambda>a. map_option ((@) a) (those ys))"
proof (induction xs)
  case Nil
  then show ?case by (cases "those ys") simp_all
next
  case (Cons x xs)
  then show ?case by (cases x; cases "those xs"; cases "those ys") simp_all
qed

lemma those_length: "those xs = Some ys \<Longrightarrow> length ys = length xs"
  by (induction xs arbitrary: ys) (auto split: option.splits)

lemma those_nth: "those xs = Some ys \<Longrightarrow> i < length xs \<Longrightarrow> xs ! i = Some (ys ! i)"
  by (induction xs arbitrary: ys i) (auto simp: nth_Cons split: option.splits nat.splits)

lemma those_Some: "(\<And>x. x \<in> set xs \<Longrightarrow> x \<noteq> None) \<Longrightarrow> those xs \<noteq> None"
  by (induction xs) (auto split: option.split)

lemma cat_append: "cat_opt (xs @ ys) = Option.bind (cat_opt xs) (\<lambda>a. map_option ((@) a) (cat_opt ys))"
  by (simp add: cat_opt_def those_append bind_map_option option.map_comp comp_def map_option_bind)

lemma cat_simps [simp]:
  "cat_opt [] = Some []"
  "cat_opt (Some a # xs) = map_option ((@) a) (cat_opt xs)"
  "cat_opt (None # xs) = None"
  by (simp_all add: cat_opt_def option.map_comp comp_def)

lemma cat_map: "cat_opt (map (\<lambda>x. map_option f (h x)) xs) = map_option (\<lambda>l. concat (map f l)) (those (map h xs))"
  by (simp add: cat_opt_def those_map_option option.map_comp comp_def)

text \<open>Canonical ids as the 32-bit values that are written.\<close>

definition ids :: "(nat \<rightharpoonup> nat) \<Rightarrow> nat \<rightharpoonup> u32" where
  "ids canon = (\<lambda>j. map_option word_of_nat (canon j))"

lemma canon_ref_enc: "canon_ref ht g gn canon = map_option enc_cref (ref_form ht g gn (ids canon))"
  by (simp add: canon_ref_def ref_form_def ids_def option.map_comp comp_def)

lemma canon_vt_enc: "canon_vt w tx g gn canon = map_option enc_cvt (vt_form w tx g gn (ids canon))"
  by (simp add: canon_vt_def vt_form_def canon_ref_enc option.map_comp comp_def)

lemma canon_field_enc: "canon_field f g gn canon = map_option enc_cfield (field_form f g gn (ids canon))"
  by (simp add: canon_field_def field_form_def canon_vt_enc option.map_comp comp_def split: prod.split)

lemma canon_member_enc: "canon_member m t g gn canon = map_option enc_cform (form_of m t g gn (ids canon))"
proof -
  have sup: "(if 0 \<le> md_supers m ! t then map_option (Cons 1) (canon_ref (md_supers m ! t) g gn canon)
      else Some [0]) = map_option enc_sup (sup_form m t g gn (ids canon))"
    by (simp add: sup_form_def canon_ref_enc option.map_comp comp_def)
  define S where "S = those (map (\<lambda>i. field_form (struct_field m t i) g gn (ids canon)) [0..<nfields m t])"
  define A where "A = field_form (array_field m t) g gn (ids canon)"
  define P where "P = those (map (\<lambda>i. vt_form (ft_params (md_functypes m ! t) ! i)
    (tidx_at (ft_param_tidx (md_functypes m ! t)) i) g gn (ids canon)) [0..<ft_nparams (md_functypes m ! t)])"
  define R where "R = those (map (\<lambda>i. vt_form (ft_results (md_functypes m ! t) ! i)
    (tidx_at (ft_result_tidx (md_functypes m ! t)) i) g gn (ids canon)) [0..<ft_nresults (md_functypes m ! t)])"
  have len: "S = Some fs \<Longrightarrow> length fs = nfields m t" "P = Some vs \<Longrightarrow> length vs = ft_nparams (md_functypes m ! t)"
    "R = Some vs \<Longrightarrow> length vs = ft_nresults (md_functypes m ! t)" for fs vs
    by (auto simp: S_def P_def R_def dest: those_length)
  show ?thesis
    unfolding canon_member_def sup canon_field_enc canon_vt_enc Let_def form_of_def body_form_def
    unfolding S_def [symmetric] A_def [symmetric] P_def [symmetric] R_def [symmetric]
    by (cases "sup_form m t g gn (ids canon)"; cases S; cases A; cases P; cases R)
      (simp_all add: cat_append cat_map S_def [symmetric] P_def [symmetric] R_def [symmetric] len)
qed

section \<open>Well-formed groups and sizes\<close>

text \<open>What flattening the type section produces: groups are runs that start at their own index.\<close>

definition groups_wf :: "modidx \<Rightarrow> bool" where
  "groups_wf m \<longleftrightarrow>
     (\<forall>t < md_ntypes m. md_group_start m ! t \<le> t \<and>
        (\<forall>u. md_group_start m ! t \<le> u \<and> u \<le> t \<longrightarrow> md_group_start m ! u = md_group_start m ! t))"

text \<open>The C widths: kinds and storage widths are bytes, lengths are 32-bit.\<close>

definition sizes_wf :: "modidx \<Rightarrow> bool" where
  "sizes_wf m \<longleftrightarrow>
     md_ntypes m < 2 ^ 32 \<and> length (md_supers m) = md_ntypes m \<and>
     (\<forall>t < md_ntypes m.
        md_kinds m ! t \<in> {WST_STRUCT, WST_ARRAY, WST_FUNC} \<and>
        (md_kinds m ! t = WST_STRUCT \<longrightarrow>
           nfields m t < 2 ^ 32 \<and> (\<forall>i < nfields m t. pack_at m t i < 256)) \<and>
        (md_kinds m ! t = WST_ARRAY \<longrightarrow> pack_at m t 0 < 256) \<and>
        (md_kinds m ! t = WST_FUNC \<longrightarrow>
           ft_nparams (md_functypes m ! t) < 2 ^ 32 \<and> ft_nresults (md_functypes m ! t) < 2 ^ 32))"

lemma group_props:
  assumes "groups_wf m" "t < md_ntypes m" "md_group_start m ! t = t"
  shows "0 < group_len m t" "t + group_len m t \<le> md_ntypes m"
    "i < group_len m t \<Longrightarrow> md_group_start m ! (t + i) = t"
    "t + group_len m t < md_ntypes m \<Longrightarrow> md_group_start m ! (t + group_len m t) = t + group_len m t"
proof -
  let ?P = "\<lambda>u. md_group_start m ! u = t" and ?l = "group_len m t"
  show "0 < ?l" using assms by (simp add: group_len_def upt_conv_Cons)
  show le: "t + ?l \<le> md_ntypes m"
    using length_takeWhile_le [of ?P "[t..<md_ntypes m]"] assms(2) by (simp add: group_len_def)
  show nth: "i < ?l \<Longrightarrow> md_group_start m ! (t + i) = t" for i
    using nth_mem [of i "takeWhile ?P [t..<md_ntypes m]"] set_takeWhileD [of _ ?P "[t..<md_ntypes m]"]
      takeWhile_nth [of i ?P "[t..<md_ntypes m]"] le
    by (fastforce simp: group_len_def)
  show "t + ?l < md_ntypes m \<Longrightarrow> md_group_start m ! (t + ?l) = t + ?l"
  proof -
    assume n: "t + ?l < md_ntypes m"
    let ?n = "t + ?l" and ?h = "md_group_start m ! (t + ?l)"
    have stop: "?h \<noteq> t"
      using nth_length_takeWhile [of ?P "[t..<md_ntypes m]"] n by (simp add: group_len_def)
    have h: "?h \<le> ?n" "\<And>u. ?h \<le> u \<Longrightarrow> u \<le> ?n \<Longrightarrow> md_group_start m ! u = ?h"
      using assms(1) n unfolding groups_wf_def by blast+
    show "?h = ?n"
    proof (rule ccontr)
      assume "?h \<noteq> ?n"
      then have "md_group_start m ! (?n - 1) = ?h" using h by (intro h(2)) linarith+
      moreover have "md_group_start m ! (t + (?l - 1)) = t" using nth [of "?l - 1"] \<open>0 < ?l\<close> by simp
      ultimately show False using stop \<open>0 < ?l\<close> by (simp add: Nat.add_diff_assoc)
    qed
  qed
qed

section \<open>Interning\<close>

lemma canon_intern_spec:
  assumes "canon_intern keys k = (n, keys')" "distinct keys"
  shows "n < length keys' \<and> keys' ! n = k \<and> distinct keys' \<and>
    (\<exists>e. keys' = keys @ e \<and> length e \<le> 1)"
proof (cases "k \<in> set keys")
  case True
  let ?i = "length (takeWhile (\<lambda>x. x \<noteq> k) keys)"
  have "takeWhile (\<lambda>x. x \<noteq> k) keys \<noteq> keys" using True by (auto simp: takeWhile_eq_all_conv)
  then have "?i \<noteq> length keys" by (metis takeWhile_eq_take take_all order_refl)
  then have "?i < length keys" using length_takeWhile_le [of "\<lambda>x. x \<noteq> k" keys] by linarith
  moreover from this have "keys ! ?i = k" using nth_length_takeWhile [of "\<lambda>x. x \<noteq> k" keys] by simp
  ultimately show ?thesis using assms by (auto simp: canon_intern_def Let_def)
next
  case False
  then have "length (takeWhile (\<lambda>x. x \<noteq> k) keys) = length keys"
    by (intro arg_cong [where f = length]) (auto simp: takeWhile_eq_all_conv)
  then have "n = length keys" "keys' = keys @ [k]" using assms(1) by (simp_all add: canon_intern_def)
  then show ?thesis using assms(2) False by auto
qed

lemma intern_group_spec:
  assumes "intern_group g b is (keys, canon) = (keys', canon')" "distinct keys"
  shows "distinct keys' \<and> (\<exists>e. keys' = keys @ e \<and> length e \<le> length is) \<and>
    (\<forall>j. j \<notin> (+) g ` set is \<longrightarrow> canon' j = canon j) \<and>
    (\<forall>i \<in> set is. \<exists>n. canon' (g + i) = Some n \<and> n < length keys' \<and>
       keys' ! n = b @ cpush32 (word_of_nat i))"
  using assms
proof (induction "is" arbitrary: keys canon)
  case Nil
  then show ?case by simp
next
  case (Cons i "is")
  obtain n k1 where k1: "canon_intern keys (b @ cpush32 (word_of_nat i)) = (n, k1)" by (rule prod.exhaust)
  note spec = canon_intern_spec [OF k1 Cons.prems(2)]
  have rest: "intern_group g b is (k1, canon(g + i \<mapsto> n)) = (keys', canon')"
    using Cons.prems(1) k1 by (simp add: Let_def)
  note ih = Cons.IH [OF rest] spec
  obtain e where e: "keys' = k1 @ e" "length e \<le> length is" using ih by auto
  have kid: "n < length keys' \<and> keys' ! n = b @ cpush32 (word_of_nat i)"
    using spec e by (auto simp: nth_append)
  have new: "\<exists>n. canon' (g + i) = Some n \<and> n < length keys' \<and> keys' ! n = b @ cpush32 (word_of_nat i)"
  proof (cases "i \<in> set is")
    case False
    then have "g + i \<notin> (+) g ` set is" by auto
    then have "canon' (g + i) = Some n" using ih by simp
    then show ?thesis using kid by blast
  qed (use ih in blast)
  obtain e0 where "k1 = keys @ e0" "length e0 \<le> 1" using spec by blast
  then have "\<exists>e. keys' = keys @ e \<and> length e \<le> length (i # is)"
    using e by (intro exI [of _ "e0 @ e"]) simp
  moreover have "\<forall>j. j \<notin> (+) g ` set (i # is) \<longrightarrow> canon' j = canon j" using ih by auto
  moreover have "\<forall>j \<in> set (i # is). \<exists>n. canon' (g + j) = Some n \<and> n < length keys' \<and>
      keys' ! n = b @ cpush32 (word_of_nat j)"
    using ih new by (simp only: set_simps ball_simps insert_iff) blast
  ultimately show ?case using ih by blast
qed

section \<open>The form of a type is natural in what stands for earlier types\<close>

text \<open>
  \<open>h\<close> renames the ids of earlier types; \<open>canon'\<close> only has to agree where \<open>canon\<close> has an entry.
\<close>

lemma those_transfer:
  assumes "those (map f xs) = Some ys" "\<And>x y. x \<in> set xs \<Longrightarrow> f x = Some y \<Longrightarrow> g x = Some (h y)"
  shows "those (map g xs) = Some (map h ys)"
  using assms by (induction xs arbitrary: ys) (auto split: option.splits)

definition renames :: "('r \<Rightarrow> 's) \<Rightarrow> (nat \<rightharpoonup> 'r) \<Rightarrow> (nat \<rightharpoonup> 's) \<Rightarrow> bool" where
  "renames h canon canon' \<longleftrightarrow> (\<forall>j n. canon j = Some n \<longrightarrow> canon' j = Some (h n))"

lemma ref_form_map:
  "renames h canon canon' \<Longrightarrow> ref_form ht g gn canon = Some r \<Longrightarrow>
   ref_form ht g gn canon' = Some (map_cref h r)"
  by (auto simp: ref_form_def renames_def split: if_splits)

lemma vt_form_map:
  "renames h canon canon' \<Longrightarrow> vt_form w tx g gn canon = Some v \<Longrightarrow>
   vt_form w tx g gn canon' = Some (map_prod id (map_option (map_cref h)) v)"
  using ref_form_map by (fastforce simp: vt_form_def split: if_splits)

lemma field_form_map:
  "renames h canon canon' \<Longrightarrow> field_form f g gn canon = Some v \<Longrightarrow>
   field_form f g gn canon' = Some (map_prod id (map_prod id (map_prod id (map_option (map_cref h)))) v)"
  using vt_form_map by (fastforce simp: field_form_def split: prod.splits)

lemma field_forms_map:
  "renames h canon canon' \<Longrightarrow> those (map (\<lambda>i. field_form (k i) g gn canon) xs) = Some ys \<Longrightarrow>
   those (map (\<lambda>i. field_form (k i) g gn canon') xs) =
     Some (map (map_prod id (map_prod id (map_prod id (map_option (map_cref h))))) ys)"
  by (erule those_transfer) (erule field_form_map)

lemma vt_forms_map:
  "renames h canon canon' \<Longrightarrow> those (map (\<lambda>i. vt_form (w i) (tx i) g gn canon) xs) = Some ys \<Longrightarrow>
   those (map (\<lambda>i. vt_form (w i) (tx i) g gn canon') xs) =
     Some (map (map_prod id (map_option (map_cref h))) ys)"
  by (erule those_transfer) (erule vt_form_map)

lemma body_form_map:
  assumes "renames h canon canon'" "body_form m t g gn canon = Some b"
  shows "body_form m t g gn canon' = Some (map_cbody h b)"
proof -
  consider "md_kinds m ! t = WST_STRUCT" | "md_kinds m ! t = WST_ARRAY"
    | "md_kinds m ! t \<noteq> WST_STRUCT" "md_kinds m ! t \<noteq> WST_ARRAY" by blast
  then show ?thesis
  proof cases
    case 1
    then obtain ys where "those (map (\<lambda>i. field_form (struct_field m t i) g gn canon) [0..<nfields m t]) = Some ys"
      "b = CStruct ys" using assms(2) by (auto simp: body_form_def)
    then show ?thesis using 1 field_forms_map [OF assms(1)] by (simp add: body_form_def)
  next
    case 2
    then obtain f where "field_form (array_field m t) g gn canon = Some f" "b = CArray f"
      using assms(2) by (auto simp: body_form_def)
    then show ?thesis using 2 field_form_map [OF assms(1)] by (simp add: body_form_def)
  next
    case 3
    let ?ft = "md_functypes m ! t"
    obtain ps rs where vts:
      "those (map (\<lambda>i. vt_form (ft_params ?ft ! i) (tidx_at (ft_param_tidx ?ft) i) g gn canon) [0..<ft_nparams ?ft]) = Some ps"
      "those (map (\<lambda>i. vt_form (ft_results ?ft ! i) (tidx_at (ft_result_tidx ?ft) i) g gn canon) [0..<ft_nresults ?ft]) = Some rs"
      "b = CFunc ps rs"
      using assms(2) 3 by (auto simp: body_form_def Let_def bind_eq_Some_conv)
    show ?thesis
      using 3 vt_forms_map [OF assms(1) vts(1)] vt_forms_map [OF assms(1) vts(2)] vts(3)
      by (simp add: body_form_def Let_def)
  qed
qed

lemma form_of_map:
  assumes "renames h canon canon'" "form_of m t g gn canon = Some f"
  shows "form_of m t g gn canon' = Some (map_cform h f)"
proof -
  obtain sp b where sp: "sup_form m t g gn canon = Some sp" and b: "body_form m t g gn canon = Some b"
    and f: "f = CForm (md_kinds m ! t) (md_finality m ! t) sp b"
    using assms(2) by (auto simp: form_of_def bind_eq_Some_conv)
  have "sup_form m t g gn canon' = Some (map_option (map_cref h) sp)"
    using sp ref_form_map [OF assms(1)] by (auto simp: sup_form_def split: if_splits)
  then show ?thesis by (simp add: form_of_def f body_form_map [OF assms(1) b])
qed

lemma group_form_map:
  "renames h canon canon' \<Longrightarrow> group_form m g canon = Some fs \<Longrightarrow>
   group_form m g canon' = Some (map (map_cform h) fs)"
  unfolding group_form_def by (erule those_transfer) (erule form_of_map)

lemma group_form_mono:
  assumes "canon \<subseteq>\<^sub>m canon'" "group_form m g canon = Some fs"
  shows "group_form m g canon' = Some fs"
proof -
  have "renames (\<lambda>x. x) canon canon'" using assms(1) by (force simp: renames_def map_le_def)
  from group_form_map [OF this assms(2)] show ?thesis by (simp add: map_idI cform.map_ident)
qed

end
