(* ===== verification/ModuleCanonSpec.thy ===== *)
theory ModuleCanonSpec
  imports ModuleCanonRules
begin

text \<open>
  Canonicalization refines the closed types: it returns on every flattened type section, two types
  get one id exactly when their closed types are equal, and together with an accepted type
  section it establishes the well-formed lattice that the subtype test relies on.
\<close>

section \<open>Keys\<close>

lemma group_buf_form:
  "group_buf m g canon = map_option (\<lambda>fs. concat (map enc_cform fs)) (group_form m g (ids canon))"
  by (simp add: group_buf_def group_form_def canon_member_enc cat_map)

lemma ref_form_ok: "vt_form w tx g gn canon = Some v \<Longrightarrow> cvt_ok v"
  by (auto simp: vt_form_def split: if_splits)

lemma field_form_ok: "field_form f g gn canon = Some v \<Longrightarrow> fst (snd (snd f)) < 256 \<Longrightarrow> cfield_ok v"
  by (cases f) (auto simp: field_form_def dest: ref_form_ok)

lemma those_all:
  assumes "those (map f xs) = Some ys" "\<And>x y. x \<in> set xs \<Longrightarrow> f x = Some y \<Longrightarrow> P y"
  shows "list_all P ys"
proof -
  have "length ys = length xs" using those_length [OF assms(1)] by simp
  moreover have "i < length xs \<Longrightarrow> P (ys ! i)" for i
    using those_nth [OF assms(1), of i] assms(2) [of "xs ! i" "ys ! i"] by simp
  ultimately show ?thesis by (simp add: list_all_length)
qed

lemma form_of_ok:
  assumes "sizes_wf m" "t < md_ntypes m" "form_of m t g gn (canon :: nat \<rightharpoonup> u32) = Some f"
  shows "cform_ok f"
proof -
  obtain sp b where b: "body_form m t g gn canon = Some b"
    and f: "f = CForm (md_kinds m ! t) (md_finality m ! t) sp b"
    using assms(3) by (auto simp: form_of_def bind_eq_Some_conv)
  have sz: "md_kinds m ! t = WST_STRUCT \<Longrightarrow> nfields m t < 2 ^ 32"
    "md_kinds m ! t = WST_STRUCT \<Longrightarrow> i < nfields m t \<Longrightarrow> pack_at m t i < 256"
    "md_kinds m ! t = WST_ARRAY \<Longrightarrow> pack_at m t 0 < 256"
    "md_kinds m ! t = WST_FUNC \<Longrightarrow> ft_nparams (md_functypes m ! t) < 2 ^ 32"
    "md_kinds m ! t = WST_FUNC \<Longrightarrow> ft_nresults (md_functypes m ! t) < 2 ^ 32"
    "md_kinds m ! t = WST_STRUCT \<or> md_kinds m ! t = WST_ARRAY \<or> md_kinds m ! t = WST_FUNC" for i
    using assms(1,2) unfolding sizes_wf_def by blast+
  consider (s) "md_kinds m ! t = WST_STRUCT" | (a) "md_kinds m ! t = WST_ARRAY"
    | (f) "md_kinds m ! t = WST_FUNC" using sz(6) by auto
  then have "cbody_ok (md_kinds m ! t) b"
  proof cases
    case s
    then obtain fs where fs: "those (map (\<lambda>i. field_form (struct_field m t i) g gn canon) [0..<nfields m t]) = Some fs"
      "b = CStruct fs" using b by (auto simp: body_form_def)
    have "list_all cfield_ok fs"
      by (rule those_all [OF fs(1)], erule field_form_ok) (simp add: struct_field_def Let_def sz(2) s)
    then show ?thesis using s sz(1) those_length [OF fs(1)] by (simp add: fs(2))
  next
    case a
    then obtain e where "field_form (array_field m t) g gn canon = Some e" "b = CArray e"
      using b by (auto simp: body_form_def)
    then show ?thesis using a sz(3) field_form_ok by (auto simp: array_field_def Let_def)
  next
    case f
    let ?ft = "md_functypes m ! t"
    obtain ps rs where vts:
      "those (map (\<lambda>i. vt_form (ft_params ?ft ! i) (tidx_at (ft_param_tidx ?ft) i) g gn canon) [0..<ft_nparams ?ft]) = Some ps"
      "those (map (\<lambda>i. vt_form (ft_results ?ft ! i) (tidx_at (ft_result_tidx ?ft) i) g gn canon) [0..<ft_nresults ?ft]) = Some rs"
      "b = CFunc ps rs"
      using b f by (auto simp: body_form_def Let_def bind_eq_Some_conv)
    have "list_all cvt_ok ps" "list_all cvt_ok rs"
      by (rule those_all [OF vts(1)], erule ref_form_ok, rule those_all [OF vts(2)], erule ref_form_ok)
    then show ?thesis
      using f sz(4,5) those_length [OF vts(1)] those_length [OF vts(2)] by (simp add: vts(3))
  qed
  then show ?thesis by (simp add: f)
qed

lemma group_start_le: "groups_wf m \<Longrightarrow> t < md_ntypes m \<Longrightarrow> md_group_start m ! t \<le> t"
  unfolding groups_wf_def by blast

lemma group_start_idem:
  "groups_wf m \<Longrightarrow> t < md_ntypes m \<Longrightarrow> md_group_start m ! (md_group_start m ! t) = md_group_start m ! t"
  using group_start_le [of m t] unfolding groups_wf_def by blast

lemma group_run:
  "groups_wf m \<Longrightarrow> t < md_ntypes m \<Longrightarrow> md_group_start m ! t \<le> u \<Longrightarrow> u \<le> t \<Longrightarrow>
   md_group_start m ! u = md_group_start m ! t"
  unfolding groups_wf_def by blast

lemma group_form_ok:
  assumes wf: "groups_wf m" "sizes_wf m" and t: "t < md_ntypes m"
    and fs: "group_form m (md_group_start m ! t) (canon :: nat \<rightharpoonup> u32) = Some fs"
  shows "list_all cform_ok fs"
proof -
  let ?g = "md_group_start m ! t"
  have g: "?g < md_ntypes m" "md_group_start m ! ?g = ?g"
    using group_start_idem [OF wf(1) t] group_start_le [OF wf(1) t] t by linarith+
  show ?thesis
    by (rule those_all [OF fs [unfolded group_form_def]], rule form_of_ok [OF wf(2)])
      (use group_props(2) [OF wf(1) g] in auto)
qed

text \<open>Keys of types are equal exactly when the groups are equal and the positions are.\<close>

lemma key_inj:
  assumes wf: "groups_wf m" "sizes_wf m" and t: "t < md_ntypes m" and u: "u < md_ntypes m"
    and "group_form m (md_group_start m ! t) (c :: nat \<rightharpoonup> u32) = Some fs"
    and "group_form m (md_group_start m ! u) (d :: nat \<rightharpoonup> u32) = Some gs"
  shows "concat (map enc_cform fs) @ cpush32 (word_of_nat (t - md_group_start m ! t)) =
      concat (map enc_cform gs) @ cpush32 (word_of_nat (u - md_group_start m ! u)) \<longleftrightarrow>
    fs = gs \<and> t - md_group_start m ! t = u - md_group_start m ! u"
proof -
  have "t < 2 ^ 32" "u < 2 ^ 32" using t u wf(2) by (simp_all add: sizes_wf_def)
  then have "t - md_group_start m ! t < 2 ^ 32" "u - md_group_start m ! u < 2 ^ 32" by simp_all
  then show ?thesis
    using cform_code.read_all [OF group_form_ok [OF wf t assms(5)] group_form_ok [OF wf u assms(6)]]
    by (simp add: append_eq_append_conv word32_of_nat_inj)
qed

section \<open>The invariant of the outer loop\<close>

text \<open>
  The types before \<open>t\<close> have ids; the key of a type is the form of its group over the ids of the
  groups before it, and its position.
\<close>

definition before :: "nat \<Rightarrow> (nat \<rightharpoonup> nat) \<Rightarrow> nat \<rightharpoonup> nat" where
  "before g canon = canon |` {..<g}"

definition canon_inv :: "modidx \<Rightarrow> nat \<Rightarrow> u8 list list \<Rightarrow> (nat \<rightharpoonup> nat) \<Rightarrow> bool" where
  "canon_inv m t keys canon \<longleftrightarrow>
     t \<le> md_ntypes m \<and> (t < md_ntypes m \<longrightarrow> md_group_start m ! t = t) \<and>
     dom canon = {..<t} \<and> distinct keys \<and> length keys \<le> t \<and>
     (\<forall>u < t. \<exists>n b. canon u = Some n \<and> n < length keys \<and>
        group_buf m (md_group_start m ! u) (before (md_group_start m ! u) canon) = Some b \<and>
        keys ! n = b @ cpush32 (word_of_nat (u - md_group_start m ! u)))"

lemma canon_inv_start: "groups_wf m \<Longrightarrow> canon_inv m 0 [] Map.empty"
  using group_start_le [of m 0] by (simp add: canon_inv_def)

lemma before_same:
  assumes "g \<le> t" "\<And>j. j < t \<Longrightarrow> canon' j = canon j"
  shows "before g canon' = before g canon"
  using assms by (auto simp: before_def restrict_map_def fun_eq_iff)

lemma outside_dom: "dom canon = {..<g} \<Longrightarrow> \<not> j < g \<Longrightarrow> canon j = (None :: 'b option)"
  using domIff [of j canon] by simp

lemma inside_dom: "dom canon = {..<g} \<Longrightarrow> j < g \<Longrightarrow> \<exists>n. canon j = Some n"
  using domIff [of j canon] by simp

lemma before_dom: "dom canon = {..<g} \<Longrightarrow> before g canon = canon"
  by (simp add: before_def restrict_map_def fun_eq_iff outside_dom)

lemma canon_inv_step:
  assumes wf: "groups_wf m" and inv: "canon_inv m t keys canon" and t: "t < md_ntypes m"
    and b: "group_buf m t canon = Some b"
    and step: "intern_group t b [0..<group_len m t] (keys, canon) = (keys', canon')"
  shows "canon_inv m (t + group_len m t) keys' canon'"
proof -
  let ?l = "group_len m t"
  have gt: "md_group_start m ! t = t" and dom: "dom canon = {..<t}" and dk: "distinct keys"
    and old: "\<And>u. u < t \<Longrightarrow> \<exists>n b. canon u = Some n \<and> n < length keys \<and>
        group_buf m (md_group_start m ! u) (before (md_group_start m ! u) canon) = Some b \<and>
        keys ! n = b @ cpush32 (word_of_nat (u - md_group_start m ! u))"
    and lk: "length keys \<le> t"
    using inv t by (auto simp: canon_inv_def)
  note gp = group_props [OF wf t gt]
  note spec = intern_group_spec [OF step dk]
  obtain e where e: "keys' = keys @ e" "length e \<le> ?l" using spec by auto
  have same: "canon' j = canon j" if "j < t" for j
  proof -
    have "j \<notin> (+) t ` set [0..<?l]" using that by auto
    then show ?thesis using spec by blast
  qed
  have new: "\<exists>n. canon' u = Some n \<and> n < length keys' \<and> keys' ! n = b @ cpush32 (word_of_nat (u - t))"
    if "t \<le> u" "u < t + ?l" for u
  proof -
    have "u - t \<in> set [0..<?l]" using that by auto
    then show ?thesis using spec that(1) by (metis le_add_diff_inverse)
  qed
  have none: "canon' j = None" if "t + ?l \<le> j" for j
  proof -
    have "j \<notin> (+) t ` set [0..<?l]" using that by auto
    then have "canon' j = canon j" using spec by blast
    then show ?thesis using outside_dom [OF dom, of j] that by simp
  qed
  have "dom canon' = {..<t + ?l}"
  proof (rule set_eqI)
    fix j show "j \<in> dom canon' \<longleftrightarrow> j \<in> {..<t + ?l}"
      using same [of j] inside_dom [OF dom, of j] new [of j] none [of j]
      by (cases "j < t"; cases "j < t + ?l") auto
  qed
  moreover have "\<exists>n b'. canon' u = Some n \<and> n < length keys' \<and>
        group_buf m (md_group_start m ! u) (before (md_group_start m ! u) canon') = Some b' \<and>
        keys' ! n = b' @ cpush32 (word_of_nat (u - md_group_start m ! u))" if "u < t + ?l" for u
  proof (cases "u < t")
    case True
    then have "md_group_start m ! u \<le> t" using group_start_le [OF wf, of u] t by linarith
    then show ?thesis using old [OF True] same [OF True] before_same [OF _ same] e(1)
      by (fastforce simp: nth_append)
  next
    case False
    then have g: "md_group_start m ! u = t" using gp(3) [of "u - t"] that by simp
    have "before t canon' = canon" using before_same [OF order_refl same] before_dom [OF dom] by simp
    then show ?thesis using new [of u] False that b by (simp add: g)
  qed
  ultimately show ?thesis
    using gp(2,4) spec e lk by (simp add: canon_inv_def)
qed

lemma canon_loop_inv:
  assumes wf: "groups_wf m" and "canon_inv m t keys canon"
  shows "\<exists>r. canon_loop m t keys canon = Some r \<and>
    (\<forall>c. r = Some c \<longrightarrow> (\<exists>keys'. canon_inv m (md_ntypes m) keys' c))"
  using assms(2)
proof (induction "md_ntypes m - t" arbitrary: t keys canon rule: less_induct)
  case less
  show ?case
  proof (cases "t < md_ntypes m")
    case False
    then have "t = md_ntypes m" using less.prems by (simp add: canon_inv_def)
    then show ?thesis using less.prems by (subst canon_loop.simps) auto
  next
    case True
    then have gt: "md_group_start m ! t = t" using less.prems by (simp add: canon_inv_def)
    show ?thesis
    proof (cases "group_buf m t canon")
      case None
      then show ?thesis using True by (subst canon_loop.simps) (simp add: gt Let_def)
    next
      case (Some b)
      obtain keys' canon' where s: "intern_group t b [0..<group_len m t] (keys, canon) = (keys', canon')"
        by (rule prod.exhaust)
      have "md_ntypes m - (t + group_len m t) < md_ntypes m - t"
        using group_props(1) [OF wf True gt] True by simp
      from less.hyps [OF this canon_inv_step [OF wf less.prems True Some s]]
      show ?thesis using True by (subst canon_loop.simps) (simp add: gt Some s Let_def)
    qed
  qed
qed

section \<open>Ids and closed types\<close>

lemma factor_through:
  assumes "\<And>j k. j \<in> A \<Longrightarrow> k \<in> A \<Longrightarrow> f j = f k \<Longrightarrow> f j \<noteq> None \<Longrightarrow> g j = g k"
    and "\<And>j. j \<in> A \<Longrightarrow> g j \<noteq> None"
  shows "\<exists>h. \<forall>j \<in> A. \<forall>w. f j = Some w \<longrightarrow> g j = Some (h w)"
proof (rule exI, intro ballI allI impI)
  fix j w assume j: "j \<in> A" "f j = Some w"
  let ?k = "SOME k. k \<in> A \<and> f k = Some w"
  have "?k \<in> A \<and> f ?k = Some w" using someI [of "\<lambda>k. k \<in> A \<and> f k = Some w" j] j by blast
  then have "g j = g ?k" using assms(1) [of j ?k] j by simp
  then show "g j = Some ((\<lambda>w. the (g (SOME k. k \<in> A \<and> f k = Some w))) w)" using assms(2) [OF j(1)] by auto
qed

text \<open>What the final array says: every type has an id below the number of types, and two types
  share it exactly when the forms of their groups and their positions agree.\<close>

lemma canon_inv_forms:
  assumes wf: "groups_wf m" "sizes_wf m" and inv: "canon_inv m (md_ntypes m) keys c"
    and t: "t < md_ntypes m" and u: "u < md_ntypes m"
  defines "form \<equiv> \<lambda>t. group_form m (md_group_start m ! t) (ids (before (md_group_start m ! t) c))"
  shows "form t \<noteq> None" "c t = c u \<longleftrightarrow> form t = form u \<and> t - md_group_start m ! t = u - md_group_start m ! u"
    "\<exists>n < md_ntypes m. c t = Some n"
proof -
  have key: "\<exists>n fs. c t = Some n \<and> n < length keys \<and> form t = Some fs \<and>
      keys ! n = concat (map enc_cform fs) @ cpush32 (word_of_nat (t - md_group_start m ! t))"
    if "t < md_ntypes m" for t
    using inv that unfolding canon_inv_def form_def group_buf_form by fastforce
  obtain n fs where n: "c t = Some n" "n < length keys" "form t = Some fs"
    "keys ! n = concat (map enc_cform fs) @ cpush32 (word_of_nat (t - md_group_start m ! t))"
    using key [OF t] by blast
  obtain k gs where k: "c u = Some k" "k < length keys" "form u = Some gs"
    "keys ! k = concat (map enc_cform gs) @ cpush32 (word_of_nat (u - md_group_start m ! u))"
    using key [OF u] by blast
  have "distinct keys" "length keys \<le> md_ntypes m" using inv by (auto simp: canon_inv_def)
  then have "n = k \<longleftrightarrow> keys ! n = keys ! k" using n(2) k(2) by (simp add: nth_eq_iff_index_eq)
  also have "\<dots> \<longleftrightarrow> fs = gs \<and> t - md_group_start m ! t = u - md_group_start m ! u"
    unfolding n(4) k(4) by (rule key_inj [OF wf t u]) (use n(3) k(3) in \<open>simp_all add: form_def\<close>)
  finally show "c t = c u \<longleftrightarrow> form t = form u \<and> t - md_group_start m ! t = u - md_group_start m ! u"
    by (simp add: n(1,3) k(1,3))
  show "form t \<noteq> None" "\<exists>n < md_ntypes m. c t = Some n"
    using n \<open>length keys \<le> md_ntypes m\<close> by auto
qed

lemma word_ids_inj: "n < 2 ^ 32 \<Longrightarrow> k < 2 ^ 32 \<Longrightarrow> (word_of_nat n :: u32) = word_of_nat k \<longleftrightarrow> n = k"
  by (rule word32_of_nat_inj)

lemma ids_eq: "ids c j = ids c k \<longleftrightarrow> c j = c k"
  if "\<exists>n < N. c j = Some n" "\<exists>n < N. c k = Some n" "N < 2 ^ 32"
  using that by (auto simp: ids_def word_ids_inj)

abbreviation earlier :: "modidx \<Rightarrow> nat \<Rightarrow> nat \<rightharpoonup> ctype" where
  "earlier m t \<equiv> (\<lambda>u. if u < md_group_start m ! t \<and> u < t then ctype_of m u else None)"

lemma ctype_of_unfold:
  "ctype_of m t = map_option (\<lambda>fs. CType fs (t - md_group_start m ! t))
     (group_form m (md_group_start m ! t) (earlier m t))"
  by (subst ctype_of.simps) (simp add: Let_def)

lemma ids_before: "ids (before g c) j = (if j < g then ids c j else None)"
  by (simp add: ids_def before_def restrict_map_def)

text \<open>
  Ids and closed types determine each other on all types below \<open>n\<close>: the ids of earlier types are
  renamed to their closed types in the forms, and back.
\<close>

lemma canon_ctype_step:
  assumes wf: "groups_wf m" "sizes_wf m" and inv: "canon_inv m (md_ntypes m) keys c"
    and n: "Suc n \<le> md_ntypes m"
    and ih: "\<And>t u. t < n \<Longrightarrow> u < n \<Longrightarrow>
      ctype_of m t \<noteq> None \<and> (c t = c u \<longleftrightarrow> ctype_of m t = ctype_of m u)"
    and t: "t < Suc n" and u: "u < Suc n"
  shows "ctype_of m t \<noteq> None \<and> (c t = c u \<longleftrightarrow> ctype_of m t = ctype_of m u)"
proof -
  let ?g = "\<lambda>t. md_group_start m ! t"
  let ?form = "\<lambda>t. group_form m (?g t) (ids (before (?g t) c))"
  have N: "md_ntypes m < 2 ^ 32" using wf(2) by (simp add: sizes_wf_def)
  have lt: "?g t < Suc n" "?g u < Suc n" "t < md_ntypes m" "u < md_ntypes m"
    using group_start_le [OF wf(1), of t] group_start_le [OF wf(1), of u] t u n by linarith+
  note forms = canon_inv_forms [OF wf inv]
  have bnd: "\<exists>i < md_ntypes m. c j = Some i" if "j < n" for j
    using forms(3) [of j j] that n by simp
  have idse: "ids c j = ids c k \<longleftrightarrow> ctype_of m j = ctype_of m k" if "j < n" "k < n" for j k
    using ids_eq [OF bnd [OF that(1)] bnd [OF that(2)] N] ih [OF that] by simp
  have "\<exists>h. \<forall>j \<in> {..<n}. \<forall>w. ids c j = Some w \<longrightarrow> ctype_of m j = Some (h w)"
    by (rule factor_through) (use idse ih in auto)
  then obtain h where h: "\<And>j w. j < n \<Longrightarrow> ids c j = Some w \<Longrightarrow> ctype_of m j = Some (h w)" by auto
  have "\<exists>h. \<forall>j \<in> {..<n}. \<forall>w. ctype_of m j = Some w \<longrightarrow> ids c j = Some (h w)"
    by (rule factor_through) (use idse bnd in \<open>fastforce simp: ids_def\<close>)+
  then obtain k where k: "\<And>j w. j < n \<Longrightarrow> ctype_of m j = Some w \<Longrightarrow> ids c j = Some (k w)" by auto
  have ren: "renames h (ids (before (?g x) c)) (earlier m x)" "renames k (earlier m x) (ids (before (?g x) c))"
    if "x < Suc n" for x
    using h k that group_start_le [OF wf(1), of x] n
    by (auto simp: renames_def ids_before split: if_splits)
  obtain ft fu where f: "?form t = Some ft" "?form u = Some fu" using forms(1) lt by blast
  note trees = group_form_map [OF ren(1) [OF t] f(1)] group_form_map [OF ren(1) [OF u] f(2)]
  have "map (map_cform k) (map (map_cform h) ft) = ft" "map (map_cform k) (map (map_cform h) fu) = fu"
    using group_form_map [OF ren(2) [OF t] trees(1)] group_form_map [OF ren(2) [OF u] trees(2)] f by simp_all
  then have "map (map_cform h) ft = map (map_cform h) fu \<longleftrightarrow> ft = fu" by metis
  then show ?thesis
    using forms(2) [OF lt(3,4)] f trees by (simp add: ctype_of_unfold)
qed

lemma canon_ctype:
  assumes "groups_wf m" "sizes_wf m" "canon_inv m (md_ntypes m) keys c" "n \<le> md_ntypes m" "t < n" "u < n"
  shows "ctype_of m t \<noteq> None \<and> (c t = c u \<longleftrightarrow> ctype_of m t = ctype_of m u)"
  using assms(4-)
proof (induction n arbitrary: t u)
  case (Suc n)
  show ?case
    by (rule canon_ctype_step [OF assms(1-3) Suc.prems(1) Suc.IH Suc.prems(2,3)]) (use Suc.prems in simp_all)
qed simp

section \<open>References in scope\<close>

text \<open>Every reference of a type, and its declared supertype, lies before the end of its group.\<close>

definition supers_in_scope :: "modidx \<Rightarrow> bool" where
  "supers_in_scope m \<longleftrightarrow>
     (\<forall>t < md_ntypes m. md_supers m ! t < int (md_group_start m ! t + group_len m (md_group_start m ! t)))"

lemma ref_form_total: "ht < int (g + gn) \<Longrightarrow> dom canon = {..<g} \<Longrightarrow> ref_form ht g gn canon \<noteq> None"
  using inside_dom [of canon g "nat ht"] by (auto simp: ref_form_def)

lemma sint_nonneg_unat: "0 \<le> sint (x :: u32) \<Longrightarrow> nat (sint x) = unat x"
proof -
  assume "0 \<le> sint x"
  then have "uint x = sint x" using sint_lt [of x] by (simp add: uint_sint take_bit_int_eq_self)
  then show ?thesis by (metis unat_eq_nat_uint)
qed

lemma vt_form_total:
  "dom canon = {..<g} \<Longrightarrow> \<not> (concrete_ref w tx \<and> g + gn \<le> unat tx) \<Longrightarrow> vt_form w tx g gn canon \<noteq> None"
proof -
  assume dom: "dom canon = {..<g}" and sc: "\<not> (concrete_ref w tx \<and> g + gn \<le> unat tx)"
  have "sint tx < int (g + gn)" if "is_ref w"
  proof (cases "0 \<le> sint tx")
    case True
    then have "unat tx < g + gn" using sc that by (simp add: concrete_ref_def)
    then show ?thesis using sint_nonneg_unat [OF True] by linarith
  qed linarith
  then show ?thesis using ref_form_total [OF _ dom, of "sint tx" gn] by (auto simp: vt_form_def)
qed

lemma those_total: "(\<And>x. x \<in> set xs \<Longrightarrow> f x \<noteq> None) \<Longrightarrow> those (map f xs) \<noteq> None"
  by (rule those_Some) auto

lemma form_of_total:
  assumes dom: "dom canon = {..<g}"
    and sc: "\<forall>(w, tx) \<in> set (named_types m t). \<not> (concrete_ref w tx \<and> g + gn \<le> unat tx)"
    and sup: "md_supers m ! t < int (g + gn)"
  shows "form_of m t g gn canon \<noteq> None"
proof -
  have vt: "vt_form w tx g gn canon \<noteq> None" if "(w, tx) \<in> set (named_types m t)" for w tx
    using vt_form_total [OF dom, of w tx gn] sc that by blast
  have "sup_form m t g gn canon \<noteq> None" using ref_form_total [OF sup dom] by (auto simp: sup_form_def)
  moreover have "body_form m t g gn canon \<noteq> None"
  proof -
    consider "md_kinds m ! t = WST_STRUCT" | "md_kinds m ! t = WST_ARRAY"
      | "md_kinds m ! t \<noteq> WST_STRUCT" "md_kinds m ! t \<noteq> WST_ARRAY" by blast
    then show ?thesis
    proof cases
      case 1
      have "field_form (struct_field m t i) g gn canon \<noteq> None" if "i < nfields m t" for i
        using vt [of "sty_fields (md_structtypes m ! t) ! i" "tidx_at (sty_field_tidx (md_structtypes m ! t)) i"]
          1 that by (auto simp: field_form_def struct_field_def named_types_def Let_def)
      then show ?thesis
        using 1 those_total [of "[0..<nfields m t]" "\<lambda>i. field_form (struct_field m t i) g gn canon"]
        by (simp add: body_form_def del: not_None_eq)
    next
      case 2
      then show ?thesis
        using vt by (auto simp: body_form_def field_form_def array_field_def named_types_def Let_def)
    next
      case 3
      let ?ft = "md_functypes m ! t"
      have "those (map (\<lambda>i. vt_form (ft_params ?ft ! i) (tidx_at (ft_param_tidx ?ft) i) g gn canon) [0..<ft_nparams ?ft]) \<noteq> None"
        "those (map (\<lambda>i. vt_form (ft_results ?ft ! i) (tidx_at (ft_result_tidx ?ft) i) g gn canon) [0..<ft_nresults ?ft]) \<noteq> None"
        by (rule those_total; rule vt; use 3 in \<open>simp add: named_types_def Let_def\<close>)+
      then show ?thesis using 3 by (auto simp: body_form_def Let_def)
    qed
  qed
  ultimately show ?thesis by (auto simp: form_of_def)
qed

lemma dom_ids: "dom (ids canon) = dom canon"
  by (auto simp: ids_def dom_def)

lemma group_buf_total:
  assumes wf: "groups_wf m" and inv: "canon_inv m t keys canon" and t: "t < md_ntypes m"
    and sc: "type_refs_in_scope m" "supers_in_scope m"
  shows "group_buf m t canon \<noteq> None"
proof -
  have gt: "md_group_start m ! t = t" and dom: "dom (ids canon) = {..<t}"
    using inv t by (auto simp: canon_inv_def dom_ids)
  note gp = group_props [OF wf t gt]
  have "form_of m (t + i) t (group_len m t) (ids canon) \<noteq> None" if "i < group_len m t" for i
  proof (rule form_of_total [OF dom])
    have "t + i < md_ntypes m" "md_group_start m ! (t + i) = t" using gp(2,3) that by auto
    note at = this
    have "\<forall>(w, tx) \<in> set (named_types m (t + i)). \<not> (concrete_ref w tx \<and>
        md_group_start m ! (t + i) + group_len m (md_group_start m ! (t + i)) \<le> unat tx)"
      using sc(1) at(1) unfolding type_refs_in_scope_def by blast
    then show "\<forall>(w, tx) \<in> set (named_types m (t + i)). \<not> (concrete_ref w tx \<and> t + group_len m t \<le> unat tx)"
      by (simp only: at(2))
    have "md_supers m ! (t + i) <
        int (md_group_start m ! (t + i) + group_len m (md_group_start m ! (t + i)))"
      using sc(2) at(1) unfolding supers_in_scope_def by blast
    then show "md_supers m ! (t + i) < int (t + group_len m t)" by (simp only: at(2))
  qed
  then show ?thesis
    using those_total [of "[0..<group_len m t]" "\<lambda>i. form_of m (t + i) t (group_len m t) (ids canon)"]
    by (simp add: group_buf_form group_form_def del: not_None_eq)
qed

lemma canon_loop_some:
  assumes wf: "groups_wf m" and sc: "type_refs_in_scope m" "supers_in_scope m" and "canon_inv m t keys canon"
  shows "\<exists>c. canon_loop m t keys canon = Some (Some c)"
  using assms(4)
proof (induction "md_ntypes m - t" arbitrary: t keys canon rule: less_induct)
  case less
  show ?case
  proof (cases "t < md_ntypes m")
    case False
    then show ?thesis by (subst canon_loop.simps) simp
  next
    case True
    then have gt: "md_group_start m ! t = t" using less.prems by (simp add: canon_inv_def)
    obtain b where b: "group_buf m t canon = Some b" using group_buf_total [OF wf less.prems True sc] by blast
    obtain keys' canon' where s: "intern_group t b [0..<group_len m t] (keys, canon) = (keys', canon')"
      by (rule prod.exhaust)
    have "md_ntypes m - (t + group_len m t) < md_ntypes m - t"
      using group_props(1) [OF wf True gt] True by simp
    from less.hyps [OF this canon_inv_step [OF wf less.prems True b s]]
    show ?thesis using True by (subst canon_loop.simps) (simp add: gt b s Let_def)
  qed
qed

section \<open>Equal ids, equal supertypes\<close>

lemma group_form_member:
  assumes wf: "groups_wf m" and t: "t < md_ntypes m"
    and fs: "group_form m (md_group_start m ! t) canon = Some fs"
  shows "t - md_group_start m ! t < length fs"
    "form_of m t (md_group_start m ! t) (group_len m (md_group_start m ! t)) canon =
     Some (fs ! (t - md_group_start m ! t))"
proof -
  let ?g = "md_group_start m ! t"
  have le: "?g \<le> t" "?g < md_ntypes m" using group_start_le [OF wf t] t by linarith+
  have run: "md_group_start m ! u = ?g" if "?g \<le> u" "u \<le> t" for u
    using wf t that unfolding groups_wf_def by blast
  have len: "length fs = group_len m ?g" using those_length [OF fs [unfolded group_form_def]] by simp
  have "Suc t - ?g \<le> length (takeWhile (\<lambda>u. md_group_start m ! u = ?g) [?g..<md_ntypes m])"
  proof (rule length_takeWhile_less_P_nth)
    fix i assume i: "i < Suc t - ?g"
    have "md_group_start m ! (?g + i) = ?g" by (rule run) (use i le in linarith)+
    moreover have "[?g..<md_ntypes m] ! i = ?g + i" using i t by simp
    ultimately show "md_group_start m ! ([?g..<md_ntypes m] ! i) = ?g" by (simp only: )
  qed (use t le in simp)
  then have "t - ?g < group_len m ?g" using le by (simp add: group_len_def Suc_diff_le)
  then show "t - ?g < length fs"
    "form_of m t ?g (group_len m ?g) canon = Some (fs ! (t - ?g))"
    using those_nth [OF fs [unfolded group_form_def], of "t - ?g"] le by (simp_all add: len)
qed

lemma ref_form_rec:
  "0 \<le> ht \<Longrightarrow> ref_form ht g gn C = Some (RecRef v) \<longleftrightarrow>
     g \<le> nat ht \<and> nat ht < g + gn \<and> v = word_of_nat (nat ht - g)"
  by (auto simp add: ref_form_def simp del: word_of_nat_eq_iff of_nat_diff of_nat_nat)

lemma ref_form_canon:
  "0 \<le> ht \<Longrightarrow> ref_form ht g gn C = Some (CanonRef w) \<longleftrightarrow>
     \<not> (g \<le> nat ht \<and> nat ht < g + gn) \<and> C (nat ht) = Some w"
  by (auto simp: ref_form_def)

lemma equal_ids:
  assumes wf: "groups_wf m" "sizes_wf m" and inv: "canon_inv m (md_ntypes m) keys c"
    and t: "t < md_ntypes m" and u: "u < md_ntypes m" and eq: "c t = c u"
    and st: "md_supers m ! t < int t" and su: "md_supers m ! u < int u"
  shows "md_kinds m ! t = md_kinds m ! u \<and>
    (md_supers m ! t < 0 \<and> md_supers m ! u < 0 \<or>
     0 \<le> md_supers m ! t \<and> 0 \<le> md_supers m ! u \<and> c (nat (md_supers m ! t)) = c (nat (md_supers m ! u)))"
proof -
  let ?g = "\<lambda>t. md_group_start m ! t" and ?s = "\<lambda>t. md_supers m ! t"
  let ?C = "\<lambda>t. ids (before (?g t) c)"
  note forms = canon_inv_forms [OF wf inv]
  obtain fs where fs: "group_form m (?g t) (?C t) = Some fs" "group_form m (?g u) (?C u) = Some fs"
    and pos: "t - ?g t = u - ?g u"
    using forms(1,2) [OF t u] eq by auto
  have form: "form_of m t (?g t) (group_len m (?g t)) (?C t) = form_of m u (?g u) (group_len m (?g u)) (?C u)"
    "form_of m t (?g t) (group_len m (?g t)) (?C t) \<noteq> None"
    using group_form_member(2) [OF wf(1) t fs(1)] group_form_member(2) [OF wf(1) u fs(2)] pos by simp_all
  then have kind: "md_kinds m ! t = md_kinds m ! u"
    and sup: "sup_form m t (?g t) (group_len m (?g t)) (?C t) = sup_form m u (?g u) (group_len m (?g u)) (?C u)"
      "sup_form m t (?g t) (group_len m (?g t)) (?C t) \<noteq> None"
    by (auto simp: form_of_def bind_eq_Some_conv)
  show ?thesis
  proof (cases "0 \<le> ?s t \<and> 0 \<le> ?s u")
    case False
    then show ?thesis using kind sup by (auto simp: sup_form_def split: if_splits)
  next
    case True
    let ?a = "nat (?s t)" and ?b = "nat (?s u)"
    have ab: "?a < t" "?b < u" "?a < md_ntypes m" "?b < md_ntypes m" using True st su t u by linarith+
    have ref: "ref_form (?s t) (?g t) (group_len m (?g t)) (?C t) = ref_form (?s u) (?g u) (group_len m (?g u)) (?C u)"
      "ref_form (?s t) (?g t) (group_len m (?g t)) (?C t) \<noteq> None"
      using sup True by (auto simp: sup_form_def)
    have "c ?a = c ?b"
    proof (cases "?g t \<le> ?a")
      case in_t: True
      have "?a < ?g t + group_len m (?g t)"
        using group_form_member(1) [OF wf(1) t fs(1)] those_length [OF fs(1) [unfolded group_form_def]]
          group_start_le [OF wf(1) t] ab(1) by simp
      then have rt: "ref_form (?s t) (?g t) (group_len m (?g t)) (?C t) = Some (RecRef (word_of_nat (?a - ?g t)))"
        using in_t True by (simp only: ref_form_rec)
      then have "ref_form (?s u) (?g u) (group_len m (?g u)) (?C u) = Some (RecRef (word_of_nat (?a - ?g t)))"
        using ref(1) by (simp only: )
      then have in_u: "?g u \<le> ?b" and w: "(word_of_nat (?a - ?g t) :: u32) = word_of_nat (?b - ?g u)"
        using ref_form_rec True by blast+
      have "?a < 2 ^ 32" "?b < 2 ^ 32" using ab wf(2) by (auto simp: sizes_wf_def)
      then have p: "?a - ?g t = ?b - ?g u" using w by (simp add: word32_of_nat_inj)
      have gs: "?g ?a = ?g t" "?g ?b = ?g u"
        by (rule group_run [OF wf(1) t in_t less_imp_le [OF ab(1)]],
            rule group_run [OF wf(1) u in_u less_imp_le [OF ab(2)]])
      show ?thesis using forms(2) [OF ab(3,4)] fs p by (simp add: gs)
    next
      case out_t: False
      then obtain w where w: "?C t ?a = Some w"
        "ref_form (?s t) (?g t) (group_len m (?g t)) (?C t) = Some (CanonRef w)"
        using ref(2) True by (auto simp: ref_form_def split: if_splits)
      then have "ref_form (?s u) (?g u) (group_len m (?g u)) (?C u) = Some (CanonRef w)" using ref(1) by (simp only: )
      then have "?C u ?b = Some w" by (simp only: ref_form_canon [OF conjunct2 [OF True]])
      then have "ids c ?a = ids c ?b" using w(1) by (simp add: ids_before split: if_splits)
      moreover have "md_ntypes m < 2 ^ 32" using wf(2) by (simp add: sizes_wf_def)
      ultimately show ?thesis
        using ids_eq [of "md_ntypes m" c ?a ?b] forms(3) [OF ab(3) ab(3)] forms(3) [OF ab(4) ab(4)] by blast
    qed
    then show ?thesis using kind True by simp
  qed
qed

section \<open>A module with equal types in different groups\<close>

text \<open>
  Four groups of one struct type each: types 0 and 1 have the same immutable \<open>i32\<close> field, types 2
  and 3 refer to type 0 and to type 1.
\<close>

definition twin_structs :: modidx where
  "twin_structs = (struct_module [-1, -1, -1, -1]
     [ref_struct [WVT_I32] [0] [False], ref_struct [WVT_I32] [0] [False],
      ref_struct [WVT_REF] [0] [True], ref_struct [WVT_REF] [1] [True]])
     \<lparr>md_group_start := [0, 1, 2, 3]\<rparr>"

lemma singleton_groups: "\<forall>t < md_ntypes m. md_group_start m ! t = t \<Longrightarrow> groups_wf m"
  unfolding groups_wf_def by auto

lemma twin_wf: "groups_wf twin_structs" "sizes_wf twin_structs"
proof -
  have "\<forall>t < 4. [0, 1, 2, 3 :: nat] ! t = t" by (simp add: eval_nat_numeral All_less_Suc)
  then show "groups_wf twin_structs"
    by (intro singleton_groups) (simp add: twin_structs_def struct_module_def)
  have "\<forall>t < 4. length (sty_fields (md_structtypes twin_structs ! t)) = 1"
    by (simp add: twin_structs_def struct_module_def ref_struct_def eval_nat_numeral All_less_Suc)
  moreover have "md_ntypes twin_structs = 4" "length (md_supers twin_structs) = 4"
    "\<forall>t < 4. md_kinds twin_structs ! t = WST_STRUCT" "pack_at twin_structs t i = 0" for t i
    by (simp_all add: twin_structs_def struct_module_def pack_at_def packs_of_def eval_nat_numeral All_less_Suc)
  ultimately show "sizes_wf twin_structs" by (simp add: sizes_wf_def)
qed

lemma twin_canon: "compute_canon twin_structs = Some (Some [0, 0, 1, 1])"
  by code_simp

section \<open>The properties\<close>

lemma compute_canon_some:
  assumes "groups_wf m" "compute_canon m = Some (Some cn)"
  obtains keys c where "canon_inv m (md_ntypes m) keys c" "cn = map (\<lambda>t. int (the (c t))) [0..<md_ntypes m]"
  using canon_loop_inv [OF assms(1) canon_inv_start [OF assms(1)]] assms(2)
  by (auto simp: compute_canon_def)

lemma canon_array:
  assumes wf: "groups_wf m" "sizes_wf m" and inv: "canon_inv m (md_ntypes m) keys c"
    and cn: "cn = map (\<lambda>t. int (the (c t))) [0..<md_ntypes m]" and t: "t < md_ntypes m" "u < md_ntypes m"
  shows "cn ! t = cn ! u \<longleftrightarrow> c t = c u" "length cn = md_ntypes m"
  using canon_inv_forms(3) [OF wf inv t(1) t(1)] canon_inv_forms(3) [OF wf inv t(2) t(2)] t
  by (auto simp: cn)

text \<open>
  C5. \<open>canon[a] == canon[b]\<close> holds exactly when \<open>a\<close> and \<open>b\<close> have the same closed type: same group
  structure with earlier groups expanded, same position.  The byte serialization, the interning
  table and the ids are not part of the specification.
\<close>

theorem canon_iff_ctype:
  assumes "groups_wf m" "sizes_wf m" "compute_canon m = Some (Some cn)"
    "t < md_ntypes m" "u < md_ntypes m"
  shows "(cn ! t = cn ! u \<longleftrightarrow> ctype_of m t = ctype_of m u) \<and> ctype_of m t \<noteq> None"
proof -
  obtain keys c where inv: "canon_inv m (md_ntypes m) keys c"
    and cn: "cn = map (\<lambda>t. int (the (c t))) [0..<md_ntypes m]"
    by (rule compute_canon_some [OF assms(1,3)])
  show ?thesis
    using canon_ctype [OF assms(1,2) inv order_refl assms(4,5)]
      canon_array(1) [OF assms(1,2) inv cn assms(4,5)] by simp
qed

theorem canon_iff_ctype_witness: "ctype_of twin_structs 2 = ctype_of twin_structs 3"
  using canon_iff_ctype [OF twin_wf twin_canon, of 2 3] by (simp add: twin_structs_def struct_module_def)

text \<open>
  Canonicalization ends on every type section whose groups are runs, and when every
  reference and every declared supertype lies before the end of its group it reads no entry of
  \<open>canon\<close> that it has not written.
\<close>

theorem compute_canon_returns:
  assumes "groups_wf m"
  shows "(\<exists>r. compute_canon m = Some r) \<and>
    (type_refs_in_scope m \<and> supers_in_scope m \<longrightarrow> (\<exists>cn. compute_canon m = Some (Some cn)))"
  using canon_loop_inv [OF assms canon_inv_start [OF assms]]
    canon_loop_some [OF assms _ _ canon_inv_start [OF assms]]
  by (auto simp: compute_canon_def)

theorem compute_canon_returns_witness: "\<exists>r. compute_canon twin_structs = Some r"
  using compute_canon_returns [OF twin_wf(1)] by blast

text \<open>
  C24. After canonicalization and an accepted type section the lattice is well formed: types
  with one id have one kind and supertypes with one id, which is what the correctness of the
  subtype test assumes.
\<close>

theorem canon_wf_lattice:
  assumes "groups_wf m" "sizes_wf m" "compute_canon m = Some (Some cn)"
    "types_err (m\<lparr>md_canon := Some cn\<rparr>) = Some JAV_E_NONE"
  shows "wf_lattice (Some (md_lattice (m\<lparr>md_canon := Some cn\<rparr>)))"
proof -
  let ?M = "m\<lparr>md_canon := Some cn\<rparr>" and ?n = "md_ntypes m"
  obtain keys c where inv: "canon_inv m ?n keys c" and cn: "cn = map (\<lambda>t. int (the (c t))) [0..<?n]"
    by (rule compute_canon_some [OF assms(1,3)])
  have kind: "md_kinds m ! t \<in> {WST_STRUCT, WST_ARRAY, WST_FUNC}" if "t < ?n" for t
    using assms(2) that unfolding sizes_wf_def by blast
  have len: "length (md_supers m) = ?n" using assms(2) by (simp add: sizes_wf_def)
  have err: "type_err ?M t = Some JAV_E_NONE" if "t < ?n" for t
    using assms(4) that by (simp add: types_err_none)
  have sup: "md_supers m ! t < int t" "0 \<le> md_supers m ! t \<Longrightarrow> md_kinds m ! nat (md_supers m ! t) = md_kinds m ! t"
    if "t < ?n" for t
    using type_err_super(1,2) [OF err [OF that]] by (cases "0 \<le> md_supers m ! t"; simp)+
  have eqs: "md_kinds m ! t = md_kinds m ! u \<and> canon_super (md_lattice ?M) (md_supers m ! t) (md_supers m ! u)"
    if tu: "t < ?n" "u < ?n" and eq: "cn ! t = cn ! u" for t u
  proof -
    have "c t = c u" using canon_array(1) [OF assms(1,2) inv cn tu] eq by simp
    note e = equal_ids [OF assms(1,2) inv tu this sup(1) [OF tu(1)] sup(1) [OF tu(2)]]
    have lt: "nat (md_supers m ! t) < ?n" "nat (md_supers m ! u) < ?n"
      using sup(1) [OF tu(1)] sup(1) [OF tu(2)] tu by linarith+
    show ?thesis
      using e canon_array(1) [OF assms(1,2) inv cn lt]
      by (auto simp: canon_super_def canon_eq_def md_lattice_def)
  qed
  show ?thesis
    unfolding wf_lattice_def wf_subtype_ctx_def option.case
  proof (intro conjI allI impI)
    fix t u assume "t < sc_ntypes (md_lattice ?M)" "u < sc_ntypes (md_lattice ?M)"
      and eq: "canon_eq (md_lattice ?M) (int t) (int u)"
    then have tu: "t < ?n" "u < ?n" by (simp_all add: md_lattice_def)
    have "cn ! t = cn ! u" using eq by (simp add: canon_eq_def md_lattice_def)
    from eqs [OF tu this]
    show "sc_kinds (md_lattice ?M) ! t = sc_kinds (md_lattice ?M) ! u"
      "canon_super (md_lattice ?M) (sc_supers (md_lattice ?M) ! t) (sc_supers (md_lattice ?M) ! u)"
      by (simp_all add: md_lattice_def)
  next
    fix t assume "t < sc_ntypes (md_lattice ?M)"
    then have t: "t < ?n" by (simp add: md_lattice_def)
    show "sc_kinds (md_lattice ?M) ! t \<in> {WST_STRUCT, WST_ARRAY, WST_FUNC}"
      "sc_supers (md_lattice ?M) ! t < int t"
      using kind [OF t] sup(1) [OF t] by (simp_all add: md_lattice_def)
    assume "0 \<le> sc_supers (md_lattice ?M) ! t"
    then show "sc_kinds (md_lattice ?M) ! nat (sc_supers (md_lattice ?M) ! t) = sc_kinds (md_lattice ?M) ! t"
      using sup(2) [OF t] by (simp add: md_lattice_def)
  qed (simp_all add: md_lattice_def len cn)
qed

lemma three_canon: "compute_canon three_structs = Some (Some [0, 1, 2])"
  by code_simp

lemma three_groups: "groups_wf three_structs" "sizes_wf three_structs"
proof -
  have z: "\<forall>t < 3. md_group_start three_structs ! t = 0" and k: "md_ntypes three_structs = 3"
    by (simp_all add: three_structs_def struct_module_def eval_nat_numeral All_less_Suc)
  have "md_group_start three_structs ! u = 0" if "u \<le> t" "t < 3" for t u
    using z le_less_trans [OF that] by blast
  note z = this
  show "groups_wf three_structs" unfolding groups_wf_def k
  proof (intro allI impI conjI)
    fix t :: nat assume t: "t < 3"
    show "md_group_start three_structs ! t \<le> t" using z [OF order_refl t] by (simp only: zero_le)
    fix u assume "md_group_start three_structs ! t \<le> u \<and> u \<le> t"
    then have "u \<le> t" by blast
    show "md_group_start three_structs ! u = md_group_start three_structs ! t"
      by (rule trans [OF z [OF \<open>u \<le> t\<close> t] z [OF order_refl t, symmetric]])
  qed
  have "\<forall>t < 3. length (sty_fields (md_structtypes three_structs ! t)) \<le> Suc (Suc 0)"
    by (simp add: three_structs_def struct_module_def ref_struct_def eval_nat_numeral All_less_Suc)
  then have "\<forall>t < 3. length (sty_fields (md_structtypes three_structs ! t)) < 2 ^ 32" by fastforce
  moreover have "length (md_supers three_structs) = 3"
    "\<forall>t < 3. md_kinds three_structs ! t = WST_STRUCT" "pack_at three_structs t i = 0" for t i
    by (simp_all add: three_structs_def struct_module_def pack_at_def packs_of_def eval_nat_numeral All_less_Suc)
  ultimately show "sizes_wf three_structs" by (simp add: sizes_wf_def k)
qed

theorem canon_wf_lattice_witness: "wf_lattice (Some (md_lattice (three_structs\<lparr>md_canon := Some [0, 1, 2]\<rparr>)))"
proof (rule canon_wf_lattice [OF three_groups three_canon])
  have "three_structs\<lparr>md_canon := Some [0, 1, 2]\<rparr> = three_structs"
    by (simp add: three_structs_def struct_module_def upt_rec)
  then show "types_err (three_structs\<lparr>md_canon := Some [0, 1, 2]\<rparr>) = Some JAV_E_NONE"
    using three_accepted by simp
qed


end
