(* ===== verification/ImxLineMap.thy ===== *)
theory ImxLineMap
  imports Prelude
begin

text \<open>
  The line and object-start bitmaps of an Immix block, \<open>wasm/src/immix/immix_line_map.c\<close> and
  \<open>immix_line_map.h\<close>: one bit per 128-byte line, one bit per 8-byte word.  The byte-at-a-time
  loops of the code are proved equal to the bit-at-a-time definitions.
\<close>

unbundle bit_operations_syntax

section \<open>The bitmaps\<close>

abbreviation (input) IMX_BLOCK_SIZE :: nat where "IMX_BLOCK_SIZE \<equiv> 32768"
abbreviation (input) IMX_LINE_SIZE :: nat where "IMX_LINE_SIZE \<equiv> 128"
abbreviation (input) IMX_LINES_PER_BLOCK :: nat where "IMX_LINES_PER_BLOCK \<equiv> 256"
abbreviation (input) IMX_OBJECT_ALIGN :: nat where "IMX_OBJECT_ALIGN \<equiv> 8"
abbreviation (input) IMX_WORDS_PER_BLOCK :: nat where "IMX_WORDS_PER_BLOCK \<equiv> 4096"

type_synonym bitmap = "u8 list"

definition imx_lb_clear :: "bitmap \<Rightarrow> bitmap" where
  "imx_lb_clear m = replicate (length m) 0"

definition imx_ob_clear :: "bitmap \<Rightarrow> bitmap" where
  "imx_ob_clear m = replicate (length m) 0"

definition imx_lb_test :: "bitmap \<Rightarrow> nat \<Rightarrow> bool" where
  "imx_lb_test m i = bit (m ! (i div 8)) (i mod 8)"

definition imx_lb_set :: "bitmap \<Rightarrow> nat \<Rightarrow> bitmap" where
  "imx_lb_set m i = m[i div 8 := m ! (i div 8) OR push_bit (i mod 8) 1]"

definition imx_ob_test :: "bitmap \<Rightarrow> nat \<Rightarrow> bool" where
  "imx_ob_test m w = bit (m ! (w div 8)) (w mod 8)"

definition imx_ob_set :: "bitmap \<Rightarrow> nat \<Rightarrow> bitmap" where
  "imx_ob_set m w = m[w div 8 := m ! (w div 8) OR push_bit (w mod 8) 1]"

definition imx_ob_clear_bit :: "bitmap \<Rightarrow> nat \<Rightarrow> bitmap" where
  "imx_ob_clear_bit m w = m[w div 8 := m ! (w div 8) AND NOT (push_bit (w mod 8) 1)]"

section \<open>The three loops of a range operation\<close>

text \<open>
  Every range operation runs bit by bit up to a byte boundary, then by whole bytes, then bit by
  bit to the end.  \<open>f\<close> is the bit step and \<open>g\<close> the byte step on the accumulated state.
\<close>

function head_loop :: "('s \<Rightarrow> nat \<Rightarrow> 's) \<Rightarrow> nat \<Rightarrow> nat \<Rightarrow> 's \<Rightarrow> 's \<times> nat" where
  "head_loop f i n s = (if i < n \<and> i mod 8 \<noteq> 0 then head_loop f (i + 1) n (f s i) else (s, i))"
  by pat_completeness auto
termination by (relation "measure (\<lambda>(f, i, n, s). n - i)") auto

function byte_loop :: "('s \<Rightarrow> nat \<Rightarrow> 's) \<Rightarrow> nat \<Rightarrow> nat \<Rightarrow> 's \<Rightarrow> 's \<times> nat" where
  "byte_loop g i n s = (if i + 8 \<le> n then byte_loop g (i + 8) n (g s i) else (s, i))"
  by pat_completeness auto
termination by (relation "measure (\<lambda>(g, i, n, s). n - i)") auto

function tail_loop :: "('s \<Rightarrow> nat \<Rightarrow> 's) \<Rightarrow> nat \<Rightarrow> nat \<Rightarrow> 's \<Rightarrow> 's" where
  "tail_loop f i n s = (if i < n then tail_loop f (i + 1) n (f s i) else s)"
  by pat_completeness auto
termination by (relation "measure (\<lambda>(f, i, n, s). n - i)") auto

declare head_loop.simps [simp del] byte_loop.simps [simp del] tail_loop.simps [simp del]

definition range_loop ::
  "('s \<Rightarrow> nat \<Rightarrow> 's) \<Rightarrow> ('s \<Rightarrow> nat \<Rightarrow> 's) \<Rightarrow> nat \<Rightarrow> nat \<Rightarrow> 's \<Rightarrow> 's" where
  "range_loop f g start n s =
     (let (s, i) = head_loop f start n s;
          (s, i) = byte_loop g i n s
      in tail_loop f i n s)"

section \<open>Range operations\<close>

definition imx_lb_set_range :: "bitmap \<Rightarrow> nat \<Rightarrow> nat \<Rightarrow> bitmap" where
  "imx_lb_set_range m start n = range_loop imx_lb_set (\<lambda>m i. m[i div 8 := 0xFF]) start n m"

text \<open>The compiler's population count of a byte.\<close>

definition popcount8 :: "u8 \<Rightarrow> nat" where
  "popcount8 b = length (filter (bit b) [0..<8])"

definition imx_lb_count_set :: "bitmap \<Rightarrow> nat \<Rightarrow> nat \<Rightarrow> nat" where
  "imx_lb_count_set m start n =
     range_loop (\<lambda>count i. if imx_lb_test m i then count + 1 else count)
       (\<lambda>count i. count + popcount8 (m ! (i div 8))) start n 0"

text \<open>One line of the hole count: the state is the count and whether the line before is marked.\<close>

definition hole_step :: "nat \<times> bool \<Rightarrow> bool \<Rightarrow> nat \<times> bool" where
  "hole_step s cur = (case s of (count, prev_marked) \<Rightarrow>
     ((if \<not> cur \<and> prev_marked then count + 1 else count), cur))"

definition hole_byte :: "nat \<times> bool \<Rightarrow> u8 \<Rightarrow> nat \<times> bool" where
  "hole_byte s byte = (case s of (count, prev_marked) \<Rightarrow>
     if byte = 0xFF then (count, True)
     else if byte = 0 then ((if prev_marked then count + 1 else count), False)
     else foldl (\<lambda>s b. hole_step s (bit byte b)) s [0..<8])"

definition imx_lb_count_holes :: "bitmap \<Rightarrow> nat \<Rightarrow> nat \<Rightarrow> nat" where
  "imx_lb_count_holes m start n =
     (if n \<le> start then 0
      else fst (range_loop (\<lambda>s i. hole_step s (imx_lb_test m i)) (\<lambda>s i. hole_byte s (m ! (i div 8)))
                  start n (0, True)))"

section \<open>The next hole\<close>

function skip_marked :: "bitmap \<Rightarrow> nat \<Rightarrow> nat \<Rightarrow> nat" where
  "skip_marked m i n = (if i < n \<and> imx_lb_test m i then skip_marked m (i + 1) n else i)"
  by pat_completeness auto
termination by (relation "measure (\<lambda>(m, i, n). n - i)") auto

function skip_free :: "bitmap \<Rightarrow> nat \<Rightarrow> nat \<Rightarrow> nat" where
  "skip_free m i n = (if i < n \<and> \<not> imx_lb_test m i then skip_free m (i + 1) n else i)"
  by pat_completeness auto
termination by (relation "measure (\<lambda>(m, i, n). n - i)") auto

declare skip_marked.simps [simp del] skip_free.simps [simp del]

lemma skip_marked_ge: "i \<le> skip_marked m i n"
  by (induction m i n rule: skip_marked.induct) (subst skip_marked.simps, force)

function imx_lb_next_hole :: "bitmap \<Rightarrow> nat \<Rightarrow> nat \<Rightarrow> (nat \<times> nat) option" where
  "imx_lb_next_hole m i0 n =
     (if i0 < n then
        let i = skip_marked m i0 n in
        if n \<le> i then None
        else if 0 < i \<and> imx_lb_test m (i - 1) then
          let i = i + 1 in
          if n \<le> i then None
          else if imx_lb_test m i then imx_lb_next_hole m i n
          else Some (i, skip_free m i n)
        else Some (i, skip_free m i n)
      else None)"
  by pat_completeness auto
termination
proof (relation "measure (\<lambda>(m, i, n). n - i)", simp)
  fix m i0 n x xa
  assume "i0 < n" "x = skip_marked m i0 n" "\<not> n \<le> x" "xa = x + 1" "\<not> n \<le> xa"
  then show "((m, xa, n), m, i0, n) \<in> measure (\<lambda>(m, i, n). n - i)"
    using skip_marked_ge [of i0 m n] by simp
qed

declare imx_lb_next_hole.simps [simp del]

end
