(* ===== verification/ImxBlock.thy ===== *)
theory ImxBlock
  imports ImxLineMap
begin

text \<open>
  One Immix block and the block pool, \<open>wasm/src/immix/immix_block.c\<close>, \<open>immix_block.h\<close> and
  \<open>immix_block_allocator.c\<close>.

  Addresses are natural numbers; the masks of the code are remainders by the block size.  The
  in-band header of the block at address \<open>b\<close> is the entry of a map from block addresses to headers.
  An assertion of the code is a branch to \<open>None\<close>.
\<close>

section \<open>The header\<close>

datatype imx_state = IMX_BLOCK_FREE | IMX_BLOCK_RECYCLABLE | IMX_BLOCK_UNAVAILABLE

record imx_block =
  bk_line_marks :: bitmap
  bk_object_starts :: bitmap
  bk_state :: imx_state
  bk_hole_count :: u16
  bk_defrag_holes :: u16
  bk_defrag_marked :: u16
  bk_defrag_candidate :: bool

definition IMX_METADATA_BYTES :: nat where
  "IMX_METADATA_BYTES = 32 + 512 + 1 + 2 + 2 + 2 + 1"

definition IMX_DATA_START_LINE :: nat where
  "IMX_DATA_START_LINE = (IMX_METADATA_BYTES + IMX_LINE_SIZE - 1) div IMX_LINE_SIZE"

definition IMX_DATA_START_OFFSET :: nat where
  "IMX_DATA_START_OFFSET = IMX_DATA_START_LINE * IMX_LINE_SIZE"

definition IMX_DATA_LINES :: nat where
  "IMX_DATA_LINES = IMX_LINES_PER_BLOCK - IMX_DATA_START_LINE"

definition IMX_FIRST_DATA_WORD :: nat where
  "IMX_FIRST_DATA_WORD = IMX_DATA_START_OFFSET div IMX_OBJECT_ALIGN"

definition IMX_LAST_DATA_WORD :: nat where
  "IMX_LAST_DATA_WORD = IMX_BLOCK_SIZE div IMX_OBJECT_ALIGN"

lemma imx_layout [simp]:
  "IMX_DATA_START_LINE = 5" "IMX_DATA_START_OFFSET = 640" "IMX_DATA_LINES = 251"
  "IMX_FIRST_DATA_WORD = 80" "IMX_LAST_DATA_WORD = 4096"
  by (simp_all add: IMX_DATA_START_LINE_def IMX_METADATA_BYTES_def IMX_DATA_START_OFFSET_def
      IMX_DATA_LINES_def IMX_FIRST_DATA_WORD_def IMX_LAST_DATA_WORD_def)

section \<open>Address arithmetic\<close>

definition imx_block_of :: "nat \<Rightarrow> nat" where
  "imx_block_of addr = addr - addr mod IMX_BLOCK_SIZE"

definition imx_word_of :: "nat \<Rightarrow> nat" where
  "imx_word_of addr = (addr mod IMX_BLOCK_SIZE) div IMX_OBJECT_ALIGN"

definition imx_line_of :: "nat \<Rightarrow> nat" where
  "imx_line_of addr = (addr mod IMX_BLOCK_SIZE) div IMX_LINE_SIZE"

definition imx_block_addr_of_word :: "nat \<Rightarrow> nat \<Rightarrow> nat" where
  "imx_block_addr_of_word b w = b + w * IMX_OBJECT_ALIGN"

definition imx_block_line_addr :: "nat \<Rightarrow> nat \<Rightarrow> nat" where
  "imx_block_line_addr b line = b + line * IMX_LINE_SIZE"

definition imx_block_data_start :: "nat \<Rightarrow> nat" where
  "imx_block_data_start b = b + IMX_DATA_START_OFFSET"

definition imx_block_data_end :: "nat \<Rightarrow> nat" where
  "imx_block_data_end b = b + IMX_BLOCK_SIZE"

definition imx_block_owns :: "nat \<Rightarrow> nat \<Rightarrow> bool" where
  "imx_block_owns b addr \<longleftrightarrow> imx_block_of addr = b"

section \<open>Operations on one block\<close>

definition imx_block_init :: "imx_block \<Rightarrow> imx_block" where
  "imx_block_init b =
     \<lparr>bk_line_marks = imx_lb_clear (bk_line_marks b), bk_object_starts = imx_ob_clear (bk_object_starts b),
      bk_state = IMX_BLOCK_FREE, bk_hole_count = 0, bk_defrag_holes = 0, bk_defrag_marked = 0,
      bk_defrag_candidate = False\<rparr>"

definition imx_block_clear_marks :: "imx_block \<Rightarrow> imx_block" where
  "imx_block_clear_marks b =
     b\<lparr>bk_line_marks := imx_lb_clear (bk_line_marks b), bk_state := IMX_BLOCK_FREE, bk_hole_count := 0\<rparr>"

text \<open>The headers of all blocks.  The operations below act on the header of block \<open>b\<close>.\<close>

type_synonym bmem = "nat \<Rightarrow> imx_block"

definition imx_block_record_allocation :: "nat \<Rightarrow> nat \<Rightarrow> bmem \<Rightarrow> bmem option" where
  "imx_block_record_allocation b obj mem =
     (if \<not> imx_block_owns b obj then None
      else Some (mem(b := (mem b)\<lparr>bk_object_starts := imx_ob_set (bk_object_starts (mem b)) (imx_word_of obj)\<rparr>)))"

definition imx_block_clear_object_start :: "nat \<Rightarrow> nat \<Rightarrow> bmem \<Rightarrow> bmem option" where
  "imx_block_clear_object_start b obj mem =
     (if \<not> imx_block_owns b obj then None
      else Some (mem(b := (mem b)\<lparr>bk_object_starts := imx_ob_clear_bit (bk_object_starts (mem b)) (imx_word_of obj)\<rparr>)))"

definition imx_block_mark_object :: "nat \<Rightarrow> nat \<Rightarrow> nat \<Rightarrow> bmem \<Rightarrow> bmem option" where
  "imx_block_mark_object b obj sz mem =
     (let first_line = imx_line_of obj in
      if \<not> imx_block_owns b obj \<or> sz = 0 \<or> first_line < IMX_DATA_START_LINE then None
      else
        let marks = imx_lb_set (bk_line_marks (mem b)) first_line in
        if IMX_LINE_SIZE < sz then
          let last_line = imx_line_of (obj + sz - 1) in
          if IMX_LINES_PER_BLOCK \<le> last_line then None
          else Some (mem(b := (mem b)\<lparr>bk_line_marks :=
                  foldl imx_lb_set marks [first_line + 1..<last_line + 1]\<rparr>))
        else Some (mem(b := (mem b)\<lparr>bk_line_marks := marks\<rparr>)))"

definition imx_block_classify :: "imx_block \<Rightarrow> imx_block" where
  "imx_block_classify b =
     (let marked = imx_lb_count_set (bk_line_marks b) IMX_DATA_START_LINE IMX_LINES_PER_BLOCK;
          holes = word_of_nat (imx_lb_count_holes (bk_line_marks b) IMX_DATA_START_LINE IMX_LINES_PER_BLOCK)
      in b\<lparr>bk_hole_count := holes, bk_defrag_holes := holes, bk_defrag_marked := word_of_nat marked,
           bk_state := (if marked = 0 then IMX_BLOCK_FREE
                        else if marked = IMX_DATA_LINES then IMX_BLOCK_UNAVAILABLE
                        else IMX_BLOCK_RECYCLABLE)\<rparr>)"

definition imx_block_next_hole :: "imx_block \<Rightarrow> nat \<Rightarrow> (nat \<times> nat) option" where
  "imx_block_next_hole b from_line = imx_lb_next_hole (bk_line_marks b) from_line IMX_LINES_PER_BLOCK"

text \<open>The objects that \<open>for_each_object\<close> visits, in its order.\<close>

definition imx_block_objects :: "nat \<Rightarrow> imx_block \<Rightarrow> nat list" where
  "imx_block_objects b bk =
     map (imx_block_addr_of_word b)
       (filter (imx_ob_test (bk_object_starts bk)) [IMX_FIRST_DATA_WORD..<IMX_LAST_DATA_WORD])"

section \<open>The block pool\<close>

record imx_pool =
  pl_allocated :: "nat list"
  pl_freelist :: "nat list"
  pl_total_acquired :: u64
  pl_total_released :: u64
  pl_total_os_allocs :: u64
  pl_total_os_frees :: u64

definition imx_block_pool_init :: imx_pool where
  "imx_block_pool_init =
     \<lparr>pl_allocated = [], pl_freelist = [], pl_total_acquired = 0, pl_total_released = 0,
      pl_total_os_allocs = 0, pl_total_os_frees = 0\<rparr>"

text \<open>
  The result of \<open>aligned_alloc\<close> is a parameter, a function of the pool's state: the address of a
  new block, or \<open>None\<close>.
\<close>

type_synonym os_alloc = "imx_pool \<Rightarrow> nat option"

definition imx_block_pool_acquire :: "os_alloc \<Rightarrow> bmem \<times> imx_pool \<Rightarrow> nat option \<times> bmem \<times> imx_pool" where
  "imx_block_pool_acquire os st =
     (case st of (mem, p) \<Rightarrow>
        let p = p\<lparr>pl_total_acquired := pl_total_acquired p + 1\<rparr> in
        if pl_freelist p \<noteq> [] then
          let b = last (pl_freelist p) in
          (Some b, mem(b := imx_block_clear_marks (mem b)), p\<lparr>pl_freelist := butlast (pl_freelist p)\<rparr>)
        else
          (case os p of
             None \<Rightarrow> (None, mem, p)
           | Some b \<Rightarrow>
               (Some b, mem(b := imx_block_init (mem b)),
                p\<lparr>pl_allocated := pl_allocated p @ [b], pl_total_os_allocs := pl_total_os_allocs p + 1\<rparr>)))"

definition imx_block_pool_release :: "nat \<Rightarrow> imx_pool \<Rightarrow> imx_pool" where
  "imx_block_pool_release b p =
     p\<lparr>pl_total_released := pl_total_released p + 1, pl_freelist := pl_freelist p @ [b]\<rparr>"

text \<open>The loop that replaces the entry of a block by the last entry of the array.\<close>

definition swap_remove :: "nat \<Rightarrow> nat list \<Rightarrow> nat list" where
  "swap_remove b xs =
     (let i = length (takeWhile (\<lambda>x. x \<noteq> b) xs) in
      if length xs \<le> i then xs
      else if i < length xs - 1 then (butlast xs)[i := last xs] else butlast xs)"

function imx_block_pool_trim :: "nat \<Rightarrow> nat \<Rightarrow> imx_pool \<Rightarrow> nat \<times> imx_pool" where
  "imx_block_pool_trim keep freed p =
     (if keep < length (pl_freelist p) then
        let b = last (pl_freelist p) in
        imx_block_pool_trim keep (freed + 1)
          (p\<lparr>pl_freelist := butlast (pl_freelist p), pl_allocated := swap_remove b (pl_allocated p),
             pl_total_os_frees := pl_total_os_frees p + 1\<rparr>)
      else (freed, p))"
  by pat_completeness auto
termination by (relation "measure (\<lambda>(keep, freed, p). length (pl_freelist p))") auto

declare imx_block_pool_trim.simps [simp del]

definition imx_block_pool_live :: "imx_pool \<Rightarrow> nat" where
  "imx_block_pool_live p = length (pl_allocated p) - length (pl_freelist p)"

end
