(* ===== verification/ImxSpace.thy ===== *)
theory ImxSpace
  imports ImxBlock
begin

unbundle bit_operations_syntax

text \<open>
  The Immix space, \<open>wasm/src/immix/immix_space.c\<close>: the small allocator that bumps through holes,
  the medium allocator that takes whole free blocks, reclamation, and evacuation.  The null pointer
  is 0.  A result of \<open>None\<close> is a failed assertion or a loop that does not end; the address of an
  allocation is \<open>None\<close> when the code returns null.
\<close>

section \<open>State\<close>

record imx_space =
  sp_pool :: imx_pool
  sp_mem :: bmem
  sp_all :: "nat list"
  sp_free :: "nat list"
  sp_recyclable :: "nat list"
  sp_unavailable :: "nat list"
  sp_small_cursor :: nat
  sp_small_limit :: nat
  sp_small_block :: nat
  sp_small_next_line :: nat
  sp_medium_cursor :: nat
  sp_medium_limit :: nat
  sp_medium_block :: nat
  sp_evacuation_active :: bool
  sp_evacuation_targets :: "nat list"
  sp_evac_reserve :: "nat list"
  sp_defrag_scratch :: "nat list"
  sp_evac_from_reserve :: nat
  sp_evac_cursor :: nat
  sp_evac_limit :: nat
  sp_evac_target_idx :: nat

abbreviation (input) IMX_SMALL_MAX :: nat where "IMX_SMALL_MAX \<equiv> IMX_LINE_SIZE"

definition IMX_MEDIUM_MAX :: nat where
  "IMX_MEDIUM_MAX = IMX_BLOCK_SIZE - IMX_DATA_START_OFFSET"

text \<open>The headers of the memory that the operating system hands out are arbitrary.\<close>

definition imx_space_init :: "bmem \<Rightarrow> imx_space" where
  "imx_space_init mem =
     \<lparr>sp_pool = imx_block_pool_init, sp_mem = mem, sp_all = [], sp_free = [], sp_recyclable = [],
      sp_unavailable = [], sp_small_cursor = 0, sp_small_limit = 0, sp_small_block = 0,
      sp_small_next_line = 0, sp_medium_cursor = 0, sp_medium_limit = 0, sp_medium_block = 0,
      sp_evacuation_active = False, sp_evacuation_targets = [], sp_evac_reserve = [],
      sp_defrag_scratch = [], sp_evac_from_reserve = 0, sp_evac_cursor = 0, sp_evac_limit = 0,
      sp_evac_target_idx = 0\<rparr>"

text \<open>\<open>(v + align - 1) & ~(align - 1)\<close> for a power of two.\<close>

definition align_up :: "nat \<Rightarrow> nat \<Rightarrow> nat" where
  "align_up v align = (v + align - 1) div align * align"

section \<open>Block acquisition\<close>

definition take_free_block :: "os_alloc \<Rightarrow> imx_space \<Rightarrow> nat option \<times> imx_space" where
  "take_free_block os s =
     (if sp_free s \<noteq> [] then (Some (last (sp_free s)), s\<lparr>sp_free := butlast (sp_free s)\<rparr>)
      else
        let (b, mem, p) = imx_block_pool_acquire os (sp_mem s, sp_pool s);
            s = s\<lparr>sp_mem := mem, sp_pool := p\<rparr>
        in case b of None \<Rightarrow> (None, s) | Some b \<Rightarrow> (Some b, s\<lparr>sp_all := sp_all s @ [b]\<rparr>))"

definition take_recyclable_block :: "imx_space \<Rightarrow> nat option \<times> imx_space" where
  "take_recyclable_block s =
     (if sp_recyclable s = [] then (None, s)
      else (Some (last (sp_recyclable s)), s\<lparr>sp_recyclable := butlast (sp_recyclable s)\<rparr>))"

section \<open>The small allocator\<close>

text \<open>Bump through the hole from line \<open>i\<close> to line \<open>j\<close> of block \<open>b\<close>.\<close>

definition set_hole :: "nat \<Rightarrow> nat \<Rightarrow> nat \<Rightarrow> imx_space \<Rightarrow> imx_space" where
  "set_hole b i j s =
     s\<lparr>sp_small_cursor := imx_block_line_addr b i, sp_small_limit := imx_block_line_addr b j,
       sp_small_next_line := j\<rparr>"

text \<open>A recyclable block, or else a free one.\<close>

definition next_block :: "os_alloc \<Rightarrow> imx_space \<Rightarrow> nat option \<times> imx_space" where
  "next_block os s =
     (case take_recyclable_block s of (Some b, s) \<Rightarrow> (Some b, s) | (None, s) \<Rightarrow> take_free_block os s)"

partial_function (option) refill_loop :: "os_alloc \<Rightarrow> imx_space \<Rightarrow> (bool \<times> imx_space) option" where
  "refill_loop os s =
     (let (b, s) = next_block os s in
      if b = None then Some (False, s)
      else
        let b = the b;
            s = s\<lparr>sp_small_block := b, sp_small_next_line := IMX_DATA_START_LINE\<rparr>;
            h = imx_block_next_hole (sp_mem s b) (sp_small_next_line s)
        in if h = None then refill_loop os (s\<lparr>sp_small_cursor := 0, sp_small_limit := 0\<rparr>)
           else Some (True, set_hole b (fst (the h)) (snd (the h)) s))"

definition refill_small :: "os_alloc \<Rightarrow> imx_space \<Rightarrow> (bool \<times> imx_space) option" where
  "refill_small os s =
     (let h = (if sp_small_block s \<noteq> 0
               then imx_block_next_hole (sp_mem s (sp_small_block s)) (sp_small_next_line s) else None)
      in case h of
           Some (i, j) \<Rightarrow> Some (True, set_hole (sp_small_block s) i j s)
         | None \<Rightarrow> refill_loop os s)"

text \<open>Bump in the current hole; the object start is recorded in the small block.\<close>

definition bump_small :: "nat \<Rightarrow> nat \<Rightarrow> imx_space \<Rightarrow> (nat \<times> imx_space) option" where
  "bump_small sz alignment s =
     (let p = align_up (sp_small_cursor s) alignment in
      if p + sz \<le> sp_small_limit s then Some (p, s\<lparr>sp_small_cursor := p + sz\<rparr>) else None)"

definition record_at :: "nat \<Rightarrow> nat \<Rightarrow> imx_space \<Rightarrow> (nat option \<times> imx_space) option" where
  "record_at b p s =
     map_option (\<lambda>mem. (Some p, s\<lparr>sp_mem := mem\<rparr>)) (imx_block_record_allocation b p (sp_mem s))"

section \<open>The medium allocator\<close>

definition refill_medium :: "os_alloc \<Rightarrow> imx_space \<Rightarrow> bool \<times> imx_space" where
  "refill_medium os s =
     (case take_free_block os s of
        (None, s) \<Rightarrow> (False, s)
      | (Some b, s) \<Rightarrow>
          (True, s\<lparr>sp_medium_block := b, sp_medium_cursor := imx_block_data_start b,
                   sp_medium_limit := imx_block_data_end b\<rparr>))"

definition bump_medium :: "nat \<Rightarrow> nat \<Rightarrow> imx_space \<Rightarrow> (nat \<times> imx_space) option" where
  "bump_medium sz alignment s =
     (let p = align_up (sp_medium_cursor s) alignment in
      if p + sz \<le> sp_medium_limit s then Some (p, s\<lparr>sp_medium_cursor := p + sz\<rparr>) else None)"

definition alloc_medium ::
  "os_alloc \<Rightarrow> nat \<Rightarrow> nat \<Rightarrow> imx_space \<Rightarrow> (nat option \<times> imx_space) option" where
  "alloc_medium os sz alignment s =
     (case (if sp_medium_cursor s \<noteq> 0 then bump_medium sz alignment s else None) of
        Some (p, s) \<Rightarrow> record_at (sp_medium_block s) p s
      | None \<Rightarrow>
          (case refill_medium os s of
             (False, s) \<Rightarrow> Some (None, s)
           | (True, s) \<Rightarrow>
               (case bump_medium sz alignment s of
                  Some (p, s) \<Rightarrow> record_at (sp_medium_block s) p s
                | None \<Rightarrow> Some (None, s))))"

text \<open>The loop of \<open>alloc_small\<close> for a hole that the alignment has used up.\<close>

partial_function (option) alloc_small_loop ::
  "os_alloc \<Rightarrow> nat \<Rightarrow> nat \<Rightarrow> imx_space \<Rightarrow> (nat option \<times> imx_space) option" where
  "alloc_small_loop os sz alignment s =
     Option.bind (refill_small os s) (\<lambda>r.
       if \<not> fst r then alloc_medium os sz alignment (snd r)
       else case bump_small sz alignment (snd r) of
              Some (p, s) \<Rightarrow> record_at (sp_small_block s) p s
            | None \<Rightarrow> alloc_small_loop os sz alignment (snd r))"

definition alloc_small ::
  "os_alloc \<Rightarrow> nat \<Rightarrow> nat \<Rightarrow> imx_space \<Rightarrow> (nat option \<times> imx_space) option" where
  "alloc_small os sz alignment s =
     (case (if sp_small_cursor s \<noteq> 0 then bump_small sz alignment s else None) of
        Some (p, s) \<Rightarrow> record_at (sp_small_block s) p s
      | None \<Rightarrow>
          Option.bind (refill_small os s) (\<lambda>(ok, s).
            if \<not> ok then Some (None, s)
            else case bump_small sz alignment s of
                   Some (p, s) \<Rightarrow> record_at (sp_small_block s) p s
                 | None \<Rightarrow> alloc_small_loop os sz alignment s))"

definition imx_space_allocate ::
  "os_alloc \<Rightarrow> nat \<Rightarrow> nat \<Rightarrow> imx_space \<Rightarrow> (nat option \<times> imx_space) option" where
  "imx_space_allocate os sz alignment s =
     (if sz = 0 then Some (None, s)
      else if \<not> (0 < alignment \<and> alignment AND (alignment - 1) = 0) then None
      else if sz \<le> IMX_SMALL_MAX then alloc_small os sz alignment s
      else alloc_medium os sz alignment s)"

section \<open>Reclamation\<close>

definition imx_space_clear_marks :: "imx_space \<Rightarrow> imx_space" where
  "imx_space_clear_marks s =
     s\<lparr>sp_mem := foldl (\<lambda>mem b. mem(b := imx_block_clear_marks (mem b))) (sp_mem s) (sp_all s)\<rparr>"

text \<open>One round of the sweep: classify the block and append it to the list of its state.\<close>

definition sweep_block :: "imx_space \<Rightarrow> nat \<Rightarrow> imx_space" where
  "sweep_block s b =
     (let bk = imx_block_classify (sp_mem s b);
          s = s\<lparr>sp_mem := (sp_mem s)(b := bk)\<rparr>
      in case bk_state bk of
           IMX_BLOCK_FREE \<Rightarrow> s\<lparr>sp_free := sp_free s @ [b]\<rparr>
         | IMX_BLOCK_RECYCLABLE \<Rightarrow> s\<lparr>sp_recyclable := sp_recyclable s @ [b]\<rparr>
         | IMX_BLOCK_UNAVAILABLE \<Rightarrow> s\<lparr>sp_unavailable := sp_unavailable s @ [b]\<rparr>)"

text \<open>Set aside up to \<open>n\<close> free blocks for the next evacuation.\<close>

fun set_aside :: "nat \<Rightarrow> imx_space \<Rightarrow> imx_space" where
  "set_aside 0 s = s"
| "set_aside (Suc n) s =
     (if sp_free s = [] then s
      else set_aside n (s\<lparr>sp_evac_reserve := sp_evac_reserve s @ [last (sp_free s)],
                         sp_free := butlast (sp_free s)\<rparr>))"

definition imx_space_reclaim :: "nat \<Rightarrow> imx_space \<Rightarrow> imx_space" where
  "imx_space_reclaim headroom_blocks s =
     (let s = s\<lparr>sp_free := [], sp_recyclable := [], sp_unavailable := [], sp_evac_reserve := []\<rparr>;
          s = foldl sweep_block s (sp_all s);
          s = set_aside headroom_blocks s
      in s\<lparr>sp_small_block := 0, sp_small_cursor := 0, sp_small_limit := 0, sp_small_next_line := 0,
           sp_medium_block := 0, sp_medium_cursor := 0, sp_medium_limit := 0\<rparr>)"

section \<open>Counters\<close>

definition imx_space_total_blocks :: "imx_space \<Rightarrow> nat" where
  "imx_space_total_blocks s = length (sp_all s)"

definition imx_space_empty_blocks :: "imx_space \<Rightarrow> nat" where
  "imx_space_empty_blocks s = length (sp_free s) + length (sp_evac_reserve s)"

definition imx_space_all_reclaimed :: "imx_space \<Rightarrow> bool" where
  "imx_space_all_reclaimed s \<longleftrightarrow>
     length (sp_recyclable s) = 0 \<and> length (sp_unavailable s) = 0 \<and>
     imx_space_empty_blocks s = imx_space_total_blocks s"

text \<open>Every block goes back to the operating system and the structure is zeroed.\<close>

definition imx_space_destroy :: "imx_space \<Rightarrow> imx_space" where
  "imx_space_destroy s = imx_space_init (sp_mem s)"

end
