(* ===== verification/ImxLineMapRules.thy ===== *)
theory ImxLineMapRules
  imports ImxLineMap
begin

text \<open>
  The bitmaps are finite sets of indices: the interface the block and the allocator use, its
  interpretation on the line and the object bitmap, the range operations as set operations, and
  the specification of the hole search.
\<close>

section \<open>The interface\<close>

locale bit_set =
  fixes cap :: nat
    and test :: "'m \<Rightarrow> nat \<Rightarrow> bool"
    and mark :: "'m \<Rightarrow> nat \<Rightarrow> 'm"
    and clear :: "'m \<Rightarrow> 'm"
    and valid :: "'m \<Rightarrow> bool"
  assumes valid_mark: "valid m \<Longrightarrow> i < cap \<Longrightarrow> valid (mark m i)"
    and test_mark: "valid m \<Longrightarrow> i < cap \<Longrightarrow> test (mark m i) j \<longleftrightarrow> test m j \<or> j = i"
    and valid_clear: "valid m \<Longrightarrow> valid (clear m)"
    and test_clear: "valid m \<Longrightarrow> j < cap \<Longrightarrow> \<not> test (clear m) j"
begin

definition elems :: "'m \<Rightarrow> nat set" where
  "elems m = {i. i < cap \<and> test m i}"

lemma marks_valid: "valid m \<Longrightarrow> \<forall>i \<in> set xs. i < cap \<Longrightarrow> valid (foldl mark m xs)"
  by (induction xs arbitrary: m) (auto simp: valid_mark)

lemma marks_test:
  "valid m \<Longrightarrow> \<forall>i \<in> set xs. i < cap \<Longrightarrow> test (foldl mark m xs) j \<longleftrightarrow> test m j \<or> j \<in> set xs"
  by (induction xs arbitrary: m) (auto simp: valid_mark test_mark)

lemma elems_mark: "valid m \<Longrightarrow> i < cap \<Longrightarrow> elems (mark m i) = insert i (elems m)"
  by (auto simp: elems_def test_mark)

lemma elems_clear: "valid m \<Longrightarrow> elems (clear m) = {}"
  by (auto simp: elems_def test_clear)

lemma elems_marks: "valid m \<Longrightarrow> \<forall>i \<in> set xs. i < cap \<Longrightarrow> elems (foldl mark m xs) = elems m \<union> set xs"
  by (auto simp: elems_def marks_test)

end

section \<open>The bitmaps implement it\<close>

lemma bit_or_one: "k < 8 \<Longrightarrow> n < 8 \<Longrightarrow> bit ((b :: u8) OR 2 ^ k) n \<longleftrightarrow> bit b n \<or> n = k"
  by (auto simp: bit_or_iff bit_exp_iff)

lemma div_mod_8_eq: "(j :: nat) div 8 = i div 8 \<Longrightarrow> j mod 8 = i mod 8 \<Longrightarrow> j = i"
  by (metis div_mod_decomp)

lemma lb_test_set: "i div 8 < length m \<Longrightarrow> imx_lb_test (imx_lb_set m i) j \<longleftrightarrow> imx_lb_test m j \<or> j = i"
  using div_mod_8_eq [of j i]
  by (cases "j div 8 = i div 8") (auto simp: imx_lb_test_def imx_lb_set_def bit_or_one nth_list_update)

lemma ob_test_set: "w div 8 < length m \<Longrightarrow> imx_ob_test (imx_ob_set m w) j \<longleftrightarrow> imx_ob_test m j \<or> j = w"
  using lb_test_set [of w m j] by (simp add: imx_lb_test_def imx_lb_set_def imx_ob_test_def imx_ob_set_def)

lemma length_lb_set [simp]: "length (imx_lb_set m i) = length m"
  by (simp add: imx_lb_set_def)

lemma length_ob_set [simp]: "length (imx_ob_set m i) = length m"
  by (simp add: imx_ob_set_def)

lemma test_replicate: "j div 8 < n \<Longrightarrow> \<not> imx_lb_test (replicate n 0) j" "j div 8 < n \<Longrightarrow> \<not> imx_ob_test (replicate n 0) j"
  by (simp_all add: imx_lb_test_def imx_ob_test_def)

lemma ob_test_clear_bit:
  "w div 8 < length m \<Longrightarrow> imx_ob_test (imx_ob_clear_bit m w) j \<longleftrightarrow> imx_ob_test m j \<and> j \<noteq> w"
  using div_mod_8_eq [of j w]
  by (cases "j div 8 = w div 8") (auto simp: imx_ob_test_def imx_ob_clear_bit_def nth_list_update bit_and_iff bit_not_iff bit_exp_iff)

interpretation lines: bit_set IMX_LINES_PER_BLOCK imx_lb_test imx_lb_set imx_lb_clear "\<lambda>m. length m = 32"
  by unfold_locales (simp_all add: lb_test_set imx_lb_clear_def test_replicate)

interpretation obs: bit_set IMX_WORDS_PER_BLOCK imx_ob_test imx_ob_set imx_ob_clear "\<lambda>m. length m = 512"
  by unfold_locales (simp_all add: ob_test_set imx_ob_clear_def test_replicate)

section \<open>The three loops are one fold\<close>

lemma head_loop_fold:
  "head_loop f i n s = (s', i') \<Longrightarrow>
   i \<le> i' \<and> i' \<le> max i n \<and> s' = foldl f s [i..<i'] \<and> (i' < n \<longrightarrow> i' mod 8 = 0)"
proof (induction f i n s rule: head_loop.induct)
  case (1 f i n s)
  show ?case
  proof (cases "i < n \<and> i mod 8 \<noteq> 0")
    case True
    then have "head_loop f (i + 1) n (f s i) = (s', i')" using "1.prems" by (simp add: head_loop.simps [of f i])
    from "1.IH" [OF True this] show ?thesis using True by (auto simp: upt_conv_Cons)
  next
    case False
    then show ?thesis using "1.prems" by (auto simp: head_loop.simps [of f i])
  qed
qed

lemma byte_loop_fold:
  assumes "byte_loop g i n s = (s', i')" "i mod 8 = 0 \<or> n \<le> i" "P s"
    and step: "\<And>s i. P s \<Longrightarrow> i mod 8 = 0 \<Longrightarrow> i + 8 \<le> n \<Longrightarrow> g s i = foldl f s [i..<i + 8] \<and> P (g s i)"
  shows "i \<le> i' \<and> i' \<le> max i n \<and> s' = foldl f s [i..<i'] \<and> P s'"
  using assms(1-3)
proof (induction "n - i" arbitrary: i s rule: less_induct)
  case less
  show ?case
  proof (cases "i + 8 \<le> n")
    case True
    then have i: "i mod 8 = 0" using less.prems(2) by linarith
    note st = step [OF less.prems(3) i True]
    have "byte_loop g (i + 8) n (g s i) = (s', i')" using less.prems(1) True by (simp add: byte_loop.simps [of g i])
    moreover have "(i + 8) mod 8 = 0 \<or> n \<le> i + 8" using i by simp
    ultimately have "i + 8 \<le> i' \<and> i' \<le> max (i + 8) n \<and> s' = foldl f (g s i) [i + 8..<i'] \<and> P s'"
      using True st by (intro less.hyps) auto
    moreover from this have "[i..<i'] = [i..<i + 8] @ [i + 8..<i']"
      using upt_add_eq_append [of i "i + 8" "i' - (i + 8)"] by simp
    ultimately show ?thesis using True st by (metis add_leD1 foldl_append le_max_iff_disj max.absorb2 order.trans)
  next
    case False
    then show ?thesis using less.prems by (auto simp: byte_loop.simps [of g i])
  qed
qed

lemma tail_loop_fold: "tail_loop f i n s = foldl f s [i..<n]"
proof (induction f i n s rule: tail_loop.induct)
  case (1 f i n s)
  show ?case
  proof (cases "i < n")
    case True
    then show ?thesis using "1.IH" [OF True] by (simp add: tail_loop.simps [of f i] upt_conv_Cons)
  next
    case False
    then show ?thesis by (simp add: tail_loop.simps [of f i])
  qed
qed

lemma foldl_inv: "P s \<Longrightarrow> (\<And>s i. P s \<Longrightarrow> i \<in> set xs \<Longrightarrow> P (f s i)) \<Longrightarrow> P (foldl f s xs)"
  by (induction xs arbitrary: s) auto

lemma range_loop_fold:
  assumes "P s" and bit_ok: "\<And>s i. P s \<Longrightarrow> start \<le> i \<Longrightarrow> i < n \<Longrightarrow> P (f s i)"
    and step: "\<And>s i. P s \<Longrightarrow> i mod 8 = 0 \<Longrightarrow> i + 8 \<le> n \<Longrightarrow> g s i = foldl f s [i..<i + 8] \<and> P (g s i)"
  shows "range_loop f g start n s = foldl f s [start..<n]"
proof (cases "start < n")
  case True
  obtain s1 i1 where h: "head_loop f start n s = (s1, i1)" by (rule prod.exhaust)
  note h1 = head_loop_fold [OF h]
  have "i1 \<le> n" using h1 True by linarith
  then have "P (foldl f s [start..<i1])" by (intro foldl_inv [where P = P] assms(1) bit_ok) simp_all
  then have "P s1" using h1 by blast
  obtain s2 i2 where b: "byte_loop g i1 n s1 = (s2, i2)" by (rule prod.exhaust)
  have "i1 mod 8 = 0 \<or> n \<le> i1" using h1 by linarith
  from byte_loop_fold [OF b this \<open>P s1\<close> step]
  have b1: "i1 \<le> i2" "i2 \<le> max i1 n" "s2 = foldl f s1 [i1..<i2]" by blast+
  have "[start..<n] = [start..<i1] @ [i1..<i2] @ [i2..<n]"
    using h1 b1(1,2) True upt_add_eq_append [of start i1 "n - i1"] upt_add_eq_append [of i1 i2 "n - i2"] by simp
  then have "foldl f s [start..<n] = foldl f (foldl f (foldl f s [start..<i1]) [i1..<i2]) [i2..<n]"
    by simp
  also have "\<dots> = foldl f s2 [i2..<n]" using h1 b1(3) by simp
  finally show ?thesis by (simp add: range_loop_def h b tail_loop_fold)
next
  case False
  then have "head_loop f start n s = (s, start)" "byte_loop g start n s = (s, start)"
    by (simp_all add: head_loop.simps [of f start] byte_loop.simps [of g start])
  then show ?thesis using False by (simp add: range_loop_def tail_loop_fold)
qed

section \<open>Setting a range, counting lines, counting holes\<close>

lemma upt8: "[i..<i + 8] = map (\<lambda>k. i + k) [0..<8 :: nat]"
  by (simp add: map_add_upt add.commute [of i])

lemma div_mod_in_byte: "(i :: nat) mod 8 = 0 \<Longrightarrow> k < 8 \<Longrightarrow> (i + k) div 8 = i div 8 \<and> (i + k) mod 8 = k"
  by (auto simp: mod_eq_0_iff_dvd elim!: dvdE)

lemma same_byte: "(i :: nat) mod 8 = 0 \<Longrightarrow> j div 8 = i div 8 \<longleftrightarrow> i \<le> j \<and> j < i + 8"
  by (auto simp: mod_eq_0_iff_dvd elim!: dvdE)

lemma all_ones_int: "n < 8 \<Longrightarrow> bit (0xFF :: int) n"
proof -
  assume "n < 8"
  then have "bit (mask 8 :: int) n" by (simp only: bit_mask_iff) simp
  then show ?thesis by (simp add: mask_eq_exp_minus_1)
qed

lemma all_ones_byte: "n < 8 \<Longrightarrow> bit (0xFF :: u8) n"
  by (simp add: all_ones_int)

lemma byte_eqI: "length m = length m' \<Longrightarrow> (\<And>j. j < 8 * length m \<Longrightarrow> imx_lb_test m j \<longleftrightarrow> imx_lb_test m' j) \<Longrightarrow> m = m'"
proof (rule nth_equalityI, assumption)
  fix k assume len: "length m = length m'" and k: "k < length m"
    and eq: "\<And>j. j < 8 * length m \<Longrightarrow> imx_lb_test m j \<longleftrightarrow> imx_lb_test m' j"
  show "m ! k = m' ! k"
  proof (rule bit_word_eqI)
    fix n assume "n < LENGTH(8)"
    then show "bit (m ! k) n \<longleftrightarrow> bit (m' ! k) n"
      using eq [of "8 * k + n"] k by (simp add: imx_lb_test_def)
  qed
qed

lemma set_range_fold:
  assumes "n \<le> 8 * length m"
  shows "imx_lb_set_range m start n = foldl imx_lb_set m [start..<n]"
  unfolding imx_lb_set_range_def
proof (rule range_loop_fold [where P = "\<lambda>s. length s = length m"])
  fix s :: bitmap and i :: nat
  assume len: "length s = length m" and i: "i mod 8 = 0" "i + 8 \<le> n"
  have fold: "length (foldl imx_lb_set s xs) = length s" for xs
    by (induction xs arbitrary: s) simp_all
  have test: "\<forall>x \<in> set xs. x < 8 * length s \<Longrightarrow>
      imx_lb_test (foldl imx_lb_set s xs) j \<longleftrightarrow> imx_lb_test s j \<or> j \<in> set xs" for xs s j
    by (induction xs arbitrary: s) (auto simp: lb_test_set)
  have "s[i div 8 := 0xFF] = foldl imx_lb_set s [i..<i + 8]"
  proof (rule byte_eqI)
    fix j assume "j < 8 * length (s[i div 8 := 0xFF])"
    then have j: "j < 8 * length s" by simp
    have "imx_lb_test (s[i div 8 := 0xFF]) j \<longleftrightarrow> imx_lb_test s j \<or> i \<le> j \<and> j < i + 8"
    proof (cases "j div 8 = i div 8")
      case True
      then show ?thesis
        using j same_byte [OF i(1), of j] all_ones_int [of "j mod 8"]
        by (simp add: imx_lb_test_def nth_list_update)
    next
      case False
      then have "imx_lb_test (s[i div 8 := 0xFF]) j \<longleftrightarrow> imx_lb_test s j" by (simp add: imx_lb_test_def)
      moreover have "\<not> (i \<le> j \<and> j < i + 8)" using False same_byte [OF i(1), of j] by blast
      ultimately show ?thesis by blast
    qed
    then show "imx_lb_test (s[i div 8 := 0xFF]) j \<longleftrightarrow> imx_lb_test (foldl imx_lb_set s [i..<i + 8]) j"
      using i(2) assms len by (subst test) auto
  qed (simp add: fold)
  then show "s[i div 8 := 0xFF] = foldl imx_lb_set s [i..<i + 8] \<and> length (s[i div 8 := 0xFF]) = length m"
    using len fold by simp
qed simp_all

lemma count_fold: "foldl (\<lambda>c i. if P i then c + 1 else c) c xs = c + length (filter P xs)"
  by (induction xs arbitrary: c) auto

lemma popcount8_byte:
  "i mod 8 = 0 \<Longrightarrow> popcount8 (m ! (i div 8)) = length (filter (imx_lb_test m) [i..<i + 8])"
  unfolding popcount8_def upt8 filter_map length_map
  by (intro arg_cong [where f = length] filter_cong refl)
    (simp add: imx_lb_test_def div_mod_in_byte)

lemma count_set_filter: "imx_lb_count_set m start n = length (filter (imx_lb_test m) [start..<n])"
proof -
  have "imx_lb_count_set m start n =
      foldl (\<lambda>c i. if imx_lb_test m i then c + 1 else c) 0 [start..<n]"
    unfolding imx_lb_count_set_def
    by (rule range_loop_fold [where P = "\<lambda>_. True"]) (simp_all add: popcount8_byte count_fold del: foldl_Cons)
  then show ?thesis by (simp add: count_fold)
qed

text \<open>A line that begins a hole: it is free, and the line before it is marked or out of range.\<close>

definition hole_start :: "bitmap \<Rightarrow> nat \<Rightarrow> nat \<Rightarrow> bool" where
  "hole_start m start i \<longleftrightarrow> \<not> imx_lb_test m i \<and> (i = start \<or> imx_lb_test m (i - 1))"

lemma hole_byte_fold:
  assumes "i mod 8 = 0"
  shows "hole_byte s (m ! (i div 8)) = foldl (\<lambda>s i. hole_step s (imx_lb_test m i)) s [i..<i + 8]"
proof -
  let ?b = "m ! (i div 8)"
  have "foldl (\<lambda>s i. hole_step s (imx_lb_test m i)) s [i..<i + 8] =
      foldl (\<lambda>s k. hole_step s (imx_lb_test m (i + k))) s [0..<8]"
    by (simp add: upt8 foldl_map)
  also have "\<dots> = foldl (\<lambda>s k. hole_step s (bit ?b k)) s [0..<8]"
    by (rule foldl_cong) (simp_all add: imx_lb_test_def div_mod_in_byte assms)
  also have "\<dots> = hole_byte s ?b"
  proof -
    obtain c p where s: "s = (c, p)" by (rule prod.exhaust)
    have "foldl (\<lambda>s k. hole_step s (bit (0xFF :: u8) k)) s [0..<8] =
        foldl (\<lambda>s k. hole_step s True) s [0..<8]"
      by (rule foldl_cong) (simp_all add: all_ones_int)
    then have "foldl (\<lambda>s k. hole_step s (bit (0xFF :: u8) k)) s [0..<8] = (c, True)"
      by (simp add: s hole_step_def upt_rec)
    moreover have "foldl (\<lambda>s k. hole_step s (bit (0 :: u8) k)) s [0..<8] = ((if p then c + 1 else c), False)"
      by (simp add: s hole_step_def upt_rec)
    ultimately show ?thesis by (simp add: hole_byte_def s)
  qed
  finally show ?thesis by simp
qed

lemma hole_fold:
  assumes "start \<le> i"
  shows "fst (foldl (\<lambda>s i. hole_step s (imx_lb_test m i)) (c, start = i \<or> imx_lb_test m (i - 1)) [i..<n]) =
     c + length (filter (hole_start m start) [i..<n])"
  using assms
proof (induction "n - i" arbitrary: i c)
  case 0
  then show ?case by simp
next
  case (Suc d)
  then have lt: "i < n" by simp
  have step: "hole_step (c, start = i \<or> imx_lb_test m (i - 1)) (imx_lb_test m i) =
      (c + (if hole_start m start i then 1 else 0), start = Suc i \<or> imx_lb_test m (Suc i - 1))"
    using Suc.prems by (auto simp: hole_step_def hole_start_def)
  have "d = n - Suc i" "start \<le> Suc i" using Suc by simp_all
  note ih = Suc.hyps(1) [OF this, of "c + (if hole_start m start i then 1 else 0)"]
  show ?case
    unfolding upt_conv_Cons [OF lt] foldl_Cons step ih using lt by auto
qed

lemma count_holes_filter:
  "imx_lb_count_holes m start n = length (filter (hole_start m start) [start..<n])"
proof (cases "n \<le> start")
  case False
  have "range_loop (\<lambda>s i. hole_step s (imx_lb_test m i)) (\<lambda>s i. hole_byte s (m ! (i div 8))) start n (0, True) =
      foldl (\<lambda>s i. hole_step s (imx_lb_test m i)) (0, True) [start..<n]"
    by (rule range_loop_fold [where P = "\<lambda>_. True"]) (simp_all add: hole_byte_fold)
  then show ?thesis using False hole_fold [of start start m 0 n] by (simp add: imx_lb_count_holes_def)
qed (simp add: imx_lb_count_holes_def)

section \<open>The hole search\<close>

lemma skip_marked_spec:
  "skip_marked m i n \<le> max i n \<and> (\<forall>j. i \<le> j \<and> j < skip_marked m i n \<longrightarrow> imx_lb_test m j) \<and>
   (skip_marked m i n < n \<longrightarrow> \<not> imx_lb_test m (skip_marked m i n))"
proof (induction m i n rule: skip_marked.induct)
  case (1 m i n)
  show ?case
  proof (cases "i < n \<and> imx_lb_test m i")
    case True
    then have eq: "skip_marked m i n = skip_marked m (i + 1) n" by (simp add: skip_marked.simps [of m i])
    note ih = "1.IH" [OF True]
    have "imx_lb_test m j" if "i \<le> j" "j < skip_marked m (i + 1) n" for j
      by (cases "i = j") (use True ih that in \<open>simp_all add: Suc_le_eq\<close>)
    then show ?thesis unfolding eq using ih True by force
  next
    case False
    then have "skip_marked m i n = i" by (subst skip_marked.simps) (simp only: if_False)
    then show ?thesis using False by auto
  qed
qed

lemma skip_free_spec:
  "i \<le> skip_free m i n \<and> skip_free m i n \<le> max i n \<and>
   (\<forall>j. i \<le> j \<and> j < skip_free m i n \<longrightarrow> \<not> imx_lb_test m j) \<and>
   (skip_free m i n < n \<longrightarrow> imx_lb_test m (skip_free m i n))"
proof (induction m i n rule: skip_free.induct)
  case (1 m i n)
  show ?case
  proof (cases "i < n \<and> \<not> imx_lb_test m i")
    case True
    then have eq: "skip_free m i n = skip_free m (i + 1) n" by (simp add: skip_free.simps [of m i])
    note ih = "1.IH" [OF True]
    have "\<not> imx_lb_test m j" if "i \<le> j" "j < skip_free m (i + 1) n" for j
      by (cases "i = j") (use True ih that in \<open>simp_all add: Suc_le_eq\<close>)
    then show ?thesis unfolding eq using ih True by force
  next
    case False
    then have "skip_free m i n = i" by (subst skip_free.simps) (simp only: if_False)
    then show ?thesis using False by auto
  qed
qed

text \<open>
  A line the allocator may use: free, and not directly after a marked line, because a small object
  that starts in a marked line may reach into the next one.
\<close>

definition usable :: "bitmap \<Rightarrow> nat \<Rightarrow> nat set" where
  "usable m n = {l. l < n \<and> \<not> imx_lb_test m l \<and> (0 < l \<longrightarrow> \<not> imx_lb_test m (l - 1))}"

text \<open>The result of a search from \<open>i\<close>: the first maximal run of usable lines.\<close>

definition hole_result :: "bitmap \<Rightarrow> nat \<Rightarrow> nat \<Rightarrow> (nat \<times> nat) option \<Rightarrow> bool" where
  "hole_result m i n r \<longleftrightarrow>
     (case r of
        None \<Rightarrow> usable m n \<inter> {i..} = {}
      | Some (a, b) \<Rightarrow> i \<le> a \<and> a < b \<and> b \<le> n \<and> {a..<b} \<subseteq> usable m n \<and>
          usable m n \<inter> {i..<a} = {} \<and> (b < n \<longrightarrow> imx_lb_test m b))"

lemma hole_result_later:
  "hole_result m j n r \<Longrightarrow> i \<le> j \<Longrightarrow> usable m n \<inter> {i..<j} = {} \<Longrightarrow> hole_result m i n r"
  by (fastforce simp: hole_result_def split: option.splits)

lemma hole_found:
  assumes "a < n" "\<not> imx_lb_test m a" "0 < a \<Longrightarrow> \<not> imx_lb_test m (a - 1)"
  shows "hole_result m a n (Some (a, skip_free m a n))"
proof -
  let ?b = "skip_free m a n"
  note sp = skip_free_spec [of a m n]
  have "?b \<noteq> a" using sp assms(1,2) by metis
  then have ab: "a < ?b" "?b \<le> n" using sp assms(1) by linarith+
  have "l \<in> usable m n" if "a \<le> l" "l < ?b" for l
  proof -
    have "\<not> imx_lb_test m l" using sp that by blast
    moreover have "\<not> imx_lb_test m (l - 1)" if "0 < l"
    proof (cases "l = a")
      case False
      then have "a \<le> l - 1 \<and> l - 1 < ?b" using \<open>a \<le> l\<close> \<open>l < ?b\<close> by linarith
      then show ?thesis using sp by blast
    qed (use assms(3) that in simp)
    ultimately show ?thesis using that ab(2) by (simp add: usable_def)
  qed
  then show ?thesis using ab sp by (auto simp: hole_result_def)
qed

lemma next_hole_none:
  "\<not> (i0 < n \<and> skip_marked m i0 n < n) \<Longrightarrow> imx_lb_next_hole m i0 n = None"
  by (cases "i0 < n") (simp_all add: imx_lb_next_hole.simps [of m i0 n] Let_def)

lemma next_hole_cases:
  assumes i: "i = skip_marked m i0 n" and lt: "i0 < n" "\<not> n \<le> i"
  shows "\<not> (0 < i \<and> imx_lb_test m (i - 1)) \<Longrightarrow> imx_lb_next_hole m i0 n = Some (i, skip_free m i n)"
    "0 < i \<and> imx_lb_test m (i - 1) \<Longrightarrow> n \<le> i + 1 \<Longrightarrow> imx_lb_next_hole m i0 n = None"
    "0 < i \<and> imx_lb_test m (i - 1) \<Longrightarrow> \<not> n \<le> i + 1 \<Longrightarrow> imx_lb_test m (i + 1) \<Longrightarrow>
       imx_lb_next_hole m i0 n = imx_lb_next_hole m (i + 1) n"
    "0 < i \<and> imx_lb_test m (i - 1) \<Longrightarrow> \<not> n \<le> i + 1 \<Longrightarrow> \<not> imx_lb_test m (i + 1) \<Longrightarrow>
       imx_lb_next_hole m i0 n = Some (i + 1, skip_free m (i + 1) n)"
  unfolding imx_lb_next_hole.simps [of m i0 n] Let_def i [symmetric]
  by (simp_all only: lt if_True if_False simp_thms)

lemma next_hole_result: "hole_result m i n (imx_lb_next_hole m i n)"
proof (induction m i n rule: imx_lb_next_hole.induct)
  case (1 m i0 n)
  let ?i = "skip_marked m i0 n"
  note sk = skip_marked_spec [of m i0 n] skip_marked_ge [of i0 m n]
  have "l \<notin> usable m n" if "i0 \<le> l" "l < ?i" for l using sk(1) that unfolding usable_def by blast
  then have none: "usable m n \<inter> {i0..<?i} = {}" by (auto simp only: atLeastLessThan_iff Int_iff empty_iff)
  have beyond: "l \<notin> usable m n" if "n \<le> l" for l using that unfolding usable_def by simp
  show ?case
  proof (cases "i0 < n \<and> ?i < n")
    case False
    then have "imx_lb_next_hole m i0 n = None" by (rule next_hole_none)
    moreover have "usable m n \<inter> {i0..} = {}" 
    proof (cases "i0 < n")
      case True
      then have "l \<notin> usable m n" if "i0 \<le> l" for l
        using False none beyond [of l] that by (cases "l < ?i") auto
      then show ?thesis by blast
    qed (use beyond in auto)
    ultimately show ?thesis by (simp add: hole_result_def)
  next
    case True
    then have free: "\<not> imx_lb_test m ?i" and lt: "i0 < n" "\<not> n \<le> ?i" using sk by auto
    show ?thesis
    proof (cases "0 < ?i \<and> imx_lb_test m (?i - 1)")
      case False
      have "hole_result m ?i n (Some (?i, skip_free m ?i n))"
        by (rule hole_found) (use True free False in simp_all)
      from hole_result_later [OF this sk(2) none] show ?thesis
        by (simp only: next_hole_cases(1) [OF refl lt False])
    next
      case spill: True
      have none': "usable m n \<inter> {i0..<?i + 1} = {}"
      proof -
        have "{i0..<?i + 1} \<subseteq> insert ?i {i0..<?i}" by auto
        then show ?thesis using none spill by (auto simp: usable_def)
      qed
      have ge: "i0 \<le> ?i + 1" using sk(2) by simp
      consider "n \<le> ?i + 1" | "?i + 1 < n" "imx_lb_test m (?i + 1)" | "?i + 1 < n" "\<not> imx_lb_test m (?i + 1)"
        by linarith
      then show ?thesis
      proof cases
        case 1
        have "imx_lb_next_hole m i0 n = None" by (rule next_hole_cases(2) [OF refl lt spill 1])
        moreover have "usable m n \<inter> {i0..} = {}"
        proof -
          have "l \<notin> usable m n" if "i0 \<le> l" for l
            using 1 none' beyond [of l] that by (cases "l < ?i + 1") auto
          then show ?thesis by blast
        qed
        ultimately show ?thesis by (simp add: hole_result_def)
      next
        case 2
        then have n: "\<not> n \<le> ?i + 1" by linarith
        have "hole_result m (?i + 1) n (imx_lb_next_hole m (?i + 1) n)"
          by (rule "1.IH" [OF lt(1) refl lt(2) spill refl n 2(2)])
        from hole_result_later [OF this ge none'] show ?thesis
          by (simp only: next_hole_cases(3) [OF refl lt spill n 2(2)])
      next
        case 3
        then have n: "\<not> n \<le> ?i + 1" by linarith
        have "hole_result m (?i + 1) n (Some (?i + 1, skip_free m (?i + 1) n))"
          by (rule hole_found) (use 3 free in simp_all)
        from hole_result_later [OF this ge none'] show ?thesis
          by (simp only: next_hole_cases(4) [OF refl lt spill n 3(2)])
      qed
    qed
  qed
qed

text \<open>After a hole, the lines still usable are the others.\<close>

lemma usable_after:
  assumes "imx_lb_next_hole m i n = Some (a, b)"
  shows "usable m n \<inter> {i..} = {a..<b} \<union> usable m n \<inter> {b..}" "usable m n \<inter> {b..} \<inter> {a..<b} = {}"
  using next_hole_result [of m i n] assms by (auto simp: hole_result_def)

section \<open>The properties\<close>

lemma length_filter_upt: "length (filter P [s..<n]) = card {i. s \<le> i \<and> i < n \<and> P i}"
proof -
  have "length (filter P [s..<n]) = card (set (filter P [s..<n]))"
    by (rule distinct_card [symmetric]) simp
  moreover have "set (filter P [s..<n]) = {i. s \<le> i \<and> i < n \<and> P i}" by auto
  ultimately show ?thesis by simp
qed

text \<open>
  The byte-at-a-time range operations are set operations on the marked lines: \<open>set_range\<close> adds
  the range, \<open>count_set\<close> counts the marked lines in it, \<open>count_holes\<close> counts the maximal runs of free
  lines in it, a run at its left edge included.
\<close>

theorem range_operations:
  assumes "length m = 32" "n \<le> IMX_LINES_PER_BLOCK"
  shows "lines.elems (imx_lb_set_range m start n) = lines.elems m \<union> {start..<n} \<and>
    imx_lb_count_set m start n = card (lines.elems m \<inter> {start..<n}) \<and>
    imx_lb_count_holes m start n =
      card {i. start \<le> i \<and> i < n \<and> i \<notin> lines.elems m \<and> (i = start \<or> i - 1 \<in> lines.elems m)}"
proof (intro conjI)
  have "n \<le> 8 * length m" using assms by simp
  from set_range_fold [OF this]
  show "lines.elems (imx_lb_set_range m start n) = lines.elems m \<union> {start..<n}"
    using lines.elems_marks [OF assms(1), of "[start..<n]"] assms(2) by simp
  have "{i. start \<le> i \<and> i < n \<and> imx_lb_test m i} = lines.elems m \<inter> {start..<n}"
    using assms(2) by (auto simp: lines.elems_def)
  then show "imx_lb_count_set m start n = card (lines.elems m \<inter> {start..<n})"
    by (simp add: count_set_filter length_filter_upt)
  have "{i. start \<le> i \<and> i < n \<and> hole_start m start i} =
      {i. start \<le> i \<and> i < n \<and> i \<notin> lines.elems m \<and> (i = start \<or> i - 1 \<in> lines.elems m)}"
    using assms(2) by (auto simp: lines.elems_def hole_start_def)
  then show "imx_lb_count_holes m start n =
      card {i. start \<le> i \<and> i < n \<and> i \<notin> lines.elems m \<and> (i = start \<or> i - 1 \<in> lines.elems m)}"
    by (simp add: count_holes_filter length_filter_upt)
qed

theorem range_operations_witness:
  "imx_lb_count_set (imx_lb_set_range (replicate 32 0) 6 19) 0 256 = 13"
proof -
  have "lines.elems (replicate 32 0) = {}" by (auto simp: lines.elems_def test_replicate)
  then have e: "lines.elems (imx_lb_set_range (replicate 32 0) 6 19) = {6..<19}"
    using range_operations [THEN conjunct1, of "replicate 32 0" 19 6] by simp
  have "length (imx_lb_set_range (replicate 32 0) 6 19) = 32"
  proof -
    have "length (foldl imx_lb_set m xs) = length m" for m xs by (induction xs arbitrary: m) simp_all
    then show ?thesis by (simp add: set_range_fold)
  qed
  from range_operations [OF this, of 256 0, THEN conjunct2, THEN conjunct1]
  have "imx_lb_count_set (imx_lb_set_range (replicate 32 0) 6 19) 0 256 = card ({6..<19 :: nat} \<inter> {0..<256})"
    by (simp only: e order_refl)
  also have "{6..<19 :: nat} \<inter> {0..<256} = {6..<19}" by auto
  finally show ?thesis by simp
qed

text \<open>
  The hole search returns the first maximal run of usable lines at or after its start (lines
  that are free and do not directly follow a marked line), and nothing when there is none.
\<close>

theorem next_hole_correct: "hole_result m i n (imx_lb_next_hole m i n)"
  by (rule next_hole_result)

end
