(* ===== verification/ImxBlockRules.thy ===== *)
theory ImxBlockRules
  imports ImxBlock ImxLineMapRules
begin

text \<open>
  Marking protects an object from the allocator, classification counts the marked data lines,
  and the pool keeps its two arrays consistent.
\<close>

section \<open>Lines and bytes\<close>

definition line_bytes :: "nat \<Rightarrow> nat set \<Rightarrow> nat set" where
  "line_bytes b L = {x. \<exists>l \<in> L. imx_block_line_addr b l \<le> x \<and> x < imx_block_line_addr b (l + 1)}"

definition object_in_block :: "nat \<Rightarrow> nat \<Rightarrow> nat \<Rightarrow> bool" where
  "object_in_block b a sz \<longleftrightarrow>
     b mod IMX_BLOCK_SIZE = 0 \<and> 0 < sz \<and> imx_block_data_start b \<le> a \<and> a + sz \<le> imx_block_data_end b"

lemma line_bytes_iff: "b + k \<in> line_bytes b L \<longleftrightarrow> k div 128 \<in> L"
proof
  assume "b + k \<in> line_bytes b L"
  then obtain l where "l \<in> L" "l * 128 \<le> k" "k < (l + 1) * 128"
    by (auto simp: line_bytes_def imx_block_line_addr_def)
  moreover from this have "k div 128 = l" by (auto intro!: div_nat_eqI)
  ultimately show "k div 128 \<in> L" by simp
next
  assume "k div 128 \<in> L"
  moreover have "(k div 128) * 128 \<le> k" "k < (k div 128 + 1) * 128" by simp_all
  ultimately show "b + k \<in> line_bytes b L"
    unfolding line_bytes_def imx_block_line_addr_def by (auto intro!: bexI [of _ "k div 128"])
qed

lemma line_bytes_ge: "x \<in> line_bytes b L \<Longrightarrow> b \<le> x"
  by (auto simp: line_bytes_def imx_block_line_addr_def)

lemma line_bytes_mono: "L \<subseteq> L' \<Longrightarrow> line_bytes b L \<subseteq> line_bytes b L'"
  by (auto simp: line_bytes_def)

lemma line_bytes_Un: "line_bytes b (L \<union> L') = line_bytes b L \<union> line_bytes b L'"
  by (auto simp: line_bytes_def)

lemma line_bytes_disjoint: "L \<inter> L' = {} \<Longrightarrow> line_bytes b L \<inter> line_bytes b L' = {}"
proof -
  assume dis: "L \<inter> L' = {}"
  have "x \<notin> line_bytes b L'" if "x \<in> line_bytes b L" for x
  proof -
    have "b \<le> x" by (rule line_bytes_ge [OF that])
    then obtain k where "x = b + k" using le_Suc_ex by blast
    then show ?thesis using that dis by (auto simp: line_bytes_iff)
  qed
  then show ?thesis by blast
qed

lemma line_bytes_run: "line_bytes b {s..<e} = {imx_block_line_addr b s..<imx_block_line_addr b e}"
proof (rule set_eqI)
  fix x show "x \<in> line_bytes b {s..<e} \<longleftrightarrow> x \<in> {imx_block_line_addr b s..<imx_block_line_addr b e}"
  proof (cases "b \<le> x")
    case True
    then obtain k where "x = b + k" using le_Suc_ex by blast
    then show ?thesis by (auto simp: line_bytes_iff imx_block_line_addr_def less_eq_div_iff_mult_less_eq div_less_iff_less_mult)
  next
    case False
    then show ?thesis using line_bytes_ge [of x] by (auto simp: imx_block_line_addr_def)
  qed
qed

lemma object_offset:
  assumes "object_in_block b a sz"
  obtains k where "a = b + k" "640 \<le> k" "k + sz \<le> 32768" "imx_block_of a = b" "imx_line_of a = k div 128"
    "\<forall>j < sz. imx_line_of (a + j) = (k + j) div 128"
proof -
  define k where "k = a - b"
  have b: "b mod 32768 = 0" and k: "a = b + k" "640 \<le> k" "k + sz \<le> 32768" "0 < sz"
    using assms by (auto simp: object_in_block_def imx_block_data_start_def imx_block_data_end_def k_def)
  have m: "(b + n) mod 32768 = n" if "n < 32768" for n
    using b that by (metis add_0 mod_add_left_eq mod_less)
  have "k < 32768" using k by linarith
  moreover have "\<And>j. j < sz \<Longrightarrow> imx_line_of (a + j) = (k + j) div 128"
  proof -
    fix j assume "j < sz"
    then show "imx_line_of (a + j) = (k + j) div 128"
      using m [of "k + j"] k by (simp add: imx_line_of_def add.assoc)
  qed
  ultimately show thesis
    using that [of k] k m [of k] by (simp add: imx_block_of_def imx_line_of_def)
qed

section \<open>Marking\<close>

lemma mark_object:
  assumes ob: "object_in_block b a sz" and len: "length (bk_line_marks (mem b)) = 32"
  obtains m last where "imx_block_mark_object b a sz mem = Some (mem(b := (mem b)\<lparr>bk_line_marks := m\<rparr>))"
    "length m = 32" "lines.elems m = lines.elems (bk_line_marks (mem b)) \<union> {imx_line_of a..last}"
    "last < 256" "imx_line_of a \<le> last" "5 \<le> imx_line_of a"
    "last = (if 128 < sz then imx_line_of (a + sz - 1) else imx_line_of a)"
proof -
  obtain k where k: "a = b + k" "640 \<le> k" "k + sz \<le> 32768" "imx_block_of a = b" "imx_line_of a = k div 128"
    "\<forall>j < sz. imx_line_of (a + j) = (k + j) div 128"
    using object_offset [OF ob] by blast
  have sz: "0 < sz" using ob by (simp add: object_in_block_def)
  let ?f = "imx_line_of a" and ?m = "bk_line_marks (mem b)"
  define last where "last = (if 128 < sz then imx_line_of (a + sz - 1) else ?f)"
  have f: "5 \<le> ?f" "?f < 256" using k sz by (simp_all add: less_eq_div_iff_mult_less_eq div_less_iff_less_mult)
  have "imx_line_of (a + (sz - 1)) = (k + (sz - 1)) div 128" using k(6) sz by (metis diff_less zero_less_one)
  moreover have "a + (sz - 1) = a + sz - 1" using sz by simp
  ultimately have l: "imx_line_of (a + sz - 1) = (k + (sz - 1)) div 128" by simp
  have "k + (sz - 1) < 256 * 128" using k(3) sz by linarith
  then have l256: "imx_line_of (a + sz - 1) < 256" unfolding l by (simp only: div_less_iff_less_mult zero_less_numeral)
  have fl: "?f \<le> imx_line_of (a + sz - 1)" unfolding l k(5) by (rule div_le_mono) simp
  have last: "?f \<le> last" "last < 256" using f fl l256 by (auto simp: last_def)
  let ?marks = "foldl imx_lb_set (imx_lb_set ?m ?f) [?f + 1..<last + 1]"
  have run: "?marks = foldl imx_lb_set ?m [?f..<last + 1]" using upt_conv_Cons [of ?f "last + 1"] last(1) by simp
  have "length ?marks = 32" "lines.elems ?marks = lines.elems ?m \<union> {?f..last}"
    using lines.marks_valid [OF len, of "[?f..<last + 1]"] lines.elems_marks [OF len, of "[?f..<last + 1]"] last(2)
    unfolding run by (auto simp: atLeastLessThanSuc_atLeastAtMost)
  moreover have "imx_block_mark_object b a sz mem = Some (mem(b := (mem b)\<lparr>bk_line_marks := ?marks\<rparr>))"
    using k(4) sz f l256 last(1)
    by (auto simp: imx_block_mark_object_def imx_block_owns_def Let_def last_def)
  ultimately show thesis
    using that [of ?marks last] f(1) last by (auto simp: last_def)
qed

lemma usable_iff: "l \<in> usable m 256 \<longleftrightarrow> l < 256 \<and> l \<notin> lines.elems m \<and> (0 < l \<longrightarrow> l - 1 \<notin> lines.elems m)"
  by (auto simp: usable_def lines.elems_def)

lemma usable_antimono: "lines.elems m \<subseteq> lines.elems m' \<Longrightarrow> usable m' 256 \<subseteq> usable m 256"
  by (auto simp: usable_iff)

text \<open>No byte of a marked object lies in a usable line.\<close>

lemma marked_not_usable:
  assumes ob: "object_in_block b a sz" and len: "length (bk_line_marks (mem b)) = 32"
    and mk: "imx_block_mark_object b a sz mem = Some mem'"
    and sub: "lines.elems (bk_line_marks (mem' b)) \<subseteq> lines.elems m"
  shows "{a..<a + sz} \<inter> line_bytes b (usable m 256) = {}"
proof -
  obtain m1 last where m1: "imx_block_mark_object b a sz mem = Some (mem(b := (mem b)\<lparr>bk_line_marks := m1\<rparr>))"
    "lines.elems m1 = lines.elems (bk_line_marks (mem b)) \<union> {imx_line_of a..last}"
    "imx_line_of a \<le> last"
    "last = (if 128 < sz then imx_line_of (a + sz - 1) else imx_line_of a)"
    using mark_object [of b a sz mem, OF ob len] by blast
  obtain k where k: "a = b + k" "imx_line_of a = k div 128" "\<forall>j < sz. imx_line_of (a + j) = (k + j) div 128"
    using object_offset [OF ob] by blast
  have marked: "l \<in> lines.elems m" if "imx_line_of a \<le> l" "l \<le> last" for l
    using sub mk m1(1,2) that by auto
  have "x \<notin> line_bytes b (usable m 256)" if x: "a \<le> x" "x < a + sz" for x
  proof -
    define j where "j = x - a"
    have j: "x = b + (k + j)" "j < sz" using x k(1) by (auto simp: j_def)
    let ?l = "(k + j) div 128"
    have ge: "k div 128 \<le> ?l" by (rule div_le_mono) simp
    have "?l \<in> lines.elems m \<or> 0 < ?l \<and> ?l - 1 \<in> lines.elems m"
    proof (cases "128 < sz")
      case True
      have "imx_line_of (a + (sz - 1)) = (k + (sz - 1)) div 128" using k(3) True by (metis diff_less zero_less_one less_trans zero_less_numeral)
      moreover have "a + (sz - 1) = a + sz - 1" using True by simp
      ultimately have "last = (k + (sz - 1)) div 128" using m1(4) True by simp
      moreover have "?l \<le> (k + (sz - 1)) div 128" by (rule div_le_mono) (use j(2) in simp)
      ultimately show ?thesis using marked [of ?l] ge k(2) by simp
    next
      case False
      then have "?l \<le> k div 128 + 1" using j(2) by linarith
      then consider "?l = k div 128" | "?l = k div 128 + 1" using ge by linarith
      then show ?thesis using marked [of "k div 128"] m1(3) k(2) by cases simp_all
    qed
    then have "?l \<notin> usable m 256" by (auto simp: usable_iff)
    then show ?thesis using j(1) line_bytes_iff by blast
  qed
  then show ?thesis by auto
qed

section \<open>Classification\<close>

lemma count_set_card:
  "imx_lb_count_set m start 256 = card (lines.elems m \<inter> {start..<256})"
proof -
  have "{i. start \<le> i \<and> i < 256 \<and> imx_lb_test m i} = lines.elems m \<inter> {start..<256}"
    by (auto simp: lines.elems_def)
  then show ?thesis by (simp add: count_set_filter length_filter_upt)
qed

lemma lines_elems_lt: "lines.elems m \<subseteq> {..<256}"
  by (auto simp: lines.elems_def)

lemma classify_state:
  "bk_state (imx_block_classify b) =
     (if lines.elems (bk_line_marks b) \<inter> {5..} = {} then IMX_BLOCK_FREE
      else if {5..<256} \<subseteq> lines.elems (bk_line_marks b) then IMX_BLOCK_UNAVAILABLE
      else IMX_BLOCK_RECYCLABLE)"
proof -
  let ?E = "lines.elems (bk_line_marks b)" and ?D = "{5..<256 :: nat}"
  have c: "imx_lb_count_set (bk_line_marks b) 5 256 = card (?E \<inter> ?D)" by (rule count_set_card)
  have fin: "finite (?E \<inter> ?D)" by simp
  have "?E \<inter> ?D = ?E \<inter> {5..}" using lines_elems_lt [of "bk_line_marks b"] by auto
  then have e: "?E \<inter> ?D = {} \<longleftrightarrow> ?E \<inter> {5..} = {}" by simp
  have "card (?E \<inter> ?D) = 251 \<longleftrightarrow> ?D \<subseteq> ?E"
  proof
    assume "card (?E \<inter> ?D) = 251"
    then have "card (?E \<inter> ?D) = card ?D" by simp
    then have "?E \<inter> ?D = ?D" by (intro card_subset_eq) simp_all
    then show "?D \<subseteq> ?E" by blast
  next
    assume "?D \<subseteq> ?E"
    then have "?E \<inter> ?D = ?D" by blast
    then show "card (?E \<inter> ?D) = 251" by simp
  qed
  moreover have "card (?E \<inter> ?D) = 0 \<longleftrightarrow> ?E \<inter> {5..} = {}" using fin e by (simp only: card_eq_0_iff) blast
  ultimately show ?thesis by (simp add: imx_block_classify_def Let_def c del: card_0_eq)
qed

lemma classify_marked: "bk_defrag_marked (imx_block_classify b) =
    word_of_nat (card (lines.elems (bk_line_marks b) \<inter> {5..<256}))"
  by (simp add: imx_block_classify_def Let_def count_set_card)

lemma classify_marks [simp]: "bk_line_marks (imx_block_classify b) = bk_line_marks b"
  "bk_object_starts (imx_block_classify b) = bk_object_starts b"
  by (simp_all add: imx_block_classify_def Let_def)

section \<open>The pool\<close>

definition pool_inv :: "imx_pool \<Rightarrow> bool" where
  "pool_inv p \<longleftrightarrow> distinct (pl_allocated p) \<and> distinct (pl_freelist p) \<and>
     set (pl_freelist p) \<subseteq> set (pl_allocated p)"

text \<open>What \<open>aligned_alloc\<close> promises: an aligned, non-null block that is not in use.\<close>

definition os_ok :: "os_alloc \<Rightarrow> bool" where
  "os_ok os \<longleftrightarrow>
     (\<forall>p b. os p = Some b \<longrightarrow> b mod IMX_BLOCK_SIZE = 0 \<and> 0 < b \<and> b \<notin> set (pl_allocated p))"

lemma swap_remove_set:
  assumes "distinct xs" "b \<in> set xs"
  shows "distinct (swap_remove b xs)" "set (swap_remove b xs) = set xs - {b}"
proof -
  obtain ys zs where xs: "xs = ys @ b # zs" "b \<notin> set ys" using split_list_first [OF assms(2)] by blast
  have "takeWhile (\<lambda>x. x \<noteq> b) (ys @ b # zs) = ys"
    using takeWhile_append2 [of ys "\<lambda>x. x \<noteq> b" "b # zs"] xs(2) by fastforce
  then have tw: "length (takeWhile (\<lambda>x. x \<noteq> b) (ys @ b # zs)) = length ys" by simp
  have d: "distinct ys" "distinct zs" "b \<notin> set zs" "set ys \<inter> set zs = {}" using assms(1) xs by auto
  have "distinct (swap_remove b xs) \<and> set (swap_remove b xs) = set ys \<union> set zs"
  proof (cases zs rule: rev_cases)
    case Nil
    then have "swap_remove b xs = ys" unfolding swap_remove_def xs(1) Let_def tw by simp
    then show ?thesis using d Nil by simp
  next
    case (snoc ws w)
    have "swap_remove b xs = (ys @ b # ws)[length ys := w]"
      unfolding swap_remove_def xs(1) Let_def tw by (simp add: snoc butlast_append)
    then have "swap_remove b xs = ys @ w # ws" by simp
    then show ?thesis using d by (auto simp: snoc)
  qed
  moreover have "set xs - {b} = set ys \<union> set zs" using xs d by auto
  ultimately show "distinct (swap_remove b xs)" "set (swap_remove b xs) = set xs - {b}" by simp_all
qed

lemma pool_trim_spec:
  assumes "pool_inv p" "imx_block_pool_trim keep freed p = (freed', p')"
  shows "pool_inv p' \<and> pl_freelist p' = take keep (pl_freelist p) \<and>
    set (pl_allocated p') = set (pl_allocated p) - set (drop keep (pl_freelist p)) \<and>
    freed' = freed + (length (pl_freelist p) - keep)"
  using assms
proof (induction keep freed p rule: imx_block_pool_trim.induct)
  case (1 keep freed p)
  show ?case
  proof (cases "keep < length (pl_freelist p)")
    case True
    define b where "b = last (pl_freelist p)"
    define q where "q = p\<lparr>pl_freelist := butlast (pl_freelist p), pl_allocated := swap_remove b (pl_allocated p),
      pl_total_os_frees := pl_total_os_frees p + 1\<rparr>"
    have ne: "pl_freelist p \<noteq> []" using True by auto
    then have split: "pl_freelist p = butlast (pl_freelist p) @ [b]" by (simp add: b_def)
    have inv: "distinct (pl_allocated p)" "distinct (pl_freelist p)" "set (pl_freelist p) \<subseteq> set (pl_allocated p)"
      using "1.prems"(1) by (auto simp: pool_inv_def)
    have "b \<in> set (pl_allocated p)" using inv(3) ne by (auto simp: b_def)
    note sr = swap_remove_set [OF inv(1) this]
    have db: "distinct (butlast (pl_freelist p))" "b \<notin> set (butlast (pl_freelist p))"
      using inv(2) split by (metis distinct_append disjoint_iff list.set_intros(1))+
    have "pool_inv q"
      using sr inv(3) db by (auto simp: pool_inv_def q_def dest: in_set_butlastD)
    moreover have "imx_block_pool_trim keep (freed + 1) q = (freed', p')"
      using "1.prems"(2) True by (simp add: imx_block_pool_trim.simps [of keep freed p] Let_def q_def b_def)
    ultimately have "pool_inv p' \<and> pl_freelist p' = take keep (butlast (pl_freelist p)) \<and>
      set (pl_allocated p') = set (swap_remove b (pl_allocated p)) - set (drop keep (butlast (pl_freelist p))) \<and>
      freed' = freed + 1 + (length (butlast (pl_freelist p)) - keep)"
      using "1.IH" [OF True refl, folded b_def, folded q_def] by (simp add: q_def)
    moreover have "take keep (butlast (pl_freelist p)) = take keep (pl_freelist p)"
      using True by (simp add: take_butlast)
    moreover have "set (drop keep (pl_freelist p)) = insert b (set (drop keep (butlast (pl_freelist p))))"
    proof -
      have "drop keep (pl_freelist p) = drop keep (butlast (pl_freelist p)) @ [b]"
        using True by (subst split) (simp add: drop_append)
      then show ?thesis by simp
    qed
    ultimately show ?thesis using sr(2) True by auto
  next
    case False
    then have "freed' = freed" "p' = p" using "1.prems"(2) by (simp_all add: imx_block_pool_trim.simps [of keep freed p])
    then show ?thesis using False "1.prems"(1) by simp
  qed
qed

section \<open>The properties\<close>

text \<open>
  A hole never overlaps a marked object: whatever lines have been marked since, the search
  from any line returns only lines that hold no byte of the object, although the code marks
  only the first line of an object of at most one line that straddles two.
\<close>

theorem hole_avoids_object:
  assumes "object_in_block b a sz" "length (bk_line_marks (mem b)) = 32"
    "imx_block_mark_object b a sz mem = Some mem'"
    "lines.elems (bk_line_marks (mem' b)) \<subseteq> lines.elems (bk_line_marks h)"
    "imx_block_next_hole h i = Some (s, e)"
  shows "{a..<a + sz} \<inter> {imx_block_line_addr b s..<imx_block_line_addr b e} = {}"
proof -
  have "{s..<e} \<subseteq> usable (bk_line_marks h) 256"
    using next_hole_result [of "bk_line_marks h" i 256] assms(5)
    by (simp add: imx_block_next_hole_def hole_result_def)
  then have "line_bytes b {s..<e} \<subseteq> line_bytes b (usable (bk_line_marks h) 256)"
    by (rule line_bytes_mono)
  then show ?thesis
    using marked_not_usable [OF assms(1-4)] unfolding line_bytes_run by blast
qed

text \<open>
  After the sweep a block is free when no data line is marked, unavailable when every data
  line is, recyclable otherwise, and it records the number of marked data lines.
\<close>

theorem classify_correct:
  fixes hd :: imx_block
  defines "E \<equiv> lines.elems (bk_line_marks hd)"
  shows "bk_state (imx_block_classify hd) =
       (if E \<inter> {5..} = {} then IMX_BLOCK_FREE
        else if {5..<256} \<subseteq> E then IMX_BLOCK_UNAVAILABLE else IMX_BLOCK_RECYCLABLE) \<and>
     unat (bk_defrag_marked (imx_block_classify hd)) = card (E \<inter> {5..<256})"
proof
  have "card (E \<inter> {5..<256}) \<le> card {5..<256 :: nat}" by (rule card_mono) auto
  then show "unat (bk_defrag_marked (imx_block_classify hd)) = card (E \<inter> {5..<256})"
    unfolding E_def classify_marked by (simp add: unsigned_of_nat take_bit_nat_eq_self)
qed (simp only: E_def classify_state)

text \<open>
  C92. Trimming the pool keeps the oldest \<open>keep\<close> pooled blocks, gives every other pooled block back
  and forgets exactly those; the blocks in use are untouched.
\<close>

theorem pool_trim_correct:
  assumes "pool_inv p" "imx_block_pool_trim keep 0 p = (freed, p')"
  shows "pool_inv p' \<and> pl_freelist p' = take keep (pl_freelist p) \<and>
    set (pl_allocated p') = set (pl_allocated p) - set (drop keep (pl_freelist p)) \<and>
    imx_block_pool_live p' = imx_block_pool_live p \<and> freed = length (pl_freelist p) - keep"
proof -
  note sp = pool_trim_spec [OF assms]
  have live: "imx_block_pool_live q = card (set (pl_allocated q) - set (pl_freelist q))" if "pool_inv q" for q
    using that by (simp add: pool_inv_def imx_block_pool_live_def card_Diff_subset distinct_card)
  have "set (pl_freelist p) = set (take keep (pl_freelist p)) \<union> set (drop keep (pl_freelist p))"
    by (metis append_take_drop_id set_append)
  then have "set (pl_allocated p') - set (pl_freelist p') = set (pl_allocated p) - set (pl_freelist p)"
    using sp by auto
  then have "imx_block_pool_live p' = imx_block_pool_live p"
    using live [of p'] live [OF assms(1)] sp by simp
  then show ?thesis using sp by simp
qed

subsection \<open>Witnesses\<close>

text \<open>A block at address \<open>0x10000\<close> with an object that straddles lines 5 and 6.\<close>

definition blank_block :: imx_block where
  "blank_block =
     \<lparr>bk_line_marks = replicate 32 0, bk_object_starts = replicate 512 0, bk_state = IMX_BLOCK_FREE,
      bk_hole_count = 0, bk_defrag_holes = 0, bk_defrag_marked = 0, bk_defrag_candidate = False\<rparr>"

lemma blank_elems: "lines.elems (bk_line_marks blank_block) = {}"
  by (auto simp: blank_block_def lines.elems_def test_replicate)

theorem hole_avoids_object_witness:
  "\<exists>mem' s e. imx_block_mark_object 65536 (65536 + 700) 100 (\<lambda>_. blank_block) = Some mem' \<and>
     imx_block_next_hole (mem' 65536) 5 = Some (s, e) \<and>
     {65536 + 700..<65536 + 800} \<inter> {imx_block_line_addr 65536 s..<imx_block_line_addr 65536 e} = {}"
proof -
  have ob: "object_in_block 65536 (65536 + 700) 100"
    by (simp add: object_in_block_def imx_block_data_start_def imx_block_data_end_def)
  have len: "length (bk_line_marks blank_block) = 32" by (simp add: blank_block_def)
  obtain m last where m: "imx_block_mark_object 65536 (65536 + 700) 100 (\<lambda>_. blank_block) =
      Some ((\<lambda>_. blank_block)(65536 := blank_block\<lparr>bk_line_marks := m\<rparr>))"
    "lines.elems m = lines.elems (bk_line_marks blank_block) \<union> {imx_line_of (65536 + 700)..last}"
    "last = (if 128 < (100 :: nat) then imx_line_of (65536 + 700 + 100 - 1) else imx_line_of (65536 + 700))"
    by (rule mark_object [of 65536 "65536 + 700" 100 "\<lambda>_. blank_block", OF ob len])
  have "lines.elems m = {5}" using m(2,3) by (simp add: imx_line_of_def blank_elems)
  then have "7 \<in> usable m 256 \<inter> {5..}" by (simp add: usable_iff)
  then obtain s e where hole: "imx_block_next_hole (blank_block\<lparr>bk_line_marks := m\<rparr>) 5 = Some (s, e)"
    using next_hole_result [of m 5 256]
    by (cases "imx_lb_next_hole m 5 256") (auto simp: imx_block_next_hole_def hole_result_def)
  show ?thesis
    using hole_avoids_object [OF ob _ m(1) _ hole] len m(1) hole by simp
qed

definition small_pool :: imx_pool where
  "small_pool = imx_block_pool_init\<lparr>pl_allocated := [65536, 98304, 131072], pl_freelist := [98304, 65536]\<rparr>"

theorem pool_trim_correct_witness:
  "pl_freelist (snd (imx_block_pool_trim 1 0 small_pool)) = [98304] \<and>
   set (pl_allocated (snd (imx_block_pool_trim 1 0 small_pool))) = {98304, 131072}"
proof -
  obtain freed p' where t: "imx_block_pool_trim 1 0 small_pool = (freed, p')" by (rule prod.exhaust)
  have "pool_inv small_pool" by (simp add: pool_inv_def small_pool_def)
  note r = pool_trim_correct [OF this t]
  have "pl_freelist p' = [98304]" using r by (simp add: small_pool_def)
  moreover have "set (pl_allocated p') = {65536, 98304, 131072} - {65536}"
    using r by (simp add: small_pool_def)
  ultimately show ?thesis unfolding t by auto
qed

end
