(* ===== verification/ImxSpaceRules.thy ===== *)
theory ImxSpaceRules
  imports ImxSpace ImxBlockRules
begin

text \<open>
  Safety of allocation: what the allocator hands out never overlaps bytes that are in use.  The
  bytes it can still hand out are \<open>avail\<close>; the invariant keeps them apart from the bytes in use and
  inside the blocks of the space.
\<close>

section \<open>Blocks and bytes\<close>

definition block_bytes :: "nat \<Rightarrow> nat set" where
  "block_bytes b = {imx_block_data_start b..<imx_block_data_end b}"

lemma block_bytes_lines: "block_bytes b = line_bytes b {5..<256}"
  by (simp add: line_bytes_run block_bytes_def imx_block_data_start_def imx_block_data_end_def
      imx_block_line_addr_def)

lemma block_bytes_disjoint:
  assumes "b mod 32768 = 0" "c mod 32768 = 0" "b \<noteq> c"
  shows "block_bytes b \<inter> block_bytes c = {}"
proof -
  obtain i j where ij: "b = 32768 * i" "c = 32768 * j"
    using assms(1,2) by (metis mod_0_imp_dvd dvdE)
  then consider "i < j" | "j < i" using assms(3) by linarith
  then have "b + 32768 \<le> c \<or> c + 32768 \<le> b" using ij by cases linarith+
  then show ?thesis
    by (auto simp: block_bytes_def imx_block_data_start_def imx_block_data_end_def)
qed

lemma aligned_mod_128: "b mod 32768 = 0 \<Longrightarrow> b mod 128 = (0 :: nat)"
  using dvd_trans [of 128 32768 b] by (simp add: mod_eq_0_iff_dvd)

text \<open>The bytes of the usable lines of a block from line \<open>i\<close> on.\<close>

definition free_bytes :: "imx_space \<Rightarrow> nat \<Rightarrow> nat \<Rightarrow> nat set" where
  "free_bytes s b i = line_bytes b (usable (bk_line_marks (sp_mem s b)) 256 \<inter> {i..})"

lemma free_bytes_block: "5 \<le> i \<Longrightarrow> free_bytes s b i \<subseteq> block_bytes b"
  unfolding free_bytes_def block_bytes_lines by (rule line_bytes_mono) (auto simp: usable_def)

lemma free_bytes_mono: "i \<le> j \<Longrightarrow> free_bytes s b j \<subseteq> free_bytes s b i"
  unfolding free_bytes_def by (rule line_bytes_mono) auto

section \<open>The invariant\<close>

definition small_avail :: "imx_space \<Rightarrow> nat set" where
  "small_avail s =
     (if sp_small_cursor s \<noteq> 0 then {sp_small_cursor s..<sp_small_limit s} else {}) \<union>
     (if sp_small_block s \<noteq> 0 then free_bytes s (sp_small_block s) (sp_small_next_line s) else {})"

definition medium_avail :: "imx_space \<Rightarrow> nat set" where
  "medium_avail s = (if sp_medium_cursor s \<noteq> 0 then {sp_medium_cursor s..<sp_medium_limit s} else {})"

definition list_avail :: "imx_space \<Rightarrow> nat set" where
  "list_avail s = (\<Union>b \<in> set (sp_free s) \<union> set (sp_recyclable s). free_bytes s b 5)"

definition avail :: "imx_space \<Rightarrow> nat set" where
  "avail s = small_avail s \<union> medium_avail s \<union> list_avail s"

definition owned :: "imx_space \<Rightarrow> nat set" where
  "owned s = (\<Union>b \<in> set (sp_all s). block_bytes b)"

text \<open>All blocks are aligned, their bitmaps have their size, and no metadata line is marked.\<close>

definition blocks_ok :: "imx_space \<Rightarrow> bool" where
  "blocks_ok s \<longleftrightarrow> distinct (sp_all s) \<and>
     (\<forall>b \<in> set (sp_all s). 0 < b \<and> b mod IMX_BLOCK_SIZE = 0) \<and>
     pl_allocated (sp_pool s) = sp_all s \<and> pl_freelist (sp_pool s) = [] \<and>
     (\<forall>b. length (bk_line_marks (sp_mem s b)) = 32 \<and> length (bk_object_starts (sp_mem s b)) = 512) \<and>
     (\<forall>b \<in> set (sp_all s). lines.elems (bk_line_marks (sp_mem s b)) \<subseteq> {5..})"

definition lists_ok :: "imx_space \<Rightarrow> bool" where
  "lists_ok s \<longleftrightarrow>
     distinct (sp_free s @ sp_recyclable s) \<and>
     set (sp_free s) \<union> set (sp_recyclable s) \<subseteq> set (sp_all s) \<and>
     (\<forall>b \<in> set (sp_free s). lines.elems (bk_line_marks (sp_mem s b)) = {})"

text \<open>A block in use by a bump allocator is in no list.\<close>

definition taken :: "imx_space \<Rightarrow> nat \<Rightarrow> bool" where
  "taken s b \<longleftrightarrow> b \<in> set (sp_all s) \<and> b \<notin> set (sp_free s) \<and> b \<notin> set (sp_recyclable s)"

definition small_ok :: "imx_space \<Rightarrow> bool" where
  "small_ok s \<longleftrightarrow>
     (sp_small_block s = 0 \<longrightarrow> sp_small_cursor s = 0) \<and>
     (sp_small_block s \<noteq> 0 \<longrightarrow>
        taken s (sp_small_block s) \<and> 5 \<le> sp_small_next_line s \<and>
        (sp_small_cursor s \<noteq> 0 \<longrightarrow>
           {sp_small_cursor s..<sp_small_limit s} \<subseteq>
             line_bytes (sp_small_block s) {5..<min 256 (sp_small_next_line s)}))"

definition medium_ok :: "imx_space \<Rightarrow> bool" where
  "medium_ok s \<longleftrightarrow>
     (sp_medium_cursor s \<noteq> 0 \<longrightarrow>
        taken s (sp_medium_block s) \<and> sp_medium_block s \<noteq> sp_small_block s \<and>
        imx_block_data_start (sp_medium_block s) \<le> sp_medium_cursor s \<and>
        sp_medium_limit s = imx_block_data_end (sp_medium_block s))"

definition space_inv :: "imx_space \<Rightarrow> bool" where
  "space_inv s \<longleftrightarrow> blocks_ok s \<and> lists_ok s \<and> small_ok s \<and> medium_ok s"

text \<open>\<open>L\<close> are the bytes in use.\<close>

definition heap_ok :: "imx_space \<Rightarrow> nat set \<Rightarrow> bool" where
  "heap_ok s L \<longleftrightarrow> space_inv s \<and> L \<subseteq> owned s \<and> L \<inter> avail s = {}"

section \<open>Taking a block\<close>

lemma blank_usable: "lines.elems m = {} \<Longrightarrow> usable m 256 = {..<256}"
  by (auto simp: usable_iff)

lemma blank_free_bytes:
  "lines.elems (bk_line_marks (sp_mem s b)) = {} \<Longrightarrow> free_bytes s b 5 = block_bytes b"
  unfolding free_bytes_def block_bytes_lines
  by (rule arg_cong [where f = "line_bytes b"]) (auto simp: blank_usable)

lemma free_bytes_cong: "sp_mem s' b = sp_mem s b \<Longrightarrow> free_bytes s' b i = free_bytes s b i"
  by (simp add: free_bytes_def)

text \<open>A block \<open>b\<close> taken out of the lists (or new), with the rest of the space unchanged.\<close>

definition took :: "imx_space \<Rightarrow> nat \<Rightarrow> imx_space \<Rightarrow> bool" where
  "took s b s' \<longleftrightarrow>
     taken s' b \<and> b \<noteq> sp_small_block s \<and> (sp_medium_cursor s \<noteq> 0 \<longrightarrow> b \<noteq> sp_medium_block s) \<and>
     sp_small_cursor s' = sp_small_cursor s \<and> sp_small_limit s' = sp_small_limit s \<and>
     sp_small_block s' = sp_small_block s \<and> sp_small_next_line s' = sp_small_next_line s \<and>
     sp_medium_cursor s' = sp_medium_cursor s \<and> sp_medium_limit s' = sp_medium_limit s \<and>
     sp_medium_block s' = sp_medium_block s"

lemma take_listed:
  assumes ok: "heap_ok s L" and b: "b \<in> set (sp_free s) \<union> set (sp_recyclable s)"
    and s': "s' = s\<lparr>sp_free := fs, sp_recyclable := rs\<rparr>"
    and lists: "set fs = set (sp_free s) - {b}" "set rs = set (sp_recyclable s) - {b}" "distinct (fs @ rs)"
  shows "heap_ok s' L \<and> took s b s' \<and> free_bytes s' b 5 \<inter> L = {}"
proof -
  have inv: "blocks_ok s" "lists_ok s" "small_ok s" "medium_ok s" "L \<subseteq> owned s" "L \<inter> avail s = {}"
    using ok by (auto simp: heap_ok_def space_inv_def)
  have same: "sp_mem s' = sp_mem s" "sp_all s' = sp_all s" "sp_pool s' = sp_pool s"
    "sp_free s' = fs" "sp_recyclable s' = rs" by (simp_all add: s')
  have fb: "free_bytes s' c i = free_bytes s c i" for c i by (simp add: free_bytes_def same)
  have "small_avail s' = small_avail s" "medium_avail s' = medium_avail s"
    by (simp_all add: small_avail_def medium_avail_def fb) (simp_all add: s')
  moreover have "list_avail s' \<subseteq> list_avail s" using lists by (auto simp: list_avail_def fb same)
  ultimately have "avail s' \<subseteq> avail s" by (auto simp: avail_def)
  then have "L \<inter> avail s' = {}" using inv(6) by blast
  moreover have "free_bytes s' b 5 \<subseteq> avail s" using b by (auto simp: avail_def list_avail_def fb)
  moreover have "blocks_ok s'" using inv(1) by (simp add: blocks_ok_def same)
  moreover have "lists_ok s'" using inv(2) lists by (auto simp: lists_ok_def same)
  moreover have tk: "taken s' c" if "taken s c" for c using that lists by (auto simp: taken_def same)
  moreover have "small_ok s'" using inv(3) tk by (auto simp: small_ok_def s')
  moreover have "medium_ok s'" using inv(4) tk by (auto simp: medium_ok_def s')
  moreover have "taken s' b" using b lists inv(2) by (auto simp: taken_def same lists_ok_def)
  moreover have "b \<noteq> sp_small_block s"
  proof
    assume "b = sp_small_block s"
    moreover have "b \<noteq> 0" using b inv(1,2) by (force simp: lists_ok_def blocks_ok_def)
    ultimately show False using inv(3) b by (auto simp: small_ok_def taken_def)
  qed
  moreover have "sp_medium_cursor s \<noteq> 0 \<longrightarrow> b \<noteq> sp_medium_block s"
    using inv(4) b by (auto simp: medium_ok_def taken_def)
  ultimately show ?thesis
    using inv(5,6) by (auto simp: heap_ok_def space_inv_def took_def owned_def same s')
qed

text \<open>A block fresh from the operating system.\<close>

lemma take_new:
  assumes ok: "heap_ok s L" and b: "b \<notin> set (sp_all s)" "0 < b" "b mod 32768 = 0"
    and s': "s' = s\<lparr>sp_mem := (sp_mem s)(b := imx_block_init (sp_mem s b)), sp_pool := p, sp_all := sp_all s @ [b]\<rparr>"
    and p: "pl_allocated p = sp_all s @ [b]" "pl_freelist p = []"
  shows "heap_ok s' L \<and> took s b s' \<and> free_bytes s' b 5 \<inter> L = {} \<and> lines.elems (bk_line_marks (sp_mem s' b)) = {}"
proof -
  have inv: "blocks_ok s" "lists_ok s" "small_ok s" "medium_ok s" "L \<subseteq> owned s" "L \<inter> avail s = {}"
    using ok by (auto simp: heap_ok_def space_inv_def)
  have fb: "free_bytes s' c i = free_bytes s c i" if "c \<noteq> b" for c i
    using that by (intro free_bytes_cong) (simp add: s')
  have lists: "set (sp_free s) \<union> set (sp_recyclable s) \<subseteq> set (sp_all s)" using inv(2) by (auto simp: lists_ok_def)
  have sb: "sp_small_block s \<noteq> b" using inv(3) b by (auto simp: small_ok_def taken_def)
  have mb: "sp_medium_cursor s \<noteq> 0 \<longrightarrow> sp_medium_block s \<noteq> b"
    using inv(4) b by (auto simp: medium_ok_def taken_def)
  have same: "sp_small_block s' = sp_small_block s" "sp_small_cursor s' = sp_small_cursor s"
    "sp_small_limit s' = sp_small_limit s" "sp_small_next_line s' = sp_small_next_line s" by (simp_all add: s')
  have "small_avail s' = small_avail s" by (simp add: small_avail_def fb [OF sb] same)
  moreover have "medium_avail s' = medium_avail s" by (simp add: medium_avail_def s')
  moreover have "list_avail s' = list_avail s" using lists b(1) fb by (fastforce simp: list_avail_def s')
  ultimately have av: "L \<inter> avail s' = {}" using inv(6) by (simp add: avail_def)
  have init: "lines.elems (bk_line_marks (sp_mem s' b)) = {}" "length (bk_line_marks (sp_mem s' b)) = 32"
    "length (bk_object_starts (sp_mem s' b)) = 512"
    using inv(1) lines.elems_clear [of "bk_line_marks (sp_mem s b)"]
    by (simp_all add: s' imx_block_init_def blocks_ok_def imx_lb_clear_def imx_ob_clear_def)
  have "free_bytes s' b 5 = block_bytes b" by (rule blank_free_bytes [OF init(1)])
  moreover have "block_bytes b \<inter> owned s = {}"
  proof -
    have "block_bytes b \<inter> block_bytes c = {}" if "c \<in> set (sp_all s)" for c
    proof (rule block_bytes_disjoint [OF b(3)])
      show "c mod 32768 = 0" using inv(1) that by (simp add: blocks_ok_def)
    qed (use that b(1) in auto)
    then show ?thesis by (auto simp: owned_def)
  qed
  ultimately have disj: "free_bytes s' b 5 \<inter> L = {}" using inv(5) by blast
  have other: "sp_mem s' c = sp_mem s c" if "c \<noteq> b" for c using that by (simp add: s')
  have all: "sp_all s' = sp_all s @ [b]" "sp_pool s' = p" by (simp_all add: s')
  have "\<forall>c \<in> set (sp_all s'). 0 < c \<and> c mod IMX_BLOCK_SIZE = 0"
    using inv(1) b(2,3) unfolding blocks_ok_def all by simp
  moreover have "length (bk_line_marks (sp_mem s' c)) = 32 \<and> length (bk_object_starts (sp_mem s' c)) = 512" for c
    using inv(1) init(2,3) other [of c] by (cases "c = b") (simp_all add: blocks_ok_def)
  moreover have "lines.elems (bk_line_marks (sp_mem s' c)) \<subseteq> {5..}" if "c \<in> set (sp_all s')" for c
    using inv(1) init(1) other [of c] that by (cases "c = b") (simp_all add: blocks_ok_def all)
  ultimately have "blocks_ok s'" using p inv(1) b(1) by (simp add: blocks_ok_def all)
  moreover have "lists_ok s'" using inv(2) lists b(1) by (auto simp: lists_ok_def s')
  moreover have tk: "taken s' c" if "taken s c" for c using that by (auto simp: taken_def s')
  moreover have "small_ok s'" using inv(3) tk by (auto simp: small_ok_def s')
  moreover have "medium_ok s'" using inv(4) tk by (auto simp: medium_ok_def s')
  moreover have "taken s' b" using b(1) lists by (auto simp: taken_def s')
  moreover have "L \<subseteq> owned s'" using inv(5) by (auto simp: owned_def s')
  ultimately show ?thesis
    using av disj init(1) sb mb by (auto simp: heap_ok_def space_inv_def took_def s')
qed

lemma heap_ok_pool:
  assumes ok: "heap_ok s L" and p: "pl_allocated p = pl_allocated (sp_pool s)" "pl_freelist p = pl_freelist (sp_pool s)"
  shows "heap_ok (s\<lparr>sp_pool := p\<rparr>) L"
proof -
  let ?s = "s\<lparr>sp_pool := p\<rparr>"
  have av: "avail ?s = avail s" "owned ?s = owned s" "taken ?s = taken s"
    by (simp_all add: avail_def small_avail_def medium_avail_def list_avail_def free_bytes_def owned_def
        taken_def fun_eq_iff)
  have "blocks_ok ?s = blocks_ok s" "lists_ok ?s = lists_ok s" "small_ok ?s = small_ok s" "medium_ok ?s = medium_ok s"
    by (simp_all add: blocks_ok_def lists_ok_def small_ok_def medium_ok_def av p)
  then show ?thesis using ok by (simp add: heap_ok_def space_inv_def av)
qed

lemma butlast_last_set:
  "distinct xs \<Longrightarrow> xs \<noteq> [] \<Longrightarrow> set (butlast xs) = set xs - {last xs} \<and> distinct (butlast xs)"
  by (cases xs rule: rev_cases) auto

lemma take_free_spec:
  assumes ok: "heap_ok s L" and os: "os_ok os" and t: "take_free_block os s = (r, s')"
  shows "heap_ok s' L" "sp_recyclable s' = sp_recyclable s"
    "r = Some b \<Longrightarrow> took s b s' \<and> free_bytes s' b 5 \<inter> L = {} \<and> lines.elems (bk_line_marks (sp_mem s' b)) = {}"
proof -
  have inv: "blocks_ok s" "lists_ok s" using ok by (auto simp: heap_ok_def space_inv_def)
  have "heap_ok s' L \<and> sp_recyclable s' = sp_recyclable s \<and>
    (r = Some b \<longrightarrow> took s b s' \<and> free_bytes s' b 5 \<inter> L = {} \<and> lines.elems (bk_line_marks (sp_mem s' b)) = {})"
  proof (cases "sp_free s = []")
    case False
    then have r: "r = Some (last (sp_free s))" "s' = s\<lparr>sp_free := butlast (sp_free s)\<rparr>"
      using t by (simp_all add: take_free_block_def)
    have d: "distinct (sp_free s)" "distinct (sp_recyclable s)" "set (sp_free s) \<inter> set (sp_recyclable s) = {}"
      using inv(2) by (simp_all add: lists_ok_def)
    note bl = butlast_last_set [OF d(1) False]
    have last: "last (sp_free s) \<in> set (sp_free s)" using False by simp
    have "set (sp_recyclable s) = set (sp_recyclable s) - {last (sp_free s)}" using d(3) last by auto
    moreover have "distinct (butlast (sp_free s) @ sp_recyclable s)" using d bl by auto
    moreover have "s' = s\<lparr>sp_free := butlast (sp_free s), sp_recyclable := sp_recyclable s\<rparr>" by (simp add: r)
    ultimately have "heap_ok s' L \<and> took s (last (sp_free s)) s' \<and> free_bytes s' (last (sp_free s)) 5 \<inter> L = {}"
      by (intro take_listed [OF ok UnI1 [OF last] _ conjunct1 [OF bl]])
    moreover have "lines.elems (bk_line_marks (sp_mem s (last (sp_free s)))) = {}"
      using inv(2) last by (simp add: lists_ok_def)
    ultimately show ?thesis by (auto simp: r)
  next
    case True
    define p where "p = (sp_pool s)\<lparr>pl_total_acquired := pl_total_acquired (sp_pool s) + 1\<rparr>"
    have p: "pl_allocated p = sp_all s" "pl_freelist p = []" using inv(1) by (simp_all add: p_def blocks_ok_def)
    have acq: "imx_block_pool_acquire os (sp_mem s, sp_pool s) =
        (case os p of
           None \<Rightarrow> (None, sp_mem s, p)
         | Some b \<Rightarrow> (Some b, (sp_mem s)(b := imx_block_init (sp_mem s b)),
             p\<lparr>pl_allocated := pl_allocated p @ [b], pl_total_os_allocs := pl_total_os_allocs p + 1\<rparr>))"
      using inv(1) by (simp add: imx_block_pool_acquire_def Let_def p_def blocks_ok_def split: option.split)
    show ?thesis
    proof (cases "os p")
      case None
      then have "r = None" "s' = s\<lparr>sp_pool := p\<rparr>"
        using t True by (simp_all add: take_free_block_def acq)
      then show ?thesis using heap_ok_pool [OF ok, of p] p inv(1) by (simp add: blocks_ok_def)
    next
      case (Some c)
      define q where "q = p\<lparr>pl_allocated := pl_allocated p @ [c], pl_total_os_allocs := pl_total_os_allocs p + 1\<rparr>"
      have r: "r = Some c"
        "s' = s\<lparr>sp_mem := (sp_mem s)(c := imx_block_init (sp_mem s c)), sp_pool := q, sp_all := sp_all s @ [c]\<rparr>"
        using t True Some by (simp_all add: take_free_block_def acq q_def)
      have c: "c \<notin> set (sp_all s)" "0 < c" "c mod 32768 = 0"
        using os Some p(1) unfolding os_ok_def by metis+
      have "pl_allocated q = sp_all s @ [c]" "pl_freelist q = []" by (simp_all add: q_def p)
      from take_new [OF ok c r(2) this] show ?thesis by (auto simp: r)
    qed
  qed
  then show "heap_ok s' L" "sp_recyclable s' = sp_recyclable s"
    "r = Some b \<Longrightarrow> took s b s' \<and> free_bytes s' b 5 \<inter> L = {} \<and> lines.elems (bk_line_marks (sp_mem s' b)) = {}"
    by blast+
qed

lemma next_block_spec:
  assumes ok: "heap_ok s L" and os: "os_ok os" and t: "next_block os s = (r, s')"
  shows "heap_ok s' L"
    "r = Some b \<Longrightarrow> took s b s' \<and> free_bytes s' b 5 \<inter> L = {}"
    "r = Some b \<Longrightarrow> lines.elems (bk_line_marks (sp_mem s' b)) = {} \<or>
       length (sp_recyclable s') < length (sp_recyclable s)"
proof -
  have inv: "lists_ok s" using ok by (auto simp: heap_ok_def space_inv_def)
  have "heap_ok s' L \<and>
    (r = Some b \<longrightarrow> took s b s' \<and> free_bytes s' b 5 \<inter> L = {} \<and>
      (lines.elems (bk_line_marks (sp_mem s' b)) = {} \<or> length (sp_recyclable s') < length (sp_recyclable s)))"
  proof (cases "sp_recyclable s = []")
    case True
    then have "take_free_block os s = (r, s')" using t by (simp add: next_block_def take_recyclable_block_def)
    from take_free_spec [OF ok os this] show ?thesis by blast
  next
    case False
    then have r: "r = Some (last (sp_recyclable s))" "s' = s\<lparr>sp_recyclable := butlast (sp_recyclable s)\<rparr>"
      using t by (simp_all add: next_block_def take_recyclable_block_def)
    have d: "distinct (sp_free s)" "distinct (sp_recyclable s)" "set (sp_free s) \<inter> set (sp_recyclable s) = {}"
      using inv by (simp_all add: lists_ok_def)
    note bl = butlast_last_set [OF d(2) False]
    have last: "last (sp_recyclable s) \<in> set (sp_recyclable s)" using False by simp
    have "set (sp_free s) = set (sp_free s) - {last (sp_recyclable s)}" using d(3) last by auto
    moreover have "distinct (sp_free s @ butlast (sp_recyclable s))" using d bl by auto
    moreover have "s' = s\<lparr>sp_free := sp_free s, sp_recyclable := butlast (sp_recyclable s)\<rparr>" by (simp add: r)
    ultimately have "heap_ok s' L \<and> took s (last (sp_recyclable s)) s' \<and> free_bytes s' (last (sp_recyclable s)) 5 \<inter> L = {}"
      by (intro take_listed [OF ok UnI2 [OF last] _ _ conjunct1 [OF bl]])
    moreover have "length (sp_recyclable s') < length (sp_recyclable s)" using False by (simp add: r)
    ultimately show ?thesis by (auto simp: r(1))
  qed
  then show "heap_ok s' L"
    "r = Some b \<Longrightarrow> took s b s' \<and> free_bytes s' b 5 \<inter> L = {}"
    "r = Some b \<Longrightarrow> lines.elems (bk_line_marks (sp_mem s' b)) = {} \<or>
       length (sp_recyclable s') < length (sp_recyclable s)" by blast+
qed

section \<open>Refilling the small allocator\<close>

text \<open>Making a taken block the small block, without a hole yet.\<close>

lemma heap_ok_small_block:
  assumes ok: "heap_ok s1 L" and tk: "taken s1 b" "sp_medium_cursor s1 \<noteq> 0 \<longrightarrow> b \<noteq> sp_medium_block s1"
    and free: "free_bytes s1 b 5 \<inter> L = {}"
    and s2: "s2 = s1\<lparr>sp_small_block := b, sp_small_next_line := 5, sp_small_cursor := 0, sp_small_limit := l\<rparr>"
  shows "heap_ok s2 L"
proof -
  have inv: "blocks_ok s1" "lists_ok s1" "medium_ok s1" "L \<subseteq> owned s1" "L \<inter> avail s1 = {}"
    using ok by (auto simp: heap_ok_def space_inv_def)
  have fb: "free_bytes s2 c i = free_bytes s1 c i" for c i by (simp add: free_bytes_def s2)
  have b0: "b \<noteq> 0" using tk(1) inv(1) by (auto simp: taken_def blocks_ok_def)
  have "medium_avail s2 = medium_avail s1" "list_avail s2 = list_avail s1" "taken s2 = taken s1"
    by (simp_all add: medium_avail_def list_avail_def fb taken_def fun_eq_iff) (simp_all add: s2)
  moreover have "small_avail s2 = free_bytes s1 b 5" using b0 by (simp add: small_avail_def fb) (simp add: s2)
  ultimately have "L \<inter> avail s2 = {}" "taken s2 = taken s1"
    using inv(5) free by (auto simp: avail_def)
  moreover have "blocks_ok s2" "lists_ok s2" using inv by (simp_all add: s2 blocks_ok_def lists_ok_def)
  moreover have "small_ok s2" using tk(1) b0 \<open>taken s2 = taken s1\<close> by (simp add: small_ok_def s2)
  moreover have "medium_ok s2" using tk(2) inv(3) \<open>taken s2 = taken s1\<close> by (auto simp: medium_ok_def s2)
  ultimately show ?thesis using inv(4) by (simp add: heap_ok_def space_inv_def owned_def s2)
qed

text \<open>Entering a hole of the small block.\<close>

lemma heap_ok_set_hole:
  assumes ok: "heap_ok s L" and b: "sp_small_block s = b" "b \<noteq> 0"
    and h: "imx_block_next_hole (sp_mem s b) (sp_small_next_line s) = Some (i, j)"
    and L: "free_bytes s b (sp_small_next_line s) \<inter> L = {}"
  shows "heap_ok (set_hole b i j s) L \<and> sp_small_cursor (set_hole b i j s) \<noteq> 0 \<and>
    sp_small_block (set_hole b i j s) = b \<and> sp_small_cursor (set_hole b i j s) = b + i * 128 \<and>
    sp_small_cursor (set_hole b i j s) + 128 \<le> sp_small_limit (set_hole b i j s)"
proof -
  let ?s = "set_hole b i j s" and ?m = "bk_line_marks (sp_mem s b)" and ?k = "sp_small_next_line s"
  have inv: "blocks_ok s" "lists_ok s" "small_ok s" "medium_ok s" "L \<subseteq> owned s" "L \<inter> avail s = {}"
    using ok by (auto simp: heap_ok_def space_inv_def)
  have hole: "?k \<le> i" "i < j" "j \<le> 256" "{i..<j} \<subseteq> usable ?m 256"
    using h next_hole_result [of ?m ?k 256] by (auto simp: imx_block_next_hole_def hole_result_def)
  have k5: "5 \<le> ?k" "taken s b" using inv(3) b by (auto simp: small_ok_def)
  have sel: "sp_small_cursor ?s = b + i * 128" "sp_small_limit ?s = b + j * 128" "sp_small_next_line ?s = j"
    "sp_small_block ?s = b" "sp_mem ?s = sp_mem s" "sp_all ?s = sp_all s" "sp_free ?s = sp_free s"
    "sp_recyclable ?s = sp_recyclable s" "sp_pool ?s = sp_pool s" "sp_medium_cursor ?s = sp_medium_cursor s"
    "sp_medium_limit ?s = sp_medium_limit s" "sp_medium_block ?s = sp_medium_block s"
    using b by (simp_all add: set_hole_def imx_block_line_addr_def)
  have fb: "free_bytes ?s c l = free_bytes s c l" for c l by (simp add: free_bytes_def sel)
  have range: "{b + i * 128..<b + j * 128} = line_bytes b {i..<j}"
    by (simp add: line_bytes_run imx_block_line_addr_def)
  have "line_bytes b {i..<j} \<subseteq> free_bytes s b ?k"
    unfolding free_bytes_def by (rule line_bytes_mono) (use hole in auto)
  moreover have "free_bytes s b j \<subseteq> free_bytes s b ?k" by (rule free_bytes_mono) (use hole in simp)
  ultimately have "small_avail ?s \<subseteq> free_bytes s b ?k"
    using b(2) by (simp add: small_avail_def sel fb range)
  moreover have "medium_avail ?s = medium_avail s" "list_avail ?s = list_avail s" "taken ?s = taken s" "owned ?s = owned s"
    by (simp_all add: medium_avail_def list_avail_def fb taken_def owned_def sel fun_eq_iff)
  ultimately have "L \<inter> avail ?s = {}" using inv(6) L by (auto simp: avail_def)
  moreover have "small_ok ?s"
  proof -
    have "line_bytes b {i..<j} \<subseteq> line_bytes b {5..<min 256 j}"
      by (rule line_bytes_mono) (use hole k5 in auto)
    then show ?thesis using k5 hole b \<open>taken ?s = taken s\<close> by (simp add: small_ok_def sel range)
  qed
  moreover have "blocks_ok ?s" "lists_ok ?s" using inv(1,2) by (simp_all add: blocks_ok_def lists_ok_def sel)
  moreover have "medium_ok ?s" using inv(4) b \<open>taken ?s = taken s\<close> by (simp add: medium_ok_def sel)
  moreover have "b + i * 128 + 128 \<le> b + j * 128" using hole(2) by simp
  ultimately show ?thesis
    using inv(5) b(2) \<open>owned ?s = owned s\<close> by (simp add: heap_ok_def space_inv_def sel)
qed

text \<open>What a refill promises: a hole of at least one line, aligned to a line.\<close>

definition refilled :: "imx_space \<Rightarrow> bool" where
  "refilled s \<longleftrightarrow> sp_small_cursor s \<noteq> 0 \<and> sp_small_block s \<noteq> 0 \<and> sp_small_cursor s mod 128 = 0 \<and>
     sp_small_cursor s + 128 \<le> sp_small_limit s"

lemma refill_loop_spec:
  assumes "heap_ok s L" "os_ok os"
  shows "\<exists>ok s'. refill_loop os s = Some (ok, s') \<and> heap_ok s' L \<and> (ok \<longrightarrow> refilled s')"
  using assms(1)
proof (induction "length (sp_recyclable s)" arbitrary: s rule: less_induct)
  case less
  obtain r s1 where nb: "next_block os s = (r, s1)" by (rule prod.exhaust)
  note spec = next_block_spec [OF less.prems assms(2) nb]
  show ?case
  proof (cases r)
    case None
    then have "refill_loop os s = Some (False, s1)" by (subst refill_loop.simps) (simp add: nb)
    then show ?thesis using spec(1) by blast
  next
    case (Some b)
    note tk = spec(2) [OF Some]
    have tb: "taken s1 b" "sp_medium_cursor s1 \<noteq> 0 \<longrightarrow> b \<noteq> sp_medium_block s1" "free_bytes s1 b 5 \<inter> L = {}"
      using tk by (auto simp: took_def)
    have "b \<in> set (sp_all s1)" "blocks_ok s1" using tb(1) spec(1) by (auto simp: taken_def heap_ok_def space_inv_def)
    then have b32: "0 < b" "b mod 32768 = 0" by (auto simp: blocks_ok_def)
    then have b0: "b \<noteq> 0" "b mod 128 = 0" using aligned_mod_128 by simp_all
    define s2 where "s2 = s1\<lparr>sp_small_block := b, sp_small_next_line := 5\<rparr>"
    let ?h = "imx_block_next_hole (sp_mem s1 b) 5"
    define s3 where "s3 = s1\<lparr>sp_small_block := b, sp_small_next_line := 5, sp_small_cursor := 0, sp_small_limit := 0\<rparr>"
    have s3: "heap_ok s3 L" by (rule heap_ok_small_block [OF spec(1) tb s3_def])
    have step: "refill_loop os s =
        (if ?h = None then refill_loop os (s2\<lparr>sp_small_cursor := 0, sp_small_limit := 0\<rparr>)
         else Some (True, set_hole b (fst (the ?h)) (snd (the ?h)) s2))"
      by (subst refill_loop.simps) (simp add: nb Some Let_def s2_def)
    show ?thesis
    proof (cases ?h)
      case None
      have "lines.elems (bk_line_marks (sp_mem s1 b)) \<noteq> {}"
      proof
        assume "lines.elems (bk_line_marks (sp_mem s1 b)) = {}"
        then have "5 \<in> usable (bk_line_marks (sp_mem s1 b)) 256 \<inter> {5..}" by (simp add: blank_usable)
        then show False
          using None next_hole_result [of "bk_line_marks (sp_mem s1 b)" 5 256]
          by (auto simp: imx_block_next_hole_def hole_result_def)
      qed
      then have "length (sp_recyclable s3) < length (sp_recyclable s)" using spec(3) [OF Some] by (simp add: s3_def)
      from less.hyps [OF this s3] show ?thesis
        using None by (simp add: step s2_def s3_def)
    next
      case hole: (Some h)
      obtain i j where h: "h = (i, j)" by (rule prod.exhaust)
      have same: "set_hole b i j s2 = set_hole b i j s3" by (simp add: set_hole_def s2_def s3_def)
      have "heap_ok (set_hole b i j s3) L \<and> sp_small_cursor (set_hole b i j s3) \<noteq> 0 \<and>
        sp_small_block (set_hole b i j s3) = b \<and> sp_small_cursor (set_hole b i j s3) = b + i * 128 \<and>
        sp_small_cursor (set_hole b i j s3) + 128 \<le> sp_small_limit (set_hole b i j s3)"
      proof (rule heap_ok_set_hole [OF s3 _ b0(1)])
        show "sp_small_block s3 = b" by (simp add: s3_def)
        show "imx_block_next_hole (sp_mem s3 b) (sp_small_next_line s3) = Some (i, j)"
          using hole h by (simp add: s3_def)
        show "free_bytes s3 b (sp_small_next_line s3) \<inter> L = {}"
          using tb(3) by (simp add: s3_def free_bytes_def)
      qed
      moreover have "(b + i * 128) mod 128 = 0" using b0(2) by simp
      moreover have "refill_loop os s = Some (True, set_hole b i j s3)" using hole by (simp add: step h same)
      ultimately show ?thesis using b0(1) unfolding refilled_def by metis
    qed
  qed
qed

lemma refill_small_spec:
  assumes ok: "heap_ok s L" and os: "os_ok os"
  shows "\<exists>ok s'. refill_small os s = Some (ok, s') \<and> heap_ok s' L \<and> (ok \<longrightarrow> refilled s')"
proof (cases "if sp_small_block s \<noteq> 0
    then imx_block_next_hole (sp_mem s (sp_small_block s)) (sp_small_next_line s) else None")
  case None
  then show ?thesis using refill_loop_spec [OF ok os] by (simp add: refill_small_def Let_def)
next
  case (Some h)
  obtain i j where h: "h = (i, j)" by (rule prod.exhaust)
  let ?b = "sp_small_block s"
  have b: "?b \<noteq> 0" "imx_block_next_hole (sp_mem s ?b) (sp_small_next_line s) = Some (i, j)"
    using Some h by (auto split: if_splits)
  have inv: "small_ok s" "blocks_ok s" "L \<inter> avail s = {}" using ok by (auto simp: heap_ok_def space_inv_def)
  have "?b mod 128 = 0"
  proof -
    have "?b \<in> set (sp_all s)" using inv(1) b(1) by (auto simp: small_ok_def taken_def)
    then have "?b mod 32768 = 0" using inv(2) by (simp add: blocks_ok_def)
    then show ?thesis by (rule aligned_mod_128)
  qed
  moreover have "free_bytes s ?b (sp_small_next_line s) \<inter> L = {}"
    using inv(3) b(1) by (auto simp: avail_def small_avail_def)
  moreover have "refill_small os s = Some (True, set_hole ?b i j s)"
    using Some h by (simp add: refill_small_def Let_def)
  moreover have "(?b + i * 128) mod 128 = 0" if "?b mod 128 = 0" using that by simp
  ultimately show ?thesis
    using heap_ok_set_hole [OF ok refl b] b(1) unfolding refilled_def by metis
qed

section \<open>Bumping\<close>

lemma align_up_props:
  assumes "0 < al"
  shows "v \<le> align_up v al" "al dvd align_up v al" "al dvd v \<Longrightarrow> align_up v al = v"
proof -
  show "al dvd align_up v al" by (simp add: align_up_def)
  have "v + al - 1 < al + (v + al - 1) div al * al" using dividend_less_div_times [OF assms, of "v + al - 1"] by simp
  then show "v \<le> align_up v al" using assms unfolding align_up_def by linarith
  assume "al dvd v"
  then obtain k where v: "v = al * k" by blast
  have "(v + al - 1) div al = k" by (rule div_nat_eqI) (use assms in \<open>auto simp: v\<close>)
  then show "align_up v al = v" by (simp add: align_up_def v)
qed

lemma line_bytes_block_of:
  assumes "p \<in> block_bytes b" "b mod 32768 = 0"
  shows "imx_block_of p = b"
proof -
  obtain k where k: "p = b + k" "k < 32768"
    using assms(1) le_Suc_ex [of b p] by (auto simp: block_bytes_def imx_block_data_start_def imx_block_data_end_def)
  moreover have "(b + k) mod 32768 = k" using k(2) assms(2) by (metis add_0 mod_add_left_eq mod_less)
  ultimately show ?thesis by (simp add: imx_block_of_def)
qed

text \<open>Recording an object start changes nothing the invariant speaks of.\<close>

lemma record_at_spec:
  assumes ok: "heap_ok s L" and p: "p \<in> block_bytes b" "b \<in> set (sp_all s)"
  shows "\<exists>s'. record_at b p s = Some (Some p, s') \<and> heap_ok s' L \<and> sp_all s' = sp_all s"
proof -
  have inv: "blocks_ok s" "lists_ok s" "small_ok s" "medium_ok s" "L \<subseteq> owned s" "L \<inter> avail s = {}"
    using ok by (auto simp: heap_ok_def space_inv_def)
  have "imx_block_owns b p"
    using line_bytes_block_of [OF p(1)] p(2) inv(1) by (simp add: imx_block_owns_def blocks_ok_def)
  then obtain mem where mem: "imx_block_record_allocation b p (sp_mem s) = Some mem"
    "mem = (sp_mem s)(b := (sp_mem s b)\<lparr>bk_object_starts := imx_ob_set (bk_object_starts (sp_mem s b)) (imx_word_of p)\<rparr>)"
    by (simp add: imx_block_record_allocation_def)
  let ?s = "s\<lparr>sp_mem := mem\<rparr>"
  have lm: "bk_line_marks (mem c) = bk_line_marks (sp_mem s c)" "length (bk_object_starts (mem c)) = length (bk_object_starts (sp_mem s c))" for c
    by (simp_all add: mem(2))
  have fb: "free_bytes ?s c i = free_bytes s c i" for c i by (simp add: free_bytes_def lm)
  have "avail ?s = avail s" "owned ?s = owned s" "taken ?s = taken s"
    by (simp_all add: avail_def small_avail_def medium_avail_def list_avail_def fb owned_def taken_def fun_eq_iff)
  moreover have "blocks_ok ?s" using inv(1) by (simp add: blocks_ok_def lm)
  moreover have "lists_ok ?s" using inv(2) by (simp add: lists_ok_def lm)
  ultimately have "heap_ok ?s L"
    using inv by (simp add: heap_ok_def space_inv_def small_ok_def medium_ok_def)
  then show ?thesis by (simp add: record_at_def mem(1))
qed

lemma bump_small_spec:
  assumes ok: "heap_ok s L" and al: "0 < al" "0 < sz" and c: "sp_small_cursor s \<noteq> 0"
    and bump: "bump_small sz al s = Some (p, s1)"
  shows "heap_ok s1 (L \<union> {p..<p + sz})" "{p..<p + sz} \<inter> L = {}" "al dvd p"
    "{p..<p + sz} \<subseteq> block_bytes (sp_small_block s1)" "sp_small_block s1 \<in> set (sp_all s1)" "sp_all s1 = sp_all s"
proof -
  have inv: "blocks_ok s" "lists_ok s" "small_ok s" "medium_ok s" "L \<subseteq> owned s" "L \<inter> avail s = {}"
    using ok by (auto simp: heap_ok_def space_inv_def)
  have p: "p = align_up (sp_small_cursor s) al" "p + sz \<le> sp_small_limit s" "s1 = s\<lparr>sp_small_cursor := p + sz\<rparr>"
    using bump by (auto simp: bump_small_def Let_def split: if_splits)
  have ge: "sp_small_cursor s \<le> p" "al dvd p" using align_up_props(1,2) [OF al(1)] by (simp_all add: p(1))
  let ?b = "sp_small_block s" and ?R = "{p..<p + sz}" and ?S = "{sp_small_cursor s..<sp_small_limit s}"
  have b: "?b \<noteq> 0" "taken s ?b" "?S \<subseteq> line_bytes ?b {5..<min 256 (sp_small_next_line s)}"
    using inv(3) c by (auto simp: small_ok_def)
  have R: "?R \<subseteq> ?S" using ge p(2) by auto
  have "line_bytes ?b {5..<min 256 (sp_small_next_line s)} \<subseteq> block_bytes ?b"
    unfolding block_bytes_lines by (rule line_bytes_mono) auto
  then have Rb: "?R \<subseteq> block_bytes ?b" using R b(3) by blast
  have fb: "free_bytes s1 d i = free_bytes s d i" for d i by (simp add: free_bytes_def p(3))
  have sel: "sp_small_cursor s1 = p + sz" "sp_small_limit s1 = sp_small_limit s" "sp_small_block s1 = ?b"
    "sp_small_next_line s1 = sp_small_next_line s" "sp_all s1 = sp_all s" "sp_free s1 = sp_free s"
    "sp_recyclable s1 = sp_recyclable s" "sp_medium_cursor s1 = sp_medium_cursor s"
    "sp_medium_limit s1 = sp_medium_limit s" "sp_medium_block s1 = sp_medium_block s"
    "sp_mem s1 = sp_mem s" "sp_pool s1 = sp_pool s"
    by (simp_all add: p(3))
  have S1: "small_avail s1 = {p + sz..<sp_small_limit s} \<union> free_bytes s ?b (sp_small_next_line s)"
    using b(1) al(2) by (simp add: small_avail_def sel fb)
  have others: "medium_avail s1 = medium_avail s" "list_avail s1 = list_avail s" "owned s1 = owned s" "taken s1 = taken s"
    by (simp_all add: medium_avail_def list_avail_def fb owned_def taken_def sel fun_eq_iff)
  have "small_avail s1 \<subseteq> small_avail s" unfolding S1 using ge p(2) b(1) c by (auto simp: small_avail_def)
  then have "avail s1 \<subseteq> avail s" by (auto simp: avail_def others)
  then have La: "L \<inter> avail s1 = {}" using inv(6) by blast
  have "?S \<subseteq> avail s" using c by (auto simp: avail_def small_avail_def)
  then show RL: "?R \<inter> L = {}" using R inv(6) by blast
  have aligned: "d mod 32768 = 0" if "d \<in> set (sp_all s)" for d using inv(1) that by (simp add: blocks_ok_def)
  have ball: "?b \<in> set (sp_all s)" using b(2) by (simp add: taken_def)
  have other_block: "?R \<inter> block_bytes d = {}" if "d \<in> set (sp_all s)" "d \<noteq> ?b" for d
    using block_bytes_disjoint [OF aligned [OF ball] aligned [OF that(1)]] that(2) Rb by blast
  have "?R \<inter> free_bytes s ?b (sp_small_next_line s) = {}"
  proof -
    have "line_bytes ?b {5..<min 256 (sp_small_next_line s)} \<inter>
        line_bytes ?b (usable (bk_line_marks (sp_mem s ?b)) 256 \<inter> {sp_small_next_line s..}) = {}"
      by (rule line_bytes_disjoint) auto
    then show ?thesis using R b(3) unfolding free_bytes_def by blast
  qed
  then have "?R \<inter> small_avail s1 = {}" by (auto simp: S1)
  moreover have "?R \<inter> medium_avail s1 = {}"
  proof (cases "sp_medium_cursor s = 0")
    case False
    then have "sp_medium_block s \<in> set (sp_all s)" "sp_medium_block s \<noteq> ?b" "medium_avail s \<subseteq> block_bytes (sp_medium_block s)"
      using inv(4) by (auto simp: medium_ok_def taken_def medium_avail_def block_bytes_def)
    then show ?thesis using other_block by (simp add: others) blast
  next
    case True
    then show ?thesis unfolding others by (simp add: medium_avail_def)
  qed
  moreover have "?R \<inter> list_avail s1 = {}"
  proof -
    have "?R \<inter> free_bytes s d 5 = {}" if "d \<in> set (sp_free s) \<union> set (sp_recyclable s)" for d
    proof -
      have "d \<in> set (sp_all s)" "d \<noteq> ?b" using that inv(2) b(2) by (auto simp: lists_ok_def taken_def)
      then show ?thesis using other_block free_bytes_block [of 5 s d] by blast
    qed
    then have "?R \<inter> list_avail s = {}" unfolding list_avail_def by blast
    then show ?thesis unfolding others .
  qed
  ultimately have "?R \<inter> avail s1 = {}" by (auto simp: avail_def)
  then have "(L \<union> ?R) \<inter> avail s1 = {}" using La by blast
  moreover have "L \<union> ?R \<subseteq> owned s1" unfolding others using inv(5) Rb ball by (auto simp: owned_def)
  moreover have "small_ok s1"
    using inv(3) b ge p(2) by (auto simp: small_ok_def sel others)
  moreover have "blocks_ok s1" "lists_ok s1" "medium_ok s1"
    using inv(1,2,4) by (simp_all add: blocks_ok_def lists_ok_def medium_ok_def others sel)
  ultimately show "heap_ok s1 (L \<union> ?R)" by (simp add: heap_ok_def space_inv_def)
  show "al dvd p" by (rule ge(2))
  show "?R \<subseteq> block_bytes (sp_small_block s1)" "sp_small_block s1 \<in> set (sp_all s1)" "sp_all s1 = sp_all s"
    using Rb ball by (simp_all add: sel)
qed

lemma heap_ok_medium:
  assumes ok: "heap_ok s L" and tk: "taken s b" "b \<noteq> sp_small_block s" and free: "block_bytes b \<inter> L = {}"
    and s2: "s2 = s\<lparr>sp_medium_block := b, sp_medium_cursor := imx_block_data_start b, sp_medium_limit := imx_block_data_end b\<rparr>"
  shows "heap_ok s2 L"
proof -
  have inv: "blocks_ok s" "lists_ok s" "small_ok s" "L \<subseteq> owned s" "L \<inter> avail s = {}"
    using ok by (auto simp: heap_ok_def space_inv_def)
  have fb: "free_bytes s2 c i = free_bytes s c i" for c i by (simp add: free_bytes_def s2)
  have sel: "small_avail s2 = small_avail s" "list_avail s2 = list_avail s" "taken s2 = taken s" "owned s2 = owned s"
    "medium_avail s2 = block_bytes b"
    by (simp_all add: small_avail_def list_avail_def fb taken_def owned_def fun_eq_iff)
      (simp_all add: s2 medium_avail_def block_bytes_def imx_block_data_start_def)
  have "L \<inter> avail s2 = {}" using inv(5) free by (auto simp: avail_def sel)
  moreover have "blocks_ok s2" "lists_ok s2" using inv(1,2) by (simp_all add: blocks_ok_def lists_ok_def s2)
  moreover have "small_ok s2" using inv(3) unfolding small_ok_def sel by (simp add: s2)
  moreover have "medium_ok s2" using tk unfolding medium_ok_def sel by (simp add: s2)
  ultimately show ?thesis using inv(4) by (simp add: heap_ok_def space_inv_def sel)
qed

lemma refill_medium_spec:
  assumes ok: "heap_ok s L" and os: "os_ok os" and r: "refill_medium os s = (ok', s')"
  shows "heap_ok s' L" "ok' \<Longrightarrow> \<exists>b. sp_medium_cursor s' = b + 640 \<and> sp_medium_limit s' = b + 32768 \<and> b mod 32768 = 0"
proof -
  obtain q s1 where t: "take_free_block os s = (q, s1)" by (rule prod.exhaust)
  note spec = take_free_spec [OF ok os t]
  have "heap_ok s' L \<and> (ok' \<longrightarrow> (\<exists>b. sp_medium_cursor s' = b + 640 \<and> sp_medium_limit s' = b + 32768 \<and> b mod 32768 = 0))"
  proof (cases q)
    case None
    then show ?thesis using r spec(1) by (simp add: refill_medium_def t)
  next
    case (Some b)
    note tk = spec(3) [OF Some]
    have s': "s' = s1\<lparr>sp_medium_block := b, sp_medium_cursor := imx_block_data_start b, sp_medium_limit := imx_block_data_end b\<rparr>"
      using r Some by (auto simp: refill_medium_def t)
    have "block_bytes b \<inter> L = {}" using tk blank_free_bytes [of s1 b] by simp
    then have "heap_ok s' L"
      using tk by (intro heap_ok_medium [OF spec(1) _ _ _ s']) (auto simp: took_def)
    moreover have "b mod 32768 = 0"
      using tk spec(1) by (auto simp: took_def taken_def heap_ok_def space_inv_def blocks_ok_def)
    ultimately show ?thesis by (auto simp: s' imx_block_data_start_def imx_block_data_end_def)
  qed
  then show "heap_ok s' L" "ok' \<Longrightarrow> \<exists>b. sp_medium_cursor s' = b + 640 \<and> sp_medium_limit s' = b + 32768 \<and> b mod 32768 = 0"
    by blast+
qed

lemma bump_medium_spec:
  assumes ok: "heap_ok s L" and al: "0 < al" "0 < sz" and c: "sp_medium_cursor s \<noteq> 0"
    and bump: "bump_medium sz al s = Some (p, s1)"
  shows "heap_ok s1 (L \<union> {p..<p + sz})" "{p..<p + sz} \<inter> L = {}" "al dvd p"
    "{p..<p + sz} \<subseteq> block_bytes (sp_medium_block s1)" "sp_medium_block s1 \<in> set (sp_all s1)" "sp_all s1 = sp_all s"
proof -
  have inv: "blocks_ok s" "lists_ok s" "small_ok s" "medium_ok s" "L \<subseteq> owned s" "L \<inter> avail s = {}"
    using ok by (auto simp: heap_ok_def space_inv_def)
  have p: "p = align_up (sp_medium_cursor s) al" "p + sz \<le> sp_medium_limit s" "s1 = s\<lparr>sp_medium_cursor := p + sz\<rparr>"
    using bump by (auto simp: bump_medium_def Let_def split: if_splits)
  have ge: "sp_medium_cursor s \<le> p" "al dvd p" using align_up_props(1,2) [OF al(1)] by (simp_all add: p(1))
  let ?b = "sp_medium_block s" and ?R = "{p..<p + sz}"
  have b: "taken s ?b" "?b \<noteq> sp_small_block s" "imx_block_data_start ?b \<le> sp_medium_cursor s"
    "sp_medium_limit s = imx_block_data_end ?b"
    using inv(4) c by (auto simp: medium_ok_def)
  have Rb: "?R \<subseteq> block_bytes ?b" using b ge p(2) by (auto simp: block_bytes_def)
  have fb: "free_bytes s1 d i = free_bytes s d i" for d i by (simp add: free_bytes_def p(3))
  have sel: "sp_medium_cursor s1 = p + sz" "sp_medium_limit s1 = sp_medium_limit s" "sp_medium_block s1 = ?b"
    "sp_all s1 = sp_all s" "sp_mem s1 = sp_mem s" "sp_pool s1 = sp_pool s"
    "sp_free s1 = sp_free s" "sp_recyclable s1 = sp_recyclable s"
    "sp_small_block s1 = sp_small_block s"
    by (simp_all add: p(3))
  have M1: "medium_avail s1 = {p + sz..<sp_medium_limit s}" using al(2) by (simp add: medium_avail_def sel)
  have others: "small_avail s1 = small_avail s" "list_avail s1 = list_avail s" "owned s1 = owned s" "taken s1 = taken s"
    by (simp_all add: list_avail_def fb owned_def taken_def sel fun_eq_iff small_avail_def) (simp_all add: p(3))
  have "medium_avail s1 \<subseteq> medium_avail s" unfolding M1 using ge p(2) c by (auto simp: medium_avail_def)
  then have "avail s1 \<subseteq> avail s" by (auto simp: avail_def others)
  then have La: "L \<inter> avail s1 = {}" using inv(6) by blast
  have "?R \<subseteq> avail s" using c ge p(2) by (auto simp: avail_def medium_avail_def)
  then show RL: "?R \<inter> L = {}" using inv(6) by blast
  have aligned: "d mod 32768 = 0" if "d \<in> set (sp_all s)" for d using inv(1) that by (simp add: blocks_ok_def)
  have ball: "?b \<in> set (sp_all s)" using b(1) by (simp add: taken_def)
  have other_block: "?R \<inter> block_bytes d = {}" if "d \<in> set (sp_all s)" "d \<noteq> ?b" for d
    using block_bytes_disjoint [OF aligned [OF ball] aligned [OF that(1)]] that(2) Rb by blast
  have "?R \<inter> small_avail s1 = {}"
  proof (cases "sp_small_block s = 0")
    case True
    then show ?thesis unfolding others using inv(3) by (simp add: small_avail_def small_ok_def)
  next
    case False
    have "small_avail s \<subseteq> block_bytes (sp_small_block s)"
    proof -
      have "line_bytes (sp_small_block s) {5..<min 256 (sp_small_next_line s)} \<subseteq> block_bytes (sp_small_block s)"
        unfolding block_bytes_lines by (rule line_bytes_mono) auto
      moreover have "free_bytes s (sp_small_block s) (sp_small_next_line s) \<subseteq> block_bytes (sp_small_block s)"
        by (rule free_bytes_block) (use inv(3) False in \<open>simp add: small_ok_def\<close>)
      moreover have "sp_small_cursor s \<noteq> 0 \<longrightarrow> {sp_small_cursor s..<sp_small_limit s} \<subseteq>
          line_bytes (sp_small_block s) {5..<min 256 (sp_small_next_line s)}"
        using inv(3) False by (simp add: small_ok_def)
      ultimately show ?thesis using False unfolding small_avail_def by auto
    qed
    moreover have "sp_small_block s \<in> set (sp_all s)" using inv(3) False by (simp add: small_ok_def taken_def)
    moreover from this have "?R \<inter> block_bytes (sp_small_block s) = {}"
      using b(2) by (intro other_block) auto
    ultimately show ?thesis unfolding others by blast
  qed
  moreover have "?R \<inter> medium_avail s1 = {}" unfolding M1 by auto
  moreover have "?R \<inter> list_avail s1 = {}"
  proof -
    have "?R \<inter> free_bytes s d 5 = {}" if "d \<in> set (sp_free s) \<union> set (sp_recyclable s)" for d
    proof -
      have "d \<in> set (sp_all s)" "d \<noteq> ?b" using that inv(2) b(1) by (auto simp: lists_ok_def taken_def)
      then show ?thesis using other_block free_bytes_block [of 5 s d] by blast
    qed
    then have "?R \<inter> list_avail s = {}" unfolding list_avail_def by blast
    then show ?thesis unfolding others .
  qed
  ultimately have "?R \<inter> avail s1 = {}" by (auto simp: avail_def)
  then have "(L \<union> ?R) \<inter> avail s1 = {}" using La by blast
  moreover have "L \<union> ?R \<subseteq> owned s1" unfolding others using inv(5) Rb ball by (auto simp: owned_def)
  moreover have "medium_ok s1" using b ge p(2) by (simp add: medium_ok_def sel others)
  moreover have "small_ok s1" using inv(3) unfolding small_ok_def others by (simp add: p(3))
  moreover have "blocks_ok s1" "lists_ok s1"
    using inv(1,2) by (simp_all add: blocks_ok_def lists_ok_def sel)
  ultimately show "heap_ok s1 (L \<union> ?R)" by (simp add: heap_ok_def space_inv_def)
  show "al dvd p" by (rule ge(2))
  show "?R \<subseteq> block_bytes (sp_medium_block s1)" "sp_medium_block s1 \<in> set (sp_all s1)" "sp_all s1 = sp_all s"
    using Rb ball by (simp_all add: sel)
qed

section \<open>Allocation\<close>

text \<open>
  The outcome of an allocation of \<open>sz\<close> bytes: null with the bytes in use unchanged, or an aligned
  region inside one block that overlaps nothing in use.
\<close>

definition alloc_ok :: "nat \<Rightarrow> nat \<Rightarrow> nat set \<Rightarrow> (nat option \<times> imx_space) option \<Rightarrow> bool" where
  "alloc_ok sz al L r \<longleftrightarrow>
     (\<exists>q s'. r = Some (q, s') \<and>
        (case q of
           None \<Rightarrow> heap_ok s' L
         | Some p \<Rightarrow> heap_ok s' (L \<union> {p..<p + sz}) \<and> {p..<p + sz} \<inter> L = {} \<and> al dvd p \<and>
             (\<exists>b \<in> set (sp_all s'). {p..<p + sz} \<subseteq> block_bytes b)))"

lemma record_ok:
  assumes "heap_ok s1 (L \<union> {p..<p + sz})" "{p..<p + sz} \<inter> L = {}" "al dvd p" "0 < sz"
    "{p..<p + sz} \<subseteq> block_bytes b" "b \<in> set (sp_all s1)"
  shows "alloc_ok sz al L (record_at b p s1)"
proof -
  have "p \<in> block_bytes b" using assms(4,5) by auto
  from record_at_spec [OF assms(1) this assms(6)]
  obtain s' where "record_at b p s1 = Some (Some p, s')" "heap_ok s' (L \<union> {p..<p + sz})" "sp_all s' = sp_all s1"
    by blast
  then show ?thesis using assms by (auto simp: alloc_ok_def)
qed

lemma alloc_medium_ok:
  assumes ok: "heap_ok s L" and os: "os_ok os" and sz: "0 < sz" "0 < al"
  shows "alloc_ok sz al L (alloc_medium os sz al s)"
proof (cases "if sp_medium_cursor s \<noteq> 0 then bump_medium sz al s else None")
  case (Some r)
  obtain p s1 where r: "r = (p, s1)" by (rule prod.exhaust)
  have "sp_medium_cursor s \<noteq> 0" "bump_medium sz al s = Some (p, s1)" using Some r by (auto split: if_splits)
  note bm = bump_medium_spec [OF ok sz(2,1) this]
  have "alloc_medium os sz al s = record_at (sp_medium_block s1) p s1" by (simp only: alloc_medium_def Some r option.case prod.case)
  then show ?thesis using record_ok [OF bm(1-3) sz(1) bm(4,5)] by simp
next
  case none: None
  obtain ok' s1 where r: "refill_medium os s = (ok', s1)" by (rule prod.exhaust)
  note rm = refill_medium_spec [OF ok os r]
  show ?thesis
  proof (cases ok')
    case False
    then have "alloc_medium os sz al s = Some (None, s1)" by (simp only: alloc_medium_def none r option.case prod.case bool.case)
    then show ?thesis using rm(1) by (simp add: alloc_ok_def)
  next
    case True
    then have c: "sp_medium_cursor s1 \<noteq> 0" using rm(2) by auto
    show ?thesis
    proof (cases "bump_medium sz al s1")
      case None
      then have "alloc_medium os sz al s = Some (None, s1)"
        using True by (simp only: alloc_medium_def none r None option.case prod.case bool.case)
      then show ?thesis using rm(1) by (simp add: alloc_ok_def)
    next
      case (Some q)
      obtain p s2 where q: "q = (p, s2)" by (rule prod.exhaust)
      note bm = bump_medium_spec [OF rm(1) sz(2,1) c Some [unfolded q]]
      have "alloc_medium os sz al s = record_at (sp_medium_block s2) p s2"
        using True by (simp only: alloc_medium_def none r Some q option.case prod.case bool.case)
      then show ?thesis using record_ok [OF bm(1-3) sz(1) bm(4,5)] by simp
    qed
  qed
qed

lemma alloc_small_ok:
  assumes ok: "heap_ok s L" and os: "os_ok os" and sz: "0 < sz" "sz \<le> 128" and al: "0 < al" "al dvd 128"
  shows "alloc_ok sz al L (alloc_small os sz al s)"
proof (cases "if sp_small_cursor s \<noteq> 0 then bump_small sz al s else None")
  case (Some r)
  obtain p s1 where r: "r = (p, s1)" by (rule prod.exhaust)
  have "sp_small_cursor s \<noteq> 0" "bump_small sz al s = Some (p, s1)" using Some r by (auto split: if_splits)
  note bm = bump_small_spec [OF ok al(1) sz(1) this]
  have "alloc_small os sz al s = record_at (sp_small_block s1) p s1" by (simp only: alloc_small_def Some r option.case prod.case)
  then show ?thesis using record_ok [OF bm(1-3) sz(1) bm(4,5)] by simp
next
  case none: None
  obtain ok' s1 where r: "refill_small os s = Some (ok', s1)" "heap_ok s1 L" "ok' \<longrightarrow> refilled s1"
    using refill_small_spec [OF ok os] by blast
  show ?thesis
  proof (cases ok')
    case False
    then have "alloc_small os sz al s = Some (None, s1)" by (simp only: alloc_small_def none r(1) option.case prod.case bind.bind_lunit) simp
    then show ?thesis using r(2) by (simp add: alloc_ok_def)
  next
    case True
    then have rf: "refilled s1" using r(3) by blast
    have "al dvd sp_small_cursor s1"
      using rf al(2) dvd_trans [of al 128 "sp_small_cursor s1"] by (auto simp: refilled_def)
    then have "align_up (sp_small_cursor s1) al = sp_small_cursor s1" by (rule align_up_props(3) [OF al(1)])
    then have "sp_small_cursor s1 + sz \<le> sp_small_limit s1 \<and> align_up (sp_small_cursor s1) al = sp_small_cursor s1"
      using rf sz(2) by (simp add: refilled_def)
    then obtain p s2 where q: "bump_small sz al s1 = Some (p, s2)"
      by (simp add: bump_small_def Let_def)
    have c: "sp_small_cursor s1 \<noteq> 0" using rf by (simp add: refilled_def)
    note bm = bump_small_spec [OF r(2) al(1) sz(1) c q]
    have "alloc_small os sz al s = record_at (sp_small_block s2) p s2"
      using True by (simp only: alloc_small_def none r(1) q option.case prod.case bind.bind_lunit not_True_eq_False if_False)
    then show ?thesis using record_ok [OF bm(1-3) sz(1) bm(4,5)] by simp
  qed
qed

end
