(* ===== verification/ImxReclaim.thy ===== *)
theory ImxReclaim
  imports ImxSpaceRules "HOL-Library.Multiset"
begin

text \<open>
  Reclamation: the sweep partitions the blocks by state, sets the headroom aside, and leaves the
  allocator nothing that overlaps an object marked in the mark phase.
\<close>

section \<open>The sweep\<close>

definition in_state :: "imx_space \<Rightarrow> imx_state \<Rightarrow> nat \<Rightarrow> bool" where
  "in_state s st b \<longleftrightarrow> bk_state (imx_block_classify (sp_mem s b)) = st"

lemma sweep_fold:
  assumes "distinct bs"
  shows "foldl sweep_block s bs =
    s\<lparr>sp_mem := (\<lambda>b. if b \<in> set bs then imx_block_classify (sp_mem s b) else sp_mem s b),
      sp_free := sp_free s @ filter (in_state s IMX_BLOCK_FREE) bs,
      sp_recyclable := sp_recyclable s @ filter (in_state s IMX_BLOCK_RECYCLABLE) bs,
      sp_unavailable := sp_unavailable s @ filter (in_state s IMX_BLOCK_UNAVAILABLE) bs\<rparr>"
  using assms
proof (induction bs arbitrary: s)
  case Nil
  then show ?case by simp
next
  case (Cons b bs)
  let ?s = "sweep_block s b"
  have mem: "sp_mem ?s = (sp_mem s)(b := imx_block_classify (sp_mem s b))"
    by (simp add: sweep_block_def Let_def split: imx_state.split)
  have "in_state ?s st c = in_state s st c" if "c \<in> set bs" for st c
    using that Cons.prems by (auto simp: in_state_def mem)
  then have filt: "filter (in_state ?s st) bs = filter (in_state s st) bs" for st
    by (rule filter_cong [OF refl])
  have "foldl sweep_block s (b # bs) = foldl sweep_block ?s bs" by simp
  also have "\<dots> = ?s\<lparr>sp_mem := (\<lambda>c. if c \<in> set bs then imx_block_classify (sp_mem ?s c) else sp_mem ?s c),
      sp_free := sp_free ?s @ filter (in_state s IMX_BLOCK_FREE) bs,
      sp_recyclable := sp_recyclable ?s @ filter (in_state s IMX_BLOCK_RECYCLABLE) bs,
      sp_unavailable := sp_unavailable ?s @ filter (in_state s IMX_BLOCK_UNAVAILABLE) bs\<rparr>"
    using Cons.IH [of ?s] Cons.prems unfolding filt by simp
  also have "(\<lambda>c. if c \<in> set bs then imx_block_classify (sp_mem ?s c) else sp_mem ?s c) =
      (\<lambda>c. if c \<in> set (b # bs) then imx_block_classify (sp_mem s c) else sp_mem s c)"
    using Cons.prems by (auto simp: mem fun_eq_iff)
  finally show ?case
    by (cases "bk_state (imx_block_classify (sp_mem s b))") (simp_all add: sweep_block_def Let_def in_state_def)
qed

lemma set_aside_spec:
  "\<exists>k. k = length (sp_free s) - n \<and>
     set_aside n s = s\<lparr>sp_evac_reserve := sp_evac_reserve s @ rev (drop k (sp_free s)), sp_free := take k (sp_free s)\<rparr>"
proof (induction n arbitrary: s)
  case 0
  then show ?case by simp
next
  case (Suc n)
  show ?case
  proof (cases "sp_free s = []")
    case True
    then show ?thesis by simp
  next
    case False
    define xs where "xs = butlast (sp_free s)"
    define x where "x = last (sp_free s)"
    have f: "sp_free s = xs @ [x]" using False by (simp add: xs_def x_def)
    have len: "length xs - n = length (sp_free s) - Suc n" by (simp add: f)
    have "length xs - n \<le> length xs" by simp
    then show ?thesis
      using Suc.IH [of "s\<lparr>sp_evac_reserve := sp_evac_reserve s @ [x], sp_free := xs\<rparr>"] False
      by (simp add: xs_def [symmetric] x_def [symmetric]) (simp add: f)
  qed
qed

text \<open>The result of a reclamation, list by list.\<close>

lemma reclaim_result:
  assumes "distinct (sp_all s)" and s'_def: "s' = imx_space_reclaim n s"
    and fr_def: "fr = filter (in_state s IMX_BLOCK_FREE) (sp_all s)"
  shows "sp_mem s' = (\<lambda>b. if b \<in> set (sp_all s) then imx_block_classify (sp_mem s b) else sp_mem s b)"
    "sp_all s' = sp_all s" "sp_pool s' = sp_pool s"
    "sp_free s' = take (length fr - n) fr" "sp_evac_reserve s' = rev (drop (length fr - n) fr)"
    "sp_recyclable s' = filter (in_state s IMX_BLOCK_RECYCLABLE) (sp_all s)"
    "sp_unavailable s' = filter (in_state s IMX_BLOCK_UNAVAILABLE) (sp_all s)"
    "sp_small_block s' = 0" "sp_small_cursor s' = 0" "sp_medium_cursor s' = 0" "sp_medium_block s' = 0"
proof -
  let ?s0 = "s\<lparr>sp_free := [], sp_recyclable := [], sp_unavailable := [], sp_evac_reserve := []\<rparr>"
  let ?s1 = "foldl sweep_block ?s0 (sp_all s)"
  have "in_state ?s0 st = in_state s st" for st by (simp add: in_state_def fun_eq_iff)
  moreover have m0: "sp_mem ?s0 = sp_mem s" by simp
  ultimately have s1: "?s1 = ?s0\<lparr>sp_mem := (\<lambda>b. if b \<in> set (sp_all s) then imx_block_classify (sp_mem s b) else sp_mem s b),
      sp_free := fr, sp_recyclable := filter (in_state s IMX_BLOCK_RECYCLABLE) (sp_all s),
      sp_unavailable := filter (in_state s IMX_BLOCK_UNAVAILABLE) (sp_all s)\<rparr>"
    using sweep_fold [of "sp_all s" ?s0, unfolded m0] assms(1) by (simp add: fr_def)
  obtain k where k: "k = length (sp_free ?s1) - n"
    "set_aside n ?s1 = ?s1\<lparr>sp_evac_reserve := sp_evac_reserve ?s1 @ rev (drop k (sp_free ?s1)), sp_free := take k (sp_free ?s1)\<rparr>"
    using set_aside_spec [of ?s1 n] by blast
  have "s' = (set_aside n ?s1)\<lparr>sp_small_block := 0, sp_small_cursor := 0, sp_small_limit := 0, sp_small_next_line := 0,
       sp_medium_block := 0, sp_medium_cursor := 0, sp_medium_limit := 0\<rparr>"
    by (simp add: s'_def imx_space_reclaim_def Let_def)
  then show "sp_mem s' = (\<lambda>b. if b \<in> set (sp_all s) then imx_block_classify (sp_mem s b) else sp_mem s b)"
    "sp_all s' = sp_all s" "sp_pool s' = sp_pool s"
    "sp_free s' = take (length fr - n) fr" "sp_evac_reserve s' = rev (drop (length fr - n) fr)"
    "sp_recyclable s' = filter (in_state s IMX_BLOCK_RECYCLABLE) (sp_all s)"
    "sp_unavailable s' = filter (in_state s IMX_BLOCK_UNAVAILABLE) (sp_all s)"
    "sp_small_block s' = 0" "sp_small_cursor s' = 0" "sp_medium_cursor s' = 0" "sp_medium_block s' = 0"
    unfolding k(2) using k(1) by (simp_all add: s1)
qed

section \<open>What is marked stays\<close>

text \<open>The bytes of \<open>L\<close> lie in the blocks of the space, outside the usable lines of each.\<close>

definition protected :: "imx_space \<Rightarrow> nat set \<Rightarrow> bool" where
  "protected s L \<longleftrightarrow> L \<subseteq> owned s \<and> (\<forall>b \<in> set (sp_all s). L \<inter> free_bytes s b 0 = {})"

lemma reclaim_heap_ok:
  assumes ok: "blocks_ok s" and L: "protected s L"
  shows "heap_ok (imx_space_reclaim n s) L"
proof -
  have d: "distinct (sp_all s)" using ok by (simp add: blocks_ok_def)
  let ?s = "imx_space_reclaim n s" and ?fr = "filter (in_state s IMX_BLOCK_FREE) (sp_all s)"
  note rr = reclaim_result [OF d refl refl, of n]
  have marks: "bk_line_marks (sp_mem ?s b) = bk_line_marks (sp_mem s b)"
    "bk_object_starts (sp_mem ?s b) = bk_object_starts (sp_mem s b)" for b by (simp_all add: rr(1))
  have fb: "free_bytes ?s b i = free_bytes s b i" for b i by (simp add: free_bytes_def marks)
  have sub: "set (sp_free ?s) \<subseteq> set ?fr" unfolding rr(4) by (rule set_take_subset)
  have "set (sp_free ?s) \<subseteq> set (sp_all s)" using sub by auto
  moreover have "set (sp_recyclable ?s) \<subseteq> set (sp_all s)" unfolding rr(6) by auto
  ultimately have lists: "set (sp_free ?s) \<union> set (sp_recyclable ?s) \<subseteq> set (sp_all s)" by blast
  have dis: "distinct (sp_free ?s @ sp_recyclable ?s)"
  proof -
    have "distinct (sp_free ?s)" "distinct (sp_recyclable ?s)" unfolding rr(4,6) using d by simp_all
    moreover have "set (sp_free ?s) \<inter> set (sp_recyclable ?s) = {}"
      using sub unfolding rr(6) by (auto simp: in_state_def)
    ultimately show ?thesis by simp
  qed
  have blank: "lines.elems (bk_line_marks (sp_mem s b)) = {}" if "b \<in> set (sp_free ?s)" for b
  proof -
    have b: "b \<in> set (sp_all s)" "in_state s IMX_BLOCK_FREE b" using that sub by auto
    then have "lines.elems (bk_line_marks (sp_mem s b)) \<inter> {5..} = {}"
      by (auto simp: in_state_def classify_state split: if_splits)
    moreover have "lines.elems (bk_line_marks (sp_mem s b)) \<subseteq> {5..}" using ok b(1) by (simp add: blocks_ok_def)
    ultimately show ?thesis by blast
  qed
  have "avail ?s = list_avail ?s" by (simp add: avail_def small_avail_def medium_avail_def rr)
  moreover have "list_avail ?s \<subseteq> (\<Union>b \<in> set (sp_all s). free_bytes s b 0)"
    using lists free_bytes_mono [of 0 5 s] unfolding list_avail_def fb by blast
  moreover have "L \<inter> (\<Union>b \<in> set (sp_all s). free_bytes s b 0) = {}" using L by (auto simp: protected_def)
  ultimately have "L \<inter> avail ?s = {}" by blast
  moreover have "blocks_ok ?s" using ok by (simp add: blocks_ok_def rr(2,3) marks)
  moreover have "lists_ok ?s" using dis lists blank by (simp add: lists_ok_def rr(2) marks)
  moreover have "small_ok ?s" "medium_ok ?s" by (simp_all add: small_ok_def medium_ok_def rr)
  moreover have "L \<subseteq> owned ?s" using L by (simp add: protected_def owned_def rr(2))
  ultimately show ?thesis by (simp add: heap_ok_def space_inv_def)
qed

text \<open>Marking an object protects its bytes and keeps the others protected.\<close>

lemma mark_protects:
  assumes ok: "blocks_ok s" and L: "protected s L" and b: "b \<in> set (sp_all s)"
    and ob: "{a..<a + sz} \<subseteq> block_bytes b" "0 < sz"
    and mk: "imx_block_mark_object b a sz (sp_mem s) = Some mem"
  shows "blocks_ok (s\<lparr>sp_mem := mem\<rparr>) \<and> protected (s\<lparr>sp_mem := mem\<rparr>) (L \<union> {a..<a + sz})"
proof -
  let ?s = "s\<lparr>sp_mem := mem\<rparr>"
  have al: "b mod 32768 = 0" using ok b by (simp add: blocks_ok_def)
  have len: "length (bk_line_marks (sp_mem s c)) = 32" for c using ok by (simp add: blocks_ok_def)
  have oib: "object_in_block b a sz"
  proof -
    have "a \<in> block_bytes b" "a + sz - 1 \<in> block_bytes b" using ob by auto
    then show ?thesis using ob(2) al by (auto simp: object_in_block_def block_bytes_def)
  qed
  obtain m last where m: "imx_block_mark_object b a sz (sp_mem s) = Some ((sp_mem s)(b := (sp_mem s b)\<lparr>bk_line_marks := m\<rparr>))"
    "length m = 32" "lines.elems m = lines.elems (bk_line_marks (sp_mem s b)) \<union> {imx_line_of a..last}"
    "5 \<le> imx_line_of a"
    using mark_object [of b a sz "sp_mem s", OF oib len] by blast
  have mem: "mem = (sp_mem s)(b := (sp_mem s b)\<lparr>bk_line_marks := m\<rparr>)" using mk m(1) by simp
  have grow: "lines.elems (bk_line_marks (sp_mem s c)) \<subseteq> lines.elems (bk_line_marks (mem c))" for c
    using m(3) by (cases "c = b") (auto simp: mem)
  have fbsub: "free_bytes ?s c 0 \<subseteq> free_bytes s c 0" for c
    unfolding free_bytes_def by (rule line_bytes_mono) (use usable_antimono [OF grow] in auto)
  have new: "{a..<a + sz} \<inter> free_bytes ?s b 0 = {}"
    using marked_not_usable [OF oib len mk subset_refl] unfolding free_bytes_def by simp
  have "{a..<a + sz} \<inter> free_bytes ?s c 0 = {}" if "c \<in> set (sp_all s)" for c
  proof (cases "c = b")
    case False
    show ?thesis
    proof (rule ccontr)
      assume "{a..<a + sz} \<inter> free_bytes ?s c 0 \<noteq> {}"
      then obtain x where x: "x \<in> block_bytes b" "x \<in> free_bytes ?s c 0" using ob(1) by blast
      have "free_bytes ?s c 0 \<subseteq> line_bytes c {..<256}"
        unfolding free_bytes_def by (rule line_bytes_mono) (auto simp: usable_def)
      then have "x \<in> line_bytes c {0..<256}" using x(2) by (simp add: lessThan_atLeast0 subset_iff)
      then have cx: "c \<le> x" "x < c + 32768" by (auto simp: line_bytes_run imx_block_line_addr_def)
      have bx: "b \<le> x" "x < b + 32768" using x(1)
        by (auto simp: block_bytes_def imx_block_data_start_def imx_block_data_end_def)
      have "c mod 32768 = 0" using ok that by (simp add: blocks_ok_def)
      then obtain i j where ij: "b = 32768 * i" "c = 32768 * j" using al by (metis mod_0_imp_dvd dvdE)
      have "i < j + 1" "j < i + 1" using cx bx ij by linarith+
      then have "i = j" by simp
      then show False using False ij by simp
    qed
  qed (use new in simp)
  moreover have "L \<inter> free_bytes ?s c 0 = {}" if "c \<in> set (sp_all s)" for c
    using L that fbsub [of c] by (auto simp: protected_def)
  moreover have "L \<union> {a..<a + sz} \<subseteq> owned ?s" using L ob(1) b by (auto simp: protected_def owned_def)
  ultimately have "protected ?s (L \<union> {a..<a + sz})" by (auto simp: protected_def)
  moreover have "blocks_ok ?s"
  proof -
    have "length (bk_line_marks (mem c)) = 32 \<and> length (bk_object_starts (mem c)) = 512" for c
      using ok m(2) by (cases "c = b") (simp_all add: mem blocks_ok_def)
    moreover have "lines.elems (bk_line_marks (mem c)) \<subseteq> {5..}" if "c \<in> set (sp_all s)" for c
      using ok that m(3,4) by (cases "c = b") (auto simp: mem blocks_ok_def)
    ultimately show ?thesis using ok by (simp add: blocks_ok_def)
  qed
  ultimately show ?thesis by blast
qed

end
