(* ===== verification/ImxCycle.thy ===== *)
theory ImxCycle
  imports ImxReclaim
begin

text \<open>
  The life of a space as a step relation: allocations and collections, in any order.  A collection
  clears the marks, marks the objects that survive, and reclaims; which objects survive is left
  open.  In every reachable state the objects in use are pairwise disjoint, and no step can fail.
\<close>

section \<open>Marking the survivors\<close>

text \<open>The tracer marks an object in the block found by masking its address.\<close>

fun mark_objects :: "(nat \<times> nat) list \<Rightarrow> imx_space \<Rightarrow> imx_space option" where
  "mark_objects [] s = Some s"
| "mark_objects ((a, sz) # obs) s =
     Option.bind (imx_block_mark_object (imx_block_of a) a sz (sp_mem s))
       (\<lambda>mem. mark_objects obs (s\<lparr>sp_mem := mem\<rparr>))"

definition bytes_of :: "(nat \<times> nat) set \<Rightarrow> nat set" where
  "bytes_of Os = (\<Union>(a, sz) \<in> Os. {a..<a + sz})"

text \<open>Every object is non-empty and lies in one block of the space.\<close>

definition resident :: "imx_space \<Rightarrow> (nat \<times> nat) set \<Rightarrow> bool" where
  "resident s Os \<longleftrightarrow>
     (\<forall>(a, sz) \<in> Os. 0 < sz \<and> (\<exists>b \<in> set (sp_all s). {a..<a + sz} \<subseteq> block_bytes b))"

lemma clear_fold:
  "foldl (\<lambda>mem b. mem(b := imx_block_clear_marks (mem b))) mem bs c =
     (if c \<in> set bs then imx_block_clear_marks (mem c) else mem c)"
proof -
  have idem: "imx_block_clear_marks (imx_block_clear_marks h) = imx_block_clear_marks h" for h
    by (simp add: imx_block_clear_marks_def imx_lb_clear_def)
  show ?thesis by (induction bs arbitrary: mem) (auto simp: idem)
qed

lemma clear_marks_ok:
  assumes "blocks_ok s"
  shows "blocks_ok (imx_space_clear_marks s)" "sp_all (imx_space_clear_marks s) = sp_all s"
proof -
  let ?s = "imx_space_clear_marks s"
  have mem: "sp_mem ?s c = (if c \<in> set (sp_all s) then imx_block_clear_marks (sp_mem s c) else sp_mem s c)" for c
    by (simp add: imx_space_clear_marks_def clear_fold)
  have sel: "sp_all ?s = sp_all s" "sp_pool ?s = sp_pool s" by (simp_all add: imx_space_clear_marks_def)
  have len: "length (bk_line_marks (sp_mem ?s c)) = 32 \<and> length (bk_object_starts (sp_mem ?s c)) = 512" for c
    using assms by (simp add: mem blocks_ok_def imx_block_clear_marks_def imx_lb_clear_def)
  have "lines.elems (bk_line_marks (sp_mem ?s c)) = {}" if "c \<in> set (sp_all s)" for c
    using that assms lines.elems_clear [of "bk_line_marks (sp_mem s c)"]
    by (simp add: mem imx_block_clear_marks_def blocks_ok_def)
  then show "blocks_ok ?s" using assms len by (simp add: blocks_ok_def sel)
  show "sp_all ?s = sp_all s" by (rule sel)
qed

lemma mark_objects_ok:
  assumes "blocks_ok s" "protected s L" "resident s (set obs)"
  shows "\<exists>s'. mark_objects obs s = Some s' \<and> blocks_ok s' \<and> protected s' (L \<union> bytes_of (set obs)) \<and>
    sp_all s' = sp_all s"
  using assms
proof (induction obs arbitrary: s L)
  case Nil
  then show ?case by (simp add: bytes_of_def)
next
  case (Cons ob obs)
  obtain a sz where ob: "ob = (a, sz)" by (rule prod.exhaust)
  obtain b where b: "0 < sz" "b \<in> set (sp_all s)" "{a..<a + sz} \<subseteq> block_bytes b"
    using Cons.prems(3) by (auto simp: resident_def ob)
  have al: "b mod 32768 = 0" using Cons.prems(1) b(2) by (simp add: blocks_ok_def)
  have "a \<in> block_bytes b" using b(1,3) by auto
  then have bo: "imx_block_of a = b" using al by (rule line_bytes_block_of)
  have oib: "object_in_block b a sz"
  proof -
    have "a \<in> block_bytes b" "a + sz - 1 \<in> block_bytes b" using b by auto
    then show ?thesis using b(1) al by (auto simp: object_in_block_def block_bytes_def)
  qed
  have "length (bk_line_marks (sp_mem s b)) = 32" using Cons.prems(1) by (simp add: blocks_ok_def)
  then obtain mem where mem: "imx_block_mark_object b a sz (sp_mem s) = Some mem"
    using mark_object [of b a sz "sp_mem s", OF oib] by blast
  note mp = mark_protects [OF Cons.prems(1,2) b(2,3,1) mem]
  have "resident (s\<lparr>sp_mem := mem\<rparr>) (set obs)" using Cons.prems(3) by (simp add: resident_def)
  from Cons.IH [OF conjunct1 [OF mp] conjunct2 [OF mp] this]
  obtain s' where s': "mark_objects obs (s\<lparr>sp_mem := mem\<rparr>) = Some s'" "blocks_ok s'"
    "protected s' (L \<union> {a..<a + sz} \<union> bytes_of (set obs))" "sp_all s' = sp_all s"
    by auto
  moreover have "L \<union> {a..<a + sz} \<union> bytes_of (set obs) = L \<union> bytes_of (set (ob # obs))"
    by (auto simp: bytes_of_def ob)
  ultimately show ?case by (simp add: ob bo mem)
qed

section \<open>The step relation\<close>

inductive imx_step :: "os_alloc \<Rightarrow> imx_space \<times> (nat \<times> nat) set \<Rightarrow> imx_space \<times> (nat \<times> nat) set \<Rightarrow> bool"
  for os where
  step_alloc: "0 < sz \<Longrightarrow> imx_space_allocate os sz IMX_OBJECT_ALIGN s = Some (Some p, s') \<Longrightarrow>
     imx_step os (s, Os) (s', insert (p, sz) Os)"
| step_null: "0 < sz \<Longrightarrow> imx_space_allocate os sz IMX_OBJECT_ALIGN s = Some (None, s') \<Longrightarrow>
     imx_step os (s, Os) (s', Os)"
| step_collect: "set obs \<subseteq> Os \<Longrightarrow> mark_objects obs (imx_space_clear_marks s) = Some s' \<Longrightarrow>
     imx_step os (s, Os) (imx_space_reclaim n s', set obs)"

inductive_cases imx_stepE: "imx_step os (s, Os) (s', Os')"

inductive imx_reach :: "os_alloc \<Rightarrow> bmem \<Rightarrow> imx_space \<times> (nat \<times> nat) set \<Rightarrow> bool" for os mem where
  reach_init: "imx_reach os mem (imx_space_init mem, {})"
| reach_step: "imx_reach os mem st \<Longrightarrow> imx_step os st st' \<Longrightarrow> imx_reach os mem st'"

text \<open>Headers of the right shape: the C arrays have their declared length.\<close>

definition headers_ok :: "bmem \<Rightarrow> bool" where
  "headers_ok mem \<longleftrightarrow> (\<forall>b. length (bk_line_marks (mem b)) = 32 \<and> length (bk_object_starts (mem b)) = 512)"

definition objects_disjoint :: "(nat \<times> nat) set \<Rightarrow> bool" where
  "objects_disjoint Os \<longleftrightarrow>
     (\<forall>(a, sz) \<in> Os. \<forall>(c, tz) \<in> Os. (a, sz) \<noteq> (c, tz) \<longrightarrow> {a..<a + sz} \<inter> {c..<c + tz} = {})"

definition cycle_inv :: "imx_space \<times> (nat \<times> nat) set \<Rightarrow> bool" where
  "cycle_inv st \<longleftrightarrow> (case st of (s, Os) \<Rightarrow>
     heap_ok s (bytes_of Os) \<and> resident s Os \<and> objects_disjoint Os)"

lemma space_init_inv: "headers_ok mem \<Longrightarrow> cycle_inv (imx_space_init mem, {})"
  by (simp add: cycle_inv_def heap_ok_def space_inv_def blocks_ok_def lists_ok_def small_ok_def medium_ok_def
      resident_def objects_disjoint_def bytes_of_def imx_space_init_def imx_block_pool_init_def headers_ok_def
      owned_def avail_def)

lemma allocate_ok:
  assumes "heap_ok s L" "os_ok os" "0 < sz"
  shows "alloc_ok sz 8 L (imx_space_allocate os sz 8 s)"
  using alloc_small_ok [OF assms(1-3), of 8] alloc_medium_ok [OF assms(1-3), of 8] assms(3)
  by (simp add: imx_space_allocate_def)

lemma resident_later:
  assumes ok: "heap_ok s L" "heap_ok s' L'" and res: "resident s Os" and sub: "bytes_of Os \<subseteq> L'"
  shows "resident s' Os"
  unfolding resident_def
proof (clarify)
  fix a sz assume ob: "(a, sz) \<in> Os"
  then obtain b where b: "0 < sz" "b \<in> set (sp_all s)" "{a..<a + sz} \<subseteq> block_bytes b"
    using res by (auto simp: resident_def)
  have "a \<in> bytes_of Os" using ob b(1) by (auto simp: bytes_of_def intro!: bexI [of _ "(a, sz)"])
  then have "a \<in> L'" using sub by blast
  then obtain c where c: "c \<in> set (sp_all s')" "a \<in> block_bytes c"
    using ok(2) by (auto simp: heap_ok_def owned_def)
  have "b mod 32768 = 0" "c mod 32768 = 0"
    using ok b(2) c(1) by (auto simp: heap_ok_def space_inv_def blocks_ok_def)
  moreover have "a \<in> block_bytes b" using b(1,3) by force
  ultimately have "b = c" using block_bytes_disjoint [of b c] c(2) by (metis disjoint_iff)
  then show "0 < sz \<and> (\<exists>b \<in> set (sp_all s'). {a..<a + sz} \<subseteq> block_bytes b)" using b c(1) by blast
qed

lemma step_inv:
  assumes os: "os_ok os" and step: "imx_step os st st'" and inv: "cycle_inv st"
  shows "cycle_inv st'"
  using step inv
proof (induction rule: imx_step.induct)
  case (step_alloc sz s p s' Os)
  let ?R = "{p..<p + sz}"
  have inv: "heap_ok s (bytes_of Os)" "resident s Os" "objects_disjoint Os"
    using step_alloc.prems by (auto simp: cycle_inv_def)
  have al: "heap_ok s' (bytes_of Os \<union> ?R)" "?R \<inter> bytes_of Os = {}" "\<exists>b \<in> set (sp_all s'). ?R \<subseteq> block_bytes b"
    using allocate_ok [OF inv(1) os step_alloc.hyps(1)] step_alloc.hyps(2) by (auto simp: alloc_ok_def)
  have "bytes_of (insert (p, sz) Os) = bytes_of Os \<union> ?R" by (auto simp: bytes_of_def)
  moreover have "resident s' (insert (p, sz) Os)"
    using resident_later [OF inv(1) al(1) inv(2)] al(3) step_alloc.hyps(1) by (auto simp: resident_def)
  moreover have "objects_disjoint (insert (p, sz) Os)"
    using inv(3) al(2) unfolding objects_disjoint_def bytes_of_def by fast
  ultimately show ?case using al(1) by (simp add: cycle_inv_def)
next
  case (step_null sz s s' Os)
  have inv: "heap_ok s (bytes_of Os)" "resident s Os" "objects_disjoint Os"
    using step_null.prems by (auto simp: cycle_inv_def)
  have "heap_ok s' (bytes_of Os)"
    using allocate_ok [OF inv(1) os step_null.hyps(1)] step_null.hyps(2) by (auto simp: alloc_ok_def)
  then show ?case using resident_later [OF inv(1) _ inv(2)] inv(3) by (simp add: cycle_inv_def)
next
  case (step_collect obs Os s s' n)
  have inv: "blocks_ok s" "resident s Os" "objects_disjoint Os"
    using step_collect.prems by (auto simp: cycle_inv_def heap_ok_def space_inv_def)
  note cl = clear_marks_ok [OF inv(1)]
  have res: "resident (imx_space_clear_marks s) (set obs)"
    using inv(2) step_collect.hyps(1) unfolding resident_def cl(2) by blast
  obtain s1 where s1: "mark_objects obs (imx_space_clear_marks s) = Some s1" "blocks_ok s1"
    "protected s1 ({} \<union> bytes_of (set obs))" "sp_all s1 = sp_all (imx_space_clear_marks s)"
    using mark_objects_ok [OF cl(1) _ res, of "{}"] by (auto simp: protected_def)
  then have s': "s' = s1" using step_collect.hyps(2) by simp
  have "heap_ok (imx_space_reclaim n s') (bytes_of (set obs))"
    using reclaim_heap_ok [OF s1(2) s1(3)] by (simp add: s')
  moreover have "resident (imx_space_reclaim n s') (set obs)"
    using res reclaim_result(2) [OF _ refl refl, of s1 n] s1(2,4) by (simp add: resident_def s' blocks_ok_def)
  moreover have "objects_disjoint (set obs)"
    using inv(3) step_collect.hyps(1) unfolding objects_disjoint_def by blast
  ultimately show ?case by (simp add: cycle_inv_def)
qed

lemma reach_inv: "imx_reach os mem st \<Longrightarrow> os_ok os \<Longrightarrow> headers_ok mem \<Longrightarrow> cycle_inv st"
  by (induction rule: imx_reach.induct) (auto intro: space_init_inv step_inv)

section \<open>The properties\<close>

text \<open>
  C3. In every state reached from the initial space by allocations and collections, in any order
  and with any set of survivors, the objects in use are pairwise disjoint and each lies in the
  data area of one block.
\<close>

theorem objects_never_overlap:
  assumes "os_ok os" "headers_ok mem" "imx_reach os mem (s, Os)"
  shows "(\<forall>(a, sz) \<in> Os. \<forall>(c, tz) \<in> Os. (a, sz) \<noteq> (c, tz) \<longrightarrow> {a..<a + sz} \<inter> {c..<c + tz} = {}) \<and>
    (\<forall>(a, sz) \<in> Os. \<exists>b \<in> set (sp_all s). imx_block_data_start b \<le> a \<and> a + sz \<le> imx_block_data_end b)"
proof -
  have inv: "resident s Os" "objects_disjoint Os"
    using reach_inv [OF assms(3,1,2)] by (auto simp: cycle_inv_def)
  have "\<exists>b \<in> set (sp_all s). imx_block_data_start b \<le> a \<and> a + sz \<le> imx_block_data_end b" if ob: "(a, sz) \<in> Os" for a sz
  proof -
    obtain b where b: "0 < sz" "b \<in> set (sp_all s)" "{a..<a + sz} \<subseteq> block_bytes b"
      using inv(1) ob by (auto simp: resident_def)
    have "a \<in> block_bytes b" "a + sz - 1 \<in> block_bytes b" using b(1,3) by auto
    then show ?thesis using b(1,2) by (intro bexI [of _ b]) (auto simp: block_bytes_def)
  qed
  then show ?thesis using inv(2) unfolding objects_disjoint_def by blast
qed

text \<open>
  C25. Nothing gets stuck: in every reachable state an allocation returns, with an address or null,
  and the marks of any survivors can be set without a failed assertion.
\<close>

theorem space_progress:
  assumes "os_ok os" "headers_ok mem" "imx_reach os mem (s, Os)"
    and "0 < sz" "set obs \<subseteq> Os"
  shows "(\<exists>r s'. imx_space_allocate os sz IMX_OBJECT_ALIGN s = Some (r, s')) \<and>
    (\<exists>s'. mark_objects obs (imx_space_clear_marks s) = Some s')"
proof
  have inv: "heap_ok s (bytes_of Os)" "blocks_ok s" "resident s Os"
    using reach_inv [OF assms(3,1,2)] by (auto simp: cycle_inv_def heap_ok_def space_inv_def)
  show "\<exists>r s'. imx_space_allocate os sz IMX_OBJECT_ALIGN s = Some (r, s')"
    using allocate_ok [OF inv(1) assms(1,4)] by (auto simp: alloc_ok_def)
  note cl = clear_marks_ok [OF inv(2)]
  have "resident (imx_space_clear_marks s) (set obs)"
    using inv(3) assms(5) unfolding resident_def cl(2) by blast
  from mark_objects_ok [OF cl(1) _ this, of "{}"]
  show "\<exists>s'. mark_objects obs (imx_space_clear_marks s) = Some s'" by (auto simp: protected_def)
qed

text \<open>
  The sweep loses no block: after a reclamation every block is in exactly one of the free,
  reserve, recyclable and unavailable lists, and the reserve holds the requested headroom when
  there are that many free blocks.
\<close>

theorem reclaim_partition:
  assumes "distinct (sp_all s)"
  shows "mset (sp_all (imx_space_reclaim n s)) =
      mset (sp_free (imx_space_reclaim n s)) + mset (sp_evac_reserve (imx_space_reclaim n s)) +
      mset (sp_recyclable (imx_space_reclaim n s)) + mset (sp_unavailable (imx_space_reclaim n s)) \<and>
    length (sp_evac_reserve (imx_space_reclaim n s)) =
      min n (length (filter (in_state s IMX_BLOCK_FREE) (sp_all s)))"
proof -
  let ?f = "\<lambda>st. filter (in_state s st) (sp_all s)"
  note rr = reclaim_result [OF assms refl refl, of n]
  have "mset (take k xs) + mset (rev (drop k xs)) = mset xs" for k and xs :: "nat list"
    by (metis append_take_drop_id mset_append mset_rev)
  moreover have "mset (sp_all s) = mset (?f IMX_BLOCK_FREE) + mset (?f IMX_BLOCK_RECYCLABLE) + mset (?f IMX_BLOCK_UNAVAILABLE)"
  proof (rule multiset_eqI)
    fix b
    show "count (mset (sp_all s)) b =
        count (mset (?f IMX_BLOCK_FREE) + mset (?f IMX_BLOCK_RECYCLABLE) + mset (?f IMX_BLOCK_UNAVAILABLE)) b"
      by (cases "bk_state (imx_block_classify (sp_mem s b))") (simp_all add: in_state_def mset_filter)
  qed
  ultimately show ?thesis unfolding rr by (simp add: min_def)
qed

text \<open>
  The check for a leak is exact: after a reclamation the space reports that everything was
  reclaimed if and only if no data line of any block is marked.
\<close>

theorem all_reclaimed_exact:
  assumes "distinct (sp_all s)"
  shows "imx_space_all_reclaimed (imx_space_reclaim n s) \<longleftrightarrow>
    (\<forall>b \<in> set (sp_all s). \<forall>l \<in> {IMX_DATA_START_LINE..<IMX_LINES_PER_BLOCK}. \<not> imx_lb_test (bk_line_marks (sp_mem s b)) l)"
proof -
  let ?f = "\<lambda>st. filter (in_state s st) (sp_all s)"
  note rr = reclaim_result [OF assms refl refl, of n]
  have "imx_space_all_reclaimed (imx_space_reclaim n s) \<longleftrightarrow>
      ?f IMX_BLOCK_RECYCLABLE = [] \<and> ?f IMX_BLOCK_UNAVAILABLE = [] \<and> length (?f IMX_BLOCK_FREE) = length (sp_all s)"
    by (simp add: imx_space_all_reclaimed_def imx_space_empty_blocks_def imx_space_total_blocks_def rr)
  also have "\<dots> \<longleftrightarrow> (\<forall>b \<in> set (sp_all s). in_state s IMX_BLOCK_FREE b)"
  proof
    assume "?f IMX_BLOCK_RECYCLABLE = [] \<and> ?f IMX_BLOCK_UNAVAILABLE = [] \<and> length (?f IMX_BLOCK_FREE) = length (sp_all s)"
    then show "\<forall>b \<in> set (sp_all s). in_state s IMX_BLOCK_FREE b"
      using imx_state.exhaust by (auto simp: filter_empty_conv in_state_def)
  qed (simp add: filter_empty_conv in_state_def)
  also have "\<dots> \<longleftrightarrow> (\<forall>b \<in> set (sp_all s). lines.elems (bk_line_marks (sp_mem s b)) \<inter> {5..} = {})"
    by (intro ball_cong) (auto simp: in_state_def classify_state)
  also have "\<dots> \<longleftrightarrow> (\<forall>b \<in> set (sp_all s). \<forall>l \<in> {5..<256}. \<not> imx_lb_test (bk_line_marks (sp_mem s b)) l)"
    unfolding lines.elems_def disjoint_iff by (intro ball_cong) auto
  finally show ?thesis by simp
qed

subsection \<open>Witnesses\<close>

text \<open>An operating system that always has a block beyond all the others, and a first allocation.\<close>

definition some_os :: os_alloc where
  "some_os p = Some (32768 * (sum_list (pl_allocated p) + 1))"

lemma some_os_ok: "os_ok some_os"
proof -
  have "32768 * (sum_list xs + 1) \<noteq> b" if "b \<in> set xs" for b and xs :: "nat list"
  proof -
    have "b \<le> sum_list xs" using that by (rule member_le_sum_list) simp
    moreover have "sum_list xs < 32768 * (sum_list xs + 1)" by simp
    ultimately show ?thesis by simp
  qed
  then show ?thesis by (auto simp: os_ok_def some_os_def)
qed

abbreviation blank_mem :: bmem where "blank_mem \<equiv> (\<lambda>_. blank_block)"

lemma blank_mem_ok: "headers_ok blank_mem"
  by (simp add: headers_ok_def blank_block_def)

lemma blank_hole: "imx_block_next_hole (imx_block_init blank_block) 5 = Some (5, 256)"
proof -
  let ?m = "bk_line_marks (imx_block_init blank_block)"
  have "lines.elems ?m = {}"
    using lines.elems_clear [of "bk_line_marks blank_block"] by (simp add: imx_block_init_def blank_block_def)
  then have u: "usable ?m 256 = {..<256}" and t: "\<not> imx_lb_test ?m l" if "l < 256" for l
    using blank_usable that by (auto simp: lines.elems_def)
  have hr: "hole_result ?m 5 256 (imx_lb_next_hole ?m 5 256)" by (rule next_hole_result)
  show ?thesis
  proof (cases "imx_lb_next_hole ?m 5 256")
    case None
    then have "{..<256} \<inter> {5 :: nat..} = {}" using hr u [of 0] by (simp add: hole_result_def)
    moreover have "(5 :: nat) \<in> {..<256} \<inter> {5..}" by simp
    ultimately show ?thesis by blast
  next
    case (Some ab)
    obtain a b where ab: "ab = (a, b)" by (rule prod.exhaust)
    have r: "5 \<le> a" "a < b" "b \<le> 256" "{..<256} \<inter> {5..<a} = {}" "b < 256 \<longrightarrow> imx_lb_test ?m b"
      using hr Some u [of 0] by (auto simp: hole_result_def ab)
    have "a = 5"
    proof (rule ccontr)
      assume "a \<noteq> 5"
      then have "5 \<in> {..<256} \<inter> {5..<a}" using r(1) by auto
      then show False using r(4) by blast
    qed
    moreover have "b = 256" using r(3,5) t [of b] by (cases "b < 256") auto
    ultimately show ?thesis using Some by (simp add: imx_block_next_hole_def ab)
  qed
qed

lemma first_alloc:
  "\<exists>s'. imx_space_allocate some_os 24 IMX_OBJECT_ALIGN (imx_space_init blank_mem) = Some (Some 33408, s')"
proof -
  let ?s = "imx_space_init blank_mem"
  define p where "p = imx_block_pool_init\<lparr>pl_total_acquired := 1, pl_allocated := [32768], pl_total_os_allocs := 1\<rparr>"
  define s1 where "s1 = ?s\<lparr>sp_mem := blank_mem(32768 := imx_block_init blank_block), sp_pool := p, sp_all := [32768]\<rparr>"
  have "next_block some_os ?s = (Some 32768, s1)"
    by (simp add: next_block_def take_recyclable_block_def take_free_block_def imx_space_init_def
        imx_block_pool_acquire_def imx_block_pool_init_def some_os_def s1_def p_def Let_def)
  then have rl: "refill_loop some_os ?s =
      Some (True, set_hole 32768 5 256 (s1\<lparr>sp_small_block := 32768, sp_small_next_line := 5\<rparr>))"
    by (subst refill_loop.simps) (simp add: Let_def s1_def blank_hole)
  define s2 where "s2 = set_hole 32768 5 256 (s1\<lparr>sp_small_block := 32768, sp_small_next_line := 5\<rparr>)"
  have rs: "refill_small some_os ?s = Some (True, s2)"
    using rl by (simp add: refill_small_def imx_space_init_def s2_def)
  have bump: "bump_small 24 8 s2 = Some (33408, s2\<lparr>sp_small_cursor := 33432\<rparr>)"
    by (simp add: bump_small_def s2_def set_hole_def imx_block_line_addr_def align_up_def Let_def)
  have blk: "sp_small_block (s2\<lparr>sp_small_cursor := 33432\<rparr>) = 32768"
    by (simp add: s2_def set_hole_def)
  have "alloc_small some_os 24 8 ?s = record_at 32768 33408 (s2\<lparr>sp_small_cursor := 33432\<rparr>)"
    unfolding alloc_small_def rs bind.bind_lunit prod.case bump option.case blk
    by (simp add: imx_space_init_def)
  then show ?thesis
    by (simp add: imx_space_allocate_def record_at_def imx_block_record_allocation_def imx_block_owns_def imx_block_of_def)
qed

lemma reach_one: "\<exists>s. imx_reach some_os blank_mem (s, {(33408, 24)})"
proof -
  obtain s' where "imx_space_allocate some_os 24 IMX_OBJECT_ALIGN (imx_space_init blank_mem) = Some (Some 33408, s')"
    using first_alloc by blast
  then have "imx_step some_os (imx_space_init blank_mem, {}) (s', {(33408, 24)})"
    by (intro step_alloc) simp_all
  then show ?thesis using reach_step [OF reach_init] by blast
qed

theorem objects_never_overlap_witness:
  "\<exists>s. imx_reach some_os blank_mem (s, {(33408, 24)}) \<and>
     (\<exists>b \<in> set (sp_all s). imx_block_data_start b \<le> 33408 \<and> 33432 \<le> imx_block_data_end b)"
proof -
  obtain s where s: "imx_reach some_os blank_mem (s, {(33408, 24)})" using reach_one by blast
  from objects_never_overlap [OF some_os_ok blank_mem_ok this] show ?thesis using s by auto
qed

theorem space_progress_witness:
  "\<exists>s s'. imx_reach some_os blank_mem (s, {(33408, 24)}) \<and>
     mark_objects [(33408, 24)] (imx_space_clear_marks s) = Some s'"
proof -
  obtain s where s: "imx_reach some_os blank_mem (s, {(33408, 24)})" using reach_one by blast
  have "\<exists>s'. mark_objects [(33408, 24)] (imx_space_clear_marks s) = Some s'"
    using space_progress [OF some_os_ok blank_mem_ok s, of 1 "[(33408, 24)]"] by simp
  then show ?thesis using s by blast
qed

theorem reclaim_partition_witness:
  "mset (sp_all (imx_space_reclaim 1 (imx_space_init blank_mem))) = {#}"
  using reclaim_partition [of "imx_space_init blank_mem" 1]
  by (simp add: imx_space_init_def imx_space_reclaim_def)

theorem all_reclaimed_exact_witness:
  "imx_space_all_reclaimed (imx_space_reclaim 1 ((imx_space_init blank_mem)\<lparr>sp_all := [32768, 65536]\<rparr>))"
proof -
  have "\<not> imx_lb_test (bk_line_marks blank_block) l" if "l < 256" for l
    using that by (simp add: imx_lb_test_def blank_block_def)
  then show ?thesis
    using all_reclaimed_exact [of "(imx_space_init blank_mem)\<lparr>sp_all := [32768, 65536]\<rparr>" 1]
    by (simp add: imx_space_init_def)
qed

end
