(* ===== verification/ImxEvac.thy ===== *)
theory ImxEvac
  imports ImxSpace
begin

text \<open>
  Opportunistic evacuation, the second half of \<open>wasm/src/immix/immix_space.c\<close>: the choice of the
  blocks to evacuate from the statistics of the last sweep, the target blocks, and the bump
  allocator inside them.
\<close>

section \<open>Candidate selection\<close>

definition IMX_HOLE_BINS :: nat where
  "IMX_HOLE_BINS = IMX_DATA_LINES div 2 + 2"

text \<open>The histogram bin of a block, and whether the block is fragmented at all.\<close>

definition hole_bin :: "imx_block \<Rightarrow> nat" where
  "hole_bin b = (if unat (bk_defrag_holes b) < IMX_HOLE_BINS then unat (bk_defrag_holes b) else IMX_HOLE_BINS - 1)"

definition fragmented :: "imx_block \<Rightarrow> bool" where
  "fragmented b \<longleftrightarrow> \<not> (bk_defrag_marked b = 0 \<or> IMX_DATA_LINES \<le> unat (bk_defrag_marked b)) \<and>
     bk_defrag_holes b \<noteq> 0"

text \<open>The first loop: reset the flag of every block, collect the fragmented ones and the highest bin.\<close>

fun collect_fragmented :: "nat list \<Rightarrow> bmem \<Rightarrow> nat list \<Rightarrow> nat \<Rightarrow> bmem \<times> nat list \<times> nat" where
  "collect_fragmented [] mem scratch maxbin = (mem, scratch, maxbin)"
| "collect_fragmented (b # bs) mem scratch maxbin =
     (let mem = mem(b := (mem b)\<lparr>bk_defrag_candidate := False\<rparr>) in
      if fragmented (mem b) then
        collect_fragmented bs mem (scratch @ [b]) (if maxbin < hole_bin (mem b) then hole_bin (mem b) else maxbin)
      else collect_fragmented bs mem scratch maxbin)"

text \<open>The cheapest block of the bin that is not selected yet, the first one among equals.\<close>

fun pick_best :: "nat \<Rightarrow> bmem \<Rightarrow> nat list \<Rightarrow> nat option \<Rightarrow> nat option" where
  "pick_best bin mem [] best = best"
| "pick_best bin mem (b # bs) best =
     (if bk_defrag_candidate (mem b) \<or> hole_bin (mem b) \<noteq> bin then pick_best bin mem bs best
      else
        (case best of
           None \<Rightarrow> pick_best bin mem bs (Some b)
         | Some c \<Rightarrow>
             pick_best bin mem bs (if bk_defrag_marked (mem b) < bk_defrag_marked (mem c) then Some b else Some c)))"

lemma pick_best_in:
  "pick_best bin mem bs best = Some b \<Longrightarrow>
     best = Some b \<or> b \<in> set bs \<and> \<not> bk_defrag_candidate (mem b) \<and> hole_bin (mem b) = bin"
  by (induction bin mem bs best rule: pick_best.induct) (auto split: if_splits option.splits)

text \<open>The inner loop of one bin, from \<open>required\<close> marked lines selected so far.\<close>

function select_bin :: "nat \<Rightarrow> nat \<Rightarrow> nat list \<Rightarrow> bmem \<times> nat \<Rightarrow> bmem \<times> nat" where
  "select_bin bin avail_lines scratch (mem, required) =
     (case pick_best bin mem scratch None of
        None \<Rightarrow> (mem, required)
      | Some b \<Rightarrow>
          if avail_lines < required + unat (bk_defrag_marked (mem b)) then (mem, required)
          else select_bin bin avail_lines scratch
                 (mem(b := (mem b)\<lparr>bk_defrag_candidate := True\<rparr>), required + unat (bk_defrag_marked (mem b))))"
  by pat_completeness auto
termination
proof (relation "measure (\<lambda>(bin, av, scratch, mem, rq). card {b \<in> set scratch. \<not> bk_defrag_candidate (mem b)})", simp)
  fix bin av scratch mem rq b
  assume "pick_best bin mem scratch None = Some b"
  then have b: "b \<in> set scratch" "\<not> bk_defrag_candidate (mem b)" using pick_best_in by fastforce+
  let ?mem = "mem(b := (mem b)\<lparr>bk_defrag_candidate := True\<rparr>)"
  have "{c \<in> set scratch. \<not> bk_defrag_candidate (?mem c)} \<subset> {c \<in> set scratch. \<not> bk_defrag_candidate (mem c)}"
    using b by (auto simp: psubset_eq)
  then have "card {c \<in> set scratch. \<not> bk_defrag_candidate (?mem c)} <
      card {c \<in> set scratch. \<not> bk_defrag_candidate (mem c)}"
    by (rule psubset_card_mono [rotated]) simp
  then show "((bin, av, scratch, ?mem, rq + unat (bk_defrag_marked (mem b))), bin, av, scratch, mem, rq)
      \<in> measure (\<lambda>(bin, av, scratch, mem, rq). card {b \<in> set scratch. \<not> bk_defrag_candidate (mem b)})"
    by simp
qed

declare select_bin.simps [simp del]

definition select_candidates :: "nat \<Rightarrow> imx_space \<Rightarrow> imx_space" where
  "select_candidates ntargets s =
     (let (mem, scratch, maxbin) = collect_fragmented (sp_all s) (sp_mem s) [] 0;
          avail_lines = ntargets * IMX_DATA_LINES;
          (mem, required) = foldl (\<lambda>st bin. select_bin bin avail_lines scratch st) (mem, 0) (rev [1..<maxbin + 1])
      in s\<lparr>sp_mem := mem, sp_defrag_scratch := scratch\<rparr>)"

section \<open>Targets\<close>

fun take_reserve :: "nat \<Rightarrow> imx_space \<Rightarrow> imx_space" where
  "take_reserve 0 s = s"
| "take_reserve (Suc n) s =
     (if sp_evac_reserve s = [] then s
      else take_reserve n (s\<lparr>sp_evacuation_targets := sp_evacuation_targets s @ [last (sp_evac_reserve s)],
                            sp_evac_reserve := butlast (sp_evac_reserve s)\<rparr>))"

definition imx_space_begin_evacuation :: "nat \<Rightarrow> imx_space \<Rightarrow> imx_space" where
  "imx_space_begin_evacuation max_target_blocks s =
     (let s = take_reserve max_target_blocks (s\<lparr>sp_evacuation_targets := []\<rparr>);
          s = s\<lparr>sp_evac_from_reserve := length (sp_evacuation_targets s)\<rparr>;
          s = s\<lparr>sp_evacuation_targets := sp_evacuation_targets s @ rev (sp_free s), sp_free := []\<rparr>;
          ntargets = length (sp_evacuation_targets s);
          s = (if ntargets \<noteq> 0 then select_candidates ntargets s else s);
          ncand = (if ntargets \<noteq> 0
                   then length (filter (\<lambda>b. bk_defrag_candidate (sp_mem s b)) (sp_defrag_scratch s)) else 0);
          s = s\<lparr>sp_evacuation_active := 0 < ntargets \<and> 0 < ncand, sp_evac_target_idx := 0\<rparr>
      in if sp_evacuation_active s then
           let b = sp_evacuation_targets s ! 0 in
           s\<lparr>sp_evac_cursor := imx_block_data_start b, sp_evac_limit := imx_block_data_end b\<rparr>
         else s\<lparr>sp_evac_cursor := 0, sp_evac_limit := 0\<rparr>)"

definition imx_space_is_evacuation_candidate :: "imx_space \<Rightarrow> nat \<Rightarrow> bool" where
  "imx_space_is_evacuation_candidate s b \<longleftrightarrow>
     sp_evacuation_active s \<and> bk_defrag_candidate (sp_mem s b)"

text \<open>The allocation loop: bump in the current target, or move on to the next one.\<close>

function evac_loop :: "nat \<Rightarrow> nat \<Rightarrow> imx_space \<Rightarrow> (nat option \<times> imx_space) option" where
  "evac_loop sz alignment s =
     (let p = align_up (sp_evac_cursor s) alignment in
      if sp_evac_cursor s \<noteq> 0 \<and> p + sz \<le> sp_evac_limit s then
        record_at (imx_block_of p) p (s\<lparr>sp_evac_cursor := p + sz\<rparr>)
      else
        let s = s\<lparr>sp_evac_target_idx := sp_evac_target_idx s + 1\<rparr> in
        if length (sp_evacuation_targets s) \<le> sp_evac_target_idx s then Some (None, s)
        else
          let b = sp_evacuation_targets s ! sp_evac_target_idx s in
          evac_loop sz alignment
            (s\<lparr>sp_evac_cursor := imx_block_data_start b, sp_evac_limit := imx_block_data_end b\<rparr>))"
  by pat_completeness auto
termination
  by (relation "measure (\<lambda>(sz, al, s). length (sp_evacuation_targets s) - sp_evac_target_idx s)") auto

declare evac_loop.simps [simp del]

definition imx_space_allocate_evacuation :: "nat \<Rightarrow> nat \<Rightarrow> imx_space \<Rightarrow> (nat option \<times> imx_space) option" where
  "imx_space_allocate_evacuation sz alignment s =
     (if \<not> sp_evacuation_active s then Some (None, s) else evac_loop sz alignment s)"

definition imx_space_end_evacuation :: "imx_space \<Rightarrow> imx_space" where
  "imx_space_end_evacuation s =
     s\<lparr>sp_evac_reserve := sp_evac_reserve s @ take (sp_evac_from_reserve s) (sp_evacuation_targets s),
       sp_free := sp_free s @ drop (sp_evac_from_reserve s) (sp_evacuation_targets s),
       sp_evac_from_reserve := 0, sp_evacuation_targets := [], sp_evac_cursor := 0, sp_evac_limit := 0,
       sp_evac_target_idx := 0, sp_evacuation_active := False\<rparr>"

end
