(* ===== verification/ImxEvacRules.thy ===== *)
theory ImxEvacRules
  imports ImxCycle ImxEvac
begin

text \<open>
  Evacuation: the selected blocks fit the targets and no further fragmented block would; copies lie
  in target blocks, never overlap each other or a live object, and never lie in a block that is
  being evacuated; ending an evacuation returns every target.
\<close>

section \<open>Selection\<close>

lemma collect_fragmented_spec:
  "collect_fragmented bs mem scratch mb =
     (\<lambda>b. if b \<in> set bs then (mem b)\<lparr>bk_defrag_candidate := False\<rparr> else mem b,
      scratch @ filter (\<lambda>b. fragmented (mem b)) bs,
      foldl max mb (map (\<lambda>b. hole_bin (mem b)) (filter (\<lambda>b. fragmented (mem b)) bs)))"
proof (induction bs arbitrary: mem scratch mb)
  case Nil
  then show ?case by simp
next
  case (Cons b bs)
  let ?mem = "mem(b := (mem b)\<lparr>bk_defrag_candidate := False\<rparr>)"
  have eq: "fragmented (?mem c) = fragmented (mem c)" "hole_bin (?mem c) = hole_bin (mem c)" for c
    by (simp_all add: fragmented_def hole_bin_def)
  have flags: "(\<lambda>c. if c \<in> set bs then (?mem c)\<lparr>bk_defrag_candidate := False\<rparr> else ?mem c) =
      (\<lambda>c. if c \<in> set (b # bs) then (mem c)\<lparr>bk_defrag_candidate := False\<rparr> else mem c)"
    by (auto simp: fun_eq_iff)
  have mx: "(if x < y then y else x) = max x y" for x y :: nat by simp
  show ?case
    using Cons.IH [of ?mem] flags by (simp add: Let_def eq mx del: fun_upd_apply)
qed

lemma foldl_max_start: "(m :: nat) \<le> foldl max m xs"
proof (induction xs arbitrary: m)
  case (Cons x xs)
  show ?case using Cons.IH [of "max m x"] by simp
qed simp

lemma foldl_max_in: "x \<in> set xs \<Longrightarrow> x \<le> foldl max (m :: nat) xs"
proof (induction xs arbitrary: m)
  case (Cons y xs)
  show ?case
  proof (cases "x = y")
    case True
    then show ?thesis using foldl_max_start [of "max m x" xs] by simp
  next
    case False
    then show ?thesis using Cons by simp
  qed
qed simp

text \<open>The headers \<open>mem\<close> with the blocks of \<open>F\<close> selected.\<close>

definition flag :: "bmem \<Rightarrow> nat set \<Rightarrow> bmem" where
  "flag mem F = (\<lambda>b. if b \<in> F then (mem b)\<lparr>bk_defrag_candidate := True\<rparr> else mem b)"

lemma flag_sel [simp]:
  "bk_defrag_marked (flag mem F b) = bk_defrag_marked (mem b)"
  "hole_bin (flag mem F b) = hole_bin (mem b)"
  "bk_defrag_candidate (flag mem F b) \<longleftrightarrow> b \<in> F \<or> bk_defrag_candidate (mem b)"
  by (simp_all add: flag_def hole_bin_def)

lemma flag_insert: "(flag mem F)(b := (flag mem F b)\<lparr>bk_defrag_candidate := True\<rparr>) = flag mem (insert b F)"
  by (auto simp: flag_def fun_eq_iff)

definition marked :: "bmem \<Rightarrow> nat \<Rightarrow> nat" where
  "marked mem b = unat (bk_defrag_marked (mem b))"

lemma pick_best_some: "pick_best bin mem bs (Some d) \<noteq> None"
  by (induction bs arbitrary: d) simp_all

lemma pick_best_none:
  "pick_best bin mem bs None = None \<Longrightarrow> \<forall>b \<in> set bs. bk_defrag_candidate (mem b) \<or> hole_bin (mem b) \<noteq> bin"
  by (induction bs) (auto simp: pick_best_some split: if_splits)

lemma pick_best_least:
  "pick_best bin mem bs best = Some b \<Longrightarrow>
     (\<forall>d. best = Some d \<longrightarrow> marked mem b \<le> marked mem d) \<and>
     (\<forall>c \<in> set bs. \<not> bk_defrag_candidate (mem c) \<longrightarrow> hole_bin (mem c) = bin \<longrightarrow> marked mem b \<le> marked mem c)"
proof (induction bin mem bs best rule: pick_best.induct)
  case (2 bin mem c bs best)
  show ?case
  proof (cases "bk_defrag_candidate (mem c) \<or> hole_bin (mem c) \<noteq> bin")
    case True
    then show ?thesis using 2 by auto
  next
    case new: False
    show ?thesis
    proof (cases best)
      case None
      then show ?thesis using 2(2) [OF new] 2(4) new by auto
    next
      case (Some d)
      then show ?thesis using 2(3) [OF new Some] 2(4) new
        by (cases "bk_defrag_marked (mem c) < bk_defrag_marked (mem d)")
          (auto simp: marked_def word_less_nat_alt)
    qed
  qed
qed simp

definition selected :: "bmem \<Rightarrow> nat list \<Rightarrow> nat \<Rightarrow> nat set \<Rightarrow> nat \<Rightarrow> bool" where
  "selected mem scratch avail_lines F rq \<longleftrightarrow>
     F \<subseteq> set scratch \<and> rq = (\<Sum>b \<in> F. marked mem b) \<and> rq \<le> avail_lines"

definition full_up :: "bmem \<Rightarrow> nat list \<Rightarrow> nat \<Rightarrow> nat set \<Rightarrow> nat \<Rightarrow> nat \<Rightarrow> bool" where
  "full_up mem scratch avail_lines F rq bin \<longleftrightarrow>
     (\<forall>b \<in> set scratch - F. hole_bin (mem b) = bin \<longrightarrow> avail_lines < rq + marked mem b)"

lemma select_bin_spec:
  assumes "\<forall>b \<in> set scratch. \<not> bk_defrag_candidate (mem b)" "selected mem scratch av F rq"
  shows "\<exists>F' rq'. select_bin bin av scratch (flag mem F, rq) = (flag mem F', rq') \<and> F \<subseteq> F' \<and> rq \<le> rq' \<and>
    selected mem scratch av F' rq' \<and> full_up mem scratch av F' rq' bin"
  using assms(2)
proof (induction "card (set scratch - F)" arbitrary: F rq rule: less_induct)
  case less
  note sel = less.prems [unfolded selected_def]
  show ?case
  proof (cases "pick_best bin (flag mem F) scratch None")
    case None
    then have "full_up mem scratch av F rq bin"
      using pick_best_none [OF None] assms(1) by (auto simp: full_up_def)
    moreover have "select_bin bin av scratch (flag mem F, rq) = (flag mem F, rq)"
      by (subst select_bin.simps) (simp add: None)
    ultimately show ?thesis using less.prems by blast
  next
    case (Some b)
    have b: "b \<in> set scratch" "b \<notin> F" "hole_bin (mem b) = bin"
      using pick_best_in [OF Some] assms(1) by auto
    have mk: "marked (flag mem F) c = marked mem c" for c by (simp add: marked_def)
    show ?thesis
    proof (cases "av < rq + marked mem b")
      case True
      have "full_up mem scratch av F rq bin"
        unfolding full_up_def
      proof (intro ballI impI)
        fix c assume "c \<in> set scratch - F" "hole_bin (mem c) = bin"
        then have "marked mem b \<le> marked mem c"
          using pick_best_least [OF Some] assms(1) by (simp add: mk)
        then show "av < rq + marked mem c" using True by simp
      qed
      moreover have "select_bin bin av scratch (flag mem F, rq) = (flag mem F, rq)"
        using True by (subst select_bin.simps) (simp add: Some marked_def)
      ultimately show ?thesis using less.prems by blast
    next
      case False
      have fin: "finite F" using sel finite_subset by blast
      have "selected mem scratch av (insert b F) (rq + marked mem b)"
        using sel b False fin by (simp add: selected_def)
      moreover have "card (set scratch - insert b F) < card (set scratch - F)"
        using b by (intro psubset_card_mono) auto
      ultimately obtain F' rq' where ih:
        "select_bin bin av scratch (flag mem (insert b F), rq + marked mem b) = (flag mem F', rq')"
        "insert b F \<subseteq> F'" "rq + marked mem b \<le> rq'" "selected mem scratch av F' rq'" "full_up mem scratch av F' rq' bin"
        using less.hyps [of "insert b F" "rq + marked mem b"] by blast
      have "select_bin bin av scratch (flag mem F, rq) = (flag mem F', rq')"
        using False ih(1) by (subst select_bin.simps) (simp add: Some marked_def flag_insert del: fun_upd_apply)
      then show ?thesis using ih by (intro exI [of _ F'] exI [of _ rq']) auto
    qed
  qed
qed

lemma full_up_mono:
  "full_up mem scratch av F rq bin \<Longrightarrow> F \<subseteq> F' \<Longrightarrow> rq \<le> rq' \<Longrightarrow> full_up mem scratch av F' rq' bin"
  unfolding full_up_def by (meson DiffD1 DiffD2 DiffI add_le_mono1 order_less_le_trans subsetD)

lemma select_bins_spec:
  assumes "\<forall>b \<in> set scratch. \<not> bk_defrag_candidate (mem b)" "selected mem scratch av F rq"
  shows "\<exists>F' rq'. foldl (\<lambda>st bin. select_bin bin av scratch st) (flag mem F, rq) bins = (flag mem F', rq') \<and>
    F \<subseteq> F' \<and> rq \<le> rq' \<and> selected mem scratch av F' rq' \<and> (\<forall>bin \<in> set bins. full_up mem scratch av F' rq' bin)"
  using assms(2)
proof (induction bins arbitrary: F rq)
  case Nil
  then show ?case by auto
next
  case (Cons bin bins)
  obtain F1 r1 where 1: "select_bin bin av scratch (flag mem F, rq) = (flag mem F1, r1)" "F \<subseteq> F1" "rq \<le> r1"
    "selected mem scratch av F1 r1" "full_up mem scratch av F1 r1 bin"
    using select_bin_spec [OF assms(1) Cons.prems, of bin] by blast
  obtain F2 r2 where 2: "foldl (\<lambda>st bin. select_bin bin av scratch st) (flag mem F1, r1) bins = (flag mem F2, r2)"
    "F1 \<subseteq> F2" "r1 \<le> r2" "selected mem scratch av F2 r2" "\<forall>bin \<in> set bins. full_up mem scratch av F2 r2 bin"
    using Cons.IH [OF 1(4)] by blast
  have "full_up mem scratch av F2 r2 bin" using full_up_mono [OF 1(5) 2(2,3)] .
  then show ?case using 1 2 by (intro exI [of _ F2] exI [of _ r2]) auto
qed

lemma fragmented_bin: "fragmented b \<Longrightarrow> 1 \<le> hole_bin b"
  by (auto simp: fragmented_def hole_bin_def IMX_HOLE_BINS_def unat_gt_0 Suc_le_eq)

lemma select_candidates_spec:
  obtains F where "F \<subseteq> {b \<in> set (sp_all s). fragmented (sp_mem s b)}"
    "(\<Sum>b \<in> F. marked (sp_mem s) b) \<le> n * 251"
    "\<forall>b \<in> set (sp_all s) - F. fragmented (sp_mem s b) \<longrightarrow> n * 251 < (\<Sum>b \<in> F. marked (sp_mem s) b) + marked (sp_mem s) b"
    "select_candidates n s = s\<lparr>sp_mem := flag (\<lambda>b. if b \<in> set (sp_all s) then (sp_mem s b)\<lparr>bk_defrag_candidate := False\<rparr> else sp_mem s b) F,
       sp_defrag_scratch := filter (\<lambda>b. fragmented (sp_mem s b)) (sp_all s)\<rparr>"
proof -
  define mem where "mem = (\<lambda>b. if b \<in> set (sp_all s) then (sp_mem s b)\<lparr>bk_defrag_candidate := False\<rparr> else sp_mem s b)"
  define scratch where "scratch = filter (\<lambda>b. fragmented (sp_mem s b)) (sp_all s)"
  define maxbin where "maxbin = foldl max 0 (map (\<lambda>b. hole_bin (sp_mem s b)) scratch)"
  have mk: "marked mem b = marked (sp_mem s) b" "hole_bin (mem b) = hole_bin (sp_mem s b)" for b
    by (simp_all add: mem_def marked_def hole_bin_def)
  have fl0: "flag mem {} = mem" by (simp add: flag_def)
  have clean: "\<forall>b \<in> set scratch. \<not> bk_defrag_candidate (mem b)" by (auto simp: scratch_def mem_def)
  have "selected mem scratch (n * 251) {} 0" by (simp add: selected_def)
  from select_bins_spec [OF clean this, of "rev [1..<maxbin + 1]"]
  obtain F rq where F: "foldl (\<lambda>st bin. select_bin bin (n * 251) scratch st) (mem, 0) (rev [1..<maxbin + 1]) = (flag mem F, rq)"
    "selected mem scratch (n * 251) F rq" "\<forall>bin \<in> {1..<maxbin + 1}. full_up mem scratch (n * 251) F rq bin"
    unfolding fl0 set_rev set_upt by blast
  have cf: "collect_fragmented (sp_all s) (sp_mem s) [] 0 = (mem, scratch, maxbin)"
    by (simp add: collect_fragmented_spec mem_def scratch_def maxbin_def)
  have sc: "select_candidates n s = s\<lparr>sp_mem := flag mem F, sp_defrag_scratch := scratch\<rparr>"
    unfolding select_candidates_def cf Let_def prod.case imx_layout F(1) ..
  have full: "n * 251 < rq + marked mem b" if b: "b \<in> set (sp_all s) - F" "fragmented (sp_mem s b)" for b
  proof -
    have bs: "b \<in> set scratch - F" using b by (simp add: scratch_def)
    then have "hole_bin (sp_mem s b) \<le> maxbin" unfolding maxbin_def by (intro foldl_max_in) auto
    then have "hole_bin (mem b) \<in> {1..<maxbin + 1}" using fragmented_bin [OF b(2)] by (simp add: mk)
    then show ?thesis using F(3) bs by (auto simp: full_up_def)
  qed
  have rq: "rq = (\<Sum>b \<in> F. marked (sp_mem s) b)" "rq \<le> n * 251" "F \<subseteq> set scratch"
    using F(2) by (simp_all add: selected_def mk)
  show thesis
    by (rule that [of F]) (use rq full sc in \<open>auto simp: scratch_def mk mem_def [symmetric]\<close>)
qed

text \<open>
  Candidate selection is sound and complete for its budget: the selected blocks are fragmented
  blocks whose marked lines together fit the data lines of the targets, and no fragmented block that
  was left out would still fit.
\<close>

theorem candidates_fit:
  assumes "s' = select_candidates n s" "C = {b \<in> set (sp_all s). bk_defrag_candidate (sp_mem s' b)}"
    "cost = (\<lambda>b. unat (bk_defrag_marked (sp_mem s b)))"
  shows "(\<forall>b \<in> C. fragmented (sp_mem s b)) \<and> (\<Sum>b \<in> C. cost b) \<le> n * IMX_DATA_LINES \<and>
    (\<forall>b \<in> set (sp_all s) - C. fragmented (sp_mem s b) \<longrightarrow> n * IMX_DATA_LINES < (\<Sum>b \<in> C. cost b) + cost b)"
proof -
  have cost: "cost = marked (sp_mem s)" by (simp add: assms(3) marked_def fun_eq_iff)
  obtain F where F: "F \<subseteq> {b \<in> set (sp_all s). fragmented (sp_mem s b)}"
    "(\<Sum>b \<in> F. marked (sp_mem s) b) \<le> n * 251"
    "\<forall>b \<in> set (sp_all s) - F. fragmented (sp_mem s b) \<longrightarrow> n * 251 < (\<Sum>b \<in> F. marked (sp_mem s) b) + marked (sp_mem s) b"
    "s' = s\<lparr>sp_mem := flag (\<lambda>b. if b \<in> set (sp_all s) then (sp_mem s b)\<lparr>bk_defrag_candidate := False\<rparr> else sp_mem s b) F,
       sp_defrag_scratch := filter (\<lambda>b. fragmented (sp_mem s b)) (sp_all s)\<rparr>"
    unfolding assms(1) by (rule select_candidates_spec)
  have "C = F" unfolding assms(2) F(4) using F(1) by auto
  then show ?thesis using F(1-3) unfolding cost by auto
qed

section \<open>What allocation leaves alone\<close>

definition busy :: "imx_space \<Rightarrow> nat set" where
  "busy s = {sp_small_block s} \<union> {sp_medium_block s}"

definition pool_ok :: "imx_space \<Rightarrow> bool" where
  "pool_ok s \<longleftrightarrow> pl_allocated (sp_pool s) = sp_all s \<and> pl_freelist (sp_pool s) = []"

text \<open>
  Allocation consumes the lists from their ends, never touches the reserve, and bumps only in
  blocks it was bumping in before, took from a list, or got from the operating system.
\<close>

definition fresh :: "imx_space \<Rightarrow> nat set" where
  "fresh s = set (sp_free s) \<union> set (sp_recyclable s) \<union> (- set (sp_all s))"

definition adv :: "os_alloc \<Rightarrow> imx_space \<Rightarrow> imx_space \<Rightarrow> bool" where
  "adv os s s' \<longleftrightarrow> pool_ok s' \<and> (\<exists>k. sp_free s' = take k (sp_free s)) \<and> set (sp_recyclable s') \<subseteq> set (sp_recyclable s) \<and>
     sp_evac_reserve s' = sp_evac_reserve s \<and> set (sp_all s) \<subseteq> set (sp_all s') \<and>
     (\<forall>b. bk_defrag_marked (sp_mem s b) = 0 \<longrightarrow> bk_defrag_marked (sp_mem s' b) = 0) \<and>
     busy s' \<subseteq> busy s \<union> fresh s \<and> set (sp_all s') \<subseteq> set (sp_all s) \<union> {b. \<exists>p. os p = Some b}"

lemma adv_fresh: "adv os s t \<Longrightarrow> fresh t \<subseteq> fresh s"
  by (auto simp: adv_def fresh_def dest: in_set_takeD)

lemma adv_trans: "adv os s t \<Longrightarrow> adv os t u \<Longrightarrow> adv os s u"
  using adv_fresh [of os s t] unfolding adv_def by (auto simp: take_take)

lemma adv_refl: "pool_ok s \<Longrightarrow> adv os s s"
  by (auto simp: adv_def intro: exI [of _ "length (sp_free s)"])

text \<open>Moving the bump pointers within a busy or fresh block.\<close>

lemma adv_cursor:
  assumes "adv os s t" "sp_small_block u \<in> busy t \<union> fresh s" "sp_medium_block u \<in> busy t \<union> fresh s"
    "sp_pool u = sp_pool t" "sp_all u = sp_all t" "sp_free u = sp_free t" "sp_recyclable u = sp_recyclable t"
    "sp_evac_reserve u = sp_evac_reserve t" "sp_mem u = sp_mem t"
  shows "adv os s u"
  using assms unfolding adv_def pool_ok_def busy_def by auto

lemma take_free_adv:
  assumes "os_ok os" "pool_ok s" "take_free_block os s = (r, s')"
  shows "adv os s s'" "busy s' = busy s" "r = Some b \<Longrightarrow> b \<in> fresh s"
proof -
  have "adv os s s' \<and> busy s' = busy s \<and> (r = Some b \<longrightarrow> b \<in> fresh s)"
  proof (cases "sp_free s = []")
    case False
    then have r: "r = Some (last (sp_free s))" "s' = s\<lparr>sp_free := butlast (sp_free s)\<rparr>"
      using assms(3) by (simp_all add: take_free_block_def)
    have "adv os s s'" using assms(2) by (auto simp: adv_def pool_ok_def busy_def r(2) butlast_conv_take)
    moreover have "last (sp_free s) \<in> set (sp_free s)" using False by simp
    ultimately show ?thesis by (auto simp: r busy_def fresh_def)
  next
    case True
    define p where "p = (sp_pool s)\<lparr>pl_total_acquired := pl_total_acquired (sp_pool s) + 1\<rparr>"
    have p: "pl_allocated p = sp_all s" "pl_freelist p = []" using assms(2) by (simp_all add: p_def pool_ok_def)
    have acq: "imx_block_pool_acquire os (sp_mem s, sp_pool s) =
        (case os p of
           None \<Rightarrow> (None, sp_mem s, p)
         | Some b \<Rightarrow> (Some b, (sp_mem s)(b := imx_block_init (sp_mem s b)),
             p\<lparr>pl_allocated := pl_allocated p @ [b], pl_total_os_allocs := pl_total_os_allocs p + 1\<rparr>))"
      using assms(2) by (simp add: imx_block_pool_acquire_def Let_def p_def pool_ok_def split: option.split)
    show ?thesis
    proof (cases "os p")
      case None
      then have "r = None" "s' = s\<lparr>sp_pool := p\<rparr>"
        using assms(3) True by (simp_all add: take_free_block_def acq)
      then show ?thesis using p True by (simp add: adv_def pool_ok_def busy_def)
    next
      case (Some c)
      define q where "q = p\<lparr>pl_allocated := pl_allocated p @ [c], pl_total_os_allocs := pl_total_os_allocs p + 1\<rparr>"
      have r: "r = Some c"
        "s' = s\<lparr>sp_mem := (sp_mem s)(c := imx_block_init (sp_mem s c)), sp_pool := q, sp_all := sp_all s @ [c]\<rparr>"
        using assms(3) True Some by (simp_all add: take_free_block_def acq q_def)
      have c: "c \<notin> set (sp_all s)" using assms(1) Some p(1) unfolding os_ok_def by metis
      have q: "pl_allocated q = sp_all s @ [c]" "pl_freelist q = []" by (simp_all add: q_def p)
      then have "adv os s s'" using True Some by (auto simp: adv_def pool_ok_def busy_def r(2) imx_block_init_def)
      then show ?thesis using c by (auto simp: r busy_def fresh_def)
    qed
  qed
  then show "adv os s s'" "busy s' = busy s" "r = Some b \<Longrightarrow> b \<in> fresh s" by blast+
qed

lemma next_block_adv:
  assumes "os_ok os" "pool_ok s" "next_block os s = (r, s')"
  shows "adv os s s'" "busy s' = busy s" "r = Some b \<Longrightarrow> b \<in> fresh s"
proof -
  have "adv os s s' \<and> busy s' = busy s \<and> (r = Some b \<longrightarrow> b \<in> fresh s)"
  proof (cases "sp_recyclable s = []")
    case True
    then have "take_free_block os s = (r, s')" using assms(3) by (simp add: next_block_def take_recyclable_block_def)
    from take_free_adv [OF assms(1,2) this] show ?thesis by blast
  next
    case False
    then have r: "r = Some (last (sp_recyclable s))" "s' = s\<lparr>sp_recyclable := butlast (sp_recyclable s)\<rparr>"
      using assms(3) by (simp_all add: next_block_def take_recyclable_block_def)
    have "set (butlast (sp_recyclable s)) \<subseteq> set (sp_recyclable s)" by (auto dest: in_set_butlastD)
    moreover have "\<exists>k. sp_free s = take k (sp_free s)" by (rule exI [of _ "length (sp_free s)"]) simp
    ultimately have "adv os s s'" using assms(2) by (simp add: adv_def pool_ok_def busy_def r(2))
    moreover have "last (sp_recyclable s) \<in> set (sp_recyclable s)" using False by simp
    ultimately show ?thesis by (auto simp: r busy_def fresh_def)
  qed
  then show "adv os s s'" "busy s' = busy s" "r = Some b \<Longrightarrow> b \<in> fresh s" by blast+
qed

lemma set_hole_same [simp]:
  "sp_mem (set_hole b i j s) = sp_mem s" "sp_pool (set_hole b i j s) = sp_pool s" "sp_all (set_hole b i j s) = sp_all s"
  "sp_free (set_hole b i j s) = sp_free s" "sp_recyclable (set_hole b i j s) = sp_recyclable s"
  "sp_evac_reserve (set_hole b i j s) = sp_evac_reserve s" "sp_small_block (set_hole b i j s) = sp_small_block s"
  "sp_medium_block (set_hole b i j s) = sp_medium_block s"
  by (simp_all add: set_hole_def)

lemma refill_loop_adv: "refill_loop os s = Some r \<Longrightarrow> os_ok os \<longrightarrow> pool_ok s \<longrightarrow> adv os s (snd r)"
proof (induction rule: refill_loop.raw_induct [rotated, consumes 1])
  case (1 loop os s r)
  show ?case
  proof (intro impI)
    assume ok: "os_ok os" "pool_ok s"
    obtain b s1 where nb: "next_block os s = (b, s1)" by (rule prod.exhaust)
    note a = next_block_adv [OF ok nb]
    show "adv os s (snd r)"
    proof (cases b)
      case None
      then have "snd r = s1" using 1(2) by (auto simp: nb)
      then show ?thesis using a(1) by simp
    next
      case (Some c)
      let ?s = "s1\<lparr>sp_small_block := c, sp_small_next_line := IMX_DATA_START_LINE\<rparr>"
      have c: "c \<in> fresh s" using a(3) Some by simp
      have "sp_medium_block s1 \<in> busy s1" by (simp add: busy_def)
      then have adv: "adv os s u" if "sp_small_block u = c" "sp_medium_block u = sp_medium_block s1" "sp_pool u = sp_pool s1"
        "sp_all u = sp_all s1" "sp_free u = sp_free s1" "sp_recyclable u = sp_recyclable s1"
        "sp_evac_reserve u = sp_evac_reserve s1" "sp_mem u = sp_mem s1" for u
        using adv_cursor [OF a(1), of u] that c by simp
      show ?thesis
      proof (cases "imx_block_next_hole (sp_mem s1 c) IMX_DATA_START_LINE")
        case None
        let ?t = "?s\<lparr>sp_small_cursor := 0, sp_small_limit := 0\<rparr>"
        have "loop os ?t = Some r" using 1(2) Some None by (simp add: nb Let_def)
        moreover have "adv os s ?t" by (rule adv) simp_all
        moreover have "pool_ok ?t" using \<open>adv os s ?t\<close> by (simp add: adv_def)
        ultimately show ?thesis using 1(1) [of os ?t r] ok(1) adv_trans by blast
      next
        case (Some h)
        then have "snd r = set_hole c (fst h) (snd h) ?s" using 1(2) \<open>b = Some c\<close> by (auto simp: nb Let_def)
        then show ?thesis by (auto intro: adv)
      qed
    qed
  qed
qed

lemma refill_small_adv:
  assumes "refill_small os s = Some r" "os_ok os" "pool_ok s"
  shows "adv os s (snd r)"
proof -
  have "adv os s (set_hole b i j s)" for b i j
    by (rule adv_cursor [OF adv_refl [OF assms(3)]]) (simp_all add: busy_def)
  then show ?thesis
    using assms refill_loop_adv [of os s r] by (auto simp: refill_small_def split: option.splits prod.splits)
qed

text \<open>The outcome of an allocation: the object starts in the block the allocator is bumping in.\<close>

definition placed :: "os_alloc \<Rightarrow> imx_space \<Rightarrow> (nat option \<times> imx_space) option \<Rightarrow> bool" where
  "placed os s res \<longleftrightarrow>
     (\<forall>r s'. res = Some (r, s') \<longrightarrow> adv os s s' \<and> (\<forall>p. r = Some p \<longrightarrow> imx_block_of p \<in> busy s'))"

lemma placed_trans: "adv os s t \<Longrightarrow> placed os t res \<Longrightarrow> placed os s res"
  using adv_trans by (auto simp: placed_def)

lemma placed_record:
  assumes "adv os s t" "b \<in> busy t"
  shows "placed os s (record_at b p t)"
proof -
  have "adv os s (t\<lparr>sp_mem := mem\<rparr>)" if "\<forall>c. bk_defrag_marked (mem c) = bk_defrag_marked (sp_mem t c)" for mem
    using assms(1) that by (simp add: adv_def pool_ok_def busy_def)
  then show ?thesis using assms(2)
    by (auto simp: placed_def record_at_def imx_block_record_allocation_def imx_block_owns_def busy_def
        split: if_splits)
qed

lemma placed_bump_small:
  assumes "adv os s t" "bump_small sz al t = Some (p, u)"
  shows "placed os s (record_at (sp_small_block u) p u)"
proof -
  have u: "u = t\<lparr>sp_small_cursor := p + sz\<rparr>" using assms(2) by (auto simp: bump_small_def Let_def split: if_splits)
  have "adv os s u" by (rule adv_cursor [OF assms(1)]) (simp_all add: u busy_def)
  then show ?thesis by (rule placed_record) (simp add: busy_def)
qed

lemma placed_bump_medium:
  assumes "adv os s t" "bump_medium sz al t = Some (p, u)"
  shows "placed os s (record_at (sp_medium_block u) p u)"
proof -
  have u: "u = t\<lparr>sp_medium_cursor := p + sz\<rparr>" using assms(2) by (auto simp: bump_medium_def Let_def split: if_splits)
  have "adv os s u" by (rule adv_cursor [OF assms(1)]) (simp_all add: u busy_def)
  then show ?thesis by (rule placed_record) (simp add: busy_def)
qed

lemma alloc_medium_placed:
  assumes os: "os_ok os" and ok: "pool_ok s"
  shows "placed os s (alloc_medium os sz al s)"
proof (cases "if sp_medium_cursor s \<noteq> 0 then bump_medium sz al s else None")
  case (Some pu)
  obtain p u where pu: "pu = (p, u)" by (rule prod.exhaust)
  have "bump_medium sz al s = Some (p, u)" using Some by (simp add: pu split: if_splits)
  from placed_bump_medium [OF adv_refl [OF ok] this] show ?thesis
    unfolding alloc_medium_def Some by (simp add: pu)
next
  case None
  obtain r t where t: "take_free_block os s = (r, t)" by (rule prod.exhaust)
  note a = take_free_adv [OF os ok t]
  show ?thesis
  proof (cases r)
    case none: None
    then show ?thesis using a(1) unfolding alloc_medium_def None by (simp add: refill_medium_def t placed_def)
  next
    case (Some b)
    let ?u = "t\<lparr>sp_medium_block := b, sp_medium_cursor := imx_block_data_start b, sp_medium_limit := imx_block_data_end b\<rparr>"
    have adv: "adv os s ?u"
      by (rule adv_cursor [OF a(1)]) (use a(3) Some in \<open>simp_all add: busy_def\<close>)
    have rm: "refill_medium os s = (True, ?u)" using Some by (simp add: refill_medium_def t)
    show ?thesis
    proof (cases "bump_medium sz al ?u")
      case none: None
      then show ?thesis using adv unfolding alloc_medium_def None rm by (simp add: placed_def)
    next
      case (Some pv)
      obtain p v where pv: "pv = (p, v)" by (rule prod.exhaust)
      have "bump_medium sz al ?u = Some (p, v)" using Some by (simp add: pv)
      from placed_bump_medium [OF adv this] show ?thesis
        unfolding alloc_medium_def None rm using Some by (simp add: pv)
    qed
  qed
qed

lemma alloc_small_loop_placed:
  "alloc_small_loop os sz al s = Some res \<Longrightarrow> os_ok os \<longrightarrow> pool_ok s \<longrightarrow> placed os s (Some res)"
proof (induction rule: alloc_small_loop.raw_induct [rotated, consumes 1])
  case (1 loop os sz al s res)
  show ?case
  proof (intro impI)
    assume ok: "os_ok os" "pool_ok s"
    obtain r where r: "refill_small os s = Some r" using 1(2) by (cases "refill_small os s") auto
    have adv: "adv os s (snd r)" by (rule refill_small_adv [OF r ok])
    then have ok': "pool_ok (snd r)" by (simp add: adv_def)
    show "placed os s (Some res)"
    proof (cases "fst r")
      case False
      then have "alloc_medium os sz al (snd r) = Some res" using 1(2) by (simp add: r)
      then show ?thesis using placed_trans [OF adv alloc_medium_placed [OF ok(1) ok', of sz al]] by simp
    next
      case True
      show ?thesis
      proof (cases "bump_small sz al (snd r)")
        case None
        then have "loop os sz al (snd r) = Some res" using 1(2) True by (simp add: r)
        then show ?thesis using 1(1) ok(1) ok' placed_trans [OF adv] by blast
      next
        case (Some pu)
        obtain p u where pu: "pu = (p, u)" by (rule prod.exhaust)
        have "record_at (sp_small_block u) p u = Some res" using 1(2) True Some by (simp add: r pu)
        then show ?thesis using placed_bump_small [OF adv] Some by (metis pu)
      qed
    qed
  qed
qed

lemma alloc_small_placed:
  assumes os: "os_ok os" and ok: "pool_ok s"
  shows "placed os s (alloc_small os sz al s)"
proof (cases "if sp_small_cursor s \<noteq> 0 then bump_small sz al s else None")
  case (Some pu)
  obtain p u where pu: "pu = (p, u)" by (rule prod.exhaust)
  have "bump_small sz al s = Some (p, u)" using Some by (simp add: pu split: if_splits)
  from placed_bump_small [OF adv_refl [OF ok] this] show ?thesis
    unfolding alloc_small_def Some by (simp add: pu)
next
  case none: None
  show ?thesis
  proof (cases "refill_small os s")
    case None
    then show ?thesis unfolding alloc_small_def none by (simp add: placed_def)
  next
    case (Some r)
    obtain k t where t: "r = (k, t)" by (rule prod.exhaust)
    have adv: "adv os s t" using refill_small_adv [OF Some os ok] by (simp add: t)
    then have ok': "pool_ok t" by (simp add: adv_def)
    have "placed os t (alloc_small_loop os sz al t)"
      using alloc_small_loop_placed [of os sz al t] os ok' by (cases "alloc_small_loop os sz al t") (simp_all add: placed_def)
    then have loop: "placed os s (alloc_small_loop os sz al t)" by (rule placed_trans [OF adv])
    show ?thesis
      unfolding alloc_small_def none Some
      using adv loop placed_bump_small [OF adv, of sz al] by (auto simp: t placed_def split: option.split)
  qed
qed

lemma allocate_placed: "os_ok os \<Longrightarrow> pool_ok s \<Longrightarrow> placed os s (imx_space_allocate os sz al s)"
  using alloc_small_placed [of os s sz al] alloc_medium_placed [of os s sz al] adv_refl [of s os]
  by (simp add: imx_space_allocate_def placed_def)

text \<open>The blocks of the space after an allocation are those it had and new ones of the operating system.\<close>

lemma allocate_blocks:
  assumes "os_ok os" "heap_ok s U" "imx_space_allocate os sz al s = Some (r, s')"
  shows "set (sp_all s) \<subseteq> set (sp_all s')" "set (sp_all s') \<subseteq> set (sp_all s) \<union> {b. \<exists>p. os p = Some b}"
proof -
  have "pool_ok s" using assms(2) by (simp add: heap_ok_def space_inv_def blocks_ok_def pool_ok_def)
  then have "adv os s s'" using allocate_placed [OF assms(1), of s sz al] assms(3) by (simp add: placed_def)
  then show "set (sp_all s) \<subseteq> set (sp_all s')" "set (sp_all s') \<subseteq> set (sp_all s) \<union> {b. \<exists>p. os p = Some b}"
    by (simp_all add: adv_def)
qed

section \<open>The targets of a reachable space hold no live object\<close>

definition spare :: "imx_space \<Rightarrow> nat list" where
  "spare s = sp_free s @ sp_evac_reserve s"

text \<open>\<open>L\<close> are the bytes in use.  The headroom is never allocated into, and the last sweep found every spare block empty.\<close>

definition spare_ok :: "imx_space \<Rightarrow> nat set \<Rightarrow> bool" where
  "spare_ok s L \<longleftrightarrow>
     distinct (spare s) \<and> set (sp_evac_reserve s) \<subseteq> set (sp_all s) \<and>
     set (sp_evac_reserve s) \<inter> set (sp_recyclable s) = {} \<and> busy s \<inter> set (sp_evac_reserve s) = {} \<and>
     (\<forall>b \<in> set (spare s). bk_defrag_marked (sp_mem s b) = 0) \<and>
     (\<forall>b \<in> set (sp_evac_reserve s). L \<inter> block_bytes b = {})"

lemma spare_ok_init: "spare_ok (imx_space_init mem) {}"
  by (simp add: spare_ok_def spare_def imx_space_init_def)

lemma spare_ok_adv:
  assumes "spare_ok s L" "adv os s s'" "\<forall>b \<in> set (sp_evac_reserve s). L' \<inter> block_bytes b = {}"
  shows "spare_ok s' L'"
proof -
  obtain k where k: "sp_free s' = take k (sp_free s)" using assms(2) by (auto simp: adv_def)
  have sub: "set (sp_free s') \<subseteq> set (sp_free s)" "set (sp_recyclable s') \<subseteq> set (sp_recyclable s)"
    "sp_evac_reserve s' = sp_evac_reserve s" "set (sp_all s) \<subseteq> set (sp_all s')" "busy s' \<subseteq> busy s \<union> fresh s"
    using assms(2) set_take_subset [of k "sp_free s"] by (auto simp: adv_def k)
  have ok: "distinct (sp_free s @ sp_evac_reserve s)" "set (sp_evac_reserve s) \<subseteq> set (sp_all s)"
    "set (sp_evac_reserve s) \<inter> set (sp_recyclable s) = {}" "busy s \<inter> set (sp_evac_reserve s) = {}"
    "\<forall>b \<in> set (sp_free s) \<union> set (sp_evac_reserve s). bk_defrag_marked (sp_mem s b) = 0"
    using assms(1) by (simp_all add: spare_ok_def spare_def)
  have "fresh s \<inter> set (sp_evac_reserve s) = {}" using ok(1-3) by (auto simp: fresh_def)
  then have "busy s' \<inter> set (sp_evac_reserve s') = {}" using ok(4) sub(3,5) by auto
  moreover have "\<forall>b \<in> set (sp_free s') \<union> set (sp_evac_reserve s'). bk_defrag_marked (sp_mem s' b) = 0"
    using ok(5) assms(2) sub(1,3) by (auto simp: adv_def)
  moreover have "distinct (sp_free s' @ sp_evac_reserve s')"
    using ok(1) sub(1,3) by (auto simp: k dest: in_set_takeD)
  ultimately show ?thesis using ok(2,3) sub assms(3) unfolding spare_ok_def spare_def by auto
qed

lemma in_block_of: "p \<in> block_bytes c \<Longrightarrow> c mod 32768 = 0 \<Longrightarrow> imx_block_of p = c"
  by (rule line_bytes_block_of)

text \<open>What an allocation hands out lies in no reserve block.\<close>

lemma allocate_spare:
  assumes os: "os_ok os" and inv: "heap_ok s U" and ok: "spare_ok s U" and sz: "0 < sz"
    and run: "imx_space_allocate os sz IMX_OBJECT_ALIGN s = Some (r, s')"
  shows "spare_ok s' (case r of None \<Rightarrow> U | Some p \<Rightarrow> U \<union> {p..<p + sz})"
proof -
  have "pool_ok s" using inv by (simp add: heap_ok_def space_inv_def blocks_ok_def pool_ok_def)
  then have pl: "placed os s (Some (r, s'))" using allocate_placed [OF os, of s sz 8] run by simp
  show ?thesis
  proof (cases r)
    case None
    then have "adv os s s'" using pl by (simp add: placed_def)
    then show ?thesis using ok spare_ok_adv [of s U os s' U] None by (simp add: spare_ok_def)
  next
    case (Some p)
    let ?R = "{p..<p + sz}"
    have "placed os s (Some (Some p, s'))"
        using pl Some by simp
    then have pl: "adv os s s'" "imx_block_of p \<in> busy s'" by (simp_all add: placed_def)
    have al: "heap_ok s' (U \<union> ?R)" "\<exists>b \<in> set (sp_all s'). ?R \<subseteq> block_bytes b"
      using allocate_ok [OF inv os sz] run Some by (auto simp: alloc_ok_def)
    obtain c where c: "c \<in> set (sp_all s')" "?R \<subseteq> block_bytes c" using al(2) by blast
    have cb: "blocks_ok s'" using al(1) by (simp add: heap_ok_def space_inv_def)
    then have c0: "c mod 32768 = 0" using c(1) by (simp add: blocks_ok_def)
    have "p \<in> block_bytes c" using c(2) sz by auto
    then have "c \<in> busy s'" using pl(2) in_block_of [OF _ c0] by simp
    have old: "spare_ok s' (U)"
      by (rule spare_ok_adv [OF ok pl(1)]) (use ok in \<open>simp add: spare_ok_def\<close>)
    have "(U \<union> ?R) \<inter> block_bytes b = {}" if b: "b \<in> set (sp_evac_reserve s')" for b
    proof -
      have "b \<noteq> c" using old b \<open>c \<in> busy s'\<close> by (auto simp: spare_ok_def)
      moreover have "b mod 32768 = 0" using old b cb by (auto simp: spare_ok_def blocks_ok_def)
      ultimately have "block_bytes b \<inter> block_bytes c = {}" using c0 by (intro block_bytes_disjoint)
      moreover have "U \<inter> block_bytes b = {}" using old b by (simp add: spare_ok_def)
      ultimately show ?thesis using c(2) by blast
    qed
    then show ?thesis using old Some by (simp add: spare_ok_def)
  qed
qed

text \<open>The sweep leaves only dead blocks spare.\<close>

lemma reclaim_spare_ok:
  assumes "blocks_ok s" "protected s L"
  shows "spare_ok (imx_space_reclaim n s) L"
proof -
  have d: "distinct (sp_all s)" using assms(1) by (simp add: blocks_ok_def)
  let ?t = "imx_space_reclaim n s" and ?fr = "filter (in_state s IMX_BLOCK_FREE) (sp_all s)"
  note rr = reclaim_result [OF d refl refl, of n]
  have "set (take k ?fr) \<inter> set (drop k ?fr) = {}" for k
    by (rule set_take_disj_set_drop_if_distinct) (simp_all add: d)
  then have dis: "distinct (spare ?t)" using d by (simp add: spare_def rr(4,5))
  have sub: "set (spare ?t) \<subseteq> set ?fr"
    unfolding spare_def rr(4,5) set_append set_rev by (intro Un_least set_take_subset set_drop_subset)
  have all: "set (sp_evac_reserve ?t) \<subseteq> set ?fr" using sub by (auto simp: spare_def)
  have zero: "bk_defrag_marked (sp_mem ?t b) = 0" if "b \<in> set ?fr" for b
    using that by (auto simp: rr(1) in_state_def imx_block_classify_def Let_def split: if_splits)
  have dead: "L \<inter> block_bytes b = {}" if b: "b \<in> set ?fr" for b
  proof -
    have e: "b \<in> set (sp_all s)" "in_state s IMX_BLOCK_FREE b" using b by auto
    then have "lines.elems (bk_line_marks (sp_mem s b)) \<inter> {5..} = {}"
      by (auto simp: in_state_def classify_state split: if_splits)
    moreover have "lines.elems (bk_line_marks (sp_mem s b)) \<subseteq> {5..}" using assms(1) e(1) by (simp add: blocks_ok_def)
    ultimately have "lines.elems (bk_line_marks (sp_mem s b)) = {}" by blast
    then have "free_bytes s b 5 = block_bytes b" by (rule blank_free_bytes)
    then have "block_bytes b \<subseteq> free_bytes s b 0" using free_bytes_mono [of 0 5 s b] by simp
    moreover have "L \<inter> free_bytes s b 0 = {}" using assms(2) e(1) by (simp add: protected_def)
    ultimately show ?thesis by blast
  qed
  have "0 \<notin> set ?fr" using assms(1) by (auto simp: blocks_ok_def)
  then have "busy ?t \<inter> set (sp_evac_reserve ?t) = {}" using all by (auto simp: busy_def rr(8,11))
  moreover have "set (sp_evac_reserve ?t) \<inter> set (sp_recyclable ?t) = {}"
    using all by (auto simp: rr(6) in_state_def)
  moreover have "set (sp_evac_reserve ?t) \<subseteq> set (sp_all ?t)" using all by (auto simp: rr(2))
  moreover have "\<forall>b \<in> set (spare ?t). bk_defrag_marked (sp_mem ?t b) = 0" using sub zero by blast
  moreover have "\<forall>b \<in> set (sp_evac_reserve ?t). L \<inter> block_bytes b = {}" using all dead by blast
  ultimately show ?thesis using dis by (simp add: spare_ok_def)
qed

lemma step_spare:
  assumes os: "os_ok os" and step: "imx_step os st st'" and inv: "cycle_inv st" and ok: "spare_ok (fst st) (bytes_of (snd st))"
  shows "spare_ok (fst st') (bytes_of (snd st'))"
  using step inv ok
proof (induction rule: imx_step.induct)
  case (step_alloc sz s p s' Os)
  let ?R = "{p..<p + sz}"
  have inv: "heap_ok s (bytes_of Os)" using step_alloc.prems(1) by (simp add: cycle_inv_def)
  have ok: "spare_ok s (bytes_of Os)" using step_alloc.prems(2) by simp
  have "spare_ok s' (bytes_of Os \<union> ?R)"
    using allocate_spare [OF os inv ok step_alloc.hyps(1), of "Some p"] step_alloc.hyps(2) by simp
  moreover have "bytes_of (insert (p, sz) Os) = bytes_of Os \<union> ?R" by (auto simp: bytes_of_def)
  ultimately show ?case by simp
next
  case (step_null sz s s' Os)
  then show ?case
    using allocate_spare [OF os _ _ step_null.hyps(1), of s "bytes_of Os" None s'] by (simp add: cycle_inv_def)
next
  case (step_collect obs Os s s' n)
  have inv: "blocks_ok s" "resident s Os"
    using step_collect.prems(1) by (auto simp: cycle_inv_def heap_ok_def space_inv_def)
  note cl = clear_marks_ok [OF inv(1)]
  have res: "resident (imx_space_clear_marks s) (set obs)"
    using inv(2) step_collect.hyps(1) unfolding resident_def cl(2) by blast
  have s1: "blocks_ok s'" "protected s' (bytes_of (set obs))"
    using mark_objects_ok [OF cl(1) _ res, of "{}"] step_collect.hyps(2) by (auto simp: protected_def)
  then show ?case using reclaim_spare_ok [of s' "bytes_of (set obs)" n] by simp
qed

lemma reach_spare:
  "imx_reach os mem st \<Longrightarrow> os_ok os \<Longrightarrow> headers_ok mem \<Longrightarrow> spare_ok (fst st) (bytes_of (snd st))"
proof (induction rule: imx_reach.induct)
  case reach_init
  then show ?case by (simp add: spare_ok_init bytes_of_def)
next
  case (reach_step st st')
  then show ?case using step_spare reach_inv by blast
qed

text \<open>No live object lies in a spare block.\<close>

lemma spare_dead:
  assumes "heap_ok s L" "spare_ok s L" "b \<in> set (spare s)"
  shows "L \<inter> block_bytes b = {}"
proof (cases "b \<in> set (sp_free s)")
  case True
  then have "lines.elems (bk_line_marks (sp_mem s b)) = {}"
    using assms(1) by (simp add: heap_ok_def space_inv_def lists_ok_def)
  then have "free_bytes s b 5 = block_bytes b" by (rule blank_free_bytes)
  moreover have "free_bytes s b 5 \<subseteq> avail s" using True by (auto simp: avail_def list_avail_def)
  ultimately show ?thesis using assms(1) by (auto simp: heap_ok_def)
next
  case False
  then show ?thesis using assms(2,3) by (auto simp: spare_ok_def spare_def)
qed

section \<open>The evacuation allocator\<close>

text \<open>A sequence of copies: the ranges handed out, in order; a null result adds none.\<close>

fun evac_copies :: "nat list \<Rightarrow> imx_space \<Rightarrow> ((nat \<times> nat) list \<times> imx_space) option" where
  "evac_copies [] s = Some ([], s)"
| "evac_copies (sz # szs) s =
     Option.bind (imx_space_allocate_evacuation sz IMX_OBJECT_ALIGN s) (\<lambda>(r, s).
       map_option (\<lambda>(rs, s). (case r of None \<Rightarrow> rs | Some p \<Rightarrow> (p, sz) # rs, s)) (evac_copies szs s))"

text \<open>
  The bytes the evacuation allocator can still hand out: the rest of the current target and all
  later ones.
\<close>

definition evac_room :: "imx_space \<Rightarrow> nat \<Rightarrow> nat set" where
  "evac_room s j =
     {sp_evac_cursor s..<sp_evac_limit s} \<union>
     (\<Union>i \<in> {j<..<length (sp_evacuation_targets s)}. block_bytes (sp_evacuation_targets s ! i))"

definition evac_ok :: "imx_space \<Rightarrow> nat \<Rightarrow> bool" where
  "evac_ok s j \<longleftrightarrow>
     distinct (sp_evacuation_targets s) \<and> (\<forall>b \<in> set (sp_evacuation_targets s). 0 < b \<and> b mod IMX_BLOCK_SIZE = 0) \<and>
     j < length (sp_evacuation_targets s) \<and>
     imx_block_data_start (sp_evacuation_targets s ! j) \<le> sp_evac_cursor s \<and>
     sp_evac_limit s = imx_block_data_end (sp_evacuation_targets s ! j) \<and>
     (j = sp_evac_target_idx s \<or> length (sp_evacuation_targets s) \<le> sp_evac_target_idx s)"

definition targets_bytes :: "imx_space \<Rightarrow> nat set" where
  "targets_bytes s = (\<Union>b \<in> set (sp_evacuation_targets s). block_bytes b)"

lemma evac_room_targets: "evac_ok s j \<Longrightarrow> evac_room s j \<subseteq> targets_bytes s"
  unfolding evac_ok_def evac_room_def targets_bytes_def block_bytes_def
  by (auto simp: in_set_conv_nth) (metis atLeastLessThan_iff nth_mem order_trans)+

text \<open>What an evacuation allocation leaves alone.\<close>

definition evac_same :: "imx_space \<Rightarrow> imx_space \<Rightarrow> bool" where
  "evac_same s s' \<longleftrightarrow>
     sp_evacuation_targets s' = sp_evacuation_targets s \<and> sp_evac_reserve s' = sp_evac_reserve s \<and>
     sp_free s' = sp_free s \<and> sp_all s' = sp_all s \<and> sp_evac_from_reserve s' = sp_evac_from_reserve s \<and>
     sp_evacuation_active s' = sp_evacuation_active s \<and>
     (\<forall>b. bk_defrag_candidate (sp_mem s' b) = bk_defrag_candidate (sp_mem s b))"

lemma evac_same_trans: "evac_same s t \<Longrightarrow> evac_same t u \<Longrightarrow> evac_same s u"
  by (simp add: evac_same_def)

lemma record_of_block:
  "\<exists>mem. record_at (imx_block_of p) p s = Some (Some p, s\<lparr>sp_mem := mem\<rparr>) \<and>
     (\<forall>b. bk_defrag_candidate (mem b) = bk_defrag_candidate (sp_mem s b))"
  by (intro exI [of _ "(sp_mem s)(imx_block_of p := (sp_mem s (imx_block_of p))
        \<lparr>bk_object_starts := imx_ob_set (bk_object_starts (sp_mem s (imx_block_of p))) (imx_word_of p)\<rparr>)"])
    (simp add: record_at_def imx_block_record_allocation_def imx_block_owns_def)

lemma evac_loop_same: "\<exists>r s'. evac_loop sz al s = Some (r, s') \<and> evac_same s s'"
proof (induction sz al s rule: evac_loop.induct)
  case (1 sz al s)
  let ?p = "align_up (sp_evac_cursor s) al" and ?s = "s\<lparr>sp_evac_target_idx := sp_evac_target_idx s + 1\<rparr>"
  show ?case
  proof (cases "sp_evac_cursor s \<noteq> 0 \<and> ?p + sz \<le> sp_evac_limit s")
    case True
    obtain mem where "record_at (imx_block_of ?p) ?p (s\<lparr>sp_evac_cursor := ?p + sz\<rparr>) =
        Some (Some ?p, s\<lparr>sp_evac_cursor := ?p + sz, sp_mem := mem\<rparr>)"
      "\<forall>b. bk_defrag_candidate (mem b) = bk_defrag_candidate (sp_mem s b)"
      using record_of_block [of ?p "s\<lparr>sp_evac_cursor := ?p + sz\<rparr>"] by auto
    then show ?thesis using True by (subst evac_loop.simps) (simp add: Let_def evac_same_def)
  next
    case False
    show ?thesis
    proof (cases "length (sp_evacuation_targets ?s) \<le> sp_evac_target_idx ?s")
      case True
      then show ?thesis using False by (subst evac_loop.simps) (auto simp: Let_def evac_same_def)
    next
      case more: False
      let ?t = "?s\<lparr>sp_evac_cursor := imx_block_data_start (sp_evacuation_targets ?s ! sp_evac_target_idx ?s),
          sp_evac_limit := imx_block_data_end (sp_evacuation_targets ?s ! sp_evac_target_idx ?s)\<rparr>"
      obtain r s' where ih: "evac_loop sz al ?t = Some (r, s')" "evac_same ?t s'"
        using 1 [OF refl False refl more refl] by blast
      have "evac_same s ?t" by (simp add: evac_same_def)
      moreover have "evac_loop sz al s = evac_loop sz al ?t"
        using False more by (subst evac_loop.simps) (auto simp: Let_def)
      ultimately show ?thesis using ih evac_same_trans by auto
    qed
  qed
qed

lemma align_up_ge:
  assumes "0 < al"
  shows "c \<le> align_up c al"
proof -
  define m where "m = c + al - 1"
  have "m div al * al + m mod al = m" "m mod al < al" using assms by simp_all
  moreover have "m + 1 = c + al" using assms by (simp add: m_def)
  ultimately show ?thesis unfolding align_up_def m_def [symmetric] by linarith
qed

text \<open>Each allocation takes its range out of the room that is left.\<close>

lemma evac_loop_room:
  assumes "evac_loop sz al s = Some (r, s')" "evac_ok s j" "0 < al" "0 < sz"
  shows "\<exists>j'. evac_ok s' j' \<and> evac_room s' j' \<subseteq> evac_room s j \<and>
    (\<forall>p. r = Some p \<longrightarrow> {p..<p + sz} \<subseteq> evac_room s j \<and> {p..<p + sz} \<inter> evac_room s' j' = {} \<and>
       (\<exists>b \<in> set (sp_evacuation_targets s). {p..<p + sz} \<subseteq> block_bytes b))"
  using assms
proof (induction sz al s arbitrary: j rule: evac_loop.induct)
  case (1 sz al s)
  let ?p = "align_up (sp_evac_cursor s) al" and ?s = "s\<lparr>sp_evac_target_idx := sp_evac_target_idx s + 1\<rparr>"
  let ?T = "sp_evacuation_targets s"
  have ok: "distinct ?T" "\<forall>b \<in> set ?T. 0 < b \<and> b mod IMX_BLOCK_SIZE = 0" "j < length ?T"
    "imx_block_data_start (?T ! j) \<le> sp_evac_cursor s" "sp_evac_limit s = imx_block_data_end (?T ! j)"
    "j = sp_evac_target_idx s \<or> length ?T \<le> sp_evac_target_idx s"
    using 1(3) by (simp_all add: evac_ok_def)
  have pc: "sp_evac_cursor s \<le> ?p" using 1(4) by (rule align_up_ge)
  show ?case
  proof (cases "sp_evac_cursor s \<noteq> 0 \<and> ?p + sz \<le> sp_evac_limit s")
    case True
    obtain mem where mem: "record_at (imx_block_of ?p) ?p (s\<lparr>sp_evac_cursor := ?p + sz\<rparr>) =
        Some (Some ?p, s\<lparr>sp_evac_cursor := ?p + sz, sp_mem := mem\<rparr>)"
      using record_of_block [of ?p "s\<lparr>sp_evac_cursor := ?p + sz\<rparr>"] by auto
    have "evac_loop sz al s = Some (Some ?p, s\<lparr>sp_evac_cursor := ?p + sz, sp_mem := mem\<rparr>)"
      using True mem by (subst evac_loop.simps) (simp add: Let_def)
    then have r: "r = Some ?p" "s' = s\<lparr>sp_evac_cursor := ?p + sz, sp_mem := mem\<rparr>" using 1(2) by auto
    have "evac_ok s' j" using ok pc by (simp add: evac_ok_def r(2))
    moreover have "evac_room s' j \<subseteq> evac_room s j" using pc by (auto simp: evac_room_def r(2))
    moreover have "{?p..<?p + sz} \<subseteq> evac_room s j" using pc True by (auto simp: evac_room_def)
    moreover have inb: "{?p..<?p + sz} \<subseteq> block_bytes (?T ! j)" using pc True ok(4,5) by (auto simp: block_bytes_def)
    moreover have "{?p..<?p + sz} \<inter> evac_room s' j = {}"
    proof -
      have "block_bytes (?T ! j) \<inter> block_bytes (?T ! i) = {}" if "i \<in> {j<..<length ?T}" for i
      proof (rule block_bytes_disjoint)
        show "?T ! j mod 32768 = 0" "?T ! i mod 32768 = 0" using ok(2,3) that by simp_all
        show "?T ! j \<noteq> ?T ! i" using ok(1,3) that by (simp add: nth_eq_iff_index_eq)
      qed
      then have "{?p..<?p + sz} \<inter> (\<Union>i \<in> {j<..<length ?T}. block_bytes (?T ! i)) = {}" using inb by blast
      then show ?thesis by (auto simp: evac_room_def r(2))
    qed
    moreover have "?T ! j \<in> set ?T" using ok(3) by simp
    ultimately show ?thesis using r(1) by (intro exI [of _ j]) blast
  next
    case False
    show ?thesis
    proof (cases "length (sp_evacuation_targets ?s) \<le> sp_evac_target_idx ?s")
      case True
      then have "evac_loop sz al s = Some (None, ?s)" using False by (subst evac_loop.simps) (auto simp: Let_def)
      then have r: "r = None" "s' = ?s" using 1(2) by auto
      have "evac_ok ?s j" using ok True by (simp add: evac_ok_def)
      moreover have "evac_room ?s j = evac_room s j" by (simp add: evac_room_def)
      ultimately show ?thesis by (intro exI [of _ j]) (simp add: r)
    next
      case more: False
      let ?j = "sp_evac_target_idx s + 1"
      let ?t = "?s\<lparr>sp_evac_cursor := imx_block_data_start (sp_evacuation_targets ?s ! sp_evac_target_idx ?s),
          sp_evac_limit := imx_block_data_end (sp_evacuation_targets ?s ! sp_evac_target_idx ?s)\<rparr>"
      have jj: "?j = j + 1" "?j < length ?T" using ok(6) more by auto
      have "evac_loop sz al s = evac_loop sz al ?t" using False more by (subst evac_loop.simps) (auto simp: Let_def)
      then have l: "evac_loop sz al ?t = Some (r, s')" using 1(2) by simp
      have t: "evac_ok ?t ?j" using ok jj by (simp add: evac_ok_def)
      have "evac_room ?t ?j = (\<Union>i \<in> insert ?j {?j<..<length ?T}. block_bytes (?T ! i))"
        by (simp add: evac_room_def block_bytes_def)
      also have "\<dots> \<subseteq> (\<Union>i \<in> {j<..<length ?T}. block_bytes (?T ! i))"
        by (rule UN_mono) (use jj in auto)
      finally have sub: "evac_room ?t ?j \<subseteq> evac_room s j" by (auto simp: evac_room_def)
      from 1(1) [OF refl False refl more refl l t 1(4,5)]
      obtain i where i: "evac_ok s' i" "evac_room s' i \<subseteq> evac_room ?t ?j"
        "\<forall>p. r = Some p \<longrightarrow> {p..<p + sz} \<subseteq> evac_room ?t ?j \<and> {p..<p + sz} \<inter> evac_room s' i = {} \<and>
          (\<exists>b \<in> set (sp_evacuation_targets ?t). {p..<p + sz} \<subseteq> block_bytes b)"
        by (elim exE conjE)
      have "evac_room s' i \<subseteq> evac_room s j" using i(2) sub by (rule subset_trans)
      moreover have "\<forall>p. r = Some p \<longrightarrow> {p..<p + sz} \<subseteq> evac_room s j \<and> {p..<p + sz} \<inter> evac_room s' i = {} \<and>
          (\<exists>b \<in> set ?T. {p..<p + sz} \<subseteq> block_bytes b)"
        using i(3) subset_trans [OF _ sub] by simp
      ultimately show ?thesis using i(1) by (intro exI [of _ i]) simp
    qed
  qed
qed

lemma evac_copies_spec:
  assumes "evac_ok s j" "sp_evacuation_active s" "\<forall>sz \<in> set szs. 0 < sz"
  shows "\<exists>rs s'. evac_copies szs s = Some (rs, s') \<and> evac_same s s' \<and>
    (\<forall>(a, sz) \<in> set rs. {a..<a + sz} \<subseteq> evac_room s j \<and> (\<exists>b \<in> set (sp_evacuation_targets s). {a..<a + sz} \<subseteq> block_bytes b)) \<and>
    sorted_wrt (\<lambda>(a, sz) (c, tz). {a..<a + sz} \<inter> {c..<c + tz} = {}) rs"
  using assms
proof (induction szs arbitrary: s j)
  case Nil
  then show ?case by (simp add: evac_same_def)
next
  case (Cons sz szs)
  obtain r t where l: "evac_loop sz 8 s = Some (r, t)" "evac_same s t" using evac_loop_same by blast
  obtain k where k: "evac_ok t k" "evac_room t k \<subseteq> evac_room s j"
    "\<forall>p. r = Some p \<longrightarrow> {p..<p + sz} \<subseteq> evac_room s j \<and> {p..<p + sz} \<inter> evac_room t k = {} \<and>
      (\<exists>b \<in> set (sp_evacuation_targets s). {p..<p + sz} \<subseteq> block_bytes b)"
    using evac_loop_room [OF l(1) Cons.prems(1)] Cons.prems(3) by auto
  have act: "sp_evacuation_active t" using l(2) Cons.prems(2) by (simp add: evac_same_def)
  obtain rs u where u: "evac_copies szs t = Some (rs, u)" "evac_same t u"
    "\<forall>(a, sz) \<in> set rs. {a..<a + sz} \<subseteq> evac_room t k \<and> (\<exists>b \<in> set (sp_evacuation_targets t). {a..<a + sz} \<subseteq> block_bytes b)"
    "sorted_wrt (\<lambda>(a, sz) (c, tz). {a..<a + sz} \<inter> {c..<c + tz} = {}) rs"
    using Cons.IH [OF k(1) act] Cons.prems(3) by auto
  have same: "evac_same s u" using l(2) u(2) evac_same_trans by blast
  have "sp_evacuation_targets t = sp_evacuation_targets s" using l(2) by (simp add: evac_same_def)
  then have rest: "\<forall>(a, sz) \<in> set rs. {a..<a + sz} \<subseteq> evac_room s j \<and>
      (\<exists>b \<in> set (sp_evacuation_targets s). {a..<a + sz} \<subseteq> block_bytes b)"
    using u(3) k(2) by fastforce
  have run: "evac_copies (sz # szs) s = Some (case r of None \<Rightarrow> rs | Some p \<Rightarrow> (p, sz) # rs, u)"
    using Cons.prems(2) by (simp add: imx_space_allocate_evacuation_def l(1) u(1))
  show ?case
  proof (cases r)
    case None
    then show ?thesis using run same rest u(4) by simp
  next
    case (Some p)
    then have p: "{p..<p + sz} \<subseteq> evac_room s j" "{p..<p + sz} \<inter> evac_room t k = {}"
      "\<exists>b \<in> set (sp_evacuation_targets s). {p..<p + sz} \<subseteq> block_bytes b" using k(3) by simp_all
    have "\<forall>(c, tz) \<in> set rs. {p..<p + sz} \<inter> {c..<c + tz} = {}" using u(3) p(2) by fast
    then have "sorted_wrt (\<lambda>(a, sz) (c, tz). {a..<a + sz} \<inter> {c..<c + tz} = {}) ((p, sz) # rs)"
      using u(4) by auto
    moreover have "\<forall>(a, tz) \<in> set ((p, sz) # rs). {a..<a + tz} \<subseteq> evac_room s j \<and>
        (\<exists>b \<in> set (sp_evacuation_targets s). {a..<a + tz} \<subseteq> block_bytes b)"
      using rest p(1,3) by simp
    ultimately show ?thesis using run same Some by (intro exI [of _ "(p, sz) # rs"] exI [of _ u]) simp
  qed
qed

section \<open>Beginning and ending an evacuation\<close>

lemma take_reserve_spec:
  "\<exists>k. take_reserve n s = s\<lparr>sp_evacuation_targets := sp_evacuation_targets s @ rev (drop k (sp_evac_reserve s)),
     sp_evac_reserve := take k (sp_evac_reserve s)\<rparr>"
proof (induction n arbitrary: s)
  case 0
  then show ?case by (intro exI [of _ "length (sp_evac_reserve s)"]) simp
next
  case (Suc n)
  show ?case
  proof (cases "sp_evac_reserve s = []")
    case True
    then show ?thesis by (intro exI [of _ 0]) simp
  next
    case False
    define xs where "xs = butlast (sp_evac_reserve s)"
    define x where "x = last (sp_evac_reserve s)"
    have f: "sp_evac_reserve s = xs @ [x]" using False by (simp add: xs_def x_def)
    obtain k where k: "take_reserve n (s\<lparr>sp_evacuation_targets := sp_evacuation_targets s @ [x], sp_evac_reserve := xs\<rparr>) =
        s\<lparr>sp_evacuation_targets := (sp_evacuation_targets s @ [x]) @ rev (drop k xs), sp_evac_reserve := take k xs\<rparr>"
      using Suc.IH [of "s\<lparr>sp_evacuation_targets := sp_evacuation_targets s @ [x], sp_evac_reserve := xs\<rparr>"] by auto
    have "drop (min k (length xs)) (xs @ [x]) = drop k xs @ [x]" "take (min k (length xs)) (xs @ [x]) = take k xs"
      by (cases "k \<le> length xs"; simp)+
    then show ?thesis
      using k by (intro exI [of _ "min k (length xs)"]) (simp add: f)
  qed
qed

text \<open>The state after the beginning: the targets come from the spare blocks, and only flags change.\<close>

lemma begin_evacuation_spec:
  obtains k s1 where
    "s1 = imx_space_begin_evacuation n s"
    "sp_evacuation_targets s1 = rev (drop k (sp_evac_reserve s)) @ rev (sp_free s)"
    "sp_evac_from_reserve s1 = length (drop k (sp_evac_reserve s))"
    "sp_evac_reserve s1 = take k (sp_evac_reserve s)" "sp_free s1 = []" "sp_all s1 = sp_all s"
    "sp_evacuation_active s1 \<longrightarrow> sp_evacuation_targets s1 \<noteq> [] \<and> sp_evac_target_idx s1 = 0 \<and>
       sp_evac_cursor s1 = imx_block_data_start (sp_evacuation_targets s1 ! 0) \<and>
       sp_evac_limit s1 = imx_block_data_end (sp_evacuation_targets s1 ! 0)"
    "sp_evacuation_active s1 \<longrightarrow> (\<forall>b \<in> set (sp_all s). bk_defrag_candidate (sp_mem s1 b) \<longrightarrow> fragmented (sp_mem s b))"
proof -
  obtain k where k: "take_reserve n (s\<lparr>sp_evacuation_targets := []\<rparr>) =
      s\<lparr>sp_evacuation_targets := rev (drop k (sp_evac_reserve s)), sp_evac_reserve := take k (sp_evac_reserve s)\<rparr>"
    using take_reserve_spec [of n "s\<lparr>sp_evacuation_targets := []\<rparr>"] by auto
  define T where "T = rev (drop k (sp_evac_reserve s)) @ rev (sp_free s)"
  define t where "t = s\<lparr>sp_evac_reserve := take k (sp_evac_reserve s), sp_evac_from_reserve := length (sp_evac_reserve s) - k,
      sp_evacuation_targets := T, sp_free := []\<rparr>"
  define u where "u = (if T = [] then t else select_candidates (length T) t)"
  have u: "sp_evacuation_targets u = T" "sp_evac_reserve u = take k (sp_evac_reserve s)"
    "sp_evac_from_reserve u = length (drop k (sp_evac_reserve s))" "sp_free u = []" "sp_all u = sp_all s"
    by (rule select_candidates_spec [of t "length T"]; simp add: u_def t_def)+
  have cand: "fragmented (sp_mem s b)" if "T \<noteq> []" "b \<in> set (sp_all s)" "bk_defrag_candidate (sp_mem u b)" for b
    by (rule select_candidates_spec [of t "length T"]) (use that in \<open>auto simp: u_def t_def\<close>)
  define act where "act \<longleftrightarrow> T \<noteq> [] \<and> 0 < length (filter (\<lambda>b. bk_defrag_candidate (sp_mem u b)) (sp_defrag_scratch u))"
  define s1 where "s1 = imx_space_begin_evacuation n s"
  have s1: "s1 = (if act then u\<lparr>sp_evacuation_active := True, sp_evac_target_idx := 0,
        sp_evac_cursor := imx_block_data_start (T ! 0), sp_evac_limit := imx_block_data_end (T ! 0)\<rparr>
      else u\<lparr>sp_evacuation_active := False, sp_evac_target_idx := 0, sp_evac_cursor := 0, sp_evac_limit := 0\<rparr>)"
  proof -
    have ut: "T \<noteq> [] \<Longrightarrow> select_candidates (length T)
        (s\<lparr>sp_evac_reserve := take k (sp_evac_reserve s), sp_evac_from_reserve := length (sp_evac_reserve s) - k,
          sp_evacuation_targets := T, sp_free := []\<rparr>) = u"
      by (simp add: u_def t_def)
    show ?thesis
      unfolding s1_def imx_space_begin_evacuation_def k Let_def
      by (cases "T = []") (simp_all add: u act_def ut T_def [symmetric], simp_all add: u_def t_def)
  qed
  show thesis
    by (rule that [of s1 k]) (use s1 u cand act_def in \<open>auto simp: s1_def [symmetric] T_def\<close>)
qed

lemma evac_copies_inactive: "\<not> sp_evacuation_active s \<Longrightarrow> evac_copies szs s = Some ([], s)"
  by (induction szs) (simp_all add: imx_space_allocate_evacuation_def)

lemma evac_copies_same: "evac_copies szs s = Some (rs, s') \<Longrightarrow> evac_same s s'"
proof (induction szs arbitrary: s rs)
  case Nil
  then show ?case by (simp add: evac_same_def)
next
  case (Cons sz szs)
  obtain r t where t: "evac_loop sz 8 s = Some (r, t)" "evac_same s t" using evac_loop_same by blast
  show ?case
  proof (cases "sp_evacuation_active s")
    case True
    then obtain qs where "evac_copies szs t = Some (qs, s')"
      using Cons.prems by (auto simp: imx_space_allocate_evacuation_def t(1))
    then show ?thesis using Cons.IH t(2) evac_same_trans by blast
  next
    case False
    then show ?thesis using Cons.prems evac_copies_inactive [OF False, of "sz # szs"] by (simp add: evac_same_def)
  qed
qed

text \<open>
  C21. Evacuation is safe in every reachable state: any sequence of copies succeeds without a failed
  assertion, the copies are pairwise disjoint and disjoint from every live object, and each lies
  in the data area of one block, which is not itself being evacuated.
\<close>

theorem evacuation_safe:
  assumes "os_ok os" "headers_ok mem" "imx_reach os mem (s, Os)" "\<forall>sz \<in> set szs. 0 < sz"
  shows "\<exists>rs s2. evac_copies szs (imx_space_begin_evacuation n s) = Some (rs, s2) \<and>
    sorted_wrt (\<lambda>(a, sz) (c, tz). {a..<a + sz} \<inter> {c..<c + tz} = {}) rs \<and>
    (\<forall>(a, sz) \<in> set rs. (\<forall>(c, tz) \<in> Os. {a..<a + sz} \<inter> {c..<c + tz} = {}) \<and>
       (\<exists>b \<in> set (sp_all s). {a..<a + sz} \<subseteq> {imx_block_data_start b..<imx_block_data_end b} \<and>
          \<not> imx_space_is_evacuation_candidate (imx_space_begin_evacuation n s) b))"
proof -
  have heap: "heap_ok s (bytes_of Os)" using reach_inv [OF assms(3,1,2)] by (simp add: cycle_inv_def)
  have spare: "spare_ok s (bytes_of Os)" using reach_spare [OF assms(3,1,2)] by simp
  have blocks: "blocks_ok s" "set (sp_free s) \<subseteq> set (sp_all s)"
    using heap by (auto simp: heap_ok_def space_inv_def lists_ok_def)
  obtain k s1 where s1: "s1 = imx_space_begin_evacuation n s"
    "sp_evacuation_targets s1 = rev (drop k (sp_evac_reserve s)) @ rev (sp_free s)"
    "sp_evacuation_active s1 \<longrightarrow> sp_evacuation_targets s1 \<noteq> [] \<and> sp_evac_target_idx s1 = 0 \<and>
       sp_evac_cursor s1 = imx_block_data_start (sp_evacuation_targets s1 ! 0) \<and>
       sp_evac_limit s1 = imx_block_data_end (sp_evacuation_targets s1 ! 0)"
    "sp_evacuation_active s1 \<longrightarrow> (\<forall>b \<in> set (sp_all s). bk_defrag_candidate (sp_mem s1 b) \<longrightarrow> fragmented (sp_mem s b))"
    using begin_evacuation_spec [of n s] by blast
  have tsub: "set (sp_evacuation_targets s1) \<subseteq> set (spare s)"
    using set_drop_subset [of k "sp_evac_reserve s"] by (auto simp: s1(2) spare_def)
  have all: "set (spare s) \<subseteq> set (sp_all s)" using spare blocks(2) by (auto simp: spare_ok_def spare_def)
  show ?thesis
  proof (cases "sp_evacuation_active s1")
    case False
    from evac_copies_inactive [OF this] show ?thesis by (simp add: s1(1))
  next
    case True
    have st: "sp_evacuation_targets s1 \<noteq> []" "sp_evac_target_idx s1 = 0"
      "sp_evac_cursor s1 = imx_block_data_start (sp_evacuation_targets s1 ! 0)"
      "sp_evac_limit s1 = imx_block_data_end (sp_evacuation_targets s1 ! 0)" using s1(3) True by simp_all
    have "distinct (sp_evacuation_targets s1)"
      using spare set_drop_subset [of k "sp_evac_reserve s"] by (auto simp: s1(2) spare_ok_def spare_def)
    moreover have "\<forall>b \<in> set (sp_evacuation_targets s1). 0 < b \<and> b mod IMX_BLOCK_SIZE = 0"
      using tsub all blocks(1) unfolding blocks_ok_def by blast
    ultimately have "evac_ok s1 0" using st by (simp add: evac_ok_def)
    from evac_copies_spec [OF this True assms(4)]
    obtain rs s2 where rs: "evac_copies szs s1 = Some (rs, s2)"
      "\<forall>(a, sz) \<in> set rs. \<exists>b \<in> set (sp_evacuation_targets s1). {a..<a + sz} \<subseteq> block_bytes b"
      "sorted_wrt (\<lambda>(a, sz) (c, tz). {a..<a + sz} \<inter> {c..<c + tz} = {}) rs"
      by fast
    have "(\<forall>(c, tz) \<in> Os. {a..<a + sz} \<inter> {c..<c + tz} = {}) \<and>
       (\<exists>b \<in> set (sp_all s). {a..<a + sz} \<subseteq> {imx_block_data_start b..<imx_block_data_end b} \<and>
          \<not> imx_space_is_evacuation_candidate s1 b)" if a: "(a, sz) \<in> set rs" for a sz
    proof -
      obtain b where b: "b \<in> set (sp_evacuation_targets s1)" "{a..<a + sz} \<subseteq> block_bytes b" using rs(2) a by blast
      have sp: "b \<in> set (spare s)" using b(1) tsub by blast
      have "bytes_of Os \<inter> block_bytes b = {}" by (rule spare_dead [OF heap spare sp])
      then have "\<forall>(c, tz) \<in> Os. {a..<a + sz} \<inter> {c..<c + tz} = {}" using b(2) unfolding bytes_of_def by fast
      moreover have "\<not> fragmented (sp_mem s b)" using spare sp by (simp add: spare_ok_def fragmented_def)
      then have "\<not> imx_space_is_evacuation_candidate s1 b"
        using s1(4) True sp all by (auto simp: imx_space_is_evacuation_candidate_def)
      ultimately show ?thesis using sp all b(2) unfolding block_bytes_def by blast
    qed
    then show ?thesis using rs(1,3) unfolding s1(1) by blast
  qed
qed

text \<open>
  Beginning an evacuation, copying any number of objects and ending it returns every target to
  the list it came from: the headroom and the free list hold the blocks they held before.
\<close>

theorem evacuation_roundtrip:
  assumes "evac_copies szs (imx_space_begin_evacuation n s) = Some (rs, s2)" "s3 = imx_space_end_evacuation s2"
  shows "mset (sp_evac_reserve s3) = mset (sp_evac_reserve s) \<and> mset (sp_free s3) = mset (sp_free s) \<and>
    sp_all s3 = sp_all s \<and> sp_evacuation_targets s3 = [] \<and> \<not> sp_evacuation_active s3"
proof -
  obtain k s1 where s1: "s1 = imx_space_begin_evacuation n s"
    "sp_evacuation_targets s1 = rev (drop k (sp_evac_reserve s)) @ rev (sp_free s)"
    "sp_evac_from_reserve s1 = length (drop k (sp_evac_reserve s))"
    "sp_evac_reserve s1 = take k (sp_evac_reserve s)" "sp_free s1 = []" "sp_all s1 = sp_all s"
    using begin_evacuation_spec [of n s] by blast
  have "evac_same s1 s2" using evac_copies_same [OF assms(1)] by (simp add: s1(1))
  then have e: "sp_evacuation_targets s2 = rev (drop k (sp_evac_reserve s)) @ rev (sp_free s)"
    "sp_evac_from_reserve s2 = length (drop k (sp_evac_reserve s))"
    "sp_evac_reserve s2 = take k (sp_evac_reserve s)" "sp_free s2 = []" "sp_all s2 = sp_all s"
    using s1(2-6) by (simp_all add: evac_same_def)
  have "mset (take k xs) + mset (drop k xs) = mset xs" for xs :: "nat list"
    by (metis append_take_drop_id mset_append)
  then show ?thesis unfolding assms(2) imx_space_end_evacuation_def by (simp add: e)
qed

subsection \<open>Witnesses\<close>

definition holey_space :: imx_space where
  "holey_space = (imx_space_init blank_mem)\<lparr>sp_all := [32768],
     sp_mem := blank_mem(32768 := blank_block\<lparr>bk_defrag_holes := 3, bk_defrag_marked := 10\<rparr>)\<rparr>"

theorem candidates_fit_witness: "bk_defrag_candidate (sp_mem (select_candidates 1 holey_space) 32768)"
proof (rule ccontr)
  assume n: "\<not> bk_defrag_candidate (sp_mem (select_candidates 1 holey_space) 32768)"
  have all: "sp_all holey_space = [32768]" by (simp add: holey_space_def)
  have blk: "bk_defrag_marked (sp_mem holey_space 32768) = 10" "bk_defrag_holes (sp_mem holey_space 32768) = 3"
    by (simp_all add: holey_space_def)
  have empty: "{b \<in> set (sp_all holey_space). bk_defrag_candidate (sp_mem (select_candidates 1 holey_space) b)} = {}"
    using n by (simp add: all)
  have "fragmented (sp_mem holey_space 32768)" by (simp add: fragmented_def blk)
  then show False
    using candidates_fit [OF refl refl refl, of holey_space 1] unfolding empty by (simp add: all blk)
qed

theorem evacuation_safe_witness:
  "\<exists>s rs s2. imx_reach some_os blank_mem (s, {(33408, 24)}) \<and>
     evac_copies [24, 640] (imx_space_begin_evacuation 1 s) = Some (rs, s2)"
proof -
  obtain s where s: "imx_reach some_os blank_mem (s, {(33408, 24)})" using reach_one by blast
  show ?thesis using evacuation_safe [OF some_os_ok blank_mem_ok s, of "[24, 640]" 1] s by auto
qed

theorem evacuation_roundtrip_witness:
  "mset (sp_evac_reserve (imx_space_end_evacuation (imx_space_begin_evacuation 1
     (holey_space\<lparr>sp_evac_reserve := [65536, 98304], sp_free := [131072]\<rparr>)))) = {#65536, 98304#}"
  using evacuation_roundtrip [of "[]" 1 "holey_space\<lparr>sp_evac_reserve := [65536, 98304], sp_free := [131072]\<rparr>" "[]", OF _ refl]
  by simp

end
