(* ===== verification/GcModel.thy ===== *)
theory GcModel
  imports ImxEvac
begin

text \<open>
  The collector over the Immix heap, \<open>wasm/src/immix/jav_gc.c\<close> and \<open>jav_gc.h\<close>: objects with a header
  that points to their layout, marking from the roots with opportunistic evacuation, the
  large-object list, and allocation with its collection threshold.

  Memory is a map from object addresses to objects.  An object has its header fields, the length
  word of an array, and the pointer-sized cells of its payload by byte offset.  The roots are the
  contents of the slots that the embedder's enumerator visits, in its order.  A result of \<open>None\<close> is a
  failed assertion or the use of a null layout pointer.
\<close>

section \<open>Objects\<close>

datatype gc_kind = GC_KIND_STRUCT | GC_KIND_ARRAY

record gc_rtt =
  rt_size :: u32
  rt_nfields :: u16
  rt_kind :: gc_kind
  rt_elem_is_ref :: bool
  rt_elem_store_w :: u8
  rt_elem_heap_w :: u8
  rt_field_off :: "u32 list option"
  rt_gid :: int
  rt_ref_offsets :: "u32 list"

definition GC_ARRAY_ELEMS_OFFSET :: nat where
  "GC_ARRAY_ELEMS_OFFSET = 8"

definition GC_ARRAY_ELEM_BYTES :: nat where
  "GC_ARRAY_ELEM_BYTES = 8"

text \<open>The size of the header \<open>gc_obj_t\<close>.\<close>

definition GC_HEADER :: nat where
  "GC_HEADER = 24"

record gc_obj =
  ob_rtt :: "gc_rtt option"
  ob_forward :: nat
  ob_epoch :: u32
  ob_len :: u32
  ob_cell :: "nat \<Rightarrow> nat"

text \<open>The heap stride of an array's elements; 0 stands for the default.\<close>

definition arr_stride :: "gc_rtt \<Rightarrow> u32" where
  "arr_stride r = (if rt_elem_heap_w r \<noteq> 0 then ucast (rt_elem_heap_w r) else word_of_nat GC_ARRAY_ELEM_BYTES)"

text \<open>The byte size of an object, in the 32-bit arithmetic of the code.\<close>

definition rtt_size :: "gc_rtt \<Rightarrow> u32 \<Rightarrow> u32" where
  "rtt_size r len =
     (case rt_kind r of
        GC_KIND_ARRAY \<Rightarrow> word_of_nat GC_HEADER + word_of_nat GC_ARRAY_ELEMS_OFFSET + len * arr_stride r
      | GC_KIND_STRUCT \<Rightarrow> rt_size r)"

definition gc_obj_size :: "gc_obj \<Rightarrow> u32 option" where
  "gc_obj_size ob = map_option (\<lambda>r. rtt_size r (ob_len ob)) (ob_rtt ob)"

text \<open>The byte offsets of the cells the tracer visits.\<close>

definition ref_cells :: "gc_obj \<Rightarrow> nat list option" where
  "ref_cells ob =
     (case ob_rtt ob of
        None \<Rightarrow> None
      | Some r \<Rightarrow>
          Some (case rt_kind r of
                  GC_KIND_ARRAY \<Rightarrow>
                    if rt_elem_is_ref r
                    then map (\<lambda>i. GC_HEADER + GC_ARRAY_ELEMS_OFFSET + 8 * i) [0..<unat (ob_len ob)] else []
                | GC_KIND_STRUCT \<Rightarrow> map unat (rt_ref_offsets r)))"

section \<open>The heap\<close>

text \<open>The invariants the checker names.\<close>

datatype gc_violation =
    Null_rtt | Forwarding | Not_marked | Zero_size | Not_in_los | Unknown_block | Straddles_block
  | Line_free | Los_null | Los_unmarked

type_synonym verdict = "(gc_violation \<times> nat) option"

record gc_heap =
  gh_space :: imx_space
  gh_mem :: "nat \<Rightarrow> gc_obj"
  gh_roots :: "nat list"
  gh_epoch :: u32
  gh_worklist :: "nat list"
  gh_large_objs :: "nat list"
  gh_large_bytes :: u64
  gh_evac_headroom_div :: nat
  gh_bytes_allocated :: u64
  gh_gc_threshold :: u64
  gh_live_bytes :: u64
  gh_on_corruption :: bool
  gh_reports :: "verdict list"

definition GC_INITIAL_THRESHOLD :: u64 where
  "GC_INITIAL_THRESHOLD = 4 * word_of_nat IMX_BLOCK_SIZE"

definition gc_heap_init :: "bmem \<Rightarrow> (nat \<Rightarrow> gc_obj) \<Rightarrow> gc_heap" where
  "gc_heap_init bmem mem =
     \<lparr>gh_space = imx_space_init bmem, gh_mem = mem, gh_roots = [], gh_epoch = 1, gh_worklist = [],
      gh_large_objs = [], gh_large_bytes = 0, gh_evac_headroom_div = 40, gh_bytes_allocated = 0,
      gh_gc_threshold = GC_INITIAL_THRESHOLD, gh_live_bytes = 0, gh_on_corruption = False, gh_reports = []\<rparr>"

text \<open>Destroying releases the storage and leaves a zeroed record.\<close>

definition gc_heap_destroy :: "gc_heap \<Rightarrow> gc_heap" where
  "gc_heap_destroy h =
     \<lparr>gh_space = imx_space_destroy (gh_space h), gh_mem = gh_mem h, gh_roots = [], gh_epoch = 0, gh_worklist = [],
      gh_large_objs = [], gh_large_bytes = 0, gh_evac_headroom_div = 0, gh_bytes_allocated = 0,
      gh_gc_threshold = 0, gh_live_bytes = 0, gh_on_corruption = False, gh_reports = []\<rparr>"

definition gc_obj_live :: "gc_heap \<Rightarrow> gc_obj \<Rightarrow> bool" where
  "gc_obj_live h ob \<longleftrightarrow> ob_epoch ob = gh_epoch h - 1"

definition set_obj :: "nat \<Rightarrow> (gc_obj \<Rightarrow> gc_obj) \<Rightarrow> gc_heap \<Rightarrow> gc_heap" where
  "set_obj a f h = h\<lparr>gh_mem := (gh_mem h)(a := f (gh_mem h a))\<rparr>"

section \<open>Marking\<close>

text \<open>Copy the object to an evacuation target, if its block is evacuated and a target has room.\<close>

definition gc_evacuate :: "nat \<Rightarrow> nat \<Rightarrow> gc_heap \<Rightarrow> (nat \<times> gc_heap) option" where
  "gc_evacuate a sz h =
     (if sp_evacuation_active (gh_space h) \<and> imx_space_is_evacuation_candidate (gh_space h) (imx_block_of a) then
        Option.bind (imx_space_allocate_evacuation sz IMX_OBJECT_ALIGN (gh_space h)) (\<lambda>(dst, sp).
          case dst of
            None \<Rightarrow> Some (a, h\<lparr>gh_space := sp\<rparr>)
          | Some d \<Rightarrow>
              map_option
                (\<lambda>bm. (d, set_obj a (\<lambda>ob. ob\<lparr>ob_forward := d\<rparr>)
                         (set_obj d (\<lambda>_. gh_mem h a) (h\<lparr>gh_space := sp\<lparr>sp_mem := bm\<rparr>\<rparr>))))
                (imx_block_clear_object_start (imx_block_of a) a (sp_mem sp)))
      else Some (a, h))"

definition gc_mark1 :: "nat \<Rightarrow> gc_heap \<Rightarrow> (nat \<times> gc_heap) option" where
  "gc_mark1 v h =
     (if v = 0 then Some (v, h)
      else if v mod IMX_OBJECT_ALIGN \<noteq> 0 then Some (v, h)
      else
        let a = (if ob_forward (gh_mem h v) \<noteq> 0 then ob_forward (gh_mem h v) else v) in
        if ob_epoch (gh_mem h a) = gh_epoch h then Some (a, h)
        else
          Option.bind (gc_obj_size (gh_mem h a)) (\<lambda>sz.
            let h = h\<lparr>gh_live_bytes := gh_live_bytes h + ucast sz\<rparr> in
            if IMX_MEDIUM_MAX < unat sz then
              Some (a, (set_obj a (\<lambda>ob. ob\<lparr>ob_epoch := gh_epoch h\<rparr>) h)\<lparr>gh_worklist := gh_worklist h @ [a]\<rparr>)
            else
              Option.bind (gc_evacuate a (unat sz) h) (\<lambda>(a, h).
                let h = set_obj a (\<lambda>ob. ob\<lparr>ob_epoch := gh_epoch h\<rparr>) h in
                map_option
                  (\<lambda>bm. (a, h\<lparr>gh_space := (gh_space h)\<lparr>sp_mem := bm\<rparr>, gh_worklist := gh_worklist h @ [a]\<rparr>))
                  (imx_block_mark_object (imx_block_of a) a (unat sz) (sp_mem (gh_space h))))))"

text \<open>Mark the roots, and mark what the cells of an object hold; every slot is rewritten in place.\<close>

fun gc_mark_roots :: "nat list \<Rightarrow> gc_heap \<Rightarrow> (nat list \<times> gc_heap) option" where
  "gc_mark_roots [] h = Some ([], h)"
| "gc_mark_roots (r # rs) h =
     Option.bind (gc_mark1 r h) (\<lambda>(r, h). map_option (\<lambda>(rs, h). (r # rs, h)) (gc_mark_roots rs h))"

fun gc_mark_cells :: "nat \<Rightarrow> nat list \<Rightarrow> gc_heap \<Rightarrow> gc_heap option" where
  "gc_mark_cells a [] h = Some h"
| "gc_mark_cells a (off # offs) h =
     Option.bind (gc_mark1 (ob_cell (gh_mem h a) off) h) (\<lambda>(v, h).
       gc_mark_cells a offs (set_obj a (\<lambda>ob. ob\<lparr>ob_cell := (ob_cell ob)(off := v)\<rparr>) h))"

text \<open>The transitive closure over the mark stack.\<close>

partial_function (option) gc_trace :: "gc_heap \<Rightarrow> gc_heap option" where
  "gc_trace h =
     (if gh_worklist h = [] then Some h
      else
        let a = last (gh_worklist h); h = h\<lparr>gh_worklist := butlast (gh_worklist h)\<rparr> in
        Option.bind (ref_cells (gh_mem h a)) (\<lambda>offs. Option.bind (gc_mark_cells a offs h) gc_trace))"

section \<open>The checker\<close>

record gc_verify_ctx =
  cv_fail :: verdict
  cv_work :: "nat list"
  cv_seen :: "nat list"

text \<open>The lines an object occupies in its block, as far as marking covers them.\<close>

definition object_lines :: "nat \<Rightarrow> nat \<Rightarrow> nat list" where
  "object_lines a sz =
     [imx_line_of a..<(if IMX_LINE_SIZE < sz then imx_line_of (a + sz - 1) else imx_line_of a) + 1]"

definition gcv_visit :: "gc_heap \<Rightarrow> nat \<Rightarrow> gc_verify_ctx \<Rightarrow> gc_verify_ctx" where
  "gcv_visit h a v =
     (if cv_fail v \<noteq> None \<or> a = 0 \<or> a mod IMX_OBJECT_ALIGN \<noteq> 0 \<or> a \<in> set (cv_seen v) then v
      else
        let v = v\<lparr>cv_seen := cv_seen v @ [a]\<rparr>; ob = gh_mem h a; sp = gh_space h; b = imx_block_of a in
        case ob_rtt ob of
          None \<Rightarrow> v\<lparr>cv_fail := Some (Null_rtt, a)\<rparr>
        | Some r \<Rightarrow>
            let sz = rtt_size r (ob_len ob) in
            if ob_forward ob \<noteq> 0 then v\<lparr>cv_fail := Some (Forwarding, a)\<rparr>
            else if \<not> gc_obj_live h ob then v\<lparr>cv_fail := Some (Not_marked, a)\<rparr>
            else if sz = 0 then v\<lparr>cv_fail := Some (Zero_size, a)\<rparr>
            else if IMX_MEDIUM_MAX < unat sz then
              if a \<notin> set (gh_large_objs h) then v\<lparr>cv_fail := Some (Not_in_los, a)\<rparr>
              else v\<lparr>cv_work := cv_work v @ [a]\<rparr>
            else if b \<notin> set (sp_all sp) then v\<lparr>cv_fail := Some (Unknown_block, a)\<rparr>
            else if a < imx_block_data_start b \<or> imx_block_data_end b < a + unat sz
              then v\<lparr>cv_fail := Some (Straddles_block, a)\<rparr>
            else if \<exists>l \<in> set (object_lines a (unat sz)). \<not> imx_lb_test (bk_line_marks (sp_mem sp b)) l
              then v\<lparr>cv_fail := Some (Line_free, a)\<rparr>
            else v\<lparr>cv_work := cv_work v @ [a]\<rparr>)"

partial_function (option) gcv_loop :: "gc_heap \<Rightarrow> gc_verify_ctx \<Rightarrow> gc_verify_ctx option" where
  "gcv_loop h v =
     (if cv_fail v \<noteq> None \<or> cv_work v = [] then Some v
      else
        let a = last (cv_work v); v = v\<lparr>cv_work := butlast (cv_work v)\<rparr> in
        Option.bind (ref_cells (gh_mem h a)) (\<lambda>offs.
          gcv_loop h (fold (\<lambda>off. gcv_visit h (ob_cell (gh_mem h a) off)) offs v)))"

definition gcv_los :: "gc_heap \<Rightarrow> nat \<Rightarrow> verdict \<Rightarrow> verdict" where
  "gcv_los h a fl =
     (if fl \<noteq> None then fl
      else if a = 0 then Some (Los_null, 0)
      else if \<not> gc_obj_live h (gh_mem h a) then Some (Los_unmarked, a) else None)"

definition gc_verify :: "gc_heap \<Rightarrow> verdict option" where
  "gc_verify h =
     (let v = fold (gcv_visit h) (gh_roots h) \<lparr>cv_fail = None, cv_work = [], cv_seen = []\<rparr> in
      map_option (\<lambda>v. fold (gcv_los h) (gh_large_objs h) (cv_fail v)) (gcv_loop h v))"

section \<open>Collection\<close>

fun los_sweep_loop :: "nat list \<Rightarrow> gc_heap \<Rightarrow> nat list \<Rightarrow> u64 \<Rightarrow> (nat list \<times> u64) option" where
  "los_sweep_loop [] h kept bytes = Some (kept, bytes)"
| "los_sweep_loop (a # xs) h kept bytes =
     (if ob_epoch (gh_mem h a) = gh_epoch h then los_sweep_loop xs h (kept @ [a]) bytes
      else Option.bind (gc_obj_size (gh_mem h a)) (\<lambda>sz. los_sweep_loop xs h kept (bytes - ucast sz)))"

definition los_sweep :: "gc_heap \<Rightarrow> gc_heap option" where
  "los_sweep h =
     map_option (\<lambda>(kept, bytes). h\<lparr>gh_large_objs := kept, gh_large_bytes := bytes\<rparr>)
       (los_sweep_loop (gh_large_objs h) h [] (gh_large_bytes h))"

definition evac_headroom :: "gc_heap \<Rightarrow> nat" where
  "evac_headroom h =
     (let n = imx_space_total_blocks (gh_space h) div gh_evac_headroom_div h in if n < 1 then 1 else n)"

text \<open>The new budget: the threshold follows the live set.\<close>

definition gc_rebase :: "gc_heap \<Rightarrow> gc_heap" where
  "gc_rebase h =
     (let h = h\<lparr>gh_bytes_allocated := gh_live_bytes h\<rparr> in
      if gh_gc_threshold h div 2 < gh_bytes_allocated h then
        let base = (if gh_gc_threshold h < gh_bytes_allocated h then gh_bytes_allocated h else gh_gc_threshold h)
        in h\<lparr>gh_gc_threshold := base + base div 2\<rparr>
      else h)"

definition gc_report :: "gc_heap \<Rightarrow> gc_heap option" where
  "gc_report h =
     (if gh_on_corruption h then
        map_option (\<lambda>r. if r \<noteq> None then h\<lparr>gh_reports := gh_reports h @ [r]\<rparr> else h) (gc_verify h)
      else Some h)"

definition gc_collect :: "gc_heap \<Rightarrow> gc_heap option" where
  "gc_collect h =
     (let h = h\<lparr>gh_space := imx_space_clear_marks (gh_space h)\<rparr>;
          h = h\<lparr>gh_space := imx_space_begin_evacuation (evac_headroom h) (gh_space h),
                gh_live_bytes := 0, gh_worklist := []\<rparr>
      in Option.bind (gc_mark_roots (gh_roots h) h) (\<lambda>(rs, h).
         Option.bind (gc_trace (h\<lparr>gh_roots := rs\<rparr>)) (\<lambda>h.
         let h = h\<lparr>gh_space := imx_space_end_evacuation (gh_space h)\<rparr>;
             h = h\<lparr>gh_space := imx_space_reclaim (evac_headroom h) (gh_space h)\<rparr>
         in Option.bind (los_sweep h) (\<lambda>h. gc_report (gc_rebase (h\<lparr>gh_epoch := gh_epoch h + 1\<rparr>))))))"

section \<open>Allocation\<close>

text \<open>
  \<open>aligned_alloc\<close> and \<open>malloc\<close> are parameters: functions of the whole heap at the call, giving the
  address of the new storage or \<open>None\<close>.
\<close>

type_synonym gc_os = "gc_heap \<Rightarrow> os_alloc"
type_synonym gc_malloc = "gc_heap \<Rightarrow> nat \<Rightarrow> nat option"

definition alloc_large :: "gc_malloc \<Rightarrow> nat \<Rightarrow> gc_heap \<Rightarrow> nat option \<times> gc_heap" where
  "alloc_large ml sz h =
     (case ml h sz of
        None \<Rightarrow> (None, h)
      | Some a \<Rightarrow>
          (Some a, h\<lparr>gh_large_objs := gh_large_objs h @ [a], gh_large_bytes := gh_large_bytes h + word_of_nat sz\<rparr>))"

definition alloc_raw :: "gc_os \<Rightarrow> gc_malloc \<Rightarrow> nat \<Rightarrow> gc_heap \<Rightarrow> (nat option \<times> gc_heap) option" where
  "alloc_raw os ml sz h =
     (if IMX_MEDIUM_MAX < sz then Some (alloc_large ml sz h)
      else map_option (\<lambda>(r, sp). (r, h\<lparr>gh_space := sp\<rparr>))
             (imx_space_allocate (os h) sz IMX_OBJECT_ALIGN (gh_space h)))"

text \<open>Zero the object and set its layout.\<close>

definition fresh_obj :: "gc_rtt \<Rightarrow> gc_obj" where
  "fresh_obj r = \<lparr>ob_rtt = Some r, ob_forward = 0, ob_epoch = 0, ob_len = 0, ob_cell = (\<lambda>_. 0)\<rparr>"

definition gc_alloc :: "gc_os \<Rightarrow> gc_malloc \<Rightarrow> gc_rtt \<Rightarrow> u32 \<Rightarrow> gc_heap \<Rightarrow> (nat option \<times> gc_heap) option" where
  "gc_alloc os ml r sz h =
     Option.bind (if gh_gc_threshold h \<le> gh_bytes_allocated h + ucast sz then gc_collect h else Some h) (\<lambda>h.
     Option.bind (alloc_raw os ml (unat sz) h) (\<lambda>(p, h).
     Option.bind (case p of
                    Some a \<Rightarrow> Some (Some a, h)
                  | None \<Rightarrow> Option.bind (gc_collect h) (alloc_raw os ml (unat sz))) (\<lambda>(p, h).
     Some (case p of
             None \<Rightarrow> (None, h)
           | Some a \<Rightarrow>
               (Some a, (set_obj a (\<lambda>_. fresh_obj r) h)\<lparr>gh_bytes_allocated := gh_bytes_allocated h + ucast sz\<rparr>)))))"

section \<open>The constructors of the runtime\<close>

text \<open>
  \<open>jav_struct_alloc\<close>, \<open>jav_array_alloc\<close> and \<open>jav_array_new_default\<close> of \<open>jav_runtime.c\<close> over the layouts
  \<open>rtts\<close> of the module; the address is \<open>None\<close> where they trap.
\<close>

definition jav_struct_alloc ::
  "gc_os \<Rightarrow> gc_malloc \<Rightarrow> gc_rtt list \<Rightarrow> u32 \<Rightarrow> gc_heap \<Rightarrow> (nat option \<times> gc_heap) option" where
  "jav_struct_alloc os ml rtts typ h =
     (if length rtts \<le> unat typ then Some (None, h)
      else gc_alloc os ml (rtts ! unat typ) (rt_size (rtts ! unat typ)) h)"

definition jav_array_alloc ::
  "gc_os \<Rightarrow> gc_malloc \<Rightarrow> gc_rtt list \<Rightarrow> u32 \<Rightarrow> u32 \<Rightarrow> gc_heap \<Rightarrow> (nat option \<times> gc_heap) option" where
  "jav_array_alloc os ml rtts typ n h =
     (if length rtts \<le> unat typ \<or> sint n < 0 then Some (None, h)
      else
        let r = rtts ! unat typ;
            sz = word_of_nat GC_HEADER + word_of_nat GC_ARRAY_ELEMS_OFFSET + n * arr_stride r
        in map_option
             (\<lambda>(p, h). case p of
                None \<Rightarrow> (None, h)
              | Some a \<Rightarrow> (Some a, set_obj a (\<lambda>ob. ob\<lparr>ob_len := n\<rparr>) h))
             (gc_alloc os ml r sz h))"

text \<open>The default elements of a reference array are null, which the zeroed payload already holds.\<close>

definition jav_array_new_default ::
  "gc_os \<Rightarrow> gc_malloc \<Rightarrow> gc_rtt list \<Rightarrow> u32 \<Rightarrow> u32 \<Rightarrow> gc_heap \<Rightarrow> (nat option \<times> gc_heap) option" where
  "jav_array_new_default os ml rtts typ n h =
     map_option
       (\<lambda>(p, h). case p of
          None \<Rightarrow> (None, h)
        | Some a \<Rightarrow>
            (Some a,
             if rt_elem_is_ref (rtts ! unat typ) then
               set_obj a (\<lambda>ob. ob\<lparr>ob_cell :=
                 fold (\<lambda>i c. c(GC_HEADER + GC_ARRAY_ELEMS_OFFSET + 8 * i := 0)) [0..<unat n] (ob_cell ob)\<rparr>) h
             else h))
       (jav_array_alloc os ml rtts typ n h)"

end
