(* ===== verification/GcSpace.thy ===== *)
theory GcSpace
  imports ImxEvacRules GcModel
begin

text \<open>
  The heap during a collection.  \<open>trace_ok s U Ms\<close> is the invariant of the space between the start
  of the evacuation and the sweep: \<open>U\<close> are the bytes of all objects and copies, \<open>Ms\<close> the objects
  marked so far.  Each operation of the tracer keeps it, and the sweep turns it into the
  invariant of the mutator with exactly the marked objects in use.
\<close>

section \<open>The invariant\<close>

definition object_marked :: "imx_space \<Rightarrow> nat \<Rightarrow> nat \<Rightarrow> bool" where
  "object_marked s a sz \<longleftrightarrow>
     set (object_lines a sz) \<subseteq> lines.elems (bk_line_marks (sp_mem s (imx_block_of a)))"

definition trace_ok :: "imx_space \<Rightarrow> nat set \<Rightarrow> (nat \<times> nat) set \<Rightarrow> bool" where
  "trace_ok s U Ms \<longleftrightarrow>
     blocks_ok s \<and> protected s (bytes_of Ms) \<and> (\<forall>(a, sz) \<in> Ms. object_marked s a sz) \<and>
     (sp_evacuation_active s \<longrightarrow>
        set (sp_evacuation_targets s) \<subseteq> set (sp_all s) \<and> (\<exists>j. evac_ok s j \<and> evac_room s j \<inter> U = {}))"

text \<open>Changes of the headers that leave the line marks alone.\<close>

lemma trace_ok_starts:
  assumes ok: "trace_ok s U Ms"
    and mem: "\<And>b. bk_line_marks (bm b) = bk_line_marks (sp_mem s b)" "\<And>b. length (bk_object_starts (bm b)) = 512"
  shows "trace_ok (s\<lparr>sp_mem := bm\<rparr>) U Ms"
proof -
  let ?s = "s\<lparr>sp_mem := bm\<rparr>"
  have "blocks_ok ?s" using ok mem by (simp add: trace_ok_def blocks_ok_def)
  moreover have "protected ?s (bytes_of Ms)"
    using ok by (simp add: trace_ok_def protected_def owned_def free_bytes_def mem)
  moreover have "object_marked ?s a sz = object_marked s a sz" for a sz by (simp add: object_marked_def mem)
  moreover have "evac_ok ?s j = evac_ok s j" "evac_room ?s j = evac_room s j" for j
    by (simp_all add: evac_ok_def evac_room_def)
  ultimately show ?thesis using ok by (simp add: trace_ok_def)
qed

lemma blocks_ok_lengths:
  "blocks_ok s \<Longrightarrow> length (bk_line_marks (sp_mem s b)) = 32 \<and> length (bk_object_starts (sp_mem s b)) = 512"
  by (simp add: blocks_ok_def)

lemma trace_clear_start:
  assumes "trace_ok s U Ms"
  obtains bm where "imx_block_clear_object_start (imx_block_of a) a (sp_mem s) = Some bm" "trace_ok (s\<lparr>sp_mem := bm\<rparr>) U Ms"
proof -
  let ?b = "imx_block_of a"
  let ?bm = "(sp_mem s)(?b := (sp_mem s ?b)\<lparr>bk_object_starts := imx_ob_clear_bit (bk_object_starts (sp_mem s ?b)) (imx_word_of a)\<rparr>)"
  have "imx_block_clear_object_start ?b a (sp_mem s) = Some ?bm"
    by (simp add: imx_block_clear_object_start_def imx_block_owns_def)
  moreover have "blocks_ok s" using assms by (simp add: trace_ok_def)
  then have "trace_ok (s\<lparr>sp_mem := ?bm\<rparr>) U Ms"
    using blocks_ok_lengths [of s] by (intro trace_ok_starts [OF assms]) (auto simp: imx_ob_clear_bit_def)
  ultimately show thesis by (rule that)
qed

section \<open>Start of the trace\<close>

lemma begin_evacuation_keeps:
  "sp_pool (imx_space_begin_evacuation n s) = sp_pool s"
  "sp_all (imx_space_begin_evacuation n s) = sp_all s"
  "bk_line_marks (sp_mem (imx_space_begin_evacuation n s) b) = bk_line_marks (sp_mem s b)"
  "bk_object_starts (sp_mem (imx_space_begin_evacuation n s) b) = bk_object_starts (sp_mem s b)"
proof -
  have r: "sp_pool (take_reserve n s) = sp_pool s \<and> sp_all (take_reserve n s) = sp_all s \<and> sp_mem (take_reserve n s) = sp_mem s" for s
    using take_reserve_spec [of n s] by auto
  have c: "sp_pool (select_candidates k t) = sp_pool t \<and> sp_all (select_candidates k t) = sp_all t \<and>
      bk_line_marks (sp_mem (select_candidates k t) b) = bk_line_marks (sp_mem t b) \<and>
      bk_object_starts (sp_mem (select_candidates k t) b) = bk_object_starts (sp_mem t b)" for k t
    by (rule select_candidates_spec [of t k]) (simp add: flag_def)
  show "sp_pool (imx_space_begin_evacuation n s) = sp_pool s"
    "sp_all (imx_space_begin_evacuation n s) = sp_all s"
    "bk_line_marks (sp_mem (imx_space_begin_evacuation n s) b) = bk_line_marks (sp_mem s b)"
    "bk_object_starts (sp_mem (imx_space_begin_evacuation n s) b) = bk_object_starts (sp_mem s b)"
    by (simp_all add: imx_space_begin_evacuation_def Let_def r c)
qed

lemma trace_start:
  assumes heap: "heap_ok s U" and spare: "spare_ok s U"
    and t_def: "t = imx_space_begin_evacuation n (imx_space_clear_marks s)"
  shows "trace_ok t U {}" "sp_all t = sp_all s"
proof -
  let ?c = "imx_space_clear_marks s"
  have ok: "blocks_ok s" "lists_ok s" using heap by (auto simp: heap_ok_def space_inv_def)
  note cl = clear_marks_ok [OF ok(1)]
  show all: "sp_all t = sp_all s" by (simp add: t_def begin_evacuation_keeps cl(2))
  have sel: "sp_evac_reserve ?c = sp_evac_reserve s" "sp_free ?c = sp_free s" by (simp_all add: imx_space_clear_marks_def)
  have blocks: "blocks_ok t" using cl(1) by (simp add: t_def blocks_ok_def begin_evacuation_keeps)
  have prot: "protected t (bytes_of {})" by (simp add: protected_def bytes_of_def)
  obtain k where k: "sp_evacuation_targets t = rev (drop k (sp_evac_reserve s)) @ rev (sp_free s)"
    "sp_evacuation_active t \<longrightarrow> sp_evacuation_targets t \<noteq> [] \<and> sp_evac_target_idx t = 0 \<and>
       sp_evac_cursor t = imx_block_data_start (sp_evacuation_targets t ! 0) \<and>
       sp_evac_limit t = imx_block_data_end (sp_evacuation_targets t ! 0)"
    using begin_evacuation_spec [of n ?c] unfolding t_def sel by blast
  let ?T = "sp_evacuation_targets t"
  have tsub: "set ?T \<subseteq> set (spare s)" using set_drop_subset [of k "sp_evac_reserve s"] by (auto simp: k(1) spare_def)
  have sall: "set (spare s) \<subseteq> set (sp_all s)" using spare ok(2) by (auto simp: spare_ok_def spare_def lists_ok_def)
  have dis: "distinct ?T"
    using spare set_drop_subset [of k "sp_evac_reserve s"] by (auto simp: k(1) spare_ok_def spare_def)
  have al: "\<forall>b \<in> set ?T. 0 < b \<and> b mod IMX_BLOCK_SIZE = 0"
    using tsub sall ok(1) unfolding blocks_ok_def by blast
  have "evac_ok t 0 \<and> evac_room t 0 \<inter> U = {}" if act: "sp_evacuation_active t"
  proof
    have st: "?T \<noteq> []" "sp_evac_target_idx t = 0" "sp_evac_cursor t = imx_block_data_start (?T ! 0)"
      "sp_evac_limit t = imx_block_data_end (?T ! 0)" using k(2) act by simp_all
    show ev: "evac_ok t 0" using dis al st by (simp add: evac_ok_def)
    have "evac_room t 0 \<subseteq> targets_bytes t" by (rule evac_room_targets [OF ev])
    moreover have "block_bytes b \<inter> U = {}" if "b \<in> set ?T" for b
      using spare_dead [OF heap spare, of b] that tsub by blast
    ultimately show "evac_room t 0 \<inter> U = {}" unfolding targets_bytes_def by blast
  qed
  moreover have "set ?T \<subseteq> set (sp_all t)" using tsub sall all by simp
  ultimately show "trace_ok t U {}" using blocks prot by (auto simp: trace_ok_def)
qed

section \<open>Copying\<close>

text \<open>What an evacuation allocation keeps besides \<open>evac_same\<close>.\<close>

lemma evac_loop_headers:
  assumes "evac_loop sz al s = Some (r, s')"
  shows "sp_pool s' = sp_pool s \<and> (\<forall>b. bk_line_marks (sp_mem s' b) = bk_line_marks (sp_mem s b)) \<and>
    (\<forall>b. length (bk_object_starts (sp_mem s' b)) = length (bk_object_starts (sp_mem s b))) \<and>
    (\<forall>p. r = Some p \<longrightarrow> (\<exists>c. p = align_up c al \<and> c \<noteq> 0))"
  using assms
proof (induction sz al s rule: evac_loop.induct)
  case (1 sz al s)
  let ?p = "align_up (sp_evac_cursor s) al" and ?s = "s\<lparr>sp_evac_target_idx := sp_evac_target_idx s + 1\<rparr>"
  show ?case
  proof (cases "sp_evac_cursor s \<noteq> 0 \<and> ?p + sz \<le> sp_evac_limit s")
    case True
    then have "record_at (imx_block_of ?p) ?p (s\<lparr>sp_evac_cursor := ?p + sz\<rparr>) = Some (r, s')"
      using 1(2) by (subst (asm) evac_loop.simps) (simp add: Let_def)
    then show ?thesis
      using True by (auto simp: record_at_def imx_block_record_allocation_def imx_ob_set_def split: if_splits)
  next
    case False
    show ?thesis
    proof (cases "length (sp_evacuation_targets ?s) \<le> sp_evac_target_idx ?s")
      case True
      then show ?thesis using False 1(2) by (subst (asm) evac_loop.simps) (auto simp: Let_def)
    next
      case more: False
      let ?t = "?s\<lparr>sp_evac_cursor := imx_block_data_start (sp_evacuation_targets ?s ! sp_evac_target_idx ?s),
          sp_evac_limit := imx_block_data_end (sp_evacuation_targets ?s ! sp_evac_target_idx ?s)\<rparr>"
      have "evac_loop sz al s = evac_loop sz al ?t" using False more by (subst evac_loop.simps) (auto simp: Let_def)
      then have "evac_loop sz al ?t = Some (r, s')" using 1(2) by simp
      from 1(1) [OF refl False refl more refl this] show ?thesis by simp
    qed
  qed
qed

lemma trace_evac:
  assumes ok: "trace_ok s U Ms" and act: "sp_evacuation_active s" and sz: "0 < sz"
  obtains r s' where "imx_space_allocate_evacuation sz 8 s = Some (r, s')" "sp_all s' = sp_all s"
    "\<And>b. bk_line_marks (sp_mem s' b) = bk_line_marks (sp_mem s b)"
    "r = None \<Longrightarrow> trace_ok s' U Ms"
    "\<And>p. r = Some p \<Longrightarrow> p mod 8 = 0 \<and> 0 < p \<and> {p..<p + sz} \<inter> U = {} \<and>
       (\<exists>b \<in> set (sp_all s). {p..<p + sz} \<subseteq> block_bytes b) \<and> trace_ok s' (U \<union> {p..<p + sz}) Ms"
proof -
  obtain r s' where l: "evac_loop sz 8 s = Some (r, s')" "evac_same s s'" using evac_loop_same by blast
  note hd = evac_loop_headers [OF l(1)]
  obtain j where j: "evac_ok s j" "evac_room s j \<inter> U = {}" using ok act by (auto simp: trace_ok_def)
  have "(0 :: nat) < 8" by simp
  from evac_loop_room [OF l(1) j(1) this sz]
  obtain i where i: "evac_ok s' i" "evac_room s' i \<subseteq> evac_room s j"
    "\<forall>p. r = Some p \<longrightarrow> {p..<p + sz} \<subseteq> evac_room s j \<and> {p..<p + sz} \<inter> evac_room s' i = {} \<and>
      (\<exists>b \<in> set (sp_evacuation_targets s). {p..<p + sz} \<subseteq> block_bytes b)"
    by (elim exE conjE)
  have T: "set (sp_evacuation_targets s) \<subseteq> set (sp_all s)" using ok act by (simp add: trace_ok_def)
  have same: "sp_all s' = sp_all s" "sp_evacuation_targets s' = sp_evacuation_targets s" "sp_evacuation_active s'"
    using l(2) act by (simp_all add: evac_same_def)
  have blocks: "blocks_ok s'" using ok hd by (simp add: trace_ok_def blocks_ok_def same)
  have prot: "protected s' (bytes_of Ms)"
    using ok hd by (simp add: trace_ok_def protected_def owned_def free_bytes_def same)
  have marked: "\<forall>(a, sz) \<in> Ms. object_marked s' a sz" using ok hd by (auto simp: trace_ok_def object_marked_def)
  have tr: "trace_ok s' V Ms" if "evac_room s' i \<inter> V = {}" for V
    using blocks prot marked i(1) that T same by (auto simp: trace_ok_def)
  have none: "trace_ok s' U Ms" using i(2) j(2) by (intro tr) blast
  have some: "p mod 8 = 0 \<and> 0 < p \<and> {p..<p + sz} \<inter> U = {} \<and>
       (\<exists>b \<in> set (sp_all s). {p..<p + sz} \<subseteq> block_bytes b) \<and> trace_ok s' (U \<union> {p..<p + sz}) Ms" if p: "r = Some p" for p
  proof -
    have in_room: "{p..<p + sz} \<subseteq> evac_room s j" "{p..<p + sz} \<inter> evac_room s' i = {}"
      "\<exists>b \<in> set (sp_evacuation_targets s). {p..<p + sz} \<subseteq> block_bytes b" using i(3) p by simp_all
    obtain c where c: "p = align_up c 8" "c \<noteq> 0" using hd p by auto
    have "p mod 8 = 0" by (simp add: c(1) align_up_def)
    moreover have "0 < p" using align_up_ge [of 8 c] c by simp
    moreover have "{p..<p + sz} \<inter> U = {}" using in_room(1) j(2) by blast
    moreover have "\<exists>b \<in> set (sp_all s). {p..<p + sz} \<subseteq> block_bytes b" using in_room(3) T by blast
    moreover have "trace_ok s' (U \<union> {p..<p + sz}) Ms" using i(2) j(2) in_room(2) by (intro tr) blast
    ultimately show ?thesis by blast
  qed
  have run: "imx_space_allocate_evacuation sz 8 s = Some (r, s')"
    using l(1) act by (simp add: imx_space_allocate_evacuation_def)
  have lm: "\<And>b. bk_line_marks (sp_mem s' b) = bk_line_marks (sp_mem s b)" using hd by blast
  show thesis by (rule that [OF run same(1) lm none some])
qed

section \<open>Marking\<close>

lemma in_block_bytes:
  assumes "{a..<a + sz} \<subseteq> block_bytes b" "0 < sz"
  shows "imx_block_data_start b \<le> a" "a + sz \<le> imx_block_data_end b" "a \<in> block_bytes b"
proof -
  have e: "a \<in> block_bytes b" "a + sz - 1 \<in> block_bytes b" using assms by auto
  then show "imx_block_data_start b \<le> a" "a + sz \<le> imx_block_data_end b" "a \<in> block_bytes b"
    by (auto simp: block_bytes_def)
qed

lemma trace_mark:
  assumes ok: "trace_ok s U Ms" and b: "b \<in> set (sp_all s)" "{a..<a + sz} \<subseteq> block_bytes b" and sz: "0 < sz"
  obtains bm where "imx_block_mark_object (imx_block_of a) a sz (sp_mem s) = Some bm"
    "trace_ok (s\<lparr>sp_mem := bm\<rparr>) U (insert (a, sz) Ms)"
proof -
  have blocks: "blocks_ok s" and prot: "protected s (bytes_of Ms)" using ok by (simp_all add: trace_ok_def)
  have al: "b mod 32768 = 0" using blocks b(1) by (simp add: blocks_ok_def)
  note ib = in_block_bytes [OF b(2) sz]
  have bo: "imx_block_of a = b" by (rule in_block_of [OF ib(3) al])
  have oib: "object_in_block b a sz" using ib sz al by (simp add: object_in_block_def)
  have len: "length (bk_line_marks (sp_mem s b)) = 32" using blocks by (simp add: blocks_ok_def)
  obtain m last where m: "imx_block_mark_object b a sz (sp_mem s) = Some ((sp_mem s)(b := (sp_mem s b)\<lparr>bk_line_marks := m\<rparr>))"
    "lines.elems m = lines.elems (bk_line_marks (sp_mem s b)) \<union> {imx_line_of a..last}"
    "last = (if 128 < sz then imx_line_of (a + sz - 1) else imx_line_of a)"
    using mark_object [of b a sz "sp_mem s", OF oib len] by blast
  let ?bm = "(sp_mem s)(b := (sp_mem s b)\<lparr>bk_line_marks := m\<rparr>)"
  let ?s = "s\<lparr>sp_mem := ?bm\<rparr>"
  have mp: "blocks_ok ?s \<and> protected ?s (bytes_of Ms \<union> {a..<a + sz})"
    by (rule mark_protects [OF blocks prot b sz m(1)])
  have "bytes_of (insert (a, sz) Ms) = bytes_of Ms \<union> {a..<a + sz}" by (auto simp: bytes_of_def)
  then have p: "protected ?s (bytes_of (insert (a, sz) Ms))" using mp by simp
  have grow: "lines.elems (bk_line_marks (sp_mem s c)) \<subseteq> lines.elems (bk_line_marks (sp_mem ?s c))" for c
    using m(2) by (cases "c = b") auto
  have "object_marked ?s c tz" if "(c, tz) \<in> Ms" for c tz
  proof -
    have "object_marked s c tz" using ok that by (auto simp: trace_ok_def)
    then show ?thesis using grow [of "imx_block_of c"] unfolding object_marked_def by (rule subset_trans)
  qed
  moreover have "object_marked ?s a sz"
    by (auto simp: object_marked_def object_lines_def bo m(2,3))
  ultimately have om: "\<forall>(c, tz) \<in> insert (a, sz) Ms. object_marked ?s c tz" by auto
  have "evac_ok ?s j = evac_ok s j" "evac_room ?s j = evac_room s j" for j
    by (simp_all add: evac_ok_def evac_room_def)
  then have "trace_ok ?s U (insert (a, sz) Ms)" using ok mp p om by (simp add: trace_ok_def)
  then show thesis using that m(1) by (simp add: bo)
qed

section \<open>End of the trace\<close>

lemma trace_end:
  assumes ok: "trace_ok s U Ms" and t_def: "t = imx_space_reclaim n (imx_space_end_evacuation s)"
  shows "heap_ok t (bytes_of Ms)" "spare_ok t (bytes_of Ms)" "sp_all t = sp_all s"
    "\<And>a sz. (a, sz) \<in> Ms \<Longrightarrow> object_marked t a sz"
proof -
  let ?e = "imx_space_end_evacuation s"
  have sel: "sp_mem ?e = sp_mem s" "sp_all ?e = sp_all s" "sp_pool ?e = sp_pool s"
    by (simp_all add: imx_space_end_evacuation_def)
  have e: "blocks_ok ?e" "protected ?e (bytes_of Ms)"
    using ok by (simp_all add: trace_ok_def blocks_ok_def protected_def owned_def free_bytes_def sel)
  show "heap_ok t (bytes_of Ms)" unfolding t_def by (rule reclaim_heap_ok [OF e])
  show "spare_ok t (bytes_of Ms)" unfolding t_def by (rule reclaim_spare_ok [OF e])
  have d: "distinct (sp_all ?e)" using e(1) by (simp add: blocks_ok_def)
  note rr = reclaim_result [OF d refl refl, of n]
  show "sp_all t = sp_all s" unfolding t_def rr(2) by (rule sel(2))
  show "object_marked t a sz" if "(a, sz) \<in> Ms" for a sz
    using ok that by (auto simp: trace_ok_def object_marked_def t_def rr(1) sel)
qed

end
