(* ===== verification/GcTrace.thy ===== *)
theory GcTrace
  imports GcSpace
begin

text \<open>
  The trace.  During a collection every object of the heap is unmarked and as it was, or marked and
  then found at its new address \<open>\<phi> a\<close>, with every reference either old or already replaced by the
  new address of a marked object.  When the mark stack is empty the marked objects are the
  reachable ones and \<open>\<phi>\<close> is an isomorphism of the object graph.
\<close>

section \<open>The object graph\<close>

text \<open>A slot content that is an address: not null and aligned.\<close>

definition is_ref :: "nat \<Rightarrow> bool" where
  "is_ref v \<longleftrightarrow> v \<noteq> 0 \<and> v mod IMX_OBJECT_ALIGN = 0"

definition obj_cells :: "gc_obj \<Rightarrow> nat list" where
  "obj_cells ob = (case ref_cells ob of Some offs \<Rightarrow> offs | None \<Rightarrow> [])"

definition osize :: "gc_obj \<Rightarrow> nat" where
  "osize ob = (case gc_obj_size ob of Some sz \<Rightarrow> unat sz | None \<Rightarrow> 0)"

text \<open>The object has a layout, and its references lie between its header and its end.\<close>

definition obj_wf :: "gc_obj \<Rightarrow> bool" where
  "obj_wf ob \<longleftrightarrow> ob_rtt ob \<noteq> None \<and> GC_HEADER \<le> osize ob \<and>
     (\<forall>off \<in> set (obj_cells ob). GC_HEADER \<le> off \<and> off + 8 \<le> osize ob)"

definition refs_of :: "(nat \<Rightarrow> gc_obj) \<Rightarrow> nat \<Rightarrow> nat set" where
  "refs_of mem a = {v. is_ref v \<and> v \<in> ob_cell (mem a) ` set (obj_cells (mem a))}"

inductive_set reach :: "(nat \<Rightarrow> gc_obj) \<Rightarrow> nat list \<Rightarrow> nat set" for mem roots where
  reach_root: "v \<in> set roots \<Longrightarrow> is_ref v \<Longrightarrow> v \<in> reach mem roots"
| reach_ref: "a \<in> reach mem roots \<Longrightarrow> v \<in> refs_of mem a \<Longrightarrow> v \<in> reach mem roots"

text \<open>The objects that live in blocks, with their sizes.\<close>

definition small_objs :: "(nat \<Rightarrow> gc_obj) \<Rightarrow> nat set \<Rightarrow> (nat \<times> nat) set" where
  "small_objs mem D = {(a, osize (mem a)) | a. a \<in> D \<and> osize (mem a) \<le> IMX_MEDIUM_MAX}"

section \<open>The heap invariant\<close>

definition objs_ok :: "gc_heap \<Rightarrow> nat set \<Rightarrow> bool" where
  "objs_ok h D \<longleftrightarrow> finite D \<and>
     (\<forall>a \<in> D. is_ref a \<and> obj_wf (gh_mem h a) \<and> ob_forward (gh_mem h a) = 0 \<and> ob_epoch (gh_mem h a) \<noteq> gh_epoch h)"

definition refs_closed :: "gc_heap \<Rightarrow> nat set \<Rightarrow> bool" where
  "refs_closed h D \<longleftrightarrow>
     (\<forall>v \<in> set (gh_roots h). is_ref v \<longrightarrow> v \<in> D) \<and> (\<forall>a \<in> D. refs_of (gh_mem h) a \<subseteq> D)"

definition large_ok :: "gc_heap \<Rightarrow> nat set \<Rightarrow> bool" where
  "large_ok h D \<longleftrightarrow>
     distinct (gh_large_objs h) \<and> set (gh_large_objs h) = {a \<in> D. IMX_MEDIUM_MAX < osize (gh_mem h a)} \<and>
     (\<forall>a \<in> set (gh_large_objs h). \<forall>b \<in> set (sp_all (gh_space h)).
        {a..<a + osize (gh_mem h a)} \<inter> {b..<b + IMX_BLOCK_SIZE} = {}) \<and>
     objects_disjoint {(a, osize (gh_mem h a)) | a. a \<in> set (gh_large_objs h)} \<and>
     gh_large_bytes h = word_of_nat (\<Sum>a \<leftarrow> gh_large_objs h. osize (gh_mem h a))"

definition smalls_ok :: "gc_heap \<Rightarrow> nat set \<Rightarrow> bool" where
  "smalls_ok h D \<longleftrightarrow>
     heap_ok (gh_space h) (bytes_of (small_objs (gh_mem h) D)) \<and>
     spare_ok (gh_space h) (bytes_of (small_objs (gh_mem h) D)) \<and>
     resident (gh_space h) (small_objs (gh_mem h) D) \<and> objects_disjoint (small_objs (gh_mem h) D)"

definition gc_inv :: "gc_heap \<Rightarrow> nat set \<Rightarrow> bool" where
  "gc_inv h D \<longleftrightarrow> objs_ok h D \<and> refs_closed h D \<and> large_ok h D \<and> smalls_ok h D \<and>
     0 < gh_epoch h \<and> 0 < gh_evac_headroom_div h"

lemma reach_sub:
  assumes "refs_closed h D"
  shows "reach (gh_mem h) (gh_roots h) \<subseteq> D"
proof
  fix a assume "a \<in> reach (gh_mem h) (gh_roots h)"
  then show "a \<in> D" using assms by induction (auto simp: refs_closed_def)
qed

lemma objs_okD:
  assumes "objs_ok h D" "a \<in> D"
  obtains r where "ob_rtt (gh_mem h a) = Some r" "gc_obj_size (gh_mem h a) = Some (rtt_size r (ob_len (gh_mem h a)))"
    "osize (gh_mem h a) = unat (rtt_size r (ob_len (gh_mem h a)))" "24 \<le> osize (gh_mem h a)"
    "ref_cells (gh_mem h a) = Some (obj_cells (gh_mem h a))"
  using assms by (force simp: objs_ok_def obj_wf_def osize_def gc_obj_size_def GC_HEADER_def obj_cells_def ref_cells_def)

section \<open>The invariant of the trace\<close>

definition fwd :: "(nat \<Rightarrow> nat) \<Rightarrow> nat \<Rightarrow> nat" where
  "fwd \<phi> v = (if is_ref v then \<phi> v else v)"

text \<open>
  \<open>ob\<close> is the object \<open>ob0\<close> with references to the objects of \<open>K\<close> replaced by their new addresses; all
  of them when \<open>full\<close>.
\<close>

definition obj_image :: "(nat \<Rightarrow> nat) \<Rightarrow> nat set \<Rightarrow> gc_obj \<Rightarrow> bool \<Rightarrow> gc_obj \<Rightarrow> bool" where
  "obj_image \<phi> K ob0 full ob \<longleftrightarrow>
     ob_rtt ob = ob_rtt ob0 \<and> ob_len ob = ob_len ob0 \<and> ob_forward ob = 0 \<and>
     (\<forall>off. off \<notin> set (obj_cells ob0) \<or> \<not> is_ref (ob_cell ob0 off) \<longrightarrow> ob_cell ob off = ob_cell ob0 off) \<and>
     (\<forall>off \<in> set (obj_cells ob0). is_ref (ob_cell ob0 off) \<longrightarrow>
        (\<not> full \<and> ob_cell ob off = ob_cell ob0 off) \<or>
        (ob_cell ob0 off \<in> K \<and> ob_cell ob off = \<phi> (ob_cell ob0 off)))"

text \<open>What a collection does not touch before the sweep.\<close>

definition gc_same :: "gc_heap \<Rightarrow> gc_heap \<Rightarrow> bool" where
  "gc_same h0 h \<longleftrightarrow>
     gh_epoch h = gh_epoch h0 \<and> gh_large_objs h = gh_large_objs h0 \<and> gh_large_bytes h = gh_large_bytes h0 \<and>
     gh_evac_headroom_div h = gh_evac_headroom_div h0 \<and> gh_bytes_allocated h = gh_bytes_allocated h0 \<and>
     gh_gc_threshold h = gh_gc_threshold h0 \<and> gh_on_corruption h = gh_on_corruption h0 \<and>
     gh_reports h = gh_reports h0 \<and> sp_all (gh_space h) = sp_all (gh_space h0)"

text \<open>The marked objects in blocks, at their new addresses.\<close>

definition marked_objs :: "gc_heap \<Rightarrow> (nat \<Rightarrow> nat) \<Rightarrow> nat set \<Rightarrow> (nat \<times> nat) set" where
  "marked_objs h0 \<phi> K = {(\<phi> a, osize (gh_mem h0 a)) | a. a \<in> K \<and> osize (gh_mem h0 a) \<le> IMX_MEDIUM_MAX}"

definition marks_ok :: "gc_heap \<Rightarrow> nat set \<Rightarrow> (nat \<Rightarrow> nat) \<Rightarrow> nat set \<Rightarrow> nat set \<Rightarrow> gc_heap \<Rightarrow> bool" where
  "marks_ok h0 D \<phi> K X h \<longleftrightarrow>
     K \<subseteq> D \<and> K \<subseteq> reach (gh_mem h0) (gh_roots h0) \<and> inj_on \<phi> D \<and>
     set (gh_worklist h) \<subseteq> \<phi> ` K \<and> X \<subseteq> \<phi> ` K \<and>
     (\<forall>a \<in> D - K. \<phi> a = a \<and> gh_mem h a = gh_mem h0 a) \<and>
     (\<forall>a \<in> K. is_ref (\<phi> a) \<and> ob_epoch (gh_mem h (\<phi> a)) = gh_epoch h0 \<and>
        obj_image \<phi> K (gh_mem h0 a) (\<phi> a \<notin> set (gh_worklist h) \<union> X) (gh_mem h (\<phi> a)) \<and>
        (\<phi> a \<noteq> a \<longrightarrow> \<phi> a \<notin> D \<and> ob_forward (gh_mem h a) = \<phi> a \<and> osize (gh_mem h0 a) \<le> IMX_MEDIUM_MAX)) \<and>
     gh_live_bytes h = word_of_nat (\<Sum>a \<in> K. osize (gh_mem h0 a))"

definition places_ok :: "gc_heap \<Rightarrow> nat set \<Rightarrow> (nat \<Rightarrow> nat) \<Rightarrow> nat set \<Rightarrow> gc_heap \<Rightarrow> bool" where
  "places_ok h0 D \<phi> K h \<longleftrightarrow>
     trace_ok (gh_space h) (bytes_of (small_objs (gh_mem h0) D \<union> marked_objs h0 \<phi> K)) (marked_objs h0 \<phi> K) \<and>
     resident (gh_space h) (marked_objs h0 \<phi> K) \<and> objects_disjoint (marked_objs h0 \<phi> D)"

definition trace_inv :: "gc_heap \<Rightarrow> nat set \<Rightarrow> (nat \<Rightarrow> nat) \<Rightarrow> nat set \<Rightarrow> nat set \<Rightarrow> gc_heap \<Rightarrow> bool" where
  "trace_inv h0 D \<phi> K X h \<longleftrightarrow> gc_same h0 h \<and> marks_ok h0 D \<phi> K X h \<and> places_ok h0 D \<phi> K h"

lemma obj_image_mono: "obj_image \<phi> K ob0 full ob \<Longrightarrow> K \<subseteq> K' \<Longrightarrow> \<forall>c \<in> K. \<phi>' c = \<phi> c \<Longrightarrow> obj_image \<phi>' K' ob0 full ob"
  unfolding obj_image_def by (metis subsetD)

section \<open>Marking one more object\<close>

text \<open>The object graph after \<open>a\<close> is marked and placed at \<open>p\<close>.\<close>

lemma marks_ok_add:
  assumes ok: "marks_ok h0 D \<phi> K X h" and objs: "objs_ok h0 D" and a: "a \<in> D - K" "a \<in> reach (gh_mem h0) (gh_roots h0)"
    and p: "p = a \<or> is_ref p \<and> p \<notin> D \<and> p \<notin> \<phi> ` D \<and> osize (gh_mem h0 a) \<le> IMX_MEDIUM_MAX \<and> ob_forward (gh_mem h' a) = p"
    and new: "gh_mem h' p = (gh_mem h0 a)\<lparr>ob_epoch := gh_epoch h0\<rparr>"
    and old: "\<And>c. c \<noteq> a \<Longrightarrow> c \<noteq> p \<Longrightarrow> gh_mem h' c = gh_mem h c"
    and wl: "gh_worklist h' = gh_worklist h @ [p]"
    and lb: "gh_live_bytes h' = gh_live_bytes h + word_of_nat (osize (gh_mem h0 a))"
  shows "marks_ok h0 D (\<phi>(a := p)) (insert a K) X h'"
proof -
  let ?f = "\<phi>(a := p)" and ?K = "insert a K"
  have K: "K \<subseteq> D" "K \<subseteq> reach (gh_mem h0) (gh_roots h0)" "inj_on \<phi> D" "set (gh_worklist h) \<subseteq> \<phi> ` K" "X \<subseteq> \<phi> ` K"
    "\<forall>a \<in> D - K. \<phi> a = a \<and> gh_mem h a = gh_mem h0 a"
    "gh_live_bytes h = word_of_nat (\<Sum>a \<in> K. osize (gh_mem h0 a))"
    using ok by (simp_all add: marks_ok_def)
  have fin: "finite K" using objs K(1) finite_subset by (auto simp: objs_ok_def)
  have fa: "\<phi> a = a" using K(6) a by simp
  have pD: "p \<notin> \<phi> ` (D - {a})"
  proof (cases "p = a")
    case True
    show ?thesis
    proof
      assume "p \<in> \<phi> ` (D - {a})"
      then obtain c where "c \<in> D" "c \<noteq> a" "\<phi> c = \<phi> a" using True fa by auto
      then show False using K(3) a(1) by (auto simp: inj_on_def)
    qed
  qed (use p in auto)
  have eq: "?f c = \<phi> c" if "c \<in> K" for c using that a(1) by auto
  then have img: "?f ` ?K = insert p (\<phi> ` K)" using a(1) by auto
  have inj: "inj_on ?f D"
  proof (rule inj_onI)
    fix x y assume xy: "x \<in> D" "y \<in> D" "?f x = ?f y"
    show "x = y"
    proof (cases "x = a \<or> y = a")
      case True
      then show ?thesis using xy pD by (auto split: if_splits)
    next
      case False
      then show ?thesis using xy K(3) by (auto simp: inj_on_def)
    qed
  qed
  have kp: "\<phi> c \<noteq> p" if "c \<in> K" for c using that pD K(1) a(1) by blast
  have ka: "\<phi> c \<noteq> a" if "c \<in> K" for c
  proof
    assume "\<phi> c = a"
    then have "\<phi> c = \<phi> a" using fa by simp
    then have "c = a" using K(1,3) that a(1) by (auto simp: inj_on_def)
    then show False using that a(1) by simp
  qed
  have part1: "\<forall>c \<in> D - ?K. ?f c = c \<and> gh_mem h' c = gh_mem h0 c"
  proof
    fix c assume c: "c \<in> D - ?K"
    then have "c \<noteq> p" using p by auto
    then show "?f c = c \<and> gh_mem h' c = gh_mem h0 c" using c K(6) old [of c] by auto
  qed
  have part2: "is_ref (?f c) \<and> ob_epoch (gh_mem h' (?f c)) = gh_epoch h0 \<and>
        obj_image ?f ?K (gh_mem h0 c) (?f c \<notin> set (gh_worklist h') \<union> X) (gh_mem h' (?f c)) \<and>
        (?f c \<noteq> c \<longrightarrow> ?f c \<notin> D \<and> ob_forward (gh_mem h' c) = ?f c \<and> osize (gh_mem h0 c) \<le> IMX_MEDIUM_MAX)"
    if c: "c \<in> ?K" for c
  proof (cases "c = a")
    case True
    have ref: "is_ref p" using p a objs by (auto simp: objs_ok_def)
    have "ob_forward (gh_mem h0 a) = 0" using objs a by (simp add: objs_ok_def)
    then have "obj_image ?f ?K (gh_mem h0 a) False (gh_mem h' p)" by (simp add: obj_image_def new)
    then show ?thesis using p ref True by (auto simp: wl new)
  next
    case False
    then have cK: "c \<in> K" using c by simp
    have fc: "?f c = \<phi> c" using False by simp
    have m: "gh_mem h' (\<phi> c) = gh_mem h (\<phi> c)" using old kp [OF cK] ka [OF cK] by blast
    have wlx: "\<phi> c \<notin> set (gh_worklist h') \<union> X \<longleftrightarrow> \<phi> c \<notin> set (gh_worklist h) \<union> X" using kp [OF cK] by (simp add: wl)
    have okc: "is_ref (\<phi> c)" "ob_epoch (gh_mem h (\<phi> c)) = gh_epoch h0"
      "obj_image \<phi> K (gh_mem h0 c) (\<phi> c \<notin> set (gh_worklist h) \<union> X) (gh_mem h (\<phi> c))"
      "\<phi> c \<noteq> c \<longrightarrow> \<phi> c \<notin> D \<and> ob_forward (gh_mem h c) = \<phi> c \<and> osize (gh_mem h0 c) \<le> IMX_MEDIUM_MAX"
      using ok cK unfolding marks_ok_def by blast+
    have "obj_image ?f ?K (gh_mem h0 c) (\<phi> c \<notin> set (gh_worklist h) \<union> X) (gh_mem h (\<phi> c))"
      using obj_image_mono [OF okc(3)] eq by blast
    moreover have "gh_mem h' c = gh_mem h c" if "\<phi> c \<noteq> c"
    proof (rule old [OF False])
      show "c \<noteq> p" using p cK K(1) a(1) by auto
    qed
    ultimately show ?thesis unfolding fc m wlx using okc by simp
  qed
  have "(\<Sum>c \<in> ?K. osize (gh_mem h0 c)) = osize (gh_mem h0 a) + (\<Sum>c \<in> K. osize (gh_mem h0 c))"
    using fin a(1) by simp
  then have "gh_live_bytes h' = word_of_nat (\<Sum>c \<in> ?K. osize (gh_mem h0 c))" using lb K(7) by simp
  moreover have "set (gh_worklist h') \<subseteq> ?f ` ?K" "X \<subseteq> ?f ` ?K" using K(4,5) unfolding img wl by auto
  moreover have "?K \<subseteq> D" "?K \<subseteq> reach (gh_mem h0) (gh_roots h0)" using K(1,2) a by auto
  ultimately show ?thesis using inj part1 part2 unfolding marks_ok_def by blast
qed

text \<open>The heap when the trace starts: what it needs of the invariant of the mutator.\<close>

definition start_ok :: "gc_heap \<Rightarrow> nat set \<Rightarrow> bool" where
  "start_ok h0 D \<longleftrightarrow> objs_ok h0 D \<and> refs_closed h0 D \<and> large_ok h0 D \<and>
     resident (gh_space h0) (small_objs (gh_mem h0) D)"

lemma in_bytes_of: "(a, sz) \<in> Os \<Longrightarrow> x \<in> {a..<a + sz} \<Longrightarrow> x \<in> bytes_of Os"
  by (force simp: bytes_of_def)

lemma bytes_of_insert: "bytes_of (insert (p, sz) Os) = bytes_of Os \<union> {p..<p + sz}"
  by (auto simp: bytes_of_def)

lemma bytes_of_Un: "bytes_of (A \<union> B) = bytes_of A \<union> bytes_of B"
  by (auto simp: bytes_of_def)

lemma marked_objs_insert:
  assumes "a \<notin> K" "osize (gh_mem h0 a) \<le> IMX_MEDIUM_MAX"
  shows "marked_objs h0 (\<phi>(a := p)) (insert a K) = insert (p, osize (gh_mem h0 a)) (marked_objs h0 \<phi> K)"
  using assms by (auto simp: marked_objs_def)

lemma marked_objs_large:
  assumes "\<not> osize (gh_mem h0 a) \<le> IMX_MEDIUM_MAX" "\<phi> a = a"
  shows "marked_objs h0 \<phi> (insert a K) = marked_objs h0 \<phi> K"
  using assms by (auto simp: marked_objs_def)

lemma objects_disjointI:
  "(\<And>c tz d uz. (c, tz) \<in> Os \<Longrightarrow> (d, uz) \<in> Os \<Longrightarrow> (c, tz) \<noteq> (d, uz) \<Longrightarrow> {c..<c + tz} \<inter> {d..<d + uz} = {}) \<Longrightarrow>
     objects_disjoint Os"
  unfolding objects_disjoint_def by blast

lemma objects_disjointD:
  "objects_disjoint Os \<Longrightarrow> (c, tz) \<in> Os \<Longrightarrow> (d, uz) \<in> Os \<Longrightarrow> (c, tz) \<noteq> (d, uz) \<Longrightarrow> {c..<c + tz} \<inter> {d..<d + uz} = {}"
  unfolding objects_disjoint_def by blast

text \<open>Where the objects are, whether marked or not, is in the bytes known to the space.\<close>

lemma places_in_use:
  assumes marks: "marks_ok h0 D \<phi> K X h" and c: "c \<in> D" "osize (gh_mem h0 c) \<le> IMX_MEDIUM_MAX"
  shows "(\<phi> c, osize (gh_mem h0 c)) \<in> small_objs (gh_mem h0) D \<union> marked_objs h0 \<phi> K"
proof (cases "c \<in> K")
  case True
  then show ?thesis using c by (auto simp: marked_objs_def)
next
  case False
  then have "\<phi> c = c" using marks c by (auto simp: marks_ok_def)
  then show ?thesis using c by (auto simp: small_objs_def)
qed

lemma fresh_place:
  assumes st: "start_ok h0 D" and marks: "marks_ok h0 D \<phi> K X h" and same: "gc_same h0 h"
    and p: "{p..<p + sz} \<inter> bytes_of (small_objs (gh_mem h0) D \<union> marked_objs h0 \<phi> K) = {}" "0 < sz"
    and b: "b \<in> set (sp_all (gh_space h))" "{p..<p + sz} \<subseteq> block_bytes b"
  shows "p \<notin> D" "p \<notin> \<phi> ` D"
proof -
  have objs: "objs_ok h0 D" and large: "large_ok h0 D" using st by (simp_all add: start_ok_def)
  have pos: "0 < osize (gh_mem h0 c)" if "c \<in> D" for c by (rule objs_okD [OF objs that]) simp
  have pin: "p \<in> {p..<p + sz}" using p(2) by simp
  have small: "p \<noteq> \<phi> c" if c: "c \<in> D" "osize (gh_mem h0 c) \<le> IMX_MEDIUM_MAX" for c
  proof
    assume e: "p = \<phi> c"
    have "\<phi> c \<in> {\<phi> c..<\<phi> c + osize (gh_mem h0 c)}" using pos [OF c(1)] by simp
    from in_bytes_of [OF places_in_use [OF marks c] this] show False using p(1) pin e by blast
  qed
  have big: "p \<noteq> c" if c: "c \<in> D" "\<not> osize (gh_mem h0 c) \<le> IMX_MEDIUM_MAX" for c
  proof
    assume e: "p = c"
    have "c \<in> set (gh_large_objs h0)" using large c by (simp add: large_ok_def)
    moreover have "b \<in> set (sp_all (gh_space h0))" using b(1) same by (simp add: gc_same_def)
    ultimately have "{c..<c + osize (gh_mem h0 c)} \<inter> {b..<b + 32768} = {}" using large unfolding large_ok_def by blast
    moreover have "c \<in> {c..<c + osize (gh_mem h0 c)}" using pos [OF c(1)] by simp
    moreover have "c \<in> {b..<b + 32768}"
      using in_block_bytes(1,2) [OF b(2) p(2)] p(2) e by (simp add: imx_block_data_start_def imx_block_data_end_def)
    ultimately show False by blast
  qed
  have nD: "p \<noteq> c" if c: "c \<in> D" for c
  proof (cases "osize (gh_mem h0 c) \<le> IMX_MEDIUM_MAX")
    case True
    have "(c, osize (gh_mem h0 c)) \<in> small_objs (gh_mem h0) D" using c True by (auto simp: small_objs_def)
    then have "c \<in> bytes_of (small_objs (gh_mem h0) D \<union> marked_objs h0 \<phi> K)"
      using pos [OF c] by (intro in_bytes_of) auto
    then show ?thesis using p(1) pin by blast
  qed (use big c in blast)
  then show "p \<notin> D" by blast
  show "p \<notin> \<phi> ` D"
  proof
    assume "p \<in> \<phi> ` D"
    then obtain c where c: "c \<in> D" "p = \<phi> c" by blast
    then have "\<not> osize (gh_mem h0 c) \<le> IMX_MEDIUM_MAX" using small by blast
    then have "\<phi> c = c" using marks c(1) by (auto simp: marks_ok_def)
    then show False using nD [OF c(1)] c(2) by simp
  qed
qed

lemma places_add:
  assumes places: "places_ok h0 D \<phi> K h" and marks: "marks_ok h0 D \<phi> K X h"
    and a: "a \<in> D - K" and sz: "sz = osize (gh_mem h0 a)" "sz \<le> IMX_MEDIUM_MAX"
    and sp: "gh_space h' = s'" "sp_all s' = sp_all (gh_space h)"
    and ok: "trace_ok s' (bytes_of (small_objs (gh_mem h0) D \<union> marked_objs h0 \<phi> K) \<union> {p..<p + sz})
        (insert (p, sz) (marked_objs h0 \<phi> K))"
    and b: "b \<in> set (sp_all (gh_space h))" "{p..<p + sz} \<subseteq> block_bytes b" and pos: "0 < sz"
    and p: "p = a \<or> {p..<p + sz} \<inter> bytes_of (small_objs (gh_mem h0) D \<union> marked_objs h0 \<phi> K) = {}"
  shows "places_ok h0 D (\<phi>(a := p)) (insert a K) h'"
proof -
  let ?f = "\<phi>(a := p)" and ?Ms = "marked_objs h0 \<phi> K" and ?S = "small_objs (gh_mem h0) D"
  have mk: "marked_objs h0 ?f (insert a K) = insert (p, sz) ?Ms"
    using marked_objs_insert [of a K h0 \<phi> p] a sz by simp
  have "bytes_of (?S \<union> insert (p, sz) ?Ms) = bytes_of (?S \<union> ?Ms) \<union> {p..<p + sz}"
    by (simp add: bytes_of_insert)
  then have "trace_ok (gh_space h') (bytes_of (?S \<union> marked_objs h0 ?f (insert a K))) (marked_objs h0 ?f (insert a K))"
    using ok unfolding mk sp(1) by simp
  moreover have "resident (gh_space h') (marked_objs h0 ?f (insert a K))"
    using places b pos unfolding mk sp(1) places_ok_def resident_def sp(2) by auto
  moreover have "objects_disjoint (marked_objs h0 ?f D)"
  proof -
    have D: "D = insert a (D - {a})" using a by auto
    have fa: "\<phi> a = a" using marks a by (auto simp: marks_ok_def)
    have all: "marked_objs h0 ?f D = insert (p, sz) (marked_objs h0 \<phi> (D - {a}))"
      using marked_objs_insert [of a "D - {a}" h0 \<phi> p] sz D by simp
    have old: "objects_disjoint (marked_objs h0 \<phi> D)" using places by (simp add: places_ok_def)
    show ?thesis
    proof (cases "p = a")
      case True
      then have "?f = \<phi>" using fa by auto
      then show ?thesis using old by simp
    next
      case False
      have sub: "marked_objs h0 \<phi> (D - {a}) \<subseteq> marked_objs h0 \<phi> D" by (auto simp: marked_objs_def)
      have apart: "{p..<p + sz} \<inter> {c..<c + tz} = {}" if c: "(c, tz) \<in> marked_objs h0 \<phi> (D - {a})" for c tz
      proof -
        obtain d where d: "d \<in> D" "c = \<phi> d" "tz = osize (gh_mem h0 d)" "tz \<le> IMX_MEDIUM_MAX"
          using c by (auto simp: marked_objs_def)
        have "(c, tz) \<in> ?S \<union> ?Ms" using places_in_use [OF marks d(1)] d(2-4) by simp
        then have "{c..<c + tz} \<subseteq> bytes_of (?S \<union> ?Ms)" using in_bytes_of by blast
        then show ?thesis using p False by blast
      qed
      show ?thesis
        unfolding all
      proof (rule objects_disjointI)
        fix c tz d uz
        assume c: "(c, tz) \<in> insert (p, sz) (marked_objs h0 \<phi> (D - {a}))"
          and d: "(d, uz) \<in> insert (p, sz) (marked_objs h0 \<phi> (D - {a}))" and ne: "(c, tz) \<noteq> (d, uz)"
        consider "(c, tz) = (p, sz)" "(d, uz) \<in> marked_objs h0 \<phi> (D - {a})"
          | "(d, uz) = (p, sz)" "(c, tz) \<in> marked_objs h0 \<phi> (D - {a})"
          | "(c, tz) \<in> marked_objs h0 \<phi> D" "(d, uz) \<in> marked_objs h0 \<phi> D" using c d ne sub by blast
        then show "{c..<c + tz} \<inter> {d..<d + uz} = {}"
        proof cases
          case 3
          then show ?thesis using objects_disjointD [OF old _ _ ne] by blast
        qed (use apart in blast)+
      qed
    qed
  qed
  ultimately show ?thesis by (simp add: places_ok_def)
qed

text \<open>How far the trace has come: \<open>K\<close> grows, addresses of marked objects are final, and every object is pushed once.\<close>

definition grows :: "nat set \<Rightarrow> (nat \<Rightarrow> nat) \<Rightarrow> nat set \<Rightarrow> gc_heap \<Rightarrow> (nat \<Rightarrow> nat) \<Rightarrow> nat set \<Rightarrow> gc_heap \<Rightarrow> bool" where
  "grows D \<phi> K h \<phi>' K' h' \<longleftrightarrow>
     K \<subseteq> K' \<and> (\<forall>c \<in> K. \<phi>' c = \<phi> c) \<and> gh_roots h' = gh_roots h \<and>
     card (D - K') + length (gh_worklist h') = card (D - K) + length (gh_worklist h)"

lemma grows_refl: "grows D \<phi> K h \<phi> K h"
  by (simp add: grows_def)

lemma grows_trans: "grows D \<phi> K h \<phi>1 K1 h1 \<Longrightarrow> grows D \<phi>1 K1 h1 \<phi>2 K2 h2 \<Longrightarrow> grows D \<phi> K h \<phi>2 K2 h2"
  unfolding grows_def by (metis subsetD subset_trans)

lemma grows_add:
  assumes "finite D" "a \<in> D - K" "gh_worklist h' = gh_worklist h @ [p]" "gh_roots h' = gh_roots h"
  shows "grows D \<phi> K h (\<phi>(a := p)) (insert a K) h'"
proof -
  have "D - K = insert a (D - insert a K)" using assms(2) by auto
  then have "card (D - K) = Suc (card (D - insert a K))" using assms(1) by (metis DiffE card_insert_disjoint finite_Diff insertI1)
  then show ?thesis using assms(2-4) by (auto simp: grows_def)
qed

text \<open>An unmarked object that does not move: large, outside an evacuated block, or without a target.\<close>

lemma mark_unmarked:
  assumes st: "start_ok h0 D" and inv: "trace_inv h0 D \<phi> K X h" and a: "a \<in> D - K" "a \<in> reach (gh_mem h0) (gh_roots h0)"
  obtains p h' where "gc_mark1 a h = Some (p, h')" "trace_inv h0 D (\<phi>(a := p)) (insert a K) X h'"
    "grows D \<phi> K h (\<phi>(a := p)) (insert a K) h'" "p = a \<or> p \<notin> D"
    "\<forall>c. c \<noteq> a \<longrightarrow> c \<noteq> p \<longrightarrow> gh_mem h' c = gh_mem h c" "p \<notin> \<phi> ` K"
proof -
  have objs: "objs_ok h0 D" using st by (simp add: start_ok_def)
  have fin: "finite D" using objs by (simp add: objs_ok_def)
  have marks: "marks_ok h0 D \<phi> K X h" and places: "places_ok h0 D \<phi> K h" and same: "gc_same h0 h"
    using inv by (simp_all add: trace_inv_def)
  have m: "gh_mem h a = gh_mem h0 a" "\<phi> a = a" using marks a(1) by (auto simp: marks_ok_def)
  have e: "gh_epoch h = gh_epoch h0" using same by (simp add: gc_same_def)
  have ob: "is_ref a" "ob_forward (gh_mem h0 a) = 0" "ob_epoch (gh_mem h0 a) \<noteq> gh_epoch h0"
    using objs a(1) by (simp_all add: objs_ok_def)
  have D: "a \<in> D" using a(1) by simp
  obtain rt where rt: "gc_obj_size (gh_mem h0 a) = Some (rtt_size rt (ob_len (gh_mem h0 a)))"
    "osize (gh_mem h0 a) = unat (rtt_size rt (ob_len (gh_mem h0 a)))" "24 \<le> osize (gh_mem h0 a)"
    by (rule objs_okD [OF objs D])
  define w where "w = rtt_size rt (ob_len (gh_mem h0 a))"
  define sz where "sz = osize (gh_mem h0 a)"
  have w: "gc_obj_size (gh_mem h0 a) = Some w" "unat w = sz" "0 < sz" using rt by (simp_all add: w_def sz_def)
  have lb: "(ucast w :: u64) = word_of_nat sz" unfolding w(2) [symmetric] by simp
  define h1 where "h1 = h\<lparr>gh_live_bytes := gh_live_bytes h + ucast w\<rparr>"
  have run: "gc_mark1 a h =
      (if IMX_MEDIUM_MAX < sz then
         Some (a, (set_obj a (\<lambda>ob. ob\<lparr>ob_epoch := gh_epoch h0\<rparr>) h1)\<lparr>gh_worklist := gh_worklist h @ [a]\<rparr>)
       else
         Option.bind (gc_evacuate a sz h1) (\<lambda>(a, h).
           let h = set_obj a (\<lambda>ob. ob\<lparr>ob_epoch := gh_epoch h\<rparr>) h in
           map_option
             (\<lambda>bm. (a, h\<lparr>gh_space := (gh_space h)\<lparr>sp_mem := bm\<rparr>, gh_worklist := gh_worklist h @ [a]\<rparr>))
             (imx_block_mark_object (imx_block_of a) a sz (sp_mem (gh_space h)))))"
    using ob by (simp add: gc_mark1_def is_ref_def m e w Let_def h1_def set_obj_def)
  have fid: "\<phi>(a := a) = \<phi>" using m(2) by auto
  have aK: "a \<notin> \<phi> ` K"
  proof
    assume "a \<in> \<phi> ` K"
    then obtain c where c: "c \<in> K" "\<phi> c = \<phi> a" using m(2) by auto
    then have "c = a" using marks a(1) unfolding marks_ok_def inj_on_def by blast
    then show False using c a(1) by simp
  qed
  show thesis
  proof (cases "IMX_MEDIUM_MAX < sz")
    case True
    let ?h = "(set_obj a (\<lambda>ob. ob\<lparr>ob_epoch := gh_epoch h0\<rparr>) h1)\<lparr>gh_worklist := gh_worklist h @ [a]\<rparr>"
    have mk: "marks_ok h0 D (\<phi>(a := a)) (insert a K) X ?h"
      by (rule marks_ok_add [OF marks objs a]) (simp_all add: set_obj_def h1_def m(1) lb sz_def)
    have "places_ok h0 D (\<phi>(a := a)) (insert a K) ?h"
      using places marked_objs_large [of h0 a \<phi> K] True m(2) unfolding fid
      by (simp add: places_ok_def set_obj_def h1_def sz_def)
    moreover have "gc_same h0 ?h" using same by (simp add: gc_same_def set_obj_def h1_def)
    ultimately have "trace_inv h0 D (\<phi>(a := a)) (insert a K) X ?h" using mk by (simp add: trace_inv_def)
    moreover have "gc_mark1 a h = Some (a, ?h)" using True by (simp add: run)
    moreover have "grows D \<phi> K h (\<phi>(a := a)) (insert a K) ?h"
      by (rule grows_add [OF fin a(1)]) (simp_all add: set_obj_def h1_def)
    ultimately show thesis using aK by (intro that [of a ?h]) (simp_all add: set_obj_def h1_def)
  next
    case False
    let ?S = "small_objs (gh_mem h0) D" and ?Ms = "marked_objs h0 \<phi> K"
    have small: "sz \<le> IMX_MEDIUM_MAX" using False by simp
    have tr: "trace_ok (gh_space h1) (bytes_of (?S \<union> ?Ms)) ?Ms" using places by (simp add: places_ok_def h1_def)
    have inS: "(a, sz) \<in> ?S" using D small by (auto simp: small_objs_def sz_def)
    then obtain b where b: "b \<in> set (sp_all (gh_space h))" "{a..<a + sz} \<subseteq> block_bytes b"
      using st same by (auto simp: start_ok_def resident_def gc_same_def)
    show thesis
    proof (cases "\<exists>t. gc_evacuate a sz h1 = Some (a, h1\<lparr>gh_space := t\<rparr>) \<and> sp_all t = sp_all (gh_space h) \<and>
        trace_ok t (bytes_of (?S \<union> ?Ms)) ?Ms")
      case True
      then obtain t where t: "gc_evacuate a sz h1 = Some (a, h1\<lparr>gh_space := t\<rparr>)" "sp_all t = sp_all (gh_space h)"
        "trace_ok t (bytes_of (?S \<union> ?Ms)) ?Ms" by blast
      have bt: "b \<in> set (sp_all t)" using b(1) t(2) by simp
      obtain bm where bm: "imx_block_mark_object (imx_block_of a) a sz (sp_mem t) = Some bm"
        "trace_ok (t\<lparr>sp_mem := bm\<rparr>) (bytes_of (?S \<union> ?Ms)) (insert (a, sz) ?Ms)"
        by (rule trace_mark [OF t(3) bt b(2) w(3)])
      let ?h = "(set_obj a (\<lambda>ob. ob\<lparr>ob_epoch := gh_epoch h0\<rparr>) h1)\<lparr>gh_space := t\<lparr>sp_mem := bm\<rparr>, gh_worklist := gh_worklist h @ [a]\<rparr>"
      have mk: "marks_ok h0 D (\<phi>(a := a)) (insert a K) X ?h"
        by (rule marks_ok_add [OF marks objs a]) (simp_all add: set_obj_def h1_def m(1) lb sz_def)
      have "{a..<a + sz} \<subseteq> bytes_of (?S \<union> ?Ms)" using in_bytes_of [of a sz "?S \<union> ?Ms"] inS by blast
      then have "bytes_of (?S \<union> ?Ms) \<union> {a..<a + sz} = bytes_of (?S \<union> ?Ms)" by blast
      then have "places_ok h0 D (\<phi>(a := a)) (insert a K) ?h"
        using bm(2) t(2) by (intro places_add [OF places marks a(1) sz_def small _ _ _ b w(3)]) simp_all
      moreover have "gc_same h0 ?h" using same t(2) by (simp add: gc_same_def set_obj_def h1_def)
      ultimately have "trace_inv h0 D (\<phi>(a := a)) (insert a K) X ?h" using mk by (simp add: trace_inv_def)
      moreover have "gc_mark1 a h = Some (a, ?h)"
        using False unfolding run t(1) by (simp add: Let_def set_obj_def h1_def bm(1) e)
      moreover have "grows D \<phi> K h (\<phi>(a := a)) (insert a K) ?h"
        by (rule grows_add [OF fin a(1)]) (simp_all add: set_obj_def h1_def)
      ultimately show thesis using aK by (intro that [of a ?h]) (simp_all add: set_obj_def h1_def)
    next
      case moved: False
      have act: "sp_evacuation_active (gh_space h1) \<and> imx_space_is_evacuation_candidate (gh_space h1) (imx_block_of a)"
      proof (rule ccontr)
        assume "\<not> ?thesis"
        then have "gc_evacuate a sz h1 = Some (a, h1\<lparr>gh_space := gh_space h1\<rparr>)" by (auto simp: gc_evacuate_def)
        then show False using moved tr by (auto simp: h1_def)
      qed
      then have act1: "sp_evacuation_active (gh_space h1)" by simp
      obtain r t where t: "imx_space_allocate_evacuation sz 8 (gh_space h1) = Some (r, t)" "sp_all t = sp_all (gh_space h1)"
        "r = None \<Longrightarrow> trace_ok t (bytes_of (?S \<union> ?Ms)) ?Ms"
        "\<And>p. r = Some p \<Longrightarrow> p mod 8 = 0 \<and> 0 < p \<and> {p..<p + sz} \<inter> bytes_of (?S \<union> ?Ms) = {} \<and>
           (\<exists>b \<in> set (sp_all (gh_space h1)). {p..<p + sz} \<subseteq> block_bytes b) \<and>
           trace_ok t (bytes_of (?S \<union> ?Ms) \<union> {p..<p + sz}) ?Ms"
        using trace_evac [OF tr act1 w(3)] by metis
      have all: "sp_all t = sp_all (gh_space h)" using t(2) by (simp add: h1_def)
      show thesis
      proof (cases r)
        case None
        then have "gc_evacuate a sz h1 = Some (a, h1\<lparr>gh_space := t\<rparr>)" using act t(1) by (simp add: gc_evacuate_def)
        then show thesis using moved t(3) all None by blast
      next
        case (Some p)
        then have p: "p mod 8 = 0" "0 < p" "{p..<p + sz} \<inter> bytes_of (?S \<union> ?Ms) = {}"
          "trace_ok t (bytes_of (?S \<union> ?Ms) \<union> {p..<p + sz}) ?Ms" using t(4) by simp_all
        obtain c where c: "c \<in> set (sp_all (gh_space h))" "{p..<p + sz} \<subseteq> block_bytes c"
          using t(4) [OF Some] by (auto simp: h1_def)
        obtain bm0 where bm0: "imx_block_clear_object_start (imx_block_of a) a (sp_mem t) = Some bm0"
          "trace_ok (t\<lparr>sp_mem := bm0\<rparr>) (bytes_of (?S \<union> ?Ms) \<union> {p..<p + sz}) ?Ms"
          by (rule trace_clear_start [OF p(4)])
        have ct: "c \<in> set (sp_all (t\<lparr>sp_mem := bm0\<rparr>))" using c(1) all by simp
        obtain bm where bm: "imx_block_mark_object (imx_block_of p) p sz (sp_mem (t\<lparr>sp_mem := bm0\<rparr>)) = Some bm"
          "trace_ok (t\<lparr>sp_mem := bm0, sp_mem := bm\<rparr>) (bytes_of (?S \<union> ?Ms) \<union> {p..<p + sz}) (insert (p, sz) ?Ms)"
          by (rule trace_mark [OF bm0(2) ct c(2) w(3)])
        note fr = fresh_place [OF st marks same p(3) w(3) c]
        have pa: "p \<noteq> a" using fr(1) D by blast
        let ?h = "(set_obj p (\<lambda>ob. ob\<lparr>ob_epoch := gh_epoch h0\<rparr>) (set_obj a (\<lambda>ob. ob\<lparr>ob_forward := p\<rparr>)
            (set_obj p (\<lambda>_. gh_mem h1 a) h1)))\<lparr>gh_space := t\<lparr>sp_mem := bm\<rparr>, gh_worklist := gh_worklist h @ [p]\<rparr>"
        have ref: "is_ref p" using p(1,2) by (simp add: is_ref_def)
        have mk: "marks_ok h0 D (\<phi>(a := p)) (insert a K) X ?h"
          by (rule marks_ok_add [OF marks objs a])
            (use fr ref small pa in \<open>simp_all add: set_obj_def h1_def m(1) lb sz_def\<close>)
        have "places_ok h0 D (\<phi>(a := p)) (insert a K) ?h"
          using bm(2) all p(3) by (intro places_add [OF places marks a(1) sz_def small _ _ _ c w(3)]) simp_all
        moreover have "gc_same h0 ?h" using same all by (simp add: gc_same_def set_obj_def h1_def)
        ultimately have "trace_inv h0 D (\<phi>(a := p)) (insert a K) X ?h" using mk by (simp add: trace_inv_def)
        moreover have ev: "gc_evacuate a sz h1 = Some (p, set_obj a (\<lambda>ob. ob\<lparr>ob_forward := p\<rparr>)
            (set_obj p (\<lambda>_. gh_mem h1 a) (h1\<lparr>gh_space := t\<lparr>sp_mem := bm0\<rparr>\<rparr>)))"
          using act t(1) Some bm0(1) by (simp add: gc_evacuate_def)
        have "gc_mark1 a h = Some (p, ?h)"
          using False bm(1) pa unfolding run ev by (simp add: Let_def set_obj_def h1_def e)
        moreover have "grows D \<phi> K h (\<phi>(a := p)) (insert a K) ?h"
          by (rule grows_add [OF fin a(1)]) (simp_all add: set_obj_def h1_def)
        moreover have "p \<notin> \<phi> ` K" using fr(2) marks by (auto simp: marks_ok_def)
        ultimately show thesis using fr(1) by (intro that [of p ?h]) (simp_all add: set_obj_def h1_def)
      qed
    qed
  qed
qed

section \<open>Marking a slot\<close>

text \<open>
  The slot's content when the trace began is \<open>v0\<close>; now it is \<open>v0\<close> or the new address.  Marking returns the
  new address, and leaves the objects that were marked before as they were.
\<close>

lemma mark1_spec:
  assumes st: "start_ok h0 D" and inv: "trace_inv h0 D \<phi> K X h"
    and v0: "is_ref v0 \<longrightarrow> v0 \<in> reach (gh_mem h0) (gh_roots h0)" and v: "v = v0 \<or> is_ref v0 \<and> v0 \<in> K \<and> v = \<phi> v0"
  obtains \<phi>' K' h' where "gc_mark1 v h = Some (fwd \<phi>' v0, h')" "trace_inv h0 D \<phi>' K' X h'" "grows D \<phi> K h \<phi>' K' h'"
    "is_ref v0 \<longrightarrow> v0 \<in> K'" "\<forall>c \<in> K. gh_mem h' (\<phi> c) = gh_mem h (\<phi> c)"
proof -
  have marks: "marks_ok h0 D \<phi> K X h" and same: "gc_same h0 h" using inv by (simp_all add: trace_inv_def)
  show thesis
  proof (cases "is_ref v0")
    case False
    then have "v = v0" using v by simp
    then have "gc_mark1 v h = Some (fwd \<phi> v0, h)" using False by (auto simp: gc_mark1_def fwd_def is_ref_def)
    then show thesis using inv grows_refl False by (intro that [of \<phi> h K]) auto
  next
    case ref: True
    have D: "v0 \<in> D" using st v0 ref reach_sub by (auto simp: start_ok_def)
    show thesis
    proof (cases "v0 \<in> K")
      case True
      have k: "is_ref (\<phi> v0)" "ob_epoch (gh_mem h (\<phi> v0)) = gh_epoch h0" "ob_forward (gh_mem h (\<phi> v0)) = 0"
        "\<phi> v0 \<noteq> v0 \<longrightarrow> ob_forward (gh_mem h v0) = \<phi> v0"
        using marks True unfolding marks_ok_def obj_image_def by blast+
      have e: "gh_epoch h = gh_epoch h0" using same by (simp add: gc_same_def)
      have "gc_mark1 v h = Some (\<phi> v0, h)"
      proof (cases "v = \<phi> v0")
        case eq: True
        show ?thesis using k(1-3) unfolding eq by (simp add: gc_mark1_def is_ref_def e)
      next
        case ne: False
        then have "v = v0" "\<phi> v0 \<noteq> v0" using v by auto
        then show ?thesis using k ref by (simp add: gc_mark1_def is_ref_def e)
      qed
      then show thesis using inv grows_refl True ref by (intro that [of \<phi> h K]) (auto simp: fwd_def)
    next
      case False
      then have vv: "v = v0" and a: "v0 \<in> D - K" using v D by auto
      obtain p h' where p: "gc_mark1 v0 h = Some (p, h')" "trace_inv h0 D (\<phi>(v0 := p)) (insert v0 K) X h'"
        "grows D \<phi> K h (\<phi>(v0 := p)) (insert v0 K) h'" "p = v0 \<or> p \<notin> D"
        "\<forall>c. c \<noteq> v0 \<longrightarrow> c \<noteq> p \<longrightarrow> gh_mem h' c = gh_mem h c" "p \<notin> \<phi> ` K"
        by (rule mark_unmarked [OF st inv a v0 [rule_format, OF ref]])
      have "\<phi> c \<noteq> v0" if "c \<in> K" for c
      proof
        assume e: "\<phi> c = v0"
        have "\<phi> v0 = v0" using marks a by (auto simp: marks_ok_def)
        moreover have "inj_on \<phi> D" "c \<in> D" using marks that by (auto simp: marks_ok_def)
        ultimately have "c = v0" using e D by (metis inj_onD)
        then show False using that False by simp
      qed
      then have "\<forall>c \<in> K. gh_mem h' (\<phi> c) = gh_mem h (\<phi> c)" using p(5,6) by blast
      then show thesis using p(1-3) ref vv by (intro that [of "\<phi>(v0 := p)" h' "insert v0 K"]) (simp_all add: fwd_def)
    qed
  qed
qed

lemma grows_fwd: "grows D \<phi> K h \<phi>' K' h' \<Longrightarrow> is_ref v \<longrightarrow> v \<in> K \<Longrightarrow> fwd \<phi>' v = fwd \<phi> v"
  by (simp add: grows_def fwd_def)

lemma mark_roots_spec:
  assumes st: "start_ok h0 D" and "trace_inv h0 D \<phi> K X h"
    and "\<forall>v \<in> set rs. is_ref v \<longrightarrow> v \<in> reach (gh_mem h0) (gh_roots h0)"
  shows "\<exists>\<phi>' K' h'. gc_mark_roots rs h = Some (map (fwd \<phi>') rs, h') \<and> trace_inv h0 D \<phi>' K' X h' \<and>
    grows D \<phi> K h \<phi>' K' h' \<and> (\<forall>v \<in> set rs. is_ref v \<longrightarrow> v \<in> K')"
  using assms(2,3)
proof (induction rs arbitrary: \<phi> K h)
  case Nil
  then show ?case by (intro exI [of _ \<phi>] exI [of _ K] exI [of _ h]) (simp add: grows_refl)
next
  case (Cons r rs)
  have r: "is_ref r \<longrightarrow> r \<in> reach (gh_mem h0) (gh_roots h0)" using Cons.prems(2) by simp
  obtain \<phi>1 K1 h1 where 1: "gc_mark1 r h = Some (fwd \<phi>1 r, h1)" "trace_inv h0 D \<phi>1 K1 X h1" "grows D \<phi> K h \<phi>1 K1 h1"
    "is_ref r \<longrightarrow> r \<in> K1"
    by (rule mark1_spec [OF st Cons.prems(1) r, of r]) simp_all
  obtain \<phi>2 K2 h2 where 2: "gc_mark_roots rs h1 = Some (map (fwd \<phi>2) rs, h2)" "trace_inv h0 D \<phi>2 K2 X h2"
    "grows D \<phi>1 K1 h1 \<phi>2 K2 h2" "\<forall>v \<in> set rs. is_ref v \<longrightarrow> v \<in> K2"
    using Cons.IH [OF 1(2)] Cons.prems(2) by auto
  have "K1 \<subseteq> K2" using 2(3) by (simp add: grows_def)
  then have "\<forall>v \<in> set (r # rs). is_ref v \<longrightarrow> v \<in> K2" using 1(4) 2(4) by auto
  moreover have "gc_mark_roots (r # rs) h = Some (map (fwd \<phi>2) (r # rs), h2)"
    using 1(1) 2(1) grows_fwd [OF 2(3) 1(4)] by simp
  ultimately show ?case using 2(2) grows_trans [OF 1(3) 2(3)] by blast
qed

section \<open>Tracing an object\<close>

text \<open>The cells in \<open>P\<close> of the new copy of \<open>o0\<close> hold new addresses.\<close>

definition cells_done :: "gc_heap \<Rightarrow> (nat \<Rightarrow> nat) \<Rightarrow> nat set \<Rightarrow> nat \<Rightarrow> nat set \<Rightarrow> gc_heap \<Rightarrow> bool" where
  "cells_done h0 \<phi> K o0 P h \<longleftrightarrow>
     (\<forall>off \<in> P. ob_cell (gh_mem h (\<phi> o0)) off = fwd \<phi> (ob_cell (gh_mem h0 o0) off) \<and>
        (is_ref (ob_cell (gh_mem h0 o0) off) \<longrightarrow> ob_cell (gh_mem h0 o0) off \<in> K))"

lemma marks_ok_cong:
  assumes "marks_ok h0 D \<phi> K X h" "gh_worklist g = gh_worklist h" "gh_live_bytes g = gh_live_bytes h"
    and "\<And>c. c \<in> D - K \<Longrightarrow> gh_mem g c = gh_mem h c"
    and "\<And>c. c \<in> K \<Longrightarrow> obj_image \<phi> K (gh_mem h0 c) (\<phi> c \<notin> set (gh_worklist h) \<union> X) (gh_mem g (\<phi> c))"
    and "\<And>c. ob_forward (gh_mem g c) = ob_forward (gh_mem h c)" "\<And>c. ob_epoch (gh_mem g c) = ob_epoch (gh_mem h c)"
  shows "marks_ok h0 D \<phi> K X g"
  using assms(1) unfolding marks_ok_def assms(2,3,6,7) by (simp add: assms(4,5) del: Un_iff)

lemma set_cell:
  assumes inv: "trace_inv h0 D \<phi> K X h" and o0: "o0 \<in> K" "\<phi> o0 \<in> X"
    and off: "off \<in> set (obj_cells (gh_mem h0 o0))"
    and v: "v0 = ob_cell (gh_mem h0 o0) off" "is_ref v0 \<longrightarrow> v0 \<in> K"
  shows "trace_inv h0 D \<phi> K X (set_obj (\<phi> o0) (\<lambda>ob. ob\<lparr>ob_cell := (ob_cell ob)(off := fwd \<phi> v0)\<rparr>) h)" (is "trace_inv h0 D \<phi> K X ?h")
proof -
  have marks: "marks_ok h0 D \<phi> K X h" using inv by (simp add: trace_inv_def)
  have inj: "inj_on \<phi> D" "K \<subseteq> D" using marks by (simp_all add: marks_ok_def)
  have rest: "gc_same h0 ?h" "places_ok h0 D \<phi> K ?h"
    using inv by (simp_all add: trace_inv_def gc_same_def places_ok_def set_obj_def)
  have oth: "gh_mem ?h c = gh_mem h c" if "c \<noteq> \<phi> o0" for c using that by (simp add: set_obj_def)
  have hdr: "ob_forward (gh_mem ?h c) = ob_forward (gh_mem h c)" "ob_epoch (gh_mem ?h c) = ob_epoch (gh_mem h c)" for c
    by (simp_all add: set_obj_def)
  have un: "\<phi> o0 \<noteq> c" if "c \<in> D - K" for c
  proof
    assume e: "\<phi> o0 = c"
    have "\<phi> c = c" using marks that by (auto simp: marks_ok_def)
    then have "o0 = c" using e inj o0(1) that by (metis DiffD1 inj_onD subsetD)
    then show False using o0(1) that by simp
  qed
  have img: "obj_image \<phi> K (gh_mem h0 c) (\<phi> c \<notin> set (gh_worklist h) \<union> X) (gh_mem ?h (\<phi> c))" if c: "c \<in> K" for c
  proof (cases "c = o0")
    case False
    then have "\<phi> c \<noteq> \<phi> o0" using inj c o0(1) by (metis inj_onD subsetD)
    then have "gh_mem ?h (\<phi> c) = gh_mem h (\<phi> c)" by (rule oth)
    then show ?thesis using marks c by (simp add: marks_ok_def)
  next
    case True
    have "obj_image \<phi> K (gh_mem h0 o0) False (gh_mem h (\<phi> o0))"
      using marks o0 unfolding marks_ok_def by force
    then have "obj_image \<phi> K (gh_mem h0 o0) False (gh_mem ?h (\<phi> o0))"
      using off v by (simp add: obj_image_def set_obj_def fwd_def)
    then show ?thesis using True o0(2) by simp
  qed
  have fl: "gh_worklist ?h = gh_worklist h" "gh_live_bytes ?h = gh_live_bytes h" by (simp_all add: set_obj_def)
  have un1: "gh_mem ?h c = gh_mem h c" if "c \<in> D - K" for c using un [OF that] by (intro oth) auto
  have "marks_ok h0 D \<phi> K X ?h"
    by (rule marks_ok_cong [OF marks fl un1 img hdr])
  then show ?thesis using rest by (simp add: trace_inv_def)
qed

lemma mark_cells_spec:
  assumes st: "start_ok h0 D" and "trace_inv h0 D \<phi> K X h" "o0 \<in> K" "\<phi> o0 \<in> X" "cells_done h0 \<phi> K o0 P h"
    and "set offs \<subseteq> set (obj_cells (gh_mem h0 o0))"
  shows "\<exists>\<phi>' K' h'. gc_mark_cells (\<phi> o0) offs h = Some h' \<and> trace_inv h0 D \<phi>' K' X h' \<and> grows D \<phi> K h \<phi>' K' h' \<and>
    cells_done h0 \<phi>' K' o0 (P \<union> set offs) h'"
  using assms(2-6)
proof (induction offs arbitrary: \<phi> K h P)
  case Nil
  then show ?case by (intro exI [of _ \<phi>] exI [of _ K] exI [of _ h]) (simp add: grows_refl)
next
  case (Cons off offs)
  let ?u = "ob_cell (gh_mem h0 o0) off" and ?v = "ob_cell (gh_mem h (\<phi> o0)) off"
  have marks: "marks_ok h0 D \<phi> K X h" using Cons.prems(1) by (simp add: trace_inv_def)
  have off: "off \<in> set (obj_cells (gh_mem h0 o0))" using Cons.prems(5) by simp
  have "obj_image \<phi> K (gh_mem h0 o0) (\<phi> o0 \<notin> set (gh_worklist h) \<union> X) (gh_mem h (\<phi> o0))"
    using marks Cons.prems(2) by (simp add: marks_ok_def)
  then have v: "?v = ?u \<or> is_ref ?u \<and> ?u \<in> K \<and> ?v = \<phi> ?u" using off unfolding obj_image_def by metis
  have o0r: "o0 \<in> reach (gh_mem h0) (gh_roots h0)" using marks Cons.prems(2) by (auto simp: marks_ok_def)
  have v0: "is_ref ?u \<longrightarrow> ?u \<in> reach (gh_mem h0) (gh_roots h0)"
  proof
    assume "is_ref ?u"
    then have "?u \<in> refs_of (gh_mem h0) o0" using off by (auto simp: refs_of_def)
    then show "?u \<in> reach (gh_mem h0) (gh_roots h0)" by (rule reach_ref [OF o0r])
  qed
  obtain \<phi>1 K1 h1 where 1: "gc_mark1 ?v h = Some (fwd \<phi>1 ?u, h1)" "trace_inv h0 D \<phi>1 K1 X h1" "grows D \<phi> K h \<phi>1 K1 h1"
    "is_ref ?u \<longrightarrow> ?u \<in> K1" "\<forall>c \<in> K. gh_mem h1 (\<phi> c) = gh_mem h (\<phi> c)"
    by (rule mark1_spec [OF st Cons.prems(1) v0 v])
  have K1: "K \<subseteq> K1" "\<phi>1 o0 = \<phi> o0" using 1(3) Cons.prems(2) by (auto simp: grows_def)
  let ?h1 = "set_obj (\<phi>1 o0) (\<lambda>ob. ob\<lparr>ob_cell := (ob_cell ob)(off := fwd \<phi>1 ?u)\<rparr>) h1"
  have o1: "o0 \<in> K1" "\<phi>1 o0 \<in> X" using K1 Cons.prems(2,3) by auto
  have inv1: "trace_inv h0 D \<phi>1 K1 X ?h1" by (rule set_cell [OF 1(2) o1 off refl 1(4)])
  have done1: "cells_done h0 \<phi>1 K1 o0 (insert off P) ?h1"
    unfolding cells_done_def
  proof (intro ballI conjI)
    fix off' assume o': "off' \<in> insert off P"
    show ref': "is_ref (ob_cell (gh_mem h0 o0) off') \<longrightarrow> ob_cell (gh_mem h0 o0) off' \<in> K1"
      using o' 1(4) Cons.prems(4) K1(1) by (auto simp: cells_done_def)
    show "ob_cell (gh_mem ?h1 (\<phi>1 o0)) off' = fwd \<phi>1 (ob_cell (gh_mem h0 o0) off')"
    proof (cases "off' = off")
      case True
      then show ?thesis by (simp add: set_obj_def)
    next
      case False
      have p: "off' \<in> P" using o' False by simp
      have "ob_cell (gh_mem ?h1 (\<phi>1 o0)) off' = ob_cell (gh_mem h1 (\<phi> o0)) off'" using False K1(2) by (simp add: set_obj_def)
      also have "\<dots> = ob_cell (gh_mem h (\<phi> o0)) off'" using 1(5) Cons.prems(2) by simp
      also have "\<dots> = fwd \<phi> (ob_cell (gh_mem h0 o0) off')" using p Cons.prems(4) by (simp add: cells_done_def)
      also have "\<dots> = fwd \<phi>1 (ob_cell (gh_mem h0 o0) off')"
        using grows_fwd [OF 1(3)] p Cons.prems(4) by (simp add: cells_done_def)
      finally show ?thesis .
    qed
  qed
  have "set offs \<subseteq> set (obj_cells (gh_mem h0 o0))" using Cons.prems(5) by simp
  from Cons.IH [OF inv1 o1 done1 this]
  obtain \<phi>2 K2 h2 where 2: "gc_mark_cells (\<phi>1 o0) offs ?h1 = Some h2" "trace_inv h0 D \<phi>2 K2 X h2"
    "grows D \<phi>1 K1 ?h1 \<phi>2 K2 h2" "cells_done h0 \<phi>2 K2 o0 (insert off P \<union> set offs) h2"
    by blast
  have "grows D \<phi> K h \<phi>1 K1 ?h1" using 1(3) by (simp add: grows_def set_obj_def)
  then have "grows D \<phi> K h \<phi>2 K2 h2" using grows_trans 2(3) by blast
  moreover have "gc_mark_cells (\<phi> o0) (off # offs) h = Some h2" using 1(1) 2(1) K1(2) by simp
  moreover have "insert off P \<union> set offs = P \<union> set (off # offs)" by auto
  ultimately show ?case using 2(2,4) by metis
qed

text \<open>An object whose cells are all done is no longer in progress.\<close>

lemma finish_object:
  assumes inv: "trace_inv h0 D \<phi> K {\<phi> o0} h" and o0: "o0 \<in> K" and dn: "cells_done h0 \<phi> K o0 (set (obj_cells (gh_mem h0 o0))) h"
  shows "trace_inv h0 D \<phi> K {} h"
proof -
  have marks: "marks_ok h0 D \<phi> K {\<phi> o0} h" using inv by (simp add: trace_inv_def)
  have "obj_image \<phi> K (gh_mem h0 c) (\<phi> c \<notin> set (gh_worklist h) \<union> {}) (gh_mem h (\<phi> c))" if c: "c \<in> K" for c
  proof (cases "c = o0")
    case False
    have "\<phi> c \<noteq> \<phi> o0" using marks c o0 False unfolding marks_ok_def by (metis inj_onD subsetD)
    moreover have "obj_image \<phi> K (gh_mem h0 c) (\<phi> c \<notin> set (gh_worklist h) \<union> {\<phi> o0}) (gh_mem h (\<phi> c))"
      using marks c unfolding marks_ok_def by blast
    ultimately show ?thesis by simp
  next
    case True
    have i: "obj_image \<phi> K (gh_mem h0 o0) (\<phi> o0 \<notin> set (gh_worklist h) \<union> {\<phi> o0}) (gh_mem h (\<phi> o0))"
      using marks o0 unfolding marks_ok_def by blast
    have "obj_image \<phi> K (gh_mem h0 o0) True (gh_mem h (\<phi> o0))"
      using i dn by (auto simp: obj_image_def cells_done_def fwd_def)
    then show ?thesis unfolding True by (auto simp: obj_image_def)
  qed
  then have "marks_ok h0 D \<phi> K {} h" using marks unfolding marks_ok_def by blast
  then show ?thesis using inv by (simp add: trace_inv_def)
qed

section \<open>The whole trace\<close>

lemma trace_spec:
  assumes st: "start_ok h0 D" and "trace_inv h0 D \<phi> K {} h"
  shows "\<exists>\<phi>' K' h'. gc_trace h = Some h' \<and> trace_inv h0 D \<phi>' K' {} h' \<and> gh_worklist h' = [] \<and>
    K \<subseteq> K' \<and> (\<forall>c \<in> K. \<phi>' c = \<phi> c) \<and> gh_roots h' = gh_roots h"
  using assms(2)
proof (induction "card (D - K) + length (gh_worklist h)" arbitrary: \<phi> K h rule: less_induct)
  case less
  show ?case
  proof (cases "gh_worklist h = []")
    case True
    then show ?thesis using less.prems by (subst gc_trace.simps) auto
  next
    case False
    let ?a = "last (gh_worklist h)"
    define h1 where "h1 = h\<lparr>gh_worklist := butlast (gh_worklist h)\<rparr>"
    have marks: "marks_ok h0 D \<phi> K {} h" using less.prems by (simp add: trace_inv_def)
    have wl: "set (gh_worklist h) = insert ?a (set (butlast (gh_worklist h)))"
      using False by (metis append_butlast_last_id list.set(2) list.simps(15) rotate1.simps(2) set_rotate1)
    have "?a \<in> \<phi> ` K" using marks False by (auto simp: marks_ok_def)
    then obtain o0 where o0: "o0 \<in> K" "?a = \<phi> o0" by blast
    have gray: "c \<notin> set (gh_worklist h1) \<union> {\<phi> o0} \<longleftrightarrow> c \<notin> set (gh_worklist h) \<union> {}" for c
      using wl o0(2) by (auto simp: h1_def)
    have "marks_ok h0 D \<phi> K {\<phi> o0} h1"
      using marks o0 wl gray unfolding marks_ok_def h1_def by auto
    then have inv1: "trace_inv h0 D \<phi> K {\<phi> o0} h1"
      using less.prems by (simp add: trace_inv_def gc_same_def places_ok_def h1_def)
    have "cells_done h0 \<phi> K o0 {} h1" by (simp add: cells_done_def)
    from mark_cells_spec [OF st inv1 o0(1) _ this, of "obj_cells (gh_mem h0 o0)"]
    obtain \<phi>1 K1 h2 where 1: "gc_mark_cells (\<phi> o0) (obj_cells (gh_mem h0 o0)) h1 = Some h2" "trace_inv h0 D \<phi>1 K1 {\<phi> o0} h2"
      "grows D \<phi> K h1 \<phi>1 K1 h2" "cells_done h0 \<phi>1 K1 o0 (set (obj_cells (gh_mem h0 o0))) h2"
      by auto
    have K1: "K \<subseteq> K1" "\<forall>c \<in> K. \<phi>1 c = \<phi> c" "gh_roots h2 = gh_roots h" using 1(3) by (simp_all add: grows_def h1_def)
    have o1: "o0 \<in> K1" "\<phi>1 o0 = \<phi> o0" using K1 o0(1) by auto
    have inv2: "trace_inv h0 D \<phi>1 K1 {} h2" using finish_object [of h0 D \<phi>1 K1 o0 h2] 1(2,4) o1 by simp
    have "card (D - K1) + length (gh_worklist h2) < card (D - K) + length (gh_worklist h)"
      using 1(3) False by (simp add: grows_def h1_def)
    from less.hyps [OF this inv2]
    obtain \<phi>2 K2 h3 where 2: "gc_trace h2 = Some h3" "trace_inv h0 D \<phi>2 K2 {} h3" "gh_worklist h3 = []"
      "K1 \<subseteq> K2" "\<forall>c \<in> K1. \<phi>2 c = \<phi>1 c" "gh_roots h3 = gh_roots h2"
      by blast
    have im: "ob_rtt (gh_mem h1 (\<phi> o0)) = ob_rtt (gh_mem h0 o0)" "ob_len (gh_mem h1 (\<phi> o0)) = ob_len (gh_mem h0 o0)"
      using marks o0(1) unfolding marks_ok_def obj_image_def h1_def by simp_all
    have D: "o0 \<in> D" using marks o0(1) by (auto simp: marks_ok_def)
    have objs: "objs_ok h0 D" using st by (simp add: start_ok_def)
    have "ref_cells (gh_mem h0 o0) = Some (obj_cells (gh_mem h0 o0))" by (rule objs_okD [OF objs D])
    then have rc: "ref_cells (gh_mem h1 (\<phi> o0)) = Some (obj_cells (gh_mem h0 o0))" unfolding ref_cells_def im by simp
    have "gc_trace h = gc_trace h2"
      using False 1(1) rc by (subst gc_trace.simps) (simp add: Let_def h1_def [symmetric] o0(2))
    moreover have "K \<subseteq> K2" "\<forall>c \<in> K. \<phi>2 c = \<phi> c" "gh_roots h3 = gh_roots h" using K1 2(4-6) by auto
    ultimately show ?thesis using 2(1-3) by auto
  qed
qed

end
