(* ===== verification/GcVerify.thy ===== *)
theory GcVerify
  imports GcTrace
begin

text \<open>
  The heap checker of \<open>jav_gc.c\<close>.  It returns on every heap with finitely many reachable objects,
  and its verdict is exact: it finds nothing iff every reachable object satisfies what the collector
  promises of it and every large object is live.
\<close>

text \<open>What the checker asks of one reachable object.\<close>

definition gcv_ok :: "gc_heap \<Rightarrow> nat \<Rightarrow> bool" where
  "gcv_ok h a \<longleftrightarrow>
     (case ob_rtt (gh_mem h a) of
        None \<Rightarrow> False
      | Some r \<Rightarrow>
          let sz = unat (rtt_size r (ob_len (gh_mem h a))); b = imx_block_of a in
          ob_forward (gh_mem h a) = 0 \<and> gc_obj_live h (gh_mem h a) \<and> 0 < sz \<and>
          (if IMX_MEDIUM_MAX < sz then a \<in> set (gh_large_objs h)
           else b \<in> set (sp_all (gh_space h)) \<and> imx_block_data_start b \<le> a \<and> a + sz \<le> imx_block_data_end b \<and>
                (\<forall>l \<in> set (object_lines a sz). imx_lb_test (bk_line_marks (sp_mem (gh_space h) b)) l)))"

definition gcv_los_ok :: "gc_heap \<Rightarrow> nat \<Rightarrow> bool" where
  "gcv_los_ok h a \<longleftrightarrow> a \<noteq> 0 \<and> gc_obj_live h (gh_mem h a)"

abbreviation live_set :: "gc_heap \<Rightarrow> nat set" where
  "live_set h \<equiv> reach (gh_mem h) (gh_roots h)"

section \<open>The invariant of the walk\<close>

definition gcv_inv :: "gc_heap \<Rightarrow> nat set \<Rightarrow> gc_verify_ctx \<Rightarrow> bool" where
  "gcv_inv h X v \<longleftrightarrow>
     set (cv_seen v) \<subseteq> live_set h \<and> set (cv_work v) \<subseteq> set (cv_seen v) \<and>
     (cv_fail v = None \<longrightarrow>
        (\<forall>a \<in> set (cv_seen v). gcv_ok h a) \<and>
        (\<forall>a \<in> set (cv_seen v) - set (cv_work v) - X. refs_of (gh_mem h) a \<subseteq> set (cv_seen v))) \<and>
     (cv_fail v \<noteq> None \<longrightarrow> (\<exists>a \<in> live_set h. \<not> gcv_ok h a))"

definition gcv_measure :: "gc_heap \<Rightarrow> gc_verify_ctx \<Rightarrow> nat" where
  "gcv_measure h v = card (live_set h - set (cv_seen v)) + length (cv_work v)"

lemma gcv_visit_skip: "cv_fail v \<noteq> None \<or> \<not> is_ref a \<or> a \<in> set (cv_seen v) \<Longrightarrow> gcv_visit h a v = v"
  by (auto simp: gcv_visit_def is_ref_def)

lemma gcv_visit_new:
  assumes "cv_fail v = None" "is_ref a" "a \<notin> set (cv_seen v)"
  obtains r where "gcv_visit h a v =
    (if gcv_ok h a then v\<lparr>cv_seen := cv_seen v @ [a], cv_work := cv_work v @ [a]\<rparr>
     else v\<lparr>cv_seen := cv_seen v @ [a], cv_fail := Some (r, a)\<rparr>)"
proof (cases "ob_rtt (gh_mem h a)")
  case None
  then show thesis using assms by (intro that [of Null_rtt]) (simp add: gcv_visit_def gcv_ok_def is_ref_def Let_def)
next
  case (Some r)
  let ?v = "v\<lparr>cv_seen := cv_seen v @ [a]\<rparr>"
  let ?ok = "ob_forward (gh_mem h a) = 0 \<and> gc_obj_live h (gh_mem h a) \<and> rtt_size r (ob_len (gh_mem h a)) \<noteq> 0 \<and> gcv_ok h a"
  have ok: "gcv_ok h a \<Longrightarrow> ?ok" using Some by (auto simp: gcv_ok_def Let_def)
  have z: "rtt_size r (ob_len (gh_mem h a)) = 0 \<longleftrightarrow> unat (rtt_size r (ob_len (gh_mem h a))) = 0"
    by (simp add: unat_eq_0)
  have "\<exists>q. gcv_visit h a v = (if gcv_ok h a then ?v\<lparr>cv_work := cv_work v @ [a]\<rparr> else ?v\<lparr>cv_fail := Some (q, a)\<rparr>)"
    using assms Some z by (simp add: gcv_visit_def gcv_ok_def is_ref_def Let_def) auto
  then show thesis using that by auto
qed

lemma gcv_visit_inv:
  assumes inv: "gcv_inv h X v" and a: "is_ref a \<longrightarrow> a \<in> live_set h" and fin: "finite (live_set h)"
  shows "gcv_inv h X (gcv_visit h a v) \<and> set (cv_seen v) \<subseteq> set (cv_seen (gcv_visit h a v)) \<and>
    (cv_fail (gcv_visit h a v) = None \<longrightarrow> is_ref a \<longrightarrow> a \<in> set (cv_seen (gcv_visit h a v))) \<and>
    gcv_measure h (gcv_visit h a v) \<le> gcv_measure h v"
proof (cases "cv_fail v \<noteq> None \<or> \<not> is_ref a \<or> a \<in> set (cv_seen v)")
  case True
  then show ?thesis using inv gcv_visit_skip [OF True] by auto
next
  case False
  then have f: "cv_fail v = None" "is_ref a" "a \<notin> set (cv_seen v)" by blast+
  have al: "a \<in> live_set h" using a f by simp
  have "live_set h - set (cv_seen v) = insert a (live_set h - insert a (set (cv_seen v)))" using al f by auto
  then have card: "card (live_set h - set (cv_seen v)) = Suc (card (live_set h - insert a (set (cv_seen v))))"
    using fin by (metis Diff_iff card_insert_disjoint finite_Diff insertI1)
  obtain r where r: "gcv_visit h a v =
    (if gcv_ok h a then v\<lparr>cv_seen := cv_seen v @ [a], cv_work := cv_work v @ [a]\<rparr>
     else v\<lparr>cv_seen := cv_seen v @ [a], cv_fail := Some (r, a)\<rparr>)"
    by (rule gcv_visit_new [OF f])
  show ?thesis
    using inv al card f unfolding r gcv_inv_def gcv_measure_def by (cases "gcv_ok h a") auto
qed

lemma gcv_visits_inv:
  assumes "gcv_inv h X v" "\<forall>a \<in> set vs. is_ref a \<longrightarrow> a \<in> live_set h" and fin: "finite (live_set h)"
  shows "gcv_inv h X (fold (gcv_visit h) vs v) \<and> set (cv_seen v) \<subseteq> set (cv_seen (fold (gcv_visit h) vs v)) \<and>
    (cv_fail (fold (gcv_visit h) vs v) = None \<longrightarrow>
       (\<forall>a \<in> set vs. is_ref a \<longrightarrow> a \<in> set (cv_seen (fold (gcv_visit h) vs v)))) \<and>
    gcv_measure h (fold (gcv_visit h) vs v) \<le> gcv_measure h v"
  using assms(1,2)
proof (induction vs arbitrary: v)
  case Nil
  then show ?case by simp
next
  case (Cons a vs)
  let ?w = "gcv_visit h a v"
  have 1: "gcv_inv h X ?w" "set (cv_seen v) \<subseteq> set (cv_seen ?w)" "cv_fail ?w = None \<longrightarrow> is_ref a \<longrightarrow> a \<in> set (cv_seen ?w)"
    "gcv_measure h ?w \<le> gcv_measure h v"
    using gcv_visit_inv [OF Cons.prems(1) _ fin, of a] Cons.prems(2) by simp_all
  have keep: "cv_fail u \<noteq> None \<longrightarrow> fold (gcv_visit h) us u = u" for us u
    by (induction us) (auto simp: gcv_visit_skip)
  show ?case
  proof (cases "cv_fail ?w = None")
    case True
    then show ?thesis using Cons.IH [OF 1(1)] Cons.prems(2) 1 by auto
  next
    case False
    then have "fold (gcv_visit h) vs ?w = ?w" using keep by blast
    then show ?thesis using 1 False by (simp del: not_None_eq)
  qed
qed

section \<open>The whole check\<close>

lemma gcv_loop_spec:
  assumes "gcv_inv h {} v" and fin: "finite (live_set h)"
  shows "\<exists>w. gcv_loop h v = Some w \<and> gcv_inv h {} w \<and> set (cv_seen v) \<subseteq> set (cv_seen w) \<and> (cv_fail w = None \<longrightarrow> cv_work w = [])"
  using assms(1)
proof (induction "gcv_measure h v" arbitrary: v rule: less_induct)
  case less
  show ?case
  proof (cases "cv_fail v \<noteq> None \<or> cv_work v = []")
    case True
    then show ?thesis using less.prems by (subst gcv_loop.simps) auto
  next
    case False
    let ?a = "last (cv_work v)" and ?v = "v\<lparr>cv_work := butlast (cv_work v)\<rparr>"
    have f: "cv_fail v = None" "cv_work v \<noteq> []" using False by blast+
    have wl: "set (cv_work v) = insert ?a (set (butlast (cv_work v)))"
      using f(2) by (metis append_butlast_last_id list.set(2) list.simps(15) rotate1.simps(2) set_rotate1)
    then have a: "?a \<in> live_set h" "?a \<in> set (cv_seen v)" using less.prems by (auto simp: gcv_inv_def)
    have "gcv_ok h ?a" using less.prems a f by (simp add: gcv_inv_def)
    then have rc: "ref_cells (gh_mem h ?a) = Some (obj_cells (gh_mem h ?a))"
      by (auto simp: gcv_ok_def ref_cells_def obj_cells_def split: option.splits)
    let ?vs = "map (ob_cell (gh_mem h ?a)) (obj_cells (gh_mem h ?a))"
    have inv1: "gcv_inv h {?a} ?v" using less.prems f wl unfolding gcv_inv_def by auto
    have rv: "\<forall>c \<in> set ?vs. is_ref c \<longrightarrow> c \<in> live_set h"
      using reach_ref [OF a(1)] by (auto simp: refs_of_def)
    let ?w = "fold (gcv_visit h) ?vs ?v"
    have w: "gcv_inv h {?a} ?w" "set (cv_seen v) \<subseteq> set (cv_seen ?w)"
      "cv_fail ?w = None \<longrightarrow> (\<forall>c \<in> set ?vs. is_ref c \<longrightarrow> c \<in> set (cv_seen ?w))" "gcv_measure h ?w \<le> gcv_measure h ?v"
      using gcv_visits_inv [OF inv1 rv fin] by simp_all
    have "cv_fail ?w = None \<longrightarrow> refs_of (gh_mem h) ?a \<subseteq> set (cv_seen ?w)"
      using w(3) by (auto simp: refs_of_def)
    then have inv2: "gcv_inv h {} ?w" using w(1) unfolding gcv_inv_def by blast
    have "gcv_measure h ?v < gcv_measure h v" using f(2) by (simp add: gcv_measure_def)
    then have "gcv_measure h ?w < gcv_measure h v" using w(4) by simp
    from less.hyps [OF this inv2] obtain u where "gcv_loop h ?w = Some u" "gcv_inv h {} u"
      "set (cv_seen ?w) \<subseteq> set (cv_seen u)" "cv_fail u = None \<longrightarrow> cv_work u = []"
      by (elim exE conjE)
    moreover have "gcv_loop h v = gcv_loop h ?w"
      using f rc by (subst gcv_loop.simps) (simp add: Let_def fold_map comp_def)
    ultimately show ?thesis using w(2) by auto
  qed
qed

lemma gcv_los_fold: "fold (gcv_los h) as fl = None \<longleftrightarrow> fl = None \<and> (\<forall>a \<in> set as. gcv_los_ok h a)"
  by (induction as arbitrary: fl) (auto simp: gcv_los_def gcv_los_ok_def simp del: not_None_eq)

lemma gc_verify_iff:
  assumes "finite (reach (gh_mem h) (gh_roots h))"
  shows "\<exists>r. gc_verify h = Some r \<and>
    (r = None \<longleftrightarrow> (\<forall>a \<in> reach (gh_mem h) (gh_roots h). gcv_ok h a) \<and> (\<forall>a \<in> set (gh_large_objs h). gcv_los_ok h a))"
proof -
  let ?v = "\<lparr>cv_fail = None, cv_work = [], cv_seen = []\<rparr>"
  have inv: "gcv_inv h {} ?v" by (simp add: gcv_inv_def)
  let ?w = "fold (gcv_visit h) (gh_roots h) ?v"
  have w: "gcv_inv h {} ?w" "cv_fail ?w = None \<longrightarrow> (\<forall>a \<in> set (gh_roots h). is_ref a \<longrightarrow> a \<in> set (cv_seen ?w))"
    using gcv_visits_inv [OF inv _ assms, of "gh_roots h"] reach_root [of _ "gh_roots h"] by simp_all
  obtain u where u: "gcv_loop h ?w = Some u" "gcv_inv h {} u" "set (cv_seen ?w) \<subseteq> set (cv_seen u)"
    "cv_fail u = None \<longrightarrow> cv_work u = []" using gcv_loop_spec [OF w(1) assms] by (elim exE conjE)
  have "cv_fail u = None \<longleftrightarrow> (\<forall>a \<in> live_set h. gcv_ok h a)"
  proof
    assume n: "cv_fail u = None"
    have "cv_fail ?w = None"
    proof (rule ccontr)
      assume f: "cv_fail ?w \<noteq> None"
      then have "gcv_loop h ?w = Some ?w" by (subst gcv_loop.simps) simp
      then show False using u(1) n f by simp
    qed
    then have roots: "\<forall>a \<in> set (gh_roots h). is_ref a \<longrightarrow> a \<in> set (cv_seen u)" using w(2) u(3) by blast
    have closed: "\<forall>a \<in> set (cv_seen u). refs_of (gh_mem h) a \<subseteq> set (cv_seen u)"
      using u(2,4) n by (simp add: gcv_inv_def)
    have "a \<in> set (cv_seen u)" if "a \<in> live_set h" for a
      using that roots closed by induction auto
    then show "\<forall>a \<in> live_set h. gcv_ok h a" using u(2) n by (auto simp: gcv_inv_def)
  next
    assume "\<forall>a \<in> live_set h. gcv_ok h a"
    then show "cv_fail u = None" using u(2) unfolding gcv_inv_def by blast
  qed
  moreover have "gc_verify h = Some (fold (gcv_los h) (gh_large_objs h) (cv_fail u))"
    using u(1) by (simp add: gc_verify_def Let_def)
  ultimately show ?thesis using gcv_los_fold by simp
qed

text \<open>
  C17. \<open>gc_verify\<close> returns, and finds nothing exactly when every object reachable from the roots has a
  layout, no forwarding address, the mark of the last collection, a size, and is in the large object
  list or lies in the data part of a block of the space on lines that are marked, and when every
  large object carries the mark.
\<close>

theorem gc_verify_exact:
  assumes "finite (reach (gh_mem h) (gh_roots h))"
  shows "\<exists>r. gc_verify h = Some r \<and>
    (r = None \<longleftrightarrow> (\<forall>a \<in> reach (gh_mem h) (gh_roots h). gcv_ok h a) \<and> (\<forall>a \<in> set (gh_large_objs h). gcv_los_ok h a))"
  using assms by (rule gc_verify_iff)

text \<open>
  A heap whose roots hold a null, an immediate and a large object that refers to itself, beside a
  large object nothing refers to.
\<close>

definition demo_rtt :: gc_rtt where
  "demo_rtt =
     \<lparr>rt_size = 40000, rt_nfields = 1, rt_kind = GC_KIND_STRUCT, rt_elem_is_ref = False, rt_elem_store_w = 0,
      rt_elem_heap_w = 0, rt_field_off = None, rt_gid = 0, rt_ref_offsets = [24]\<rparr>"

definition demo_heap :: gc_heap where
  "demo_heap =
     (gc_heap_init blank_mem (\<lambda>a. (fresh_obj demo_rtt)\<lparr>ob_cell := (\<lambda>_. if a = 16 then 16 else 0)\<rparr>))
       \<lparr>gh_roots := [0, 3, 16], gh_large_objs := [16, 65552], gh_large_bytes := 80000\<rparr>"

lemma demo_reach: "reach (gh_mem demo_heap) (gh_roots demo_heap) = {16}"
proof
  show "reach (gh_mem demo_heap) (gh_roots demo_heap) \<subseteq> {16}"
  proof
    fix a assume "a \<in> reach (gh_mem demo_heap) (gh_roots demo_heap)"
    then show "a \<in> {16}"
      by induction (auto simp: demo_heap_def demo_rtt_def gc_heap_init_def fresh_obj_def refs_of_def is_ref_def
          obj_cells_def ref_cells_def )
  qed
  have "16 \<in> reach (gh_mem demo_heap) (gh_roots demo_heap)"
    by (rule reach_root) (simp_all add: demo_heap_def is_ref_def )
  then show "{16} \<subseteq> reach (gh_mem demo_heap) (gh_roots demo_heap)" by simp
qed

lemma gc_verify_exact_witness: "gc_verify demo_heap = Some None"
proof -
  have "gcv_ok demo_heap 16"
    by (simp add: gcv_ok_def demo_heap_def demo_rtt_def gc_heap_init_def fresh_obj_def rtt_size_def gc_obj_live_def
        IMX_MEDIUM_MAX_def IMX_DATA_START_OFFSET_def IMX_DATA_START_LINE_def Let_def)
  moreover have "\<forall>a \<in> set (gh_large_objs demo_heap). gcv_los_ok demo_heap a"
    by (simp add: gcv_los_ok_def demo_heap_def gc_heap_init_def fresh_obj_def gc_obj_live_def)
  ultimately show ?thesis using gc_verify_exact [of demo_heap] unfolding demo_reach by auto
qed

end
