(* ===== verification/GcCollect.thy ===== *)
theory GcCollect
  imports GcVerify
begin

text \<open>
  A whole collection: clear the marks, select the blocks to evacuate, mark and copy, sweep the blocks
  and the large objects, advance the epoch, and rebase the allocation budget.
\<close>

section \<open>The heap that the trace starts from\<close>

definition gc_begin :: "gc_heap \<Rightarrow> gc_heap" where
  "gc_begin h =
     (let h = h\<lparr>gh_space := imx_space_clear_marks (gh_space h)\<rparr> in
      h\<lparr>gh_space := imx_space_begin_evacuation (evac_headroom h) (gh_space h), gh_live_bytes := 0, gh_worklist := []\<rparr>)"

lemma gc_begin_sel:
  "gh_mem (gc_begin h) = gh_mem h" "gh_roots (gc_begin h) = gh_roots h" "gh_epoch (gc_begin h) = gh_epoch h"
  "gh_worklist (gc_begin h) = []" "gh_large_objs (gc_begin h) = gh_large_objs h"
  "gh_large_bytes (gc_begin h) = gh_large_bytes h" "gh_live_bytes (gc_begin h) = 0"
  "gh_evac_headroom_div (gc_begin h) = gh_evac_headroom_div h" "gh_reports (gc_begin h) = gh_reports h"
  "gh_gc_threshold (gc_begin h) = gh_gc_threshold h"
  by (simp_all add: gc_begin_def Let_def)

lemma gc_begin_ok:
  assumes inv: "gc_inv h D"
  shows "start_ok (gc_begin h) D" "trace_inv (gc_begin h) D (\<lambda>a. a) {} {} (gc_begin h)"
    "sp_all (gh_space (gc_begin h)) = sp_all (gh_space h)"
proof -
  let ?S = "small_objs (gh_mem h) D"
  have ok: "objs_ok h D" "refs_closed h D" "large_ok h D"
    and sm: "heap_ok (gh_space h) (bytes_of ?S)" "spare_ok (gh_space h) (bytes_of ?S)" "resident (gh_space h) ?S" "objects_disjoint ?S"
    using inv by (simp_all add: gc_inv_def smalls_ok_def)
  obtain n where n: "gh_space (gc_begin h) = imx_space_begin_evacuation n (imx_space_clear_marks (gh_space h))"
    by (simp add: gc_begin_def Let_def)
  note ts = trace_start [OF sm(1,2) n]
  show all: "sp_all (gh_space (gc_begin h)) = sp_all (gh_space h)" by (rule ts(2))
  have "objs_ok (gc_begin h) D = objs_ok h D" "refs_closed (gc_begin h) D = refs_closed h D"
    "large_ok (gc_begin h) D = large_ok h D" "resident (gh_space (gc_begin h)) ?S = resident (gh_space h) ?S"
    by (simp_all add: objs_ok_def refs_closed_def large_ok_def resident_def gc_begin_sel all)
  then show "start_ok (gc_begin h) D" using ok sm(3) by (simp add: start_ok_def gc_begin_sel)
  have "marked_objs (gc_begin h) (\<lambda>a. a) {} = {}" "marked_objs (gc_begin h) (\<lambda>a. a) D = ?S"
    by (auto simp: marked_objs_def small_objs_def gc_begin_sel)
  then have "places_ok (gc_begin h) D (\<lambda>a. a) {} (gc_begin h)"
    using ts(1) sm(4) by (simp add: places_ok_def gc_begin_sel resident_def)
  moreover have "marks_ok (gc_begin h) D (\<lambda>a. a) {} {} (gc_begin h)"
    by (simp add: marks_ok_def gc_begin_sel)
  ultimately show "trace_inv (gc_begin h) D (\<lambda>a. a) {} {} (gc_begin h)" by (simp add: trace_inv_def gc_same_def)
qed

section \<open>The trace from the roots\<close>

lemma last_marks:
  assumes inv: "trace_inv h0 D \<phi> K {} h" and wl: "gh_worklist h = []"
    and roots: "\<forall>v \<in> set (gh_roots h0). is_ref v \<longrightarrow> v \<in> K"
  shows "K = reach (gh_mem h0) (gh_roots h0)"
    and "a \<in> K \<Longrightarrow> obj_image \<phi> K (gh_mem h0 a) True (gh_mem h (\<phi> a))"
proof -
  have marks: "marks_ok h0 D \<phi> K {} h" using inv by (simp add: trace_inv_def)
  show img: "obj_image \<phi> K (gh_mem h0 a) True (gh_mem h (\<phi> a))" if "a \<in> K" for a
  proof -
    have "obj_image \<phi> K (gh_mem h0 a) (\<phi> a \<notin> set (gh_worklist h) \<union> {}) (gh_mem h (\<phi> a))"
      using marks that unfolding marks_ok_def by blast
    then show ?thesis by (simp add: wl)
  qed
  have closed: "v \<in> K" if "a \<in> K" "v \<in> refs_of (gh_mem h0) a" for a v
    using img [OF that(1)] that(2) by (auto simp: refs_of_def obj_image_def)
  have "a \<in> K" if "a \<in> reach (gh_mem h0) (gh_roots h0)" for a
    using that roots closed by induction auto
  moreover have "K \<subseteq> reach (gh_mem h0) (gh_roots h0)" using marks by (simp add: marks_ok_def)
  ultimately show "K = reach (gh_mem h0) (gh_roots h0)" by blast
qed

lemma mark_and_trace:
  assumes inv: "gc_inv h D" and h0: "h0 = gc_begin h" and K: "K = reach (gh_mem h) (gh_roots h)"
  obtains \<phi> h1 h2 rs where "gc_mark_roots (gh_roots h0) h0 = Some (rs, h1)" "gc_trace (h1\<lparr>gh_roots := rs\<rparr>) = Some h2"
    "trace_inv h0 D \<phi> K {} h2" "gh_roots h2 = map (fwd \<phi>) (gh_roots h)"
    "\<forall>a \<in> K. obj_image \<phi> K (gh_mem h a) True (gh_mem h2 (\<phi> a))"
proof -
  note b = gc_begin_ok [OF inv, folded h0]
  note sel = gc_begin_sel [of h, folded h0]
  have "\<forall>v \<in> set (gh_roots h0). is_ref v \<longrightarrow> v \<in> reach (gh_mem h0) (gh_roots h0)" by (auto intro: reach_root)
  from mark_roots_spec [OF b(1,2) this]
  obtain \<phi>1 K1 h1 where 1: "gc_mark_roots (gh_roots h0) h0 = Some (map (fwd \<phi>1) (gh_roots h0), h1)"
    "trace_inv h0 D \<phi>1 K1 {} h1" "\<forall>v \<in> set (gh_roots h0). is_ref v \<longrightarrow> v \<in> K1"
    by blast
  let ?h1 = "h1\<lparr>gh_roots := map (fwd \<phi>1) (gh_roots h0)\<rparr>"
  have "trace_inv h0 D \<phi>1 K1 {} ?h1"
    using 1(2) by (simp add: trace_inv_def gc_same_def marks_ok_def places_ok_def)
  from trace_spec [OF b(1) this]
  obtain \<phi> L h2 where 2: "gc_trace ?h1 = Some h2" "trace_inv h0 D \<phi> L {} h2" "gh_worklist h2 = []"
    "K1 \<subseteq> L" "\<forall>c \<in> K1. \<phi> c = \<phi>1 c" "gh_roots h2 = gh_roots ?h1"
    by blast
  have "\<forall>v \<in> set (gh_roots h0). is_ref v \<longrightarrow> v \<in> L" using 1(3) 2(4) by blast
  note lm = last_marks [OF 2(2,3) this]
  have L: "L = K" using lm(1) by (simp add: K sel)
  have "map (fwd \<phi>1) (gh_roots h0) = map (fwd \<phi>) (gh_roots h)"
    using 1(3) 2(5) by (auto simp: sel fwd_def)
  then have "gh_roots h2 = map (fwd \<phi>) (gh_roots h)" using 2(6) by simp
  moreover have "\<forall>a \<in> K. obj_image \<phi> K (gh_mem h a) True (gh_mem h2 (\<phi> a))" using lm(2) by (simp add: L sel)
  moreover have "trace_inv h0 D \<phi> K {} h2" using 2(2) by (simp add: L)
  ultimately show thesis using that [of "map (fwd \<phi>1) (gh_roots h0)" h1 h2 \<phi>] 1(1) 2(1) by blast
qed

section \<open>The large objects\<close>

lemma los_sweep_loop_spec:
  assumes "\<forall>a \<in> set xs. ob_rtt (gh_mem h a) \<noteq> None"
  shows "los_sweep_loop xs h kept bytes =
    Some (kept @ filter (\<lambda>a. ob_epoch (gh_mem h a) = gh_epoch h) xs,
          bytes - word_of_nat (\<Sum>a \<leftarrow> filter (\<lambda>a. ob_epoch (gh_mem h a) \<noteq> gh_epoch h) xs. osize (gh_mem h a)))"
  using assms
proof (induction xs arbitrary: kept bytes)
  case Nil
  then show ?case by simp
next
  case (Cons a xs)
  then obtain r where "ob_rtt (gh_mem h a) = Some r" by auto
  then have "gc_obj_size (gh_mem h a) = Some (rtt_size r (ob_len (gh_mem h a)))"
    "osize (gh_mem h a) = unat (rtt_size r (ob_len (gh_mem h a)))" by (simp_all add: gc_obj_size_def osize_def)
  then show ?case using Cons by simp
qed

lemma sum_list_filter_split:
  "(\<Sum>a \<leftarrow> xs. f a) = (\<Sum>a \<leftarrow> filter P xs. f a) + (\<Sum>a \<leftarrow> filter (\<lambda>a. \<not> P a) xs. (f a :: nat))"
  by (induction xs) simp_all

text \<open>The sweep of a traced heap keeps exactly the large objects that are marked.\<close>

lemma los_sweep_traced:
  assumes st: "start_ok h0 D" and inv: "trace_inv h0 D \<phi> K {} h"
    and g: "gh_mem g = gh_mem h" "gh_epoch g = gh_epoch h" "gh_large_objs g = gh_large_objs h" "gh_large_bytes g = gh_large_bytes h"
  shows "los_sweep g = Some (g\<lparr>gh_large_objs := filter (\<lambda>a. a \<in> K) (gh_large_objs h0),
      gh_large_bytes := word_of_nat (\<Sum>a \<leftarrow> filter (\<lambda>a. a \<in> K) (gh_large_objs h0). osize (gh_mem h0 a))\<rparr>)"
proof -
  have objs: "objs_ok h0 D" and large: "large_ok h0 D" using st by (simp_all add: start_ok_def)
  have marks: "marks_ok h0 D \<phi> K {} h" and same: "gc_same h0 h" using inv by (simp_all add: trace_inv_def)
  let ?xs = "gh_large_objs h0"
  have xs: "gh_large_objs g = ?xs" "gh_epoch g = gh_epoch h0" using same g by (simp_all add: gc_same_def)
  have D: "a \<in> D \<and> \<not> osize (gh_mem h0 a) \<le> IMX_MEDIUM_MAX" if "a \<in> set ?xs" for a
    using large that unfolding large_ok_def by auto
  have un: "ob_epoch (gh_mem g a) \<noteq> gh_epoch h0 \<and> ob_rtt (gh_mem g a) \<noteq> None \<and> osize (gh_mem g a) = osize (gh_mem h0 a)"
    if a: "a \<in> set ?xs" "a \<notin> K" for a
  proof -
    have "gh_mem h a = gh_mem h0 a" using marks D [OF a(1)] a(2) by (auto simp: marks_ok_def)
    moreover have "ob_epoch (gh_mem h0 a) \<noteq> gh_epoch h0" "ob_rtt (gh_mem h0 a) \<noteq> None"
      using objs D [OF a(1)] unfolding objs_ok_def obj_wf_def by blast+
    ultimately show ?thesis by (simp add: g(1))
  qed
  have mk: "ob_epoch (gh_mem g a) = gh_epoch h0 \<and> ob_rtt (gh_mem g a) \<noteq> None" if a: "a \<in> set ?xs" "a \<in> K" for a
  proof -
    have "\<phi> a = a" using marks D [OF a(1)] a(2) unfolding marks_ok_def by blast
    moreover have "ob_epoch (gh_mem h (\<phi> a)) = gh_epoch h0" "ob_rtt (gh_mem h (\<phi> a)) = ob_rtt (gh_mem h0 a)"
      using marks a(2) unfolding marks_ok_def obj_image_def by blast+
    moreover have "ob_rtt (gh_mem h0 a) \<noteq> None" using objs D [OF a(1)] unfolding objs_ok_def obj_wf_def by blast
    ultimately show ?thesis by (simp add: g(1))
  qed
  have f: "filter (\<lambda>a. ob_epoch (gh_mem g a) = gh_epoch h0) ?xs = filter (\<lambda>a. a \<in> K) ?xs"
    "filter (\<lambda>a. ob_epoch (gh_mem g a) \<noteq> gh_epoch h0) ?xs = filter (\<lambda>a. a \<notin> K) ?xs"
    by (rule filter_cong [OF refl]; use un mk in blast)+
  have dead: "(\<Sum>a \<leftarrow> filter (\<lambda>a. a \<notin> K) ?xs. osize (gh_mem g a)) = (\<Sum>a \<leftarrow> filter (\<lambda>a. a \<notin> K) ?xs. osize (gh_mem h0 a))"
    by (intro arg_cong [where f = sum_list] map_cong refl) (use un in auto)
  have b: "gh_large_bytes g = word_of_nat (\<Sum>a \<leftarrow> ?xs. osize (gh_mem h0 a))"
    using same large by (simp add: g(4) gc_same_def large_ok_def)
  have "gh_large_bytes g - word_of_nat (\<Sum>a \<leftarrow> filter (\<lambda>a. a \<notin> K) ?xs. osize (gh_mem h0 a)) =
      word_of_nat (\<Sum>a \<leftarrow> filter (\<lambda>a. a \<in> K) ?xs. osize (gh_mem h0 a))"
    unfolding b sum_list_filter_split [of "\<lambda>a. osize (gh_mem h0 a)" ?xs "\<lambda>a. a \<in> K"] by simp
  moreover have "\<forall>a \<in> set ?xs. ob_rtt (gh_mem g a) \<noteq> None" using un mk by blast
  ultimately show ?thesis by (simp add: los_sweep_def los_sweep_loop_spec xs f dead)
qed

section \<open>The heap after the sweep\<close>

text \<open>The finished copy: same layout and length, every reference replaced by the new address.\<close>

definition obj_copy :: "(nat \<Rightarrow> nat) \<Rightarrow> gc_obj \<Rightarrow> gc_obj \<Rightarrow> bool" where
  "obj_copy \<phi> ob0 ob \<longleftrightarrow>
     ob_rtt ob = ob_rtt ob0 \<and> ob_len ob = ob_len ob0 \<and>
     (\<forall>off. ob_cell ob off = (if off \<in> set (obj_cells ob0) then fwd \<phi> (ob_cell ob0 off) else ob_cell ob0 off))"

lemma image_copy: "obj_image \<phi> K ob0 True ob \<Longrightarrow> obj_copy \<phi> ob0 ob"
  unfolding obj_image_def obj_copy_def fwd_def by auto

lemma copy_layout:
  assumes "obj_copy \<phi> ob0 ob"
  shows "obj_cells ob = obj_cells ob0" "osize ob = osize ob0" "obj_wf ob = obj_wf ob0"
proof -
  have e: "ob_rtt ob = ob_rtt ob0" "ob_len ob = ob_len ob0" using assms by (simp_all add: obj_copy_def)
  show c: "obj_cells ob = obj_cells ob0" "osize ob = osize ob0"
    unfolding obj_cells_def ref_cells_def osize_def gc_obj_size_def e by simp_all
  show "obj_wf ob = obj_wf ob0" by (simp add: obj_wf_def c e)
qed

lemma refs_of_copy:
  assumes "obj_copy \<phi> (mem a) (mem' (\<phi> a))" "\<forall>v \<in> refs_of mem a. is_ref (\<phi> v)"
  shows "refs_of mem' (\<phi> a) = \<phi> ` refs_of mem a"
proof -
  have c: "ob_cell (mem' (\<phi> a)) off = fwd \<phi> (ob_cell (mem a) off)" if "off \<in> set (obj_cells (mem a))" for off
    using assms(1) that by (simp add: obj_copy_def)
  show ?thesis
  proof (intro equalityI subsetI)
    fix v assume "v \<in> refs_of mem' (\<phi> a)"
    then obtain off where off: "off \<in> set (obj_cells (mem a))" "is_ref v" "v = fwd \<phi> (ob_cell (mem a) off)"
      using c by (auto simp: refs_of_def copy_layout [OF assms(1)])
    then have "is_ref (ob_cell (mem a) off)" by (auto simp: fwd_def split: if_splits)
    then show "v \<in> \<phi> ` refs_of mem a" using off by (auto simp: refs_of_def fwd_def)
  next
    fix v assume "v \<in> \<phi> ` refs_of mem a"
    then obtain off where off: "off \<in> set (obj_cells (mem a))" "is_ref (ob_cell (mem a) off)" "v = \<phi> (ob_cell (mem a) off)"
      by (auto simp: refs_of_def)
    then have "is_ref v" using assms(2) by (auto simp: refs_of_def)
    moreover have "v = ob_cell (mem' (\<phi> a)) off" using off c by (simp add: fwd_def)
    ultimately show "v \<in> refs_of mem' (\<phi> a)" using off(1) by (auto simp: refs_of_def copy_layout [OF assms(1)])
  qed
qed

text \<open>A copied graph is reachable exactly at the new addresses.\<close>

lemma reach_copy:
  assumes K: "K = reach mem roots" and roots: "roots' = map (fwd \<phi>) roots"
    and copy: "\<forall>a \<in> K. is_ref (\<phi> a) \<and> obj_copy \<phi> (mem a) (mem' (\<phi> a))"
  shows "reach mem' roots' = \<phi> ` K"
proof -
  have refs: "refs_of mem' (\<phi> a) = \<phi> ` refs_of mem a" "refs_of mem a \<subseteq> K" if "a \<in> K" for a
  proof -
    show sub: "refs_of mem a \<subseteq> K" using reach_ref [of a mem roots] that by (auto simp: K)
    show "refs_of mem' (\<phi> a) = \<phi> ` refs_of mem a" using copy that sub by (intro refs_of_copy) auto
  qed
  show ?thesis
  proof (intro equalityI subsetI)
    fix v assume "v \<in> reach mem' roots'"
    then show "v \<in> \<phi> ` K"
    proof induction
      case (reach_root v)
      then obtain r where r: "r \<in> set roots" "v = fwd \<phi> r" by (auto simp: roots)
      then have ref: "is_ref r" using reach_root.hyps(2) by (auto simp: fwd_def split: if_splits)
      have "r \<in> reach mem roots" by (rule reach.reach_root [OF r(1) ref])
      then show ?case using r(2) ref by (simp add: fwd_def K)
    next
      case (reach_ref a v)
      then obtain a0 where a0: "a0 \<in> K" "a = \<phi> a0" by blast
      then show ?case using reach_ref.hyps(2) refs [OF a0(1)] by auto
    qed
  next
    have "\<phi> a \<in> reach mem' roots'" if "a \<in> reach mem roots" for a
      using that
    proof induction
      case (reach_root v)
      have "v \<in> K" using reach.reach_root [OF reach_root] by (simp add: K)
      then have "is_ref (\<phi> v)" using copy by blast
      moreover have "\<phi> v \<in> set roots'" using reach_root by (auto simp: roots fwd_def image_iff intro!: bexI [of _ v])
      ultimately show ?case by (rule reach.reach_root [rotated])
    next
      case (reach_ref a v)
      have "a \<in> K" using reach_ref.hyps(1) by (simp add: K)
      then have "\<phi> v \<in> refs_of mem' (\<phi> a)" using refs(1) reach_ref.hyps(2) by blast
      with reach_ref.IH show ?case by (rule reach.reach_ref)
    qed
    then show "v \<in> reach mem' roots'" if "v \<in> \<phi> ` K" for v using that by (auto simp: K)
  qed
qed

text \<open>The state \<open>h'\<close> that the sweep of the traced heap \<open>h2\<close> leaves.\<close>

definition swept :: "gc_heap \<Rightarrow> nat set \<Rightarrow> gc_heap \<Rightarrow> gc_heap \<Rightarrow> bool" where
  "swept h0 K h2 h' \<longleftrightarrow>
     (\<exists>n. gh_space h' = imx_space_reclaim n (imx_space_end_evacuation (gh_space h2))) \<and> gh_mem h' = gh_mem h2 \<and>
     gh_roots h' = gh_roots h2 \<and> gh_epoch h' = gh_epoch h0 + 1 \<and> gh_evac_headroom_div h' = gh_evac_headroom_div h0 \<and>
     gh_large_objs h' = filter (\<lambda>a. a \<in> K) (gh_large_objs h0) \<and>
     gh_large_bytes h' = word_of_nat (\<Sum>a \<leftarrow> filter (\<lambda>a. a \<in> K) (gh_large_objs h0). osize (gh_mem h0 a))"

lemma swept_objects:
  assumes st: "start_ok h0 D" and inv: "trace_inv h0 D \<phi> K {} h2"
    and img: "\<forall>a \<in> K. obj_image \<phi> K (gh_mem h0 a) True (gh_mem h2 (\<phi> a))" and sw: "swept h0 K h2 h'"
    and a: "a \<in> K"
  shows "is_ref (\<phi> a)" "obj_wf (gh_mem h' (\<phi> a))" "ob_forward (gh_mem h' (\<phi> a)) = 0"
    "ob_epoch (gh_mem h' (\<phi> a)) = gh_epoch h0" "osize (gh_mem h' (\<phi> a)) = osize (gh_mem h0 a)"
    "obj_copy \<phi> (gh_mem h0 a) (gh_mem h' (\<phi> a))" "24 \<le> osize (gh_mem h0 a)"
proof -
  have objs: "objs_ok h0 D" using st by (simp add: start_ok_def)
  have marks: "marks_ok h0 D \<phi> K {} h2" using inv by (simp add: trace_inv_def)
  have D: "a \<in> D" using marks a by (auto simp: marks_ok_def)
  have mem: "gh_mem h' = gh_mem h2" using sw by (simp add: swept_def)
  have i: "obj_image \<phi> K (gh_mem h0 a) True (gh_mem h2 (\<phi> a))" using img a by blast
  note cp = image_copy [OF i]
  show "is_ref (\<phi> a)" "ob_epoch (gh_mem h' (\<phi> a)) = gh_epoch h0"
    using marks a unfolding mem marks_ok_def by blast+
  show "ob_forward (gh_mem h' (\<phi> a)) = 0" using i by (simp add: obj_image_def mem)
  show "obj_copy \<phi> (gh_mem h0 a) (gh_mem h' (\<phi> a))" using cp by (simp add: mem)
  show "obj_wf (gh_mem h' (\<phi> a))" using objs D by (simp add: mem copy_layout [OF cp] objs_ok_def)
  show "osize (gh_mem h' (\<phi> a)) = osize (gh_mem h0 a)" by (simp add: mem copy_layout [OF cp])
  show "24 \<le> osize (gh_mem h0 a)" by (rule objs_okD [OF objs D])
qed

lemma objects_disjoint_mono: "objects_disjoint Os \<Longrightarrow> Ps \<subseteq> Os \<Longrightarrow> objects_disjoint Ps"
  unfolding objects_disjoint_def by blast

lemma swept_inv:
  assumes st: "start_ok h0 D" and inv: "trace_inv h0 D \<phi> K {} h2"
    and K: "K = reach (gh_mem h0) (gh_roots h0)" and roots: "gh_roots h2 = map (fwd \<phi>) (gh_roots h0)"
    and img: "\<forall>a \<in> K. obj_image \<phi> K (gh_mem h0 a) True (gh_mem h2 (\<phi> a))" and sw: "swept h0 K h2 h'"
    and ep: "gh_epoch h0 + 1 \<noteq> 0" and hd: "0 < gh_evac_headroom_div h0"
  shows "gc_inv h' (\<phi> ` K)" "reach (gh_mem h') (gh_roots h') = \<phi> ` K"
    "\<forall>(a, sz) \<in> marked_objs h0 \<phi> K. object_marked (gh_space h') a sz"
    "sp_all (gh_space h') = sp_all (gh_space h0)"
proof -
  have objs: "objs_ok h0 D" and large: "large_ok h0 D" using st by (simp_all add: start_ok_def)
  have marks: "marks_ok h0 D \<phi> K {} h2" and same: "gc_same h0 h2" and places: "places_ok h0 D \<phi> K h2"
    using inv by (simp_all add: trace_inv_def)
  note ob = swept_objects [OF st inv img sw]
  have KD: "K \<subseteq> D" "finite K" using marks objs finite_subset by (auto simp: marks_ok_def objs_ok_def)
  have ep1: "gh_epoch h' = gh_epoch h0 + 1" using sw by (simp add: swept_def)
  let ?Ms = "marked_objs h0 \<phi> K"
  have tr: "trace_ok (gh_space h2) (bytes_of (small_objs (gh_mem h0) D \<union> ?Ms)) ?Ms" using places by (simp add: places_ok_def)
  obtain n where n: "gh_space h' = imx_space_reclaim n (imx_space_end_evacuation (gh_space h2))"
    using sw by (auto simp: swept_def)
  note te = trace_end [OF tr n]
  show all: "sp_all (gh_space h') = sp_all (gh_space h0)" using te(3) same by (simp add: gc_same_def)
  show "\<forall>(a, sz) \<in> ?Ms. object_marked (gh_space h') a sz" using te(4) by blast
  have "gh_roots h' = map (fwd \<phi>) (gh_roots h0)" using sw roots by (simp add: swept_def)
  then show rc: "reach (gh_mem h') (gh_roots h') = \<phi> ` K" using ob by (intro reach_copy [OF K]) auto
  have o1: "objs_ok h' (\<phi> ` K)" using ob KD(2) by (auto simp: objs_ok_def ep1)
  have o2: "refs_closed h' (\<phi> ` K)"
    unfolding refs_closed_def rc [symmetric] by (auto intro: reach_root reach_ref)
  have "small_objs (gh_mem h') (\<phi> ` K) = ?Ms" using ob(5) by (force simp: small_objs_def marked_objs_def)
  moreover have "resident (gh_space h') ?Ms" using places same all by (simp add: places_ok_def resident_def gc_same_def)
  moreover have "objects_disjoint ?Ms"
  proof (rule objects_disjoint_mono)
    show "objects_disjoint (marked_objs h0 \<phi> D)" using places by (simp add: places_ok_def)
    show "?Ms \<subseteq> marked_objs h0 \<phi> D" using KD(1) by (auto simp: marked_objs_def)
  qed
  ultimately have o3: "smalls_ok h' (\<phi> ` K)" using te(1,2) by (simp add: smalls_ok_def)
  have stay: "\<phi> a = a" if "a \<in> K" "IMX_MEDIUM_MAX < osize (gh_mem h0 a)" for a
    using marks that unfolding marks_ok_def by (metis not_le)
  let ?xs = "gh_large_objs h0"
  have xs: "set ?xs = {a \<in> D. IMX_MEDIUM_MAX < osize (gh_mem h0 a)}" "distinct ?xs" using large by (simp_all add: large_ok_def)
  have lo: "gh_large_objs h' = filter (\<lambda>a. a \<in> K) ?xs"
    "gh_large_bytes h' = word_of_nat (\<Sum>a \<leftarrow> filter (\<lambda>a. a \<in> K) ?xs. osize (gh_mem h0 a))"
    using sw by (simp_all add: swept_def)
  have sz: "osize (gh_mem h' a) = osize (gh_mem h0 a)" if "a \<in> set ?xs" "a \<in> K" for a
    using ob(5) [OF that(2)] stay [OF that(2)] that(1) xs(1) by simp
  have "set (gh_large_objs h') = {a \<in> \<phi> ` K. IMX_MEDIUM_MAX < osize (gh_mem h' a)}"
  proof (intro equalityI subsetI)
    fix a assume "a \<in> set (gh_large_objs h')"
    then have a: "a \<in> set ?xs" "a \<in> K" by (simp_all add: lo)
    then have "\<phi> a = a" using stay xs(1) by simp
    then show "a \<in> {a \<in> \<phi> ` K. IMX_MEDIUM_MAX < osize (gh_mem h' a)}"
      using a sz [OF a] xs(1) by (metis (mono_tags, lifting) imageI mem_Collect_eq)
  next
    fix a assume "a \<in> {a \<in> \<phi> ` K. IMX_MEDIUM_MAX < osize (gh_mem h' a)}"
    then obtain c where c: "c \<in> K" "a = \<phi> c" "IMX_MEDIUM_MAX < osize (gh_mem h0 c)" using ob(5) by auto
    then show "a \<in> set (gh_large_objs h')" using stay [OF c(1,3)] KD(1) xs(1) by (auto simp: lo)
  qed
  moreover have "(\<Sum>a \<leftarrow> filter (\<lambda>a. a \<in> K) ?xs. osize (gh_mem h' a)) = (\<Sum>a \<leftarrow> filter (\<lambda>a. a \<in> K) ?xs. osize (gh_mem h0 a))"
    by (intro arg_cong [where f = sum_list] map_cong refl) (use sz in auto)
  moreover have "{a..<a + osize (gh_mem h' a)} \<inter> {b..<b + 32768} = {}"
    if "a \<in> set (gh_large_objs h')" "b \<in> set (sp_all (gh_space h'))" for a b
  proof -
    have "a \<in> set ?xs" "a \<in> K" "b \<in> set (sp_all (gh_space h0))" using that by (simp_all add: lo all)
    then show ?thesis using large sz unfolding large_ok_def by metis
  qed
  moreover have "objects_disjoint {(a, osize (gh_mem h' a)) | a. a \<in> set (gh_large_objs h')}"
  proof -
    have "{(a, osize (gh_mem h' a)) | a. a \<in> set (gh_large_objs h')} \<subseteq> {(a, osize (gh_mem h0 a)) | a. a \<in> set ?xs}"
      using sz by (auto simp: lo)
    moreover have "objects_disjoint {(a, osize (gh_mem h0 a)) | a. a \<in> set ?xs}" using large unfolding large_ok_def by blast
    ultimately show ?thesis by (rule objects_disjoint_mono [rotated])
  qed
  ultimately have o4: "large_ok h' (\<phi> ` K)" using xs(2) by (simp add: large_ok_def lo)
  have "gh_evac_headroom_div h' = gh_evac_headroom_div h0" using sw by (simp add: swept_def)
  then show "gc_inv h' (\<phi> ` K)" using o1 o2 o3 o4 ep hd by (simp add: gc_inv_def ep1 word_gt_0)
qed

text \<open>The checker accepts the heap.\<close>

lemma swept_clean:
  assumes st: "start_ok h0 D" and inv: "trace_inv h0 D \<phi> K {} h2"
    and K: "K = reach (gh_mem h0) (gh_roots h0)" and roots: "gh_roots h2 = map (fwd \<phi>) (gh_roots h0)"
    and img: "\<forall>a \<in> K. obj_image \<phi> K (gh_mem h0 a) True (gh_mem h2 (\<phi> a))" and sw: "swept h0 K h2 h'"
    and ep: "gh_epoch h0 + 1 \<noteq> 0" and hd: "0 < gh_evac_headroom_div h0"
  shows "gc_verify h' = Some None"
proof -
  note si = swept_inv [OF assms]
  note ob = swept_objects [OF st inv img sw]
  have large: "large_ok h' (\<phi> ` K)" and sm: "smalls_ok h' (\<phi> ` K)" and objs: "objs_ok h' (\<phi> ` K)"
    using si(1) by (simp_all add: gc_inv_def)
  have ep1: "gh_epoch h' = gh_epoch h0 + 1" using sw by (simp add: swept_def)
  have live: "gc_obj_live h' (gh_mem h' (\<phi> a))" if "a \<in> K" for a
    using ob(4) [OF that] by (simp add: gc_obj_live_def ep1)
  have ok: "gcv_ok h' (\<phi> a)" if a: "a \<in> K" for a
  proof -
    have D: "\<phi> a \<in> \<phi> ` K" using a by blast
    obtain r where r: "ob_rtt (gh_mem h' (\<phi> a)) = Some r"
      "osize (gh_mem h' (\<phi> a)) = unat (rtt_size r (ob_len (gh_mem h' (\<phi> a))))" "24 \<le> osize (gh_mem h' (\<phi> a))"
      by (rule objs_okD [OF objs D])
    define sz where "sz = osize (gh_mem h' (\<phi> a))"
    have pos: "0 < sz" using r(3) by (simp add: sz_def)
    show ?thesis
    proof (cases "IMX_MEDIUM_MAX < sz")
      case True
      then have "\<phi> a \<in> set (gh_large_objs h')" using large D by (simp add: large_ok_def sz_def)
      then show ?thesis using True live [OF a] ob(3) [OF a] r(1) pos by (simp add: gcv_ok_def Let_def sz_def r(2))
    next
      case False
      have in_small: "(\<phi> a, sz) \<in> small_objs (gh_mem h') (\<phi> ` K)" using D False by (auto simp: small_objs_def sz_def)
      then obtain b where b: "b \<in> set (sp_all (gh_space h'))" "{\<phi> a..<\<phi> a + sz} \<subseteq> block_bytes b"
        using sm by (auto simp: smalls_ok_def resident_def)
      have "blocks_ok (gh_space h')" using sm by (simp add: smalls_ok_def heap_ok_def space_inv_def)
      then have al: "b mod 32768 = 0" using b(1) by (simp add: blocks_ok_def)
      note ib = in_block_bytes [OF b(2) pos]
      have bo: "imx_block_of (\<phi> a) = b" by (rule in_block_of [OF ib(3) al])
      have "(\<phi> a, sz) \<in> marked_objs h0 \<phi> K" using a False ob(5) [OF a] by (auto simp: marked_objs_def sz_def)
      then have "object_marked (gh_space h') (\<phi> a) sz" using si(3) by blast
      then have "\<forall>l \<in> set (object_lines (\<phi> a) sz). imx_lb_test (bk_line_marks (sp_mem (gh_space h') b)) l"
        by (auto simp: object_marked_def bo lines.elems_def)
      then show ?thesis
        using False live [OF a] ob(3) [OF a] r(1) pos b(1) ib(1,2)
        by (simp add: gcv_ok_def Let_def sz_def r(2) bo)
    qed
  qed
  have "gcv_los_ok h' a" if "a \<in> set (gh_large_objs h')" for a
  proof -
    have "a \<in> \<phi> ` K" using large that by (simp add: large_ok_def)
    then show ?thesis using live ob(1) by (auto simp: gcv_los_ok_def is_ref_def)
  qed
  moreover have "finite (reach (gh_mem h') (gh_roots h'))" using objs by (simp add: si(2) objs_ok_def)
  ultimately show ?thesis using gc_verify_iff [of h'] ok unfolding si(2) by auto
qed

section \<open>A collection\<close>

lemma gc_rebase_sel:
  "gh_space (gc_rebase h) = gh_space h" "gh_mem (gc_rebase h) = gh_mem h" "gh_roots (gc_rebase h) = gh_roots h"
  "gh_epoch (gc_rebase h) = gh_epoch h" "gh_evac_headroom_div (gc_rebase h) = gh_evac_headroom_div h"
  "gh_large_objs (gc_rebase h) = gh_large_objs h" "gh_large_bytes (gc_rebase h) = gh_large_bytes h"
  "gh_bytes_allocated (gc_rebase h) = gh_live_bytes h" "gh_reports (gc_rebase h) = gh_reports h"
  "gh_on_corruption (gc_rebase h) = gh_on_corruption h"
  by (simp_all add: gc_rebase_def Let_def)

lemma collect_spec:
  assumes inv: "gc_inv h D" and ep: "gh_epoch h + 1 \<noteq> 0" and K: "K = reach (gh_mem h) (gh_roots h)"
  shows "\<exists>h' \<phi>. gc_collect h = Some h' \<and> gc_inv h' (\<phi> ` K) \<and> reach (gh_mem h') (gh_roots h') = \<phi> ` K \<and> inj_on \<phi> K \<and>
    gh_roots h' = map (fwd \<phi>) (gh_roots h) \<and> (\<forall>a \<in> K. obj_copy \<phi> (gh_mem h a) (gh_mem h' (\<phi> a))) \<and>
    (\<forall>a \<in> K. \<phi> a \<noteq> a \<longrightarrow> \<phi> a \<notin> D \<and> osize (gh_mem h a) \<le> IMX_MEDIUM_MAX) \<and>
    gc_verify h' = Some None \<and> gh_reports h' = gh_reports h \<and> gh_epoch h' = gh_epoch h + 1 \<and>
    gh_large_objs h' = filter (\<lambda>a. a \<in> K) (gh_large_objs h) \<and>
    gh_bytes_allocated h' = word_of_nat (\<Sum>a \<in> K. osize (gh_mem h a))"
proof -
  define h0 where "h0 = gc_begin h"
  note sel = gc_begin_sel [of h, folded h0_def]
  note b = gc_begin_ok [OF inv, folded h0_def]
  obtain \<phi> h1 h2 rs where t: "gc_mark_roots (gh_roots h0) h0 = Some (rs, h1)" "gc_trace (h1\<lparr>gh_roots := rs\<rparr>) = Some h2"
    "trace_inv h0 D \<phi> K {} h2" "gh_roots h2 = map (fwd \<phi>) (gh_roots h)"
    "\<forall>a \<in> K. obj_image \<phi> K (gh_mem h a) True (gh_mem h2 (\<phi> a))"
    by (rule mark_and_trace [OF inv h0_def K])
  have same: "gc_same h0 h2" and marks: "marks_ok h0 D \<phi> K {} h2" using t(3) by (simp_all add: trace_inv_def)
  let ?e = "h2\<lparr>gh_space := imx_space_end_evacuation (gh_space h2)\<rparr>"
  define h3 where "h3 = ?e\<lparr>gh_space := imx_space_reclaim (evac_headroom ?e) (gh_space ?e)\<rparr>"
  define h4 where "h4 = h3\<lparr>gh_large_objs := filter (\<lambda>a. a \<in> K) (gh_large_objs h0),
      gh_large_bytes := word_of_nat (\<Sum>a \<leftarrow> filter (\<lambda>a. a \<in> K) (gh_large_objs h0). osize (gh_mem h0 a))\<rparr>"
  have los: "los_sweep h3 = Some h4"
    unfolding h4_def by (rule los_sweep_traced [OF b(1) t(3)]) (simp_all add: h3_def)
  define h5 where "h5 = gc_rebase (h4\<lparr>gh_epoch := gh_epoch h4 + 1\<rparr>)"
  have ep4: "gh_epoch h4 = gh_epoch h" using same by (simp add: h4_def h3_def gc_same_def sel)
  have sw: "swept h0 K h2 h5"
    using same by (auto simp: swept_def h5_def gc_rebase_sel h4_def h3_def gc_same_def)
  have K0: "K = reach (gh_mem h0) (gh_roots h0)" "gh_roots h2 = map (fwd \<phi>) (gh_roots h0)"
    "\<forall>a \<in> K. obj_image \<phi> K (gh_mem h0 a) True (gh_mem h2 (\<phi> a))" "gh_epoch h0 + 1 \<noteq> 0" "0 < gh_evac_headroom_div h0"
    using t(4,5) K ep inv by (simp_all add: sel gc_inv_def)
  note si = swept_inv [OF b(1) t(3) K0(1-3) sw K0(4,5)] and ob = swept_objects [OF b(1) t(3) K0(3) sw]
  have clean: "gc_verify h5 = Some None" by (rule swept_clean [OF b(1) t(3) K0(1-3) sw K0(4,5)])
  have "gc_collect h = Option.bind (gc_mark_roots (gh_roots h0) h0) (\<lambda>(rs, h).
         Option.bind (gc_trace (h\<lparr>gh_roots := rs\<rparr>)) (\<lambda>h.
         let h = h\<lparr>gh_space := imx_space_end_evacuation (gh_space h)\<rparr>;
             h = h\<lparr>gh_space := imx_space_reclaim (evac_headroom h) (gh_space h)\<rparr>
         in Option.bind (los_sweep h) (\<lambda>h. gc_report (gc_rebase (h\<lparr>gh_epoch := gh_epoch h + 1\<rparr>)))))"
    by (simp add: gc_collect_def gc_begin_def h0_def Let_def)
  also have "\<dots> = gc_report h5" using los by (simp add: t(1,2) Let_def h3_def h5_def)
  also have "\<dots> = Some h5" using clean by (simp add: gc_report_def)
  finally have run: "gc_collect h = Some h5" .
  moreover have "gh_roots h5 = map (fwd \<phi>) (gh_roots h)" using sw t(4) by (simp add: swept_def)
  moreover have "\<forall>a \<in> K. obj_copy \<phi> (gh_mem h a) (gh_mem h5 (\<phi> a))" using ob(6) by (simp add: sel)
  moreover have "\<forall>a \<in> K. \<phi> a \<noteq> a \<longrightarrow> \<phi> a \<notin> D \<and> osize (gh_mem h a) \<le> IMX_MEDIUM_MAX"
    using marks unfolding marks_ok_def sel by blast
  moreover have "inj_on \<phi> K" using marks inj_on_subset unfolding marks_ok_def by blast
  moreover have "gh_reports h5 = gh_reports h" "gh_epoch h5 = gh_epoch h + 1"
    using same by (simp_all add: h5_def gc_rebase_sel h4_def h3_def gc_same_def sel)
  moreover have "gh_large_objs h5 = filter (\<lambda>a. a \<in> K) (gh_large_objs h)" using sw by (simp add: swept_def sel)
  moreover have "gh_bytes_allocated h5 = word_of_nat (\<Sum>a \<in> K. osize (gh_mem h a))"
    using marks by (simp add: h5_def gc_rebase_sel h4_def h3_def marks_ok_def sel)
  ultimately show ?thesis using si(1,2) clean by blast
qed

text \<open>
  C2. A collection that starts in a consistent heap and does not wrap the epoch returns, and it
  preserves the object graph: there is an injective renaming of the reachable objects under which the
  roots and every reachable object are copied exactly, every reference replaced by the new address of
  its target.  The heap is again consistent and holds the reachable objects only.
\<close>

theorem gc_collect_isomorphic:
  assumes "gc_inv h D" "gh_epoch h + 1 \<noteq> 0"
  shows "\<exists>h' \<phi>. gc_collect h = Some h' \<and> inj_on \<phi> (reach (gh_mem h) (gh_roots h)) \<and>
    gh_roots h' = map (fwd \<phi>) (gh_roots h) \<and>
    (\<forall>a \<in> reach (gh_mem h) (gh_roots h). obj_copy \<phi> (gh_mem h a) (gh_mem h' (\<phi> a))) \<and>
    reach (gh_mem h') (gh_roots h') = \<phi> ` reach (gh_mem h) (gh_roots h) \<and>
    gc_inv h' (reach (gh_mem h') (gh_roots h'))"
  using collect_spec [OF assms refl] by metis

text \<open>
  C18. A collection frees exactly the unreachable large objects and keeps the order of the rest, never
  moves a large object, sets the budget to the sizes of the live objects, and ends in a heap in which
  the checker finds nothing, so that it reports nothing.
\<close>

theorem gc_collect_reclaims:
  assumes "gc_inv h D" "gh_epoch h + 1 \<noteq> 0"
  shows "\<exists>h'. gc_collect h = Some h' \<and>
    gh_large_objs h' = filter (\<lambda>a. a \<in> reach (gh_mem h) (gh_roots h)) (gh_large_objs h) \<and>
    gh_bytes_allocated h' = word_of_nat (\<Sum>a \<in> reach (gh_mem h) (gh_roots h). osize (gh_mem h a)) \<and>
    gc_verify h' = Some None \<and> gh_reports h' = gh_reports h \<and> gh_epoch h' = gh_epoch h + 1"
  using collect_spec [OF assms refl] by blast

lemma demo_inv: "gc_inv demo_heap {16, 65552}"
proof -
  have sz: "osize (gh_mem demo_heap a) = 40000" "obj_cells (gh_mem demo_heap a) = [24]" for a
    by (simp_all add: demo_heap_def demo_rtt_def gc_heap_init_def fresh_obj_def osize_def gc_obj_size_def rtt_size_def
        obj_cells_def ref_cells_def)
  have m: "IMX_MEDIUM_MAX < 40000" by (simp add: IMX_MEDIUM_MAX_def IMX_DATA_START_OFFSET_def IMX_DATA_START_LINE_def)
  have s: "small_objs (gh_mem demo_heap) {16, 65552} = {}" using m by (auto simp: small_objs_def sz)
  have sp: "gh_space demo_heap = imx_space_init blank_mem" by (simp add: demo_heap_def gc_heap_init_def)
  have "smalls_ok demo_heap {16, 65552}"
    using space_init_inv [OF blank_mem_ok] spare_ok_init
    by (simp add: smalls_ok_def s sp cycle_inv_def bytes_of_def)
  moreover have "objs_ok demo_heap {16, 65552}"
    by (simp add: objs_ok_def obj_wf_def sz GC_HEADER_def is_ref_def)
      (simp add: demo_heap_def gc_heap_init_def fresh_obj_def)
  moreover have "refs_closed demo_heap {16, 65552}"
    by (auto simp: refs_closed_def refs_of_def sz is_ref_def demo_heap_def gc_heap_init_def)
  moreover have "large_ok demo_heap {16, 65552}"
    using m by (auto simp: large_ok_def sz objects_disjoint_def)
      (auto simp: demo_heap_def gc_heap_init_def imx_space_init_def)
  ultimately show ?thesis by (simp add: gc_inv_def) (simp add: demo_heap_def gc_heap_init_def)
qed

lemma demo_epoch: "gh_epoch demo_heap + 1 \<noteq> 0"
  by (simp add: demo_heap_def gc_heap_init_def)

lemma gc_collect_isomorphic_witness:
  "\<exists>h' (\<phi> :: nat \<Rightarrow> nat). gc_collect demo_heap = Some h' \<and> gh_roots h' = [0, 3, \<phi> 16] \<and> ob_cell (gh_mem h' (\<phi> 16)) 24 = \<phi> 16"
proof -
  have c: "gh_roots demo_heap = [0, 3, 16]" "ob_cell (gh_mem demo_heap 16) 24 = 16" "obj_cells (gh_mem demo_heap 16) = [24]"
    by (simp_all add: demo_heap_def demo_rtt_def gc_heap_init_def fresh_obj_def obj_cells_def ref_cells_def)
  obtain h' \<phi> where "gc_collect demo_heap = Some h'" "gh_roots h' = map (fwd \<phi>) (gh_roots demo_heap)"
    "obj_copy \<phi> (gh_mem demo_heap 16) (gh_mem h' (\<phi> 16))"
    using gc_collect_isomorphic [OF demo_inv demo_epoch] unfolding demo_reach by blast
  then show ?thesis by (intro exI [of _ h'] exI [of _ \<phi>]) (simp add: c obj_copy_def fwd_def is_ref_def)
qed

lemma gc_collect_reclaims_witness:
  "\<exists>h'. gc_collect demo_heap = Some h' \<and> gh_large_objs h' = [16] \<and> gh_bytes_allocated h' = 40000"
proof -
  have "gh_large_objs demo_heap = [16, 65552]" "osize (gh_mem demo_heap 16) = 40000"
    by (simp_all add: demo_heap_def demo_rtt_def gc_heap_init_def fresh_obj_def osize_def gc_obj_size_def rtt_size_def)
  then show ?thesis using gc_collect_reclaims [OF demo_inv demo_epoch] by (auto simp: demo_reach)
qed

end
