(* ===== verification/GcAlloc.thy ===== *)
theory GcAlloc
  imports GcCollect
begin

text \<open>
  Allocation: the collector hands out storage that overlaps nothing, collecting first when the budget
  is used up or when the first attempt fails, and the constructors of the runtime turn the storage
  into a new object of a consistent heap without disturbing the object graph of the roots.
\<close>

section \<open>The environment\<close>

text \<open>
  What the heap relies on of \<open>aligned_alloc\<close> and \<open>malloc\<close>: a new block is aligned and not in use, and
  new storage is aligned, not null, and overlaps neither the blocks nor the large objects of the heap.
\<close>

definition span :: "gc_heap \<Rightarrow> nat \<Rightarrow> nat set" where
  "span h a = {a..<a + osize (gh_mem h a)}"

definition gc_env :: "gc_os \<Rightarrow> gc_malloc \<Rightarrow> bool" where
  "gc_env os ml \<longleftrightarrow>
     (\<forall>h. os_ok (os h)) \<and>
     (\<forall>h p b. os h p = Some b \<longrightarrow> (\<forall>a \<in> set (gh_large_objs h). span h a \<inter> {b..<b + IMX_BLOCK_SIZE} = {})) \<and>
     (\<forall>h sz a. ml h sz = Some a \<longrightarrow> is_ref a \<and>
        (\<forall>b \<in> set (sp_all (gh_space h)). {a..<a + sz} \<inter> {b..<b + IMX_BLOCK_SIZE} = {}) \<and>
        (\<forall>c \<in> set (gh_large_objs h). {a..<a + sz} \<inter> span h c = {}))"

section \<open>The object graph\<close>

text \<open>The graph of the roots of \<open>h\<close> is in \<open>h'\<close> at the addresses \<open>\<phi>\<close>.\<close>

definition same_graph :: "(nat \<Rightarrow> nat) \<Rightarrow> gc_heap \<Rightarrow> gc_heap \<Rightarrow> bool" where
  "same_graph \<phi> h h' \<longleftrightarrow>
     inj_on \<phi> (live_set h) \<and> gh_roots h' = map (fwd \<phi>) (gh_roots h) \<and> live_set h' = \<phi> ` live_set h \<and>
     (\<forall>a \<in> live_set h. is_ref (\<phi> a) \<and> obj_copy \<phi> (gh_mem h a) (gh_mem h' (\<phi> a)))"

lemma reach_is_ref: "a \<in> reach mem roots \<Longrightarrow> is_ref a"
  by (induction rule: reach.induct) (auto simp: refs_of_def)

lemma fwd_id: "fwd (\<lambda>a. a) = (\<lambda>a. a)"
  by (simp add: fwd_def fun_eq_iff)

lemma same_graph_refl: "same_graph (\<lambda>a. a) h h"
  using reach_is_ref by (auto simp: same_graph_def fwd_id obj_copy_def)

lemma same_graph_trans:
  assumes 1: "same_graph \<phi> h h1" and 2: "same_graph \<psi> h1 h2"
  shows "same_graph (\<psi> \<circ> \<phi>) h h2"
proof -
  have fw: "fwd \<psi> (fwd \<phi> v) = fwd (\<psi> \<circ> \<phi>) v" if "is_ref v \<longrightarrow> v \<in> live_set h" for v
    using 1 that by (auto simp: same_graph_def fwd_def)
  have im: "live_set h1 = \<phi> ` live_set h" using 1 unfolding same_graph_def by blast
  have "inj_on (\<psi> \<circ> \<phi>) (live_set h)"
    using 1 2 im unfolding same_graph_def by (metis comp_inj_on)
  moreover have "gh_roots h2 = map (fwd (\<psi> \<circ> \<phi>)) (gh_roots h)"
    using 1 2 fw reach_root unfolding same_graph_def by (simp add: comp_def)
  moreover have "live_set h2 = (\<psi> \<circ> \<phi>) ` live_set h"
  proof -
    have "live_set h2 = \<psi> ` live_set h1" using 2 unfolding same_graph_def by blast
    then show ?thesis unfolding im by (simp only: image_comp)
  qed
  moreover have "is_ref (\<psi> (\<phi> a)) \<and> obj_copy (\<psi> \<circ> \<phi>) (gh_mem h a) (gh_mem h2 (\<psi> (\<phi> a)))" if a: "a \<in> live_set h" for a
  proof -
    have c1: "obj_copy \<phi> (gh_mem h a) (gh_mem h1 (\<phi> a))" using 1 a by (simp add: same_graph_def)
    have a1: "\<phi> a \<in> live_set h1" using a im by blast
    then have c2: "is_ref (\<psi> (\<phi> a))" "obj_copy \<psi> (gh_mem h1 (\<phi> a)) (gh_mem h2 (\<psi> (\<phi> a)))"
      using 2 by (simp_all add: same_graph_def)
    have cells: "fwd \<psi> (fwd \<phi> (ob_cell (gh_mem h a) off)) = fwd (\<psi> \<circ> \<phi>) (ob_cell (gh_mem h a) off)"
      if "off \<in> set (obj_cells (gh_mem h a))" for off
      using that reach_ref [OF a] by (intro fw) (auto simp: refs_of_def)
    have "obj_copy (\<psi> \<circ> \<phi>) (gh_mem h a) (gh_mem h2 (\<psi> (\<phi> a)))"
      using c1 c2(2) cells copy_layout(1) [OF c1] by (simp add: obj_copy_def)
    then show ?thesis using c2(1) by blast
  qed
  ultimately show ?thesis unfolding same_graph_def comp_apply by blast
qed

text \<open>Writing an object that is not part of the graph.\<close>

lemma reach_cong:
  assumes "\<forall>a \<in> reach mem roots. mem' a = mem a"
  shows "reach mem' roots = reach mem roots"
proof (intro equalityI subsetI)
  fix a assume "a \<in> reach mem' roots"
  then show "a \<in> reach mem roots"
  proof induction
    case (reach_ref a v)
    then show ?case using assms reach.reach_ref by (auto simp: refs_of_def)
  qed (rule reach_root)
next
  fix a assume "a \<in> reach mem roots"
  then show "a \<in> reach mem' roots"
  proof induction
    case (reach_ref a v)
    then show ?case using assms by (auto simp: refs_of_def intro: reach.reach_ref)
  qed (rule reach_root)
qed

lemma same_graph_write:
  assumes g: "same_graph \<phi> h h1" and a: "a \<notin> live_set h1"
    and new: "gh_roots h2 = gh_roots h1" "gh_mem h2 = (gh_mem h1)(a := ob)"
  shows "same_graph \<phi> h h2"
proof -
  have ne: "c \<noteq> a" if "c \<in> live_set h1" for c using that a by blast
  have "live_set h2 = live_set h1" unfolding new by (rule reach_cong) (use ne in simp)
  moreover have "gh_mem h2 (\<phi> c) = gh_mem h1 (\<phi> c)" if "c \<in> live_set h" for c
  proof -
    have "\<phi> c \<in> live_set h1" using g that unfolding same_graph_def by blast
    then show ?thesis using ne by (simp add: new(2))
  qed
  moreover have "inj_on \<phi> (live_set h)" "gh_roots h1 = map (fwd \<phi>) (gh_roots h)" "live_set h1 = \<phi> ` live_set h"
    "\<forall>c \<in> live_set h. is_ref (\<phi> c) \<and> obj_copy \<phi> (gh_mem h c) (gh_mem h1 (\<phi> c))"
    using g unfolding same_graph_def by blast+
  ultimately show ?thesis unfolding same_graph_def new(1) by metis
qed

section \<open>Storage\<close>

text \<open>A zeroed object that fills its storage.\<close>

definition new_obj :: "gc_obj \<Rightarrow> nat \<Rightarrow> bool" where
  "new_obj ob sz \<longleftrightarrow>
     obj_wf ob \<and> osize ob = sz \<and> ob_forward ob = 0 \<and> ob_epoch ob = 0 \<and> ob_cell ob = (\<lambda>_. 0)"

text \<open>The heap with the object \<open>ob\<close> at \<open>a\<close>.\<close>

abbreviation put_obj :: "nat \<Rightarrow> gc_obj \<Rightarrow> gc_heap \<Rightarrow> gc_heap" where
  "put_obj a ob h \<equiv> set_obj a (\<lambda>_. ob) h"

lemma put_objs:
  assumes inv: "gc_inv h D" and ob: "new_obj ob sz" and a: "a \<notin> D" "is_ref a"
    and h1: "gh_mem h1 = gh_mem h" "gh_roots h1 = gh_roots h" "gh_epoch h1 = gh_epoch h"
  shows "objs_ok (put_obj a ob h1) (insert a D)" "refs_closed (put_obj a ob h1) (insert a D)"
    "small_objs (gh_mem (put_obj a ob h1)) (insert a D) =
       (if sz \<le> IMX_MEDIUM_MAX then insert (a, sz) (small_objs (gh_mem h) D) else small_objs (gh_mem h) D)"
proof -
  have objs: "objs_ok h D" and refs: "refs_closed h D" and ep: "0 < gh_epoch h" using inv by (simp_all add: gc_inv_def)
  have ne: "c \<noteq> a" if "c \<in> D" for c using that a by blast
  have m: "gh_mem (put_obj a ob h1) = (gh_mem h)(a := ob)" by (simp add: set_obj_def h1)
  have r: "refs_of ((gh_mem h)(a := ob)) a = {}" using ob by (auto simp: refs_of_def new_obj_def is_ref_def)
  have s: "gh_roots (put_obj a ob h1) = gh_roots h" "gh_epoch (put_obj a ob h1) = gh_epoch h" by (simp_all add: set_obj_def h1)
  show "objs_ok (put_obj a ob h1) (insert a D)"
    using objs ob a ep ne by (auto simp: objs_ok_def m s new_obj_def)
  have "refs_of ((gh_mem h)(a := ob)) c = refs_of (gh_mem h) c" if "c \<in> D" for c
    using ne [OF that] by (simp add: refs_of_def)
  then show "refs_closed (put_obj a ob h1) (insert a D)" using refs r by (auto simp: refs_closed_def m s)
  show "small_objs (gh_mem (put_obj a ob h1)) (insert a D) =
       (if sz \<le> IMX_MEDIUM_MAX then insert (a, sz) (small_objs (gh_mem h) D) else small_objs (gh_mem h) D)"
    using ob ne unfolding m by (auto simp: small_objs_def new_obj_def)
qed

text \<open>What the bytes of an object are disjoint from.\<close>

lemma objects_disjoint_insert:
  "objects_disjoint Os \<Longrightarrow> \<forall>(c, tz) \<in> Os. {a..<a + sz} \<inter> {c..<c + tz} = {} \<Longrightarrow> objects_disjoint (insert (a, sz) Os)"
  unfolding objects_disjoint_def by (auto simp: Int_commute)

lemma fresh_addr:
  assumes inv: "gc_inv h D" and sz: "0 < sz"
    and small: "{a..<a + sz} \<inter> bytes_of (small_objs (gh_mem h) D) = {}"
    and large: "\<forall>c \<in> set (gh_large_objs h). {a..<a + sz} \<inter> span h c = {}"
  shows "a \<notin> D"
proof
  assume D: "a \<in> D"
  have objs: "objs_ok h D" and lg: "large_ok h D" using inv by (simp_all add: gc_inv_def)
  have "24 \<le> osize (gh_mem h a)" by (rule objs_okD [OF objs D])
  then have ain: "a \<in> span h a" "a \<in> {a..<a + sz}" using sz by (simp_all add: span_def)
  show False
  proof (cases "osize (gh_mem h a) \<le> IMX_MEDIUM_MAX")
    case True
    then have "(a, osize (gh_mem h a)) \<in> small_objs (gh_mem h) D" using D by (auto simp: small_objs_def)
    from in_bytes_of [OF this, of a] have "a \<in> bytes_of (small_objs (gh_mem h) D)" using ain(1) by (simp add: span_def)
    then show False using small ain(2) by blast
  next
    case False
    then have "a \<in> set (gh_large_objs h)" using lg D by (simp add: large_ok_def)
    then show False using large ain by blast
  qed
qed

lemma large_put:
  assumes lg: "large_ok h D" and a: "a \<notin> D" and gm: "gh_mem h2 = (gh_mem h)(a := ob)" and osz: "osize ob = sz"
    and lo: "gh_large_objs h2 = gh_large_objs h @ (if IMX_MEDIUM_MAX < sz then [a] else [])"
    and lb: "gh_large_bytes h2 = gh_large_bytes h + (if IMX_MEDIUM_MAX < sz then word_of_nat sz else 0)"
    and old: "\<forall>c \<in> set (gh_large_objs h). \<forall>b \<in> set (sp_all (gh_space h2)). span h c \<inter> {b..<b + IMX_BLOCK_SIZE} = {}"
    and new: "IMX_MEDIUM_MAX < sz \<longrightarrow>
      (\<forall>b \<in> set (sp_all (gh_space h2)). {a..<a + sz} \<inter> {b..<b + IMX_BLOCK_SIZE} = {}) \<and>
      (\<forall>c \<in> set (gh_large_objs h). {a..<a + sz} \<inter> span h c = {})"
  shows "large_ok h2 (insert a D)"
proof -
  let ?xs = "gh_large_objs h" and ?big = "IMX_MEDIUM_MAX < sz"
  have xs: "set ?xs = {c \<in> D. IMX_MEDIUM_MAX < osize (gh_mem h c)}" "distinct ?xs"
    "objects_disjoint {(c, osize (gh_mem h c)) | c. c \<in> set ?xs}"
    "gh_large_bytes h = word_of_nat (\<Sum>c \<leftarrow> ?xs. osize (gh_mem h c))"
    using lg unfolding large_ok_def by blast+
  have xa: "a \<notin> set ?xs" using a xs(1) by simp
  have keep: "osize (gh_mem h2 c) = (if c = a then sz else osize (gh_mem h c))" for c by (simp add: gm osz)
  have ne: "c \<noteq> a" if "c \<in> set ?xs" for c using that xa by blast
  have set2: "set (gh_large_objs h2) = set ?xs \<union> (if ?big then {a} else {})" by (simp add: lo)
  have "distinct (gh_large_objs h2)" using xs(2) xa by (simp add: lo)
  moreover have "set (gh_large_objs h2) = {c \<in> insert a D. IMX_MEDIUM_MAX < osize (gh_mem h2 c)}"
    unfolding set2 xs(1) keep using a by auto
  moreover have "\<forall>c \<in> set (gh_large_objs h2). \<forall>b \<in> set (sp_all (gh_space h2)).
      {c..<c + osize (gh_mem h2 c)} \<inter> {b..<b + IMX_BLOCK_SIZE} = {}"
  proof (intro ballI)
    fix c b assume c: "c \<in> set (gh_large_objs h2)" and b: "b \<in> set (sp_all (gh_space h2))"
    show "{c..<c + osize (gh_mem h2 c)} \<inter> {b..<b + IMX_BLOCK_SIZE} = {}"
    proof (cases "c = a")
      case True
      then have "?big" using c xa by (auto simp: set2 split: if_splits)
      then show ?thesis using new b True unfolding keep by simp
    next
      case False
      then have "c \<in> set ?xs" using c by (auto simp: set2 split: if_splits)
      then have "span h c \<inter> {b..<b + IMX_BLOCK_SIZE} = {}" using old b by blast
      then show ?thesis using False unfolding keep span_def by simp
    qed
  qed
  moreover have "objects_disjoint {(c, osize (gh_mem h2 c)) | c. c \<in> set (gh_large_objs h2)}"
  proof -
    let ?O = "{(c, osize (gh_mem h c)) | c. c \<in> set ?xs}"
    have "{(c, osize (gh_mem h2 c)) | c. c \<in> set (gh_large_objs h2)} = (if ?big then insert (a, sz) ?O else ?O)"
      unfolding set2 using ne by (auto simp: keep)
    moreover have "objects_disjoint (insert (a, sz) ?O)" if ?big
      using new that by (intro objects_disjoint_insert [OF xs(3)]) (auto simp: span_def)
    ultimately show ?thesis using xs(3) by simp
  qed
  moreover have "gh_large_bytes h2 = word_of_nat (\<Sum>c \<leftarrow> gh_large_objs h2. osize (gh_mem h2 c))"
  proof -
    have "(\<Sum>c \<leftarrow> ?xs. osize (gh_mem h2 c)) = (\<Sum>c \<leftarrow> ?xs. osize (gh_mem h c))"
      by (rule arg_cong [where f = sum_list]) (use ne in \<open>auto simp: keep\<close>)
    moreover have "osize (gh_mem h2 a) = sz" by (simp add: keep)
    ultimately show ?thesis unfolding lb lo xs(4) by simp
  qed
  ultimately show ?thesis unfolding large_ok_def by blast
qed

text \<open>The effect of an allocation on a consistent heap.\<close>

definition raw_ok :: "nat \<Rightarrow> gc_heap \<Rightarrow> nat set \<Rightarrow> nat option \<Rightarrow> gc_heap \<Rightarrow> bool" where
  "raw_ok sz h D q h1 \<longleftrightarrow>
     gh_mem h1 = gh_mem h \<and> gh_roots h1 = gh_roots h \<and> gh_epoch h1 = gh_epoch h \<and>
     (case q of
        None \<Rightarrow> gc_inv h1 D
      | Some a \<Rightarrow> a \<notin> D \<and> (\<forall>ob. new_obj ob sz \<longrightarrow> gc_inv (put_obj a ob h1) (insert a D)))"

lemma alloc_large_ok:
  assumes inv: "gc_inv h D" and env: "gc_env os ml" and sz: "IMX_MEDIUM_MAX < sz" and run: "alloc_large ml sz h = (q, h1)"
  shows "raw_ok sz h D q h1"
proof (cases "ml h sz")
  case None
  then show ?thesis using run inv by (auto simp: alloc_large_def raw_ok_def)
next
  case (Some a)
  then have q: "q = Some a" and
    h1: "h1 = h\<lparr>gh_large_objs := gh_large_objs h @ [a], gh_large_bytes := gh_large_bytes h + word_of_nat sz\<rparr>"
    using run by (simp_all add: alloc_large_def)
  have lg: "large_ok h D" and sm: "smalls_ok h D" using inv by (simp_all add: gc_inv_def)
  have pos: "0 < sz" using sz by simp
  have m: "is_ref a" "\<forall>b \<in> set (sp_all (gh_space h)). {a..<a + sz} \<inter> {b..<b + IMX_BLOCK_SIZE} = {}"
    "\<forall>c \<in> set (gh_large_objs h). {a..<a + sz} \<inter> span h c = {}"
    using env Some unfolding gc_env_def by blast+
  have "x \<notin> {a..<a + sz}" if x: "x \<in> bytes_of (small_objs (gh_mem h) D)" for x
  proof -
    obtain c tz where c: "(c, tz) \<in> small_objs (gh_mem h) D" "x \<in> {c..<c + tz}" using x by (auto simp: bytes_of_def)
    then obtain b where b: "b \<in> set (sp_all (gh_space h))" "{c..<c + tz} \<subseteq> block_bytes b"
      using sm by (auto simp: smalls_ok_def resident_def)
    have "x \<in> block_bytes b" using b(2) c(2) by blast
    then have "x \<in> {b..<b + 32768}" by (simp add: block_bytes_def imx_block_data_start_def imx_block_data_end_def)
    then show ?thesis using m(2) b(1) by blast
  qed
  then have nD: "a \<notin> D" using fresh_addr [OF inv pos _ m(3)] by blast
  have sel: "gh_mem h1 = gh_mem h" "gh_roots h1 = gh_roots h" "gh_epoch h1 = gh_epoch h" by (simp_all add: h1)
  have "gc_inv (put_obj a ob h1) (insert a D)" if ob: "new_obj ob sz" for ob
  proof -
    let ?h = "put_obj a ob h1"
    note po = put_objs [OF inv ob nD m(1) sel]
    have so: "small_objs (gh_mem ?h) (insert a D) = small_objs (gh_mem h) D" using po(3) sz by simp
    have sp: "gh_space ?h = gh_space h" by (simp add: set_obj_def h1)
    have "smalls_ok ?h (insert a D)" using sm unfolding smalls_ok_def so sp .
    moreover have "large_ok ?h (insert a D)"
    proof (rule large_put [OF lg nD])
      show "gh_mem ?h = (gh_mem h)(a := ob)" by (simp add: set_obj_def h1)
      show "osize ob = sz" using ob by (simp add: new_obj_def)
      show "gh_large_objs ?h = gh_large_objs h @ (if IMX_MEDIUM_MAX < sz then [a] else [])"
        "gh_large_bytes ?h = gh_large_bytes h + (if IMX_MEDIUM_MAX < sz then word_of_nat sz else 0)"
        using sz by (simp_all add: set_obj_def h1)
      show "\<forall>c \<in> set (gh_large_objs h). \<forall>b \<in> set (sp_all (gh_space ?h)). span h c \<inter> {b..<b + IMX_BLOCK_SIZE} = {}"
        using lg unfolding large_ok_def span_def sp by blast
    qed (use m(2,3) in \<open>unfold sp, blast\<close>)
    ultimately show ?thesis using po(1,2) inv by (simp add: gc_inv_def set_obj_def h1)
  qed
  then show ?thesis using nD sel by (simp add: raw_ok_def q)
qed

lemma alloc_small_inv:
  assumes inv: "gc_inv h D" and env: "gc_env os ml" and sz: "0 < sz" "\<not> IMX_MEDIUM_MAX < sz"
  obtains q s' where "imx_space_allocate (os h) sz 8 (gh_space h) = Some (q, s')" "raw_ok sz h D q (h\<lparr>gh_space := s'\<rparr>)"
proof -
  have lg: "large_ok h D" and sm: "smalls_ok h D" using inv by (simp_all add: gc_inv_def)
  let ?S = "small_objs (gh_mem h) D"
  have hp: "heap_ok (gh_space h) (bytes_of ?S)" "spare_ok (gh_space h) (bytes_of ?S)" "resident (gh_space h) ?S"
    "objects_disjoint ?S"
    using sm by (simp_all add: smalls_ok_def)
  have os: "os_ok (os h)" "\<forall>p b. os h p = Some b \<longrightarrow> (\<forall>a \<in> set (gh_large_objs h). span h a \<inter> {b..<b + IMX_BLOCK_SIZE} = {})"
    using env unfolding gc_env_def by blast+
  obtain q s' where run: "imx_space_allocate (os h) sz 8 (gh_space h) = Some (q, s')"
    and ok: "case q of None \<Rightarrow> heap_ok s' (bytes_of ?S)
       | Some p \<Rightarrow> heap_ok s' (bytes_of ?S \<union> {p..<p + sz}) \<and> {p..<p + sz} \<inter> bytes_of ?S = {} \<and> 8 dvd p \<and>
           (\<exists>b \<in> set (sp_all s'). {p..<p + sz} \<subseteq> block_bytes b)"
    using allocate_ok [OF hp(1) os(1) sz(1)] unfolding alloc_ok_def by blast
  note sp = allocate_spare [OF os(1) hp(1,2) sz(1) run]
  note bl = allocate_blocks [OF os(1) hp(1) run]
  let ?h1 = "h\<lparr>gh_space := s'\<rparr>"
  have old: "\<forall>c \<in> set (gh_large_objs h). \<forall>b \<in> set (sp_all s'). span h c \<inter> {b..<b + IMX_BLOCK_SIZE} = {}"
  proof (intro ballI)
    fix c b assume c: "c \<in> set (gh_large_objs h)" and b: "b \<in> set (sp_all s')"
    consider "b \<in> set (sp_all (gh_space h))" | p where "os h p = Some b" using b bl(2) by blast
    then show "span h c \<inter> {b..<b + IMX_BLOCK_SIZE} = {}"
    proof cases
      case 1
      then show ?thesis using lg c unfolding large_ok_def span_def by blast
    next
      case 2
      then show ?thesis using os(2) c by blast
    qed
  qed
  have res: "resident s' ?S" using hp(3) bl(1) unfolding resident_def by blast
  have sel: "gh_mem ?h1 = gh_mem h" "gh_roots ?h1 = gh_roots h" "gh_epoch ?h1 = gh_epoch h" by simp_all
  have "raw_ok sz h D q ?h1"
  proof (cases q)
    case None
    have eqs: "gh_space ?h1 = s'" "gh_mem ?h1 = gh_mem h" "gh_large_objs ?h1 = gh_large_objs h"
      "gh_large_bytes ?h1 = gh_large_bytes h" by simp_all
    have "large_ok ?h1 D" using lg old unfolding large_ok_def span_def eqs by blast
    moreover have "smalls_ok ?h1 D" using ok sp hp(4) res None by (simp add: smalls_ok_def)
    ultimately have "gc_inv ?h1 D" using inv by (simp add: gc_inv_def objs_ok_def refs_closed_def)
    then show ?thesis using None by (simp add: raw_ok_def)
  next
    case (Some a)
    have a: "heap_ok s' (bytes_of ?S \<union> {a..<a + sz})" "{a..<a + sz} \<inter> bytes_of ?S = {}" "8 dvd a"
      using ok Some by simp_all
    obtain b where b: "b \<in> set (sp_all s')" "{a..<a + sz} \<subseteq> block_bytes b" using ok Some by auto
    have inb: "{a..<a + sz} \<subseteq> {b..<b + 32768}" "b < a"
      using in_block_bytes [OF b(2) sz(1)]
      by (auto simp: imx_block_data_start_def imx_block_data_end_def IMX_DATA_START_OFFSET_def IMX_DATA_START_LINE_def)
    have ref: "is_ref a" using a(3) inb(2) by (simp add: is_ref_def dvd_imp_mod_0)
    have "\<forall>c \<in> set (gh_large_objs h). {a..<a + sz} \<inter> span h c = {}" using old b(1) inb(1) by blast
    then have nD: "a \<notin> D" using fresh_addr [OF inv sz(1) a(2)] by blast
    have "gc_inv (put_obj a ob ?h1) (insert a D)" if ob: "new_obj ob sz" for ob
    proof -
      let ?h = "put_obj a ob ?h1"
      note po = put_objs [OF inv ob nD ref sel]
      have so: "small_objs (gh_mem ?h) (insert a D) = insert (a, sz) ?S" using po(3) sz(2) by simp
      have gs: "gh_space ?h = s'" by (simp add: set_obj_def)
      have bts: "bytes_of (insert (a, sz) ?S) = bytes_of ?S \<union> {a..<a + sz}" by (rule bytes_of_insert)
      have "objects_disjoint (insert (a, sz) ?S)"
      proof (rule objects_disjoint_insert [OF hp(4)], clarify)
        fix c tz assume "(c, tz) \<in> ?S"
        then have "{c..<c + tz} \<subseteq> bytes_of ?S" using in_bytes_of by blast
        then show "{a..<a + sz} \<inter> {c..<c + tz} = {}" using a(2) by blast
      qed
      moreover have "resident s' (insert (a, sz) ?S)" using res b sz(1) by (auto simp: resident_def)
      ultimately have "smalls_ok ?h (insert a D)"
        using a(1) sp Some unfolding smalls_ok_def so gs bts by simp
      moreover have "large_ok ?h (insert a D)"
      proof (rule large_put [OF lg nD])
        show "gh_mem ?h = (gh_mem h)(a := ob)" by (simp add: set_obj_def)
        show "osize ob = sz" using ob by (simp add: new_obj_def)
      qed (use sz old in \<open>simp_all add: set_obj_def\<close>)
      ultimately show ?thesis using po(1,2) inv by (simp add: gc_inv_def set_obj_def)
    qed
    then show ?thesis using nD by (simp add: raw_ok_def Some)
  qed
  with run show thesis by (rule that)
qed

lemma alloc_raw_ok:
  assumes "gc_inv h D" "gc_env os ml" "0 < sz"
  obtains q h1 where "alloc_raw os ml sz h = Some (q, h1)" "raw_ok sz h D q h1"
proof (cases "IMX_MEDIUM_MAX < sz")
  case True
  obtain q h1 where r: "alloc_large ml sz h = (q, h1)" by (rule prod.exhaust)
  have "alloc_raw os ml sz h = Some (q, h1)" using True r by (simp add: alloc_raw_def)
  then show thesis using alloc_large_ok [OF assms(1,2) True r] by (rule that)
next
  case False
  obtain q s' where r: "imx_space_allocate (os h) sz 8 (gh_space h) = Some (q, s')" "raw_ok sz h D q (h\<lparr>gh_space := s'\<rparr>)"
    by (rule alloc_small_inv [OF assms False])
  have "alloc_raw os ml sz h = Some (q, h\<lparr>gh_space := s'\<rparr>)" using False r(1) by (simp add: alloc_raw_def)
  then show thesis using r(2) by (rule that)
qed

section \<open>Allocation with collection\<close>

lemma collect_graph:
  assumes inv: "gc_inv h D" and ep: "gh_epoch h + 1 \<noteq> 0"
  obtains h' \<phi> D' where "gc_collect h = Some h'" "gc_inv h' D'" "same_graph \<phi> h h'" "gh_epoch h' = gh_epoch h + 1"
proof -
  obtain h' \<phi> where c: "gc_collect h = Some h'" "gc_inv h' (\<phi> ` live_set h)" "live_set h' = \<phi> ` live_set h"
    "inj_on \<phi> (live_set h)" "gh_roots h' = map (fwd \<phi>) (gh_roots h)"
    "\<forall>a \<in> live_set h. obj_copy \<phi> (gh_mem h a) (gh_mem h' (\<phi> a))" "gh_epoch h' = gh_epoch h + 1"
    using collect_spec [OF inv ep refl] by blast
  have "is_ref (\<phi> a)" if "a \<in> live_set h" for a using that c(3) reach_is_ref by blast
  then have "same_graph \<phi> h h'" using c(3-6) unfolding same_graph_def by blast
  then show thesis using that c(1,2,7) by blast
qed

text \<open>Storage for \<open>sz\<close> bytes in a heap with the same graph.\<close>

definition alloc_done :: "nat \<Rightarrow> gc_heap \<Rightarrow> nat option \<Rightarrow> gc_heap \<Rightarrow> bool" where
  "alloc_done sz h q h1 \<longleftrightarrow>
     (\<exists>D \<phi>. case q of
        None \<Rightarrow> gc_inv h1 D \<and> same_graph \<phi> h h1
      | Some a \<Rightarrow> a \<notin> D \<and>
          (\<forall>ob. new_obj ob sz \<longrightarrow> gc_inv (put_obj a ob h1) (insert a D) \<and> same_graph \<phi> h (put_obj a ob h1)))"

lemma raw_done:
  assumes inv: "gc_inv h1 D" and g: "same_graph \<phi> h h1" and raw: "raw_ok sz h1 D q h2"
  shows "alloc_done sz h q h2"
proof -
  have m: "gh_mem h2 = gh_mem h1" "gh_roots h2 = gh_roots h1" using raw by (simp_all add: raw_ok_def)
  have g2: "same_graph \<phi> h h2" using g unfolding same_graph_def m .
  show ?thesis
  proof (cases q)
    case None
    then show ?thesis using raw g2 by (auto simp: raw_ok_def alloc_done_def)
  next
    case (Some a)
    then have a: "a \<notin> D" "\<And>ob. new_obj ob sz \<Longrightarrow> gc_inv (put_obj a ob h2) (insert a D)" using raw by (simp_all add: raw_ok_def)
    have "live_set h2 \<subseteq> D" using inv reach_sub [of h1 D] unfolding m by (simp add: gc_inv_def)
    then have "same_graph \<phi> h (put_obj a ob h2)" for ob
      using a(1) by (intro same_graph_write [OF g2]) (auto simp: set_obj_def)
    then have "alloc_done sz h (Some a) h2"
      using a unfolding alloc_done_def option.case by (intro exI [of _ D] exI [of _ \<phi>]) blast
    then show ?thesis by (simp add: Some)
  qed
qed

definition fits :: "u32 \<Rightarrow> bool" where
  "fits e \<longleftrightarrow> e + 1 \<noteq> 0 \<and> e + 2 \<noteq> 0"

lemma gc_alloc_spec:
  assumes inv: "gc_inv h D" and env: "gc_env os ml" and ep: "fits (gh_epoch h)" and sz: "0 < unat sz"
  shows "\<exists>q h1. gc_alloc os ml r sz h = Some (q, h1) \<and> alloc_done (unat sz) h q h1 \<and>
    (\<forall>a. q = Some a \<longrightarrow> gh_mem h1 a = fresh_obj r)"
proof -
  obtain h1 \<phi> D1 where 1: "(if gh_gc_threshold h \<le> gh_bytes_allocated h + ucast sz then gc_collect h else Some h) = Some h1"
    "gc_inv h1 D1" "same_graph \<phi> h h1" "gh_epoch h1 + 1 \<noteq> 0"
  proof (cases "gh_gc_threshold h \<le> gh_bytes_allocated h + ucast sz")
    case True
    have "gh_epoch h + 1 \<noteq> 0" using ep by (simp add: fits_def)
    from collect_graph [OF inv this] obtain h1 \<phi> D1 where "gc_collect h = Some h1" "gc_inv h1 D1" "same_graph \<phi> h h1"
      "gh_epoch h1 = gh_epoch h + 1" by blast
    then show ?thesis using that True ep by (simp add: fits_def add.assoc)
  next
    case False
    then show ?thesis using that [of h D "\<lambda>a. a"] inv same_graph_refl ep by (simp add: fits_def)
  qed
  obtain q h2 where 2: "alloc_raw os ml (unat sz) h1 = Some (q, h2)" "raw_ok (unat sz) h1 D1 q h2"
    by (rule alloc_raw_ok [OF 1(2) env sz])
  have "\<exists>q' h3. (case q of Some a \<Rightarrow> Some (Some a, h2) | None \<Rightarrow> Option.bind (gc_collect h2) (alloc_raw os ml (unat sz))) =
      Some (q', h3) \<and> alloc_done (unat sz) h q' h3"
  proof (cases q)
    case (Some a)
    then show ?thesis using raw_done [OF 1(2,3) 2(2)] by simp
  next
    case None
    have inv2: "gc_inv h2 D1" and e2: "gh_epoch h2 + 1 \<noteq> 0" and m: "gh_mem h2 = gh_mem h1" "gh_roots h2 = gh_roots h1"
      using 2(2) 1(4) None by (simp_all add: raw_ok_def)
    have g2: "same_graph \<phi> h h2" using 1(3) unfolding same_graph_def m .
    obtain h3 \<psi> D3 where 3: "gc_collect h2 = Some h3" "gc_inv h3 D3" "same_graph \<psi> h2 h3"
      by (rule collect_graph [OF inv2 e2])
    obtain q' h4 where 4: "alloc_raw os ml (unat sz) h3 = Some (q', h4)" "raw_ok (unat sz) h3 D3 q' h4"
      by (rule alloc_raw_ok [OF 3(2) env sz])
    have "alloc_done (unat sz) h q' h4" by (rule raw_done [OF 3(2) same_graph_trans [OF g2 3(3)] 4(2)])
    then show ?thesis using None 3(1) 4(1) by simp
  qed
  then obtain q' h3 where 3: "(case q of Some a \<Rightarrow> Some (Some a, h2) | None \<Rightarrow> Option.bind (gc_collect h2) (alloc_raw os ml (unat sz))) =
      Some (q', h3)" "alloc_done (unat sz) h q' h3" by blast
  show ?thesis
  proof (cases q')
    case None
    then have "gc_alloc os ml r sz h = Some (None, h3)" by (simp add: gc_alloc_def 1(1) 2(1) 3(1))
    then show ?thesis using 3(2) None by simp
  next
    case (Some a)
    let ?h = "(set_obj a (\<lambda>_. fresh_obj r) h3)\<lparr>gh_bytes_allocated := gh_bytes_allocated h3 + ucast sz\<rparr>"
    have run: "gc_alloc os ml r sz h = Some (Some a, ?h)"
      using Some by (simp add: gc_alloc_def 1(1) 2(1) 3(1) set_obj_def)
    have put: "put_obj a ob ?h = (put_obj a ob h3)\<lparr>gh_bytes_allocated := gh_bytes_allocated h3 + ucast sz\<rparr>" for ob
      by (simp add: set_obj_def)
    have bump: "gc_inv (g\<lparr>gh_bytes_allocated := n\<rparr>) E = gc_inv g E" "same_graph \<phi> h (g\<lparr>gh_bytes_allocated := n\<rparr>) = same_graph \<phi> h g"
      for g E n \<phi>
      by (simp_all add: gc_inv_def objs_ok_def refs_closed_def large_ok_def smalls_ok_def same_graph_def)
    have "alloc_done (unat sz) h (Some a) ?h" using 3(2) unfolding Some alloc_done_def option.case put bump .
    then show ?thesis using run by (auto simp: set_obj_def)
  qed
qed

section \<open>The constructors\<close>

lemma put_same: "gh_mem h a = ob \<Longrightarrow> put_obj a ob h = h"
  by (simp add: set_obj_def fun_upd_idem)

lemma gc_alloc_fresh: "gc_alloc os ml r sz h = Some (Some a, h1) \<Longrightarrow> gh_mem h1 a = fresh_obj r"
  by (auto simp: gc_alloc_def set_obj_def bind_eq_Some_conv split: option.splits)

text \<open>What a constructor leaves: the graph of the roots, and a new object besides.\<close>

definition constructed :: "gc_heap \<Rightarrow> gc_obj \<Rightarrow> nat option \<Rightarrow> gc_heap \<Rightarrow> bool" where
  "constructed h ob q h1 \<longleftrightarrow>
     (\<exists>D \<phi>. same_graph \<phi> h h1 \<and>
        (case q of
           None \<Rightarrow> gc_inv h1 D
         | Some a \<Rightarrow> a \<notin> D \<and> gc_inv h1 (insert a D) \<and> gh_mem h1 a = ob))"

lemma alloc_constructed:
  assumes "alloc_done sz h q h1" "new_obj ob sz"
  shows "constructed h ob q (case q of None \<Rightarrow> h1 | Some a \<Rightarrow> put_obj a ob h1)"
proof (cases q)
  case None
  then show ?thesis using assms(1) by (auto simp: alloc_done_def constructed_def)
next
  case (Some a)
  obtain D \<phi> where "a \<notin> D" "\<forall>ob. new_obj ob sz \<longrightarrow> gc_inv (put_obj a ob h1) (insert a D) \<and> same_graph \<phi> h (put_obj a ob h1)"
    using assms(1) unfolding alloc_done_def Some option.case by (elim exE conjE)
  then have "same_graph \<phi> h (put_obj a ob h1) \<and> a \<notin> D \<and> gc_inv (put_obj a ob h1) (insert a D) \<and> gh_mem (put_obj a ob h1) a = ob"
    using assms(2) by (simp add: set_obj_def)
  then show ?thesis unfolding constructed_def Some option.case by blast
qed

text \<open>
  C16. \<open>struct.new\<close> on a layout that is well formed: the allocation returns, the object graph of the
  roots is preserved up to the addresses a collection may have changed, and unless memory is exhausted
  the heap is consistent with one new object, zeroed and disjoint from all others.
\<close>

theorem struct_alloc_ok:
  assumes "gc_inv h D" "gc_env os ml" "fits (gh_epoch h)"
    and "unat typ < length rtts" "rt_kind (rtts ! unat typ) = GC_KIND_STRUCT" "obj_wf (fresh_obj (rtts ! unat typ))"
  shows "\<exists>q h1. jav_struct_alloc os ml rtts typ h = Some (q, h1) \<and> constructed h (fresh_obj (rtts ! unat typ)) q h1"
proof -
  let ?r = "rtts ! unat typ"
  have osz: "osize (fresh_obj ?r) = unat (rt_size ?r)"
    using assms(5) by (simp add: osize_def gc_obj_size_def rtt_size_def fresh_obj_def)
  then have new: "new_obj (fresh_obj ?r) (unat (rt_size ?r))" using assms(6) by (simp add: new_obj_def fresh_obj_def)
  have "0 < unat (rt_size ?r)" using assms(6) unfolding obj_wf_def osz GC_HEADER_def by linarith
  from gc_alloc_spec [OF assms(1-3) this, of ?r]
  obtain q h1 where g: "gc_alloc os ml ?r (rt_size ?r) h = Some (q, h1)" "alloc_done (unat (rt_size ?r)) h q h1"
    "\<forall>a. q = Some a \<longrightarrow> gh_mem h1 a = fresh_obj ?r" by blast
  have "(case q of None \<Rightarrow> h1 | Some a \<Rightarrow> put_obj a (fresh_obj ?r) h1) = h1"
    using g(3) by (cases q) (simp_all add: put_same)
  then have "constructed h (fresh_obj ?r) q h1" using alloc_constructed [OF g(2) new] by simp
  then show ?thesis using g(1) assms(4) by (simp add: jav_struct_alloc_def)
qed

lemma array_size:
  assumes "rt_kind r = GC_KIND_ARRAY" "32 + unat n * unat (arr_stride r) < 2 ^ 32"
  shows "unat (word_of_nat GC_HEADER + word_of_nat GC_ARRAY_ELEMS_OFFSET + n * arr_stride r) = 32 + unat n * unat (arr_stride r)"
    "osize ((fresh_obj r)\<lparr>ob_len := n\<rparr>) = 32 + unat n * unat (arr_stride r)"
proof -
  have "unat (n * arr_stride r) = unat n * unat (arr_stride r)"
    using assms(2) by (subst unat_mult_lem [THEN iffD1]) simp_all
  then have "unat (32 + n * arr_stride r) = 32 + unat n * unat (arr_stride r)"
    using assms(2) by (subst unat_add_lem [THEN iffD1]) simp_all
  then show "unat (word_of_nat GC_HEADER + word_of_nat GC_ARRAY_ELEMS_OFFSET + n * arr_stride r) = 32 + unat n * unat (arr_stride r)"
    by (simp add: GC_HEADER_def GC_ARRAY_ELEMS_OFFSET_def)
  then show "osize ((fresh_obj r)\<lparr>ob_len := n\<rparr>) = 32 + unat n * unat (arr_stride r)"
    using assms(1) by (simp add: osize_def gc_obj_size_def rtt_size_def fresh_obj_def)
qed

text \<open>
  \<open>array.new_default\<close> and the allocation of \<open>array.new_fixed\<close> are correct when the size in bytes is
  below 2^32: the new array has the requested length, zeroed elements that all lie within its storage,
  and the heap is consistent with it and the preserved graph of the roots.
\<close>

theorem array_alloc_ok:
  assumes "gc_inv h D" "gc_env os ml" "fits (gh_epoch h)"
    and "unat typ < length rtts" "rt_kind (rtts ! unat typ) = GC_KIND_ARRAY"
    and "rt_elem_is_ref (rtts ! unat typ) \<longrightarrow> arr_stride (rtts ! unat typ) = 8"
    and "0 \<le> sint n" "32 + unat n * unat (arr_stride (rtts ! unat typ)) < 2 ^ 32"
  shows "\<exists>q h1. jav_array_alloc os ml rtts typ n h = Some (q, h1) \<and>
    constructed h ((fresh_obj (rtts ! unat typ))\<lparr>ob_len := n\<rparr>) q h1"
proof -
  let ?r = "rtts ! unat typ"
  let ?ob = "(fresh_obj ?r)\<lparr>ob_len := n\<rparr>"
  define sz where "sz = (word_of_nat GC_HEADER + word_of_nat GC_ARRAY_ELEMS_OFFSET + n * arr_stride ?r :: u32)"
  note as = array_size [OF assms(5,8), folded sz_def]
  have st: "unat (arr_stride ?r) = 8" if "rt_elem_is_ref ?r" using assms(6) that by simp
  have cells: "32 \<le> off \<and> off + 8 \<le> 32 + unat n * unat (arr_stride ?r)" if "off \<in> set (obj_cells ?ob)" for off
    using that st assms(5)
    by (auto simp: obj_cells_def ref_cells_def fresh_obj_def GC_HEADER_def GC_ARRAY_ELEMS_OFFSET_def split: if_splits)
  have "obj_wf ?ob" unfolding obj_wf_def as(2) using cells by (force simp: fresh_obj_def GC_HEADER_def)
  then have new: "new_obj ?ob (unat sz)" by (simp add: new_obj_def as) (simp add: fresh_obj_def)
  have "0 < unat sz" by (simp add: as(1))
  from gc_alloc_spec [OF assms(1-3) this, of ?r]
  obtain q h1 where g: "gc_alloc os ml ?r sz h = Some (q, h1)" "alloc_done (unat sz) h q h1"
    "\<forall>a. q = Some a \<longrightarrow> gh_mem h1 a = fresh_obj ?r" by blast
  have "jav_array_alloc os ml rtts typ n h = Some (q, case q of None \<Rightarrow> h1 | Some a \<Rightarrow> put_obj a ?ob h1)"
    using assms(4,7) g(1,3) by (auto simp: jav_array_alloc_def Let_def sz_def set_obj_def split: option.split)
  then show ?thesis using alloc_constructed [OF g(2) new] by blast
qed

lemma array_alloc_object:
  assumes "jav_array_alloc os ml rtts typ n h = Some (Some a, h1)"
  shows "gh_mem h1 a = (fresh_obj (rtts ! unat typ))\<lparr>ob_len := n\<rparr>"
    "\<exists>g. gc_alloc os ml (rtts ! unat typ)
       (word_of_nat GC_HEADER + word_of_nat GC_ARRAY_ELEMS_OFFSET + n * arr_stride (rtts ! unat typ)) h = Some (Some a, g)"
proof -
  let ?r = "rtts ! unat typ"
  let ?sz = "word_of_nat GC_HEADER + word_of_nat GC_ARRAY_ELEMS_OFFSET + n * arr_stride ?r :: u32"
  have ok: "\<not> (length rtts \<le> unat typ \<or> sint n < 0)" using assms unfolding jav_array_alloc_def by (meson option.inject prod.inject option.distinct(1))
  obtain q g where g: "gc_alloc os ml ?r ?sz h = Some (q, g)"
    using assms ok by (cases "gc_alloc os ml ?r ?sz h") (auto simp: jav_array_alloc_def Let_def)
  have "q = Some a" "h1 = set_obj a (\<lambda>ob. ob\<lparr>ob_len := n\<rparr>) g"
    using assms ok g by (auto simp: jav_array_alloc_def Let_def split: option.splits)
  then show "gh_mem h1 a = (fresh_obj ?r)\<lparr>ob_len := n\<rparr>" "\<exists>g. gc_alloc os ml ?r ?sz h = Some (Some a, g)"
    using g gc_alloc_fresh [of os ml ?r ?sz h a g] by (simp_all add: set_obj_def)
qed

text \<open>
  The loop of \<open>array.new_default\<close> that stores nulls into a reference array changes nothing: the
  result is that of the bare allocation, since the payload is zeroed and the null reference is 0.
\<close>

theorem array_new_default_eq: "jav_array_new_default os ml rtts typ n h = jav_array_alloc os ml rtts typ n h"
proof -
  have z: "fold (\<lambda>i (c :: nat \<Rightarrow> nat). c(f i := 0)) xs (\<lambda>_. 0) = (\<lambda>_. 0)" for f :: "nat \<Rightarrow> nat" and xs
    by (induction xs) (simp_all add: fun_upd_idem)
  have "set_obj a (\<lambda>ob. ob\<lparr>ob_cell := fold (\<lambda>i c. c(GC_HEADER + GC_ARRAY_ELEMS_OFFSET + 8 * i := 0)) xs (ob_cell ob)\<rparr>) h1 = h1"
    if "jav_array_alloc os ml rtts typ n h = Some (Some a, h1)" for a h1 xs
  proof -
    have "ob_cell (gh_mem h1 a) = (\<lambda>_. 0)"
      using array_alloc_object [OF that] by (simp add: fresh_obj_def)
    then have "fold (\<lambda>i c. c(GC_HEADER + GC_ARRAY_ELEMS_OFFSET + 8 * i := 0)) xs (ob_cell (gh_mem h1 a)) = ob_cell (gh_mem h1 a)"
      by (simp only: z)
    then show ?thesis by (simp add: set_obj_def)
  qed
  note same = this
  show ?thesis
  proof (cases "jav_array_alloc os ml rtts typ n h")
    case None
    then show ?thesis by (simp add: jav_array_new_default_def)
  next
    case (Some p)
    obtain q h1 where p: "p = (q, h1)" by (rule prod.exhaust)
    show ?thesis
    proof (cases q)
      case None
      then show ?thesis using Some p by (simp add: jav_array_new_default_def)
    next
      case (Some a)
      then have r: "jav_array_alloc os ml rtts typ n h = Some (Some a, h1)" using \<open>jav_array_alloc os ml rtts typ n h = Some p\<close> p by simp
      show ?thesis using same [OF r] by (simp add: jav_array_new_default_def r)
    qed
  qed
qed

text \<open>
  C23. Without that bound the byte size wraps: an array whose elements need 2^32 bytes or more is
  allocated all the same, in storage that is short of what its recorded length needs by at least 2^32
  bytes, so that accesses within its bounds leave the storage.
\<close>

theorem array_size_wraps:
  assumes "rt_kind (rtts ! unat typ) = GC_KIND_ARRAY" "jav_array_alloc os ml rtts typ n h = Some (Some a, h1)"
    and "2 ^ 32 \<le> 32 + unat n * unat (arr_stride (rtts ! unat typ))"
  shows "ob_len (gh_mem h1 a) = n \<and>
    (\<exists>sz g. gc_alloc os ml (rtts ! unat typ) sz h = Some (Some a, g) \<and>
      unat sz + 2 ^ 32 \<le> 32 + unat (ob_len (gh_mem h1 a)) * unat (arr_stride (rtts ! unat typ)))"
proof -
  let ?r = "rtts ! unat typ"
  note ob = array_alloc_object [OF assms(2)]
  have l: "ob_len (gh_mem h1 a) = n" by (simp add: ob(1))
  let ?sz = "word_of_nat GC_HEADER + word_of_nat GC_ARRAY_ELEMS_OFFSET + n * arr_stride ?r :: u32"
  have "?sz = word_of_nat (32 + unat n * unat (arr_stride ?r))"
    by (simp add: GC_HEADER_def GC_ARRAY_ELEMS_OFFSET_def)
  then have "unat ?sz = (32 + unat n * unat (arr_stride ?r)) mod 2 ^ LENGTH(32)" by (metis unat_of_nat)
  then have "unat ?sz = (32 + unat n * unat (arr_stride ?r)) mod 2 ^ 32" by simp
  moreover have "k mod 2 ^ 32 + 2 ^ 32 \<le> k" if "2 ^ 32 \<le> k" for k :: nat
  proof -
    have "1 \<le> k div 2 ^ 32" using that by (simp add: less_eq_div_iff_mult_less_eq)
    then have "2 ^ 32 * 1 \<le> 2 ^ 32 * (k div 2 ^ 32)" by (rule mult_le_mono2)
    then show ?thesis using mult_div_mod_eq [of "2 ^ 32" k] by linarith
  qed
  ultimately have "unat ?sz + 2 ^ 32 \<le> 32 + unat n * unat (arr_stride ?r)" using assms(3) by metis
  then show ?thesis using ob(2) unfolding l by blast
qed

text \<open>
  After a collection the budget leaves room: the threshold never falls, and the live bytes are at
  most two thirds of it (up to rounding), as long as the sizes stay below 2^62.
\<close>

theorem rebase_leaves_room:
  assumes "unat (gh_live_bytes h) < 2 ^ 62" "unat (gh_gc_threshold h) < 2 ^ 62"
  shows "gh_bytes_allocated (gc_rebase h) = gh_live_bytes h \<and>
    unat (gh_gc_threshold h) \<le> unat (gh_gc_threshold (gc_rebase h)) \<and>
    3 * unat (gh_bytes_allocated (gc_rebase h)) \<le> 2 * unat (gh_gc_threshold (gc_rebase h)) + 1"
proof -
  let ?l = "gh_live_bytes h" and ?t = "gh_gc_threshold h"
  have grow: "unat (b + b div 2) = unat b + unat b div 2" if "unat b < 2 ^ 62" for b :: u64
    using that by (subst unat_add_lem [THEN iffD1]) (simp_all add: unat_div)
  show ?thesis
  proof (cases "?t div 2 < ?l")
    case True
    define b where "b = (if ?t < ?l then ?l else ?t)"
    have b: "unat b < 2 ^ 62" "unat ?l \<le> unat b" "unat ?t \<le> unat b"
      using assms by (auto simp: b_def word_less_nat_alt)
    have "gh_gc_threshold (gc_rebase h) = b + b div 2" using True by (simp add: gc_rebase_def Let_def b_def)
    then show ?thesis using grow [OF b(1)] b(2,3) by (simp add: gc_rebase_sel)
  next
    case False
    then have "unat ?l \<le> unat ?t div 2" by (simp add: word_less_nat_alt unat_div)
    moreover have "gh_gc_threshold (gc_rebase h) = ?t" using False by (simp add: gc_rebase_def Let_def)
    ultimately show ?thesis by (simp add: gc_rebase_sel)
  qed
qed

text \<open>The wrap of the epoch: at epoch 0 a fresh object looks marked, and is neither traced nor kept.\<close>

lemma epoch_wrap_unmarked: "gh_epoch h = 0 \<Longrightarrow> gh_mem h v = fresh_obj r \<Longrightarrow> gc_mark1 v h = Some (v, h)"
  by (simp add: gc_mark1_def fresh_obj_def)

section \<open>Witnesses\<close>

text \<open>An environment that takes storage beyond everything in use.\<close>

definition large_top :: "gc_heap \<Rightarrow> nat" where
  "large_top h = (\<Sum>a \<leftarrow> gh_large_objs h. a + osize (gh_mem h a))"

definition demo_os :: gc_os where
  "demo_os h p = Some (IMX_BLOCK_SIZE * (sum_list (pl_allocated p) + large_top h + 1))"

definition demo_malloc :: gc_malloc where
  "demo_malloc h sz = Some (8 * (large_top h + (\<Sum>b \<leftarrow> sp_all (gh_space h). b + IMX_BLOCK_SIZE) + 1))"

lemma large_top: "a \<in> set (gh_large_objs h) \<Longrightarrow> a + osize (gh_mem h a) \<le> large_top h"
  unfolding large_top_def by (rule member_le_sum_list) auto

lemma demo_env: "gc_env demo_os demo_malloc"
proof -
  have "os_ok (demo_os h)" for h
  proof -
    have "b < IMX_BLOCK_SIZE * (sum_list xs + n + 1)" if "b \<in> set xs" for b n :: nat and xs
      using member_le_sum_list [OF that] by simp
    then show ?thesis unfolding os_ok_def demo_os_def by (metis mod_mult_self1_is_0 not_less_iff_gr_or_eq option.inject gr_zeroI mult_is_0 add_is_0 one_neq_zero zero_neq_numeral)
  qed
  moreover have "span h a \<inter> {b..<b + IMX_BLOCK_SIZE} = {}" if "demo_os h p = Some b" "a \<in> set (gh_large_objs h)" for h p a b
    using large_top [OF that(2)] that(1) by (auto simp: demo_os_def span_def)
  moreover have "is_ref a \<and> (\<forall>b \<in> set (sp_all (gh_space h)). {a..<a + sz} \<inter> {b..<b + IMX_BLOCK_SIZE} = {}) \<and>
        (\<forall>c \<in> set (gh_large_objs h). {a..<a + sz} \<inter> span h c = {})" if m: "demo_malloc h sz = Some a" for h sz a
  proof -
    have a: "a = 8 * (large_top h + (\<Sum>b \<leftarrow> sp_all (gh_space h). b + IMX_BLOCK_SIZE) + 1)" using m by (simp add: demo_malloc_def)
    have "b + IMX_BLOCK_SIZE \<le> a" if "b \<in> set (sp_all (gh_space h))" for b
      using member_le_sum_list [of "b + IMX_BLOCK_SIZE" "map (\<lambda>b. b + IMX_BLOCK_SIZE) (sp_all (gh_space h))"] that by (simp add: a)
    moreover have "c + osize (gh_mem h c) \<le> a" if "c \<in> set (gh_large_objs h)" for c using large_top [OF that] by (simp add: a)
    ultimately show ?thesis by (force simp: is_ref_def span_def a)
  qed
  ultimately show ?thesis unfolding gc_env_def by blast
qed

definition demo_arr :: gc_rtt where
  "demo_arr = demo_rtt\<lparr>rt_size := 0, rt_kind := GC_KIND_ARRAY, rt_elem_is_ref := True, rt_elem_heap_w := 8\<rparr>"

lemma demo_fits: "fits (gh_epoch demo_heap)"
  by (simp add: fits_def demo_heap_def gc_heap_init_def)

lemma struct_alloc_ok_witness:
  "\<exists>q h1. jav_struct_alloc demo_os demo_malloc [demo_rtt] 0 demo_heap = Some (q, h1) \<and>
    constructed demo_heap (fresh_obj demo_rtt) q h1"
proof -
  have "obj_wf (fresh_obj demo_rtt)" "rt_kind demo_rtt = GC_KIND_STRUCT"
    by (simp_all add: obj_wf_def fresh_obj_def demo_rtt_def osize_def gc_obj_size_def rtt_size_def GC_HEADER_def obj_cells_def
        ref_cells_def)
  then show ?thesis using struct_alloc_ok [OF demo_inv demo_env demo_fits, of 0 "[demo_rtt]"] by simp
qed

lemma array_alloc_ok_witness:
  "\<exists>q h1. jav_array_alloc demo_os demo_malloc [demo_arr] 0 3 demo_heap = Some (q, h1) \<and>
    constructed demo_heap ((fresh_obj demo_arr)\<lparr>ob_len := 3\<rparr>) q h1"
proof -
  have "rt_kind demo_arr = GC_KIND_ARRAY" "arr_stride demo_arr = 8" by (simp_all add: demo_arr_def arr_stride_def)
  then show ?thesis using array_alloc_ok [OF demo_inv demo_env demo_fits, of 0 "[demo_arr]" 3] by simp
qed

text \<open>2^29 + 4996 references need more than 2^32 bytes and get 40000.\<close>

lemma array_size_wraps_witness:
  "\<exists>a h1. jav_array_alloc demo_os demo_malloc [demo_arr] 0 536875908 demo_heap = Some (Some a, h1) \<and>
    ob_len (gh_mem h1 a) = 536875908 \<and>
    (\<exists>sz g. gc_alloc demo_os demo_malloc demo_arr sz demo_heap = Some (Some a, g) \<and> unat sz + 2 ^ 32 \<le> 4295007296)"
proof -
  have k: "rt_kind demo_arr = GC_KIND_ARRAY" "arr_stride demo_arr = 8" by (simp_all add: demo_arr_def arr_stride_def)
  have w: "(4295007296 :: u32) = 40000" by (simp add: word_unat_eq_iff)
  have "\<exists>a g. gc_alloc demo_os demo_malloc demo_arr 40000 demo_heap = Some (Some a, g)"
    by (simp add: gc_alloc_def alloc_raw_def alloc_large_def demo_malloc_def demo_heap_def gc_heap_init_def
        GC_INITIAL_THRESHOLD_def IMX_MEDIUM_MAX_def IMX_DATA_START_OFFSET_def IMX_DATA_START_LINE_def)
  then obtain a h1 where r: "jav_array_alloc demo_os demo_malloc [demo_arr] 0 536875908 demo_heap = Some (Some a, h1)"
    by (auto simp: jav_array_alloc_def Let_def GC_HEADER_def GC_ARRAY_ELEMS_OFFSET_def k w)
  have "ob_len (gh_mem h1 a) = 536875908 \<and>
    (\<exists>sz g. gc_alloc demo_os demo_malloc ([demo_arr] ! unat (0 :: u32)) sz demo_heap = Some (Some a, g) \<and>
      unat sz + 2 ^ 32 \<le> 32 + unat (ob_len (gh_mem h1 a)) * unat (arr_stride ([demo_arr] ! unat (0 :: u32))))"
    by (rule array_size_wraps [OF _ r]) (simp_all add: k)
  then show ?thesis using r by (auto simp: k)
qed

lemma rebase_leaves_room_witness:
  "gh_bytes_allocated (gc_rebase (demo_heap\<lparr>gh_live_bytes := 100000\<rparr>)) = 100000 \<and>
   3 * unat (gh_bytes_allocated (gc_rebase (demo_heap\<lparr>gh_live_bytes := 100000\<rparr>)))
     \<le> 2 * unat (gh_gc_threshold (gc_rebase (demo_heap\<lparr>gh_live_bytes := 100000\<rparr>))) + 1"
proof -
  let ?h = "demo_heap\<lparr>gh_live_bytes := 100000\<rparr>"
  have "unat (gh_live_bytes ?h) < 2 ^ 62" "unat (gh_gc_threshold ?h) < 2 ^ 62" "gh_live_bytes ?h = 100000"
    by (simp_all add: demo_heap_def gc_heap_init_def GC_INITIAL_THRESHOLD_def)
  then show ?thesis using rebase_leaves_room [of ?h] by metis
qed

end
