(* ===== verification/JBound.thy ===== *)
theory JBound
  imports Prelude "HOL-Library.Signed_Division"
begin

text \<open>
  The integer arithmetic of the Java compiler: \<open>compiler/include/javelina/compiler/jint.h\<close>, exact
  wrap-around operations on 32- and 64-bit words, and \<open>jbound.h\<close>, the intervals that contain their
  results.  An \<open>int64_t\<close> bound is an integer; a result of \<open>None\<close> is signed overflow or a division by
  zero, which are undefined in C.  \<open>1 << 63\<close> is the smallest \<open>int64_t\<close>, as the compilers in use define it.
\<close>

section \<open>Exact arithmetic\<close>

type_synonym jint = "32 word"
type_synonym jlong = "64 word"

definition jint_add :: "jint \<Rightarrow> jint \<Rightarrow> jint" where "jint_add a b = a + b"
definition jint_sub :: "jint \<Rightarrow> jint \<Rightarrow> jint" where "jint_sub a b = a - b"
definition jint_mul :: "jint \<Rightarrow> jint \<Rightarrow> jint" where "jint_mul a b = a * b"

abbreviation INT32_MIN :: int where "INT32_MIN \<equiv> - 2147483648"
abbreviation INT32_MAX :: int where "INT32_MAX \<equiv> 2147483647"
abbreviation INT64_MIN :: int where "INT64_MIN \<equiv> - 9223372036854775808"
abbreviation INT64_MAX :: int where "INT64_MAX \<equiv> 9223372036854775807"

definition jint_div :: "jint \<Rightarrow> jint \<Rightarrow> jint" where
  "jint_div a b = (if sint a = INT32_MIN \<and> sint b = - 1 then word_of_int INT32_MIN else word_of_int (sint a sdiv sint b))"

definition jint_rem :: "jint \<Rightarrow> jint \<Rightarrow> jint" where
  "jint_rem a b = (if sint a = INT32_MIN \<and> sint b = - 1 then 0 else word_of_int (sint a smod sint b))"

definition jint_and :: "jint \<Rightarrow> jint \<Rightarrow> jint" where "jint_and a b = a AND b"
definition jint_or :: "jint \<Rightarrow> jint \<Rightarrow> jint" where "jint_or a b = a OR b"
definition jint_xor :: "jint \<Rightarrow> jint \<Rightarrow> jint" where "jint_xor a b = a XOR b"

definition jint_shl :: "jint \<Rightarrow> jint \<Rightarrow> jint" where
  "jint_shl a b = push_bit (unat (b AND 31)) a"

definition jint_shr :: "jint \<Rightarrow> jint \<Rightarrow> jint" where
  "jint_shr a b = word_of_int (sint a div 2 ^ unat (b AND 31))"

definition jint_ushr :: "jint \<Rightarrow> jint \<Rightarrow> jint" where
  "jint_ushr a b = drop_bit (unat (b AND 31)) a"

definition jint_neg :: "jint \<Rightarrow> jint" where "jint_neg a = 0 - a"

definition jlong_add :: "jlong \<Rightarrow> jlong \<Rightarrow> jlong" where "jlong_add a b = a + b"
definition jlong_sub :: "jlong \<Rightarrow> jlong \<Rightarrow> jlong" where "jlong_sub a b = a - b"
definition jlong_mul :: "jlong \<Rightarrow> jlong \<Rightarrow> jlong" where "jlong_mul a b = a * b"

definition jlong_div :: "jlong \<Rightarrow> jlong \<Rightarrow> jlong" where
  "jlong_div a b = (if sint a = INT64_MIN \<and> sint b = - 1 then word_of_int INT64_MIN else word_of_int (sint a sdiv sint b))"

definition jlong_rem :: "jlong \<Rightarrow> jlong \<Rightarrow> jlong" where
  "jlong_rem a b = (if sint a = INT64_MIN \<and> sint b = - 1 then 0 else word_of_int (sint a smod sint b))"

definition jlong_neg :: "jlong \<Rightarrow> jlong" where "jlong_neg a = 0 - a"

section \<open>Bounds\<close>

record jbound =
  jb_lo :: int
  jb_hi :: int
  jb_ok :: bool
  jb_overflow :: bool

definition jbound_none :: jbound where
  "jbound_none = \<lparr>jb_lo = 0, jb_hi = 0, jb_ok = False, jb_overflow = False\<rparr>"

definition jbound_of :: "int \<Rightarrow> int \<Rightarrow> jbound" where
  "jbound_of lo hi = \<lparr>jb_lo = lo, jb_hi = hi, jb_ok = True, jb_overflow = False\<rparr>"

definition jbound_over :: jbound where
  "jbound_over = \<lparr>jb_lo = 0, jb_hi = 0, jb_ok = True, jb_overflow = True\<rparr>"

definition jbound_fits :: "int \<Rightarrow> int \<Rightarrow> int \<Rightarrow> int \<Rightarrow> bool" where
  "jbound_fits lo hi wmin wmax \<longleftrightarrow> wmin \<le> lo \<and> hi \<le> wmax"

definition in_i64 :: "int \<Rightarrow> bool" where
  "in_i64 v \<longleftrightarrow> INT64_MIN \<le> v \<and> v \<le> INT64_MAX"

text \<open>C arithmetic on \<open>int64_t\<close> outside the overflow builtins.\<close>

definition c_i64 :: "int \<Rightarrow> int option" where
  "c_i64 v = (if in_i64 v then Some v else None)"

definition c_div :: "int \<Rightarrow> int \<Rightarrow> int option" where
  "c_div a b = (if b = 0 then None else c_i64 (a sdiv b))"

definition jbound_add :: "int \<Rightarrow> int \<Rightarrow> int \<Rightarrow> int \<Rightarrow> int \<Rightarrow> int \<Rightarrow> jbound" where
  "jbound_add a_lo a_hi b_lo b_hi wmin wmax =
     (let lo = a_lo + b_lo; hi = a_hi + b_hi in
      if \<not> in_i64 lo \<or> \<not> in_i64 hi then jbound_over
      else if \<not> jbound_fits lo hi wmin wmax then jbound_over
      else jbound_of lo hi)"

definition jbound_sub :: "int \<Rightarrow> int \<Rightarrow> int \<Rightarrow> int \<Rightarrow> int \<Rightarrow> int \<Rightarrow> jbound" where
  "jbound_sub a_lo a_hi b_lo b_hi wmin wmax =
     (let lo = a_lo - b_hi; hi = a_hi - b_lo in
      if \<not> in_i64 lo \<or> \<not> in_i64 hi then jbound_over
      else if \<not> jbound_fits lo hi wmin wmax then jbound_over
      else jbound_of lo hi)"

definition jbound_neg :: "int \<Rightarrow> int \<Rightarrow> int \<Rightarrow> int \<Rightarrow> jbound" where
  "jbound_neg a_lo a_hi wmin wmax =
     (if a_lo = wmin then jbound_none
      else
        let lo = 0 - a_hi; hi = 0 - a_lo in
        if \<not> in_i64 lo \<or> \<not> in_i64 hi then jbound_over
        else if \<not> jbound_fits lo hi wmin wmax then jbound_over
        else jbound_of lo hi)"

text \<open>The least and the greatest of the corners, as the loop over \<open>c[1..3]\<close> finds them.\<close>

definition corner_lo :: "int list \<Rightarrow> int" where
  "corner_lo c = foldl min (hd c) (tl c)"

definition corner_hi :: "int list \<Rightarrow> int" where
  "corner_hi c = foldl max (hd c) (tl c)"

definition jbound_mul :: "int \<Rightarrow> int \<Rightarrow> int \<Rightarrow> int \<Rightarrow> int \<Rightarrow> int \<Rightarrow> jbound" where
  "jbound_mul a_lo a_hi b_lo b_hi wmin wmax =
     (let c = [a_lo * b_lo, a_lo * b_hi, a_hi * b_lo, a_hi * b_hi] in
      if \<not> list_all in_i64 c then jbound_over
      else
        let lo = corner_lo c; hi = corner_hi c in
        if \<not> jbound_fits lo hi wmin wmax then jbound_over else jbound_of lo hi)"

definition jbound_shl :: "int \<Rightarrow> int \<Rightarrow> int \<Rightarrow> int \<Rightarrow> int \<Rightarrow> int \<Rightarrow> int \<Rightarrow> jbound" where
  "jbound_shl a_lo a_hi b_lo b_hi wmin wmax maxsh =
     (if b_lo \<noteq> b_hi \<or> b_lo < 0 \<or> maxsh < b_lo then jbound_none
      else
        let f = (if b_lo = 63 then INT64_MIN else 2 ^ nat b_lo)
        in jbound_mul a_lo a_hi f f wmin wmax)"

definition jbound_div :: "int \<Rightarrow> int \<Rightarrow> int \<Rightarrow> int \<Rightarrow> int \<Rightarrow> jbound option" where
  "jbound_div a_lo a_hi b_lo b_hi wmin =
     (if b_lo \<le> 0 \<and> 0 \<le> b_hi then Some jbound_none
      else if a_lo = wmin \<and> b_lo \<le> - 1 \<and> - 1 \<le> b_hi then Some jbound_none
      else
        Option.bind (c_div a_lo b_lo) (\<lambda>c0. Option.bind (c_div a_lo b_hi) (\<lambda>c1.
        Option.bind (c_div a_hi b_lo) (\<lambda>c2. Option.bind (c_div a_hi b_hi) (\<lambda>c3.
        Some (jbound_of (corner_lo [c0, c1, c2, c3]) (corner_hi [c0, c1, c2, c3])))))))"

definition jbound_rem :: "int \<Rightarrow> int \<Rightarrow> int \<Rightarrow> int \<Rightarrow> int \<Rightarrow> jbound option" where
  "jbound_rem a_lo a_hi b_lo b_hi wmin =
     (if b_lo \<le> 0 \<and> 0 \<le> b_hi then Some jbound_none
      else if b_lo = wmin then Some jbound_none
      else
        Option.bind (if b_lo < 0 then c_i64 (- b_lo) else Some b_lo) (\<lambda>blo_abs.
        Option.bind (if b_hi < 0 then c_i64 (- b_hi) else Some b_hi) (\<lambda>bhi_abs.
        Option.bind (c_i64 (max blo_abs bhi_abs - 1)) (\<lambda>bound.
          let lo = (if 0 \<le> a_lo then 0 else max a_lo (- bound));
              hi = (if a_hi \<le> 0 then 0 else min a_hi bound)
          in Some (jbound_of lo hi)))))"

definition jbound_and :: "int \<Rightarrow> int \<Rightarrow> int \<Rightarrow> int \<Rightarrow> jbound" where
  "jbound_and a_lo a_hi b_lo b_hi =
     (let mask = (\<lambda>k r_lo r_hi. jbound_of 0 (if 0 \<le> r_lo \<and> r_hi < k then r_hi else k)) in
      if b_lo = b_hi \<and> 0 \<le> b_lo then mask b_lo a_lo a_hi
      else if a_lo = a_hi \<and> 0 \<le> a_lo then mask a_lo b_lo b_hi
      else if 0 \<le> a_lo \<and> 0 \<le> b_lo then jbound_of 0 (min a_hi b_hi)
      else jbound_none)"

definition jbound_narrow :: "int \<Rightarrow> int \<Rightarrow> int \<Rightarrow> int \<Rightarrow> jbound" where
  "jbound_narrow a_lo a_hi tgt_lo tgt_hi =
     (if tgt_lo \<le> a_lo \<and> a_hi \<le> tgt_hi then jbound_of a_lo a_hi else jbound_of tgt_lo tgt_hi)"

section \<open>Branch narrowing\<close>

datatype jbound_cmp = JB_LT | JB_LE | JB_GT | JB_GE | JB_EQ | JB_NE

fun jbound_cmp_flip :: "jbound_cmp \<Rightarrow> jbound_cmp" where
  "jbound_cmp_flip JB_LT = JB_GT"
| "jbound_cmp_flip JB_LE = JB_GE"
| "jbound_cmp_flip JB_GT = JB_LT"
| "jbound_cmp_flip JB_GE = JB_LE"
| "jbound_cmp_flip JB_EQ = JB_EQ"
| "jbound_cmp_flip JB_NE = JB_NE"

fun jbound_cmp_negate :: "jbound_cmp \<Rightarrow> jbound_cmp" where
  "jbound_cmp_negate JB_LT = JB_GE"
| "jbound_cmp_negate JB_LE = JB_GT"
| "jbound_cmp_negate JB_GT = JB_LE"
| "jbound_cmp_negate JB_GE = JB_LT"
| "jbound_cmp_negate JB_EQ = JB_NE"
| "jbound_cmp_negate JB_NE = JB_EQ"

fun jbound_narrow_by_cmp :: "jbound_cmp \<Rightarrow> int \<Rightarrow> int \<Rightarrow> int \<Rightarrow> int \<Rightarrow> jbound option" where
  "jbound_narrow_by_cmp JB_LT k_lo k_hi wmin wmax =
     (if k_hi \<le> wmin then Some jbound_none else map_option (jbound_of wmin) (c_i64 (k_hi - 1)))"
| "jbound_narrow_by_cmp JB_LE k_lo k_hi wmin wmax = Some (jbound_of wmin (if k_hi < wmax then k_hi else wmax))"
| "jbound_narrow_by_cmp JB_GT k_lo k_hi wmin wmax =
     (if wmax \<le> k_lo then Some jbound_none else map_option (\<lambda>lo. jbound_of lo wmax) (c_i64 (k_lo + 1)))"
| "jbound_narrow_by_cmp JB_GE k_lo k_hi wmin wmax = Some (jbound_of (if wmin < k_lo then k_lo else wmin) wmax)"
| "jbound_narrow_by_cmp JB_EQ k_lo k_hi wmin wmax = Some (jbound_of k_lo k_hi)"
| "jbound_narrow_by_cmp JB_NE k_lo k_hi wmin wmax = Some jbound_none"

section \<open>Lattice operations\<close>

definition jbound_hull :: "int \<Rightarrow> int \<Rightarrow> int \<Rightarrow> int \<Rightarrow> jbound" where
  "jbound_hull a_lo a_hi b_lo b_hi = jbound_of (min a_lo b_lo) (max a_hi b_hi)"

definition jbound_meet :: "int \<Rightarrow> int \<Rightarrow> int \<Rightarrow> int \<Rightarrow> jbound" where
  "jbound_meet a_lo a_hi b_lo b_hi =
     (let lo = max a_lo b_lo; hi = min a_hi b_hi in if hi < lo then jbound_none else jbound_of lo hi)"

definition jbound_contains :: "int \<Rightarrow> int \<Rightarrow> int \<Rightarrow> int \<Rightarrow> bool" where
  "jbound_contains a_lo a_hi b_lo b_hi \<longleftrightarrow> b_lo \<le> a_lo \<and> a_hi \<le> b_hi"

definition jbound_widen_lo_grew :: "int \<Rightarrow> int \<Rightarrow> bool" where
  "jbound_widen_lo_grew prev_lo in_lo \<longleftrightarrow> in_lo < prev_lo"

definition jbound_widen_hi_grew :: "int \<Rightarrow> int \<Rightarrow> bool" where
  "jbound_widen_hi_grew prev_hi in_hi \<longleftrightarrow> prev_hi < in_hi"

end
