(* ===== verification/JBoundRules.thy ===== *)
theory JBoundRules
  imports JBound
begin

text \<open>
  The bounds are sound: whatever values the operands take in their intervals, the exact Java operation
  lands in the claimed interval, on both widths.  Comparisons narrow to exactly the values they allow,
  and hull and meet are the join and meet of the interval order.
\<close>

section \<open>Signed words\<close>

lemma sint_word_of_int:
  "- (2 ^ (LENGTH('a) - 1)) \<le> v \<Longrightarrow> v < 2 ^ (LENGTH('a) - 1) \<Longrightarrow> sint (word_of_int v :: 'a::len word) = v"
  by (simp add: signed_of_int signed_take_bit_int_eq_self)

lemma sint32: "INT32_MIN \<le> v \<Longrightarrow> v \<le> INT32_MAX \<Longrightarrow> sint (word_of_int v :: jint) = v"
  by (rule sint_word_of_int) simp_all

lemma sint64: "INT64_MIN \<le> v \<Longrightarrow> v \<le> INT64_MAX \<Longrightarrow> sint (word_of_int v :: jlong) = v"
  by (rule sint_word_of_int) simp_all

lemma sint32_range: "INT32_MIN \<le> sint (x :: jint) \<and> sint x \<le> INT32_MAX"
  using sint_greater_eq [of x] sint_less [of x] by simp

lemma sint64_range: "INT64_MIN \<le> sint (x :: jlong) \<and> sint x \<le> INT64_MAX"
  using sint_greater_eq [of x] sint_less [of x] by simp

lemma arith_word_of_int:
  "(x :: 'a::len word) + y = word_of_int (sint x + sint y)" "x - y = word_of_int (sint x - sint y)"
  "x * y = word_of_int (sint x * sint y)" "0 - x = word_of_int (0 - sint x)"
  by simp_all

section \<open>Corners\<close>

definition between :: "int \<Rightarrow> int \<Rightarrow> int \<Rightarrow> bool" where
  "between p v q \<longleftrightarrow> min p q \<le> v \<and> v \<le> max p q"

lemma corners:
  "between p v q \<Longrightarrow> between c0 p c1 \<Longrightarrow> between c2 q c3 \<Longrightarrow>
     corner_lo [c0, c1, c2, c3] \<le> v \<and> v \<le> corner_hi [c0, c1, c2, c3]"
  by (auto simp: between_def corner_lo_def corner_hi_def min_def max_def split: if_splits)

lemma mult_between: "a1 \<le> a \<Longrightarrow> a \<le> a2 \<Longrightarrow> between (a1 * b) (a * b) (a2 * b)"
  by (cases "0 \<le> b") (simp_all add: between_def mult_right_mono mult_right_mono_neg min_def max_def)

lemma mult_corners:
  assumes "a1 \<le> a" "a \<le> a2" "b1 \<le> b" "b \<le> b2"
  shows "corner_lo [a1 * b1, a1 * b2, a2 * b1, a2 * b2] \<le> a * b \<and> a * b \<le> corner_hi [a1 * b1, a1 * b2, a2 * b1, a2 * b2]"
proof (rule corners)
  show "between (a1 * b) (a * b) (a2 * b)" using assms(1,2) by (rule mult_between)
  show "between (a1 * b1) (a1 * b) (a1 * b2)" "between (a2 * b1) (a2 * b) (a2 * b2)"
    using mult_between [OF assms(3,4), of a1] mult_between [OF assms(3,4), of a2] by (simp_all add: mult.commute)
qed

lemma sdiv_mono: "0 < b \<Longrightarrow> a \<le> a' \<Longrightarrow> a sdiv b \<le> a' sdiv (b :: int)"
proof -
  assume b: "0 < b" and a: "a \<le> a'"
  have pos: "c sdiv b = c div b" if "0 \<le> c" for c using b that by (simp add: signed_divide_int_def sgn_if)
  have neg: "c sdiv b = - (- c div b)" if "c \<le> 0" for c using b that by (simp add: signed_divide_int_def sgn_if)
  consider "0 \<le> a" | "a' \<le> 0" | "a \<le> 0" "0 \<le> a'" using a by linarith
  then show ?thesis
  proof cases
    case 1
    then show ?thesis using a b pos by (simp add: zdiv_mono1)
  next
    case 2
    then show ?thesis using a b neg by (simp add: zdiv_mono1)
  next
    case 3
    have "0 \<le> - a div b" "0 \<le> a' div b" using 3 b by (simp_all add: pos_imp_zdiv_nonneg_iff)
    then show ?thesis using 3 pos neg by simp
  qed
qed

lemma sdiv_between_left: "b \<noteq> 0 \<Longrightarrow> a1 \<le> a \<Longrightarrow> a \<le> a2 \<Longrightarrow> between (a1 sdiv b) (a sdiv b) (a2 sdiv b)"
proof (cases "0 < b")
  case False
  assume "b \<noteq> 0" "a1 \<le> a" "a \<le> a2"
  then have "a1 sdiv (- b) \<le> a sdiv (- b)" "a sdiv (- b) \<le> a2 sdiv (- b)" using False by (intro sdiv_mono; simp)+
  then show ?thesis by (simp add: between_def)
qed (simp add: between_def sdiv_mono)

lemma sdiv_between_right:
  assumes "b1 \<le> b" "b \<le> b2" "0 < b1 \<or> b2 < 0"
  shows "between (a sdiv b1) (a sdiv b) (a sdiv b2)"
proof -
  have pos: "between (c sdiv d1) (c sdiv d) (c sdiv d2)" if d: "0 < d1" "d1 \<le> d" "d \<le> d2" for c d1 d d2 :: int
  proof -
    have m: "\<bar>c\<bar> div d2 \<le> \<bar>c\<bar> div d" "\<bar>c\<bar> div d \<le> \<bar>c\<bar> div d1" using d by (intro zdiv_mono2; simp)+
    have "c sdiv e = sgn c * (\<bar>c\<bar> div e)" if "0 < e" for e using that by (simp add: signed_divide_int_def)
    then have "c sdiv d1 = sgn c * (\<bar>c\<bar> div d1)" "c sdiv d = sgn c * (\<bar>c\<bar> div d)" "c sdiv d2 = sgn c * (\<bar>c\<bar> div d2)"
      using d by simp_all
    then show ?thesis using m by (cases "c = 0"; cases "0 < c") (simp_all add: between_def sgn_if)
  qed
  show ?thesis
  proof (cases "0 < b1")
    case True
    then show ?thesis using pos assms by simp
  next
    case False
    then have "between (a sdiv (- b2)) (a sdiv (- b)) (a sdiv (- b1))" using assms by (intro pos) simp_all
    then show ?thesis by (auto simp: between_def min_def max_def split: if_splits)
  qed
qed

lemma sdiv_corners:
  assumes "a1 \<le> a" "a \<le> a2" "b1 \<le> b" "b \<le> b2" "0 < b1 \<or> b2 < 0"
  shows "corner_lo [a1 sdiv b1, a1 sdiv b2, a2 sdiv b1, a2 sdiv b2] \<le> a sdiv b \<and>
    a sdiv b \<le> corner_hi [a1 sdiv b1, a1 sdiv b2, a2 sdiv b1, a2 sdiv b2]"
  using assms by (intro corners [of "a1 sdiv b" _ "a2 sdiv b"] sdiv_between_left sdiv_between_right) auto

section \<open>What a bound claims\<close>

text \<open>\<open>v\<close> lies in the interval, unless no interval is claimed.\<close>

definition covers :: "jbound \<Rightarrow> int \<Rightarrow> bool" where
  "covers r v \<longleftrightarrow> (jb_ok r \<and> \<not> jb_overflow r \<longrightarrow> jb_lo r \<le> v \<and> v \<le> jb_hi r)"

definition within :: "int \<Rightarrow> int \<Rightarrow> int \<Rightarrow> bool" where
  "within lo hi v \<longleftrightarrow> lo \<le> v \<and> v \<le> hi"

lemma covers_simps [simp]:
  "covers jbound_none v" "covers jbound_over v" "covers (jbound_of lo hi) v \<longleftrightarrow> within lo hi v"
  by (simp_all add: covers_def jbound_none_def jbound_over_def jbound_of_def within_def)

text \<open>On mathematical integers, and then on words because a claimed interval is within the width.\<close>

definition claims_within :: "jbound \<Rightarrow> int \<Rightarrow> int \<Rightarrow> bool" where
  "claims_within r wmin wmax \<longleftrightarrow> (jb_ok r \<and> \<not> jb_overflow r \<longrightarrow> wmin \<le> jb_lo r \<and> jb_hi r \<le> wmax)"

lemma claims_simps [simp]:
  "claims_within jbound_none wmin wmax" "claims_within jbound_over wmin wmax"
  "claims_within (jbound_of lo hi) wmin wmax \<longleftrightarrow> wmin \<le> lo \<and> hi \<le> wmax"
  by (simp_all add: claims_within_def jbound_none_def jbound_over_def jbound_of_def)

lemma claims:
  "claims_within (jbound_add a_lo a_hi b_lo b_hi wmin wmax) wmin wmax"
  "claims_within (jbound_sub a_lo a_hi b_lo b_hi wmin wmax) wmin wmax"
  "claims_within (jbound_neg a_lo a_hi wmin wmax) wmin wmax"
  "claims_within (jbound_mul a_lo a_hi b_lo b_hi wmin wmax) wmin wmax"
  by (simp_all add: jbound_add_def jbound_sub_def jbound_neg_def jbound_mul_def jbound_fits_def Let_def)

lemma covers_int:
  assumes "within a_lo a_hi x" "within b_lo b_hi y"
  shows "covers (jbound_add a_lo a_hi b_lo b_hi wmin wmax) (x + y)"
    "covers (jbound_sub a_lo a_hi b_lo b_hi wmin wmax) (x - y)"
    "covers (jbound_neg a_lo a_hi wmin wmax) (0 - x)"
    "covers (jbound_mul a_lo a_hi b_lo b_hi wmin wmax) (x * y)"
proof -
  show "covers (jbound_mul a_lo a_hi b_lo b_hi wmin wmax) (x * y)"
    using mult_corners [of a_lo x a_hi b_lo y b_hi] assms by (simp add: jbound_mul_def Let_def within_def)
qed (use assms in \<open>simp_all add: jbound_add_def jbound_sub_def jbound_neg_def Let_def within_def\<close>)

lemma covers_word:
  assumes "covers r v" "claims_within r wmin wmax" "\<And>u. wmin \<le> u \<Longrightarrow> u \<le> wmax \<Longrightarrow> f u = u"
  shows "covers r (f v)"
proof (cases "jb_ok r \<and> \<not> jb_overflow r")
  case True
  then have "f v = v" using assms by (intro assms(3)) (auto simp: covers_def claims_within_def)
  then show ?thesis using assms(1) by simp
qed (auto simp: covers_def)

lemma covers32: "covers r v \<Longrightarrow> claims_within r INT32_MIN INT32_MAX \<Longrightarrow> covers r (sint (word_of_int v :: jint))"
  by (rule covers_word [OF _ _ sint32])

lemma covers64: "covers r v \<Longrightarrow> claims_within r INT64_MIN INT64_MAX \<Longrightarrow> covers r (sint (word_of_int v :: jlong))"
  by (rule covers_word [OF _ _ sint64])


section \<open>Division and masks\<close>

lemma sdiv_in_width:
  fixes a b M :: int
  assumes "- M - 1 \<le> a" "a \<le> M" "1 \<le> M" "\<not> (a = - M - 1 \<and> b = - 1)"
  shows "- M - 1 \<le> a sdiv b" "a sdiv b \<le> M"
proof -
  have "- M - 1 \<le> a sdiv b \<and> a sdiv b \<le> M"
  proof (cases "a = - M - 1")
    case False
    then have "\<bar>a\<bar> \<le> M" using assms(1,2) by linarith
    then show ?thesis using sdiv_int_range [of a b] by auto
  next
    case True
    then have b: "b \<noteq> - 1" using assms(4) by simp
    consider "b = 0" | "b = 1" | "2 \<le> \<bar>b\<bar>" using b by linarith
    then show ?thesis
    proof cases
      case 3
      have q: "\<bar>a\<bar> div \<bar>b\<bar> \<le> \<bar>a\<bar> div 2" using 3 by (intro zdiv_mono2) simp_all
      have "0 \<le> \<bar>a\<bar> div \<bar>b\<bar>" using 3 by (simp add: pos_imp_zdiv_nonneg_iff)
      moreover have "\<bar>a\<bar> = M + 1" using True assms(3) by simp
      then have "\<bar>a\<bar> div \<bar>b\<bar> \<le> M" using q assms(3) by linarith
      ultimately obtain q where q: "0 \<le> q" "q \<le> M" "a sdiv b = sgn a * sgn b * q"
        using signed_divide_int_def [of a b] by blast
      have "\<bar>a sdiv b\<bar> \<le> M" unfolding q(3) using q(1,2) assms(3) by (simp add: sgn_if)
      then show ?thesis by linarith
    qed (use assms in \<open>simp_all add: True sdiv_int_div_0\<close>)
  qed
  then show "- M - 1 \<le> a sdiv b" "a sdiv b \<le> M" by blast+
qed

lemma sdiv_in_i64: "in_i64 a \<Longrightarrow> \<not> (a = INT64_MIN \<and> b = - 1) \<Longrightarrow> in_i64 (a sdiv b)"
  using sdiv_in_width [of INT64_MAX a b] by (simp add: in_i64_def)

lemma smod_bounds: "0 \<le> a \<Longrightarrow> 0 \<le> a smod b \<and> a smod b \<le> a" "a \<le> 0 \<Longrightarrow> a \<le> a smod b \<and> a smod b \<le> 0" for a b :: int
proof -
  have m: "0 \<le> \<bar>a\<bar> mod \<bar>b\<bar>" "\<bar>a\<bar> mod \<bar>b\<bar> \<le> \<bar>a\<bar>"
    by (cases "b = 0"; simp add: zmod_le_nonneg_dividend)+
  then show "0 \<le> a \<Longrightarrow> 0 \<le> a smod b \<and> a smod b \<le> a" "a \<le> 0 \<Longrightarrow> a \<le> a smod b \<and> a smod b \<le> 0"
    by (auto simp: signed_modulo_int_def sgn_if)
qed

lemma div_spec:
  assumes w: "INT64_MIN \<le> wmin" "wmin \<le> a_lo" "a_hi \<le> INT64_MAX" and a: "within a_lo a_hi x" and b: "within b_lo b_hi y"
  shows "\<exists>r. jbound_div a_lo a_hi b_lo b_hi wmin = Some r \<and>
    (r = jbound_none \<or> (\<exists>lo hi. r = jbound_of lo hi \<and> within lo hi (x sdiv y) \<and> \<not> (x = wmin \<and> y = - 1)))"
proof (cases "(b_lo \<le> 0 \<and> 0 \<le> b_hi) \<or> (a_lo = wmin \<and> b_lo \<le> - 1 \<and> - 1 \<le> b_hi)")
  case True
  then show ?thesis by (auto simp: jbound_div_def)
next
  case False
  have nz: "0 < b_lo \<or> b_hi < 0" "b_lo \<noteq> 0" "b_hi \<noteq> 0" using False b by (auto simp: within_def)
  have i: "in_i64 a_lo" "in_i64 a_hi" using w a by (auto simp: in_i64_def within_def)
  have ok: "\<not> (c = INT64_MIN \<and> d = - 1)" if "c = a_lo \<or> c = a_hi" "d = b_lo \<or> d = b_hi" for c d
    using that False w a b by (auto simp: within_def)
  have "c_div a_lo b_lo = Some (a_lo sdiv b_lo)" "c_div a_lo b_hi = Some (a_lo sdiv b_hi)"
    "c_div a_hi b_lo = Some (a_hi sdiv b_lo)" "c_div a_hi b_hi = Some (a_hi sdiv b_hi)"
    using nz(2,3) sdiv_in_i64 [OF i(1) ok] sdiv_in_i64 [OF i(2) ok] by (simp_all add: c_div_def c_i64_def)
  then have r: "jbound_div a_lo a_hi b_lo b_hi wmin =
      Some (jbound_of (corner_lo [a_lo sdiv b_lo, a_lo sdiv b_hi, a_hi sdiv b_lo, a_hi sdiv b_hi])
        (corner_hi [a_lo sdiv b_lo, a_lo sdiv b_hi, a_hi sdiv b_lo, a_hi sdiv b_hi]))"
    using False by (auto simp: jbound_div_def)
  have "\<not> (x = wmin \<and> y = - 1)" using False w a b by (auto simp: within_def)
  moreover have "within (corner_lo [a_lo sdiv b_lo, a_lo sdiv b_hi, a_hi sdiv b_lo, a_hi sdiv b_hi])
      (corner_hi [a_lo sdiv b_lo, a_lo sdiv b_hi, a_hi sdiv b_lo, a_hi sdiv b_hi]) (x sdiv y)"
    using sdiv_corners [of a_lo x a_hi b_lo y b_hi] a b nz(1) by (simp add: within_def)
  ultimately show ?thesis unfolding r by blast
qed

lemma rem_spec:
  assumes w: "INT64_MIN \<le> wmin" "wmin \<le> b_lo" "b_hi \<le> INT64_MAX" and a: "within a_lo a_hi x" and b: "within b_lo b_hi y"
  shows "\<exists>r. jbound_rem a_lo a_hi b_lo b_hi wmin = Some r \<and> covers r (x smod y)"
proof (cases "(b_lo \<le> 0 \<and> 0 \<le> b_hi) \<or> b_lo = wmin")
  case True
  then show ?thesis by (auto simp: jbound_rem_def)
next
  case False
  define m where "m = max \<bar>b_lo\<bar> \<bar>b_hi\<bar> - 1"
  have nz: "0 < b_lo \<or> b_hi < 0" using False b by (auto simp: within_def)
  have bs: "INT64_MIN < b_lo" "b_lo \<le> b_hi" using False w b by (auto simp: within_def)
  have m: "\<bar>y\<bar> - 1 \<le> m" "0 \<le> m" "in_i64 m" using nz b bs w(3) by (auto simp: m_def within_def in_i64_def)
  have "jbound_rem a_lo a_hi b_lo b_hi wmin =
      Some (jbound_of (if 0 \<le> a_lo then 0 else max a_lo (- m)) (if a_hi \<le> 0 then 0 else min a_hi m))"
  proof -
    have "(if b_lo < 0 then c_i64 (- b_lo) else Some b_lo) = Some \<bar>b_lo\<bar>" "(if b_hi < 0 then c_i64 (- b_hi) else Some b_hi) = Some \<bar>b_hi\<bar>"
      using bs w(3) by (auto simp: c_i64_def in_i64_def)
    then show ?thesis using False m(3) by (auto simp: jbound_rem_def m_def c_i64_def Let_def)
  qed
  moreover have "within (if 0 \<le> a_lo then 0 else max a_lo (- m)) (if a_hi \<le> 0 then 0 else min a_hi m) (x smod y)"
  proof -
    have y: "y \<noteq> 0" using nz b by (auto simp: within_def)
    have r: "\<bar>x\<bar> mod \<bar>y\<bar> < \<bar>y\<bar>" "0 \<le> \<bar>x\<bar> mod \<bar>y\<bar>" "\<bar>x\<bar> mod \<bar>y\<bar> \<le> \<bar>x\<bar>" using y by (simp_all add: zmod_le_nonneg_dividend)
    consider "x = 0" | "0 < x" | "x < 0" by linarith
    then show ?thesis
    proof cases
      case 1
      then show ?thesis using a m(2) by (auto simp: within_def)
    next
      case 2
      then have "x smod y = \<bar>x\<bar> mod \<bar>y\<bar>" by (simp add: signed_modulo_int_def)
      then show ?thesis using 2 r a m by (auto simp: within_def)
    next
      case 3
      then have "x smod y = - (\<bar>x\<bar> mod \<bar>y\<bar>)" by (simp add: signed_modulo_int_def)
      then show ?thesis using 3 r a m by (auto simp: within_def)
    qed
  qed
  ultimately show ?thesis by simp
qed

lemma and_covers:
  assumes a: "within a_lo a_hi (sint x)" and b: "within b_lo b_hi (sint (y :: 'a::len word))"
  shows "covers (jbound_and a_lo a_hi b_lo b_hi) (sint (x AND y))"
proof -
  have e: "sint (x AND y) = sint x AND sint y" by (rule signed_and_eq)
  have lo: "0 \<le> v AND u" "v AND u \<le> v" "u AND v \<le> v" "0 \<le> u AND v" if "0 \<le> v" for u v :: int
    using that by (simp_all add: AND_upper1 AND_upper2)
  show ?thesis
    using a b lo [of "sint x" "sint y"] lo [of "sint y" "sint x"]
    unfolding jbound_and_def e Let_def by (auto simp: within_def)
qed

text \<open>
  Division, remainder and masks: the interval computations return, and their claims are sound, with
  divisors that may be 0 and the overflowing quotient of the smallest number by -1 excluded from the
  claims.
\<close>

theorem jbound_div_rem_sound:
  fixes x y :: jint and u v :: jlong
  assumes "within a_lo a_hi (sint x)" "within b_lo b_hi (sint y)" "within c_lo c_hi (sint u)" "within d_lo d_hi (sint v)"
    and "INT32_MIN \<le> a_lo" "a_hi \<le> INT32_MAX" "INT32_MIN \<le> b_lo" "b_hi \<le> INT32_MAX"
    and "INT64_MIN \<le> c_lo" "c_hi \<le> INT64_MAX" "INT64_MIN \<le> d_lo" "d_hi \<le> INT64_MAX"
  shows "(\<exists>r. jbound_div a_lo a_hi b_lo b_hi INT32_MIN = Some r \<and> covers r (sint (jint_div x y))) \<and>
    (\<exists>r. jbound_rem a_lo a_hi b_lo b_hi INT32_MIN = Some r \<and> covers r (sint (jint_rem x y))) \<and>
    covers (jbound_and a_lo a_hi b_lo b_hi) (sint (jint_and x y)) \<and>
    (\<exists>r. jbound_div c_lo c_hi d_lo d_hi INT64_MIN = Some r \<and> covers r (sint (jlong_div u v))) \<and>
    (\<exists>r. jbound_rem c_lo c_hi d_lo d_hi INT64_MIN = Some r \<and> covers r (sint (jlong_rem u v)))"
proof (intro conjI)
  obtain r where r: "jbound_div a_lo a_hi b_lo b_hi INT32_MIN = Some r" "r = jbound_none \<or> (\<exists>lo hi. r = jbound_of lo hi \<and>
      within lo hi (sint x sdiv sint y) \<and> \<not> (sint x = INT32_MIN \<and> sint y = - 1))"
    using div_spec [OF _ assms(5) _ assms(1,2)] assms(6) by auto
  have "sint (jint_div x y) = sint x sdiv sint y" if "\<not> (sint x = INT32_MIN \<and> sint y = - 1)"
    using sdiv_in_width [of INT32_MAX "sint x" "sint y"] sint32_range [of x] that
    unfolding jint_div_def by (subst if_not_P, blast, intro sint32) simp_all
  then show "\<exists>r. jbound_div a_lo a_hi b_lo b_hi INT32_MIN = Some r \<and> covers r (sint (jint_div x y))" using r by auto
  have "sint (jint_rem x y) = sint x smod sint y"
  proof (cases "sint x = INT32_MIN \<and> sint y = - 1")
    case True
    then show ?thesis by (simp add: jint_rem_def signed_modulo_int_def)
  next
    case False
    then show ?thesis
      using smod_bounds [of "sint x" "sint y"] sint32_range [of x]
      unfolding jint_rem_def by (subst if_not_P, blast, intro sint32) linarith+
  qed
  then show "\<exists>r. jbound_rem a_lo a_hi b_lo b_hi INT32_MIN = Some r \<and> covers r (sint (jint_rem x y))"
    using rem_spec [OF _ assms(7) _ assms(1,2)] assms(8) by auto
  show "covers (jbound_and a_lo a_hi b_lo b_hi) (sint (jint_and x y))"
    unfolding jint_and_def by (rule and_covers [OF assms(1,2)])
  obtain q where q: "jbound_div c_lo c_hi d_lo d_hi INT64_MIN = Some q" "q = jbound_none \<or> (\<exists>lo hi. q = jbound_of lo hi \<and>
      within lo hi (sint u sdiv sint v) \<and> \<not> (sint u = INT64_MIN \<and> sint v = - 1))"
    using div_spec [OF _ assms(9) _ assms(3,4)] assms(10) by auto
  have "sint (jlong_div u v) = sint u sdiv sint v" if "\<not> (sint u = INT64_MIN \<and> sint v = - 1)"
    using sdiv_in_width [of INT64_MAX "sint u" "sint v"] sint64_range [of u] that
    unfolding jlong_div_def by (subst if_not_P, blast, intro sint64) simp_all
  then show "\<exists>r. jbound_div c_lo c_hi d_lo d_hi INT64_MIN = Some r \<and> covers r (sint (jlong_div u v))" using q by auto
  have "sint (jlong_rem u v) = sint u smod sint v"
  proof (cases "sint u = INT64_MIN \<and> sint v = - 1")
    case True
    then show ?thesis by (simp add: jlong_rem_def signed_modulo_int_def)
  next
    case False
    then show ?thesis
      using smod_bounds [of "sint u" "sint v"] sint64_range [of u]
      unfolding jlong_rem_def by (subst if_not_P, blast, intro sint64) linarith+
  qed
  then show "\<exists>r. jbound_rem c_lo c_hi d_lo d_hi INT64_MIN = Some r \<and> covers r (sint (jlong_rem u v))"
    using rem_spec [OF _ assms(11) _ assms(3,4)] assms(12) by auto
qed

section \<open>Branch narrowing\<close>

fun cmp_holds :: "jbound_cmp \<Rightarrow> int \<Rightarrow> int \<Rightarrow> bool" where
  "cmp_holds JB_LT x k \<longleftrightarrow> x < k"
| "cmp_holds JB_LE x k \<longleftrightarrow> x \<le> k"
| "cmp_holds JB_GT x k \<longleftrightarrow> k < x"
| "cmp_holds JB_GE x k \<longleftrightarrow> k \<le> x"
| "cmp_holds JB_EQ x k \<longleftrightarrow> x = k"
| "cmp_holds JB_NE x k \<longleftrightarrow> x \<noteq> k"

text \<open>
  Branch narrowing is exact: for every comparison but inequality, a value of the width lies in the
  narrowed interval iff the comparison holds against some value of the other side's interval (no
  interval is claimed iff there is none); inequality claims nothing.  Flipping and negating the
  operator are what they say.
\<close>

theorem narrow_by_cmp_exact:
  assumes "INT64_MIN \<le> wmin" "wmax \<le> INT64_MAX" "wmin \<le> k_lo" "k_lo \<le> k_hi" "k_hi \<le> wmax"
  shows "(\<exists>r. jbound_narrow_by_cmp cmp k_lo k_hi wmin wmax = Some r \<and>
      (if cmp = JB_NE then \<not> jb_ok r
       else \<forall>x. within wmin wmax x \<longrightarrow>
         ((\<exists>k. within k_lo k_hi k \<and> cmp_holds cmp x k) \<longleftrightarrow> jb_ok r \<and> within (jb_lo r) (jb_hi r) x))) \<and>
    (\<forall>x k. cmp_holds (jbound_cmp_negate cmp) x k \<longleftrightarrow> \<not> cmp_holds cmp x k) \<and>
    (\<forall>x k. cmp_holds (jbound_cmp_flip cmp) x k \<longleftrightarrow> cmp_holds cmp k x)"
proof -
  have ex: "(\<exists>k. k_lo \<le> k \<and> k \<le> k_hi \<and> x < k) \<longleftrightarrow> x < k_hi" "(\<exists>k. k_lo \<le> k \<and> k \<le> k_hi \<and> x \<le> k) \<longleftrightarrow> x \<le> k_hi"
    "(\<exists>k. k_lo \<le> k \<and> k \<le> k_hi \<and> k < x) \<longleftrightarrow> k_lo < x" "(\<exists>k. k_lo \<le> k \<and> k \<le> k_hi \<and> k \<le> x) \<longleftrightarrow> k_lo \<le> x" for x
    using assms(4) by (meson order_refl less_le_trans order_trans le_less_trans)+
  show ?thesis
  proof (cases cmp)
    case JB_LT
    then show ?thesis using assms ex(1) by (auto simp: within_def jbound_none_def jbound_of_def c_i64_def in_i64_def)
  next
    case JB_LE
    then show ?thesis using assms ex(2) by (auto simp: within_def jbound_of_def)
  next
    case JB_GT
    then show ?thesis using assms ex(3) by (auto simp: within_def jbound_none_def jbound_of_def c_i64_def in_i64_def)
  next
    case JB_GE
    then show ?thesis using assms ex(4) by (auto simp: within_def jbound_of_def)
  next
    case JB_EQ
    then show ?thesis by (auto simp: within_def jbound_of_def)
  next
    case JB_NE
    then show ?thesis by (auto simp: jbound_none_def)
  qed
qed

section \<open>The lattice\<close>

text \<open>
  The hull is the least interval that contains both arguments, the meet contains exactly the common
  values and is refused iff there are none, containment is the subset order, and narrowing to a type
  keeps an interval that fits and otherwise gives the whole type.
\<close>

theorem jbound_lattice:
  assumes "a_lo \<le> a_hi" "b_lo \<le> b_hi"
  shows "(\<forall>lo hi. jbound_contains (jb_lo (jbound_hull a_lo a_hi b_lo b_hi)) (jb_hi (jbound_hull a_lo a_hi b_lo b_hi)) lo hi \<longleftrightarrow>
        jbound_contains a_lo a_hi lo hi \<and> jbound_contains b_lo b_hi lo hi) \<and>
    (\<forall>v. jb_ok (jbound_meet a_lo a_hi b_lo b_hi) \<and>
        within (jb_lo (jbound_meet a_lo a_hi b_lo b_hi)) (jb_hi (jbound_meet a_lo a_hi b_lo b_hi)) v \<longleftrightarrow>
        within a_lo a_hi v \<and> within b_lo b_hi v) \<and>
    (jb_ok (jbound_meet a_lo a_hi b_lo b_hi) \<longleftrightarrow> (\<exists>v. within a_lo a_hi v \<and> within b_lo b_hi v)) \<and>
    (jbound_contains a_lo a_hi b_lo b_hi \<longleftrightarrow> {a_lo..a_hi} \<subseteq> {b_lo..b_hi}) \<and>
    (jbound_narrow a_lo a_hi b_lo b_hi =
       (if {a_lo..a_hi} \<subseteq> {b_lo..b_hi} then jbound_of a_lo a_hi else jbound_of b_lo b_hi))"
proof (intro conjI)
  have "max a_lo b_lo \<le> min a_hi b_hi \<longleftrightarrow> (\<exists>v. within a_lo a_hi v \<and> within b_lo b_hi v)"
    by (auto simp: within_def intro: exI [of _ "max a_lo b_lo"])
  then show "jb_ok (jbound_meet a_lo a_hi b_lo b_hi) \<longleftrightarrow> (\<exists>v. within a_lo a_hi v \<and> within b_lo b_hi v)"
    by (auto simp: jbound_meet_def jbound_of_def jbound_none_def Let_def)
qed (use assms in \<open>auto simp: jbound_hull_def jbound_meet_def jbound_contains_def jbound_narrow_def jbound_of_def
        jbound_none_def within_def Let_def\<close>)

section \<open>Well-formed bounds\<close>

definition wf_bound :: "int \<Rightarrow> int \<Rightarrow> jbound \<Rightarrow> bool" where
  "wf_bound wmin wmax r \<longleftrightarrow>
     (jb_ok r \<and> \<not> jb_overflow r \<longrightarrow> wmin \<le> jb_lo r \<and> jb_lo r \<le> jb_hi r \<and> jb_hi r \<le> wmax)"

lemma wf_simps [simp]:
  "wf_bound wmin wmax jbound_none" "wf_bound wmin wmax jbound_over"
  "wf_bound wmin wmax (jbound_of lo hi) \<longleftrightarrow> wmin \<le> lo \<and> lo \<le> hi \<and> hi \<le> wmax"
  by (simp_all add: wf_bound_def jbound_none_def jbound_over_def jbound_of_def)

lemma corner_le: "corner_lo (c # cs) \<le> corner_hi (c # cs)"
proof -
  have "foldl min m cs \<le> m" "m \<le> foldl max m cs" for m :: int
    by (induction cs arbitrary: m) (auto intro: order_trans [OF _ min.cobounded1] order_trans [OF max.cobounded1])
  then show ?thesis unfolding corner_lo_def corner_hi_def by (metis list.sel(1,3) order_trans)
qed

lemma corner_in: "list_all (\<lambda>c. wmin \<le> c \<and> c \<le> wmax) [c0, c1, c2, c3] \<Longrightarrow>
    wmin \<le> corner_lo [c0, c1, c2, c3] \<and> corner_hi [c0, c1, c2, c3] \<le> wmax"
  by (simp add: corner_lo_def corner_hi_def)

lemma wf_mul: "wf_bound wmin wmax (jbound_mul a_lo a_hi b_lo b_hi wmin wmax)"
  using corner_le [of "a_lo * b_lo" "[a_lo * b_lo, a_lo * b_hi, a_hi * b_lo, a_hi * b_hi]"]
    corner_le [of "a_lo * b_lo" "[a_lo * b_hi, a_hi * b_lo, a_hi * b_hi]"]
  by (auto simp: jbound_mul_def jbound_fits_def Let_def)

lemma wf_div:
  assumes w: "wmin = - wmax - 1" "1 \<le> wmax" "wmax \<le> INT64_MAX" and a: "wmin \<le> a_lo" "a_lo \<le> a_hi" "a_hi \<le> wmax"
    and b: "b_lo \<le> b_hi"
  shows "\<exists>r. jbound_div a_lo a_hi b_lo b_hi wmin = Some r \<and> wf_bound wmin wmax r"
proof (cases "(b_lo \<le> 0 \<and> 0 \<le> b_hi) \<or> (a_lo = wmin \<and> b_lo \<le> - 1 \<and> - 1 \<le> b_hi)")
  case True
  then show ?thesis by (auto simp: jbound_div_def)
next
  case False
  have q: "wmin \<le> c sdiv d \<and> c sdiv d \<le> wmax \<and> c_div c d = Some (c sdiv d)"
    if "c = a_lo \<or> c = a_hi" "d = b_lo \<or> d = b_hi" for c d
  proof -
    have c: "- wmax - 1 \<le> c" "c \<le> wmax" "d \<noteq> 0" "\<not> (c = - wmax - 1 \<and> d = - 1)" using that False w a b by auto
    note s = sdiv_in_width [OF c(1,2) w(2) c(4)]
    have "in_i64 (c sdiv d)" using s w by (simp add: in_i64_def)
    then show ?thesis using s c(3) w(1) by (simp add: c_div_def c_i64_def)
  qed
  let ?c = "[a_lo sdiv b_lo, a_lo sdiv b_hi, a_hi sdiv b_lo, a_hi sdiv b_hi]"
  have "jbound_div a_lo a_hi b_lo b_hi wmin = Some (jbound_of (corner_lo ?c) (corner_hi ?c))"
    using False q by (auto simp: jbound_div_def)
  moreover have "wmin \<le> corner_lo ?c \<and> corner_hi ?c \<le> wmax" using q by (intro corner_in) simp
  moreover have "corner_lo ?c \<le> corner_hi ?c" by (rule corner_le)
  ultimately show ?thesis by simp
qed

lemma wf_rem:
  assumes w: "wmin = - wmax - 1" "1 \<le> wmax" "wmax \<le> INT64_MAX" and a: "wmin \<le> a_lo" "a_lo \<le> a_hi" "a_hi \<le> wmax"
    and b: "wmin \<le> b_lo" "b_lo \<le> b_hi" "b_hi \<le> wmax"
  shows "\<exists>r. jbound_rem a_lo a_hi b_lo b_hi wmin = Some r \<and> wf_bound wmin wmax r"
proof (cases "(b_lo \<le> 0 \<and> 0 \<le> b_hi) \<or> b_lo = wmin")
  case True
  then show ?thesis by (auto simp: jbound_rem_def)
next
  case False
  define m where "m = max \<bar>b_lo\<bar> \<bar>b_hi\<bar> - 1"
  have m: "0 \<le> m" "in_i64 m" using False w b by (auto simp: m_def in_i64_def)
  have "(if b_lo < 0 then c_i64 (- b_lo) else Some b_lo) = Some \<bar>b_lo\<bar>" "(if b_hi < 0 then c_i64 (- b_hi) else Some b_hi) = Some \<bar>b_hi\<bar>"
    using False b w by (auto simp: c_i64_def in_i64_def)
  then have "jbound_rem a_lo a_hi b_lo b_hi wmin =
      Some (jbound_of (if 0 \<le> a_lo then 0 else max a_lo (- m)) (if a_hi \<le> 0 then 0 else min a_hi m))"
    using False m(2) by (auto simp: jbound_rem_def m_def c_i64_def Let_def)
  then show ?thesis using m(1) a w by auto
qed


section \<open>Witnesses\<close>


lemma jbound_div_rem_sound_witness:
  "jbound_div (- 7) 20 2 3 INT32_MIN = Some (jbound_of (- 3) 10) \<and> (\<exists>r. jbound_rem (- 7) 20 2 3 INT32_MIN = Some r \<and>
     covers r (sint (jint_rem 17 3)))"
  using jbound_div_rem_sound [of "- 7" 20 "17 :: jint" 2 3 "3 :: jint" 0 0 "0 :: jlong" 1 1 "1 :: jlong"]
  by (simp add: within_def jbound_div_def c_div_def c_i64_def in_i64_def corner_lo_def corner_hi_def)

lemma narrow_by_cmp_exact_witness:
  "\<exists>r. jbound_narrow_by_cmp JB_LT 3 8 INT32_MIN INT32_MAX = Some r \<and> jb_ok r \<and> within (jb_lo r) (jb_hi r) 7 \<and> \<not> within (jb_lo r) (jb_hi r) 8"
proof -
  obtain r where r: "jbound_narrow_by_cmp JB_LT 3 8 INT32_MIN INT32_MAX = Some r"
    "\<forall>x. within INT32_MIN INT32_MAX x \<longrightarrow>
       ((\<exists>k. within 3 8 k \<and> cmp_holds JB_LT x k) \<longleftrightarrow> jb_ok r \<and> within (jb_lo r) (jb_hi r) x)"
    using narrow_by_cmp_exact [of INT32_MIN INT32_MAX 3 8 JB_LT] by auto
  have "\<exists>k. within 3 8 k \<and> cmp_holds JB_LT 7 k" by (intro exI [of _ 8]) (simp add: within_def)
  moreover have "\<not> (\<exists>k. within 3 8 k \<and> cmp_holds JB_LT 8 k)" by (simp add: within_def)
  moreover have "within INT32_MIN INT32_MAX 7" "within INT32_MIN INT32_MAX 8" by (simp_all add: within_def)
  ultimately show ?thesis using r by blast
qed

lemma jbound_lattice_witness:
  "jb_ok (jbound_meet 1 5 4 9) \<and> within (jb_lo (jbound_meet 1 5 4 9)) (jb_hi (jbound_meet 1 5 4 9)) 4"
proof -
  have "\<forall>v. jb_ok (jbound_meet 1 5 4 9) \<and> within (jb_lo (jbound_meet 1 5 4 9)) (jb_hi (jbound_meet 1 5 4 9)) v \<longleftrightarrow>
      within 1 5 v \<and> within 4 9 v"
    by (rule jbound_lattice [of 1 5 4 9, THEN conjunct2, THEN conjunct1]) simp_all
  moreover have "within 1 5 4 \<and> within 4 9 4" by (simp add: within_def)
  ultimately show ?thesis by blast
qed


end
