(* ===== verification/Vm.thy ===== *)
theory Vm
  imports GcModel TcState
begin

text \<open>
  The state of the virtual machine and the primitives of its handlers: \<open>jav_frame.h\<close>, \<open>heap.h\<close>, and
  the value model, the operand-stack macros and the side-table walk of the generated
  \<open>gen/runtime_api.h\<close> and \<open>gen/gen_interp.c\<close>.

  A stack slot is the 16-byte union \<open>slot_t\<close>, kept as its two 64-bit halves; a write of a narrower
  view leaves the other bytes alone.  The value and locals pools are maps from indices, and a frame
  holds its bases as indices.  Pointers to instance contexts, tables and globals are positions in
  stores, a function reference is the address of its record.  The stack height is the \<open>u4\<close> of the
  code, so a pop of an empty stack wraps.
\<close>

section \<open>Values\<close>

datatype vtag = T_VOID | T_INT | T_LONG | T_FLOAT | T_DOUBLE | T_V128 | T_REF | T_GCREF

record slot =
  sl_lo :: u64
  sl_hi :: u64

record any_t =
  an_bits :: u64
  an_hi :: u64
  an_kind :: vtag

definition slot_i :: "slot \<Rightarrow> u32" where
  "slot_i s = ucast (sl_lo s)"

definition set_slot_i :: "u32 \<Rightarrow> slot \<Rightarrow> slot" where
  "set_slot_i v s = s\<lparr>sl_lo := (sl_lo s AND 0xFFFFFFFF00000000) OR ucast v\<rparr>"

definition set_slot_l :: "u64 \<Rightarrow> slot \<Rightarrow> slot" where
  "set_slot_l v s = s\<lparr>sl_lo := v\<rparr>"

definition JAV_NULLREF :: u64 where
  "JAV_NULLREF = 0"

definition jav_ref_isnull :: "u64 \<Rightarrow> bool" where
  "jav_ref_isnull r \<longleftrightarrow> r = 0"

datatype trap_reason =
    JAV_TRAP_NONE | UnreachableExecuted | NullExceptionReference | IndirectCallTypeMismatch
  | UndefinedElement | UninitializedElement | NullFunctionReference | OutOfBoundsTableAccess
  | OutOfBoundsMemoryAccess | IntegerDivideByZero | IntegerOverflow | InvalidConversionToInteger
  | NullReference | NullStructureReference | NullArrayReference | OutOfBoundsArrayAccess
  | CastFailure | NullI31Reference

datatype jav_status = JAV_OK | JAV_TRAP | JAV_RETURN

section \<open>Memories, tables, functions and instances\<close>

text \<open>The bytes of a memory are a list, whose length is the field \<open>size\<close>.\<close>

record jav_mem =
  mm_data :: "u8 list"
  mm_max :: u64
  mm_has_max :: bool
  mm_is64 :: bool

record jav_tableinst =
  ti_refs :: "u64 list"
  ti_types :: "vtag list"
  ti_max :: u32
  ti_has_max :: bool
  ti_reftype :: valtype
  ti_reftype_ht :: int
  ti_is64 :: bool

record jav_elem_seg =
  es_values :: "u64 list"
  es_types :: "vtag list"

text \<open>\<open>fn_invoke\<close> names a host or compiled entry point, whose behaviour the environment gives.\<close>

record jav_func =
  fn_code :: "u8 list"
  fn_num_params :: u32
  fn_num_locals :: u32
  fn_num_results :: u32
  fn_type_index :: u32
  fn_sidetable :: "st_entry list"
  fn_trytable :: "jav_try list"
  fn_invoke :: "nat option"
  fn_inst_ctx :: "nat option"

record instctx =
  ic_functions :: u64
  ic_num_functions :: u32
  ic_globals :: "nat list"
  ic_global_types :: "vtag list"
  ic_tables :: "nat list"
  ic_types :: "functype list"
  ic_struct_rtts :: "gc_rtt list"
  ic_field_packs :: "u8 list option list"
  ic_lattice :: "(nat \<times> subtype_ctx) option"
  ic_mem_addrs :: "nat list"
  ic_tags :: "functype list"
  ic_tag_ids :: "u32 list"
  ic_data_segs :: "u8 list list"
  ic_data_dropped :: "bool list"
  ic_elem_segs :: "jav_elem_seg list"
  ic_elem_dropped :: "bool list"

text \<open>
  \<open>ic_lattice\<close> is the address of the lattice, by which the code compares instances, and its contents.
  \<open>sizeof(jav_func_t)\<close>, is the stride of an instance's function table.
\<close>

definition FUNC_SIZE :: u64 where
  "FUNC_SIZE = 88"

definition func_at :: "instctx \<Rightarrow> u32 \<Rightarrow> u64" where
  "func_at c i = ic_functions c + ucast i * FUNC_SIZE"

section \<open>The machine\<close>

record frame =
  fr_code :: "u8 list"
  fr_pos :: nat
  fr_stack :: nat
  fr_sp :: u32
  fr_locals :: nat
  fr_num_locals :: u32
  fr_sidetable :: "st_entry list"
  fr_stp :: u32
  fr_trytable :: "jav_try list"
  fr_instr_pc :: u32
  fr_ctx :: nat

record jav_handler =
  hd_call_depth :: u32
  hd_sp :: u32
  hd_catch_stp :: u32
  hd_try_pc :: u32
  hd_end_pc :: u32
  hd_catches :: nat
  hd_ncatch :: u32

datatype vm_limit = Call_stack | Value_stack | Locals_store | Frame_locals

record vm =
  vm_frame :: frame
  vm_trapped :: bool
  vm_trap_reason :: trap_reason
  vm_exhausted :: "vm_limit option"
  vm_handlers :: "jav_handler list"
  vm_pending_exn :: u64
  vm_unwinding :: bool
  vm_tail_pending :: bool
  vm_tail_fn :: u64
  vm_tail_func :: u32
  vm_call_depth :: u32
  vm_max_call_depth :: u32
  vm_value_stack :: "nat \<Rightarrow> slot"
  vm_value_types :: "nat \<Rightarrow> vtag"
  vm_locals_store :: "nat \<Rightarrow> slot"
  vm_local_type_store :: "nat \<Rightarrow> vtag"
  vm_trap_trace :: "u32 list"
  vm_trap_pcs :: "u32 list"
  vm_mems :: "jav_mem list"
  vm_tables :: "jav_tableinst list"
  vm_globals :: "nat \<Rightarrow> slot"
  vm_inst :: "nat \<Rightarrow> instctx"
  vm_host_refs :: "nat \<Rightarrow> u64"
  vm_exn_rtts :: "(u32 \<times> gc_rtt) list"
  vm_gc :: gc_heap

text \<open>The slots that can hold a root of the collector, and the slots the embedder adds.\<close>

datatype root =
    Root_stack nat | Root_local nat | Root_global nat | Root_table nat nat | Root_elem nat nat nat
  | Root_exn | Root_host nat

text \<open>
  What a handler does at its end: jump to the dispatcher, jump to the trap continuation, enter a
  function and then jump to the dispatcher, or leave the defined behaviour of C.
\<close>

datatype vm_out = Next vm | Trapped vm | Invoke u64 vm | Fault

text \<open>
  The environment: the readers, the function records, host and compiled functions, the match of a
  function of another instance against a type through the session's registry, the handlers that the
  development does not model, the embedder's extra roots, what an uninitialised half of a slot holds, and the allocators.
\<close>

record ienv =
  ie_rd :: reader
  ie_func :: "u64 \<Rightarrow> jav_func"
  ie_invoke :: "nat \<Rightarrow> vm \<Rightarrow> (jav_status \<times> vm) option"
  ie_closed_match :: "vm \<Rightarrow> u64 \<Rightarrow> u32 \<Rightarrow> bool"
  ie_other :: "u8 \<Rightarrow> u32 \<Rightarrow> vm \<Rightarrow> vm_out"
  ie_extra_roots :: "vm \<Rightarrow> root list"
  ie_junk :: u64
  ie_os :: gc_os
  ie_malloc :: gc_malloc
  ie_realloc :: "u64 \<Rightarrow> bool"

type_synonym handler = "ienv \<Rightarrow> vm \<Rightarrow> vm_out"

abbreviation upd_frame :: "(frame \<Rightarrow> frame) \<Rightarrow> vm \<Rightarrow> vm" where
  "upd_frame f vm \<equiv> vm\<lparr>vm_frame := f (vm_frame vm)\<rparr>"

abbreviation vm_sp :: "vm \<Rightarrow> u32" where "vm_sp vm \<equiv> fr_sp (vm_frame vm)"
abbreviation vm_ctx :: "vm \<Rightarrow> instctx" where "vm_ctx vm \<equiv> vm_inst vm (fr_ctx (vm_frame vm))"

section \<open>Traps\<close>

text \<open>A fired guard, and a trap that a native raises.\<close>

definition guard_trap :: "trap_reason \<Rightarrow> vm \<Rightarrow> vm_out" where
  "guard_trap r vm = Trapped (vm\<lparr>vm_trap_reason := r\<rparr>)"

definition jav_trap_with :: "trap_reason \<Rightarrow> vm \<Rightarrow> vm" where
  "jav_trap_with r vm =
     upd_frame (\<lambda>f. f\<lparr>fr_pos := length (fr_code f)\<rparr>) (vm\<lparr>vm_trapped := True, vm_trap_reason := r\<rparr>)"

section \<open>The operand stack\<close>

text \<open>The pool index of height \<open>i\<close> of the current frame.\<close>

definition stk_at :: "vm \<Rightarrow> u32 \<Rightarrow> nat" where
  "stk_at vm i = fr_stack (vm_frame vm) + unat i"

definition set_sp :: "u32 \<Rightarrow> vm \<Rightarrow> vm" where
  "set_sp n = upd_frame (\<lambda>f. f\<lparr>fr_sp := n\<rparr>)"

definition put_slot :: "nat \<Rightarrow> slot \<Rightarrow> vtag \<Rightarrow> vm \<Rightarrow> vm" where
  "put_slot i s t vm =
     vm\<lparr>vm_value_stack := (vm_value_stack vm)(i := s), vm_value_types := (vm_value_types vm)(i := t)\<rparr>"

definition gpush_word :: "slot \<Rightarrow> vtag \<Rightarrow> vm \<Rightarrow> vm" where
  "gpush_word s t vm = set_sp (vm_sp vm + 1) (put_slot (stk_at vm (vm_sp vm)) s t vm)"

definition gpop_word :: "vm \<Rightarrow> slot \<times> vtag \<times> vm" where
  "gpop_word vm =
     (let vm = set_sp (vm_sp vm - 1) vm; i = stk_at vm (vm_sp vm)
      in (vm_value_stack vm i, vm_value_types vm i, vm))"

text \<open>The typed pushes write their view of the slot in place.\<close>

definition gpush_int :: "u32 \<Rightarrow> vm \<Rightarrow> vm" where
  "gpush_int v vm = gpush_word (set_slot_i v (vm_value_stack vm (stk_at vm (vm_sp vm)))) T_INT vm"

definition gpush_long :: "u64 \<Rightarrow> vm \<Rightarrow> vm" where
  "gpush_long v vm = gpush_word (set_slot_l v (vm_value_stack vm (stk_at vm (vm_sp vm)))) T_LONG vm"

definition gpush_float :: "u32 \<Rightarrow> vm \<Rightarrow> vm" where
  "gpush_float v vm = gpush_word (set_slot_i v (vm_value_stack vm (stk_at vm (vm_sp vm)))) T_FLOAT vm"

definition gpush_double :: "u64 \<Rightarrow> vm \<Rightarrow> vm" where
  "gpush_double v vm = gpush_word (set_slot_l v (vm_value_stack vm (stk_at vm (vm_sp vm)))) T_DOUBLE vm"

definition gpush_ref :: "u64 \<Rightarrow> vm \<Rightarrow> vm" where
  "gpush_ref v vm = gpush_word (set_slot_l v (vm_value_stack vm (stk_at vm (vm_sp vm)))) T_REF vm"

definition gpush_v128 :: "slot \<Rightarrow> vm \<Rightarrow> vm" where
  "gpush_v128 v = gpush_word v T_V128"

definition gpush_any :: "any_t \<Rightarrow> vm \<Rightarrow> vm" where
  "gpush_any a = gpush_word \<lparr>sl_lo = an_bits a, sl_hi = an_hi a\<rparr> (an_kind a)"

definition gpop_int :: "vm \<Rightarrow> u32 \<times> vm" where
  "gpop_int vm = (let (s, t, vm) = gpop_word vm in (slot_i s, vm))"

definition gpop_long :: "vm \<Rightarrow> u64 \<times> vm" where
  "gpop_long vm = (let (s, t, vm) = gpop_word vm in (sl_lo s, vm))"

text \<open>A float and a double are their bit patterns, the \<open>.f\<close> and \<open>.d\<close> views of the slot.\<close>

definition gpop_float :: "vm \<Rightarrow> u32 \<times> vm" where
  "gpop_float = gpop_int"

definition gpop_double :: "vm \<Rightarrow> u64 \<times> vm" where
  "gpop_double = gpop_long"

definition gpop_ref :: "vm \<Rightarrow> u64 \<times> vm" where
  "gpop_ref = gpop_long"

definition gpop_v128 :: "vm \<Rightarrow> slot \<times> vm" where
  "gpop_v128 vm = (let (s, t, vm) = gpop_word vm in (s, vm))"

definition gpop_any :: "vm \<Rightarrow> any_t \<times> vm" where
  "gpop_any vm = (let (s, t, vm) = gpop_word vm in (\<lparr>an_bits = sl_lo s, an_hi = sl_hi s, an_kind = t\<rparr>, vm))"

text \<open>An address or a count of a 64-bit memory or table is a long, of a 32-bit one an int.\<close>

definition gpop_addr :: "bool \<Rightarrow> vm \<Rightarrow> u64 \<times> vm" where
  "gpop_addr is64 vm = (if is64 then gpop_long vm else (let (v, vm) = gpop_int vm in (ucast v, vm)))"

definition gdrop :: "u32 \<Rightarrow> vm \<Rightarrow> vm" where
  "gdrop n vm = set_sp (vm_sp vm - n) vm"

section \<open>Immediates\<close>

definition imm_u8 :: "ienv \<Rightarrow> vm \<Rightarrow> u8 \<times> vm" where
  "imm_u8 E vm =
     (let f = vm_frame vm; (k, v, p) = r_u8 (ie_rd E) (fr_code f) (fr_pos f)
      in (v, upd_frame (\<lambda>f. f\<lparr>fr_pos := p\<rparr>) vm))"

definition imm_u32 :: "ienv \<Rightarrow> vm \<Rightarrow> u32 \<times> vm" where
  "imm_u32 E vm =
     (let f = vm_frame vm; (k, v, p) = r_u32 (ie_rd E) (fr_code f) (fr_pos f)
      in (v, upd_frame (\<lambda>f. f\<lparr>fr_pos := p\<rparr>) vm))"

definition imm_u64 :: "ienv \<Rightarrow> vm \<Rightarrow> u64 \<times> vm" where
  "imm_u64 E vm =
     (let f = vm_frame vm; (k, v, p) = r_u64 (ie_rd E) (fr_code f) (fr_pos f)
      in (v, upd_frame (\<lambda>f. f\<lparr>fr_pos := p\<rparr>) vm))"

definition imm_i32 :: "ienv \<Rightarrow> vm \<Rightarrow> int \<times> vm" where
  "imm_i32 E vm =
     (let f = vm_frame vm; (k, v, p) = r_i32 (ie_rd E) (fr_code f) (fr_pos f)
      in (v, upd_frame (\<lambda>f. f\<lparr>fr_pos := p\<rparr>) vm))"

definition imm_i64 :: "ienv \<Rightarrow> vm \<Rightarrow> int \<times> vm" where
  "imm_i64 E vm =
     (let f = vm_frame vm; (k, v, p) = r_i64 (ie_rd E) (fr_code f) (fr_pos f)
      in (v, upd_frame (\<lambda>f. f\<lparr>fr_pos := p\<rparr>) vm))"

section \<open>The side-table walk\<close>

text \<open>
  A taken branch keeps the top \<open>vals\<close> slots, drops the \<open>pop\<close> slots beneath them, one slot at a time
  from below, and moves the two cursors by their deltas.
\<close>

definition move_slot :: "u32 \<Rightarrow> u32 \<Rightarrow> vm \<Rightarrow> vm" where
  "move_slot dst src vm =
     put_slot (stk_at vm dst) (vm_value_stack vm (stk_at vm src)) (vm_value_types vm (stk_at vm src)) vm"

definition opgen_do_transfer :: "vm \<Rightarrow> vm option" where
  "opgen_do_transfer vm =
     (let f = vm_frame vm in
      if length (fr_sidetable f) \<le> unat (fr_stp f) then None
      else
        let e = fr_sidetable f ! unat (fr_stp f); vals = ucast (se_vals e) :: u32; pop = ucast (se_pop e) :: u32;
            vm = (if pop = 0 then vm
                  else gdrop pop (fold (\<lambda>i. move_slot (vm_sp vm - vals - pop + word_of_nat i) (vm_sp vm - vals + word_of_nat i))
                                    [0..<unat vals] vm))
        in Some (upd_frame (\<lambda>f. f\<lparr>fr_pos := unat (word_of_int (int (fr_pos f) + se_delta_ip e) :: u64),
                                  fr_stp := word_of_int (int (unat (fr_stp f)) + se_delta_stp e)\<rparr>) vm))"

end
