(* ===== verification/VmNum.thy ===== *)
theory VmNum
  imports Vm "HOL-Library.Signed_Division"
begin

text \<open>
  The interpreter's handlers for constants, variables, integer arithmetic and comparisons, conversions
  between integers and of bit patterns, and the parametric instructions, as \<open>gen/gen_interp.c\<close> has
  them: pop the operands, test the guards, push the result.
\<close>

definition set_local :: "u32 \<Rightarrow> slot \<Rightarrow> vtag \<Rightarrow> vm \<Rightarrow> vm" where
  "set_local i s t vm =
     (let j = fr_locals (vm_frame vm) + unat i in
      vm\<lparr>vm_locals_store := (vm_locals_store vm)(j := s),
         vm_local_type_store := (vm_local_type_store vm)(j := t)\<rparr>)"

definition set_global :: "u32 \<Rightarrow> slot \<Rightarrow> vtag \<Rightarrow> vm \<Rightarrow> vm" where
  "set_global i s t vm =
     (let ci = fr_ctx (vm_frame vm); c = vm_inst vm ci in
      vm\<lparr>vm_globals := (vm_globals vm)(ic_globals c ! unat i := s),
         vm_inst := (vm_inst vm)(ci := c\<lparr>ic_global_types := (ic_global_types c)[unat i := t]\<rparr>)\<rparr>)"

text \<open>The bit-counting builtins of the compiler.\<close>

definition builtin_clz :: "'a :: len word \<Rightarrow> nat" where
  "builtin_clz a = length (takeWhile (\<lambda>i. \<not> bit a i) (rev [0..<LENGTH('a)]))"

definition builtin_ctz :: "'a :: len word \<Rightarrow> nat" where
  "builtin_ctz a = length (takeWhile (\<lambda>i. \<not> bit a i) [0..<LENGTH('a)])"

definition builtin_popcount :: "'a :: len word \<Rightarrow> nat" where
  "builtin_popcount a = length (filter (bit a) [0..<LENGTH('a)])"

section \<open>Constants, locals and globals\<close>

definition gen_op_i32_const :: handler where
  "gen_op_i32_const E vm = 
     (let (v, vm) = imm_i32 E vm in Next (gpush_int (word_of_int v) vm))"

definition gen_op_i64_const :: handler where
  "gen_op_i64_const E vm = 
     (let (v, vm) = imm_i64 E vm in Next (gpush_long (word_of_int v) vm))"

definition gen_op_local_get :: handler where
  "gen_op_local_get E vm = 
     (let (i, vm) = imm_u32 E vm; j = fr_locals (vm_frame vm) + unat i
      in Next (gpush_word (vm_locals_store vm j) (vm_local_type_store vm j) vm))"

definition gen_op_local_set :: handler where
  "gen_op_local_set E vm = 
     (let (i, vm) = imm_u32 E vm; (s, t, vm) = gpop_word vm in Next (set_local i s t vm))"

definition gen_op_local_tee :: handler where
  "gen_op_local_tee E vm = 
     (let (i, vm) = imm_u32 E vm; (s, t, vm) = gpop_word vm
      in Next (gpush_word s t (set_local i s t vm)))"

definition gen_op_global_get :: handler where
  "gen_op_global_get E vm = 
     (let (i, vm) = imm_u32 E vm; c = vm_ctx vm in
      if length (ic_globals c) \<le> unat i \<or> length (ic_global_types c) \<le> unat i then Fault
      else Next (gpush_word (vm_globals vm (ic_globals c ! unat i)) (ic_global_types c ! unat i) vm))"

definition gen_op_global_set :: handler where
  "gen_op_global_set E vm = 
     (let (i, vm) = imm_u32 E vm; (s, t, vm) = gpop_word vm; c = vm_ctx vm in
      if length (ic_globals c) \<le> unat i \<or> length (ic_global_types c) \<le> unat i then Fault
      else Next (set_global i s t vm))"

section \<open>Integer arithmetic\<close>

definition gen_op_i32_add :: handler where
  "gen_op_i32_add E vm = 
     (let (b, vm) = gpop_int vm; (a, vm) = gpop_int vm
      in Next (gpush_int (a + b) vm))"

definition gen_op_i64_add :: handler where
  "gen_op_i64_add E vm = 
     (let (b, vm) = gpop_long vm; (a, vm) = gpop_long vm
      in Next (gpush_long (a + b) vm))"

definition gen_op_i32_sub :: handler where
  "gen_op_i32_sub E vm = 
     (let (b, vm) = gpop_int vm; (a, vm) = gpop_int vm
      in Next (gpush_int (a - b) vm))"

definition gen_op_i64_sub :: handler where
  "gen_op_i64_sub E vm = 
     (let (b, vm) = gpop_long vm; (a, vm) = gpop_long vm
      in Next (gpush_long (a - b) vm))"

definition gen_op_i32_mul :: handler where
  "gen_op_i32_mul E vm = 
     (let (b, vm) = gpop_int vm; (a, vm) = gpop_int vm
      in Next (gpush_int (a * b) vm))"

definition gen_op_i64_mul :: handler where
  "gen_op_i64_mul E vm = 
     (let (b, vm) = gpop_long vm; (a, vm) = gpop_long vm
      in Next (gpush_long (a * b) vm))"

definition gen_op_i32_and :: handler where
  "gen_op_i32_and E vm = 
     (let (b, vm) = gpop_int vm; (a, vm) = gpop_int vm
      in Next (gpush_int (a AND b) vm))"

definition gen_op_i64_and :: handler where
  "gen_op_i64_and E vm = 
     (let (b, vm) = gpop_long vm; (a, vm) = gpop_long vm
      in Next (gpush_long (a AND b) vm))"

definition gen_op_i32_or :: handler where
  "gen_op_i32_or E vm = 
     (let (b, vm) = gpop_int vm; (a, vm) = gpop_int vm
      in Next (gpush_int (a OR b) vm))"

definition gen_op_i64_or :: handler where
  "gen_op_i64_or E vm = 
     (let (b, vm) = gpop_long vm; (a, vm) = gpop_long vm
      in Next (gpush_long (a OR b) vm))"

definition gen_op_i32_xor :: handler where
  "gen_op_i32_xor E vm = 
     (let (b, vm) = gpop_int vm; (a, vm) = gpop_int vm
      in Next (gpush_int (a XOR b) vm))"

definition gen_op_i64_xor :: handler where
  "gen_op_i64_xor E vm = 
     (let (b, vm) = gpop_long vm; (a, vm) = gpop_long vm
      in Next (gpush_long (a XOR b) vm))"

definition gen_op_i32_div_s :: handler where
  "gen_op_i32_div_s E vm = 
     (let (b, vm) = gpop_int vm; (a, vm) = gpop_int vm in
      if b = 0 then guard_trap IntegerDivideByZero vm
      else if b = - 1 \<and> a = push_bit 31 1 then guard_trap IntegerOverflow vm
      else Next (gpush_int (word_of_int (sint a sdiv sint b)) vm))"

definition gen_op_i64_div_s :: handler where
  "gen_op_i64_div_s E vm = 
     (let (b, vm) = gpop_long vm; (a, vm) = gpop_long vm in
      if b = 0 then guard_trap IntegerDivideByZero vm
      else if b = - 1 \<and> a = push_bit 63 1 then guard_trap IntegerOverflow vm
      else Next (gpush_long (word_of_int (sint a sdiv sint b)) vm))"

definition gen_op_i32_div_u :: handler where
  "gen_op_i32_div_u E vm = 
     (let (b, vm) = gpop_int vm; (a, vm) = gpop_int vm in
      if b = 0 then guard_trap IntegerDivideByZero vm
      else Next (gpush_int (a div b) vm))"

definition gen_op_i64_div_u :: handler where
  "gen_op_i64_div_u E vm = 
     (let (b, vm) = gpop_long vm; (a, vm) = gpop_long vm in
      if b = 0 then guard_trap IntegerDivideByZero vm
      else Next (gpush_long (a div b) vm))"

definition gen_op_i32_rem_s :: handler where
  "gen_op_i32_rem_s E vm = 
     (let (b, vm) = gpop_int vm; (a, vm) = gpop_int vm in
      if b = 0 then guard_trap IntegerDivideByZero vm
      else Next (gpush_int (if b = - 1 then 0 else word_of_int (sint a smod sint b)) vm))"

definition gen_op_i64_rem_s :: handler where
  "gen_op_i64_rem_s E vm = 
     (let (b, vm) = gpop_long vm; (a, vm) = gpop_long vm in
      if b = 0 then guard_trap IntegerDivideByZero vm
      else Next (gpush_long (if b = - 1 then 0 else word_of_int (sint a smod sint b)) vm))"

definition gen_op_i32_rem_u :: handler where
  "gen_op_i32_rem_u E vm = 
     (let (b, vm) = gpop_int vm; (a, vm) = gpop_int vm in
      if b = 0 then guard_trap IntegerDivideByZero vm
      else Next (gpush_int (a mod b) vm))"

definition gen_op_i64_rem_u :: handler where
  "gen_op_i64_rem_u E vm = 
     (let (b, vm) = gpop_long vm; (a, vm) = gpop_long vm in
      if b = 0 then guard_trap IntegerDivideByZero vm
      else Next (gpush_long (a mod b) vm))"

definition gen_op_i32_shl :: handler where
  "gen_op_i32_shl E vm = 
     (let (b, vm) = gpop_int vm; (a, vm) = gpop_int vm
      in Next (gpush_int (push_bit (unat (b AND 31)) a) vm))"

definition gen_op_i64_shl :: handler where
  "gen_op_i64_shl E vm = 
     (let (b, vm) = gpop_long vm; (a, vm) = gpop_long vm
      in Next (gpush_long (push_bit (unat (b AND 63)) a) vm))"

definition gen_op_i32_shr_s :: handler where
  "gen_op_i32_shr_s E vm = 
     (let (b, vm) = gpop_int vm; (a, vm) = gpop_int vm
      in Next (gpush_int (signed_drop_bit (unat (b AND 31)) a) vm))"

definition gen_op_i64_shr_s :: handler where
  "gen_op_i64_shr_s E vm = 
     (let (b, vm) = gpop_long vm; (a, vm) = gpop_long vm
      in Next (gpush_long (signed_drop_bit (unat (b AND 63)) a) vm))"

definition gen_op_i32_shr_u :: handler where
  "gen_op_i32_shr_u E vm = 
     (let (b, vm) = gpop_int vm; (a, vm) = gpop_int vm
      in Next (gpush_int (drop_bit (unat (b AND 31)) a) vm))"

definition gen_op_i64_shr_u :: handler where
  "gen_op_i64_shr_u E vm = 
     (let (b, vm) = gpop_long vm; (a, vm) = gpop_long vm
      in Next (gpush_long (drop_bit (unat (b AND 63)) a) vm))"

definition gen_op_i32_rotl :: handler where
  "gen_op_i32_rotl E vm = 
     (let (b, vm) = gpop_int vm; (a, vm) = gpop_int vm
      in Next (gpush_int (push_bit (unat (b AND 31)) a OR drop_bit (unat (32 - (b AND 31) AND 31)) a) vm))"

definition gen_op_i64_rotl :: handler where
  "gen_op_i64_rotl E vm = 
     (let (b, vm) = gpop_long vm; (a, vm) = gpop_long vm
      in Next (gpush_long (push_bit (unat (b AND 63)) a OR drop_bit (unat (64 - (b AND 63) AND 63)) a) vm))"

definition gen_op_i32_rotr :: handler where
  "gen_op_i32_rotr E vm = 
     (let (b, vm) = gpop_int vm; (a, vm) = gpop_int vm
      in Next (gpush_int (drop_bit (unat (b AND 31)) a OR push_bit (unat (32 - (b AND 31) AND 31)) a) vm))"

definition gen_op_i64_rotr :: handler where
  "gen_op_i64_rotr E vm = 
     (let (b, vm) = gpop_long vm; (a, vm) = gpop_long vm
      in Next (gpush_long (drop_bit (unat (b AND 63)) a OR push_bit (unat (64 - (b AND 63) AND 63)) a) vm))"

definition gen_op_i32_clz :: handler where
  "gen_op_i32_clz E vm = 
     (let (a, vm) = gpop_int vm in Next (gpush_int (if a = 0 then 32 else word_of_nat (builtin_clz a)) vm))"

definition gen_op_i32_ctz :: handler where
  "gen_op_i32_ctz E vm = 
     (let (a, vm) = gpop_int vm in Next (gpush_int (if a = 0 then 32 else word_of_nat (builtin_ctz a)) vm))"

definition gen_op_i32_popcnt :: handler where
  "gen_op_i32_popcnt E vm = 
     (let (a, vm) = gpop_int vm in Next (gpush_int (word_of_nat (builtin_popcount a)) vm))"

definition gen_op_i64_clz :: handler where
  "gen_op_i64_clz E vm = 
     (let (a, vm) = gpop_long vm in Next (gpush_long (if a = 0 then 64 else word_of_nat (builtin_clz a)) vm))"

definition gen_op_i64_ctz :: handler where
  "gen_op_i64_ctz E vm = 
     (let (a, vm) = gpop_long vm in Next (gpush_long (if a = 0 then 64 else word_of_nat (builtin_ctz a)) vm))"

definition gen_op_i64_popcnt :: handler where
  "gen_op_i64_popcnt E vm = 
     (let (a, vm) = gpop_long vm in Next (gpush_long (word_of_nat (builtin_popcount a)) vm))"

section \<open>Comparisons\<close>

definition gen_op_i32_eq :: handler where
  "gen_op_i32_eq E vm = 
     (let (b, vm) = gpop_int vm; (a, vm) = gpop_int vm
      in Next (gpush_int (if a = b then 1 else 0) vm))"

definition gen_op_i64_eq :: handler where
  "gen_op_i64_eq E vm = 
     (let (b, vm) = gpop_long vm; (a, vm) = gpop_long vm
      in Next (gpush_int (if a = b then 1 else 0) vm))"

definition gen_op_i32_ne :: handler where
  "gen_op_i32_ne E vm = 
     (let (b, vm) = gpop_int vm; (a, vm) = gpop_int vm
      in Next (gpush_int (if a \<noteq> b then 1 else 0) vm))"

definition gen_op_i64_ne :: handler where
  "gen_op_i64_ne E vm = 
     (let (b, vm) = gpop_long vm; (a, vm) = gpop_long vm
      in Next (gpush_int (if a \<noteq> b then 1 else 0) vm))"

definition gen_op_i32_lt_s :: handler where
  "gen_op_i32_lt_s E vm = 
     (let (b, vm) = gpop_int vm; (a, vm) = gpop_int vm
      in Next (gpush_int (if a <s b then 1 else 0) vm))"

definition gen_op_i64_lt_s :: handler where
  "gen_op_i64_lt_s E vm = 
     (let (b, vm) = gpop_long vm; (a, vm) = gpop_long vm
      in Next (gpush_int (if a <s b then 1 else 0) vm))"

definition gen_op_i32_gt_s :: handler where
  "gen_op_i32_gt_s E vm = 
     (let (b, vm) = gpop_int vm; (a, vm) = gpop_int vm
      in Next (gpush_int (if b <s a then 1 else 0) vm))"

definition gen_op_i64_gt_s :: handler where
  "gen_op_i64_gt_s E vm = 
     (let (b, vm) = gpop_long vm; (a, vm) = gpop_long vm
      in Next (gpush_int (if b <s a then 1 else 0) vm))"

definition gen_op_i32_le_s :: handler where
  "gen_op_i32_le_s E vm = 
     (let (b, vm) = gpop_int vm; (a, vm) = gpop_int vm
      in Next (gpush_int (if a \<le>s b then 1 else 0) vm))"

definition gen_op_i64_le_s :: handler where
  "gen_op_i64_le_s E vm = 
     (let (b, vm) = gpop_long vm; (a, vm) = gpop_long vm
      in Next (gpush_int (if a \<le>s b then 1 else 0) vm))"

definition gen_op_i32_ge_s :: handler where
  "gen_op_i32_ge_s E vm = 
     (let (b, vm) = gpop_int vm; (a, vm) = gpop_int vm
      in Next (gpush_int (if b \<le>s a then 1 else 0) vm))"

definition gen_op_i64_ge_s :: handler where
  "gen_op_i64_ge_s E vm = 
     (let (b, vm) = gpop_long vm; (a, vm) = gpop_long vm
      in Next (gpush_int (if b \<le>s a then 1 else 0) vm))"

definition gen_op_i32_lt_u :: handler where
  "gen_op_i32_lt_u E vm = 
     (let (b, vm) = gpop_int vm; (a, vm) = gpop_int vm
      in Next (gpush_int (if a < b then 1 else 0) vm))"

definition gen_op_i64_lt_u :: handler where
  "gen_op_i64_lt_u E vm = 
     (let (b, vm) = gpop_long vm; (a, vm) = gpop_long vm
      in Next (gpush_int (if a < b then 1 else 0) vm))"

definition gen_op_i32_gt_u :: handler where
  "gen_op_i32_gt_u E vm = 
     (let (b, vm) = gpop_int vm; (a, vm) = gpop_int vm
      in Next (gpush_int (if b < a then 1 else 0) vm))"

definition gen_op_i64_gt_u :: handler where
  "gen_op_i64_gt_u E vm = 
     (let (b, vm) = gpop_long vm; (a, vm) = gpop_long vm
      in Next (gpush_int (if b < a then 1 else 0) vm))"

definition gen_op_i32_le_u :: handler where
  "gen_op_i32_le_u E vm = 
     (let (b, vm) = gpop_int vm; (a, vm) = gpop_int vm
      in Next (gpush_int (if a \<le> b then 1 else 0) vm))"

definition gen_op_i64_le_u :: handler where
  "gen_op_i64_le_u E vm = 
     (let (b, vm) = gpop_long vm; (a, vm) = gpop_long vm
      in Next (gpush_int (if a \<le> b then 1 else 0) vm))"

definition gen_op_i32_ge_u :: handler where
  "gen_op_i32_ge_u E vm = 
     (let (b, vm) = gpop_int vm; (a, vm) = gpop_int vm
      in Next (gpush_int (if b \<le> a then 1 else 0) vm))"

definition gen_op_i64_ge_u :: handler where
  "gen_op_i64_ge_u E vm = 
     (let (b, vm) = gpop_long vm; (a, vm) = gpop_long vm
      in Next (gpush_int (if b \<le> a then 1 else 0) vm))"

definition gen_op_i32_eqz :: handler where
  "gen_op_i32_eqz E vm = 
     (let (a, vm) = gpop_int vm in Next (gpush_int (if a = 0 then 1 else 0) vm))"

definition gen_op_i64_eqz :: handler where
  "gen_op_i64_eqz E vm = 
     (let (a, vm) = gpop_long vm in Next (gpush_int (if a = 0 then 1 else 0) vm))"

section \<open>Conversions\<close>

definition gen_op_i32_wrap_i64 :: handler where
  "gen_op_i32_wrap_i64 E vm = 
     (let (a, vm) = gpop_long vm in Next (gpush_int (ucast a) vm))"

definition gen_op_i64_extend_i32_s :: handler where
  "gen_op_i64_extend_i32_s E vm = 
     (let (a, vm) = gpop_int vm in Next (gpush_long (scast a) vm))"

definition gen_op_i64_extend_i32_u :: handler where
  "gen_op_i64_extend_i32_u E vm = 
     (let (a, vm) = gpop_int vm in Next (gpush_long (ucast a) vm))"

definition gen_op_i32_extend8_s :: handler where
  "gen_op_i32_extend8_s E vm = 
     (let (a, vm) = gpop_int vm in Next (gpush_int (scast (ucast a :: u8)) vm))"

definition gen_op_i32_extend16_s :: handler where
  "gen_op_i32_extend16_s E vm = 
     (let (a, vm) = gpop_int vm in Next (gpush_int (scast (ucast a :: u16)) vm))"

definition gen_op_i64_extend8_s :: handler where
  "gen_op_i64_extend8_s E vm = 
     (let (a, vm) = gpop_long vm in Next (gpush_long (scast (ucast a :: u8)) vm))"

definition gen_op_i64_extend16_s :: handler where
  "gen_op_i64_extend16_s E vm = 
     (let (a, vm) = gpop_long vm in Next (gpush_long (scast (ucast a :: u16)) vm))"

definition gen_op_i64_extend32_s :: handler where
  "gen_op_i64_extend32_s E vm = 
     (let (a, vm) = gpop_long vm in Next (gpush_long (scast (ucast a :: u32)) vm))"

definition gen_op_i32_reinterpret_f32 :: handler where
  "gen_op_i32_reinterpret_f32 E vm = 
     (let (a, vm) = gpop_float vm in Next (gpush_int (a) vm))"

definition gen_op_i64_reinterpret_f64 :: handler where
  "gen_op_i64_reinterpret_f64 E vm = 
     (let (a, vm) = gpop_double vm in Next (gpush_long (a) vm))"

definition gen_op_f32_reinterpret_i32 :: handler where
  "gen_op_f32_reinterpret_i32 E vm = 
     (let (a, vm) = gpop_int vm in Next (gpush_float (a) vm))"

definition gen_op_f64_reinterpret_i64 :: handler where
  "gen_op_f64_reinterpret_i64 E vm = 
     (let (a, vm) = gpop_long vm in Next (gpush_double (a) vm))"

definition gen_op_f32_neg :: handler where
  "gen_op_f32_neg E vm = 
     (let (a, vm) = gpop_float vm in Next (gpush_float (a XOR push_bit 31 1) vm))"

definition gen_op_f64_neg :: handler where
  "gen_op_f64_neg E vm = 
     (let (a, vm) = gpop_double vm in Next (gpush_double (a XOR push_bit 63 1) vm))"

section \<open>Parametric instructions\<close>

definition gen_op_nop :: handler where
  "gen_op_nop E vm = Next vm"

definition gen_op_unreachable :: handler where
  "gen_op_unreachable E vm = guard_trap UnreachableExecuted vm"

definition gen_op_drop :: handler where
  "gen_op_drop E vm = Next (gdrop 1 vm)"

definition gen_op_select :: handler where
  "gen_op_select E vm = 
     (let (c, vm) = gpop_int vm; (s2, t2, vm) = gpop_word vm; (s1, t1, vm) = gpop_word vm
      in Next (gpush_word (if c \<noteq> 0 then s1 else s2) (if c \<noteq> 0 then t1 else t2) vm))"

fun skip_valtypes :: "ienv \<Rightarrow> nat \<Rightarrow> vm \<Rightarrow> vm" where
  "skip_valtypes E 0 vm = vm"
| "skip_valtypes E (Suc n) vm =
     (let (b, vm) = imm_u8 E vm;
          vm = (if b = 0x63 \<or> b = 0x64 then snd (imm_i32 E vm) else vm)
      in skip_valtypes E n vm)"

definition gen_op_select_t :: handler where
  "gen_op_select_t E vm = 
     (let (n, vm) = imm_u32 E vm; vm = skip_valtypes E (unat n) vm;
          (c, vm) = gpop_int vm; (s2, t2, vm) = gpop_word vm; (s1, t1, vm) = gpop_word vm
      in Next (gpush_word (if c \<noteq> 0 then s1 else s2) (if c \<noteq> 0 then t1 else t2) vm))"

end
