(* ===== verification/VmMem.thy ===== *)
theory VmMem
  imports Vm
begin

text \<open>
  Linear memories and tables: the accessors of \<open>jav_mem.h\<close>, the natives of \<open>jav_runtime.c\<close> that
  create, grow, fill, copy and initialise, and the handlers of \<open>gen/gen_interp.c\<close> that call them.
  A read or write outside the storage is \<open>None\<close>, and the handler ends in \<open>Fault\<close>.
\<close>

section \<open>Bytes\<close>

text \<open>What a fixed-size \<open>memcpy\<close> between bytes and an integer does on a little-endian host.\<close>

fun le_val :: "u8 list \<Rightarrow> nat" where
  "le_val [] = 0"
| "le_val (b # bs) = unat b + 256 * le_val bs"

definition le_bytes :: "nat \<Rightarrow> 'a :: len word \<Rightarrow> u8 list" where
  "le_bytes n w = map (\<lambda>k. ucast (drop_bit (8 * k) w)) [0..<n]"

definition le_word :: "u8 list \<Rightarrow> 'a :: len word" where
  "le_word bs = word_of_nat (le_val bs)"

section \<open>Memories\<close>

definition PAGE :: nat where
  "PAGE = 65536"

definition JAV_MAX_MEMORY_PAGES :: u64 where
  "JAV_MAX_MEMORY_PAGES = 2 ^ 20"

definition mm_size :: "jav_mem \<Rightarrow> u64" where
  "mm_size m = word_of_nat (length (mm_data m))"

text \<open>The store memory of a module's memory index, through the instance's addresses.\<close>

definition mem_at :: "vm \<Rightarrow> u32 \<Rightarrow> nat option" where
  "mem_at vm mi =
     (let as = ic_mem_addrs (vm_ctx vm) in
      if length as \<le> unat mi then None
      else if as ! unat mi < length (vm_mems vm) then Some (as ! unat mi) else None)"

definition mem_of :: "vm \<Rightarrow> u32 \<Rightarrow> jav_mem option" where
  "mem_of vm mi = map_option ((!) (vm_mems vm)) (mem_at vm mi)"

definition mem_ok :: "jav_mem option \<Rightarrow> u64 \<Rightarrow> u64 \<Rightarrow> bool" where
  "mem_ok m ea n = (case m of None \<Rightarrow> False | Some m \<Rightarrow> ea \<le> mm_size m \<and> n \<le> mm_size m - ea)"

definition mem_in_bounds :: "vm \<Rightarrow> u32 \<Rightarrow> u64 \<Rightarrow> u64 \<Rightarrow> bool" where
  "mem_in_bounds vm mi ea n = mem_ok (mem_of vm mi) ea n"

definition mem_pages :: "vm \<Rightarrow> u32 \<Rightarrow> u64" where
  "mem_pages vm mi = (case mem_of vm mi of None \<Rightarrow> 0 | Some m \<Rightarrow> mm_size m div 65536)"

definition mem_is64 :: "vm \<Rightarrow> u32 \<Rightarrow> bool" where
  "mem_is64 vm mi = (case mem_of vm mi of None \<Rightarrow> False | Some m \<Rightarrow> mm_is64 m)"

definition data_seg_len :: "vm \<Rightarrow> u32 \<Rightarrow> u64" where
  "data_seg_len vm seg =
     (let c = vm_ctx vm in
      if length (ic_data_segs c) \<le> unat seg then 0
      else if ic_data_dropped c ! unat seg then 0 else word_of_nat (length (ic_data_segs c ! unat seg)))"

definition elem_seg_len :: "vm \<Rightarrow> u32 \<Rightarrow> u64" where
  "elem_seg_len vm seg =
     (let c = vm_ctx vm in
      if length (ic_elem_segs c) \<le> unat seg then 0
      else if ic_elem_dropped c ! unat seg then 0
      else word_of_nat (length (es_values (ic_elem_segs c ! unat seg))))"

text \<open>The bytes of an access, and the memory after a write.\<close>

definition mem_read :: "nat \<Rightarrow> vm \<Rightarrow> u32 \<Rightarrow> u64 \<Rightarrow> u8 list option" where
  "mem_read n vm mi ea =
     (case mem_of vm mi of
        None \<Rightarrow> None
      | Some m \<Rightarrow>
          if unat ea + n \<le> length (mm_data m) then Some (take n (drop (unat ea) (mm_data m))) else None)"

definition splice :: "nat \<Rightarrow> 'a list \<Rightarrow> 'a list \<Rightarrow> 'a list" where
  "splice i xs ys = take i ys @ xs @ drop (i + length xs) ys"

definition mem_write :: "vm \<Rightarrow> u32 \<Rightarrow> u64 \<Rightarrow> u8 list \<Rightarrow> vm option" where
  "mem_write vm mi ea bs =
     (case mem_at vm mi of
        None \<Rightarrow> None
      | Some a \<Rightarrow>
          let m = vm_mems vm ! a in
          if unat ea + length bs \<le> length (mm_data m)
          then Some (vm\<lparr>vm_mems := (vm_mems vm)[a := m\<lparr>mm_data := splice (unat ea) bs (mm_data m)\<rparr>]\<rparr>)
          else None)"

section \<open>Loads and stores\<close>

definition mem_load_i32 :: "vm \<Rightarrow> u32 \<Rightarrow> u64 \<Rightarrow> u32 option" where
  "mem_load_i32 vm mi ea = map_option (\<lambda>bs. le_word bs) (mem_read 4 vm mi ea)"

definition mem_load_i8 :: "vm \<Rightarrow> u32 \<Rightarrow> u64 \<Rightarrow> u32 option" where
  "mem_load_i8 vm mi ea = map_option (\<lambda>bs. scast (le_word bs :: u8)) (mem_read 1 vm mi ea)"

definition mem_load_i16 :: "vm \<Rightarrow> u32 \<Rightarrow> u64 \<Rightarrow> u32 option" where
  "mem_load_i16 vm mi ea = map_option (\<lambda>bs. scast (le_word bs :: u16)) (mem_read 2 vm mi ea)"

definition mem_load_i64 :: "vm \<Rightarrow> u32 \<Rightarrow> u64 \<Rightarrow> u64 option" where
  "mem_load_i64 vm mi ea = map_option (\<lambda>bs. le_word bs) (mem_read 8 vm mi ea)"

definition mem_load_f32 :: "vm \<Rightarrow> u32 \<Rightarrow> u64 \<Rightarrow> u32 option" where
  "mem_load_f32 vm mi ea = map_option (\<lambda>bs. le_word bs) (mem_read 4 vm mi ea)"

definition mem_load_f64 :: "vm \<Rightarrow> u32 \<Rightarrow> u64 \<Rightarrow> u64 option" where
  "mem_load_f64 vm mi ea = map_option (\<lambda>bs. le_word bs) (mem_read 8 vm mi ea)"

definition mem_load_v128 :: "vm \<Rightarrow> u32 \<Rightarrow> u64 \<Rightarrow> slot option" where
  "mem_load_v128 vm mi ea = map_option (\<lambda>bs. \<lparr>sl_lo = le_word (take 8 bs), sl_hi = le_word (drop 8 bs)\<rparr>) (mem_read 16 vm mi ea)"

definition mem_load_i32_8u :: "vm \<Rightarrow> u32 \<Rightarrow> u64 \<Rightarrow> u32 option" where
  "mem_load_i32_8u vm mi ea = map_option (\<lambda>bs. ucast (le_word bs :: u8)) (mem_read 1 vm mi ea)"

definition mem_load_i32_16u :: "vm \<Rightarrow> u32 \<Rightarrow> u64 \<Rightarrow> u32 option" where
  "mem_load_i32_16u vm mi ea = map_option (\<lambda>bs. ucast (le_word bs :: u16)) (mem_read 2 vm mi ea)"

definition mem_load_i64_8s :: "vm \<Rightarrow> u32 \<Rightarrow> u64 \<Rightarrow> u64 option" where
  "mem_load_i64_8s vm mi ea = map_option (\<lambda>bs. scast (le_word bs :: u8)) (mem_read 1 vm mi ea)"

definition mem_load_i64_8u :: "vm \<Rightarrow> u32 \<Rightarrow> u64 \<Rightarrow> u64 option" where
  "mem_load_i64_8u vm mi ea = map_option (\<lambda>bs. ucast (le_word bs :: u8)) (mem_read 1 vm mi ea)"

definition mem_load_i64_16s :: "vm \<Rightarrow> u32 \<Rightarrow> u64 \<Rightarrow> u64 option" where
  "mem_load_i64_16s vm mi ea = map_option (\<lambda>bs. scast (le_word bs :: u16)) (mem_read 2 vm mi ea)"

definition mem_load_i64_16u :: "vm \<Rightarrow> u32 \<Rightarrow> u64 \<Rightarrow> u64 option" where
  "mem_load_i64_16u vm mi ea = map_option (\<lambda>bs. ucast (le_word bs :: u16)) (mem_read 2 vm mi ea)"

definition mem_load_i64_32s :: "vm \<Rightarrow> u32 \<Rightarrow> u64 \<Rightarrow> u64 option" where
  "mem_load_i64_32s vm mi ea = map_option (\<lambda>bs. scast (le_word bs :: u32)) (mem_read 4 vm mi ea)"

definition mem_load_i64_32u :: "vm \<Rightarrow> u32 \<Rightarrow> u64 \<Rightarrow> u64 option" where
  "mem_load_i64_32u vm mi ea = map_option (\<lambda>bs. ucast (le_word bs :: u32)) (mem_read 4 vm mi ea)"

definition mem_store_i32 :: "vm \<Rightarrow> u32 \<Rightarrow> u64 \<Rightarrow> u32 \<Rightarrow> vm option" where
  "mem_store_i32 vm mi ea v = mem_write vm mi ea (le_bytes 4 v)"

definition mem_store_i8 :: "vm \<Rightarrow> u32 \<Rightarrow> u64 \<Rightarrow> u32 \<Rightarrow> vm option" where
  "mem_store_i8 vm mi ea v = mem_write vm mi ea (le_bytes 1 v)"

definition mem_store_i16 :: "vm \<Rightarrow> u32 \<Rightarrow> u64 \<Rightarrow> u32 \<Rightarrow> vm option" where
  "mem_store_i16 vm mi ea v = mem_write vm mi ea (le_bytes 2 v)"

definition mem_store_i64 :: "vm \<Rightarrow> u32 \<Rightarrow> u64 \<Rightarrow> u64 \<Rightarrow> vm option" where
  "mem_store_i64 vm mi ea v = mem_write vm mi ea (le_bytes 8 v)"

definition mem_store_f32 :: "vm \<Rightarrow> u32 \<Rightarrow> u64 \<Rightarrow> u32 \<Rightarrow> vm option" where
  "mem_store_f32 vm mi ea v = mem_write vm mi ea (le_bytes 4 v)"

definition mem_store_f64 :: "vm \<Rightarrow> u32 \<Rightarrow> u64 \<Rightarrow> u64 \<Rightarrow> vm option" where
  "mem_store_f64 vm mi ea v = mem_write vm mi ea (le_bytes 8 v)"

definition mem_store_v128 :: "vm \<Rightarrow> u32 \<Rightarrow> u64 \<Rightarrow> slot \<Rightarrow> vm option" where
  "mem_store_v128 vm mi ea v = mem_write vm mi ea (le_bytes 8 (sl_lo v) @ le_bytes 8 (sl_hi v))"

definition mem_store_i64_8 :: "vm \<Rightarrow> u32 \<Rightarrow> u64 \<Rightarrow> u64 \<Rightarrow> vm option" where
  "mem_store_i64_8 vm mi ea v = mem_write vm mi ea (le_bytes 1 v)"

definition mem_store_i64_16 :: "vm \<Rightarrow> u32 \<Rightarrow> u64 \<Rightarrow> u64 \<Rightarrow> vm option" where
  "mem_store_i64_16 vm mi ea v = mem_write vm mi ea (le_bytes 2 v)"

definition mem_store_i64_32 :: "vm \<Rightarrow> u32 \<Rightarrow> u64 \<Rightarrow> u64 \<Rightarrow> vm option" where
  "mem_store_i64_32 vm mi ea v = mem_write vm mi ea (le_bytes 4 v)"

text \<open>The immediate of a memory access: flags, an optional memory index, and the offset.\<close>

definition imm_memarg :: "ienv \<Rightarrow> vm \<Rightarrow> u32 \<times> u64 \<times> vm" where
  "imm_memarg E vm =
     (let (flags, vm) = imm_u32 E vm;
          (mi, vm) = (if flags AND 0x40 \<noteq> 0 then imm_u32 E vm else (0, vm));
          (offset, vm) = imm_u64 E vm
      in (mi, offset, vm))"

definition gen_op_i32_load :: handler where
  "gen_op_i32_load E vm = 
     (let (mi, offset, vm) = imm_memarg E vm; (addr, vm) = gpop_addr (mem_is64 vm mi) vm in
      if \<not> mem_in_bounds vm mi (addr + offset) 4 then guard_trap OutOfBoundsMemoryAccess vm
      else case mem_load_i32 vm mi (addr + offset) of None \<Rightarrow> Fault | Some v \<Rightarrow> Next (gpush_int v vm))"

definition gen_op_i64_load :: handler where
  "gen_op_i64_load E vm = 
     (let (mi, offset, vm) = imm_memarg E vm; (addr, vm) = gpop_addr (mem_is64 vm mi) vm in
      if \<not> mem_in_bounds vm mi (addr + offset) 8 then guard_trap OutOfBoundsMemoryAccess vm
      else case mem_load_i64 vm mi (addr + offset) of None \<Rightarrow> Fault | Some v \<Rightarrow> Next (gpush_long v vm))"

definition gen_op_f32_load :: handler where
  "gen_op_f32_load E vm = 
     (let (mi, offset, vm) = imm_memarg E vm; (addr, vm) = gpop_addr (mem_is64 vm mi) vm in
      if \<not> mem_in_bounds vm mi (addr + offset) 4 then guard_trap OutOfBoundsMemoryAccess vm
      else case mem_load_f32 vm mi (addr + offset) of None \<Rightarrow> Fault | Some v \<Rightarrow> Next (gpush_float v vm))"

definition gen_op_f64_load :: handler where
  "gen_op_f64_load E vm = 
     (let (mi, offset, vm) = imm_memarg E vm; (addr, vm) = gpop_addr (mem_is64 vm mi) vm in
      if \<not> mem_in_bounds vm mi (addr + offset) 8 then guard_trap OutOfBoundsMemoryAccess vm
      else case mem_load_f64 vm mi (addr + offset) of None \<Rightarrow> Fault | Some v \<Rightarrow> Next (gpush_double v vm))"

definition gen_op_i32_load8_s :: handler where
  "gen_op_i32_load8_s E vm = 
     (let (mi, offset, vm) = imm_memarg E vm; (addr, vm) = gpop_addr (mem_is64 vm mi) vm in
      if \<not> mem_in_bounds vm mi (addr + offset) 1 then guard_trap OutOfBoundsMemoryAccess vm
      else case mem_load_i8 vm mi (addr + offset) of None \<Rightarrow> Fault | Some v \<Rightarrow> Next (gpush_int v vm))"

definition gen_op_i32_load8_u :: handler where
  "gen_op_i32_load8_u E vm = 
     (let (mi, offset, vm) = imm_memarg E vm; (addr, vm) = gpop_addr (mem_is64 vm mi) vm in
      if \<not> mem_in_bounds vm mi (addr + offset) 1 then guard_trap OutOfBoundsMemoryAccess vm
      else case mem_load_i32_8u vm mi (addr + offset) of None \<Rightarrow> Fault | Some v \<Rightarrow> Next (gpush_int v vm))"

definition gen_op_i32_load16_s :: handler where
  "gen_op_i32_load16_s E vm = 
     (let (mi, offset, vm) = imm_memarg E vm; (addr, vm) = gpop_addr (mem_is64 vm mi) vm in
      if \<not> mem_in_bounds vm mi (addr + offset) 2 then guard_trap OutOfBoundsMemoryAccess vm
      else case mem_load_i16 vm mi (addr + offset) of None \<Rightarrow> Fault | Some v \<Rightarrow> Next (gpush_int v vm))"

definition gen_op_i32_load16_u :: handler where
  "gen_op_i32_load16_u E vm = 
     (let (mi, offset, vm) = imm_memarg E vm; (addr, vm) = gpop_addr (mem_is64 vm mi) vm in
      if \<not> mem_in_bounds vm mi (addr + offset) 2 then guard_trap OutOfBoundsMemoryAccess vm
      else case mem_load_i32_16u vm mi (addr + offset) of None \<Rightarrow> Fault | Some v \<Rightarrow> Next (gpush_int v vm))"

definition gen_op_i64_load8_s :: handler where
  "gen_op_i64_load8_s E vm = 
     (let (mi, offset, vm) = imm_memarg E vm; (addr, vm) = gpop_addr (mem_is64 vm mi) vm in
      if \<not> mem_in_bounds vm mi (addr + offset) 1 then guard_trap OutOfBoundsMemoryAccess vm
      else case mem_load_i64_8s vm mi (addr + offset) of None \<Rightarrow> Fault | Some v \<Rightarrow> Next (gpush_long v vm))"

definition gen_op_i64_load8_u :: handler where
  "gen_op_i64_load8_u E vm = 
     (let (mi, offset, vm) = imm_memarg E vm; (addr, vm) = gpop_addr (mem_is64 vm mi) vm in
      if \<not> mem_in_bounds vm mi (addr + offset) 1 then guard_trap OutOfBoundsMemoryAccess vm
      else case mem_load_i64_8u vm mi (addr + offset) of None \<Rightarrow> Fault | Some v \<Rightarrow> Next (gpush_long v vm))"

definition gen_op_i64_load16_s :: handler where
  "gen_op_i64_load16_s E vm = 
     (let (mi, offset, vm) = imm_memarg E vm; (addr, vm) = gpop_addr (mem_is64 vm mi) vm in
      if \<not> mem_in_bounds vm mi (addr + offset) 2 then guard_trap OutOfBoundsMemoryAccess vm
      else case mem_load_i64_16s vm mi (addr + offset) of None \<Rightarrow> Fault | Some v \<Rightarrow> Next (gpush_long v vm))"

definition gen_op_i64_load16_u :: handler where
  "gen_op_i64_load16_u E vm = 
     (let (mi, offset, vm) = imm_memarg E vm; (addr, vm) = gpop_addr (mem_is64 vm mi) vm in
      if \<not> mem_in_bounds vm mi (addr + offset) 2 then guard_trap OutOfBoundsMemoryAccess vm
      else case mem_load_i64_16u vm mi (addr + offset) of None \<Rightarrow> Fault | Some v \<Rightarrow> Next (gpush_long v vm))"

definition gen_op_i64_load32_s :: handler where
  "gen_op_i64_load32_s E vm = 
     (let (mi, offset, vm) = imm_memarg E vm; (addr, vm) = gpop_addr (mem_is64 vm mi) vm in
      if \<not> mem_in_bounds vm mi (addr + offset) 4 then guard_trap OutOfBoundsMemoryAccess vm
      else case mem_load_i64_32s vm mi (addr + offset) of None \<Rightarrow> Fault | Some v \<Rightarrow> Next (gpush_long v vm))"

definition gen_op_i64_load32_u :: handler where
  "gen_op_i64_load32_u E vm = 
     (let (mi, offset, vm) = imm_memarg E vm; (addr, vm) = gpop_addr (mem_is64 vm mi) vm in
      if \<not> mem_in_bounds vm mi (addr + offset) 4 then guard_trap OutOfBoundsMemoryAccess vm
      else case mem_load_i64_32u vm mi (addr + offset) of None \<Rightarrow> Fault | Some v \<Rightarrow> Next (gpush_long v vm))"

definition gen_op_v128_load :: handler where
  "gen_op_v128_load E vm = 
     (let (mi, offset, vm) = imm_memarg E vm; (addr, vm) = gpop_addr (mem_is64 vm mi) vm in
      if \<not> mem_in_bounds vm mi (addr + offset) 16 then guard_trap OutOfBoundsMemoryAccess vm
      else case mem_load_v128 vm mi (addr + offset) of None \<Rightarrow> Fault | Some v \<Rightarrow> Next (gpush_v128 v vm))"

definition gen_op_i32_store :: handler where
  "gen_op_i32_store E vm = 
     (let (mi, offset, vm) = imm_memarg E vm; (v, vm) = gpop_int vm; (addr, vm) = gpop_addr (mem_is64 vm mi) vm in
      if \<not> mem_in_bounds vm mi (addr + offset) 4 then guard_trap OutOfBoundsMemoryAccess vm
      else case mem_store_i32 vm mi (addr + offset) v of None \<Rightarrow> Fault | Some vm \<Rightarrow> Next vm)"

definition gen_op_i64_store :: handler where
  "gen_op_i64_store E vm = 
     (let (mi, offset, vm) = imm_memarg E vm; (v, vm) = gpop_long vm; (addr, vm) = gpop_addr (mem_is64 vm mi) vm in
      if \<not> mem_in_bounds vm mi (addr + offset) 8 then guard_trap OutOfBoundsMemoryAccess vm
      else case mem_store_i64 vm mi (addr + offset) v of None \<Rightarrow> Fault | Some vm \<Rightarrow> Next vm)"

definition gen_op_f32_store :: handler where
  "gen_op_f32_store E vm = 
     (let (mi, offset, vm) = imm_memarg E vm; (v, vm) = gpop_float vm; (addr, vm) = gpop_addr (mem_is64 vm mi) vm in
      if \<not> mem_in_bounds vm mi (addr + offset) 4 then guard_trap OutOfBoundsMemoryAccess vm
      else case mem_store_f32 vm mi (addr + offset) v of None \<Rightarrow> Fault | Some vm \<Rightarrow> Next vm)"

definition gen_op_f64_store :: handler where
  "gen_op_f64_store E vm = 
     (let (mi, offset, vm) = imm_memarg E vm; (v, vm) = gpop_double vm; (addr, vm) = gpop_addr (mem_is64 vm mi) vm in
      if \<not> mem_in_bounds vm mi (addr + offset) 8 then guard_trap OutOfBoundsMemoryAccess vm
      else case mem_store_f64 vm mi (addr + offset) v of None \<Rightarrow> Fault | Some vm \<Rightarrow> Next vm)"

definition gen_op_i32_store8 :: handler where
  "gen_op_i32_store8 E vm = 
     (let (mi, offset, vm) = imm_memarg E vm; (v, vm) = gpop_int vm; (addr, vm) = gpop_addr (mem_is64 vm mi) vm in
      if \<not> mem_in_bounds vm mi (addr + offset) 1 then guard_trap OutOfBoundsMemoryAccess vm
      else case mem_store_i8 vm mi (addr + offset) v of None \<Rightarrow> Fault | Some vm \<Rightarrow> Next vm)"

definition gen_op_i32_store16 :: handler where
  "gen_op_i32_store16 E vm = 
     (let (mi, offset, vm) = imm_memarg E vm; (v, vm) = gpop_int vm; (addr, vm) = gpop_addr (mem_is64 vm mi) vm in
      if \<not> mem_in_bounds vm mi (addr + offset) 2 then guard_trap OutOfBoundsMemoryAccess vm
      else case mem_store_i16 vm mi (addr + offset) v of None \<Rightarrow> Fault | Some vm \<Rightarrow> Next vm)"

definition gen_op_i64_store8 :: handler where
  "gen_op_i64_store8 E vm = 
     (let (mi, offset, vm) = imm_memarg E vm; (v, vm) = gpop_long vm; (addr, vm) = gpop_addr (mem_is64 vm mi) vm in
      if \<not> mem_in_bounds vm mi (addr + offset) 1 then guard_trap OutOfBoundsMemoryAccess vm
      else case mem_store_i64_8 vm mi (addr + offset) v of None \<Rightarrow> Fault | Some vm \<Rightarrow> Next vm)"

definition gen_op_i64_store16 :: handler where
  "gen_op_i64_store16 E vm = 
     (let (mi, offset, vm) = imm_memarg E vm; (v, vm) = gpop_long vm; (addr, vm) = gpop_addr (mem_is64 vm mi) vm in
      if \<not> mem_in_bounds vm mi (addr + offset) 2 then guard_trap OutOfBoundsMemoryAccess vm
      else case mem_store_i64_16 vm mi (addr + offset) v of None \<Rightarrow> Fault | Some vm \<Rightarrow> Next vm)"

definition gen_op_i64_store32 :: handler where
  "gen_op_i64_store32 E vm = 
     (let (mi, offset, vm) = imm_memarg E vm; (v, vm) = gpop_long vm; (addr, vm) = gpop_addr (mem_is64 vm mi) vm in
      if \<not> mem_in_bounds vm mi (addr + offset) 4 then guard_trap OutOfBoundsMemoryAccess vm
      else case mem_store_i64_32 vm mi (addr + offset) v of None \<Rightarrow> Fault | Some vm \<Rightarrow> Next vm)"

definition gen_op_v128_store :: handler where
  "gen_op_v128_store E vm = 
     (let (mi, offset, vm) = imm_memarg E vm; (v, vm) = gpop_v128 vm; (addr, vm) = gpop_addr (mem_is64 vm mi) vm in
      if \<not> mem_in_bounds vm mi (addr + offset) 16 then guard_trap OutOfBoundsMemoryAccess vm
      else case mem_store_v128 vm mi (addr + offset) v of None \<Rightarrow> Fault | Some vm \<Rightarrow> Next vm)"

section \<open>Creating, growing and bulk operations\<close>

text \<open>\<open>calloc\<close> and \<open>realloc\<close> succeed as the environment says.\<close>

definition jav_mem_add :: "ienv \<Rightarrow> u64 \<Rightarrow> u64 \<Rightarrow> bool \<Rightarrow> bool \<Rightarrow> jav_mem list \<Rightarrow> (nat option \<times> jav_mem list)" where
  "jav_mem_add E pages maxpages has_max is64 mems =
     (if JAV_MAX_MEMORY_PAGES < pages then (None, mems)
      else if pages * 65536 \<noteq> 0 \<and> \<not> ie_realloc E (pages * 65536) then (None, mems)
      else (Some (length mems),
            mems @ [\<lparr>mm_data = replicate (unat (pages * 65536)) 0, mm_max = maxpages, mm_has_max = has_max,
                     mm_is64 = is64\<rparr>]))"

definition mem_grow_inst :: "ienv \<Rightarrow> u64 \<Rightarrow> jav_mem \<Rightarrow> u64 \<times> jav_mem" where
  "mem_grow_inst E delta m =
     (if delta <s 0 then (- 1, m)
      else
        let oldpages = mm_size m div 65536; newpages = oldpages + delta;
            maxpages = (if mm_has_max m then mm_max m else if mm_is64 m then push_bit 48 1 else 65536);
            maxpages = (if JAV_MAX_MEMORY_PAGES < maxpages then JAV_MAX_MEMORY_PAGES else maxpages)
        in if maxpages < newpages then (- 1, m)
           else
             let newsize = newpages * 65536 in
             if \<not> ie_realloc E (if newsize \<noteq> 0 then newsize else 1) then (- 1, m)
             else (oldpages, m\<lparr>mm_data := mm_data m @ replicate (unat (newsize - mm_size m)) 0\<rparr>))"

definition mem_grow :: "ienv \<Rightarrow> vm \<Rightarrow> u32 \<Rightarrow> u64 \<Rightarrow> u64 \<times> vm" where
  "mem_grow E vm mi delta =
     (case mem_at vm mi of
        None \<Rightarrow> (- 1, vm)
      | Some a \<Rightarrow>
          let (r, m) = mem_grow_inst E delta (vm_mems vm ! a) in (r, vm\<lparr>vm_mems := (vm_mems vm)[a := m]\<rparr>))"

definition jav_memory_fill :: "vm \<Rightarrow> u32 \<Rightarrow> u64 \<Rightarrow> u32 \<Rightarrow> u64 \<Rightarrow> vm option" where
  "jav_memory_fill vm mi d v n =
     (if \<not> mem_ok (mem_of vm mi) d n then Some (jav_trap_with OutOfBoundsMemoryAccess vm)
      else mem_write vm mi d (replicate (unat n) (ucast (v AND 0xFF))))"

definition jav_memory_copy :: "vm \<Rightarrow> u32 \<Rightarrow> u32 \<Rightarrow> u64 \<Rightarrow> u64 \<Rightarrow> u64 \<Rightarrow> vm option" where
  "jav_memory_copy vm dmi smi d s n =
     (if \<not> mem_ok (mem_of vm dmi) d n \<or> \<not> mem_ok (mem_of vm smi) s n
      then Some (jav_trap_with OutOfBoundsMemoryAccess vm)
      else Option.bind (mem_read (unat n) vm smi s) (mem_write vm dmi d))"

definition jav_memory_init :: "vm \<Rightarrow> u32 \<Rightarrow> u32 \<Rightarrow> u64 \<Rightarrow> u32 \<Rightarrow> u32 \<Rightarrow> vm option" where
  "jav_memory_init vm mi seg d s n =
     (let c = vm_ctx vm in
      if length (ic_data_segs c) \<le> unat seg then Some (jav_trap_with OutOfBoundsMemoryAccess vm)
      else
        let bs = ic_data_segs c ! unat seg;
            seglen = (if ic_data_dropped c ! unat seg then 0 else word_of_nat (length bs)) :: u64
        in if n <s 0 \<or> s <s 0 \<or> seglen < scast s + scast n \<or> \<not> mem_ok (mem_of vm mi) d (scast n)
           then Some (jav_trap_with OutOfBoundsMemoryAccess vm)
           else mem_write vm mi d (take (unat n) (drop (unat s) bs)))"

definition upd_ctx :: "(instctx \<Rightarrow> instctx) \<Rightarrow> vm \<Rightarrow> vm" where
  "upd_ctx f vm = vm\<lparr>vm_inst := (vm_inst vm)(fr_ctx (vm_frame vm) := f (vm_ctx vm))\<rparr>"

definition jav_data_drop :: "vm \<Rightarrow> u32 \<Rightarrow> vm" where
  "jav_data_drop vm seg =
     (if unat seg < length (ic_data_segs (vm_ctx vm))
      then upd_ctx (\<lambda>c. c\<lparr>ic_data_dropped := (ic_data_dropped c)[unat seg := True]\<rparr>) vm else vm)"

text \<open>A word result whose other half is indeterminate.\<close>

definition word_l :: "ienv \<Rightarrow> u64 \<Rightarrow> slot" where
  "word_l E v = \<lparr>sl_lo = v, sl_hi = ie_junk E\<rparr>"

definition addr_tag :: "bool \<Rightarrow> vtag" where
  "addr_tag is64 = (if is64 then T_LONG else T_INT)"

definition gen_op_memory_size :: handler where
  "gen_op_memory_size E vm =
     (let (mi, vm) = imm_u32 E vm
      in Next (gpush_word (word_l E (mem_pages vm mi)) (addr_tag (mem_is64 vm mi)) vm))"

definition gen_op_memory_grow :: handler where
  "gen_op_memory_grow E vm =
     (let (mi, vm) = imm_u32 E vm; (delta, vm) = gpop_addr (mem_is64 vm mi) vm; (r, vm) = mem_grow E vm mi delta
      in Next (gpush_word (word_l E r) (addr_tag (mem_is64 vm mi)) vm))"

definition gen_op_memory_fill :: handler where
  "gen_op_memory_fill E vm =
     (let (mi, vm) = imm_u32 E vm; (n, vm) = gpop_addr (mem_is64 vm mi) vm; (v, vm) = gpop_int vm;
          (d, vm) = gpop_addr (mem_is64 vm mi) vm in
      if \<not> mem_in_bounds vm mi d n then guard_trap OutOfBoundsMemoryAccess vm
      else case jav_memory_fill vm mi d v n of None \<Rightarrow> Fault | Some vm \<Rightarrow> Next vm)"

definition gen_op_memory_copy :: handler where
  "gen_op_memory_copy E vm =
     (let (dm, vm) = imm_u32 E vm; (sm, vm) = imm_u32 E vm;
          (n, vm) = gpop_addr (mem_is64 vm dm \<and> mem_is64 vm sm) vm;
          (s, vm) = gpop_addr (mem_is64 vm sm) vm; (d, vm) = gpop_addr (mem_is64 vm dm) vm in
      if \<not> (mem_in_bounds vm dm d n \<and> mem_in_bounds vm sm s n) then guard_trap OutOfBoundsMemoryAccess vm
      else case jav_memory_copy vm dm sm d s n of None \<Rightarrow> Fault | Some vm \<Rightarrow> Next vm)"

definition gen_op_memory_init :: handler where
  "gen_op_memory_init E vm =
     (let (seg, vm) = imm_u32 E vm; (mi, vm) = imm_u32 E vm; (n, vm) = gpop_int vm; (s, vm) = gpop_int vm;
          (d, vm) = gpop_addr (mem_is64 vm mi) vm in
      if \<not> (0 \<le>s n \<and> 0 \<le>s s \<and> scast s + scast n \<le>s data_seg_len vm seg \<and> mem_in_bounds vm mi d (scast n))
      then guard_trap OutOfBoundsMemoryAccess vm
      else case jav_memory_init vm mi seg d s n of None \<Rightarrow> Fault | Some vm \<Rightarrow> Next vm)"

definition gen_op_data_drop :: handler where
  "gen_op_data_drop E vm = (let (seg, vm) = imm_u32 E vm in Next (jav_data_drop vm seg))"

section \<open>Tables\<close>

definition JAV_MAX_TABLE_ELEMS :: u64 where
  "JAV_MAX_TABLE_ELEMS = 2 ^ 24"

definition ti_len :: "jav_tableinst \<Rightarrow> u64" where
  "ti_len t = word_of_nat (length (ti_refs t))"

text \<open>The bounds-checked entry access of the embedder.\<close>

definition jav_tableinst_read :: "jav_tableinst \<Rightarrow> u64 \<Rightarrow> (u64 \<times> vtag) option" where
  "jav_tableinst_read t i =
     (if ti_len t \<le> i then None else Some (ti_refs t ! unat i, ti_types t ! unat i))"

definition tableinst_set :: "u64 \<Rightarrow> u64 \<Rightarrow> vtag \<Rightarrow> jav_tableinst \<Rightarrow> jav_tableinst" where
  "tableinst_set i raw tag t =
     t\<lparr>ti_refs := (ti_refs t)[unat i := raw], ti_types := (ti_types t)[unat i := tag]\<rparr>"

definition jav_tableinst_write :: "jav_tableinst \<Rightarrow> u64 \<Rightarrow> u64 \<Rightarrow> vtag \<Rightarrow> jav_tableinst option" where
  "jav_tableinst_write t i raw tag =
     (if ti_len t \<le> i then None else Some (tableinst_set i raw tag t))"

definition jav_table_add ::
  "bool \<Rightarrow> valtype \<Rightarrow> int \<Rightarrow> bool \<Rightarrow> bool \<Rightarrow> u32 \<Rightarrow> u64 \<Rightarrow> u64 \<Rightarrow> vtag \<Rightarrow> jav_tableinst list \<Rightarrow> nat option \<times> jav_tableinst list"
where
  "jav_table_add calloc_ok rt ht is64 has_max mx minsize fill filltag ts =
     (if JAV_MAX_TABLE_ELEMS < minsize \<or> \<not> calloc_ok then (None, ts)
      else (Some (length ts),
            ts @ [\<lparr>ti_refs = replicate (unat minsize) fill, ti_types = replicate (unat minsize) filltag,
                   ti_max = mx, ti_has_max = has_max, ti_reftype = rt, ti_reftype_ht = ht, ti_is64 = is64\<rparr>]))"

definition jav_tableinst_grow :: "u64 \<Rightarrow> u64 \<Rightarrow> vtag \<Rightarrow> jav_tableinst \<Rightarrow> u64 \<times> jav_tableinst" where
  "jav_tableinst_grow delta raw tag t =
     (let oldsize = ti_len t; newsize = oldsize + delta;
          maxcap = (if ti_has_max t then ucast (ti_max t) else if ti_is64 t then - 1 else 0xFFFFFFFF);
          maxcap = (if JAV_MAX_TABLE_ELEMS < maxcap then JAV_MAX_TABLE_ELEMS else maxcap)
      in if maxcap < newsize then (- 1, t)
         else (oldsize, t\<lparr>ti_refs := ti_refs t @ replicate (unat delta) raw,
                          ti_types := ti_types t @ replicate (unat delta) tag\<rparr>))"

text \<open>The store table of a module's table index; the macros read it unchecked.\<close>

definition tab_at :: "vm \<Rightarrow> u32 \<Rightarrow> nat option" where
  "tab_at vm t =
     (let ts = ic_tables (vm_ctx vm) in
      if unat t < length ts \<and> ts ! unat t < length (vm_tables vm) then Some (ts ! unat t) else None)"

definition set_table :: "nat \<Rightarrow> jav_tableinst \<Rightarrow> vm \<Rightarrow> vm" where
  "set_table a t vm = vm\<lparr>vm_tables := (vm_tables vm)[a := t]\<rparr>"

definition jav_table_grow :: "vm \<Rightarrow> u32 \<Rightarrow> u64 \<Rightarrow> any_t \<Rightarrow> (u64 \<times> vm) option" where
  "jav_table_grow vm tbl delta init =
     (if length (ic_tables (vm_ctx vm)) \<le> unat tbl \<or> delta <s 0 then Some (- 1, vm)
      else
        map_option
          (\<lambda>a. let (r, t) = jav_tableinst_grow delta (an_bits init) (an_kind init) (vm_tables vm ! a)
               in (r, set_table a t vm))
          (tab_at vm tbl))"

text \<open>Copy \<open>n\<close> entries of the segment, each with its tag.\<close>

definition elems_into :: "jav_elem_seg \<Rightarrow> nat \<Rightarrow> nat \<Rightarrow> nat \<Rightarrow> jav_tableinst \<Rightarrow> jav_tableinst" where
  "elems_into es d s n =
     fold (\<lambda>k t. t\<lparr>ti_refs := (ti_refs t)[d + k := es_values es ! (s + k)],
                   ti_types := (ti_types t)[d + k := es_types es ! (s + k)]\<rparr>) [0..<n]"

definition jav_table_init :: "vm \<Rightarrow> u32 \<Rightarrow> u32 \<Rightarrow> u64 \<Rightarrow> u32 \<Rightarrow> u32 \<Rightarrow> vm" where
  "jav_table_init vm tbl seg d s n =
     (let c = vm_ctx vm in
      case tab_at vm tbl of
        None \<Rightarrow> jav_trap_with OutOfBoundsTableAccess vm
      | Some a \<Rightarrow>
          if length (ic_elem_segs c) \<le> unat seg then jav_trap_with OutOfBoundsTableAccess vm
          else
            let es = ic_elem_segs c ! unat seg; t = vm_tables vm ! a; tl = ti_len t;
                seglen = (if ic_elem_dropped c ! unat seg then 0 else word_of_nat (length (es_values es))) :: u64
            in if n <s 0 \<or> s <s 0 \<or> seglen < scast s + scast n \<or> tl < d \<or> tl - d < scast n
               then jav_trap_with OutOfBoundsTableAccess vm
               else set_table a (elems_into es (unat d) (unat s) (unat n) t) vm)"

definition jav_elem_drop :: "vm \<Rightarrow> u32 \<Rightarrow> vm" where
  "jav_elem_drop vm seg =
     (if unat seg < length (ic_elem_segs (vm_ctx vm))
      then upd_ctx (\<lambda>c. c\<lparr>ic_elem_dropped := (ic_elem_dropped c)[unat seg := True]\<rparr>) vm else vm)"

definition gen_op_table_size :: handler where
  "gen_op_table_size E vm =
     (let (tb, vm) = imm_u32 E vm in
      case tab_at vm tb of
        None \<Rightarrow> Fault
      | Some a \<Rightarrow>
          let t = vm_tables vm ! a in Next (gpush_word (word_l E (ti_len t)) (addr_tag (ti_is64 t)) vm))"

definition gen_op_table_get :: handler where
  "gen_op_table_get E vm =
     (let (tb, vm) = imm_u32 E vm in
      case tab_at vm tb of
        None \<Rightarrow> Fault
      | Some a \<Rightarrow>
          let t = vm_tables vm ! a; (i, vm) = gpop_addr (ti_is64 t) vm in
          if \<not> i < ti_len t then guard_trap OutOfBoundsTableAccess vm
          else Next (gpush_any \<lparr>an_bits = ti_refs t ! unat i, an_hi = 0, an_kind = ti_types t ! unat i\<rparr> vm))"

definition gen_op_table_set :: handler where
  "gen_op_table_set E vm =
     (let (tb, vm) = imm_u32 E vm; (v, vm) = gpop_any vm in
      case tab_at vm tb of
        None \<Rightarrow> Fault
      | Some a \<Rightarrow>
          let t = vm_tables vm ! a; (i, vm) = gpop_addr (ti_is64 t) vm in
          if \<not> i < ti_len t then guard_trap OutOfBoundsTableAccess vm
          else Next (set_table a (tableinst_set i (an_bits v) (an_kind v) t) vm))"

definition gen_op_table_grow :: handler where
  "gen_op_table_grow E vm =
     (let (tb, vm) = imm_u32 E vm in
      case tab_at vm tb of
        None \<Rightarrow> Fault
      | Some a \<Rightarrow>
          let is64 = ti_is64 (vm_tables vm ! a); (delta, vm) = gpop_addr is64 vm; (init, vm) = gpop_any vm in
          case jav_table_grow vm tb delta init of
            None \<Rightarrow> Fault
          | Some (r, vm) \<Rightarrow> Next (gpush_word (word_l E r) (addr_tag is64) vm))"

text \<open>The loops of \<open>table.fill\<close> and \<open>table.copy\<close>; their counters pass through \<open>(s4)\<close>.\<close>

definition s4_of :: "u64 \<Rightarrow> u64" where
  "s4_of k = scast (ucast k :: u32)"

partial_function (option) table_fill_loop ::
  "u64 \<Rightarrow> u64 \<Rightarrow> any_t \<Rightarrow> u64 \<Rightarrow> jav_tableinst \<Rightarrow> jav_tableinst option" where
  "table_fill_loop i n v k t =
     (if k <s n then
        if ti_len t \<le> i + k then None
        else table_fill_loop i n v (s4_of (k + 1)) (tableinst_set (i + k) (an_bits v) (an_kind v) t)
      else Some t)"

definition gen_op_table_fill :: handler where
  "gen_op_table_fill E vm =
     (let (tb, vm) = imm_u32 E vm in
      case tab_at vm tb of
        None \<Rightarrow> Fault
      | Some a \<Rightarrow>
          let t = vm_tables vm ! a; (n, vm) = gpop_addr (ti_is64 t) vm; (v, vm) = gpop_any vm;
              (i, vm) = gpop_addr (ti_is64 t) vm in
          if \<not> (i \<le> ti_len t \<and> n \<le> ti_len t - i) then guard_trap OutOfBoundsTableAccess vm
          else case table_fill_loop i n v 0 t of None \<Rightarrow> Fault | Some t \<Rightarrow> Next (set_table a t vm))"

text \<open>One step: entry \<open>si\<close> of table \<open>sa\<close> goes to entry \<open>di\<close> of table \<open>da\<close>.\<close>

definition tab_move :: "nat \<Rightarrow> u64 \<Rightarrow> nat \<Rightarrow> u64 \<Rightarrow> jav_tableinst list \<Rightarrow> jav_tableinst list option" where
  "tab_move da di sa si ts =
     (let s = ts ! sa; d = ts ! da in
      if ti_len s \<le> si \<or> ti_len d \<le> di then None
      else Some (ts[da := tableinst_set di (ti_refs s ! unat si) (ti_types s ! unat si) d]))"

partial_function (option) table_copy_up ::
  "nat \<Rightarrow> u64 \<Rightarrow> nat \<Rightarrow> u64 \<Rightarrow> u64 \<Rightarrow> u64 \<Rightarrow> jav_tableinst list \<Rightarrow> jav_tableinst list option" where
  "table_copy_up da d sa s n k ts =
     (if k <s n then
        Option.bind (tab_move da (d + k) sa (s + k) ts) (\<lambda>ts. table_copy_up da d sa s n (s4_of (k + 1)) ts)
      else Some ts)"

partial_function (option) table_copy_down ::
  "nat \<Rightarrow> u64 \<Rightarrow> nat \<Rightarrow> u64 \<Rightarrow> u64 \<Rightarrow> jav_tableinst list \<Rightarrow> jav_tableinst list option" where
  "table_copy_down da d sa s k ts =
     (if 0 \<le>s k then
        Option.bind (tab_move da (d + k) sa (s + k) ts) (\<lambda>ts. table_copy_down da d sa s (s4_of (k - 1)) ts)
      else Some ts)"

definition gen_op_table_copy :: handler where
  "gen_op_table_copy E vm =
     (let (dt, vm) = imm_u32 E vm; (st, vm) = imm_u32 E vm in
      case (tab_at vm dt, tab_at vm st) of
        (Some da, Some sa) \<Rightarrow>
          let td = vm_tables vm ! da; ts = vm_tables vm ! sa;
              (n, vm) = gpop_addr (ti_is64 td \<and> ti_is64 ts) vm;
              (s, vm) = gpop_addr (ti_is64 ts) vm; (d, vm) = gpop_addr (ti_is64 td) vm in
          if \<not> (d \<le> ti_len td \<and> n \<le> ti_len td - d \<and> s \<le> ti_len ts \<and> n \<le> ti_len ts - s)
          then guard_trap OutOfBoundsTableAccess vm
          else
            (case (if d \<le> s then table_copy_up da d sa s n 0 (vm_tables vm)
                   else table_copy_down da d sa s (n - 1) (vm_tables vm)) of
               None \<Rightarrow> Fault
             | Some tabs \<Rightarrow> Next (vm\<lparr>vm_tables := tabs\<rparr>))
      | _ \<Rightarrow> Fault)"

definition gen_op_table_init :: handler where
  "gen_op_table_init E vm =
     (let (seg, vm) = imm_u32 E vm; (tb, vm) = imm_u32 E vm; (n, vm) = gpop_int vm; (s, vm) = gpop_int vm in
      case tab_at vm tb of
        None \<Rightarrow> Fault
      | Some a \<Rightarrow>
          let t = vm_tables vm ! a; (d, vm) = gpop_addr (ti_is64 t) vm in
          if \<not> (0 \<le>s n \<and> 0 \<le>s s \<and> scast s + scast n \<le>s elem_seg_len vm seg \<and> d \<le> ti_len t \<and> scast n \<le> ti_len t - d)
          then guard_trap OutOfBoundsTableAccess vm
          else Next (jav_table_init vm tb seg d s n))"

definition gen_op_elem_drop :: handler where
  "gen_op_elem_drop E vm = (let (seg, vm) = imm_u32 E vm in Next (jav_elem_drop vm seg))"

end
