(* ===== verification/VmRef.thy ===== *)
theory VmRef
  imports VmMem
begin

text \<open>
  References and managed objects in the interpreter: the enumeration of roots and the constructors of
  \<open>jav_runtime.c\<close>, the field and element access of \<open>jav_frame.h\<close>, the layouts that \<open>jav_module_index.c\<close>
  builds, and the handlers of \<open>gen/gen_interp.c\<close> for references, structures and arrays.

  An access outside the storage of an object, or through a null address, is \<open>None\<close>.
\<close>

section \<open>Roots\<close>

definition tagged :: "nat \<Rightarrow> (nat \<Rightarrow> vtag) \<Rightarrow> nat list" where
  "tagged n ty = filter (\<lambda>i. ty i = T_GCREF) [0..<n]"

definition elem_roots :: "nat \<Rightarrow> instctx \<Rightarrow> root list" where
  "elem_roots ci c =
     concat (map (\<lambda>s. if ic_elem_dropped c ! s then []
                      else map (Root_elem ci s) (tagged (length (es_values (ic_elem_segs c ! s))) ((!) (es_types (ic_elem_segs c ! s)))))
               [0..<length (ic_elem_segs c)])"

definition jav_gc_enum_roots :: "ienv \<Rightarrow> vm \<Rightarrow> root list" where
  "jav_gc_enum_roots E vm =
     (let f = vm_frame vm; c = vm_ctx vm in
      map Root_stack (tagged (fr_stack f + unat (fr_sp f)) (vm_value_types vm)) @
      map Root_local (tagged (fr_locals f + unat (fr_num_locals f)) (vm_local_type_store vm)) @
      map (\<lambda>g. Root_global (ic_globals c ! g)) (tagged (length (ic_globals c)) ((!) (ic_global_types c))) @
      concat (map (\<lambda>a. map (Root_table a) (tagged (length (ti_refs (vm_tables vm ! a))) ((!) (ti_types (vm_tables vm ! a)))))
                (ic_tables c)) @
      elem_roots (fr_ctx f) c @
      (if vm_unwinding vm \<and> vm_pending_exn vm \<noteq> 0 then [Root_exn] else []) @
      ie_extra_roots E vm)"

definition read_root :: "vm \<Rightarrow> root \<Rightarrow> u64" where
  "read_root vm r =
     (case r of
        Root_stack i \<Rightarrow> sl_lo (vm_value_stack vm i)
      | Root_local i \<Rightarrow> sl_lo (vm_locals_store vm i)
      | Root_global g \<Rightarrow> sl_lo (vm_globals vm g)
      | Root_table a i \<Rightarrow> ti_refs (vm_tables vm ! a) ! i
      | Root_elem ci s j \<Rightarrow> es_values (ic_elem_segs (vm_inst vm ci) ! s) ! j
      | Root_exn \<Rightarrow> vm_pending_exn vm
      | Root_host j \<Rightarrow> vm_host_refs vm j)"

definition write_root :: "root \<Rightarrow> u64 \<Rightarrow> vm \<Rightarrow> vm" where
  "write_root r v vm =
     (case r of
        Root_stack i \<Rightarrow> vm\<lparr>vm_value_stack := (vm_value_stack vm)(i := set_slot_l v (vm_value_stack vm i))\<rparr>
      | Root_local i \<Rightarrow> vm\<lparr>vm_locals_store := (vm_locals_store vm)(i := set_slot_l v (vm_locals_store vm i))\<rparr>
      | Root_global g \<Rightarrow> vm\<lparr>vm_globals := (vm_globals vm)(g := set_slot_l v (vm_globals vm g))\<rparr>
      | Root_table a i \<Rightarrow>
          let t = vm_tables vm ! a in vm\<lparr>vm_tables := (vm_tables vm)[a := t\<lparr>ti_refs := (ti_refs t)[i := v]\<rparr>]\<rparr>
      | Root_elem ci s j \<Rightarrow>
          let c = vm_inst vm ci; es = ic_elem_segs c ! s in
          vm\<lparr>vm_inst := (vm_inst vm)(ci := c\<lparr>ic_elem_segs := (ic_elem_segs c)[s := es\<lparr>es_values := (es_values es)[j := v]\<rparr>]\<rparr>)\<rparr>
      | Root_exn \<Rightarrow> vm\<lparr>vm_pending_exn := v\<rparr>
      | Root_host j \<Rightarrow> vm\<lparr>vm_host_refs := (vm_host_refs vm)(j := v)\<rparr>)"

text \<open>Run an operation of the collector with the enumerated roots, and rewrite the slots.\<close>

definition on_heap ::
  "ienv \<Rightarrow> (gc_heap \<Rightarrow> (nat option \<times> gc_heap) option) \<Rightarrow> vm \<Rightarrow> (nat option \<times> vm) option" where
  "on_heap E op vm =
     (let rs = jav_gc_enum_roots E vm in
      map_option
        (\<lambda>(p, h). (p, fold (\<lambda>(r, v). write_root r (word_of_nat v)) (zip rs (gh_roots h)) (vm\<lparr>vm_gc := h\<rparr>)))
        (op ((vm_gc vm)\<lparr>gh_roots := map (\<lambda>r. unat (read_root vm r)) rs\<rparr>)))"

text \<open>The address of the object, or a trap and null.\<close>

definition or_trap :: "(nat option \<times> vm) option \<Rightarrow> (u64 \<times> vm) option" where
  "or_trap r =
     map_option (\<lambda>(p, vm). case p of None \<Rightarrow> (0, jav_trap_with JAV_TRAP_NONE vm) | Some a \<Rightarrow> (word_of_nat a, vm)) r"

section \<open>Layouts\<close>

text \<open>
  Whether a field of the given type holds a reference the tracer follows, and the layout of a structure
  type: cells of 8 bytes, or of 16 for a vector; the table of offsets exists only with a vector field.
\<close>

definition rtt_field_is_ref :: "valtype \<Rightarrow> int \<Rightarrow> nat list \<Rightarrow> bool option" where
  "rtt_field_is_ref w ht kinds =
     (if w \<noteq> WVT_REF \<and> w \<noteq> WVT_REF_NN then Some False
      else if 0 \<le> ht then Some (nat ht < length kinds \<and> (kinds ! nat ht = WST_STRUCT \<or> kinds ! nat ht = WST_ARRAY))
      else if ht \<in> {HT_ANY, HT_EQ, HT_STRUCT, HT_ARRAY, HT_EXN, HT_EXTERN} then Some True
      else if ht \<in> {HT_I31, HT_FUNC, HT_NOFUNC, HT_NONE, HT_NOEXTERN, HT_NOEXN} then Some False
      else None)"

definition cell_width :: "valtype \<Rightarrow> u32" where
  "cell_width w = (if w = WVT_V128 then 16 else 8)"

fun field_offsets :: "u32 \<Rightarrow> valtype list \<Rightarrow> u32 list" where
  "field_offsets q [] = [q]"
| "field_offsets q (w # ws) = q # field_offsets (q + cell_width w) ws"

definition build_struct_rtt :: "(valtype \<times> int) list \<Rightarrow> nat list \<Rightarrow> gc_rtt option" where
  "build_struct_rtt fs kinds =
     map_option
       (\<lambda>refs.
         let ws = map fst fs; wide = (\<exists>w \<in> set ws. w = WVT_V128);
             off = (if wide then Some (field_offsets 0 ws) else None);
             n = length fs
         in \<lparr>rt_size = word_of_nat GC_HEADER + (case off of Some q \<Rightarrow> q ! n | None \<Rightarrow> word_of_nat n * 8),
             rt_nfields = word_of_nat n, rt_kind = GC_KIND_STRUCT, rt_elem_is_ref = False, rt_elem_store_w = 0,
             rt_elem_heap_w = 0, rt_field_off = off, rt_gid = - 1,
             rt_ref_offsets =
               map (\<lambda>i. word_of_nat GC_HEADER + (case off of Some q \<Rightarrow> q ! i | None \<Rightarrow> word_of_nat i * 8))
                 (filter (\<lambda>i. refs ! i) [0..<n])\<rparr>)
       (those (map (\<lambda>(w, ht). rtt_field_is_ref w ht kinds) fs))"

text \<open>A field is a reference if the offset of the uniform layout is a reference offset.\<close>

definition gc_field_is_ref :: "gc_rtt \<Rightarrow> u32 \<Rightarrow> bool" where
  "gc_field_is_ref r fld \<longleftrightarrow> word_of_nat GC_HEADER + fld * 8 \<in> set (rt_ref_offsets r)"

definition jav_struct_nfields :: "gc_rtt list \<Rightarrow> u32 \<Rightarrow> u32" where
  "jav_struct_nfields rtts typ =
     (if length rtts \<le> unat typ then 0
      else
        let r = rtts ! unat typ
        in if rt_nfields r \<noteq> 0 then ucast (rt_nfields r) else (rt_size r - word_of_nat GC_HEADER) div 8)"

section \<open>Cells\<close>

text \<open>Eight bytes at an offset from the payload.\<close>

definition cell_in :: "vm \<Rightarrow> u64 \<Rightarrow> nat \<Rightarrow> bool" where
  "cell_in vm q off \<longleftrightarrow>
     q \<noteq> 0 \<and> (case gc_obj_size (gh_mem (vm_gc vm) (unat q)) of
                None \<Rightarrow> False | Some sz \<Rightarrow> GC_HEADER + off + 8 \<le> unat sz)"

definition get_cell :: "vm \<Rightarrow> u64 \<Rightarrow> nat \<Rightarrow> u64 option" where
  "get_cell vm q off =
     (if cell_in vm q off then Some (word_of_nat (ob_cell (gh_mem (vm_gc vm) (unat q)) (GC_HEADER + off))) else None)"

definition set_cell :: "u64 \<Rightarrow> nat \<Rightarrow> u64 \<Rightarrow> vm \<Rightarrow> vm option" where
  "set_cell q off v vm =
     (if cell_in vm q off
      then Some (vm\<lparr>vm_gc := set_obj (unat q) (\<lambda>ob. ob\<lparr>ob_cell := (ob_cell ob)(GC_HEADER + off := unat v)\<rparr>) (vm_gc vm)\<rparr>)
      else None)"

text \<open>A value of one cell, or of two when \<open>wide\<close>.\<close>

definition load_any :: "vm \<Rightarrow> u64 \<Rightarrow> nat \<Rightarrow> bool \<Rightarrow> vtag \<Rightarrow> any_t option" where
  "load_any vm q off wide tag =
     Option.bind (get_cell vm q off) (\<lambda>lo.
       if wide then map_option (\<lambda>hi. \<lparr>an_bits = lo, an_hi = hi, an_kind = T_V128\<rparr>) (get_cell vm q (off + 8))
       else Some \<lparr>an_bits = lo, an_hi = 0, an_kind = tag\<rparr>)"

definition store_any :: "u64 \<Rightarrow> nat \<Rightarrow> bool \<Rightarrow> any_t \<Rightarrow> vm \<Rightarrow> vm option" where
  "store_any q off wide v vm =
     Option.bind (set_cell q off (an_bits v) vm) (\<lambda>vm.
       if wide then set_cell q (off + 8) (an_hi v) vm else Some vm)"

section \<open>Structures\<close>

definition rtt_at :: "vm \<Rightarrow> u32 \<Rightarrow> gc_rtt option" where
  "rtt_at vm ty =
     (if unat ty < length (ic_struct_rtts (vm_ctx vm)) then Some (ic_struct_rtts (vm_ctx vm) ! unat ty) else None)"

definition jav_struct_field_p :: "gc_rtt \<Rightarrow> u32 \<Rightarrow> nat option" where
  "jav_struct_field_p r fld =
     (case rt_field_off r of
        None \<Rightarrow> Some (unat (fld * 8))
      | Some off \<Rightarrow> if unat fld < length off then Some (unat (off ! unat fld)) else None)"

definition jav_struct_field_wide :: "gc_rtt \<Rightarrow> u32 \<Rightarrow> bool" where
  "jav_struct_field_wide r fld =
     (case rt_field_off r of
        None \<Rightarrow> False
      | Some off \<Rightarrow> unat fld + 1 < length off \<and> off ! (unat fld + 1) - off ! unat fld = 16)"

definition jav_struct_get_v :: "vm \<Rightarrow> u32 \<Rightarrow> u32 \<Rightarrow> u64 \<Rightarrow> any_t option" where
  "jav_struct_get_v vm ty fld q =
     Option.bind (rtt_at vm ty) (\<lambda>r. Option.bind (jav_struct_field_p r fld) (\<lambda>off.
       load_any vm q off (jav_struct_field_wide r fld) (if gc_field_is_ref r fld then T_GCREF else T_INT)))"

definition jav_struct_set_v :: "u32 \<Rightarrow> u32 \<Rightarrow> u64 \<Rightarrow> any_t \<Rightarrow> vm \<Rightarrow> vm option" where
  "jav_struct_set_v ty fld q v vm =
     Option.bind (rtt_at vm ty) (\<lambda>r. Option.bind (jav_struct_field_p r fld) (\<lambda>off.
       store_any q off (jav_struct_field_wide r fld) v vm))"

section \<open>Arrays\<close>

definition array_length :: "vm \<Rightarrow> u64 \<Rightarrow> u32" where
  "array_length vm q = ob_len (gh_mem (vm_gc vm) (unat q))"

definition jav_arr_elem_p :: "gc_rtt \<Rightarrow> u32 \<Rightarrow> nat" where
  "jav_arr_elem_p r i = GC_ARRAY_ELEMS_OFFSET + unat i * unat (arr_stride r)"

definition jav_array_get_v :: "vm \<Rightarrow> u32 \<Rightarrow> u64 \<Rightarrow> u32 \<Rightarrow> any_t option" where
  "jav_array_get_v vm ty q i =
     Option.bind (rtt_at vm ty) (\<lambda>r.
       load_any vm q (jav_arr_elem_p r i) (rt_elem_heap_w r = 16) (if rt_elem_is_ref r then T_GCREF else T_INT))"

definition jav_array_set_v :: "u32 \<Rightarrow> u64 \<Rightarrow> u32 \<Rightarrow> any_t \<Rightarrow> vm \<Rightarrow> vm option" where
  "jav_array_set_v ty q i v vm =
     Option.bind (rtt_at vm ty) (\<lambda>r. store_any q (jav_arr_elem_p r i) (rt_elem_heap_w r = 16) v vm)"

definition pack_extend :: "u32 \<Rightarrow> u8 \<Rightarrow> bool \<Rightarrow> u32" where
  "pack_extend v w sx =
     (if w = 2 then (if sx then scast (ucast v :: u16) else ucast (ucast v :: u16))
      else (if sx then scast (ucast v :: u8) else ucast (ucast v :: u8)))"

text \<open>The storage width of a packed field; 0 when the type has no row.\<close>

definition struct_pack_w :: "vm \<Rightarrow> u32 \<Rightarrow> u32 \<Rightarrow> u8" where
  "struct_pack_w vm ty fld =
     (let ps = ic_field_packs (vm_ctx vm) in
      if unat ty < length ps then (case ps ! unat ty of None \<Rightarrow> 0 | Some row \<Rightarrow> row ! unat fld) else 0)"

text \<open>The counting loops of the handlers: \<open>n - 1\<close> down to 0, and 0 up to \<open>n - 1\<close>.\<close>

fun down_loop :: "(nat \<Rightarrow> 'a \<Rightarrow> 'a option) \<Rightarrow> nat \<Rightarrow> 'a \<Rightarrow> 'a option" where
  "down_loop f 0 s = Some s"
| "down_loop f (Suc n) s = Option.bind (f n s) (down_loop f n)"

fun up_loop :: "(nat \<Rightarrow> 'a \<Rightarrow> 'a option) \<Rightarrow> nat list \<Rightarrow> 'a \<Rightarrow> 'a option" where
  "up_loop f [] s = Some s"
| "up_loop f (k # ks) s = Option.bind (f k s) (up_loop f ks)"

definition slot_any :: "vm \<Rightarrow> nat \<Rightarrow> any_t" where
  "slot_any vm i =
     \<lparr>an_bits = sl_lo (vm_value_stack vm i), an_hi = sl_hi (vm_value_stack vm i), an_kind = vm_value_types vm i\<rparr>"

section \<open>Handlers for references\<close>

definition jav_is_null :: "any_t \<Rightarrow> bool" where
  "jav_is_null r = jav_ref_isnull (an_bits r)"

definition gen_op_ref_null :: handler where
  "gen_op_ref_null E vm = (let (ht, vm) = imm_i64 E vm in Next (gpush_ref JAV_NULLREF vm))"

text \<open>Three handlers compare the low half of the reference with null.\<close>

definition gen_op_ref_is_null :: handler where
  "gen_op_ref_is_null E vm =
     (let (a, vm) = gpop_ref vm in Next (gpush_int (if (ucast a :: u32) = ucast JAV_NULLREF then 1 else 0) vm))"

definition gen_op_ref_as_non_null :: handler where
  "gen_op_ref_as_non_null E vm =
     (let (a, vm) = gpop_ref vm in
      if (ucast a :: u32) = ucast JAV_NULLREF then guard_trap NullReference vm else Next (gpush_ref a vm))"

definition gen_op_ref_func :: handler where
  "gen_op_ref_func E vm = (let (i, vm) = imm_u32 E vm in Next (gpush_ref (func_at (vm_ctx vm) i) vm))"

definition gen_op_ref_i31 :: handler where
  "gen_op_ref_i31 E vm =
     (let (a, vm) = gpop_int vm in Next (gpush_ref (push_bit 1 (scast (a AND 2147483647)) OR 1) vm))"

definition gen_op_i31_get_s :: handler where
  "gen_op_i31_get_s E vm =
     (let (a, vm) = gpop_ref vm in
      if (ucast a :: u32) = ucast JAV_NULLREF then guard_trap NullI31Reference vm
      else Next (gpush_int (signed_drop_bit 1 (ucast a)) vm))"

definition gen_op_i31_get_u :: handler where
  "gen_op_i31_get_u E vm =
     (let (a, vm) = gpop_ref vm in
      if (ucast a :: u32) = ucast JAV_NULLREF then guard_trap NullI31Reference vm
      else Next (gpush_int (ucast (drop_bit 1 a AND 2147483647)) vm))"

definition gen_op_ref_eq :: handler where
  "gen_op_ref_eq E vm =
     (let (b, vm) = gpop_ref vm; (a, vm) = gpop_ref vm in Next (gpush_int (if a = b then 1 else 0) vm))"

definition gen_op_any_convert_extern :: handler where
  "gen_op_any_convert_extern E vm = (let (a, vm) = gpop_any vm in Next (gpush_any a vm))"

definition gen_op_extern_convert_any :: handler where
  "gen_op_extern_convert_any E vm = (let (a, vm) = gpop_any vm in Next (gpush_any a vm))"

section \<open>Handlers for structures\<close>

text \<open>The outcome of a handler whose access may be undefined.\<close>

definition next_or_fault :: "vm option \<Rightarrow> vm_out" where
  "next_or_fault r = (case r of None \<Rightarrow> Fault | Some vm \<Rightarrow> Next vm)"

definition vm_struct_alloc :: "ienv \<Rightarrow> u32 \<Rightarrow> vm \<Rightarrow> (u64 \<times> vm) option" where
  "vm_struct_alloc E ty vm =
     or_trap (on_heap E (jav_struct_alloc (ie_os E) (ie_malloc E) (ic_struct_rtts (vm_ctx vm)) ty) vm)"

definition gen_op_struct_new :: handler where
  "gen_op_struct_new E vm =
     (let (ty, vm) = imm_u32 E vm; n = jav_struct_nfields (ic_struct_rtts (vm_ctx vm)) ty;
          base = stk_at vm (vm_sp vm - n) in
      next_or_fault
        (Option.bind (vm_struct_alloc E ty vm) (\<lambda>(q, vm).
         map_option (\<lambda>vm. gpush_word (word_l E q) T_GCREF (gdrop n vm))
           (down_loop (\<lambda>i vm. jav_struct_set_v ty (word_of_nat i) q (slot_any vm (base + i)) vm) (nat (sint n)) vm))))"

definition gen_op_struct_get :: handler where
  "gen_op_struct_get E vm =
     (let (ty, vm) = imm_u32 E vm; (fld, vm) = imm_u32 E vm; (q, vm) = gpop_ref vm in
      if jav_ref_isnull q then guard_trap NullStructureReference vm
      else next_or_fault (map_option (\<lambda>v. gpush_any v vm) (jav_struct_get_v vm ty fld q)))"

definition gen_op_struct_set :: handler where
  "gen_op_struct_set E vm =
     (let (ty, vm) = imm_u32 E vm; (fld, vm) = imm_u32 E vm; (v, vm) = gpop_any vm; (q, vm) = gpop_ref vm in
      if jav_ref_isnull q then guard_trap NullStructureReference vm
      else next_or_fault (jav_struct_set_v ty fld q v vm))"

definition jav_struct_new_default :: "ienv \<Rightarrow> u32 \<Rightarrow> vm \<Rightarrow> (any_t \<times> vm) option" where
  "jav_struct_new_default E ty vm =
     Option.bind (vm_struct_alloc E ty vm) (\<lambda>(q, vm).
       if q = 0 then Some (\<lparr>an_bits = 0, an_hi = 0, an_kind = T_REF\<rparr>, vm)
       else map_option (\<lambda>vm. (\<lparr>an_bits = q, an_hi = 0, an_kind = T_GCREF\<rparr>, vm))
              (up_loop (\<lambda>off. set_cell q (off - GC_HEADER) JAV_NULLREF)
                 (map unat (rt_ref_offsets (ic_struct_rtts (vm_ctx vm) ! unat ty))) vm))"

definition gen_op_struct_new_default :: handler where
  "gen_op_struct_new_default E vm =
     (let (ty, vm) = imm_u32 E vm
      in next_or_fault (map_option (\<lambda>(v, vm). gpush_any v vm) (jav_struct_new_default E ty vm)))"

text \<open>The packed reads differ in the extension only.\<close>

definition struct_get_packed :: "bool \<Rightarrow> handler" where
  "struct_get_packed sx E vm =
     (let (ty, vm) = imm_u32 E vm; (fld, vm) = imm_u32 E vm; (q, vm) = gpop_ref vm in
      if jav_ref_isnull q then guard_trap NullStructureReference vm
      else next_or_fault
        (Option.bind (rtt_at vm ty) (\<lambda>r. Option.bind (jav_struct_field_p r fld) (\<lambda>off.
         map_option (\<lambda>v. gpush_int (pack_extend (ucast v) (struct_pack_w vm ty fld) sx) vm) (get_cell vm q off)))))"

definition gen_op_struct_get_s :: handler where
  "gen_op_struct_get_s = struct_get_packed True"

definition gen_op_struct_get_u :: handler where
  "gen_op_struct_get_u = struct_get_packed False"

section \<open>Handlers for arrays\<close>

definition vm_array_alloc :: "ienv \<Rightarrow> u32 \<Rightarrow> u32 \<Rightarrow> vm \<Rightarrow> (u64 \<times> vm) option" where
  "vm_array_alloc E ty n vm =
     or_trap (on_heap E (jav_array_alloc (ie_os E) (ie_malloc E) (ic_struct_rtts (vm_ctx vm)) ty n) vm)"

definition gen_op_array_new :: handler where
  "gen_op_array_new E vm =
     (let (ty, vm) = imm_u32 E vm; (len, vm) = gpop_int vm; (init, vm) = gpop_any vm in
      next_or_fault
        (Option.bind (vm_array_alloc E ty len vm) (\<lambda>(q, vm).
         map_option (gpush_word (word_l E q) T_GCREF)
           (down_loop (\<lambda>i. jav_array_set_v ty q (word_of_nat i) init) (nat (sint len)) vm))))"

definition gen_op_array_new_default :: handler where
  "gen_op_array_new_default E vm =
     (let (ty, vm) = imm_u32 E vm; (len, vm) = gpop_int vm in
      next_or_fault
        (map_option
           (\<lambda>(q, vm). gpush_any \<lparr>an_bits = q, an_hi = 0, an_kind = if q = 0 then T_REF else T_GCREF\<rparr> vm)
           (or_trap (on_heap E
              (jav_array_new_default (ie_os E) (ie_malloc E) (ic_struct_rtts (vm_ctx vm)) ty len) vm))))"

definition gen_op_array_new_fixed :: handler where
  "gen_op_array_new_fixed E vm =
     (let (ty, vm) = imm_u32 E vm; (n, vm) = imm_u32 E vm; base = stk_at vm (vm_sp vm - n) in
      next_or_fault
        (Option.bind (vm_array_alloc E ty n vm) (\<lambda>(q, vm).
         map_option (\<lambda>vm. gpush_word (word_l E q) T_GCREF (gdrop n vm))
           (down_loop (\<lambda>i vm. jav_array_set_v ty q (word_of_nat i) (slot_any vm (base + i)) vm) (nat (sint n)) vm))))"

definition gen_op_array_get :: handler where
  "gen_op_array_get E vm =
     (let (ty, vm) = imm_u32 E vm; (i, vm) = gpop_int vm; (q, vm) = gpop_ref vm in
      if jav_ref_isnull q then guard_trap NullArrayReference vm
      else if array_length vm q \<le> i then guard_trap OutOfBoundsArrayAccess vm
      else next_or_fault (map_option (\<lambda>v. gpush_any v vm) (jav_array_get_v vm ty q i)))"

definition gen_op_array_set :: handler where
  "gen_op_array_set E vm =
     (let (ty, vm) = imm_u32 E vm; (v, vm) = gpop_any vm; (i, vm) = gpop_int vm; (q, vm) = gpop_ref vm in
      if jav_ref_isnull q then guard_trap NullArrayReference vm
      else if array_length vm q \<le> i then guard_trap OutOfBoundsArrayAccess vm
      else next_or_fault (jav_array_set_v ty q i v vm))"

definition gen_op_array_len :: handler where
  "gen_op_array_len E vm =
     (let (a, vm) = gpop_ref vm in
      if jav_ref_isnull a then guard_trap NullArrayReference vm else Next (gpush_int (array_length vm a) vm))"

definition array_get_packed :: "bool \<Rightarrow> handler" where
  "array_get_packed sx E vm =
     (let (ty, vm) = imm_u32 E vm; (i, vm) = gpop_int vm; (q, vm) = gpop_ref vm in
      if jav_ref_isnull q then guard_trap NullArrayReference vm
      else if array_length vm q \<le> i then guard_trap OutOfBoundsArrayAccess vm
      else next_or_fault
        (Option.bind (rtt_at vm ty) (\<lambda>r.
         map_option (\<lambda>v. gpush_int (pack_extend (ucast v) (rt_elem_store_w r) sx) vm)
           (get_cell vm q (jav_arr_elem_p r i)))))"

definition gen_op_array_get_s :: handler where
  "gen_op_array_get_s = array_get_packed True"

definition gen_op_array_get_u :: handler where
  "gen_op_array_get_u = array_get_packed False"

definition gen_op_array_fill :: handler where
  "gen_op_array_fill E vm =
     (let (ty, vm) = imm_u32 E vm; (n, vm) = gpop_int vm; (v, vm) = gpop_any vm; (i, vm) = gpop_int vm;
          (q, vm) = gpop_ref vm in
      if jav_ref_isnull q then guard_trap NullArrayReference vm
      else if \<not> (i \<le> array_length vm q \<and> n \<le> array_length vm q - i) then guard_trap OutOfBoundsArrayAccess vm
      else next_or_fault
        (up_loop (\<lambda>k. jav_array_set_v ty q (i + word_of_nat k) v) [0..<nat (sint n)] vm))"

definition array_copy_elem :: "u32 \<Rightarrow> u64 \<Rightarrow> u32 \<Rightarrow> u32 \<Rightarrow> u64 \<Rightarrow> u32 \<Rightarrow> vm \<Rightarrow> vm option" where
  "array_copy_elem dt d di st s si vm =
     Option.bind (jav_array_get_v vm st s si) (\<lambda>v. jav_array_set_v dt d di v vm)"

definition gen_op_array_copy :: handler where
  "gen_op_array_copy E vm =
     (let (dt, vm) = imm_u32 E vm; (st, vm) = imm_u32 E vm; (n, vm) = gpop_int vm; (si, vm) = gpop_int vm;
          (s, vm) = gpop_ref vm; (di, vm) = gpop_int vm; (d, vm) = gpop_ref vm;
          step = (\<lambda>k. array_copy_elem dt d (di + word_of_nat k) st s (si + word_of_nat k)) in
      if jav_ref_isnull d \<or> jav_ref_isnull s then guard_trap NullArrayReference vm
      else if \<not> (di \<le> array_length vm d \<and> n \<le> array_length vm d - di \<and>
                 si \<le> array_length vm s \<and> n \<le> array_length vm s - si) then guard_trap OutOfBoundsArrayAccess vm
      else next_or_fault
        (if di \<le>s si then up_loop step [0..<nat (sint n)] vm else down_loop step (nat (sint n)) vm))"

section \<open>Arrays from segments\<close>

definition array_elem_width :: "vm \<Rightarrow> u32 \<Rightarrow> u64" where
  "array_elem_width vm ty = (case rtt_at vm ty of None \<Rightarrow> 0 | Some r \<Rightarrow> ucast (rt_elem_store_w r))"

text \<open>Element \<open>k\<close> of a data segment, written to the cell of element \<open>i\<close>.\<close>

definition data_elem :: "gc_rtt \<Rightarrow> u8 list \<Rightarrow> u64 \<Rightarrow> nat \<Rightarrow> u32 \<Rightarrow> vm \<Rightarrow> vm option" where
  "data_elem r bs q p i =
     (let w = unat (rt_elem_store_w r); b = take w (drop p bs) in
      if w = 16 then
        store_any q (jav_arr_elem_p r i) True \<lparr>an_bits = le_word (take 8 b), an_hi = le_word (drop 8 b), an_kind = T_V128\<rparr>
      else set_cell q (jav_arr_elem_p r i) (le_word b))"

definition jav_array_new_data :: "ienv \<Rightarrow> u32 \<Rightarrow> u32 \<Rightarrow> u32 \<Rightarrow> u32 \<Rightarrow> vm \<Rightarrow> (any_t \<times> vm) option" where
  "jav_array_new_data E ty seg off n vm =
     (let c = vm_ctx vm; null = \<lparr>an_bits = 0, an_hi = 0, an_kind = T_REF\<rparr> in
      if length (ic_struct_rtts c) \<le> unat ty \<or> length (ic_data_segs c) \<le> unat seg
      then Some (null, jav_trap_with JAV_TRAP_NONE vm)
      else
        let r = ic_struct_rtts c ! unat ty; w = rt_elem_store_w r; bs = ic_data_segs c ! unat seg;
            len = (if ic_data_dropped c ! unat seg then 0 else word_of_nat (length bs)) :: u64
        in if n <s 0 \<or> off <s 0 \<or> len < scast off + scast n * ucast w
           then Some (null, jav_trap_with OutOfBoundsMemoryAccess vm)
           else
             Option.bind (vm_array_alloc E ty n vm) (\<lambda>(q, vm).
               if q = 0 then Some (null, vm)
               else map_option (\<lambda>vm. (\<lparr>an_bits = q, an_hi = 0, an_kind = T_GCREF\<rparr>, vm))
                      (up_loop (\<lambda>k. data_elem r bs q (unat off + k * unat w) (word_of_nat k)) [0..<unat n] vm)))"

definition gen_op_array_new_data :: handler where
  "gen_op_array_new_data E vm =
     (let (ty, vm) = imm_u32 E vm; (seg, vm) = imm_u32 E vm; (n, vm) = gpop_int vm; (off, vm) = gpop_int vm in
      if \<not> (0 \<le>s n \<and> 0 \<le>s off \<and> scast off + scast n * array_elem_width vm ty \<le>s data_seg_len vm seg)
      then guard_trap OutOfBoundsMemoryAccess vm
      else next_or_fault (map_option (\<lambda>(v, vm). gpush_any v vm) (jav_array_new_data E ty seg off n vm)))"

definition jav_array_new_elem :: "ienv \<Rightarrow> u32 \<Rightarrow> u32 \<Rightarrow> u32 \<Rightarrow> u32 \<Rightarrow> vm \<Rightarrow> (any_t \<times> vm) option" where
  "jav_array_new_elem E ty seg off n vm =
     (let c = vm_ctx vm; null = \<lparr>an_bits = 0, an_hi = 0, an_kind = T_REF\<rparr> in
      if length (ic_struct_rtts c) \<le> unat ty \<or> length (ic_elem_segs c) \<le> unat seg
      then Some (null, jav_trap_with JAV_TRAP_NONE vm)
      else
        let r = ic_struct_rtts c ! unat ty; es = ic_elem_segs c ! unat seg;
            len = (if ic_elem_dropped c ! unat seg then 0 else word_of_nat (length (es_values es))) :: u64;
            sz = word_of_nat GC_HEADER + word_of_nat GC_ARRAY_ELEMS_OFFSET + n * word_of_nat GC_ARRAY_ELEM_BYTES
        in if n <s 0 \<or> off <s 0 \<or> len < scast off + scast n
           then Some (null, jav_trap_with OutOfBoundsTableAccess vm)
           else
             Option.bind
               (or_trap (on_heap E (\<lambda>h. map_option
                  (\<lambda>(p, h). (p, case p of None \<Rightarrow> h | Some a \<Rightarrow> set_obj a (\<lambda>ob. ob\<lparr>ob_len := n\<rparr>) h))
                  (gc_alloc (ie_os E) (ie_malloc E) r sz h)) vm)) (\<lambda>(q, vm).
               if q = 0 then Some (null, vm)
               else
                 let es = ic_elem_segs (vm_ctx vm) ! unat seg in
                 map_option (\<lambda>vm. (\<lparr>an_bits = q, an_hi = 0, an_kind = T_GCREF\<rparr>, vm))
                   (up_loop (\<lambda>k. set_cell q (GC_ARRAY_ELEMS_OFFSET + 8 * k) (es_values es ! (unat off + k))) [0..<unat n] vm)))"

definition gen_op_array_new_elem :: handler where
  "gen_op_array_new_elem E vm =
     (let (ty, vm) = imm_u32 E vm; (seg, vm) = imm_u32 E vm; (n, vm) = gpop_int vm; (off, vm) = gpop_int vm in
      if \<not> (0 \<le>s n \<and> 0 \<le>s off \<and> scast off + scast n \<le>s elem_seg_len vm seg)
      then guard_trap OutOfBoundsTableAccess vm
      else next_or_fault (map_option (\<lambda>(v, vm). gpush_any v vm) (jav_array_new_elem E ty seg off n vm)))"

definition jav_array_init_data :: "u32 \<Rightarrow> u32 \<Rightarrow> u64 \<Rightarrow> u32 \<Rightarrow> u32 \<Rightarrow> u32 \<Rightarrow> vm \<Rightarrow> vm option" where
  "jav_array_init_data ty seg arr d s n vm =
     (let c = vm_ctx vm in
      if length (ic_struct_rtts c) \<le> unat ty \<or> length (ic_data_segs c) \<le> unat seg
      then Some (jav_trap_with JAV_TRAP_NONE vm)
      else
        let r = ic_struct_rtts c ! unat ty; w = rt_elem_store_w r; bs = ic_data_segs c ! unat seg;
            len = (if ic_data_dropped c ! unat seg then 0 else word_of_nat (length bs)) :: u64
        in if arr = 0 then Some (jav_trap_with NullArrayReference vm)
           else if n <s 0 \<or> d <s 0 \<or> ucast (array_length vm arr) < (scast d + scast n :: u64)
             then Some (jav_trap_with OutOfBoundsArrayAccess vm)
           else if s <s 0 \<or> len < scast s + scast n * ucast w then Some (jav_trap_with OutOfBoundsMemoryAccess vm)
           else up_loop (\<lambda>k. data_elem r bs arr (unat s + k * unat w) (d + word_of_nat k)) [0..<unat n] vm)"

definition gen_op_array_init_data :: handler where
  "gen_op_array_init_data E vm =
     (let (ty, vm) = imm_u32 E vm; (seg, vm) = imm_u32 E vm; (n, vm) = gpop_int vm; (s, vm) = gpop_int vm;
          (d, vm) = gpop_int vm; (arr, vm) = gpop_ref vm in
      if jav_ref_isnull arr then guard_trap NullArrayReference vm
      else if \<not> (0 \<le>s n \<and> 0 \<le>s d \<and> scast d + scast n \<le>s (scast (array_length vm arr) :: u64))
        then guard_trap OutOfBoundsArrayAccess vm
      else if \<not> (0 \<le>s s \<and> scast s + scast n * array_elem_width vm ty \<le>s data_seg_len vm seg)
        then guard_trap OutOfBoundsMemoryAccess vm
      else next_or_fault (jav_array_init_data ty seg arr d s n vm))"

definition jav_array_init_elem :: "u32 \<Rightarrow> u64 \<Rightarrow> u32 \<Rightarrow> u32 \<Rightarrow> u32 \<Rightarrow> vm \<Rightarrow> vm option" where
  "jav_array_init_elem seg arr d s n vm =
     (let c = vm_ctx vm in
      if length (ic_elem_segs c) \<le> unat seg then Some (jav_trap_with JAV_TRAP_NONE vm)
      else
        let es = ic_elem_segs c ! unat seg;
            len = (if ic_elem_dropped c ! unat seg then 0 else word_of_nat (length (es_values es))) :: u64
        in if arr = 0 then Some (jav_trap_with NullArrayReference vm)
           else if n <s 0 \<or> d <s 0 \<or> ucast (array_length vm arr) < (scast d + scast n :: u64)
             then Some (jav_trap_with OutOfBoundsArrayAccess vm)
           else if s <s 0 \<or> len < scast s + scast n then Some (jav_trap_with OutOfBoundsTableAccess vm)
           else up_loop
                  (\<lambda>k. set_cell arr (GC_ARRAY_ELEMS_OFFSET + 8 * (unat d + k)) (es_values es ! (unat s + k))) [0..<unat n] vm)"

definition gen_op_array_init_elem :: handler where
  "gen_op_array_init_elem E vm =
     (let (ty, vm) = imm_u32 E vm; (seg, vm) = imm_u32 E vm; (n, vm) = gpop_int vm; (s, vm) = gpop_int vm;
          (d, vm) = gpop_int vm; (arr, vm) = gpop_ref vm in
      if jav_ref_isnull arr then guard_trap NullArrayReference vm
      else if \<not> (0 \<le>s n \<and> 0 \<le>s d \<and> scast d + scast n \<le>s (scast (array_length vm arr) :: u64))
        then guard_trap OutOfBoundsArrayAccess vm
      else if \<not> (0 \<le>s s \<and> scast s + scast n \<le>s elem_seg_len vm seg) then guard_trap OutOfBoundsTableAccess vm
      else next_or_fault (jav_array_init_elem seg arr d s n vm))"

end
