(* ===== verification/VmCall.thy ===== *)
theory VmCall
  imports VmNum VmRef
begin

text \<open>
  Control: the branch, call and exception handlers of \<open>gen/gen_interp.c\<close>, the calling convention and
  the exception unwinder of \<open>jav_runtime.c\<close>, and the dispatch loop of \<open>interp.c\<close>.

  Calls run nested: \<open>exec\<close> is the recursion of the interpreter, the call sequence and its loop over
  tail calls in one function over jobs.  \<open>None\<close> is undefined behaviour or a run that does not end.
\<close>

section \<open>Branches\<close>

definition next_stp :: "vm \<Rightarrow> vm" where
  "next_stp = upd_frame (\<lambda>f. f\<lparr>fr_stp := fr_stp f + 1\<rparr>)"

definition transfer :: "vm \<Rightarrow> vm_out" where
  "transfer vm = next_or_fault (opgen_do_transfer vm)"

text \<open>A block type, with the heap type that follows two of its codes.\<close>

definition imm_blocktype :: "ienv \<Rightarrow> vm \<Rightarrow> int \<times> vm" where
  "imm_blocktype E vm =
     (let (bt, vm) = imm_i32 E vm in (bt, if bt = -29 \<or> bt = -28 then snd (imm_i32 E vm) else vm))"

definition gen_op_block :: handler where
  "gen_op_block E vm = (let (bt, vm) = imm_blocktype E vm in Next vm)"

definition gen_op_loop :: handler where
  "gen_op_loop E vm = (let (bt, vm) = imm_blocktype E vm in Next vm)"

definition gen_op_if :: handler where
  "gen_op_if E vm =
     (let (bt, vm) = imm_blocktype E vm; (cond, vm) = gpop_int vm
      in if cond = 0 then transfer vm else Next (next_stp vm))"

definition gen_op_else :: handler where
  "gen_op_else E vm = transfer vm"

definition gen_op_end :: handler where
  "gen_op_end E vm = Next vm"

definition gen_op_br :: handler where
  "gen_op_br E vm = (let (label, vm) = imm_u32 E vm in transfer vm)"

definition gen_op_br_if :: handler where
  "gen_op_br_if E vm =
     (let (label, vm) = imm_u32 E vm; (cond, vm) = gpop_int vm
      in if cond \<noteq> 0 then transfer vm else Next (next_stp vm))"

text \<open>The loop reads the labels 0 to \<open>count\<close>; with the greatest count its test never fails.\<close>

partial_function (option) skip_labels :: "ienv \<Rightarrow> u32 \<Rightarrow> u32 \<Rightarrow> vm \<Rightarrow> vm option" where
  "skip_labels E i count vm =
     (if i \<le> count then skip_labels E (i + 1) count (snd (imm_u32 E vm)) else Some vm)"

definition gen_op_br_table :: handler where
  "gen_op_br_table E vm =
     (let (count, vm) = imm_u32 E vm in
      case skip_labels E 0 count vm of
        None \<Rightarrow> Fault
      | Some vm \<Rightarrow>
          let (key, vm) = gpop_int vm in
          transfer (upd_frame (\<lambda>f. f\<lparr>fr_stp := fr_stp f + (if count < key then count else key)\<rparr>) vm))"

definition gen_op_return :: handler where
  "gen_op_return E vm = Next (upd_frame (\<lambda>f. f\<lparr>fr_pos := length (fr_code f)\<rparr>) vm)"

definition gen_op_br_on_null :: handler where
  "gen_op_br_on_null E vm =
     (let (label, vm) = imm_u32 E vm; (r, vm) = gpop_any vm
      in if jav_is_null r then transfer vm else Next (gpush_any r (next_stp vm)))"

definition gen_op_br_on_non_null :: handler where
  "gen_op_br_on_non_null E vm =
     (let (label, vm) = imm_u32 E vm; (r, vm) = gpop_any vm
      in if \<not> jav_is_null r then transfer (gpush_any r vm) else Next (next_stp vm))"

section \<open>Call instructions\<close>

definition jav_type_nparams :: "vm \<Rightarrow> u32 \<Rightarrow> u32" where
  "jav_type_nparams vm ty = word_of_nat (ft_nparams (ic_types (vm_ctx vm) ! unat ty))"

definition jav_tail_invoke_ref :: "u64 \<Rightarrow> vm \<Rightarrow> vm" where
  "jav_tail_invoke_ref r vm =
     upd_frame (\<lambda>f. f\<lparr>fr_pos := length (fr_code f)\<rparr>) (vm\<lparr>vm_tail_pending := True, vm_tail_fn := r\<rparr>)"

text \<open>Does the function reference match the type?  \<open>None\<close> where the subtype test does not return.\<close>

definition jav_funcref_typematch :: "ienv \<Rightarrow> vm \<Rightarrow> u64 \<Rightarrow> u32 \<Rightarrow> bool option" where
  "jav_funcref_typematch E vm r ty =
     (if length (ic_types (vm_ctx vm)) \<le> unat ty then Some False
      else
        let fn = ie_func E r; mine = ic_lattice (vm_ctx vm);
            theirs = Option.bind (fn_inst_ctx fn) (\<lambda>ci. ic_lattice (vm_inst vm ci))
        in case (fn_inst_ctx fn, mine, theirs) of
             (Some ci, Some (a, lat), Some (b, _)) \<Rightarrow>
               if a = b then jav_ht_sub (Some lat) (sint (fn_type_index fn)) (sint ty)
               else Some (ie_closed_match E vm r ty)
           | _ \<Rightarrow> Some (ie_closed_match E vm r ty))"

definition gen_op_call :: handler where
  "gen_op_call E vm =
     (let (i, vm) = imm_u32 E vm; c = vm_ctx vm; fn = func_at c i in
      if ic_num_functions c \<le> i then Fault
      else Invoke fn (gdrop (fn_num_params (ie_func E fn)) vm))"

definition gen_op_return_call :: handler where
  "gen_op_return_call E vm =
     (let (i, vm) = imm_u32 E vm; c = vm_ctx vm; fn = func_at c i in
      if ic_num_functions c \<le> i then Fault
      else Next (jav_tail_invoke_ref fn (gdrop (fn_num_params (ie_func E fn)) vm)))"

text \<open>The common part of the two indirect calls: the element, once the three guards are passed.\<close>

definition indirect_target :: "ienv \<Rightarrow> vm \<Rightarrow> (u64 \<Rightarrow> vm \<Rightarrow> vm_out) \<Rightarrow> vm_out" where
  "indirect_target E vm k =
     (let (ty, vm) = imm_u32 E vm; (tb, vm) = imm_u32 E vm in
      case tab_at vm tb of
        None \<Rightarrow> Fault
      | Some a \<Rightarrow>
          if length (ic_types (vm_ctx vm)) \<le> unat ty then Fault
          else
            let t = vm_tables vm ! a; (i, vm) = gpop_addr (ti_is64 t) vm; vm = gdrop (jav_type_nparams vm ty) vm in
            if \<not> i < ti_len t then guard_trap UndefinedElement vm
            else
              let r = ti_refs t ! unat i in
              if jav_ref_isnull r then guard_trap UninitializedElement vm
              else (case jav_funcref_typematch E vm r ty of
                      None \<Rightarrow> Fault
                    | Some m \<Rightarrow> if \<not> m then guard_trap IndirectCallTypeMismatch vm else k r vm))"

definition gen_op_call_indirect :: handler where
  "gen_op_call_indirect E vm = indirect_target E vm Invoke"

definition gen_op_return_call_indirect :: handler where
  "gen_op_return_call_indirect E vm = indirect_target E vm (\<lambda>r vm. Next (jav_tail_invoke_ref r vm))"

definition ref_target :: "ienv \<Rightarrow> vm \<Rightarrow> (u64 \<Rightarrow> vm \<Rightarrow> vm_out) \<Rightarrow> vm_out" where
  "ref_target E vm k =
     (let (ty, vm) = imm_u32 E vm; (r, vm) = gpop_any vm in
      if length (ic_types (vm_ctx vm)) \<le> unat ty then Fault
      else
        let vm = gdrop (jav_type_nparams vm ty) vm in
        if jav_is_null r then guard_trap NullFunctionReference vm else k (an_bits r) vm)"

definition gen_op_call_ref :: handler where
  "gen_op_call_ref E vm = ref_target E vm Invoke"

definition gen_op_return_call_ref :: handler where
  "gen_op_return_call_ref E vm = ref_target E vm (\<lambda>r vm. Next (jav_tail_invoke_ref r vm))"

section \<open>Exception objects\<close>

text \<open>
  The payload holds the tag identity and the field count (4 bytes each), 16-byte slots, and one tag
  byte per field; the first word is the length word of the object.
\<close>

definition exn_obj_size :: "nat \<Rightarrow> u32" where
  "exn_obj_size n = word_of_nat (GC_HEADER + 8 + n * 17)"

definition exn_field_off :: "nat \<Rightarrow> nat" where
  "exn_field_off k = GC_HEADER + 8 + 16 * k"

definition tag_code :: "vtag \<Rightarrow> nat" where
  "tag_code t =
     (case t of T_VOID \<Rightarrow> 0 | T_INT \<Rightarrow> 1 | T_LONG \<Rightarrow> 2 | T_FLOAT \<Rightarrow> 3 | T_DOUBLE \<Rightarrow> 4 | T_V128 \<Rightarrow> 5
      | T_REF \<Rightarrow> 6 | T_GCREF \<Rightarrow> 7)"

definition tag_of :: "nat \<Rightarrow> vtag" where
  "tag_of c = [T_VOID, T_INT, T_LONG, T_FLOAT, T_DOUBLE, T_V128, T_REF, T_GCREF] ! c"

definition exn_nfields :: "gc_obj \<Rightarrow> nat" where
  "exn_nfields ob = ob_cell ob (GC_HEADER + 4)"

definition exn_field :: "gc_obj \<Rightarrow> nat \<Rightarrow> slot" where
  "exn_field ob k =
     \<lparr>sl_lo = word_of_nat (ob_cell ob (exn_field_off k)), sl_hi = word_of_nat (ob_cell ob (exn_field_off k + 8))\<rparr>"

definition exn_ftype :: "gc_obj \<Rightarrow> nat \<Rightarrow> vtag" where
  "exn_ftype ob k = tag_of (ob_cell ob (exn_field_off (exn_nfields ob) + k))"

definition exn_set :: "nat \<Rightarrow> any_t \<Rightarrow> gc_obj \<Rightarrow> gc_obj" where
  "exn_set i v ob =
     ob\<lparr>ob_cell := (ob_cell ob)(exn_field_off i := unat (an_bits v), exn_field_off i + 8 := unat (an_hi v),
                               exn_field_off (exn_nfields ob) + i := tag_code (an_kind v))\<rparr>"

text \<open>The layout of a tag's exception objects, built from the tags of the first throw and then cached.\<close>

definition jav_exn_rtt_for :: "u32 \<Rightarrow> vtag list \<Rightarrow> (u32 \<times> gc_rtt) list \<Rightarrow> gc_rtt \<times> (u32 \<times> gc_rtt) list" where
  "jav_exn_rtt_for tagaddr ftypes cache =
     (case map_of cache tagaddr of
        Some r \<Rightarrow> (r, cache)
      | None \<Rightarrow>
          let r = \<lparr>rt_size = exn_obj_size (length ftypes), rt_nfields = 0, rt_kind = GC_KIND_STRUCT,
                   rt_elem_is_ref = False, rt_elem_store_w = 0, rt_elem_heap_w = 0, rt_field_off = None, rt_gid = 0,
                   rt_ref_offsets =
                     map (\<lambda>k. word_of_nat (exn_field_off k)) (filter (\<lambda>k. ftypes ! k = T_GCREF) [0..<length ftypes])\<rparr>
          in (r, cache @ [(tagaddr, r)]))"

definition jav_tag_nparams :: "vm \<Rightarrow> u32 \<Rightarrow> nat" where
  "jav_tag_nparams vm tag =
     (if unat tag < length (ic_tags (vm_ctx vm)) then ft_nparams (ic_tags (vm_ctx vm) ! unat tag) else 0)"

definition jav_exn_alloc_for_throw :: "ienv \<Rightarrow> u32 \<Rightarrow> vm \<Rightarrow> (u64 \<times> vm) option" where
  "jav_exn_alloc_for_throw E tag vm =
     (let c = vm_ctx vm in
      if length (ic_tags c) \<le> unat tag then Some (0, jav_trap_with JAV_TRAP_NONE vm)
      else
        let np = ft_nparams (ic_tags c ! unat tag); tagaddr = ic_tag_ids c ! unat tag;
            base = stk_at vm (vm_sp vm - word_of_nat np);
            (r, cache) = jav_exn_rtt_for tagaddr (map (\<lambda>k. vm_value_types vm (base + k)) [0..<np]) (vm_exn_rtts vm);
            vm = vm\<lparr>vm_exn_rtts := cache\<rparr>
        in or_trap (on_heap E (\<lambda>h. map_option
             (\<lambda>(p, h). (p, case p of None \<Rightarrow> h
                           | Some a \<Rightarrow> set_obj a (\<lambda>ob. ob\<lparr>ob_len := tagaddr,
                                                         ob_cell := (ob_cell ob)(GC_HEADER + 4 := np)\<rparr>) h))
             (gc_alloc (ie_os E) (ie_malloc E) r (rt_size r) h)) vm))"

section \<open>Throwing\<close>

text \<open>Handlers of this frame whose block the code has left are dropped.\<close>

function prune_handlers :: "u32 \<Rightarrow> vm \<Rightarrow> vm" where
  "prune_handlers pc vm =
     (let hs = vm_handlers vm in
      if hs = [] then vm
      else
        let h = last hs in
        if hd_call_depth h \<noteq> vm_call_depth vm \<or> pc < hd_end_pc h then vm
        else prune_handlers pc (vm\<lparr>vm_handlers := butlast hs\<rparr>))"
  by pat_completeness auto
termination by (relation "measure (\<lambda>(pc, vm). length (vm_handlers vm))") (auto simp: Let_def)

text \<open>The first clause that matches the tag identity, with its kind.\<close>

fun match_catch :: "ienv \<Rightarrow> instctx \<Rightarrow> u32 \<Rightarrow> u8 list \<Rightarrow> nat \<Rightarrow> nat \<Rightarrow> nat \<Rightarrow> (nat \<times> u8) option" where
  "match_catch E c tagid code pos i 0 = None"
| "match_catch E c tagid code pos i (Suc n) =
     (let (_, ck, pos) = r_u8 (ie_rd E) code pos;
          (tag, pos) = (if ck = 0 \<or> ck = 1 then snd (r_u32 (ie_rd E) code pos) else (0, pos));
          pos = snd (snd (r_u32 (ie_rd E) code pos))
      in if ck = 2 \<or> ck = 3 \<or> (unat tag < length (ic_tags c) \<and> ic_tag_ids c ! unat tag = tagid)
         then Some (i, ck) else match_catch E c tagid code pos (i + 1) n)"

definition push_exn_fields :: "gc_obj \<Rightarrow> vm \<Rightarrow> vm" where
  "push_exn_fields ob vm = fold (\<lambda>k. gpush_word (exn_field ob k) (exn_ftype ob k)) [0..<exn_nfields ob] vm"

text \<open>
  Unwind to the nearest matching clause of this frame; with none, the exception is pending and the
  frame ends.
\<close>

function catch_loop :: "ienv \<Rightarrow> u64 \<Rightarrow> vm \<Rightarrow> vm option" where
  "catch_loop E exn vm =
     (let hs = vm_handlers vm; f = vm_frame vm; ob = gh_mem (vm_gc vm) (unat exn) in
      if hs = [] \<or> hd_call_depth (last hs) \<noteq> vm_call_depth vm then
        Some (upd_frame (\<lambda>f. f\<lparr>fr_pos := length (fr_code f)\<rparr>) (vm\<lparr>vm_pending_exn := exn, vm_unwinding := True\<rparr>))
      else
        let h = last hs; vm = vm\<lparr>vm_handlers := butlast hs\<rparr> in
        case match_catch E (vm_ctx vm) (ob_len ob) (drop (hd_catches h) (fr_code f)) 0 0 (unat (hd_ncatch h)) of
          None \<Rightarrow> catch_loop E exn vm
        | Some (i, ck) \<Rightarrow>
            let vm = set_sp (hd_sp h) vm;
                vm = (if ck = 0 \<or> ck = 1 then push_exn_fields ob vm else vm);
                vm = (if ck = 1 \<or> ck = 3
                      then gpush_word (set_slot_l exn (vm_value_stack vm (stk_at vm (vm_sp vm)))) T_GCREF vm else vm)
            in opgen_do_transfer
                 (upd_frame (\<lambda>f. f\<lparr>fr_pos := unat (hd_try_pc h), fr_stp := hd_catch_stp h + word_of_nat i\<rparr>) vm))"
  by pat_completeness auto
termination by (relation "measure (\<lambda>(E, exn, vm). length (vm_handlers vm))") (auto simp: Let_def)

definition do_throw :: "ienv \<Rightarrow> u64 \<Rightarrow> vm \<Rightarrow> vm option" where
  "do_throw E exn vm =
     (if exn = 0 then None else catch_loop E exn (prune_handlers (word_of_nat (fr_pos (vm_frame vm))) vm))"

definition gen_op_throw :: handler where
  "gen_op_throw E vm =
     (let (tag, vm) = imm_u32 E vm; np = jav_tag_nparams vm tag; base = stk_at vm (vm_sp vm - word_of_nat np) in
      next_or_fault
        (Option.bind (jav_exn_alloc_for_throw E tag vm) (\<lambda>(q, vm).
         Option.bind
           (down_loop (\<lambda>i vm. if q = 0 then None
                              else Some (vm\<lparr>vm_gc := set_obj (unat q) (exn_set i (slot_any vm (base + i))) (vm_gc vm)\<rparr>)) np vm)
           (do_throw E q))))"

definition gen_op_throw_ref :: handler where
  "gen_op_throw_ref E vm =
     (let (r, vm) = gpop_any vm in
      if jav_is_null r then guard_trap NullExceptionReference vm
      else next_or_fault (do_throw E (an_bits r) vm))"

fun skip_catches :: "ienv \<Rightarrow> nat \<Rightarrow> vm \<Rightarrow> vm" where
  "skip_catches E 0 vm = vm"
| "skip_catches E (Suc n) vm =
     (let (ck, vm) = imm_u8 E vm; vm = (if ck = 0 \<or> ck = 1 then snd (imm_u32 E vm) else vm)
      in skip_catches E n (snd (imm_u32 E vm)))"

definition gen_op_try_table :: handler where
  "gen_op_try_table E vm =
     (let (bt, vm) = imm_blocktype E vm; c = vm_ctx vm;
          np = (if 0 \<le> bt \<and> nat bt < length (ic_types c) then ft_nparams (ic_types c ! nat bt) else 0);
          (ncatch, vm) = imm_u32 E vm; catches = fr_pos (vm_frame vm); vm = skip_catches E (unat ncatch) vm;
          pc = word_of_nat (fr_pos (vm_frame vm)); vm = prune_handlers pc vm;
          vm = (case List.find (\<lambda>t. tr_try_pc t = pc) (fr_trytable (vm_frame vm)) of
                  None \<Rightarrow> vm
                | Some t \<Rightarrow>
                    vm\<lparr>vm_handlers := vm_handlers vm @
                      [\<lparr>hd_call_depth = vm_call_depth vm, hd_sp = vm_sp vm - word_of_nat np,
                        hd_catch_stp = tr_catch_stp t, hd_try_pc = pc, hd_end_pc = tr_end_pc t,
                        hd_catches = catches, hd_ncatch = ncatch\<rparr>]\<rparr>)
      in Next (upd_frame (\<lambda>f. f\<lparr>fr_stp := fr_stp f + ncatch\<rparr>) vm))"

end
