(* ===== verification/Interp.thy ===== *)
theory Interp
  imports VmCall
begin

text \<open>
  The dispatch tables at the end of \<open>gen/gen_interp.c\<close>, the dispatch loop of \<open>interp.c\<close> and the
  calling convention of \<open>jav_runtime.c\<close>.

  The handlers of the float and vector instructions and of the casts are the parameter \<open>ie_other\<close>.
\<close>

section \<open>Dispatch\<close>

definition gen_dispatch_main :: "(u8 \<times> handler) list" where
  "gen_dispatch_main = [
    (0, gen_op_unreachable), (1, gen_op_nop), (2, gen_op_block), (3, gen_op_loop),
    (4, gen_op_if), (5, gen_op_else), (8, gen_op_throw), (10, gen_op_throw_ref),
    (11, gen_op_end), (12, gen_op_br), (13, gen_op_br_if), (14, gen_op_br_table),
    (15, gen_op_return), (16, gen_op_call), (17, gen_op_call_indirect),
    (18, gen_op_return_call), (19, gen_op_return_call_indirect), (20, gen_op_call_ref),
    (21, gen_op_return_call_ref), (26, gen_op_drop), (27, gen_op_select),
    (28, gen_op_select_t), (31, gen_op_try_table), (32, gen_op_local_get),
    (33, gen_op_local_set), (34, gen_op_local_tee), (35, gen_op_global_get),
    (36, gen_op_global_set), (37, gen_op_table_get), (38, gen_op_table_set),
    (40, gen_op_i32_load), (41, gen_op_i64_load), (42, gen_op_f32_load), (43, gen_op_f64_load),
    (44, gen_op_i32_load8_s), (45, gen_op_i32_load8_u), (46, gen_op_i32_load16_s),
    (47, gen_op_i32_load16_u), (48, gen_op_i64_load8_s), (49, gen_op_i64_load8_u),
    (50, gen_op_i64_load16_s), (51, gen_op_i64_load16_u), (52, gen_op_i64_load32_s),
    (53, gen_op_i64_load32_u), (54, gen_op_i32_store), (55, gen_op_i64_store),
    (56, gen_op_f32_store), (57, gen_op_f64_store), (58, gen_op_i32_store8),
    (59, gen_op_i32_store16), (60, gen_op_i64_store8), (61, gen_op_i64_store16),
    (62, gen_op_i64_store32), (63, gen_op_memory_size), (64, gen_op_memory_grow),
    (65, gen_op_i32_const), (66, gen_op_i64_const), (69, gen_op_i32_eqz), (70, gen_op_i32_eq),
    (71, gen_op_i32_ne), (72, gen_op_i32_lt_s), (73, gen_op_i32_lt_u), (74, gen_op_i32_gt_s),
    (75, gen_op_i32_gt_u), (76, gen_op_i32_le_s), (77, gen_op_i32_le_u), (78, gen_op_i32_ge_s),
    (79, gen_op_i32_ge_u), (80, gen_op_i64_eqz), (81, gen_op_i64_eq), (82, gen_op_i64_ne),
    (83, gen_op_i64_lt_s), (84, gen_op_i64_lt_u), (85, gen_op_i64_gt_s), (86, gen_op_i64_gt_u),
    (87, gen_op_i64_le_s), (88, gen_op_i64_le_u), (89, gen_op_i64_ge_s), (90, gen_op_i64_ge_u),
    (103, gen_op_i32_clz), (104, gen_op_i32_ctz), (105, gen_op_i32_popcnt),
    (106, gen_op_i32_add), (107, gen_op_i32_sub), (108, gen_op_i32_mul),
    (109, gen_op_i32_div_s), (110, gen_op_i32_div_u), (111, gen_op_i32_rem_s),
    (112, gen_op_i32_rem_u), (113, gen_op_i32_and), (114, gen_op_i32_or),
    (115, gen_op_i32_xor), (116, gen_op_i32_shl), (117, gen_op_i32_shr_s),
    (118, gen_op_i32_shr_u), (119, gen_op_i32_rotl), (120, gen_op_i32_rotr),
    (121, gen_op_i64_clz), (122, gen_op_i64_ctz), (123, gen_op_i64_popcnt),
    (124, gen_op_i64_add), (125, gen_op_i64_sub), (126, gen_op_i64_mul),
    (127, gen_op_i64_div_s), (128, gen_op_i64_div_u), (129, gen_op_i64_rem_s),
    (130, gen_op_i64_rem_u), (131, gen_op_i64_and), (132, gen_op_i64_or),
    (133, gen_op_i64_xor), (134, gen_op_i64_shl), (135, gen_op_i64_shr_s),
    (136, gen_op_i64_shr_u), (137, gen_op_i64_rotl), (138, gen_op_i64_rotr),
    (140, gen_op_f32_neg), (154, gen_op_f64_neg), (167, gen_op_i32_wrap_i64),
    (172, gen_op_i64_extend_i32_s), (173, gen_op_i64_extend_i32_u),
    (188, gen_op_i32_reinterpret_f32), (189, gen_op_i64_reinterpret_f64),
    (190, gen_op_f32_reinterpret_i32), (191, gen_op_f64_reinterpret_i64),
    (192, gen_op_i32_extend8_s), (193, gen_op_i32_extend16_s), (194, gen_op_i64_extend8_s),
    (195, gen_op_i64_extend16_s), (196, gen_op_i64_extend32_s), (208, gen_op_ref_null),
    (209, gen_op_ref_is_null), (210, gen_op_ref_func), (211, gen_op_ref_eq),
    (212, gen_op_ref_as_non_null), (213, gen_op_br_on_null), (214, gen_op_br_on_non_null)]"

text \<open>Entries of the table whose handlers are parameters.\<close>

definition gen_dispatch_main_other :: "u8 list" where
  "gen_dispatch_main_other = [
    67, 68, 91, 92, 93, 94, 95, 96, 97, 98, 99, 100, 101, 102, 139, 141, 142, 143, 144, 145,
    146, 147, 148, 149, 150, 151, 152, 153, 155, 156, 157, 158, 159, 160, 161, 162, 163, 164,
    165, 166, 168, 169, 170, 171, 174, 175, 176, 177, 178, 179, 180, 181, 182, 183, 184, 185,
    186, 187]"

definition gen_sub_fb :: "(u32 \<times> handler) list" where
  "gen_sub_fb = [
    (0, gen_op_struct_new), (1, gen_op_struct_new_default), (2, gen_op_struct_get),
    (3, gen_op_struct_get_s), (4, gen_op_struct_get_u), (5, gen_op_struct_set),
    (6, gen_op_array_new), (7, gen_op_array_new_default), (8, gen_op_array_new_fixed),
    (9, gen_op_array_new_data), (10, gen_op_array_new_elem), (11, gen_op_array_get),
    (12, gen_op_array_get_s), (13, gen_op_array_get_u), (14, gen_op_array_set),
    (15, gen_op_array_len), (16, gen_op_array_fill), (17, gen_op_array_copy),
    (18, gen_op_array_init_data), (19, gen_op_array_init_elem),
    (26, gen_op_any_convert_extern), (27, gen_op_extern_convert_any), (28, gen_op_ref_i31),
    (29, gen_op_i31_get_s), (30, gen_op_i31_get_u)]"

text \<open>Entries of the table whose handlers are parameters.\<close>

definition gen_sub_fb_other :: "u32 list" where
  "gen_sub_fb_other = [
    20, 21, 22, 23, 24, 25]"

definition gen_sub_fc :: "(u32 \<times> handler) list" where
  "gen_sub_fc = [
    (8, gen_op_memory_init), (9, gen_op_data_drop), (10, gen_op_memory_copy),
    (11, gen_op_memory_fill), (12, gen_op_table_init), (13, gen_op_elem_drop),
    (14, gen_op_table_copy), (15, gen_op_table_grow), (16, gen_op_table_size),
    (17, gen_op_table_fill)]"

text \<open>Entries of the table whose handlers are parameters.\<close>

definition gen_sub_fc_other :: "u32 list" where
  "gen_sub_fc_other = [
    0, 1, 2, 3, 4, 5, 6, 7]"

definition gen_sub_fd :: "(u32 \<times> handler) list" where
  "gen_sub_fd = [
    (0, gen_op_v128_load), (11, gen_op_v128_store)]"

text \<open>Entries of the table whose handlers are parameters.\<close>

definition gen_sub_fd_other :: "u32 list" where
  "gen_sub_fd_other = [
    1, 2, 3, 4, 5, 6, 7, 8, 9, 10, 12, 13, 14, 15, 16, 17, 18, 19, 20, 21, 22, 23, 24, 25, 26,
    27, 28, 29, 30, 31, 32, 33, 34, 35, 36, 37, 38, 39, 40, 41, 42, 43, 44, 45, 46, 47, 48, 49,
    50, 51, 52, 53, 54, 55, 56, 57, 58, 59, 60, 61, 62, 63, 64, 65, 66, 67, 68, 69, 70, 71, 72,
    73, 74, 75, 76, 77, 78, 79, 80, 81, 82, 83, 84, 85, 86, 87, 88, 89, 90, 91, 92, 93, 94, 95,
    96, 97, 98, 99, 100, 101, 102, 103, 104, 105, 106, 107, 108, 109, 110, 111, 112, 113, 114,
    115, 116, 117, 118, 119, 120, 121, 122, 123, 124, 125, 126, 127, 128, 129, 130, 131, 132,
    133, 134, 135, 136, 137, 138, 139, 140, 141, 142, 143, 144, 145, 146, 147, 148, 149, 150,
    151, 152, 153, 155, 156, 157, 158, 159, 160, 161, 163, 164, 167, 168, 169, 170, 171, 172,
    173, 174, 177, 181, 182, 183, 184, 185, 186, 188, 189, 190, 191, 192, 193, 195, 196, 199,
    200, 201, 202, 203, 204, 205, 206, 209, 213, 214, 215, 216, 217, 218, 219, 220, 221, 222,
    223, 224, 225, 227, 228, 229, 230, 231, 232, 233, 234, 235, 236, 237, 239, 240, 241, 242,
    243, 244, 245, 246, 247, 248, 249, 250, 251, 252, 253, 254, 255, 256, 257, 258, 259, 260,
    261, 262, 263, 264, 265, 266, 267, 268, 269, 270, 271, 272, 273, 274, 275]"

text \<open>An entry of a table; an entry that the table does not have is a call through null.\<close>

definition lookup_handler :: "('k \<times> handler) list \<Rightarrow> 'k list \<Rightarrow> (vm \<Rightarrow> vm_out) \<Rightarrow> 'k \<Rightarrow> handler" where
  "lookup_handler tab others other k E vm =
     (case map_of tab k of
        Some h \<Rightarrow> h E vm
      | None \<Rightarrow> if k \<in> set others then other vm else Fault)"

definition gen_dispatch_fb :: handler where
  "gen_dispatch_fb E vm =
     (let (sub, vm) = imm_u32 E vm in lookup_handler gen_sub_fb gen_sub_fb_other (ie_other E 0xFB sub) sub E vm)"

definition gen_dispatch_fc :: handler where
  "gen_dispatch_fc E vm =
     (let (sub, vm) = imm_u32 E vm in lookup_handler gen_sub_fc gen_sub_fc_other (ie_other E 0xFC sub) sub E vm)"

definition gen_dispatch_fd :: handler where
  "gen_dispatch_fd E vm =
     (let (sub, vm) = imm_u32 E vm in lookup_handler gen_sub_fd gen_sub_fd_other (ie_other E 0xFD sub) sub E vm)"

definition gen_dispatch :: "u8 \<Rightarrow> handler" where
  "gen_dispatch op E vm =
     (if op = 0xFB then gen_dispatch_fb E vm
      else if op = 0xFC then gen_dispatch_fc E vm
      else if op = 0xFD then gen_dispatch_fd E vm
      else lookup_handler gen_dispatch_main gen_dispatch_main_other (ie_other E op 0) op E vm)"

section \<open>Frames\<close>

definition POOL_SLOTS :: nat where
  "POOL_SLOTS = 2 ^ 20"

definition MAX_CALL_DEPTH :: u32 where
  "MAX_CALL_DEPTH = 4096"

definition MAX_LOCALS :: u32 where
  "MAX_LOCALS = 1024"

definition depth_limit :: "vm \<Rightarrow> u32" where
  "depth_limit vm =
     (let d = vm_max_call_depth vm in if d = 0 \<or> MAX_CALL_DEPTH < d then MAX_CALL_DEPTH else d)"

text \<open>The caller's cursor goes to the end, with \<open>trapped\<close> set.\<close>

definition stop_frame :: "vm \<Rightarrow> vm" where
  "stop_frame vm = upd_frame (\<lambda>f. f\<lparr>fr_pos := length (fr_code f)\<rparr>) (vm\<lparr>vm_trapped := True\<rparr>)"

definition base_stack :: "frame \<Rightarrow> nat" where
  "base_stack saved = fr_stack saved + unat (fr_sp saved)"

definition base_locals :: "frame \<Rightarrow> nat" where
  "base_locals saved = fr_locals saved + unat (fr_num_locals saved)"

definition frame_nlocals :: "jav_func \<Rightarrow> u32" where
  "frame_nlocals F = fn_num_params F + fn_num_locals F"

text \<open>The guards that reserve a frame.\<close>

definition frame_limit :: "frame \<Rightarrow> jav_func \<Rightarrow> vm_limit option" where
  "frame_limit saved F =
     (if POOL_SLOTS < base_stack saved + MAX_STACK then Some Value_stack
      else if POOL_SLOTS < base_locals saved + unat (frame_nlocals F) then Some Locals_store
      else if MAX_LOCALS < frame_nlocals F then Some Frame_locals
      else None)"

text \<open>The callee's frame: parameters copied from index \<open>src\<close> of the value stack, other locals zero.\<close>

definition init_locals :: "frame \<Rightarrow> jav_func \<Rightarrow> nat \<Rightarrow> vm \<Rightarrow> vm" where
  "init_locals saved F src vm =
     (let b = base_locals saved; np = unat (fn_num_params F); nl = unat (frame_nlocals F);
          vm = fold (\<lambda>i vm. vm\<lparr>vm_locals_store := (vm_locals_store vm)(b + i := vm_value_stack vm (src + i)),
                              vm_local_type_store := (vm_local_type_store vm)(b + i := vm_value_types vm (src + i))\<rparr>)
                 [0..<np] vm
      in fold (\<lambda>i vm. vm\<lparr>vm_locals_store := (vm_locals_store vm)(b + i := set_slot_l 0 (vm_locals_store vm (b + i))),
                         vm_local_type_store := (vm_local_type_store vm)(b + i := T_VOID)\<rparr>)
           [np..<nl] vm)"

definition enter_frame :: "frame \<Rightarrow> jav_func \<Rightarrow> nat \<Rightarrow> nat \<Rightarrow> vm \<Rightarrow> vm" where
  "enter_frame saved F src loaded vm =
     (let vm = init_locals saved F src vm in
      vm\<lparr>vm_frame := (vm_frame vm)
           \<lparr>fr_code := fn_code F, fr_pos := 0, fr_stack := base_stack saved, fr_sp := 0,
            fr_locals := base_locals saved, fr_num_locals := frame_nlocals F, fr_sidetable := fn_sidetable F,
            fr_stp := 0, fr_trytable := fn_trytable F,
            fr_ctx := (case fn_inst_ctx F of Some ci \<Rightarrow> ci | None \<Rightarrow> loaded)\<rparr>,
         vm_tail_pending := False\<rparr>)"

text \<open>Handlers that the callee left installed.\<close>

definition drop_handlers :: "vm \<Rightarrow> vm" where
  "drop_handlers vm =
     vm\<lparr>vm_handlers := rev (dropWhile (\<lambda>h. vm_call_depth vm \<le> hd_call_depth h) (rev (vm_handlers vm)))\<rparr>"

text \<open>Slide the top \<open>n\<close> slots of the callee's stack down to its base.\<close>

definition slide_results :: "nat \<Rightarrow> nat \<Rightarrow> nat \<Rightarrow> vm \<Rightarrow> vm" where
  "slide_results base sp n vm =
     (if n < sp then
        fold (\<lambda>i vm. put_slot (base + i) (vm_value_stack vm (base + (sp - n) + i))
                       (vm_value_types vm (base + (sp - n) + i)) vm) [0..<n] vm
      else vm)"

text \<open>The return of a call: restore the caller's frame, and hand over an exception, a trap or the results.\<close>

definition leave_call :: "ienv \<Rightarrow> u64 \<Rightarrow> frame \<Rightarrow> jav_status \<Rightarrow> vm \<Rightarrow> (jav_status \<times> vm) option" where
  "leave_call E fn saved st vm =
     (let vm = drop_handlers vm; vm = vm\<lparr>vm_call_depth := vm_call_depth vm - 1\<rparr>;
          callee = vm_frame vm; funcs = ic_functions (vm_ctx vm); vm = vm\<lparr>vm_frame := saved\<rparr>
      in if vm_unwinding vm then
           map_option (Pair JAV_OK) (do_throw E (vm_pending_exn vm) (vm\<lparr>vm_unwinding := False\<rparr>))
         else if st = JAV_TRAP then
           Some (JAV_TRAP, stop_frame (vm\<lparr>vm_trap_trace := vm_trap_trace vm @ [word_of_int (sint (fn - funcs) sdiv sint FUNC_SIZE)],
                                         vm_trap_pcs := vm_trap_pcs vm @ [fr_instr_pc callee]\<rparr>))
         else
           let n = fn_num_results (ie_func E fn)
           in Some (JAV_OK, set_sp (fr_sp saved + n)
                      (slide_results (base_stack saved) (unat (fr_sp callee)) (unat n) vm)))"

section \<open>Execution\<close>

text \<open>
  The jobs: run the frame from its cursor, call a function, and one round of the loop over tail calls,
  with the function, the index of its arguments, the caller's frame and the current context.
\<close>

datatype job = Run | Call u64 | Enter u64 nat frame nat

definition run_reset :: "vm \<Rightarrow> vm" where
  "run_reset vm =
     upd_frame (\<lambda>f. f\<lparr>fr_stp := 0\<rparr>) (vm\<lparr>vm_trapped := False, vm_trap_reason := JAV_TRAP_NONE, vm_exhausted := None\<rparr>)"

partial_function (option) exec :: "ienv \<Rightarrow> job \<Rightarrow> vm \<Rightarrow> (jav_status \<times> vm) option" where
  "exec E j vm =
     (case j of
        Run \<Rightarrow>
          let vm = upd_frame (\<lambda>f. f\<lparr>fr_instr_pc := word_of_nat (fr_pos f)\<rparr>) vm; f = vm_frame vm;
              (ok, op, p) = r_u8 (ie_rd E) (fr_code f) (fr_pos f)
          in if \<not> ok then Some (if vm_trapped vm then JAV_TRAP else JAV_RETURN, vm)
             else (case gen_dispatch op E (upd_frame (\<lambda>f. f\<lparr>fr_pos := p\<rparr>) vm) of
                     Next vm \<Rightarrow> exec E Run vm
                   | Trapped vm \<Rightarrow> Some (JAV_TRAP, vm\<lparr>vm_trapped := True\<rparr>)
                   | Invoke fn vm \<Rightarrow> Option.bind (exec E (Call fn) vm) (\<lambda>(st, vm). exec E Run vm)
                   | Fault \<Rightarrow> None)
      | Call fn \<Rightarrow>
          if depth_limit vm \<le> vm_call_depth vm then Some (JAV_TRAP, stop_frame (vm\<lparr>vm_exhausted := Some Call_stack\<rparr>))
          else exec E (Enter fn (base_stack (vm_frame vm)) (vm_frame vm) (fr_ctx (vm_frame vm)))
                 (vm\<lparr>vm_call_depth := vm_call_depth vm + 1\<rparr>)
      | Enter fn src saved loaded \<Rightarrow>
          let F = ie_func E fn in
          case frame_limit saved F of
            Some l \<Rightarrow> leave_call E fn saved JAV_TRAP (vm\<lparr>vm_exhausted := Some l\<rparr>)
          | None \<Rightarrow>
              let vm = enter_frame saved F src loaded vm; loaded = fr_ctx (vm_frame vm) in
              Option.bind (case fn_invoke F of None \<Rightarrow> exec E Run (run_reset vm) | Some i \<Rightarrow> ie_invoke E i vm) (\<lambda>(st, vm).
                if st = JAV_TRAP \<or> vm_unwinding vm \<or> \<not> vm_tail_pending vm then leave_call E fn saved st vm
                else
                  let fn = (if vm_tail_fn vm \<noteq> 0 then vm_tail_fn vm else func_at (vm_ctx vm) (vm_tail_func vm));
                      vm = drop_handlers vm
                  in exec E (Enter fn (base_stack saved + unat (vm_sp vm)) saved loaded) vm))"

definition interp_run :: "ienv \<Rightarrow> vm \<Rightarrow> (jav_status \<times> vm) option" where
  "interp_run E vm = exec E Run (run_reset vm)"

definition jav_call_fn :: "ienv \<Rightarrow> u64 \<Rightarrow> vm \<Rightarrow> (jav_status \<times> vm) option" where
  "jav_call_fn E fn vm = exec E (Call fn) vm"

definition jav_call :: "ienv \<Rightarrow> u32 \<Rightarrow> vm \<Rightarrow> (jav_status \<times> vm) option" where
  "jav_call E func vm =
     (if func <s 0 \<or> ic_num_functions (vm_ctx vm) \<le> func then Some (JAV_TRAP, stop_frame vm)
      else
        let fn = func_at (vm_ctx vm) func in jav_call_fn E fn (gdrop (fn_num_params (ie_func E fn)) vm))"

text \<open>The outcome at the embedder's boundary.\<close>

datatype jav_invoke_t = JAV_INVOKE_RETURN | JAV_INVOKE_TRAP | JAV_INVOKE_EXN u64

definition jav_classify_outcome :: "jav_status \<Rightarrow> vm \<Rightarrow> jav_invoke_t \<times> vm" where
  "jav_classify_outcome st vm =
     (if st = JAV_TRAP then (JAV_INVOKE_TRAP, vm)
      else if vm_unwinding vm
        then (JAV_INVOKE_EXN (vm_pending_exn vm), vm\<lparr>vm_unwinding := False, vm_pending_exn := 0\<rparr>)
      else (JAV_INVOKE_RETURN, vm))"

definition jav_invoke :: "ienv \<Rightarrow> u32 \<Rightarrow> vm \<Rightarrow> (jav_invoke_t \<times> vm) option" where
  "jav_invoke E func vm =
     map_option (\<lambda>(st, vm). jav_classify_outcome st vm)
       (jav_call E func (vm\<lparr>vm_trap_trace := [], vm_trap_pcs := []\<rparr>))"

definition jav_invoke_fn :: "ienv \<Rightarrow> u64 \<Rightarrow> vm \<Rightarrow> (jav_invoke_t \<times> vm) option" where
  "jav_invoke_fn E fn vm =
     map_option (\<lambda>(st, vm). jav_classify_outcome st vm)
       (jav_call_fn E fn (gdrop (fn_num_params (ie_func E fn)) (vm\<lparr>vm_trap_trace := [], vm_trap_pcs := []\<rparr>)))"

end
