(* ===== verification/IntSpec.thy ===== *)
theory IntSpec
  imports VmNum
begin

text \<open>
  The numeric semantics of the WebAssembly specification for integers of width \<open>N\<close>, on mathematical
  integers in the range 0 to \<open>2 ^ N - 1\<close>, and its equality with the word operations of the handlers.
\<close>

section \<open>The specification\<close>

datatype int_binop =
    Add | Sub | Mul | Div_s | Div_u | Rem_s | Rem_u | And | Or | Xor | Shl | Shr_s | Shr_u | Rotl | Rotr

datatype int_relop = Eq | Ne | Lt_s | Lt_u | Gt_s | Gt_u | Le_s | Le_u | Ge_s | Ge_u

datatype int_unop = Clz | Ctz | Popcnt | Extend8_s | Extend16_s | Extend32_s

definition signed_of :: "nat \<Rightarrow> int \<Rightarrow> int" where
  "signed_of N i = (if i < 2 ^ (N - 1) then i else i - 2 ^ N)"

text \<open>The quotient and remainder of division truncated towards zero are \<open>sdiv\<close> and \<open>smod\<close>.\<close>

fun spec_binop :: "nat \<Rightarrow> int_binop \<Rightarrow> int \<Rightarrow> int \<Rightarrow> trap_reason + int" where
  "spec_binop N Add a b = Inr ((a + b) mod 2 ^ N)"
| "spec_binop N Sub a b = Inr ((a - b) mod 2 ^ N)"
| "spec_binop N Mul a b = Inr ((a * b) mod 2 ^ N)"
| "spec_binop N Div_u a b = (if b = 0 then Inl IntegerDivideByZero else Inr (a div b))"
| "spec_binop N Div_s a b =
     (if b = 0 then Inl IntegerDivideByZero
      else if signed_of N a sdiv signed_of N b = 2 ^ (N - 1) then Inl IntegerOverflow
      else Inr ((signed_of N a sdiv signed_of N b) mod 2 ^ N))"
| "spec_binop N Rem_u a b = (if b = 0 then Inl IntegerDivideByZero else Inr (a mod b))"
| "spec_binop N Rem_s a b =
     (if b = 0 then Inl IntegerDivideByZero else Inr ((signed_of N a smod signed_of N b) mod 2 ^ N))"
| "spec_binop N And a b = Inr (a AND b)"
| "spec_binop N Or a b = Inr (a OR b)"
| "spec_binop N Xor a b = Inr (a XOR b)"
| "spec_binop N Shl a b = Inr ((a * 2 ^ nat (b mod int N)) mod 2 ^ N)"
| "spec_binop N Shr_u a b = Inr (a div 2 ^ nat (b mod int N))"
| "spec_binop N Shr_s a b = Inr ((signed_of N a div 2 ^ nat (b mod int N)) mod 2 ^ N)"
| "spec_binop N Rotl a b =
     (let k = nat (b mod int N) in Inr ((a * 2 ^ k) mod 2 ^ N + a div 2 ^ (N - k)))"
| "spec_binop N Rotr a b =
     (let k = nat (b mod int N) in Inr (a div 2 ^ k + (a mod 2 ^ k) * 2 ^ (N - k)))"

fun spec_relop :: "nat \<Rightarrow> int_relop \<Rightarrow> int \<Rightarrow> int \<Rightarrow> bool" where
  "spec_relop N Eq a b = (a = b)"
| "spec_relop N Ne a b = (a \<noteq> b)"
| "spec_relop N Lt_s a b = (signed_of N a < signed_of N b)"
| "spec_relop N Lt_u a b = (a < b)"
| "spec_relop N Gt_s a b = (signed_of N b < signed_of N a)"
| "spec_relop N Gt_u a b = (b < a)"
| "spec_relop N Le_s a b = (signed_of N a \<le> signed_of N b)"
| "spec_relop N Le_u a b = (a \<le> b)"
| "spec_relop N Ge_s a b = (signed_of N b \<le> signed_of N a)"
| "spec_relop N Ge_u a b = (b \<le> a)"

text \<open>The number of leading zeros is the number of bits above the highest set one.\<close>

fun spec_unop :: "nat \<Rightarrow> int_unop \<Rightarrow> int \<Rightarrow> int" where
  "spec_unop N Clz a = int (card {i. i < N \<and> (\<forall>j. i \<le> j \<and> j < N \<longrightarrow> \<not> bit a j)})"
| "spec_unop N Ctz a = int (card {i. i < N \<and> (\<forall>j \<le> i. \<not> bit a j)})"
| "spec_unop N Popcnt a = int (card {i. i < N \<and> bit a i})"
| "spec_unop N Extend8_s a = signed_of 8 (a mod 2 ^ 8) mod 2 ^ N"
| "spec_unop N Extend16_s a = signed_of 16 (a mod 2 ^ 16) mod 2 ^ N"
| "spec_unop N Extend32_s a = signed_of 32 (a mod 2 ^ 32) mod 2 ^ N"

section \<open>Word operations\<close>

lemma signed_of_uint: "signed_of LENGTH('a) (uint (a :: 'a :: len word)) = sint a"
proof -
  have p: "(2 :: int) ^ LENGTH('a) = 2 * 2 ^ (LENGTH('a) - 1)" by (metis Suc_diff_1 len_gt_0 power_Suc)
  have u: "0 \<le> uint a" "uint a < 2 ^ LENGTH('a)" by simp_all
  have "sint a = (uint a + 2 ^ (LENGTH('a) - 1)) mod 2 ^ LENGTH('a) - 2 ^ (LENGTH('a) - 1)"
    using signed_take_bit_eq_take_bit_shift [of "LENGTH('a) - 1" "uint a"]
    by (simp add: sint_uint take_bit_eq_mod)
  moreover have "(uint a + 2 ^ (LENGTH('a) - 1)) mod 2 ^ LENGTH('a) =
      (if uint a < 2 ^ (LENGTH('a) - 1) then uint a + 2 ^ (LENGTH('a) - 1)
       else uint a + 2 ^ (LENGTH('a) - 1) - 2 ^ LENGTH('a))"
  proof (cases "uint a < 2 ^ (LENGTH('a) - 1)")
    case True
    then show ?thesis using u p by simp
  next
    case False
    then have "(uint a + 2 ^ (LENGTH('a) - 1) - 2 ^ LENGTH('a)) mod 2 ^ LENGTH('a) =
        uint a + 2 ^ (LENGTH('a) - 1) - 2 ^ LENGTH('a)"
      using u p by (intro mod_pos_pos_trivial) linarith+
    then show ?thesis using False by (simp only: minus_mod_self2 if_False)
  qed
  ultimately show ?thesis by (auto simp: signed_of_def)
qed

lemma uint_wi: "uint (word_of_int x :: 'a :: len word) = x mod 2 ^ LENGTH('a)"
  by (simp add: uint_word_of_int)

lemma wi_mod: "(word_of_int (x mod 2 ^ LENGTH('a)) :: 'a :: len word) = word_of_int x"
  by (simp add: word_of_int_eq_iff take_bit_eq_mod)

lemma wi_push: "(word_of_int (uint a * 2 ^ k) :: 'a :: len word) = push_bit k a"
  by (rule word_uint_eqI) (simp add: uint_wi unsigned_push_bit_eq take_bit_eq_mod push_bit_eq_mult)

lemma uint_drop: "uint (drop_bit k (a :: 'a :: len word)) = uint a div 2 ^ k"
  by (rule bit_eqI) (auto simp: bit_uint_iff bit_drop_bit_eq simp flip: drop_bit_eq_div dest: bit_imp_le_length)

lemma uint_push: "uint (push_bit k (a :: 'a :: len word)) = (uint a * 2 ^ k) mod 2 ^ LENGTH('a)"
  by (metis uint_wi wi_push)

lemma wi_drop: "(word_of_int (uint a div 2 ^ k) :: 'a :: len word) = drop_bit k a"
  by (metis uint_drop word_of_int_uint)

lemma wi_sdrop: "(word_of_int (sint a div 2 ^ k) :: 'a :: len word) = signed_drop_bit k a"
  by (metis drop_bit_eq_div sint_signed_drop_bit_eq scast_eq scast_id)

lemma uint_rotl:
  assumes "k < LENGTH('a)"
  shows "uint (push_bit k a OR drop_bit (LENGTH('a) - k) (a :: 'a :: len word)) =
    (uint a * 2 ^ k) mod 2 ^ LENGTH('a) + uint a div 2 ^ (LENGTH('a) - k)"
proof -
  let ?x = "push_bit k a" and ?y = "drop_bit (LENGTH('a) - k) a"
  have "bit ?y n \<Longrightarrow> n < k" for n
    using assms bit_imp_le_length [of a "LENGTH('a) - k + n"] by (auto simp: bit_drop_bit_eq)
  then have "\<not> bit (uint ?x) n \<or> \<not> bit (uint ?y) n" for n
    by (auto simp: bit_uint_iff bit_push_bit_iff) (meson leD)
  then have "uint (?x OR ?y) = uint ?x + uint ?y" by (simp add: uint_or disjunctive_add)
  then show ?thesis unfolding uint_drop uint_push .
qed

lemma uint_rotr:
  assumes "k < LENGTH('a)"
  shows "uint (drop_bit k a OR push_bit (LENGTH('a) - k) (a :: 'a :: len word)) =
    uint a div 2 ^ k + (uint a mod 2 ^ k) * 2 ^ (LENGTH('a) - k)"
proof -
  let ?x = "push_bit (LENGTH('a) - k) a" and ?y = "drop_bit k a"
  have "bit ?y n \<Longrightarrow> n < LENGTH('a) - k" for n
    using assms bit_imp_le_length [of a "k + n"] by (auto simp: bit_drop_bit_eq)
  then have "\<not> bit (uint ?y) n \<or> \<not> bit (uint ?x) n" for n
    by (auto simp: bit_uint_iff bit_push_bit_iff) (meson leD)
  then have "uint (?y OR ?x) = uint ?y + uint ?x" by (simp add: uint_or disjunctive_add)
  moreover have "(uint a * 2 ^ (LENGTH('a) - k)) mod 2 ^ LENGTH('a) = (uint a mod 2 ^ k) * 2 ^ (LENGTH('a) - k)"
  proof -
    have "(2 :: int) ^ LENGTH('a) = 2 ^ k * 2 ^ (LENGTH('a) - k)" using assms by (simp flip: power_add)
    then show ?thesis by (simp add: mod_mult_mult2)
  qed
  ultimately show ?thesis unfolding uint_drop uint_push by simp
qed

section \<open>The operations of the handlers\<close>

lemma spec_arith:
  fixes a b :: "'a :: len word"
  shows "spec_binop LENGTH('a) Add (uint a) (uint b) = Inr (uint (a + b))"
    "spec_binop LENGTH('a) Sub (uint a) (uint b) = Inr (uint (a - b))"
    "spec_binop LENGTH('a) Mul (uint a) (uint b) = Inr (uint (a * b))"
    "spec_binop LENGTH('a) And (uint a) (uint b) = Inr (uint (a AND b))"
    "spec_binop LENGTH('a) Or (uint a) (uint b) = Inr (uint (a OR b))"
    "spec_binop LENGTH('a) Xor (uint a) (uint b) = Inr (uint (a XOR b))"
    "spec_binop LENGTH('a) Div_u (uint a) (uint b) = (if b = 0 then Inl IntegerDivideByZero else Inr (uint (a div b)))"
    "spec_binop LENGTH('a) Rem_u (uint a) (uint b) = (if b = 0 then Inl IntegerDivideByZero else Inr (uint (a mod b)))"
  by (simp_all add: uint_word_ariths uint_and uint_or uint_xor uint_div uint_mod uint_0_iff)

lemma sint_bounds: "- (2 ^ (LENGTH('a) - 1)) \<le> sint (a :: 'a :: len word)" "sint a < 2 ^ (LENGTH('a) - 1)"
  using sint_ge [of a] sint_lt [of a] by simp_all

text \<open>The quotient overflows only for the least number by -1.\<close>

lemma int_sdiv_overflow:
  fixes x y M :: int
  assumes "- M \<le> x" "x < M" "y \<noteq> 0"
  shows "x sdiv y = M \<longleftrightarrow> x = - M \<and> y = - 1"
proof -
  consider "y = 1" | "y = - 1" | "2 \<le> \<bar>y\<bar>" using assms(3) by linarith
  then show ?thesis
  proof cases
    case 3
    have M: "0 < M" using assms by linarith
    have "\<bar>x\<bar> div \<bar>y\<bar> \<le> \<bar>x\<bar> div 2" using 3 by (intro zdiv_mono2) auto
    also have "\<dots> < M" using assms M by linarith
    finally have "\<bar>x\<bar> div \<bar>y\<bar> < M" .
    moreover have "0 \<le> \<bar>x\<bar> div \<bar>y\<bar>" using 3 by (intro pos_imp_zdiv_nonneg_iff [THEN iffD2]) auto
    ultimately have "x sdiv y < M"
      unfolding signed_divide_int_def using M by (auto simp: sgn_if)
    then show ?thesis using 3 by auto
  qed (use assms in \<open>auto simp: signed_divide_int_def sgn_if split: if_splits\<close>)
qed

lemma sint_least: "(a :: 'a :: len word) = push_bit (LENGTH('a) - 1) 1 \<longleftrightarrow> sint a = - (2 ^ (LENGTH('a) - 1))"
proof -
  have p: "(2 :: int) ^ LENGTH('a) = 2 * 2 ^ (LENGTH('a) - 1)" by (metis Suc_diff_1 len_gt_0 power_Suc)
  have "uint (push_bit (LENGTH('a) - 1) 1 :: 'a word) = (uint (1 :: 'a word) * 2 ^ (LENGTH('a) - 1)) mod 2 ^ LENGTH('a)"
    by (rule uint_push)
  also have "\<dots> = 2 ^ (LENGTH('a) - 1)" using p by (simp add: mod_pos_pos_trivial)
  finally have "sint (push_bit (LENGTH('a) - 1) 1 :: 'a word) = - (2 ^ (LENGTH('a) - 1))"
    using p by (simp add: signed_of_def flip: signed_of_uint)
  then show ?thesis by (metis signed_word_eqI)
qed

lemma sdiv_overflow:
  fixes a b :: "'a :: len word"
  assumes "b \<noteq> 0"
  shows "sint a sdiv sint b = 2 ^ (LENGTH('a) - 1) \<longleftrightarrow> b = - 1 \<and> a = push_bit (LENGTH('a) - 1) 1"
proof -
  have "sint b \<noteq> 0" using assms by (metis signed_0 signed_word_eqI)
  moreover have "b = - 1 \<longleftrightarrow> sint b = - 1" by (metis sint_n1 signed_word_eqI)
  ultimately show ?thesis using int_sdiv_overflow [OF sint_bounds [of a], of "sint b"] unfolding sint_least by blast
qed

lemma spec_signed:
  fixes a b :: "'a :: len word"
  shows "spec_binop LENGTH('a) Div_s (uint a) (uint b) =
      (if b = 0 then Inl IntegerDivideByZero
       else if b = - 1 \<and> a = push_bit (LENGTH('a) - 1) 1 then Inl IntegerOverflow
       else Inr (uint (word_of_int (sint a sdiv sint b) :: 'a word)))"
    "spec_binop LENGTH('a) Rem_s (uint a) (uint b) =
      (if b = 0 then Inl IntegerDivideByZero
       else Inr (uint (if b = - 1 then 0 else word_of_int (sint a smod sint b) :: 'a word)))"
proof -
  show "spec_binop LENGTH('a) Div_s (uint a) (uint b) =
      (if b = 0 then Inl IntegerDivideByZero
       else if b = - 1 \<and> a = push_bit (LENGTH('a) - 1) 1 then Inl IntegerOverflow
       else Inr (uint (word_of_int (sint a sdiv sint b) :: 'a word)))"
    using sdiv_overflow [of b a] by (auto simp: signed_of_uint uint_wi uint_0_iff)
  have "sint a smod sint b = 0" if "b = - 1" using that by (simp add: signed_modulo_int_def)
  then show "spec_binop LENGTH('a) Rem_s (uint a) (uint b) =
      (if b = 0 then Inl IntegerDivideByZero
       else Inr (uint (if b = - 1 then 0 else word_of_int (sint a smod sint b) :: 'a word)))"
    by (auto simp: signed_of_uint uint_wi uint_0_iff)
qed

lemma spec_shifts:
  fixes a b :: "'a :: len word"
  defines "k \<equiv> nat (uint b mod int LENGTH('a))"
  shows "spec_binop LENGTH('a) Shl (uint a) (uint b) = Inr (uint (push_bit k a))"
    "spec_binop LENGTH('a) Shr_u (uint a) (uint b) = Inr (uint (drop_bit k a))"
    "spec_binop LENGTH('a) Shr_s (uint a) (uint b) = Inr (uint (signed_drop_bit k a))"
    "spec_binop LENGTH('a) Rotl (uint a) (uint b) = Inr (uint (push_bit k a OR drop_bit (LENGTH('a) - k) a))"
    "spec_binop LENGTH('a) Rotr (uint a) (uint b) = Inr (uint (drop_bit k a OR push_bit (LENGTH('a) - k) a))"
proof -
  have k: "k < LENGTH('a)" by (simp add: k_def nat_less_iff)
  show "spec_binop LENGTH('a) Shl (uint a) (uint b) = Inr (uint (push_bit k a))"
    unfolding spec_binop.simps uint_push k_def ..
  show "spec_binop LENGTH('a) Shr_u (uint a) (uint b) = Inr (uint (drop_bit k a))"
    unfolding spec_binop.simps uint_drop k_def ..
  show "spec_binop LENGTH('a) Shr_s (uint a) (uint b) = Inr (uint (signed_drop_bit k a))"
    unfolding spec_binop.simps signed_of_uint wi_sdrop [symmetric] uint_wi k_def ..
  show "spec_binop LENGTH('a) Rotl (uint a) (uint b) = Inr (uint (push_bit k a OR drop_bit (LENGTH('a) - k) a))"
    unfolding spec_binop.simps Let_def uint_rotl [OF k] unfolding k_def ..
  show "spec_binop LENGTH('a) Rotr (uint a) (uint b) = Inr (uint (drop_bit k a OR push_bit (LENGTH('a) - k) a))"
    unfolding spec_binop.simps Let_def uint_rotr [OF k] unfolding k_def ..
qed

lemma spec_relops:
  fixes a b :: "'a :: len word"
  shows "spec_relop LENGTH('a) Eq (uint a) (uint b) \<longleftrightarrow> a = b"
    "spec_relop LENGTH('a) Ne (uint a) (uint b) \<longleftrightarrow> a \<noteq> b"
    "spec_relop LENGTH('a) Lt_s (uint a) (uint b) \<longleftrightarrow> a <s b"
    "spec_relop LENGTH('a) Gt_s (uint a) (uint b) \<longleftrightarrow> b <s a"
    "spec_relop LENGTH('a) Le_s (uint a) (uint b) \<longleftrightarrow> a \<le>s b"
    "spec_relop LENGTH('a) Ge_s (uint a) (uint b) \<longleftrightarrow> b \<le>s a"
    "spec_relop LENGTH('a) Lt_u (uint a) (uint b) \<longleftrightarrow> a < b"
    "spec_relop LENGTH('a) Gt_u (uint a) (uint b) \<longleftrightarrow> b < a"
    "spec_relop LENGTH('a) Le_u (uint a) (uint b) \<longleftrightarrow> a \<le> b"
    "spec_relop LENGTH('a) Ge_u (uint a) (uint b) \<longleftrightarrow> b \<le> a"
  by (simp_all add: signed_of_uint word_sless_alt word_sle_eq word_less_def word_le_def word_uint_eq_iff)

lemma prefix_card: "card {i. i < n \<and> (\<forall>j \<le> i. P j)} = (if \<forall>j < n. P j then n else LEAST j. \<not> P j)"
proof (cases "\<forall>j < n. P j")
  case True
  then have "{i. i < n \<and> (\<forall>j \<le> i. P j)} = {..<n}" by auto
  then show ?thesis using True by simp
next
  case False
  then obtain m where m: "m < n" "\<not> P m" by auto
  define k where "k = (LEAST j. \<not> P j)"
  have k: "\<not> P k" "k \<le> m" unfolding k_def using LeastI [of "\<lambda>j. \<not> P j", OF m(2)] Least_le [of "\<lambda>j. \<not> P j", OF m(2)] by auto
  have less: "P j" if "j < k" for j using that not_less_Least unfolding k_def by blast
  have "{i. i < n \<and> (\<forall>j \<le> i. P j)} = {..<k}"
  proof (intro set_eqI iffI)
    fix i assume "i \<in> {i. i < n \<and> (\<forall>j \<le> i. P j)}"
    then have "\<not> k \<le> i" using k(1) by blast
    then show "i \<in> {..<k}" by simp
  next
    fix i assume "i \<in> {..<k}"
    then have "i < n" "\<forall>j \<le> i. P j" using less k(2) m(1) by auto
    then show "i \<in> {i. i < n \<and> (\<forall>j \<le> i. P j)}" by simp
  qed
  then show ?thesis unfolding if_not_P [OF False] k_def [symmetric] by simp
qed

lemma length_takeWhile_up: "length (takeWhile P [0..<n]) = card {i. i < n \<and> (\<forall>j \<le> i. P j)}"
proof (induction n)
  case (Suc n)
  show ?case
  proof (cases "\<forall>j < n. P j")
    case True
    then have "\<forall>x \<in> set [0..<n]. P x" by simp
    then have t: "takeWhile P ([0..<n] @ [n]) = [0..<n] @ takeWhile P [n]" by (simp only: takeWhile_append2)
    show ?thesis
    proof (cases "P n")
      case True
      then have "\<forall>j < Suc n. P j" using \<open>\<forall>j < n. P j\<close> by (simp add: less_Suc_eq)
      then have "takeWhile P [0..<Suc n] = [0..<Suc n]" "(if \<forall>j < Suc n. P j then Suc n else LEAST j. \<not> P j) = Suc n"
        by (auto simp: takeWhile_eq_all_conv simp del: upt_Suc)
      then show ?thesis unfolding prefix_card by (simp only: length_upt diff_zero)
    next
      case False
      then have "(LEAST j. \<not> P j) = n" using \<open>\<forall>j < n. P j\<close> by (intro Least_equality) (auto simp: not_less [symmetric])
      then show ?thesis using t False by (auto simp: prefix_card)
    qed
  next
    case False
    then have "takeWhile P ([0..<n] @ [n]) = takeWhile P [0..<n]"
      by (metis atLeastLessThan_iff atLeastLessThan_upt le0 takeWhile_append1)
    moreover have "\<not> (\<forall>j < Suc n. P j)" using False less_SucI by blast
    ultimately show ?thesis using Suc unfolding prefix_card upt_Suc_append [OF le0] if_not_P [OF False] by (simp only: if_False)
  qed
qed simp

lemma length_takeWhile_down: "length (takeWhile P (rev [0..<n])) = card {i. i < n \<and> (\<forall>j. i \<le> j \<and> j < n \<longrightarrow> P j)}"
proof (induction n)
  case (Suc n)
  show ?case
  proof (cases "P n")
    case True
    then have "{i. i < Suc n \<and> (\<forall>j. i \<le> j \<and> j < Suc n \<longrightarrow> P j)} =
        insert n {i. i < n \<and> (\<forall>j. i \<le> j \<and> j < n \<longrightarrow> P j)}"
      by (auto simp: less_Suc_eq)
    then show ?thesis using Suc True by simp
  next
    case False
    then have "{i. i < Suc n \<and> (\<forall>j. i \<le> j \<and> j < Suc n \<longrightarrow> P j)} = {}" by (auto simp: less_Suc_eq_le)
    then show ?thesis using False by simp
  qed
qed simp

lemma card_le_width: "card {i. i < N \<and> P i} \<le> N"
  using card_mono [of "{..<N}" "{i. i < N \<and> P i}"] by auto

lemma spec_count_zeros:
  fixes a :: "'a :: len word"
  shows "spec_unop LENGTH('a) Clz (uint a) = int (builtin_clz a)"
    "spec_unop LENGTH('a) Ctz (uint a) = int (builtin_ctz a)"
    "spec_unop LENGTH('a) Popcnt (uint a) = int (builtin_popcount a)"
  unfolding builtin_clz_def builtin_ctz_def builtin_popcount_def length_takeWhile_up length_takeWhile_down
    spec_unop.simps length_filter_conv_card bit_uint_iff of_nat_eq_iff
  by (rule arg_cong [of _ _ card], force)+

lemma signed_sx:
  fixes a :: "'a :: len word"
  assumes "LENGTH('b) \<le> LENGTH('a)"
  shows "(word_of_int (signed_of LENGTH('b) (uint a mod 2 ^ LENGTH('b)) mod 2 ^ LENGTH('a)) :: 'a word) =
      scast (ucast a :: 'b :: len word)"
proof -
  have "uint (ucast a :: 'b word) = uint a mod 2 ^ LENGTH('b)" by (simp add: unsigned_ucast_eq take_bit_eq_mod)
  then have "signed_of LENGTH('b) (uint a mod 2 ^ LENGTH('b)) = sint (ucast a :: 'b word)"
    by (simp only: signed_of_uint flip: \<open>uint (ucast a :: 'b word) = _\<close>)
  then show ?thesis unfolding wi_mod by (simp only: scast_eq)
qed

lemma spec_extends:
  fixes a :: "'a :: len word"
  shows "8 \<le> LENGTH('a) \<Longrightarrow> (word_of_int (spec_unop LENGTH('a) Extend8_s (uint a)) :: 'a word) = scast (ucast a :: u8)"
    "16 \<le> LENGTH('a) \<Longrightarrow> (word_of_int (spec_unop LENGTH('a) Extend16_s (uint a)) :: 'a word) = scast (ucast a :: u16)"
    "32 \<le> LENGTH('a) \<Longrightarrow> (word_of_int (spec_unop LENGTH('a) Extend32_s (uint a)) :: 'a word) = scast (ucast a :: u32)"
  using signed_sx [where 'b = 8, of a] signed_sx [where 'b = 16, of a] signed_sx [where 'b = 32, of a]
  unfolding spec_unop.simps by simp_all

text \<open>The masked distances of the code.\<close>

lemma shift32: "unat (b AND 31 :: u32) = nat (uint b mod 32)"
  using and_mask_mod_2p [of b 5] by (simp add: mask_eq_exp_minus_1 uint_wi flip: nat_uint_eq)

lemma shift64: "unat (b AND 63 :: u64) = nat (uint b mod 64)"
  using and_mask_mod_2p [of b 6] by (simp add: mask_eq_exp_minus_1 uint_wi flip: nat_uint_eq)

end
