(* ===== verification/VmRules.thy ===== *)
theory VmRules
  imports Interp IntSpec
begin

text \<open>
  The operand stack and the dispatch tables as equations: what a pop and a push give, and the handler of
  each opcode; then the integer instructions against the numeric semantics of the specification.
\<close>

section \<open>The operand stack\<close>

text \<open>The slot and the tag at distance \<open>k\<close> below the stack pointer.\<close>

definition top_slot :: "vm \<Rightarrow> u32 \<Rightarrow> slot" where
  "top_slot vm k = vm_value_stack vm (stk_at vm (vm_sp vm - k))"

definition top_tag :: "vm \<Rightarrow> u32 \<Rightarrow> vtag" where
  "top_tag vm k = vm_value_types vm (stk_at vm (vm_sp vm - k))"

abbreviation top_int :: "vm \<Rightarrow> u32 \<Rightarrow> u32" where "top_int vm k \<equiv> slot_i (top_slot vm k)"
abbreviation top_long :: "vm \<Rightarrow> u32 \<Rightarrow> u64" where "top_long vm k \<equiv> sl_lo (top_slot vm k)"

named_theorems stack_simps \<open>pops and pushes\<close>

lemma sp_gdrop [stack_simps]: "vm_sp (gdrop n vm) = vm_sp vm - n"
  by (simp add: gdrop_def set_sp_def)

lemma stk_gdrop [stack_simps]: "stk_at (gdrop n vm) i = stk_at vm i"
  by (simp add: gdrop_def set_sp_def stk_at_def)

lemma stack_gdrop [stack_simps]:
  "vm_value_stack (gdrop n vm) = vm_value_stack vm" "vm_value_types (gdrop n vm) = vm_value_types vm"
  by (simp_all add: gdrop_def set_sp_def)

lemma top_gdrop [stack_simps]:
  "top_slot (gdrop m vm) k = top_slot vm (m + k)" "top_tag (gdrop m vm) k = top_tag vm (m + k)"
  by (simp_all add: top_slot_def top_tag_def stack_simps algebra_simps)

lemma gdrop_gdrop [stack_simps]: "gdrop m (gdrop n vm) = gdrop (n + m) vm"
  by (simp add: gdrop_def set_sp_def algebra_simps)

lemma gpop_word_eq [stack_simps]: "gpop_word vm = (top_slot vm 1, top_tag vm 1, gdrop 1 vm)"
  by (simp add: gpop_word_def Let_def top_slot_def top_tag_def gdrop_def set_sp_def stk_at_def)

lemma gpop_eqs [stack_simps]:
  "gpop_int vm = (top_int vm 1, gdrop 1 vm)"
  "gpop_long vm = (top_long vm 1, gdrop 1 vm)"
  "gpop_float vm = (top_int vm 1, gdrop 1 vm)"
  "gpop_double vm = (top_long vm 1, gdrop 1 vm)"
  "gpop_ref vm = (top_long vm 1, gdrop 1 vm)"
  "gpop_v128 vm = (top_slot vm 1, gdrop 1 vm)"
  "gpop_any vm = (\<lparr>an_bits = sl_lo (top_slot vm 1), an_hi = sl_hi (top_slot vm 1), an_kind = top_tag vm 1\<rparr>, gdrop 1 vm)"
  by (simp_all add: gpop_int_def gpop_long_def gpop_float_def gpop_double_def gpop_ref_def gpop_v128_def gpop_any_def
      gpop_word_eq)

section \<open>Dispatch\<close>

lemma dispatch_distinct: "distinct (map fst gen_dispatch_main)"
  by (simp add: gen_dispatch_main_def)

lemma dispatch_main:
  assumes "(op, h) \<in> set gen_dispatch_main" "op < 0xFB"
  shows "gen_dispatch op E vm = h E vm"
proof -
  have "map_of gen_dispatch_main op = Some h" using assms(1) dispatch_distinct by (simp add: map_of_is_SomeI)
  moreover have "op \<noteq> 0xFB" "op \<noteq> 0xFC" "op \<noteq> 0xFD" using assms(2) by (auto simp: word_less_def)
  ultimately show ?thesis by (simp add: gen_dispatch_def lookup_handler_def)
qed

section \<open>Integer instructions\<close>

text \<open>The opcodes of the two widths: \<open>i64\<close> repeats the order of \<open>i32\<close> at a distance.\<close>

definition i32_binops :: "(u8 \<times> int_binop) list" where
  "i32_binops =
     [(0x6A, Add), (0x6B, Sub), (0x6C, Mul), (0x6D, Div_s), (0x6E, Div_u), (0x6F, Rem_s), (0x70, Rem_u),
      (0x71, And), (0x72, Or), (0x73, Xor), (0x74, Shl), (0x75, Shr_s), (0x76, Shr_u), (0x77, Rotl), (0x78, Rotr)]"

definition i64_binops :: "(u8 \<times> int_binop) list" where
  "i64_binops = map (\<lambda>(op, f). (op + 0x12, f)) i32_binops"

definition i32_relops :: "(u8 \<times> int_relop) list" where
  "i32_relops =
     [(0x46, Eq), (0x47, Ne), (0x48, Lt_s), (0x49, Lt_u), (0x4A, Gt_s), (0x4B, Gt_u), (0x4C, Le_s), (0x4D, Le_u),
      (0x4E, Ge_s), (0x4F, Ge_u)]"

definition i64_relops :: "(u8 \<times> int_relop) list" where
  "i64_relops = map (\<lambda>(op, f). (op + 0x0B, f)) i32_relops"

definition i32_unops :: "(u8 \<times> int_unop) list" where
  "i32_unops = [(0x67, Clz), (0x68, Ctz), (0x69, Popcnt), (0xC0, Extend8_s), (0xC1, Extend16_s)]"

definition i64_unops :: "(u8 \<times> int_unop) list" where
  "i64_unops =
     [(0x79, Clz), (0x7A, Ctz), (0x7B, Popcnt), (0xC2, Extend8_s), (0xC3, Extend16_s), (0xC4, Extend32_s)]"

lemmas dispatch_simps = gen_dispatch_def lookup_handler_def gen_dispatch_main_def

text \<open>What an instruction does with the result of its specification: trap, or push it for the operands.\<close>

definition push_int :: "u32 \<Rightarrow> vm \<Rightarrow> trap_reason + int \<Rightarrow> vm_out" where
  "push_int n vm r = (case r of Inl t \<Rightarrow> guard_trap t (gdrop n vm) | Inr v \<Rightarrow> Next (gpush_int (word_of_int v) (gdrop n vm)))"

definition push_long :: "u32 \<Rightarrow> vm \<Rightarrow> trap_reason + int \<Rightarrow> vm_out" where
  "push_long n vm r = (case r of Inl t \<Rightarrow> guard_trap t (gdrop n vm) | Inr v \<Rightarrow> Next (gpush_long (word_of_int v) (gdrop n vm)))"

lemma push_cases [simp]:
  "push_int n vm (Inl t) = guard_trap t (gdrop n vm)"
  "push_int n vm (Inr (uint w)) = Next (gpush_int w (gdrop n vm))"
  "push_int n vm (Inr (of_bool b)) = Next (gpush_int (of_bool b) (gdrop n vm))"
  "push_long n vm (Inl t) = guard_trap t (gdrop n vm)"
  "push_long n vm (Inr (uint w')) = Next (gpush_long w' (gdrop n vm))"
  by (simp_all add: push_int_def push_long_def)

lemmas spec_binops32 = spec_arith [where 'a = 32, simplified] spec_signed [where 'a = 32, simplified] spec_shifts [where 'a = 32, simplified]
lemmas spec_binops64 = spec_arith [where 'a = 64, simplified] spec_signed [where 'a = 64, simplified] spec_shifts [where 'a = 64, simplified]

text \<open>The code rotates by two masked shifts, so that a rotation by 0 shifts by 0 twice.\<close>

lemma rotate32:
  fixes a b :: u32
  defines "k \<equiv> nat (uint b mod 32)"
  shows "push_bit k a OR drop_bit (32 - k) a = push_bit k a OR drop_bit (unat (32 - (b AND 31) AND 31)) a"
    "drop_bit k a OR push_bit (32 - k) a = drop_bit k a OR push_bit (unat (32 - (b AND 31) AND 31)) a"
proof -
  have k: "unat (b AND 31) = k" "k < 32" unfolding k_def by (auto simp: shift32 nat_less_iff)
  then have "b AND 31 \<le> 32" by (simp add: word_le_nat_alt)
  then have "unat (32 - (b AND 31)) = 32 - k" using k(1) by (simp add: unat_sub)
  then have "unat (32 - (b AND 31) AND 31) = (32 - k) mod 32"
    unfolding shift32 by (simp add: uint_nat nat_mod_distrib)
  moreover have "push_bit 32 a = 0" "drop_bit 32 a = 0" by (rule bit_word_eqI; simp add: bit_simps)+
  ultimately show "push_bit k a OR drop_bit (32 - k) a = push_bit k a OR drop_bit (unat (32 - (b AND 31) AND 31)) a"
    "drop_bit k a OR push_bit (32 - k) a = drop_bit k a OR push_bit (unat (32 - (b AND 31) AND 31)) a"
    using k(2) by (cases "k = 0"; simp)+
qed

lemma rotate64:
  fixes a b :: u64
  defines "k \<equiv> nat (uint b mod 64)"
  shows "push_bit k a OR drop_bit (64 - k) a = push_bit k a OR drop_bit (unat (64 - (b AND 63) AND 63)) a"
    "drop_bit k a OR push_bit (64 - k) a = drop_bit k a OR push_bit (unat (64 - (b AND 63) AND 63)) a"
proof -
  have k: "unat (b AND 63) = k" "k < 64" unfolding k_def by (auto simp: shift64 nat_less_iff)
  then have "b AND 63 \<le> 64" by (simp add: word_le_nat_alt)
  then have "unat (64 - (b AND 63)) = 64 - k" using k(1) by (simp add: unat_sub)
  then have "unat (64 - (b AND 63) AND 63) = (64 - k) mod 64"
    unfolding shift64 by (simp add: uint_nat nat_mod_distrib)
  moreover have "push_bit 64 a = 0" "drop_bit 64 a = 0" by (rule bit_word_eqI; simp add: bit_simps)+
  ultimately show "push_bit k a OR drop_bit (64 - k) a = push_bit k a OR drop_bit (unat (64 - (b AND 63) AND 63)) a"
    "drop_bit k a OR push_bit (64 - k) a = drop_bit k a OR push_bit (unat (64 - (b AND 63) AND 63)) a"
    using k(2) by (cases "k = 0"; simp)+
qed

lemma i32_binop_rules:
  shows "gen_dispatch 0x6A E vm = push_int 2 vm (spec_binop 32 Add (uint (top_int vm 2)) (uint (top_int vm 1)))"
        "gen_dispatch 0x6B E vm = push_int 2 vm (spec_binop 32 Sub (uint (top_int vm 2)) (uint (top_int vm 1)))"
        "gen_dispatch 0x6C E vm = push_int 2 vm (spec_binop 32 Mul (uint (top_int vm 2)) (uint (top_int vm 1)))"
        "gen_dispatch 0x6D E vm = push_int 2 vm (spec_binop 32 Div_s (uint (top_int vm 2)) (uint (top_int vm 1)))"
        "gen_dispatch 0x6E E vm = push_int 2 vm (spec_binop 32 Div_u (uint (top_int vm 2)) (uint (top_int vm 1)))"
        "gen_dispatch 0x6F E vm = push_int 2 vm (spec_binop 32 Rem_s (uint (top_int vm 2)) (uint (top_int vm 1)))"
        "gen_dispatch 0x70 E vm = push_int 2 vm (spec_binop 32 Rem_u (uint (top_int vm 2)) (uint (top_int vm 1)))"
        "gen_dispatch 0x71 E vm = push_int 2 vm (spec_binop 32 And (uint (top_int vm 2)) (uint (top_int vm 1)))"
        "gen_dispatch 0x72 E vm = push_int 2 vm (spec_binop 32 Or (uint (top_int vm 2)) (uint (top_int vm 1)))"
        "gen_dispatch 0x73 E vm = push_int 2 vm (spec_binop 32 Xor (uint (top_int vm 2)) (uint (top_int vm 1)))"
        "gen_dispatch 0x74 E vm = push_int 2 vm (spec_binop 32 Shl (uint (top_int vm 2)) (uint (top_int vm 1)))"
        "gen_dispatch 0x75 E vm = push_int 2 vm (spec_binop 32 Shr_s (uint (top_int vm 2)) (uint (top_int vm 1)))"
        "gen_dispatch 0x76 E vm = push_int 2 vm (spec_binop 32 Shr_u (uint (top_int vm 2)) (uint (top_int vm 1)))"
        "gen_dispatch 0x77 E vm = push_int 2 vm (spec_binop 32 Rotl (uint (top_int vm 2)) (uint (top_int vm 1)))"
        "gen_dispatch 0x78 E vm = push_int 2 vm (spec_binop 32 Rotr (uint (top_int vm 2)) (uint (top_int vm 1)))"
  subgoal by (simp add: dispatch_simps gen_op_i32_add_def stack_simps spec_binops32 shift32)
  subgoal by (simp add: dispatch_simps gen_op_i32_sub_def stack_simps spec_binops32 shift32)
  subgoal by (simp add: dispatch_simps gen_op_i32_mul_def stack_simps spec_binops32 shift32)
  subgoal by (simp add: dispatch_simps gen_op_i32_div_s_def stack_simps spec_binops32 shift32)
  subgoal by (simp add: dispatch_simps gen_op_i32_div_u_def stack_simps spec_binops32 shift32)
  subgoal by (simp add: dispatch_simps gen_op_i32_rem_s_def stack_simps spec_binops32 shift32)
  subgoal by (simp add: dispatch_simps gen_op_i32_rem_u_def stack_simps spec_binops32 shift32)
  subgoal by (simp add: dispatch_simps gen_op_i32_and_def stack_simps spec_binops32 shift32)
  subgoal by (simp add: dispatch_simps gen_op_i32_or_def stack_simps spec_binops32 shift32)
  subgoal by (simp add: dispatch_simps gen_op_i32_xor_def stack_simps spec_binops32 shift32)
  subgoal by (simp add: dispatch_simps gen_op_i32_shl_def stack_simps spec_binops32 shift32)
  subgoal by (simp add: dispatch_simps gen_op_i32_shr_s_def stack_simps spec_binops32 shift32)
  subgoal by (simp add: dispatch_simps gen_op_i32_shr_u_def stack_simps spec_binops32 shift32)
  subgoal by (simp add: dispatch_simps gen_op_i32_rotl_def stack_simps spec_binops32 shift32 rotate32)
  subgoal by (simp add: dispatch_simps gen_op_i32_rotr_def stack_simps spec_binops32 shift32 rotate32)
  done

lemma i64_binop_rules:
  shows "gen_dispatch 0x7C E vm = push_long 2 vm (spec_binop 64 Add (uint (top_long vm 2)) (uint (top_long vm 1)))"
        "gen_dispatch 0x7D E vm = push_long 2 vm (spec_binop 64 Sub (uint (top_long vm 2)) (uint (top_long vm 1)))"
        "gen_dispatch 0x7E E vm = push_long 2 vm (spec_binop 64 Mul (uint (top_long vm 2)) (uint (top_long vm 1)))"
        "gen_dispatch 0x7F E vm = push_long 2 vm (spec_binop 64 Div_s (uint (top_long vm 2)) (uint (top_long vm 1)))"
        "gen_dispatch 0x80 E vm = push_long 2 vm (spec_binop 64 Div_u (uint (top_long vm 2)) (uint (top_long vm 1)))"
        "gen_dispatch 0x81 E vm = push_long 2 vm (spec_binop 64 Rem_s (uint (top_long vm 2)) (uint (top_long vm 1)))"
        "gen_dispatch 0x82 E vm = push_long 2 vm (spec_binop 64 Rem_u (uint (top_long vm 2)) (uint (top_long vm 1)))"
        "gen_dispatch 0x83 E vm = push_long 2 vm (spec_binop 64 And (uint (top_long vm 2)) (uint (top_long vm 1)))"
        "gen_dispatch 0x84 E vm = push_long 2 vm (spec_binop 64 Or (uint (top_long vm 2)) (uint (top_long vm 1)))"
        "gen_dispatch 0x85 E vm = push_long 2 vm (spec_binop 64 Xor (uint (top_long vm 2)) (uint (top_long vm 1)))"
        "gen_dispatch 0x86 E vm = push_long 2 vm (spec_binop 64 Shl (uint (top_long vm 2)) (uint (top_long vm 1)))"
        "gen_dispatch 0x87 E vm = push_long 2 vm (spec_binop 64 Shr_s (uint (top_long vm 2)) (uint (top_long vm 1)))"
        "gen_dispatch 0x88 E vm = push_long 2 vm (spec_binop 64 Shr_u (uint (top_long vm 2)) (uint (top_long vm 1)))"
        "gen_dispatch 0x89 E vm = push_long 2 vm (spec_binop 64 Rotl (uint (top_long vm 2)) (uint (top_long vm 1)))"
        "gen_dispatch 0x8A E vm = push_long 2 vm (spec_binop 64 Rotr (uint (top_long vm 2)) (uint (top_long vm 1)))"
  subgoal by (simp add: dispatch_simps gen_op_i64_add_def stack_simps spec_binops64 shift64)
  subgoal by (simp add: dispatch_simps gen_op_i64_sub_def stack_simps spec_binops64 shift64)
  subgoal by (simp add: dispatch_simps gen_op_i64_mul_def stack_simps spec_binops64 shift64)
  subgoal by (simp add: dispatch_simps gen_op_i64_div_s_def stack_simps spec_binops64 shift64)
  subgoal by (simp add: dispatch_simps gen_op_i64_div_u_def stack_simps spec_binops64 shift64)
  subgoal by (simp add: dispatch_simps gen_op_i64_rem_s_def stack_simps spec_binops64 shift64)
  subgoal by (simp add: dispatch_simps gen_op_i64_rem_u_def stack_simps spec_binops64 shift64)
  subgoal by (simp add: dispatch_simps gen_op_i64_and_def stack_simps spec_binops64 shift64)
  subgoal by (simp add: dispatch_simps gen_op_i64_or_def stack_simps spec_binops64 shift64)
  subgoal by (simp add: dispatch_simps gen_op_i64_xor_def stack_simps spec_binops64 shift64)
  subgoal by (simp add: dispatch_simps gen_op_i64_shl_def stack_simps spec_binops64 shift64)
  subgoal by (simp add: dispatch_simps gen_op_i64_shr_s_def stack_simps spec_binops64 shift64)
  subgoal by (simp add: dispatch_simps gen_op_i64_shr_u_def stack_simps spec_binops64 shift64)
  subgoal by (simp add: dispatch_simps gen_op_i64_rotl_def stack_simps spec_binops64 shift64 rotate64)
  subgoal by (simp add: dispatch_simps gen_op_i64_rotr_def stack_simps spec_binops64 shift64 rotate64)
  done

lemma i32_relop_rules:
  shows "gen_dispatch 0x46 E vm = push_int 2 vm (Inr (of_bool (spec_relop 32 Eq (uint (top_int vm 2)) (uint (top_int vm 1)))))"
        "gen_dispatch 0x47 E vm = push_int 2 vm (Inr (of_bool (spec_relop 32 Ne (uint (top_int vm 2)) (uint (top_int vm 1)))))"
        "gen_dispatch 0x48 E vm = push_int 2 vm (Inr (of_bool (spec_relop 32 Lt_s (uint (top_int vm 2)) (uint (top_int vm 1)))))"
        "gen_dispatch 0x49 E vm = push_int 2 vm (Inr (of_bool (spec_relop 32 Lt_u (uint (top_int vm 2)) (uint (top_int vm 1)))))"
        "gen_dispatch 0x4A E vm = push_int 2 vm (Inr (of_bool (spec_relop 32 Gt_s (uint (top_int vm 2)) (uint (top_int vm 1)))))"
        "gen_dispatch 0x4B E vm = push_int 2 vm (Inr (of_bool (spec_relop 32 Gt_u (uint (top_int vm 2)) (uint (top_int vm 1)))))"
        "gen_dispatch 0x4C E vm = push_int 2 vm (Inr (of_bool (spec_relop 32 Le_s (uint (top_int vm 2)) (uint (top_int vm 1)))))"
        "gen_dispatch 0x4D E vm = push_int 2 vm (Inr (of_bool (spec_relop 32 Le_u (uint (top_int vm 2)) (uint (top_int vm 1)))))"
        "gen_dispatch 0x4E E vm = push_int 2 vm (Inr (of_bool (spec_relop 32 Ge_s (uint (top_int vm 2)) (uint (top_int vm 1)))))"
        "gen_dispatch 0x4F E vm = push_int 2 vm (Inr (of_bool (spec_relop 32 Ge_u (uint (top_int vm 2)) (uint (top_int vm 1)))))"
  subgoal by (simp add: dispatch_simps gen_op_i32_eq_def stack_simps spec_relops [where 'a = 32, simplified])
  subgoal by (simp add: dispatch_simps gen_op_i32_ne_def stack_simps spec_relops [where 'a = 32, simplified])
  subgoal by (simp add: dispatch_simps gen_op_i32_lt_s_def stack_simps spec_relops [where 'a = 32, simplified])
  subgoal by (simp add: dispatch_simps gen_op_i32_lt_u_def stack_simps spec_relops [where 'a = 32, simplified])
  subgoal by (simp add: dispatch_simps gen_op_i32_gt_s_def stack_simps spec_relops [where 'a = 32, simplified])
  subgoal by (simp add: dispatch_simps gen_op_i32_gt_u_def stack_simps spec_relops [where 'a = 32, simplified])
  subgoal by (simp add: dispatch_simps gen_op_i32_le_s_def stack_simps spec_relops [where 'a = 32, simplified])
  subgoal by (simp add: dispatch_simps gen_op_i32_le_u_def stack_simps spec_relops [where 'a = 32, simplified])
  subgoal by (simp add: dispatch_simps gen_op_i32_ge_s_def stack_simps spec_relops [where 'a = 32, simplified])
  subgoal by (simp add: dispatch_simps gen_op_i32_ge_u_def stack_simps spec_relops [where 'a = 32, simplified])
  done

lemma i64_relop_rules:
  shows "gen_dispatch 0x51 E vm = push_int 2 vm (Inr (of_bool (spec_relop 64 Eq (uint (top_long vm 2)) (uint (top_long vm 1)))))"
        "gen_dispatch 0x52 E vm = push_int 2 vm (Inr (of_bool (spec_relop 64 Ne (uint (top_long vm 2)) (uint (top_long vm 1)))))"
        "gen_dispatch 0x53 E vm = push_int 2 vm (Inr (of_bool (spec_relop 64 Lt_s (uint (top_long vm 2)) (uint (top_long vm 1)))))"
        "gen_dispatch 0x54 E vm = push_int 2 vm (Inr (of_bool (spec_relop 64 Lt_u (uint (top_long vm 2)) (uint (top_long vm 1)))))"
        "gen_dispatch 0x55 E vm = push_int 2 vm (Inr (of_bool (spec_relop 64 Gt_s (uint (top_long vm 2)) (uint (top_long vm 1)))))"
        "gen_dispatch 0x56 E vm = push_int 2 vm (Inr (of_bool (spec_relop 64 Gt_u (uint (top_long vm 2)) (uint (top_long vm 1)))))"
        "gen_dispatch 0x57 E vm = push_int 2 vm (Inr (of_bool (spec_relop 64 Le_s (uint (top_long vm 2)) (uint (top_long vm 1)))))"
        "gen_dispatch 0x58 E vm = push_int 2 vm (Inr (of_bool (spec_relop 64 Le_u (uint (top_long vm 2)) (uint (top_long vm 1)))))"
        "gen_dispatch 0x59 E vm = push_int 2 vm (Inr (of_bool (spec_relop 64 Ge_s (uint (top_long vm 2)) (uint (top_long vm 1)))))"
        "gen_dispatch 0x5A E vm = push_int 2 vm (Inr (of_bool (spec_relop 64 Ge_u (uint (top_long vm 2)) (uint (top_long vm 1)))))"
  subgoal by (simp add: dispatch_simps gen_op_i64_eq_def stack_simps spec_relops [where 'a = 64, simplified])
  subgoal by (simp add: dispatch_simps gen_op_i64_ne_def stack_simps spec_relops [where 'a = 64, simplified])
  subgoal by (simp add: dispatch_simps gen_op_i64_lt_s_def stack_simps spec_relops [where 'a = 64, simplified])
  subgoal by (simp add: dispatch_simps gen_op_i64_lt_u_def stack_simps spec_relops [where 'a = 64, simplified])
  subgoal by (simp add: dispatch_simps gen_op_i64_gt_s_def stack_simps spec_relops [where 'a = 64, simplified])
  subgoal by (simp add: dispatch_simps gen_op_i64_gt_u_def stack_simps spec_relops [where 'a = 64, simplified])
  subgoal by (simp add: dispatch_simps gen_op_i64_le_s_def stack_simps spec_relops [where 'a = 64, simplified])
  subgoal by (simp add: dispatch_simps gen_op_i64_le_u_def stack_simps spec_relops [where 'a = 64, simplified])
  subgoal by (simp add: dispatch_simps gen_op_i64_ge_s_def stack_simps spec_relops [where 'a = 64, simplified])
  subgoal by (simp add: dispatch_simps gen_op_i64_ge_u_def stack_simps spec_relops [where 'a = 64, simplified])
  done

lemma zero_counts [simp]: "builtin_clz (0 :: 'a :: len word) = LENGTH('a)" "builtin_ctz (0 :: 'a :: len word) = LENGTH('a)"
  by (simp_all add: builtin_clz_def builtin_ctz_def takeWhile_eq_all_conv [THEN iffD2])

lemma unop_words32:
  fixes a :: u32
  shows "word_of_int (spec_unop 32 Clz (uint a)) = (if a = 0 then 32 else word_of_nat (builtin_clz a) :: u32)"
    "word_of_int (spec_unop 32 Ctz (uint a)) = (if a = 0 then 32 else word_of_nat (builtin_ctz a) :: u32)"
    "word_of_int (spec_unop 32 Popcnt (uint a)) = (word_of_nat (builtin_popcount a) :: u32)"
    "word_of_int (spec_unop 32 Extend8_s (uint a)) = (scast (ucast a :: u8) :: u32)"
    "word_of_int (spec_unop 32 Extend16_s (uint a)) = (scast (ucast a :: u16) :: u32)"
  using spec_count_zeros [of a] spec_extends [of a] by (simp_all del: spec_unop.simps)

lemma unop_words64:
  fixes a :: u64
  shows "word_of_int (spec_unop 64 Clz (uint a)) = (if a = 0 then 64 else word_of_nat (builtin_clz a) :: u64)"
    "word_of_int (spec_unop 64 Ctz (uint a)) = (if a = 0 then 64 else word_of_nat (builtin_ctz a) :: u64)"
    "word_of_int (spec_unop 64 Popcnt (uint a)) = (word_of_nat (builtin_popcount a) :: u64)"
    "word_of_int (spec_unop 64 Extend8_s (uint a)) = (scast (ucast a :: u8) :: u64)"
    "word_of_int (spec_unop 64 Extend16_s (uint a)) = (scast (ucast a :: u16) :: u64)"
    "word_of_int (spec_unop 64 Extend32_s (uint a)) = (scast (ucast a :: u32) :: u64)"
  using spec_count_zeros [of a] spec_extends [of a] by (simp_all del: spec_unop.simps)

lemma i32_unop_rules:
  shows "gen_dispatch 0x67 E vm = push_int 1 vm (Inr (spec_unop 32 Clz (uint (top_int vm 1))))"
        "gen_dispatch 0x68 E vm = push_int 1 vm (Inr (spec_unop 32 Ctz (uint (top_int vm 1))))"
        "gen_dispatch 0x69 E vm = push_int 1 vm (Inr (spec_unop 32 Popcnt (uint (top_int vm 1))))"
        "gen_dispatch 0xC0 E vm = push_int 1 vm (Inr (spec_unop 32 Extend8_s (uint (top_int vm 1))))"
        "gen_dispatch 0xC1 E vm = push_int 1 vm (Inr (spec_unop 32 Extend16_s (uint (top_int vm 1))))"
  subgoal by (simp add: dispatch_simps gen_op_i32_clz_def stack_simps push_int_def unop_words32 del: spec_unop.simps)
  subgoal by (simp add: dispatch_simps gen_op_i32_ctz_def stack_simps push_int_def unop_words32 del: spec_unop.simps)
  subgoal by (simp add: dispatch_simps gen_op_i32_popcnt_def stack_simps push_int_def unop_words32 del: spec_unop.simps)
  subgoal by (simp add: dispatch_simps gen_op_i32_extend8_s_def stack_simps push_int_def unop_words32 del: spec_unop.simps)
  subgoal by (simp add: dispatch_simps gen_op_i32_extend16_s_def stack_simps push_int_def unop_words32 del: spec_unop.simps)
  done

lemma i64_unop_rules:
  shows "gen_dispatch 0x79 E vm = push_long 1 vm (Inr (spec_unop 64 Clz (uint (top_long vm 1))))"
        "gen_dispatch 0x7A E vm = push_long 1 vm (Inr (spec_unop 64 Ctz (uint (top_long vm 1))))"
        "gen_dispatch 0x7B E vm = push_long 1 vm (Inr (spec_unop 64 Popcnt (uint (top_long vm 1))))"
        "gen_dispatch 0xC2 E vm = push_long 1 vm (Inr (spec_unop 64 Extend8_s (uint (top_long vm 1))))"
        "gen_dispatch 0xC3 E vm = push_long 1 vm (Inr (spec_unop 64 Extend16_s (uint (top_long vm 1))))"
        "gen_dispatch 0xC4 E vm = push_long 1 vm (Inr (spec_unop 64 Extend32_s (uint (top_long vm 1))))"
  subgoal by (simp add: dispatch_simps gen_op_i64_clz_def stack_simps push_long_def unop_words64 del: spec_unop.simps)
  subgoal by (simp add: dispatch_simps gen_op_i64_ctz_def stack_simps push_long_def unop_words64 del: spec_unop.simps)
  subgoal by (simp add: dispatch_simps gen_op_i64_popcnt_def stack_simps push_long_def unop_words64 del: spec_unop.simps)
  subgoal by (simp add: dispatch_simps gen_op_i64_extend8_s_def stack_simps push_long_def unop_words64 del: spec_unop.simps)
  subgoal by (simp add: dispatch_simps gen_op_i64_extend16_s_def stack_simps push_long_def unop_words64 del: spec_unop.simps)
  subgoal by (simp add: dispatch_simps gen_op_i64_extend32_s_def stack_simps push_long_def unop_words64 del: spec_unop.simps)
  done

section \<open>The integer instructions\<close>

text \<open>C4. Every integer binary operator of the interpreter, of both widths, dispatched from its opcode,
  computes the numeric semantics of the specification on the two operands: the same result modulo
  \<open>2 ^ N\<close>, the same traps (division by zero, and the overflow of the signed quotient only), shift and
  rotation distances modulo \<open>N\<close>; it consumes the two operands and leaves the rest of the machine alone.\<close>

theorem integer_binops_spec:
  "list_all (\<lambda>(op, f). \<forall>E vm. gen_dispatch op E vm =
      push_int 2 vm (spec_binop 32 f (uint (top_int vm 2)) (uint (top_int vm 1)))) i32_binops \<and>
   list_all (\<lambda>(op, f). \<forall>E vm. gen_dispatch op E vm =
      push_long 2 vm (spec_binop 64 f (uint (top_long vm 2)) (uint (top_long vm 1)))) i64_binops"
  unfolding i64_binops_def i32_binops_def list.map prod.case
  by (simp add: i32_binop_rules i64_binop_rules del: spec_binop.simps)

text \<open>C35. Every integer comparison pushes 1 when the relation of the specification holds of its operands
  and 0 otherwise, and the counts and sign extensions push the number the specification defines.\<close>

theorem integer_tests_spec:
  "list_all (\<lambda>(op, f). \<forall>E vm. gen_dispatch op E vm =
      push_int 2 vm (Inr (of_bool (spec_relop 32 f (uint (top_int vm 2)) (uint (top_int vm 1)))))) i32_relops \<and>
   list_all (\<lambda>(op, f). \<forall>E vm. gen_dispatch op E vm =
      push_int 2 vm (Inr (of_bool (spec_relop 64 f (uint (top_long vm 2)) (uint (top_long vm 1)))))) i64_relops \<and>
   list_all (\<lambda>(op, f). \<forall>E vm. gen_dispatch op E vm =
      push_int 1 vm (Inr (spec_unop 32 f (uint (top_int vm 1))))) i32_unops \<and>
   list_all (\<lambda>(op, f). \<forall>E vm. gen_dispatch op E vm =
      push_long 1 vm (Inr (spec_unop 64 f (uint (top_long vm 1))))) i64_unops"
  unfolding i64_relops_def i32_relops_def i32_unops_def i64_unops_def list.map prod.case
  by (simp add: i32_relop_rules i64_relop_rules i32_unop_rules i64_unop_rules del: spec_relop.simps spec_unop.simps push_cases)

end
