(* ===== verification/VmDemo.thy ===== *)
theory VmDemo
  imports Interp Validator GcAlloc
begin

text \<open>
  A small machine on which the properties of the interpreter are applied: one instance with one memory
  and one table, a reader of one-byte numbers, and the collector of the heap theories.
\<close>

definition demo_ctx :: instctx where
  "demo_ctx =
     \<lparr>ic_functions = 0x1000, ic_num_functions = 0, ic_globals = [], ic_global_types = [], ic_tables = [0],
      ic_types = [], ic_struct_rtts = [demo_rtt], ic_field_packs = [], ic_lattice = None, ic_mem_addrs = [0],
      ic_tags = [], ic_tag_ids = [], ic_data_segs = [[7, 8, 9]], ic_data_dropped = [False], ic_elem_segs = [],
      ic_elem_dropped = []\<rparr>"

definition demo_frame :: "u8 list \<Rightarrow> u32 \<Rightarrow> frame" where
  "demo_frame code sp =
     \<lparr>fr_code = code, fr_pos = 0, fr_stack = 0, fr_sp = sp, fr_locals = 0, fr_num_locals = 0, fr_sidetable = [],
      fr_stp = 0, fr_trytable = [], fr_instr_pc = 0, fr_ctx = 0\<rparr>"

definition demo_mem :: "bool \<Rightarrow> jav_mem" where
  "demo_mem is64 = \<lparr>mm_data = [10, 11, 12, 13, 14, 15, 16, 17, 18, 19], mm_max = 0, mm_has_max = False, mm_is64 = is64\<rparr>"

definition demo_table :: jav_tableinst where
  "demo_table =
     \<lparr>ti_refs = [1, 2, 3, 4], ti_types = [T_REF, T_REF, T_REF, T_REF], ti_max = 0, ti_has_max = False,
      ti_reftype = WVT_REF, ti_reftype_ht = HT_FUNC, ti_is64 = False\<rparr>"

definition demo_vm :: "u8 list \<Rightarrow> (u64 \<times> vtag) list \<Rightarrow> bool \<Rightarrow> vm" where
  "demo_vm code vs is64 =
     \<lparr>vm_frame = demo_frame code (word_of_nat (length vs)), vm_trapped = False, vm_trap_reason = JAV_TRAP_NONE,
      vm_exhausted = None, vm_handlers = [], vm_pending_exn = 0, vm_unwinding = False, vm_tail_pending = False,
      vm_tail_fn = 0, vm_tail_func = 0, vm_call_depth = 0, vm_max_call_depth = 0,
      vm_value_stack = (\<lambda>i. \<lparr>sl_lo = (if i < length vs then fst (vs ! i) else 0), sl_hi = 0\<rparr>),
      vm_value_types = (\<lambda>i. if i < length vs then snd (vs ! i) else T_VOID),
      vm_locals_store = (\<lambda>_. \<lparr>sl_lo = 0, sl_hi = 0\<rparr>), vm_local_type_store = (\<lambda>_. T_VOID), vm_trap_trace = [],
      vm_trap_pcs = [], vm_mems = [demo_mem is64], vm_tables = [demo_table],
      vm_globals = (\<lambda>_. \<lparr>sl_lo = 0, sl_hi = 0\<rparr>), vm_inst = (\<lambda>_. demo_ctx), vm_host_refs = (\<lambda>_. 0), vm_exn_rtts = [],
      vm_gc = demo_heap\<rparr>"

definition demo_ienv :: ienv where
  "demo_ienv =
     \<lparr>ie_rd = byte_reader,
      ie_func = (\<lambda>_. \<lparr>fn_code = [], fn_num_params = 0, fn_num_locals = 0, fn_num_results = 0, fn_type_index = 0,
                      fn_sidetable = [], fn_trytable = [], fn_invoke = None, fn_inst_ctx = None\<rparr>),
      ie_invoke = (\<lambda>_ vm. Some (JAV_OK, vm)), ie_closed_match = (\<lambda>_ _ _. False), ie_other = (\<lambda>_ _ _. Fault),
      ie_extra_roots = (\<lambda>_. []), ie_junk = 0, ie_os = demo_os, ie_malloc = demo_malloc, ie_realloc = (\<lambda>_. True)\<rparr>"

lemmas demo_eval =
  demo_ienv_def demo_vm_def demo_frame_def demo_ctx_def demo_mem_def demo_table_def byte_reader_def one_byte_def
  sleb7_def

end
