(* ===== verification/VmMemRules.thy ===== *)
theory VmMemRules
  imports VmRules VmDemo
begin

text \<open>
  Linear memory against the specification: loads and stores as functions on byte lists with unbounded
  addresses, growth, and the bulk operations; and the 64-bit addresses on which the code departs from it.
\<close>

section \<open>Bytes\<close>

lemma le_val_less: "le_val bs < 256 ^ length bs"
proof (induction bs)
  case (Cons b bs)
  have "unat b < 256" using unsigned_less [of b] by simp
  then show ?case using Cons by simp
qed simp

lemma uint_le_word:
  "8 * length bs \<le> LENGTH('a) \<Longrightarrow> uint (le_word bs :: 'a :: len word) = int (le_val bs)"
proof -
  assume "8 * length bs \<le> LENGTH('a)"
  have "le_val bs < 2 ^ (8 * length bs)" using le_val_less [of bs] by (simp add: power_mult)
  also have "\<dots> \<le> 2 ^ LENGTH('a)" using \<open>8 * length bs \<le> LENGTH('a)\<close> by (rule power_increasing) simp
  finally show ?thesis by (simp add: le_word_def uint_nat unat_of_nat)
qed

lemma length_le_bytes [simp]: "length (le_bytes n w) = n"
  by (simp add: le_bytes_def)

lemma unat_byte: "unat (ucast (drop_bit (8 * k) w) :: u8) = unat (w :: 'a :: len word) div 256 ^ k mod 256"
proof -
  have "unat (ucast (drop_bit (8 * k) w) :: u8) = unat (drop_bit (8 * k) w) mod 256"
    by (simp add: unsigned_ucast_eq take_bit_eq_mod)
  also have "unat (drop_bit (8 * k) w) = unat w div 256 ^ k"
    by (simp only: unat_drop_bit_eq) (simp add: drop_bit_eq_div power_mult)
  finally show ?thesis .
qed

lemma nth_le_bytes: "k < n \<Longrightarrow> le_bytes n w ! k = word_of_nat (unat w div 256 ^ k mod 256)"
  by (simp add: le_bytes_def word_unat_eq_iff unat_byte unat_of_nat)

lemma le_val_le_bytes: "le_val (le_bytes n w) = unat w mod 256 ^ n"
proof -
  have "le_val (map (\<lambda>k. ucast (drop_bit (8 * (m + k)) w) :: u8) [0..<n]) = (unat w div 256 ^ m) mod 256 ^ n" for m
  proof (induction n arbitrary: m)
    case (Suc n)
    have "map (\<lambda>k. ucast (drop_bit (8 * (m + k)) w) :: u8) [0..<Suc n] =
        ucast (drop_bit (8 * m) w) # map (\<lambda>k. ucast (drop_bit (8 * (Suc m + k)) w)) [0..<n]"
      unfolding upt_conv_Cons [OF zero_less_Suc] by (simp add: map_Suc_upt [symmetric] comp_def algebra_simps del: upt_Suc)
    then have "le_val (map (\<lambda>k. ucast (drop_bit (8 * (m + k)) w) :: u8) [0..<Suc n]) =
        unat w div 256 ^ m mod 256 + 256 * (unat w div 256 ^ Suc m mod 256 ^ n)"
      by (simp only: le_val.simps unat_byte Suc)
    also have "\<dots> = (unat w div 256 ^ m) mod (256 * 256 ^ n)"
      unfolding mod_mult2_eq power_Suc2 div_mult2_eq by (simp add: mult.commute)
    finally show ?case by simp
  qed simp
  from this [of 0] show ?thesis by (simp add: le_bytes_def)
qed

section \<open>The specification of an access\<close>

text \<open>The value of the bytes read, with sign extension or without.\<close>

definition load_value :: "bool \<Rightarrow> nat \<Rightarrow> u8 list \<Rightarrow> int" where
  "load_value sx n bs = (if sx then signed_of (8 * n) (int (le_val bs)) else int (le_val bs))"

text \<open>The memory after the \<open>n\<close> low bytes of \<open>v\<close> are written at \<open>ea\<close>.\<close>

definition store_bytes :: "nat \<Rightarrow> nat \<Rightarrow> nat \<Rightarrow> u8 list \<Rightarrow> u8 list" where
  "store_bytes n ea v bs =
     map (\<lambda>i. if ea \<le> i \<and> i < ea + n then word_of_nat (v div 256 ^ (i - ea) mod 256) else bs ! i) [0..<length bs]"

text \<open>The effective address is a natural number: it does not wrap.\<close>

definition load_spec :: "(int \<Rightarrow> vm \<Rightarrow> vm) \<Rightarrow> nat \<Rightarrow> bool \<Rightarrow> handler" where
  "load_spec push n sx E vm =
     (let (mi, offset, vm) = imm_memarg E vm; (addr, vm) = gpop_addr (mem_is64 vm mi) vm; ea = unat addr + unat offset in
      case mem_of vm mi of
        None \<Rightarrow> guard_trap OutOfBoundsMemoryAccess vm
      | Some m \<Rightarrow>
          if ea + n \<le> length (mm_data m) then Next (push (load_value sx n (take n (drop ea (mm_data m)))) vm)
          else guard_trap OutOfBoundsMemoryAccess vm)"

definition store_spec :: "(vm \<Rightarrow> nat \<times> vm) \<Rightarrow> nat \<Rightarrow> handler" where
  "store_spec pop n E vm =
     (let (mi, offset, vm) = imm_memarg E vm; (v, vm) = pop vm; (addr, vm) = gpop_addr (mem_is64 vm mi) vm;
          ea = unat addr + unat offset in
      case mem_at vm mi of
        None \<Rightarrow> guard_trap OutOfBoundsMemoryAccess vm
      | Some a \<Rightarrow>
          let m = vm_mems vm ! a in
          if ea + n \<le> length (mm_data m)
          then Next (vm\<lparr>vm_mems := (vm_mems vm)[a := m\<lparr>mm_data := store_bytes n ea v (mm_data m)\<rparr>]\<rparr>)
          else guard_trap OutOfBoundsMemoryAccess vm)"

text \<open>Every memory is within the engine's bound, and the address sum of an access with \<open>k\<close> operands above
  the address fits 64 bits.\<close>

definition mems_ok :: "vm \<Rightarrow> bool" where
  "mems_ok vm \<longleftrightarrow> list_all (\<lambda>m. length (mm_data m) \<le> 2 ^ 36) (vm_mems vm)"

definition ea_fits :: "u32 \<Rightarrow> ienv \<Rightarrow> vm \<Rightarrow> bool" where
  "ea_fits k E vm \<longleftrightarrow>
     (let (mi, offset, vm) = imm_memarg E vm; (addr, vm) = gpop_addr (mem_is64 vm mi) (gdrop k vm)
      in unat addr + unat offset < 2 ^ 64)"

lemma unat_ea: "unat a + unat b < 2 ^ 64 \<Longrightarrow> unat (a + b :: u64) = unat a + unat b"
  by (simp add: unat_word_ariths)

lemma mems_ok_mem_of: "mems_ok vm \<Longrightarrow> mem_of vm mi = Some m \<Longrightarrow> length (mm_data m) \<le> 2 ^ 36"
  by (auto simp: mems_ok_def mem_of_def mem_at_def list_all_length Let_def split: if_splits)

lemma mem_ok_iff:
  assumes "length (mm_data m) \<le> 2 ^ 36"
  shows "mem_ok (Some m) ea n \<longleftrightarrow> unat ea + unat n \<le> length (mm_data m)"
proof -
  have u: "unat (mm_size m) = length (mm_data m)" using assms by (simp add: mm_size_def unat_of_nat)
  show ?thesis
  proof (cases "ea \<le> mm_size m")
    case True
    then have "unat (mm_size m - ea) = length (mm_data m) - unat ea" by (simp add: unat_sub u)
    then show ?thesis using True by (auto simp: mem_ok_def word_le_nat_alt u)
  next
    case False
    then show ?thesis by (auto simp: mem_ok_def word_le_nat_alt u)
  qed
qed

section \<open>What the operands leave alone\<close>

named_theorems mem_frame \<open>memories under stack operations\<close>

lemma gdrop_0 [simp]: "gdrop 0 vm = vm"
  by (simp add: gdrop_def set_sp_def)

lemma frame_gdrop [mem_frame]:
  "vm_mems (gdrop k vm) = vm_mems vm" "fr_ctx (vm_frame (gdrop k vm)) = fr_ctx (vm_frame vm)" "vm_inst (gdrop k vm) = vm_inst vm"
  by (simp_all add: gdrop_def set_sp_def)

lemma mem_gdrop [mem_frame]:
  "mem_at (gdrop k vm) mi = mem_at vm mi" "mem_of (gdrop k vm) mi = mem_of vm mi"
  "mem_is64 (gdrop k vm) mi = mem_is64 vm mi" "mem_in_bounds (gdrop k vm) mi ea n = mem_in_bounds vm mi ea n"
  "mem_read l (gdrop k vm) mi ea = mem_read l vm mi ea"
  by (simp_all add: mem_at_def mem_of_def mem_is64_def mem_in_bounds_def mem_read_def mem_frame Let_def)

lemma gpop_addr_eq: "gpop_addr w vm = (if w then top_long vm 1 else ucast (top_int vm 1), gdrop 1 vm)"
  by (simp add: gpop_addr_def stack_simps)

lemma imm_frame [mem_frame]:
  "vm_mems (snd (imm_u32 E vm)) = vm_mems vm" "vm_mems (snd (imm_u64 E vm)) = vm_mems vm"
  by (simp_all add: imm_u32_def imm_u64_def Let_def split: prod.split)

lemma imm_memarg_mems: "imm_memarg E vm = (mi, q, vm') \<Longrightarrow> vm_mems vm' = vm_mems vm"
  using imm_frame by (auto simp: imm_memarg_def Let_def split: prod.splits if_splits) (metis snd_conv)+

lemma gpush_frame [mem_frame]:
  "vm_mems (gpush_word s t vm) = vm_mems vm"
  by (simp add: gpush_word_def put_slot_def set_sp_def)

lemma mem_ok_ea:
  assumes "mems_ok vm" "unat a + unat b < 2 ^ 64" "vm_mems vm' = vm_mems vm" "n \<le> 16"
  shows "mem_in_bounds vm' mi (a + b) (word_of_nat n) \<longleftrightarrow>
      (case mem_of vm' mi of None \<Rightarrow> False | Some m \<Rightarrow> unat a + unat b + n \<le> length (mm_data m))"
proof -
  have "mems_ok vm'" using assms(1,3) by (simp add: mems_ok_def)
  moreover have "unat (word_of_nat n :: u64) = n" using assms(4) by (simp add: unat_of_nat)
  ultimately have k: "mems_ok vm'" "unat (word_of_nat n :: u64) = n" by auto
  show ?thesis
  proof (cases "mem_of vm' mi")
    case None
    then show ?thesis by (simp add: mem_in_bounds_def mem_ok_def)
  next
    case (Some m)
    then show ?thesis
      by (simp only: mem_in_bounds_def mem_ok_iff [OF mems_ok_mem_of [OF k(1) Some]] unat_ea [OF assms(2)] k(2) option.case)
  qed
qed

lemma top_push_int: "top_int (gpush_int v vm) 1 = v"
proof -
  have high: "(0xFFFFFFFF00000000 :: u64) = push_bit 32 (mask 32)" by (simp add: mask_eq_exp_minus_1 push_bit_eq_mult)
  have "ucast ((x AND 0xFFFFFFFF00000000) OR ucast v :: u64) = v" for x :: u64
    unfolding high by (rule bit_word_eqI) (auto simp: bit_simps)
  then show ?thesis
    by (simp add: gpush_int_def gpush_word_def top_slot_def stk_at_def set_sp_def put_slot_def slot_i_def set_slot_i_def)
qed

section \<open>Loads\<close>

text \<open>The shape all the loads share, against the specification.\<close>

definition load_op :: "(u8 list \<Rightarrow> 'v) \<Rightarrow> ('v \<Rightarrow> vm \<Rightarrow> vm) \<Rightarrow> nat \<Rightarrow> handler" where
  "load_op conv push n E vm =
     (let (mi, offset, vm) = imm_memarg E vm; (addr, vm) = gpop_addr (mem_is64 vm mi) vm in
      if \<not> mem_in_bounds vm mi (addr + offset) (word_of_nat n) then guard_trap OutOfBoundsMemoryAccess vm
      else case map_option conv (mem_read n vm mi (addr + offset)) of None \<Rightarrow> Fault | Some v \<Rightarrow> Next (push v vm))"

lemma load_op_spec:
  assumes ok: "mems_ok vm" and fits: "ea_fits 0 E vm" and n: "n \<le> 16"
    and conv: "\<And>bs vm. length bs = n \<Longrightarrow> push (conv bs) vm = push' (load_value sx n bs) vm"
  shows "load_op conv push n E vm = load_spec push' n sx E vm"
proof -
  obtain mi offset vm1 where i: "imm_memarg E vm = (mi, offset, vm1)" by (cases "imm_memarg E vm")
  obtain addr vm2 where a: "gpop_addr (mem_is64 vm1 mi) vm1 = (addr, vm2)" by (cases "gpop_addr (mem_is64 vm1 mi) vm1")
  have sum: "unat addr + unat offset < 2 ^ 64"
    using fits a by (auto simp: ea_fits_def i gpop_addr_eq stack_simps mem_frame)
  have mems: "vm_mems vm2 = vm_mems vm"
    using imm_memarg_mems [OF i] a by (auto simp: gpop_addr_eq mem_frame)
  have inb: "mem_in_bounds vm2 mi (addr + offset) (word_of_nat n) \<longleftrightarrow>
      (case mem_of vm2 mi of None \<Rightarrow> False | Some m \<Rightarrow> unat addr + unat offset + n \<le> length (mm_data m))"
    by (rule mem_ok_ea [OF ok sum mems n])
  show ?thesis
    unfolding load_op_def load_spec_def i a Let_def prod.case inb
    using conv by (auto simp: mem_read_def unat_ea [OF sum] split: option.splits)
qed

text \<open>The loads by opcode: width in bytes, and sign extension.\<close>

definition int_loads :: "(u8 \<times> nat \<times> bool) list" where
  "int_loads = [(0x28, 4, False), (0x2C, 1, True), (0x2D, 1, False), (0x2E, 2, True), (0x2F, 2, False)]"

definition long_loads :: "(u8 \<times> nat \<times> bool) list" where
  "long_loads =
     [(0x29, 8, False), (0x30, 1, True), (0x31, 1, False), (0x32, 2, True), (0x33, 2, False), (0x34, 4, True), (0x35, 4, False)]"

lemma loaded:
  assumes "8 * length bs = LENGTH('b)"
  shows "(scast (le_word bs :: 'b :: len word) :: 'a :: len word) = word_of_int (load_value True (length bs) bs)"
    "(ucast (le_word bs :: 'b word) :: 'a word) = word_of_int (load_value False (length bs) bs)"
proof -
  have u: "uint (le_word bs :: 'b word) = int (le_val bs)" using assms by (intro uint_le_word) simp
  show "(scast (le_word bs :: 'b word) :: 'a word) = word_of_int (load_value True (length bs) bs)"
    unfolding load_value_def if_True assms u [symmetric] signed_of_uint scast_eq ..
  show "(ucast (le_word bs :: 'b word) :: 'a word) = word_of_int (load_value False (length bs) bs)"
    unfolding load_value_def by (simp add: u [symmetric])
qed

lemmas load_defs =
  mem_load_i32_def mem_load_i8_def mem_load_i16_def mem_load_i64_def mem_load_f32_def mem_load_f64_def
  mem_load_i32_8u_def mem_load_i32_16u_def mem_load_i64_8s_def mem_load_i64_8u_def mem_load_i64_16s_def
  mem_load_i64_16u_def mem_load_i64_32s_def mem_load_i64_32u_def

lemma le_word_load: "(word_of_int (load_value False n bs) :: 'a :: len word) = le_word bs"
  by (simp add: le_word_def load_value_def)

lemma int_load_ops:
  shows "gen_dispatch 0x28 E vm = load_op (le_word) gpush_int 4 E vm"
        "gen_dispatch 0x2C E vm = load_op (\<lambda>bs. scast (le_word bs :: u8)) gpush_int 1 E vm"
        "gen_dispatch 0x2D E vm = load_op (\<lambda>bs. ucast (le_word bs :: u8)) gpush_int 1 E vm"
        "gen_dispatch 0x2E E vm = load_op (\<lambda>bs. scast (le_word bs :: u16)) gpush_int 2 E vm"
        "gen_dispatch 0x2F E vm = load_op (\<lambda>bs. ucast (le_word bs :: u16)) gpush_int 2 E vm"
  subgoal unfolding load_op_def by (simp add: dispatch_simps, unfold gen_op_i32_load_def load_defs, simp)
  subgoal unfolding load_op_def by (simp add: dispatch_simps, unfold gen_op_i32_load8_s_def load_defs, simp)
  subgoal unfolding load_op_def by (simp add: dispatch_simps, unfold gen_op_i32_load8_u_def load_defs, simp)
  subgoal unfolding load_op_def by (simp add: dispatch_simps, unfold gen_op_i32_load16_s_def load_defs, simp)
  subgoal unfolding load_op_def by (simp add: dispatch_simps, unfold gen_op_i32_load16_u_def load_defs, simp)
  done

lemma long_load_ops:
  shows "gen_dispatch 0x29 E vm = load_op (le_word) gpush_long 8 E vm"
        "gen_dispatch 0x30 E vm = load_op (\<lambda>bs. scast (le_word bs :: u8)) gpush_long 1 E vm"
        "gen_dispatch 0x31 E vm = load_op (\<lambda>bs. ucast (le_word bs :: u8)) gpush_long 1 E vm"
        "gen_dispatch 0x32 E vm = load_op (\<lambda>bs. scast (le_word bs :: u16)) gpush_long 2 E vm"
        "gen_dispatch 0x33 E vm = load_op (\<lambda>bs. ucast (le_word bs :: u16)) gpush_long 2 E vm"
        "gen_dispatch 0x34 E vm = load_op (\<lambda>bs. scast (le_word bs :: u32)) gpush_long 4 E vm"
        "gen_dispatch 0x35 E vm = load_op (\<lambda>bs. ucast (le_word bs :: u32)) gpush_long 4 E vm"
  subgoal unfolding load_op_def by (simp add: dispatch_simps, unfold gen_op_i64_load_def load_defs, simp)
  subgoal unfolding load_op_def by (simp add: dispatch_simps, unfold gen_op_i64_load8_s_def load_defs, simp)
  subgoal unfolding load_op_def by (simp add: dispatch_simps, unfold gen_op_i64_load8_u_def load_defs, simp)
  subgoal unfolding load_op_def by (simp add: dispatch_simps, unfold gen_op_i64_load16_s_def load_defs, simp)
  subgoal unfolding load_op_def by (simp add: dispatch_simps, unfold gen_op_i64_load16_u_def load_defs, simp)
  subgoal unfolding load_op_def by (simp add: dispatch_simps, unfold gen_op_i64_load32_s_def load_defs, simp)
  subgoal unfolding load_op_def by (simp add: dispatch_simps, unfold gen_op_i64_load32_u_def load_defs, simp)
  done

abbreviation push_i32 :: "int \<Rightarrow> vm \<Rightarrow> vm" where "push_i32 v \<equiv> gpush_int (word_of_int v)"
abbreviation push_i64 :: "int \<Rightarrow> vm \<Rightarrow> vm" where "push_i64 v \<equiv> gpush_long (word_of_int v)"

lemmas loaded_at = loaded [where 'b = 8, simplified] loaded [where 'b = 16, simplified] loaded [where 'b = 32, simplified]

lemma int_load_rules:
  assumes "mems_ok vm" "ea_fits 0 E vm"
  shows "list_all (\<lambda>(op, n, sx). gen_dispatch op E vm = load_spec push_i32 n sx E vm) int_loads"
    "list_all (\<lambda>(op, n, sx). gen_dispatch op E vm = load_spec push_i64 n sx E vm) long_loads"
  unfolding int_loads_def long_loads_def list.pred_inject(2) prod.case int_load_ops long_load_ops
  subgoal by (intro conjI list.pred_inject(1) load_op_spec [OF assms]; simp add: le_word_load loaded_at)
  subgoal by (intro conjI list.pred_inject(1) load_op_spec [OF assms]; simp add: le_word_load loaded_at)
  done

section \<open>Stores\<close>

lemma length_store_bytes [simp]: "length (store_bytes n ea v bs) = length bs"
  by (simp add: store_bytes_def)

lemma splice_store:
  "ea + n \<le> length bs \<Longrightarrow> splice ea (le_bytes n v) bs = store_bytes n ea (unat v) bs"
  by (rule nth_equalityI) (auto simp: splice_def store_bytes_def nth_append nth_le_bytes)

lemma store_take: "ea + n \<le> length bs \<Longrightarrow> take n (drop ea (store_bytes n ea (unat v) bs)) = le_bytes n v"
  by (simp add: splice_def flip: splice_store)

text \<open>A read of what was written gives the value modulo the width, and the other bytes are as before.\<close>

lemma load_store:
  assumes "ea + n \<le> length bs"
  shows "load_value False n (take n (drop ea (store_bytes n ea (unat v) bs))) = int (unat v mod 256 ^ n)"
    "\<And>i. i < length bs \<Longrightarrow> \<not> (ea \<le> i \<and> i < ea + n) \<Longrightarrow> store_bytes n ea (unat v) bs ! i = bs ! i"
proof -
  show "load_value False n (take n (drop ea (store_bytes n ea (unat v) bs))) = int (unat v mod 256 ^ n)"
    unfolding load_value_def if_False store_take [OF assms] le_val_le_bytes ..
  show "store_bytes n ea (unat v) bs ! i = bs ! i" if "i < length bs" "\<not> (ea \<le> i \<and> i < ea + n)" for i
    using that by (auto simp: store_bytes_def)
qed

definition store_op :: "(vm \<Rightarrow> 'a :: len word \<times> vm) \<Rightarrow> nat \<Rightarrow> handler" where
  "store_op pop n E vm =
     (let (mi, offset, vm) = imm_memarg E vm; (v, vm) = pop vm; (addr, vm) = gpop_addr (mem_is64 vm mi) vm in
      if \<not> mem_in_bounds vm mi (addr + offset) (word_of_nat n) then guard_trap OutOfBoundsMemoryAccess vm
      else case mem_write vm mi (addr + offset) (le_bytes n v) of None \<Rightarrow> Fault | Some vm \<Rightarrow> Next vm)"

definition pop_nat :: "(vm \<Rightarrow> 'a :: len word \<times> vm) \<Rightarrow> vm \<Rightarrow> nat \<times> vm" where
  "pop_nat pop vm = (let (v, vm) = pop vm in (unat v, vm))"

lemma store_op_spec:
  assumes ok: "mems_ok vm" and fits: "ea_fits 1 E vm" and n: "n \<le> 16"
    and pop: "\<And>vm. snd (pop vm) = gdrop 1 vm"
  shows "store_op pop n E vm = store_spec (pop_nat pop) n E vm"
proof -
  obtain mi offset vm1 where i: "imm_memarg E vm = (mi, offset, vm1)" by (cases "imm_memarg E vm")
  obtain v where p: "pop vm1 = (v, gdrop 1 vm1)" using pop [of vm1] by (cases "pop vm1") simp
  obtain addr vm2 where a: "gpop_addr (mem_is64 vm1 mi) (gdrop 1 vm1) = (addr, vm2)"
    by (cases "gpop_addr (mem_is64 vm1 mi) (gdrop 1 vm1)")
  have sum: "unat addr + unat offset < 2 ^ 64"
    using fits a by (simp add: ea_fits_def i)
  have mems: "vm_mems vm2 = vm_mems vm"
    using imm_memarg_mems [OF i] a by (auto simp: gpop_addr_eq mem_frame)
  have inb: "mem_in_bounds vm2 mi (addr + offset) (word_of_nat n) \<longleftrightarrow>
      (case mem_of vm2 mi of None \<Rightarrow> False | Some m \<Rightarrow> unat addr + unat offset + n \<le> length (mm_data m))"
    by (rule mem_ok_ea [OF ok sum mems n])
  show ?thesis
    unfolding store_op_def store_spec_def pop_nat_def i p Let_def prod.case mem_gdrop a inb
    by (auto simp: mem_write_def mem_of_def unat_ea [OF sum] splice_store Let_def split: option.splits)
qed

definition int_stores :: "(u8 \<times> nat) list" where
  "int_stores = [(0x36, 4), (0x38, 4), (0x3A, 1), (0x3B, 2)]"

definition long_stores :: "(u8 \<times> nat) list" where
  "long_stores = [(0x37, 8), (0x39, 8), (0x3C, 1), (0x3D, 2), (0x3E, 4)]"

lemmas store_defs =
  mem_store_i32_def mem_store_i8_def mem_store_i16_def mem_store_i64_def mem_store_f32_def mem_store_f64_def
  mem_store_i64_8_def mem_store_i64_16_def mem_store_i64_32_def

lemma int_store_ops:
  shows "gen_dispatch 0x36 E vm = store_op gpop_int 4 E vm"
        "gen_dispatch 0x38 E vm = store_op gpop_int 4 E vm"
        "gen_dispatch 0x3A E vm = store_op gpop_int 1 E vm"
        "gen_dispatch 0x3B E vm = store_op gpop_int 2 E vm"
  subgoal unfolding store_op_def by (simp add: dispatch_simps, unfold gen_op_i32_store_def store_defs, simp)
  subgoal unfolding store_op_def by (simp add: dispatch_simps, unfold gen_op_f32_store_def store_defs gpop_float_def, simp)
  subgoal unfolding store_op_def by (simp add: dispatch_simps, unfold gen_op_i32_store8_def store_defs, simp)
  subgoal unfolding store_op_def by (simp add: dispatch_simps, unfold gen_op_i32_store16_def store_defs, simp)
  done

lemma long_store_ops:
  shows "gen_dispatch 0x37 E vm = store_op gpop_long 8 E vm"
        "gen_dispatch 0x39 E vm = store_op gpop_long 8 E vm"
        "gen_dispatch 0x3C E vm = store_op gpop_long 1 E vm"
        "gen_dispatch 0x3D E vm = store_op gpop_long 2 E vm"
        "gen_dispatch 0x3E E vm = store_op gpop_long 4 E vm"
  subgoal unfolding store_op_def by (simp add: dispatch_simps, unfold gen_op_i64_store_def store_defs, simp)
  subgoal unfolding store_op_def by (simp add: dispatch_simps, unfold gen_op_f64_store_def store_defs gpop_double_def, simp)
  subgoal unfolding store_op_def by (simp add: dispatch_simps, unfold gen_op_i64_store8_def store_defs, simp)
  subgoal unfolding store_op_def by (simp add: dispatch_simps, unfold gen_op_i64_store16_def store_defs, simp)
  subgoal unfolding store_op_def by (simp add: dispatch_simps, unfold gen_op_i64_store32_def store_defs, simp)
  done

lemma store_rules:
  assumes "mems_ok vm" "ea_fits 1 E vm"
  shows "list_all (\<lambda>(op, n). gen_dispatch op E vm = store_spec (pop_nat gpop_int) n E vm) int_stores"
    "list_all (\<lambda>(op, n). gen_dispatch op E vm = store_spec (pop_nat gpop_long) n E vm) long_stores"
  unfolding int_stores_def long_stores_def list.pred_inject(2) prod.case int_store_ops long_store_ops
  subgoal by (intro conjI list.pred_inject(1) store_op_spec [OF assms]; simp add: gpop_eqs)
  subgoal by (intro conjI list.pred_inject(1) store_op_spec [OF assms]; simp add: gpop_eqs)
  done

section \<open>Properties of loads and stores\<close>

text \<open>The address of a 32-bit memory and an offset below \<open>2 ^ 32\<close>, which the validator demands, never wrap.\<close>

lemma ea_fits32:
  assumes "imm_memarg E vm = (mi, offset, vm1)" "\<not> mem_is64 vm1 mi" "offset < 2 ^ 32"
  shows "ea_fits k E vm"
proof -
  have "unat (top_int (gdrop k vm1) 1) < 2 ^ 32" using unsigned_less [of "top_int (gdrop k vm1) 1"] by simp
  then have "unat (ucast (top_int (gdrop k vm1) 1) :: u64) < 2 ^ 32" by (simp add: unsigned_ucast_eq take_bit_eq_mod)
  moreover have "unat offset < 2 ^ 32" using assms(3) by (simp add: word_less_nat_alt)
  ultimately show ?thesis using assms(1,2) by (simp add: ea_fits_def gpop_addr_eq mem_frame)
qed





section \<open>Round trips\<close>

lemma mem_read_write:
  assumes "mem_write vm mi ea bs = Some vm'"
  shows "mem_read (length bs) vm' mi ea = Some bs"
proof -
  obtain a where a: "mem_at vm mi = Some a" "unat ea + length bs \<le> length (mm_data (vm_mems vm ! a))"
    and vm': "vm' = vm\<lparr>vm_mems := (vm_mems vm)[a := (vm_mems vm ! a)\<lparr>mm_data := splice (unat ea) bs (mm_data (vm_mems vm ! a))\<rparr>]\<rparr>"
    using assms by (auto simp: mem_write_def Let_def split: option.splits if_splits)
  have "a < length (vm_mems vm)" using a(1) by (auto simp: mem_at_def Let_def split: if_splits)
  moreover have "mem_at vm' mi = Some a" using a(1) by (simp add: mem_at_def vm' Let_def split: if_splits)
  ultimately have "mem_of vm' mi = Some ((vm_mems vm ! a)\<lparr>mm_data := splice (unat ea) bs (mm_data (vm_mems vm ! a))\<rparr>)"
    by (simp add: mem_of_def vm')
  then show ?thesis using a(2) by (simp add: mem_read_def splice_def)
qed

lemma le_word_le_bytes: "(le_word (le_bytes n (w :: 'a :: len word)) :: 'b :: len word) = word_of_nat (unat w mod 256 ^ n)"
  by (simp add: le_word_def le_val_le_bytes)

lemma bytes_power: "(256 :: nat) ^ n = 2 ^ (8 * n)"
  by (simp add: power_mult)

lemma le_word_ucast:
  "8 * n = LENGTH('b) \<Longrightarrow> (le_word (le_bytes n (w :: 'a :: len word)) :: 'b :: len word) = ucast w"
  unfolding le_word_le_bytes bytes_power
  by (simp add: word_unat_eq_iff unat_of_nat unsigned_ucast_eq take_bit_eq_mod)

lemma written:
  "mem_write vm mi ea (le_bytes n w) = Some vm' \<Longrightarrow> mem_read n vm' mi ea = Some (le_bytes n w)"
  using mem_read_write [of vm mi ea "le_bytes n w" vm'] by simp

lemma written_v128:
  "mem_store_v128 vm mi ea s = Some vm' \<Longrightarrow> mem_load_v128 vm' mi ea = Some s"
  using mem_read_write [of vm mi ea "le_bytes 8 (sl_lo s) @ le_bytes 8 (sl_hi s)" vm']
  by (simp add: mem_store_v128_def mem_load_v128_def le_word_ucast)

lemma bytes_extend:
  fixes v :: u32
  shows "ucast (ucast v :: u8) = take_bit 8 v" "scast (ucast v :: u8) = signed_take_bit 7 v"
    "ucast (ucast v :: u16) = take_bit 16 v" "scast (ucast v :: u16) = signed_take_bit 15 v"
  by (rule bit_word_eqI; auto simp: bit_simps)+

text \<open>A load that follows a store of the same width at the same address returns the value stored, and a
  narrow one returns its low bytes, zero- or sign-extended.\<close>

theorem memory_roundtrip:
  "(mem_store_i32 vm mi ea v = Some vm1 \<longrightarrow> mem_load_i32 vm1 mi ea = Some v) \<and>
   (mem_store_f32 vm mi ea v = Some vm1 \<longrightarrow> mem_load_f32 vm1 mi ea = Some v) \<and>
   (mem_store_i64 vm mi ea w = Some vm1 \<longrightarrow> mem_load_i64 vm1 mi ea = Some w) \<and>
   (mem_store_f64 vm mi ea w = Some vm1 \<longrightarrow> mem_load_f64 vm1 mi ea = Some w) \<and>
   (mem_store_v128 vm mi ea s = Some vm1 \<longrightarrow> mem_load_v128 vm1 mi ea = Some s) \<and>
   (mem_store_i8 vm mi ea v = Some vm1 \<longrightarrow>
      mem_load_i32_8u vm1 mi ea = Some (take_bit 8 v) \<and> mem_load_i8 vm1 mi ea = Some (signed_take_bit 7 v)) \<and>
   (mem_store_i16 vm mi ea v = Some vm1 \<longrightarrow>
      mem_load_i32_16u vm1 mi ea = Some (take_bit 16 v) \<and> mem_load_i16 vm1 mi ea = Some (signed_take_bit 15 v))"
  unfolding store_defs load_defs
  by (intro conjI impI written_v128; (drule written)?; simp add: le_word_ucast bytes_extend)

lemma memory_roundtrip_witness:
  "\<exists>vm1. mem_store_i16 (demo_vm [] [] False) 0 8 0x1F2F3 = Some vm1 \<and> mem_load_i16 vm1 0 8 = Some (signed_take_bit 15 0x1F2F3)"
proof -
  let ?vm = "demo_vm [] [] False"
  obtain vm1 where "mem_store_i16 ?vm 0 8 0x1F2F3 = Some vm1"
    by (simp add: mem_store_i16_def mem_write_def mem_at_def demo_eval)
  then show ?thesis
    using memory_roundtrip [of ?vm 0 8 "0x1F2F3" vm1 0 "\<lparr>sl_lo = 0, sl_hi = 0\<rparr>"] by blast
qed

section \<open>Growth\<close>

lemma sless_0: "(d :: 'a :: len word) <s 0 \<longleftrightarrow> 2 ^ (LENGTH('a) - 1) \<le> unat d"
proof -
  have u: "uint d = int (unat d)" "uint d < 2 ^ LENGTH('a)" by simp_all
  have "d <s 0 \<longleftrightarrow> signed_of LENGTH('a) (uint d) < 0" unfolding word_sless_alt signed_of_uint by simp
  also have "\<dots> \<longleftrightarrow> \<not> uint d < 2 ^ (LENGTH('a) - 1)" using u by (auto simp: signed_of_def)
  also have "\<dots> \<longleftrightarrow> \<not> unat d < 2 ^ (LENGTH('a) - 1)" unfolding u(1) by (metis of_nat_less_numeral_power_cancel_iff)
  finally show ?thesis by (simp only: not_less)
qed

lemma unat_of_nat64: "n < 2 ^ 64 \<Longrightarrow> unat (word_of_nat n :: u64) = n"
  by (simp add: unat_of_nat)

definition page_mem :: "jav_mem \<Rightarrow> bool" where
  "page_mem m \<longleftrightarrow> 65536 dvd length (mm_data m) \<and> length (mm_data m) \<le> 2 ^ 36"

text \<open>The greatest number of pages: the declared maximum or the ceiling of the address type, within the engine's bound.\<close>

definition page_cap :: "jav_mem \<Rightarrow> nat" where
  "page_cap m = min (if mm_has_max m then unat (mm_max m) else if mm_is64 m then 2 ^ 48 else 2 ^ 16) (2 ^ 20)"

definition grow_spec :: "(u64 \<Rightarrow> bool) \<Rightarrow> u64 \<Rightarrow> jav_mem \<Rightarrow> u64 \<times> jav_mem" where
  "grow_spec room delta m =
     (let p = length (mm_data m) div 65536; q = p + unat delta in
      if delta <s 0 \<or> page_cap m < q \<or> \<not> room (word_of_nat (max 1 (65536 * q))) then (- 1, m)
      else (word_of_nat p, m\<lparr>mm_data := mm_data m @ replicate (65536 * unat delta) 0\<rparr>))"

lemma mem_grow_inst_eq:
  assumes m: "page_mem m"
  shows "mem_grow_inst E delta m = grow_spec (ie_realloc E) delta m"
proof (cases "delta <s 0")
  case True
  then show ?thesis by (simp add: mem_grow_inst_def grow_spec_def Let_def)
next
  case False
  define p where "p = length (mm_data m) div 65536"
  have len: "length (mm_data m) = 65536 * p" "p \<le> 2 ^ 20" using m by (auto simp: page_mem_def p_def)
  have size: "unat (mm_size m) = 65536 * p"
    unfolding mm_size_def len(1) by (rule unat_of_nat64) (use len(2) in simp)
  have old: "unat (mm_size m div 65536) = p" by (simp add: unat_div size)
  have d: "unat delta < 2 ^ 63" using False unfolding sless_0 by simp
  have new: "unat (mm_size m div 65536 + delta) = p + unat delta"
    using unat_ea [of "mm_size m div 65536" delta] d len(2) unfolding old by simp
  define cap where "cap = (if mm_has_max m then mm_max m else if mm_is64 m then push_bit 48 1 else 65536)"
  have cap: "unat (if JAV_MAX_MEMORY_PAGES < cap then JAV_MAX_MEMORY_PAGES else cap) = page_cap m"
    by (auto simp: cap_def page_cap_def JAV_MAX_MEMORY_PAGES_def word_less_nat_alt min_def push_bit_eq_mult)
  have guard: "(if JAV_MAX_MEMORY_PAGES < cap then JAV_MAX_MEMORY_PAGES else cap) < mm_size m div 65536 + delta \<longleftrightarrow>
      page_cap m < p + unat delta"
    unfolding word_less_nat_alt [of "if JAV_MAX_MEMORY_PAGES < cap then JAV_MAX_MEMORY_PAGES else cap"] cap new ..
  show ?thesis
  proof (cases "page_cap m < p + unat delta")
    case True
    then show ?thesis
      unfolding mem_grow_inst_def grow_spec_def Let_def cap_def [symmetric] guard p_def [symmetric] by simp
  next
    case False
    then have q: "p + unat delta \<le> 2 ^ 20" by (simp add: page_cap_def)
    have bytes: "unat ((mm_size m div 65536 + delta) * 65536) = 65536 * (p + unat delta)"
      unfolding unat_word_ariths(2) new using q by simp
    have room: "(if (mm_size m div 65536 + delta) * 65536 \<noteq> 0 then (mm_size m div 65536 + delta) * 65536 else 1) =
        word_of_nat (max 1 (65536 * (p + unat delta)))"
      using bytes q by (auto simp: word_unat_eq_iff unat_of_nat64 max_def)
    have fill: "unat ((mm_size m div 65536 + delta) * 65536 - mm_size m) = 65536 * unat delta"
      using bytes size by (subst unat_sub) (auto simp: word_le_nat_alt)
    have "mm_size m div 65536 = word_of_nat p" 
      unfolding word_unat_eq_iff old by (rule unat_of_nat64 [symmetric]) (use len(2) in simp)
    then show ?thesis
      using False \<open>\<not> delta <s 0\<close>
      unfolding mem_grow_inst_def grow_spec_def Let_def cap_def [symmetric] guard p_def [symmetric] room fill
      by simp
  qed
qed

lemma page_mem_grow:
  assumes "page_mem m"
  shows "page_mem (snd (grow_spec room delta m))"
proof -
  obtain p where p: "length (mm_data m) = 65536 * p" using assms by (auto simp: page_mem_def)
  have "65536 * (p + unat delta) \<le> 2 ^ 36" if "\<not> page_cap m < p + unat delta"
    using that by (simp add: page_cap_def)
  then show ?thesis using assms p by (auto simp: grow_spec_def Let_def page_mem_def)
qed

text \<open>C13. Growing a memory adds zeroed pages at its end and keeps what it holds; it fails, and then changes
  nothing, exactly when the request is negative, would pass the declared maximum, the ceiling of the address
  type or the bound of the engine, or the system has no room; the arithmetic never wraps, and the memory
  stays a whole number of pages within the engine's bound.\<close>

theorem memory_grow_spec:
  assumes "page_mem m"
  shows "mem_grow_inst E delta m = grow_spec (ie_realloc E) delta m \<and> page_mem (snd (mem_grow_inst E delta m))"
  using mem_grow_inst_eq [OF assms] page_mem_grow [OF assms] by simp

lemma memory_grow_spec_witness:
  "mem_grow_inst demo_ienv 1 ((demo_mem True)\<lparr>mm_data := []\<rparr>) =
   grow_spec (\<lambda>_. True) 1 ((demo_mem True)\<lparr>mm_data := []\<rparr>)"
  using memory_grow_spec [of "(demo_mem True)\<lparr>mm_data := []\<rparr>" demo_ienv 1] by (simp add: page_mem_def demo_ienv_def)

section \<open>Bulk operations\<close>

definition seg_lens_ok :: "vm \<Rightarrow> bool" where
  "seg_lens_ok vm \<longleftrightarrow> list_all (\<lambda>bs. length bs < 2 ^ 32) (ic_data_segs (vm_ctx vm))"

text \<open>The bytes \<open>src\<close> replace those from \<open>d\<close> on, when they fit.\<close>

definition put_bytes :: "vm \<Rightarrow> u32 \<Rightarrow> u64 \<Rightarrow> nat \<Rightarrow> u8 list option \<Rightarrow> vm" where
  "put_bytes vm mi d n src =
     (case (mem_at vm mi, src) of
        (Some a, Some bs) \<Rightarrow>
          let m = vm_mems vm ! a in
          if unat d + n \<le> length (mm_data m)
          then vm\<lparr>vm_mems := (vm_mems vm)[a := m\<lparr>mm_data := splice (unat d) bs (mm_data m)\<rparr>]\<rparr>
          else jav_trap_with OutOfBoundsMemoryAccess vm
      | _ \<Rightarrow> jav_trap_with OutOfBoundsMemoryAccess vm)"

definition slice :: "nat \<Rightarrow> nat \<Rightarrow> 'a list \<Rightarrow> 'a list option" where
  "slice s n xs = (if s + n \<le> length xs then Some (take n (drop s xs)) else None)"

definition seg_bytes :: "vm \<Rightarrow> u32 \<Rightarrow> u8 list option" where
  "seg_bytes vm seg =
     (let c = vm_ctx vm in
      if length (ic_data_segs c) \<le> unat seg then None
      else Some (if ic_data_dropped c ! unat seg then [] else ic_data_segs c ! unat seg))"

lemma mem_ok_of:
  assumes "mems_ok vm"
  shows "mem_ok (mem_of vm mi) d n \<longleftrightarrow>
    (case mem_at vm mi of None \<Rightarrow> False | Some a \<Rightarrow> unat d + unat n \<le> length (mm_data (vm_mems vm ! a)))"
proof (cases "mem_at vm mi")
  case None
  then show ?thesis by (simp add: mem_of_def mem_ok_def)
next
  case (Some a)
  then have "mem_of vm mi = Some (vm_mems vm ! a)" by (simp add: mem_of_def)
  with mem_ok_iff [OF mems_ok_mem_of [OF assms this]] Some show ?thesis by simp
qed

lemma fill_spec:
  assumes "mems_ok vm"
  shows "jav_memory_fill vm mi d v n = Some (put_bytes vm mi d (unat n) (Some (replicate (unat n) (ucast v))))"
proof -
  have "v AND 0xFF = take_bit 8 v" by (simp add: take_bit_eq_mask mask_eq_exp_minus_1)
  moreover have "ucast (take_bit 8 v) = (ucast v :: u8)" by (rule bit_word_eqI) (auto simp: bit_simps)
  ultimately have "ucast (v AND 0xFF) = (ucast v :: u8)" by simp
  then show ?thesis
    unfolding jav_memory_fill_def mem_ok_of [OF assms]
    by (auto simp: put_bytes_def mem_write_def Let_def split: option.splits)
qed

lemma copy_spec:
  assumes "mems_ok vm"
  shows "jav_memory_copy vm dmi smi d s n =
    Some (put_bytes vm dmi d (unat n)
      (Option.bind (mem_of vm smi) (\<lambda>m. slice (unat s) (unat n) (mm_data m))))"
  unfolding jav_memory_copy_def mem_ok_of [OF assms]
  by (auto simp: put_bytes_def mem_write_def mem_read_def mem_of_def slice_def Let_def split: option.splits)

lemma unat_scast: "unat x < 2 ^ 31 \<Longrightarrow> unat (scast (x :: u32) :: u64) = unat x"
proof -
  assume x: "unat x < 2 ^ 31"
  then have "int (unat x) < int (2 ^ 31)" by (rule of_nat_less_iff [THEN iffD2])
  then have "uint x < 2 ^ 31" by simp
  then have "sint x = int (unat x)" using signed_of_uint [of x] by (simp add: signed_of_def)
  then have w: "(scast x :: u64) = word_of_nat (unat x)" unfolding scast_eq by (simp only: of_int_of_nat_eq)
  show ?thesis unfolding w by (rule unat_of_nat64) (use x in simp)
qed

lemma init_spec:
  assumes "mems_ok vm" "seg_lens_ok vm" "\<not> n <s 0" "\<not> s <s 0"
  shows "jav_memory_init vm mi seg d s n =
    Some (put_bytes vm mi d (unat n) (Option.bind (seg_bytes vm seg) (slice (unat s) (unat n))))"
proof (cases "length (ic_data_segs (vm_ctx vm)) \<le> unat seg")
  case True
  then show ?thesis by (simp add: jav_memory_init_def seg_bytes_def put_bytes_def Let_def split: option.splits)
next
  case False
  let ?c = "vm_ctx vm"
  let ?bs = "ic_data_segs ?c ! unat seg"
  define len where "len = (if ic_data_dropped ?c ! unat seg then 0 else word_of_nat (length ?bs) :: u64)"
  have lt: "length ?bs < 2 ^ 32" using assms(2) False by (simp add: seg_lens_ok_def list_all_length)
  have len: "unat len = length (the (seg_bytes vm seg))"
    using lt False by (simp add: len_def seg_bytes_def Let_def unat_of_nat64)
  have pos: "unat n < 2 ^ 31" "unat s < 2 ^ 31" using assms(3,4) unfolding sless_0 by simp_all
  note ext = unat_scast
  have sum: "unat (scast s + scast n :: u64) = unat s + unat n"
    using unat_ea [of "scast s" "scast n"] pos by (simp add: ext)
  have over: "len < scast s + scast n \<longleftrightarrow> length (the (seg_bytes vm seg)) < unat s + unat n"
    unfolding word_less_nat_alt sum len ..
  show ?thesis
    using False assms(3,4)
    unfolding jav_memory_init_def Let_def len_def [symmetric] over mem_ok_of [OF assms(1)] ext [OF pos(1)]
    by (auto simp: put_bytes_def mem_write_def slice_def seg_bytes_def Let_def split: option.splits if_splits)
qed

text \<open>C14. \<open>memory.fill\<close>, \<open>memory.copy\<close> and \<open>memory.init\<close> are the reference operations on byte lists: the bytes of
  the source, read before anything is written, replace those of the destination; a range past either end
  traps and changes no memory, a dropped segment is empty, and no case leaves the defined behaviour of C.\<close>

theorem bulk_memory_spec:
  assumes "mems_ok vm" "seg_lens_ok vm" "\<not> len <s 0" "\<not> s <s 0"
  shows "jav_memory_fill vm mi d v n = Some (put_bytes vm mi d (unat n) (Some (replicate (unat n) (ucast v)))) \<and>
    jav_memory_copy vm mi mj d e n =
      Some (put_bytes vm mi d (unat n) (Option.bind (mem_of vm mj) (\<lambda>m. slice (unat e) (unat n) (mm_data m)))) \<and>
    jav_memory_init vm mi seg d s len =
      Some (put_bytes vm mi d (unat len) (Option.bind (seg_bytes vm seg) (slice (unat s) (unat len))))"
  using fill_spec [OF assms(1)] copy_spec [OF assms(1)] init_spec [OF assms] by blast

lemma bulk_memory_spec_witness:
  "map_option (\<lambda>vm. map mm_data (vm_mems vm)) (jav_memory_copy (demo_vm [] [] False) 0 0 1 0 3) =
   Some [[10, 10, 11, 12, 14, 15, 16, 17, 18, 19]]"
proof -
  let ?vm = "demo_vm [] [] False"
  have "mems_ok ?vm" "seg_lens_ok ?vm" by (simp_all add: mems_ok_def seg_lens_ok_def demo_eval)
  then show ?thesis
    using bulk_memory_spec [of ?vm 0 0 0 1 0 3 0 0 0]
    by (simp add: put_bytes_def slice_def splice_def mem_of_def mem_at_def demo_eval)
qed

section \<open>Addresses of 64-bit memories\<close>

text \<open>C36. The handlers add the address and the offset in 64 bits.  Where the sum wraps, the specification
  traps, but a load whose wrapped address is inside the memory reads there.\<close>

theorem memory64_offset_wraps:
  assumes "imm_memarg E vm = (mi, offset, vm1)" "gpop_addr (mem_is64 vm1 mi) vm1 = (addr, vm2)"
    and "2 ^ 64 \<le> unat addr + unat offset" "mem_of vm2 mi = Some m" "length (mm_data m) \<le> 2 ^ 36"
    and "unat (addr + offset) + 4 \<le> length (mm_data m)"
  shows "gen_dispatch 0x28 E vm =
      Next (gpush_int (le_word (take 4 (drop (unat (addr + offset)) (mm_data m)))) vm2) \<and>
    load_spec push_i32 4 False E vm = guard_trap OutOfBoundsMemoryAccess vm2"
proof -
  have "mem_in_bounds vm2 mi (addr + offset) (word_of_nat 4)"
    using mem_ok_iff [OF assms(5), of "addr + offset" 4] assms(4,6) by (simp add: mem_in_bounds_def)
  then show ?thesis
    unfolding int_load_ops load_op_def load_spec_def assms(1,2) Let_def prod.case
    using assms(3-6) by (simp add: mem_read_def)
qed

lemma memory64_offset_wraps_witness:
  "\<exists>vm2. gen_dispatch 0x28 demo_ienv (demo_vm [0, 16] [(0xFFFFFFFFFFFFFFF2, T_LONG)] True) = Next vm2 \<and>
    top_int vm2 1 = 0x0F0E0D0C"
proof -
  let ?vm = "demo_vm [0, 16] [(0xFFFFFFFFFFFFFFF2, T_LONG)] True"
  let ?vm1 = "upd_frame (\<lambda>f. f\<lparr>fr_pos := 2\<rparr>) ?vm"
  have i: "imm_memarg demo_ienv ?vm = (0, 16, ?vm1)"
    by (simp add: imm_memarg_def imm_u32_def imm_u64_def demo_eval)
  have g: "gpop_addr (mem_is64 ?vm1 0) ?vm1 = (0xFFFFFFFFFFFFFFF2, gdrop 1 ?vm1)"
    by (simp add: gpop_addr_eq mem_is64_def mem_of_def mem_at_def demo_eval top_slot_def stk_at_def)
  have m: "mem_of (gdrop 1 ?vm1) 0 = Some (demo_mem True)"
    by (simp add: mem_of_def mem_at_def demo_eval gdrop_def set_sp_def)
  have t: "top_int (gpush_int v (gdrop 1 ?vm1)) 1 = v" for v
    by (rule top_push_int)
  show ?thesis
    using memory64_offset_wraps [OF i g _ m] by (simp add: demo_mem_def t le_word_def)
qed

end
