(* ===== verification/VmTabRules.thy ===== *)
theory VmTabRules
  imports VmMemRules
begin

text \<open>
  Tables: the loops of \<open>table.fill\<close> and \<open>table.copy\<close> return and are the reference operations, also when the
  ranges overlap; growth and initialisation keep each entry beside its tag.
\<close>

section \<open>Well-formed tables\<close>

text \<open>A tag for every entry, and no more entries than the engine admits.\<close>

definition tab_ok :: "jav_tableinst \<Rightarrow> bool" where
  "tab_ok t \<longleftrightarrow> length (ti_types t) = length (ti_refs t) \<and> length (ti_refs t) \<le> 2 ^ 24"

lemma unat_ti_len: "tab_ok t \<Longrightarrow> unat (ti_len t) = length (ti_refs t)"
  by (simp add: tab_ok_def ti_len_def unat_of_nat64)

lemma tab_ok_set [simp]: "tab_ok (tableinst_set i r g t) \<longleftrightarrow> tab_ok t"
  by (simp add: tab_ok_def tableinst_set_def)

lemma tab_set_sel:
  "ti_refs (tableinst_set i r g t) = (ti_refs t)[unat i := r]" "ti_types (tableinst_set i r g t) = (ti_types t)[unat i := g]"
  by (simp_all add: tableinst_set_def)

lemma unat_s4: "unat k < 2 ^ 24 \<Longrightarrow> s4_of (k + 1) = k + 1 \<and> unat (k + 1) = unat k + 1"
proof -
  assume k: "unat k < 2 ^ 24"
  then have u: "unat (k + 1) = unat k + 1" using unat_ea [of k 1] by simp
  have "unat (ucast (k + 1) :: u32) = unat k + 1" using k u by (simp add: unsigned_ucast_eq take_bit_eq_mod)
  then have "unat (s4_of (k + 1)) = unat k + 1"
    unfolding s4_of_def using unat_scast [of "ucast (k + 1)"] k by simp
  then show ?thesis using u by (simp add: word_unat_eq_iff)
qed

lemma sless_nat: "unat a < 2 ^ 63 \<Longrightarrow> unat b < 2 ^ 63 \<Longrightarrow> (a :: u64) <s b \<longleftrightarrow> unat a < unat b"
proof -
  have s: "sint c = int (unat c)" if "unat c < 2 ^ 63" for c :: u64
  proof -
    have "int (unat c) < int (2 ^ 63)" using that by (rule of_nat_less_iff [THEN iffD2])
    then have "uint c < 2 ^ 63" by simp
    then show ?thesis using signed_of_uint [of c] by (simp add: signed_of_def)
  qed
  assume "unat a < 2 ^ 63" "unat b < 2 ^ 63"
  then show ?thesis unfolding word_sless_alt by (simp only: s of_nat_less_iff)
qed

section \<open>Fill\<close>

lemma fill_loop:
  assumes "tab_ok t" "unat i + unat n \<le> length (ti_refs t)" "unat k \<le> unat n"
  shows "table_fill_loop i n v k t = Some
    (t\<lparr>ti_refs := splice (unat i + unat k) (replicate (unat n - unat k) (an_bits v)) (ti_refs t),
       ti_types := splice (unat i + unat k) (replicate (unat n - unat k) (an_kind v)) (ti_types t)\<rparr>)"
  using assms
proof (induction "unat n - unat k" arbitrary: k t)
  case 0
  then have "\<not> k <s n" using sless_nat [of k n] by (simp add: tab_ok_def)
  then show ?case using 0 by (subst table_fill_loop.simps) (simp add: splice_def)
next
  case (Suc m)
  have lt: "unat k < unat n" "unat k < 2 ^ 24" using Suc by (auto simp: tab_ok_def)
  have m: "unat n - unat k = Suc m" "unat n - Suc (unat k) = m" using Suc(2) by simp_all
  have pos: "unat (i + k) = unat i + unat k" using unat_ea [of i k] Suc(4,3) lt by (simp add: tab_ok_def)
  let ?t = "tableinst_set (i + k) (an_bits v) (an_kind v) t"
  have IH: "table_fill_loop i n v (k + 1) ?t = Some
    (?t\<lparr>ti_refs := splice (unat i + unat (k + 1)) (replicate (unat n - unat (k + 1)) (an_bits v)) (ti_refs ?t),
       ti_types := splice (unat i + unat (k + 1)) (replicate (unat n - unat (k + 1)) (an_kind v)) (ti_types ?t)\<rparr>)"
    using Suc(2-5) unat_s4 [OF lt(2)] lt by (intro Suc(1)) (auto simp: tab_set_sel)
  have step: "splice (Suc p) (replicate q x) (xs[p := x]) = splice p (replicate (Suc q) x) xs" if "p < length xs" for p q x xs
    using that by (simp add: splice_def upd_conv_take_nth_drop take_Suc_conv_app_nth drop_Cons' min_def add.commute [of p])
  have "\<not> ti_len t \<le> i + k" using Suc(4,3) lt by (simp add: word_le_nat_alt unat_ti_len pos)
  moreover have "k <s n" using sless_nat [of k n] lt Suc(4,3) by (simp add: tab_ok_def)
  ultimately show ?case
    using IH Suc(3,4) lt unat_s4 [OF lt(2)] m
    by (subst table_fill_loop.simps) (simp add: tableinst_set_def pos step tab_ok_def)
qed

section \<open>Copy\<close>

text \<open>The entry of a table and its tag; two stores of the same shape.\<close>

definition ent :: "jav_tableinst list \<Rightarrow> nat \<Rightarrow> nat \<Rightarrow> u64 \<times> vtag" where
  "ent ts a i = (ti_refs (ts ! a) ! i, ti_types (ts ! a) ! i)"

definition same_shape :: "jav_tableinst list \<Rightarrow> jav_tableinst list \<Rightarrow> bool" where
  "same_shape ts ts' \<longleftrightarrow> map (\<lambda>t. t\<lparr>ti_refs := [], ti_types := []\<rparr>) ts = map (\<lambda>t. t\<lparr>ti_refs := [], ti_types := []\<rparr>) ts' \<and>
     map (\<lambda>t. length (ti_refs t)) ts = map (\<lambda>t. length (ti_refs t)) ts' \<and>
     map (\<lambda>t. length (ti_types t)) ts = map (\<lambda>t. length (ti_types t)) ts'"

lemma same_shape_trans: "same_shape ts ts' \<Longrightarrow> same_shape ts' ts'' \<Longrightarrow> same_shape ts ts''"
  by (simp add: same_shape_def)

lemma same_shape_len:
  assumes "same_shape ts ts'"
  shows "length ts' = length ts" "\<And>a. a < length ts \<Longrightarrow> length (ti_refs (ts' ! a)) = length (ti_refs (ts ! a))"
    "\<And>a. a < length ts \<Longrightarrow> length (ti_types (ts' ! a)) = length (ti_types (ts ! a))"
proof -
  show l: "length ts' = length ts" using assms by (metis length_map same_shape_def)
  fix a assume "a < length ts"
  then show "length (ti_refs (ts' ! a)) = length (ti_refs (ts ! a))" "length (ti_types (ts' ! a)) = length (ti_types (ts ! a))"
    using assms l unfolding same_shape_def by (metis nth_map)+
qed

lemma map_upd_same: "f y = f (xs ! i) \<Longrightarrow> map f (xs[i := y]) = map f xs"
  by (cases "i < length xs") (simp_all add: map_update list_update_same_conv list_update_beyond)

lemma same_shape_set: "same_shape ts (ts[da := tableinst_set i r g (ts ! da)])"
  by (simp add: same_shape_def map_upd_same tableinst_set_def)

lemma tab_move_spec:
  assumes "da < length ts" "tab_ok (ts ! da)" "tab_ok (ts ! sa)"
    and "unat di < length (ti_refs (ts ! da))" "unat si < length (ti_refs (ts ! sa))"
  obtains ts' where "tab_move da di sa si ts = Some ts'" "same_shape ts ts'"
    "\<And>a i. ent ts' a i = (if a = da \<and> i = unat di then ent ts sa (unat si) else ent ts a i)"
proof -
  let ?ts = "ts[da := tableinst_set di (ti_refs (ts ! sa) ! unat si) (ti_types (ts ! sa) ! unat si) (ts ! da)]"
  have "tab_move da di sa si ts = Some ?ts"
    using assms by (simp add: tab_move_def Let_def word_le_nat_alt unat_ti_len)
  moreover have "ent ?ts a i = (if a = da \<and> i = unat di then ent ts sa (unat si) else ent ts a i)" for a i
    using assms(1,2,4) by (auto simp: ent_def nth_list_update tableinst_set_def tab_ok_def)
  ultimately show ?thesis using that [of ?ts] same_shape_set by blast
qed

lemma tab_ok_shape: "same_shape ts ts' \<Longrightarrow> a < length ts \<Longrightarrow> tab_ok (ts' ! a) \<longleftrightarrow> tab_ok (ts ! a)"
  by (simp add: tab_ok_def same_shape_len)

text \<open>What a copy of the entries \<open>lo .. hi\<close> of the ranges leaves, reading all of them first.\<close>

definition copied ::
  "nat \<Rightarrow> nat \<Rightarrow> nat \<Rightarrow> nat \<Rightarrow> nat \<Rightarrow> nat \<Rightarrow> jav_tableinst list \<Rightarrow> jav_tableinst list \<Rightarrow> bool" where
  "copied da d sa s lo hi ts ts' \<longleftrightarrow> same_shape ts ts' \<and>
     (\<forall>a i. ent ts' a i =
        (if a = da \<and> d + lo \<le> i \<and> i < d + hi then ent ts sa (s + (i - d)) else ent ts a i))"

definition ranges_ok :: "nat \<Rightarrow> u64 \<Rightarrow> nat \<Rightarrow> u64 \<Rightarrow> nat \<Rightarrow> jav_tableinst list \<Rightarrow> bool" where
  "ranges_ok da d sa s n ts \<longleftrightarrow> da < length ts \<and> sa < length ts \<and> tab_ok (ts ! da) \<and> tab_ok (ts ! sa) \<and>
     unat d + n \<le> length (ti_refs (ts ! da)) \<and> unat s + n \<le> length (ti_refs (ts ! sa))"

lemma ranges_ok_shape: "same_shape ts ts' \<Longrightarrow> ranges_ok da d sa s n ts' \<longleftrightarrow> ranges_ok da d sa s n ts"
  by (auto simp: ranges_ok_def same_shape_len tab_ok_shape)

lemma ranges_ok_less: "ranges_ok da d sa s n ts \<Longrightarrow> m \<le> n \<Longrightarrow> ranges_ok da d sa s m ts"
  by (auto simp: ranges_ok_def)

lemma copied_refl: "hi \<le> lo \<Longrightarrow> copied da d sa s lo hi ts ts"
  by (auto simp: copied_def same_shape_def)

lemma copy_step:
  assumes "ranges_ok da d sa s n ts" "unat k < n"
  obtains ts' where "tab_move da (d + k) sa (s + k) ts = Some ts'"
    "copied da (unat d) sa (unat s) (unat k) (Suc (unat k)) ts ts'"
proof -
  have pos: "unat (d + k) = unat d + unat k" "unat (s + k) = unat s + unat k"
    using unat_ea [of d k] unat_ea [of s k] assms by (auto simp: ranges_ok_def tab_ok_def)
  obtain ts' where "tab_move da (d + k) sa (s + k) ts = Some ts'" "same_shape ts ts'"
    "\<And>a i. ent ts' a i = (if a = da \<and> i = unat (d + k) then ent ts sa (unat (s + k)) else ent ts a i)"
    by (rule tab_move_spec [of da ts sa "d + k" "s + k"]) (use assms pos in \<open>auto simp: ranges_ok_def\<close>)
  then show thesis by (intro that [of ts']) (auto simp: copied_def pos)
qed

lemma copied_up:
  assumes "copied da d sa s k (Suc k) ts ts1" "copied da d sa s (Suc k) n ts1 ts'" "d \<le> s" "k < n"
  shows "copied da d sa s k n ts ts'"
proof -
  have "ent ts' a i = (if a = da \<and> d + k \<le> i \<and> i < d + n then ent ts sa (s + (i - d)) else ent ts a i)" for a i
    using assms by (cases "i = d + k") (auto simp: copied_def)
  then show ?thesis using assms same_shape_trans by (auto simp: copied_def)
qed

lemma copied_down:
  assumes "copied da d sa s k (Suc k) ts ts1" "copied da d sa s 0 k ts1 ts'" "s < d"
  shows "copied da d sa s 0 (Suc k) ts ts'"
proof -
  have "ent ts' a i = (if a = da \<and> d + 0 \<le> i \<and> i < d + Suc k then ent ts sa (s + (i - d)) else ent ts a i)" for a i
    using assms by (cases "i = d + k") (auto simp: copied_def)
  then show ?thesis using assms same_shape_trans by (auto simp: copied_def)
qed

lemma ranges_ok_24: "ranges_ok da d sa s n ts \<Longrightarrow> n \<le> 2 ^ 24"
  by (simp add: ranges_ok_def tab_ok_def)

lemma copy_up:
  assumes "ranges_ok da d sa s (unat n) ts" "unat d \<le> unat s" "unat k \<le> unat n"
  shows "\<exists>ts'. table_copy_up da d sa s n k ts = Some ts' \<and> copied da (unat d) sa (unat s) (unat k) (unat n) ts ts'"
  using assms
proof (induction "unat n - unat k" arbitrary: k ts)
  case 0
  then have "\<not> k <s n" using sless_nat [of k n] ranges_ok_24 [OF 0(2)] by simp
  moreover have "copied da (unat d) sa (unat s) (unat k) (unat n) ts ts" using 0(1) by (intro copied_refl) simp
  ultimately show ?case by (subst table_copy_up.simps) simp
next
  case (Suc m)
  have lt: "unat k < unat n" "unat n \<le> 2 ^ 24" using Suc(2) ranges_ok_24 [OF Suc(3)] by simp_all
  have k1: "s4_of (k + 1) = k + 1" "unat (k + 1) = Suc (unat k)" using unat_s4 [of k] lt by auto
  obtain ts1 where ts1: "tab_move da (d + k) sa (s + k) ts = Some ts1"
    "copied da (unat d) sa (unat s) (unat k) (Suc (unat k)) ts ts1"
    using copy_step [OF Suc(3) lt(1)] .
  have "ranges_ok da d sa s (unat n) ts1" using Suc(3) ts1(2) ranges_ok_shape by (auto simp: copied_def)
  moreover have "m = unat n - unat (k + 1)" "unat (k + 1) \<le> unat n" using Suc(2) k1(2) lt(1) by simp_all
  ultimately obtain ts' where ts': "table_copy_up da d sa s n (k + 1) ts1 = Some ts'"
    "copied da (unat d) sa (unat s) (Suc (unat k)) (unat n) ts1 ts'"
    using Suc(1) [of "k + 1" ts1] Suc(4) k1(2) by auto
  have "k <s n" using sless_nat [of k n] lt by simp
  then have "table_copy_up da d sa s n k ts = Some ts'"
    by (subst table_copy_up.simps) (simp add: ts1(1) k1(1) ts'(1))
  then show ?case using copied_up [OF ts1(2) ts'(2) Suc(4) lt(1)] by blast
qed

lemma s4_pred: "m < 2 ^ 24 \<Longrightarrow> s4_of (word_of_nat m - 1) = word_of_nat m - 1"
proof (cases m)
  case 0
  have "scast (ucast (- 1 :: u64) :: u32) = (- 1 :: u64)" by (rule bit_word_eqI) (auto simp: bit_simps)
  then show ?thesis using 0 by (simp add: s4_of_def)
next
  case (Suc l)
  assume "m < 2 ^ 24"
  then have l: "s4_of (word_of_nat l) = word_of_nat l"
    using unat_scast [of "ucast (word_of_nat l :: u64)"] Suc
    by (simp add: s4_of_def word_unat_eq_iff unsigned_ucast_eq unat_of_nat64 take_bit_nat_eq_self)
  then show ?thesis using Suc by simp
qed

lemma copy_down:
  assumes "ranges_ok da d sa s m ts" "unat s < unat d"
  shows "\<exists>ts'. table_copy_down da d sa s (word_of_nat m - 1) ts = Some ts' \<and>
    copied da (unat d) sa (unat s) 0 m ts ts'"
  using assms
proof (induction m arbitrary: ts)
  case 0
  have "\<not> 0 \<le>s (- 1 :: u64)" by simp
  then show ?case using copied_refl [of 0 0] by (subst table_copy_down.simps) simp
next
  case (Suc m)
  have m: "m < 2 ^ 24" using ranges_ok_24 [OF Suc(2)] by simp
  then have u: "unat (word_of_nat m :: u64) = m" by (simp add: unat_of_nat64)
  obtain ts1 where ts1: "tab_move da (d + word_of_nat m) sa (s + word_of_nat m) ts = Some ts1"
    "copied da (unat d) sa (unat s) m (Suc m) ts ts1"
    using copy_step [OF Suc(2), of "word_of_nat m"] unfolding u by auto
  have "ranges_ok da d sa s m ts1"
    using ranges_ok_less [OF Suc(2), of m] ts1(2) ranges_ok_shape by (auto simp: copied_def)
  then obtain ts' where ts': "table_copy_down da d sa s (word_of_nat m - 1) ts1 = Some ts'"
    "copied da (unat d) sa (unat s) 0 m ts1 ts'" using Suc(1) [of ts1] Suc(3) by auto
  have "0 \<le>s (word_of_nat m :: u64)"
    using sless_nat [of "word_of_nat m" 0] u m by (simp add: signed.not_less)
  then have "table_copy_down da d sa s (word_of_nat (Suc m) - 1) ts = Some ts'"
    by (subst table_copy_down.simps) (simp add: ts1(1) s4_pred [OF m] ts'(1))
  then show ?case using copied_down [OF ts1(2) ts'(2) Suc(3)] by blast
qed

section \<open>The handlers\<close>

lemma table_frame [mem_frame]:
  "vm_tables (snd (imm_u32 E vm)) = vm_tables vm" "vm_tables (snd (gpop_addr w vm)) = vm_tables vm"
  "vm_tables (snd (gpop_any vm)) = vm_tables vm" "vm_tables (gdrop k vm) = vm_tables vm"
  by (simp_all add: imm_u32_def gpop_addr_def gpop_long_def gpop_int_def gpop_any_def gpop_word_def gdrop_def
      set_sp_def Let_def split: prod.split)

lemma range_guard: "d \<le> l \<and> n \<le> l - d \<longleftrightarrow> unat d + unat n \<le> unat l" for d l n :: u64
  by (auto simp: word_le_nat_alt unat_sub_if_size)

text \<open>C10. \<open>table.copy\<close> returns: a range past the end of either table traps with nothing written; otherwise the
  entries of the source range, as they were before the copy, stand in the destination range, each with its
  tag, whether the ranges overlap or not and whichever lies lower, and every other entry of every table and
  its bounds stay.\<close>

theorem table_copy_spec:
  assumes "list_all tab_ok (vm_tables vm)" "imm_u32 E vm = (dt, vm1)" "imm_u32 E vm1 = (st, vm2)"
    and "tab_at vm2 dt = Some da" "tab_at vm2 st = Some sa"
    and "gpop_addr (ti_is64 (vm_tables vm ! da) \<and> ti_is64 (vm_tables vm ! sa)) vm2 = (n, vm3)"
    and "gpop_addr (ti_is64 (vm_tables vm ! sa)) vm3 = (s, vm4)"
    and "gpop_addr (ti_is64 (vm_tables vm ! da)) vm4 = (d, vm5)"
  shows "if unat d + unat n \<le> length (ti_refs (vm_tables vm ! da)) \<and> unat s + unat n \<le> length (ti_refs (vm_tables vm ! sa))
    then \<exists>ts'. gen_op_table_copy E vm = Next (vm5\<lparr>vm_tables := ts'\<rparr>) \<and>
      copied da (unat d) sa (unat s) 0 (unat n) (vm_tables vm) ts'
    else gen_op_table_copy E vm = guard_trap OutOfBoundsTableAccess vm5"
proof -
  let ?ts = "vm_tables vm"
  have ts: "vm_tables vm2 = ?ts" "vm_tables vm5 = ?ts" using assms mem_frame by (metis snd_conv)+
  have lt: "da < length ?ts" "sa < length ?ts" using assms(4,5) ts(1) by (auto simp: tab_at_def Let_def split: if_splits)
  have ok: "tab_ok (?ts ! da)" "tab_ok (?ts ! sa)" using assms(1) lt by (simp_all add: list_all_length)
  let ?in = "unat d + unat n \<le> length (ti_refs (?ts ! da)) \<and> unat s + unat n \<le> length (ti_refs (?ts ! sa))"
  have loop: "\<exists>ts'. (if d \<le> s then table_copy_up da d sa s n 0 ?ts else table_copy_down da d sa s (n - 1) ?ts) = Some ts' \<and>
    copied da (unat d) sa (unat s) 0 (unat n) ?ts ts'" if ?in
  proof -
    have r: "ranges_ok da d sa s (unat n) ?ts" using that lt ok by (simp add: ranges_ok_def)
    show ?thesis using copy_up [OF r, of 0] copy_down [OF r] by (simp add: word_le_nat_alt)
  qed
  have guard: "d \<le> ti_len (?ts ! da) \<and> n \<le> ti_len (?ts ! da) - d \<and> s \<le> ti_len (?ts ! sa) \<and> n \<le> ti_len (?ts ! sa) - s \<longleftrightarrow> ?in"
    using range_guard [of d "ti_len (?ts ! da)" n] range_guard [of s "ti_len (?ts ! sa)" n] by (auto simp: unat_ti_len ok)
  have eq: "gen_op_table_copy E vm =
    (if \<not> ?in then guard_trap OutOfBoundsTableAccess vm5
     else case (if d \<le> s then table_copy_up da d sa s n 0 ?ts else table_copy_down da d sa s (n - 1) ?ts) of
       None \<Rightarrow> Fault | Some ts' \<Rightarrow> Next (vm5\<lparr>vm_tables := ts'\<rparr>))"
    unfolding gen_op_table_copy_def assms(2-8) Let_def prod.case option.case ts guard ..
  show ?thesis
  proof (cases ?in)
    case True
    obtain ts' where l: "(if d \<le> s then table_copy_up da d sa s n 0 ?ts else table_copy_down da d sa s (n - 1) ?ts) = Some ts'"
      and c: "copied da (unat d) sa (unat s) 0 (unat n) ?ts ts'" using loop [OF True] by blast
    show ?thesis unfolding eq l using True c by (simp; blast)
  next
    case False
    show ?thesis unfolding if_not_P [OF False] eq using False by simp
  qed
qed

lemma table_copy_spec_witness:
  "\<exists>ts'. gen_op_table_copy demo_ienv (demo_vm [0, 0] [(1, T_INT), (0, T_INT), (3, T_INT)] False) =
     Next ((gdrop 3 (upd_frame (\<lambda>f. f\<lparr>fr_pos := 2\<rparr>) (demo_vm [0, 0] [(1, T_INT), (0, T_INT), (3, T_INT)] False)))\<lparr>vm_tables := ts'\<rparr>) \<and>
     map (\<lambda>i. fst (ent ts' 0 i)) [0, 1, 2, 3] = [1, 1, 2, 3]"
proof -
  let ?vm = "demo_vm [0, 0] [(1, T_INT), (0, T_INT), (3, T_INT)] False"
  let ?a = "upd_frame (\<lambda>f. f\<lparr>fr_pos := 1\<rparr>) ?vm" and ?b = "upd_frame (\<lambda>f. f\<lparr>fr_pos := 2\<rparr>) ?vm"
  have i: "imm_u32 demo_ienv ?vm = (0, ?a)" "imm_u32 demo_ienv ?a = (0, ?b)" by (simp_all add: imm_u32_def demo_eval)
  have t: "tab_at ?b 0 = Some 0" by (simp add: tab_at_def demo_eval)
  have p: "gpop_addr False ?b = (3, gdrop 1 ?b)" "gpop_addr False (gdrop 1 ?b) = (0, gdrop 2 ?b)"
    "gpop_addr False (gdrop 2 ?b) = (1, gdrop 3 ?b)"
    by (simp_all add: gpop_addr_eq demo_eval gdrop_def set_sp_def top_slot_def stk_at_def slot_i_def)
  have ok: "list_all tab_ok (vm_tables ?vm)" by (simp add: tab_ok_def demo_eval)
  have tabs: "vm_tables ?vm = [demo_table]" by (simp add: demo_vm_def)
  obtain ts' where r: "gen_op_table_copy demo_ienv ?vm = Next ((gdrop 3 ?b)\<lparr>vm_tables := ts'\<rparr>)"
    and c: "copied 0 1 0 0 0 3 (vm_tables ?vm) ts'"
    using table_copy_spec [OF ok i t t, of 3 "gdrop 1 ?b" 0 "gdrop 2 ?b" 1 "gdrop 3 ?b"] p by (auto simp: tabs demo_table_def)
  have "map (\<lambda>i. fst (ent ts' 0 i)) [0, 1, 2, 3] = [1, 1, 2, 3]"
    using c by (simp add: copied_def tabs) (simp add: ent_def demo_table_def numeral_eq_Suc)
  with r show ?thesis by (intro exI [of _ ts'] conjI)
qed

text \<open>\<open>table.fill\<close> returns: it traps exactly when the range passes the end of the table, and otherwise every
  entry of the range and its tag are the value and its tag.\<close>

theorem table_fill_spec:
  assumes "list_all tab_ok (vm_tables vm)" "imm_u32 E vm = (tb, vm1)" "tab_at vm1 tb = Some a"
    and "t = vm_tables vm ! a" "gpop_addr (ti_is64 t) vm1 = (n, vm2)" "gpop_any vm2 = (v, vm3)"
    and "gpop_addr (ti_is64 t) vm3 = (i, vm4)"
  shows "gen_op_table_fill E vm =
    (if unat i + unat n \<le> length (ti_refs t)
     then Next (set_table a (t\<lparr>ti_refs := splice (unat i) (replicate (unat n) (an_bits v)) (ti_refs t),
                                ti_types := splice (unat i) (replicate (unat n) (an_kind v)) (ti_types t)\<rparr>) vm4)
     else guard_trap OutOfBoundsTableAccess vm4)"
proof -
  have ts: "vm_tables vm1 = vm_tables vm" using assms mem_frame by (metis snd_conv)
  have "a < length (vm_tables vm)" using assms(3) ts by (auto simp: tab_at_def Let_def split: if_splits)
  then have ok: "tab_ok t" using assms(1,4) by (simp add: list_all_length)
  have guard: "i \<le> ti_len t \<and> n \<le> ti_len t - i \<longleftrightarrow> unat i + unat n \<le> length (ti_refs t)"
    using range_guard [of i "ti_len t" n] by (simp add: unat_ti_len ok)
  show ?thesis
    unfolding gen_op_table_fill_def assms(2,3,5-7) Let_def prod.case option.case ts assms(4) [symmetric] guard
    using fill_loop [OF ok, of i n 0 v] by simp
qed

lemma table_fill_spec_witness:
  "\<exists>vm. gen_op_table_fill demo_ienv (demo_vm [0] [(1, T_INT), (9, T_REF), (2, T_INT)] False) = Next vm \<and>
     ti_refs (vm_tables vm ! 0) = [1, 9, 9, 4]"
proof -
  let ?vm = "demo_vm [0] [(1, T_INT), (9, T_REF), (2, T_INT)] False"
  let ?a = "upd_frame (\<lambda>f. f\<lparr>fr_pos := 1\<rparr>) ?vm"
  have i: "imm_u32 demo_ienv ?vm = (0, ?a)" by (simp add: imm_u32_def demo_eval)
  have t: "tab_at ?a 0 = Some 0" by (simp add: tab_at_def demo_eval)
  have p: "gpop_addr False ?a = (2, gdrop 1 ?a)"
    "gpop_any (gdrop 1 ?a) = (\<lparr>an_bits = 9, an_hi = 0, an_kind = T_REF\<rparr>, gdrop 2 ?a)"
    "gpop_addr False (gdrop 2 ?a) = (1, gdrop 3 ?a)"
    by (simp_all add: gpop_addr_eq gpop_any_def gpop_word_def demo_eval gdrop_def set_sp_def top_slot_def stk_at_def
        slot_i_def Let_def)
  have ok: "list_all tab_ok (vm_tables ?vm)" by (simp add: tab_ok_def demo_eval)
  have two: "replicate 2 x = [x, x]" for x :: 'a by (simp add: numeral_2_eq_2)
  have "vm_tables ?vm ! 0 = demo_table" by (simp add: demo_vm_def)
  then have "gen_op_table_fill demo_ienv ?vm = Next (set_table 0 (demo_table
      \<lparr>ti_refs := splice 1 [9, 9] (ti_refs demo_table), ti_types := splice 1 [T_REF, T_REF] (ti_types demo_table)\<rparr>) (gdrop 3 ?a))"
    using table_fill_spec [OF ok i t refl, of 2 "gdrop 1 ?a" "\<lparr>an_bits = 9, an_hi = 0, an_kind = T_REF\<rparr>" "gdrop 2 ?a" 1 "gdrop 3 ?a"] p
    by (simp add: demo_table_def two)
  then show ?thesis by (simp add: set_table_def gdrop_def set_sp_def demo_vm_def demo_table_def splice_def)
qed

end
