(* ===== verification/VmRefRules.thy ===== *)
theory VmRefRules
  imports VmMemRules
begin

text \<open>
  References and managed objects: the layout of a structure type and the access to its fields, references
  to integers, and what the collector sees of the operand stack.
\<close>

section \<open>References to integers\<close>

lemma top_push_ref: "top_long (gpush_ref v vm) 1 = v"
  by (simp add: gpush_ref_def gpush_word_def top_slot_def set_sp_def put_slot_def stk_at_def set_slot_l_def)

lemma top_tag_push_ref: "top_tag (gpush_ref v vm) 1 = T_REF"
  by (simp add: gpush_ref_def gpush_word_def top_tag_def set_sp_def put_slot_def stk_at_def)

definition i31_of :: "u32 \<Rightarrow> u64" where
  "i31_of v = push_bit 1 (scast (v AND 2147483647)) OR 1"

lemma i31_and: "v AND 2147483647 = take_bit 31 v" for v :: "'a :: len word"
  by (simp add: take_bit_eq_mask mask_eq_exp_minus_1)

lemma bit_times_2: "bit (v * 2) n \<longleftrightarrow> n < LENGTH('a) \<and> 0 < n \<and> bit v (n - 1)" for v :: "'a :: len word"
  using bit_push_bit_iff [of 1 v n] by (auto simp: possible_bit_word)

lemma i31_low: "ucast (i31_of v) = (push_bit 1 v OR 1 :: u32)"
  unfolding i31_of_def i31_and by (rule bit_word_eqI) (auto simp: bit_simps bit_times_2)

lemma i31_low_nonzero: "(ucast (i31_of v) :: u32) \<noteq> 0"
proof
  assume "(ucast (i31_of v) :: u32) = 0"
  then have "\<not> bit (push_bit 1 v OR 1 :: u32) 0" unfolding i31_low by simp
  then show False by (simp add: bit_simps)
qed

lemma i31_signed: "signed_drop_bit 1 (ucast (i31_of v) :: u32) = signed_take_bit 30 v"
  unfolding i31_low by (rule bit_word_eqI) (auto simp: bit_simps bit_times_2)

lemma i31_unsigned: "ucast (drop_bit 1 (i31_of v) AND 2147483647) = take_bit 31 v"
  unfolding i31_of_def i31_and by (rule bit_word_eqI) (auto simp: bit_simps bit_times_2)

text \<open>C37. A reference made by \<open>ref.i31\<close> is never null and is odd, so that it is no address of an object;
  \<open>i31.get_s\<close> and \<open>i31.get_u\<close> give back the low 31 bits of the integer, sign and zero extended.\<close>

theorem i31_roundtrip:
  "\<exists>vm1. gen_op_ref_i31 E vm = Next vm1 \<and> odd (top_long vm1 1) \<and> top_tag vm1 1 = T_REF \<and>
     gen_op_ref_is_null E vm1 = Next (gpush_int 0 (gdrop 1 vm1)) \<and>
     gen_op_i31_get_s E vm1 = Next (gpush_int (signed_take_bit 30 (top_int vm 1)) (gdrop 1 vm1)) \<and>
     gen_op_i31_get_u E vm1 = Next (gpush_int (take_bit 31 (top_int vm 1)) (gdrop 1 vm1))"
proof -
  let ?v = "top_int vm 1"
  let ?vm = "gpush_ref (i31_of ?v) (gdrop 1 vm)"
  have "odd (i31_of ?v)" unfolding i31_of_def even_or_iff by simp
  moreover have "gen_op_ref_i31 E vm = Next ?vm" by (simp add: gen_op_ref_i31_def i31_of_def stack_simps)
  moreover have "gpop_ref ?vm = (i31_of ?v, gdrop 1 ?vm)" by (simp add: gpop_ref_def stack_simps top_push_ref)
  ultimately show ?thesis
    using i31_low_nonzero [of ?v]
    by (simp add: top_push_ref top_tag_push_ref gen_op_ref_is_null_def gen_op_i31_get_s_def gen_op_i31_get_u_def
        i31_signed [unfolded One_nat_def] i31_unsigned [unfolded One_nat_def] JAV_NULLREF_def)
qed

section \<open>What the collector sees\<close>

lemma root_stack_iff:
  "Root_stack i \<in> set (map Root_stack (tagged n ty)) \<longleftrightarrow> i < n \<and> ty i = T_GCREF"
  by (auto simp: tagged_def)

text \<open>The roots on the operand stack; the other groups of roots are of other constructors.\<close>

lemma stack_roots:
  assumes "Root_stack i \<notin> set (ie_extra_roots E vm)"
  shows "Root_stack i \<in> set (jav_gc_enum_roots E vm) \<longleftrightarrow>
    i < fr_stack (vm_frame vm) + unat (vm_sp vm) \<and> vm_value_types vm i = T_GCREF"
  using assms by (auto simp: jav_gc_enum_roots_def Let_def elem_roots_def tagged_def split: if_splits)

text \<open>C39. \<open>ref.as_non_null\<close> leaves a non-null reference in its slot, and the collector that enumerated the slot as a
  root before the instruction no longer does after it.\<close>

theorem as_non_null_unroots:
  assumes "0 < vm_sp vm" "top_tag vm 1 = T_GCREF" "ucast (top_long vm 1) \<noteq> (0 :: u32)"
    and "\<And>vm i. Root_stack i \<notin> set (ie_extra_roots E vm)"
  shows "\<exists>vm'. gen_op_ref_as_non_null E vm = Next vm' \<and> top_long vm' 1 = top_long vm 1 \<and> vm_sp vm' = vm_sp vm \<and>
    Root_stack (stk_at vm (vm_sp vm - 1)) \<in> set (jav_gc_enum_roots E vm) \<and>
    Root_stack (stk_at vm (vm_sp vm - 1)) \<notin> set (jav_gc_enum_roots E vm')"
proof -
  let ?vm = "gpush_ref (top_long vm 1) (gdrop 1 vm)"
  have "gen_op_ref_as_non_null E vm = Next ?vm"
    using assms(3) by (simp add: gen_op_ref_as_non_null_def gpop_ref_def stack_simps JAV_NULLREF_def)
  moreover have "vm_sp ?vm = vm_sp vm" by (simp add: gpush_ref_def gpush_word_def set_sp_def put_slot_def gdrop_def)
  moreover have "vm_value_types ?vm (stk_at vm (vm_sp vm - 1)) = T_REF"
    by (simp add: gpush_ref_def gpush_word_def set_sp_def put_slot_def gdrop_def stk_at_def)
  moreover have "unat (vm_sp vm - 1) < unat (vm_sp vm)"
    using assms(1) measure_unat [of "vm_sp vm"] by auto
  ultimately show ?thesis
    using assms(2) stack_roots [OF assms(4)] by (auto simp: top_push_ref top_tag_def stk_at_def)
qed

lemma as_non_null_unroots_witness:
  "\<exists>vm'. gen_op_ref_as_non_null demo_ienv (demo_vm [] [(4096, T_GCREF)] False) = Next vm' \<and> top_long vm' 1 = 4096 \<and>
     Root_stack 0 \<in> set (jav_gc_enum_roots demo_ienv (demo_vm [] [(4096, T_GCREF)] False)) \<and>
     Root_stack 0 \<notin> set (jav_gc_enum_roots demo_ienv vm')"
proof -
  let ?vm = "demo_vm [] [(4096, T_GCREF)] False"
  have t: "top_tag ?vm 1 = T_GCREF" "top_long ?vm 1 = 4096" "vm_sp ?vm = 1" "stk_at ?vm 0 = 0"
    by (simp_all add: top_tag_def top_slot_def stk_at_def demo_eval)
  show ?thesis using as_non_null_unroots [of ?vm demo_ienv] t by (simp add: demo_ienv_def) blast
qed

section \<open>The layout of a structure\<close>

definition width :: "valtype \<Rightarrow> nat" where
  "width w = (if w = WVT_V128 then 16 else 8)"

text \<open>The offset of a field from the payload: the widths of the fields before it.\<close>

definition pos :: "(valtype \<times> int) list \<Rightarrow> nat \<Rightarrow> nat" where
  "pos fs i = sum_list (map (width \<circ> fst) (take i fs))"

lemma pos_Suc: "i < length fs \<Longrightarrow> pos fs (Suc i) = pos fs i + width (fst (fs ! i))"
  by (simp add: pos_def take_Suc_conv_app_nth)

lemma pos_mono: "i \<le> j \<Longrightarrow> pos fs i \<le> pos fs j"
proof -
  assume "i \<le> j"
  then have "take j fs = take i fs @ take (j - i) (drop i fs)" by (metis le_add_diff_inverse take_add)
  then show ?thesis by (simp add: pos_def)
qed

lemma pos_disjoint: "i < j \<Longrightarrow> j \<le> length fs \<Longrightarrow> pos fs i + width (fst (fs ! i)) \<le> pos fs j"
  using pos_mono [of "Suc i" j fs] pos_Suc [of i fs] by simp

lemma pos_narrow: "WVT_V128 \<notin> fst ` set fs \<Longrightarrow> i \<le> length fs \<Longrightarrow> pos fs i = 8 * i"
proof (induction i)
  case (Suc i)
  then have "fst (fs ! i) \<noteq> WVT_V128" by (metis Suc_le_lessD image_eqI nth_mem)
  then show ?case using Suc by (simp add: pos_Suc width_def)
qed (simp add: pos_def)

lemma pos_le: "i \<le> length fs \<Longrightarrow> pos fs i \<le> 16 * i"
  by (induction i) (auto simp: pos_Suc pos_def [of fs 0] width_def)

lemma length_field_offsets: "length (field_offsets q ws) = Suc (length ws)"
  by (induction ws arbitrary: q) simp_all

lemma nth_field_offsets:
  "i \<le> length fs \<Longrightarrow> field_offsets q (map fst fs) ! i = q + word_of_nat (pos fs i)"
proof (induction fs arbitrary: q i)
  case Nil
  then show ?case by (simp add: pos_def)
next
  case (Cons f fs)
  then show ?case
    by (cases i) (auto simp: pos_def width_def cell_width_def split: prod.split)
qed

lemma unat32: "n < 2 ^ 32 \<Longrightarrow> unat (word_of_nat n :: u32) = n"
  by (simp add: unat_of_nat take_bit_nat_eq_self)

lemma of_nat32_eq: "m < 2 ^ 32 \<Longrightarrow> n < 2 ^ 32 \<Longrightarrow> (word_of_nat m :: u32) = word_of_nat n \<longleftrightarrow> m = n"
  by (metis unat32)

definition is_ref_field :: "nat list \<Rightarrow> valtype \<times> int \<Rightarrow> bool" where
  "is_ref_field kinds f \<longleftrightarrow> rtt_field_is_ref (fst f) (snd f) kinds = Some True"

lemma those_members: "those xs = Some ys \<Longrightarrow> xs = map Some ys"
  by (induction xs arbitrary: ys) (auto split: option.splits)

lemma build_struct_rtt_sel:
  assumes "build_struct_rtt fs kinds = Some r" "length fs < 2 ^ 16"
  shows "rt_field_off r = (if WVT_V128 \<in> fst ` set fs then Some (field_offsets 0 (map fst fs)) else None)"
    "rt_size r = word_of_nat (GC_HEADER + pos fs (length fs))" "rt_kind r = GC_KIND_STRUCT"
    "rt_ref_offsets r = map (\<lambda>i. word_of_nat (GC_HEADER + pos fs i)) (filter (\<lambda>i. is_ref_field kinds (fs ! i)) [0..<length fs])"
proof -
  let ?wide = "WVT_V128 \<in> fst ` set fs"
  obtain refs where refs: "those (map (\<lambda>(w, ht). rtt_field_is_ref w ht kinds) fs) = Some refs"
    using assms(1) by (auto simp: build_struct_rtt_def)
  have m: "map (\<lambda>(w, ht). rtt_field_is_ref w ht kinds) fs = map Some refs" using refs by (rule those_members)
  have len: "length refs = length fs" using arg_cong [OF m, of length] by simp
  have nth: "refs ! i \<longleftrightarrow> is_ref_field kinds (fs ! i)" if "i < length fs" for i
    using arg_cong [OF m, of "\<lambda>xs. xs ! i"] that len by (simp add: is_ref_field_def split_beta)
  show "rt_field_off r = (if ?wide then Some (field_offsets 0 (map fst fs)) else None)" "rt_kind r = GC_KIND_STRUCT"
    using assms(1) refs by (auto simp: build_struct_rtt_def Let_def; force)+
  have narrow: "i \<le> length fs \<Longrightarrow> \<not> ?wide \<Longrightarrow> pos fs i = 8 * i" for i by (rule pos_narrow) auto
  show "rt_size r = word_of_nat (GC_HEADER + pos fs (length fs))"
    using assms(1) refs narrow [of "length fs"] nth_field_offsets [of "length fs" fs 0]
    by (auto simp: build_struct_rtt_def Let_def)
  have off: "(if ?wide then field_offsets 0 (map fst fs) ! i else word_of_nat i * 8) = word_of_nat (pos fs i)" if "i < length fs" for i
    using that narrow [of i] nth_field_offsets [of i fs 0] by simp
  have "rt_ref_offsets r =
      map (\<lambda>i. word_of_nat GC_HEADER + (if ?wide then field_offsets 0 (map fst fs) ! i else word_of_nat i * 8))
        (filter (\<lambda>i. refs ! i) [0..<length fs])"
    using assms(1) refs by (auto simp: build_struct_rtt_def Let_def)
  also have "\<dots> = map (\<lambda>i. word_of_nat (GC_HEADER + pos fs i)) (filter (\<lambda>i. is_ref_field kinds (fs ! i)) [0..<length fs])"
    using off nth by (intro map_cong filter_cong refl) (auto simp: nth)
  finally show "rt_ref_offsets r = \<dots>" .
qed

lemma field_at:
  assumes "build_struct_rtt fs kinds = Some r" "length fs < 2 ^ 16" "i < length fs"
  shows "jav_struct_field_p r (word_of_nat i) = Some (pos fs i)"
    "jav_struct_field_wide r (word_of_nat i) \<longleftrightarrow> fst (fs ! i) = WVT_V128"
proof -
  note sel = build_struct_rtt_sel [OF assms(1,2)]
  have u: "unat (word_of_nat i :: u32) = i" "pos fs i < 2 ^ 20" "pos fs (Suc i) < 2 ^ 20"
    using assms(2,3) unat32 [of i] pos_le [of i fs] pos_le [of "Suc i" fs] by simp_all
  have m: "unat (word_of_nat i * 8 :: u32) = 8 * i"
    using u(1) assms(2,3) by (simp add: unat_word_ariths)
  have nth: "field_offsets 0 (map fst fs) ! i = word_of_nat (pos fs i)"
    "field_offsets 0 (map fst fs) ! Suc i = word_of_nat (pos fs (Suc i))"
    using nth_field_offsets [of i fs 0] nth_field_offsets [of "Suc i" fs 0] assms(3) by simp_all
  show "jav_struct_field_p r (word_of_nat i) = Some (pos fs i)"
    using assms(3) u m nth(1) pos_narrow [of fs i]
    by (simp add: jav_struct_field_p_def sel(1) length_field_offsets unat32)
  have "word_of_nat (pos fs (Suc i)) - word_of_nat (pos fs i) = (word_of_nat (width (fst (fs ! i))) :: u32)"
    using pos_Suc [OF assms(3)] by simp
  then have "word_of_nat (pos fs (Suc i)) - word_of_nat (pos fs i) = (16 :: u32) \<longleftrightarrow> fst (fs ! i) = WVT_V128"
    by (simp add: width_def)
  moreover have "WVT_V128 \<in> fst ` set fs" if "fst (fs ! i) = WVT_V128"
    using that assms(3) by (metis image_eqI nth_mem)
  ultimately show "jav_struct_field_wide r (word_of_nat i) \<longleftrightarrow> fst (fs ! i) = WVT_V128"
    using assms(3) u(1) nth by (auto simp: jav_struct_field_wide_def sel(1) length_field_offsets)
qed

lemma size_at:
  assumes "build_struct_rtt fs kinds = Some r" "length fs < 2 ^ 16"
  shows "unat (rt_size r) = GC_HEADER + pos fs (length fs)"
    "map unat (rt_ref_offsets r) = map (\<lambda>i. GC_HEADER + pos fs i) (filter (\<lambda>i. is_ref_field kinds (fs ! i)) [0..<length fs])"
proof -
  have u: "unat (word_of_nat (GC_HEADER + pos fs i) :: u32) = GC_HEADER + pos fs i" if "i \<le> length fs" for i
    using that assms(2) pos_le [of i fs] by (intro unat32) (simp add: GC_HEADER_def)
  show "unat (rt_size r) = GC_HEADER + pos fs (length fs)"
    using u [of "length fs"] by (simp only: build_struct_rtt_sel(2) [OF assms])
  show "map unat (rt_ref_offsets r) = map (\<lambda>i. GC_HEADER + pos fs i) (filter (\<lambda>i. is_ref_field kinds (fs ! i)) [0..<length fs])"
    unfolding build_struct_rtt_sel(4) [OF assms] map_map by (intro map_cong refl) (simp add: u del: of_nat_add)
qed

text \<open>C12. The layout that the module index computes for a structure type: the accessors address field \<open>i\<close> at the
  sum of the widths before it and as two cells exactly if it is a vector; fields do not overlap and end
  inside the object; and the offsets the collector traces are those of the reference fields and no others.\<close>

theorem struct_layout_spec:
  assumes "build_struct_rtt fs kinds = Some r" "length fs < 2 ^ 16"
  shows "(\<forall>i < length fs. jav_struct_field_p r (word_of_nat i) = Some (pos fs i) \<and>
      (jav_struct_field_wide r (word_of_nat i) \<longleftrightarrow> fst (fs ! i) = WVT_V128) \<and>
      GC_HEADER + pos fs i + width (fst (fs ! i)) \<le> unat (rt_size r)) \<and>
    (\<forall>i j. i < j \<and> j < length fs \<longrightarrow> pos fs i + width (fst (fs ! i)) \<le> pos fs j) \<and>
    map unat (rt_ref_offsets r) = map (\<lambda>i. GC_HEADER + pos fs i) (filter (\<lambda>i. is_ref_field kinds (fs ! i)) [0..<length fs])"
  using field_at [OF assms] size_at [OF assms] pos_disjoint [of _ _ fs] pos_disjoint [of _ "length fs" fs] by simp

lemma struct_layout_spec_witness:
  "\<exists>r. build_struct_rtt [(WVT_I32, 0), (WVT_V128, 0), (WVT_REF, HT_ANY)] [] = Some r \<and>
     jav_struct_field_p r 2 = Some 24 \<and> map unat (rt_ref_offsets r) = [48]"
proof -
  let ?fs = "[(WVT_I32, 0), (WVT_V128, 0), (WVT_REF, HT_ANY)]"
  obtain r where r: "build_struct_rtt ?fs [] = Some r"
    by (simp add: build_struct_rtt_def rtt_field_is_ref_def)
  have "length ?fs < 2 ^ 16" by simp
  note spec = struct_layout_spec [OF r this]
  have "2 < length ?fs" by simp
  with spec [THEN conjunct1] have "jav_struct_field_p r (word_of_nat 2) = Some (pos ?fs 2)" by blast
  moreover have "pos ?fs 2 = 24" by (simp add: pos_def width_def numeral_2_eq_2)
  moreover note spec [THEN conjunct2, THEN conjunct2]
  ultimately show ?thesis
    using r by (simp add: upt_rec is_ref_field_def rtt_field_is_ref_def GC_HEADER_def pos_def width_def)
qed

section \<open>Tags of fields\<close>

lemma field_tag:
  assumes "build_struct_rtt fs kinds = Some r" "length fs < 2 ^ 16" "i < length fs"
  shows "gc_field_is_ref r (word_of_nat i) \<longleftrightarrow> (\<exists>j < length fs. is_ref_field kinds (fs ! j) \<and> pos fs j = 8 * i)"
proof -
  have "word_of_nat GC_HEADER + word_of_nat i * 8 = (word_of_nat (GC_HEADER + 8 * i) :: u32)" by simp
  moreover have "word_of_nat (GC_HEADER + 8 * i) = (word_of_nat (GC_HEADER + pos fs j) :: u32) \<longleftrightarrow> pos fs j = 8 * i"
    if "j < length fs" for j
    using that assms(2,3) pos_le [of j fs] by (subst of_nat32_eq) (auto simp: GC_HEADER_def)
  ultimately show ?thesis
    unfolding gc_field_is_ref_def build_struct_rtt_sel(4) [OF assms(1,2)] by (auto simp: image_iff simp del: of_nat_add)
qed

text \<open>C38. The tag that a field read gives its value is the kind the collector traces only where the structure
  has no vector before it: without a vector the tag is exact; behind one, a reference is read with the tag
  of an integer, and an integer with the tag of a reference.\<close>

theorem struct_field_tags:
  "(\<forall>fs kinds r i. build_struct_rtt fs kinds = Some r \<and> length fs < 2 ^ 16 \<and> WVT_V128 \<notin> fst ` set fs \<and> i < length fs \<longrightarrow>
      (gc_field_is_ref r (word_of_nat i) \<longleftrightarrow> is_ref_field kinds (fs ! i))) \<and>
   (\<exists>r. build_struct_rtt [(WVT_V128, 0), (WVT_REF, HT_ANY), (WVT_I32, 0)] kinds = Some r \<and>
      map unat (rt_ref_offsets r) = [GC_HEADER + 16] \<and> jav_struct_field_p r 1 = Some 16 \<and>
      \<not> gc_field_is_ref r 1 \<and> gc_field_is_ref r 2)"
proof (intro conjI allI impI)
  fix fs kinds r i
  assume a: "build_struct_rtt fs kinds = Some r \<and> length fs < 2 ^ 16 \<and> WVT_V128 \<notin> fst ` set fs \<and> i < length fs"
  then have "pos fs j = 8 * i \<longleftrightarrow> j = i" if "j < length fs" for j using pos_narrow [of fs j] that by auto
  then show "gc_field_is_ref r (word_of_nat i) \<longleftrightarrow> is_ref_field kinds (fs ! i)"
    using a field_tag [of fs kinds r i] by auto
next
  let ?fs = "[(WVT_V128, 0), (WVT_REF, HT_ANY), (WVT_I32, 0)]"
  obtain r where r: "build_struct_rtt ?fs kinds = Some r"
    by (simp add: build_struct_rtt_def rtt_field_is_ref_def)
  have pos: "pos ?fs 0 = 0" "pos ?fs 1 = 16" "pos ?fs 2 = 24"
    by (simp_all add: pos_def width_def numeral_2_eq_2)
  have refs: "\<not> is_ref_field kinds (?fs ! 0)" "is_ref_field kinds (?fs ! 1)" "\<not> is_ref_field kinds (?fs ! 2)"
    by (simp_all add: is_ref_field_def rtt_field_is_ref_def)
  have len: "length ?fs < 2 ^ 16" "1 < length ?fs" "2 < length ?fs" by simp_all
  have all: "(\<exists>j < length ?fs. P j) \<longleftrightarrow> P 0 \<or> P 1 \<or> P 2" for P
    by (simp add: Ex_less_Suc2 numeral_2_eq_2)
  have "gc_field_is_ref r (word_of_nat 2)" "\<not> gc_field_is_ref r (word_of_nat 1)"
    unfolding field_tag [OF r len(1,3)] field_tag [OF r len(1,2)] all using pos refs by simp_all
  moreover have "jav_struct_field_p r (word_of_nat 1) = Some 16"
    using field_at(1) [OF r, of 1] pos(2) by simp
  moreover have "map unat (rt_ref_offsets r) = [GC_HEADER + 16]"
    using size_at(2) [OF r len(1)] pos refs by (simp add: upt_rec numeral_2_eq_2)
  ultimately show "\<exists>r. build_struct_rtt ?fs kinds = Some r \<and>
      map unat (rt_ref_offsets r) = [GC_HEADER + 16] \<and> jav_struct_field_p r 1 = Some 16 \<and>
      \<not> gc_field_is_ref r 1 \<and> gc_field_is_ref r 2"
    using r by simp
qed

lemma struct_field_tags_witness:
  "\<exists>r. build_struct_rtt [(WVT_REF, HT_ANY), (WVT_I32, 0)] [] = Some r \<and> gc_field_is_ref r (word_of_nat 0) \<and>
     \<not> gc_field_is_ref r (word_of_nat 1)"
proof -
  let ?fs = "[(WVT_REF, HT_ANY), (WVT_I32, 0)]"
  obtain r where r: "build_struct_rtt ?fs [] = Some r" by (simp add: build_struct_rtt_def rtt_field_is_ref_def)
  have f: "length ?fs < 2 ^ 16" "WVT_V128 \<notin> fst ` set ?fs" "0 < length ?fs" "1 < length ?fs" by simp_all
  have "gc_field_is_ref r (word_of_nat 0) \<longleftrightarrow> is_ref_field [] (?fs ! 0)" "gc_field_is_ref r (word_of_nat 1) \<longleftrightarrow> is_ref_field [] (?fs ! 1)"
    using struct_field_tags [of "[]", THEN conjunct1] r f by blast+
  then show ?thesis using r by (simp add: is_ref_field_def rtt_field_is_ref_def)
qed

section \<open>Reading what was written\<close>

lemma set_cell_spec:
  assumes "cell_in vm q off"
  shows "\<exists>vm'. set_cell q off v vm = Some vm' \<and> vm_ctx vm' = vm_ctx vm \<and> cell_in vm' = cell_in vm \<and>
    (\<forall>p k. get_cell vm' p k = (if p = q \<and> k = off then Some v else get_cell vm p k))"
proof -
  let ?vm = "vm\<lparr>vm_gc := set_obj (unat q) (\<lambda>ob. ob\<lparr>ob_cell := (ob_cell ob)(GC_HEADER + off := unat v)\<rparr>) (vm_gc vm)\<rparr>"
  have mem: "gh_mem (vm_gc ?vm) p = (if p = unat q
      then (gh_mem (vm_gc vm) p)\<lparr>ob_cell := (ob_cell (gh_mem (vm_gc vm) p))(GC_HEADER + off := unat v)\<rparr>
      else gh_mem (vm_gc vm) p)" for p
    by (simp add: set_obj_def)
  have s: "set_cell q off v vm = Some ?vm" using assms by (simp add: set_cell_def)
  have sz: "gc_obj_size (gh_mem (vm_gc ?vm) p) = gc_obj_size (gh_mem (vm_gc vm) p)" for p
    unfolding mem gc_obj_size_def by simp
  have c: "cell_in ?vm p k = cell_in vm p k" for p k
    unfolding cell_in_def sz ..
  have "get_cell ?vm p k = (if p = q \<and> k = off then Some v else get_cell vm p k)" for p k
    using assms word_unat_eq_iff [of p q] unfolding get_cell_def c mem by auto
  moreover have "cell_in ?vm = cell_in vm" using c by (intro ext)
  ultimately show ?thesis using s by simp
qed

text \<open>The cells of a value.\<close>

definition in_cells :: "nat \<Rightarrow> bool \<Rightarrow> nat \<Rightarrow> bool" where
  "in_cells off wide k \<longleftrightarrow> k = off \<or> wide \<and> k = off + 8"

lemma store_any_spec:
  assumes "cell_in vm q off" "wide \<Longrightarrow> cell_in vm q (off + 8)"
  shows "\<exists>vm'. store_any q off wide v vm = Some vm' \<and> vm_ctx vm' = vm_ctx vm \<and>
    (\<forall>tag. load_any vm' q off wide tag =
       Some \<lparr>an_bits = an_bits v, an_hi = (if wide then an_hi v else 0), an_kind = (if wide then T_V128 else tag)\<rparr>) \<and>
    (\<forall>p k. p \<noteq> q \<or> \<not> in_cells off wide k \<longrightarrow> get_cell vm' p k = get_cell vm p k)"
proof -
  obtain vm1 where 1: "set_cell q off (an_bits v) vm = Some vm1" "vm_ctx vm1 = vm_ctx vm" "cell_in vm1 = cell_in vm"
    "\<forall>p k. get_cell vm1 p k = (if p = q \<and> k = off then Some (an_bits v) else get_cell vm p k)"
    using set_cell_spec [OF assms(1)] by blast
  show ?thesis
  proof (cases wide)
    case False
    then show ?thesis using 1 by (intro exI [of _ vm1]) (auto simp: store_any_def load_any_def in_cells_def)
  next
    case True
    then have "cell_in vm1 q (off + 8)" using assms(2) 1(3) by simp
    then obtain vm2 where 2: "set_cell q (off + 8) (an_hi v) vm1 = Some vm2" "vm_ctx vm2 = vm_ctx vm1"
      "\<forall>p k. get_cell vm2 p k = (if p = q \<and> k = off + 8 then Some (an_hi v) else get_cell vm1 p k)"
      using set_cell_spec by blast
    show ?thesis using 1 2 True by (intro exI [of _ vm2]) (auto simp: store_any_def load_any_def in_cells_def)
  qed
qed

lemma load_any_cong:
  assumes "\<And>k. in_cells off wide k \<Longrightarrow> get_cell vm' q k = get_cell vm q k"
  shows "load_any vm' q off wide tag = load_any vm q off wide tag"
  using assms [of off] assms [of "off + 8"] by (cases wide) (auto simp: load_any_def in_cells_def)

text \<open>C9. Writing a field of an object of its type succeeds; reading it back gives the value, both halves of a
  vector included, and every other field, and every field of every other object, reads as before.\<close>

theorem struct_set_get:
  assumes "build_struct_rtt fs kinds = Some r" "length fs < 2 ^ 16" "rtt_at vm ty = Some r" "q \<noteq> 0"
    and "gc_obj_size (gh_mem (vm_gc vm) (unat q)) = Some sz" "rt_size r \<le> sz" "i < length fs"
  shows "\<exists>vm'. jav_struct_set_v ty (word_of_nat i) q v vm = Some vm' \<and>
    jav_struct_get_v vm' ty (word_of_nat i) q =
      Some (if fst (fs ! i) = WVT_V128 then \<lparr>an_bits = an_bits v, an_hi = an_hi v, an_kind = T_V128\<rparr>
            else \<lparr>an_bits = an_bits v, an_hi = 0, an_kind = (if gc_field_is_ref r (word_of_nat i) then T_GCREF else T_INT)\<rparr>) \<and>
    (\<forall>p j. j < length fs \<and> (p \<noteq> q \<or> j \<noteq> i) \<longrightarrow>
      jav_struct_get_v vm' ty (word_of_nat j) p = jav_struct_get_v vm ty (word_of_nat j) p)"
proof -
  note at = field_at [OF assms(1,2)]
  let ?wide = "\<lambda>j. fst (fs ! j) = WVT_V128"
  have fits: "GC_HEADER + pos fs i + width (fst (fs ! i)) \<le> unat sz"
    using size_at(1) [OF assms(1,2)] pos_disjoint [OF assms(7) le_refl] assms(6) by (simp add: word_le_nat_alt)
  have cells: "cell_in vm q (pos fs i)" "?wide i \<Longrightarrow> cell_in vm q (pos fs i + 8)"
    using fits assms(4,5) by (auto simp: cell_in_def width_def split: if_splits)
  obtain vm' where vm': "store_any q (pos fs i) (?wide i) v vm = Some vm'" "vm_ctx vm' = vm_ctx vm"
    "\<forall>tag. load_any vm' q (pos fs i) (?wide i) tag =
       Some \<lparr>an_bits = an_bits v, an_hi = (if ?wide i then an_hi v else 0), an_kind = (if ?wide i then T_V128 else tag)\<rparr>"
    "\<forall>p k. p \<noteq> q \<or> \<not> in_cells (pos fs i) (?wide i) k \<longrightarrow> get_cell vm' p k = get_cell vm p k"
    using store_any_spec [OF cells] by blast
  have r': "rtt_at vm' ty = Some r" using assms(3) unfolding rtt_at_def vm'(2) .
  have "jav_struct_set_v ty (word_of_nat i) q v vm = Some vm'"
    using vm'(1) by (simp add: jav_struct_set_v_def assms(3) at [OF assms(7)])
  moreover have "jav_struct_get_v vm' ty (word_of_nat j) p = jav_struct_get_v vm ty (word_of_nat j) p"
    if "j < length fs" "p \<noteq> q \<or> j \<noteq> i" for p j
  proof -
    have apart: "\<not> (in_cells (pos fs i) (?wide i) k \<and> in_cells (pos fs j) (?wide j) k)" if "j \<noteq> i" for k
      using that pos_disjoint [of i j fs] pos_disjoint [of j i fs] assms(7) \<open>j < length fs\<close>
      by (cases "i < j") (auto simp: in_cells_def width_def split: if_splits)
    have "load_any vm' p (pos fs j) (?wide j) t = load_any vm p (pos fs j) (?wide j) t" for t
      using that(2) vm'(4) apart by (intro load_any_cong) blast
    then show ?thesis by (simp add: jav_struct_get_v_def assms(3) r' at [OF that(1)])
  qed
  moreover have "jav_struct_get_v vm' ty (word_of_nat i) q =
      Some (if ?wide i then \<lparr>an_bits = an_bits v, an_hi = an_hi v, an_kind = T_V128\<rparr>
            else \<lparr>an_bits = an_bits v, an_hi = 0, an_kind = (if gc_field_is_ref r (word_of_nat i) then T_GCREF else T_INT)\<rparr>)"
    using vm'(3) by (simp add: jav_struct_get_v_def r' at [OF assms(7)])
  ultimately show ?thesis by blast
qed

lemma struct_set_get_witness:
  "\<exists>r vm vm'. build_struct_rtt [(WVT_I32, 0), (WVT_I64, 0)] [] = Some r \<and> rtt_at vm 0 = Some r \<and>
     jav_struct_set_v 0 (word_of_nat 1) 16 \<lparr>an_bits = 7, an_hi = 9, an_kind = T_LONG\<rparr> vm = Some vm' \<and>
     jav_struct_get_v vm' 0 (word_of_nat 1) 16 = Some \<lparr>an_bits = 7, an_hi = 0, an_kind = T_INT\<rparr>"
proof -
  let ?fs = "[(WVT_I32, 0), (WVT_I64, 0)] :: (valtype \<times> int) list"
  obtain r where r: "build_struct_rtt ?fs [] = Some r"
    by (simp add: build_struct_rtt_def rtt_field_is_ref_def)
  have len: "length ?fs < 2 ^ 16" "1 < length ?fs" by simp_all
  let ?vm0 = "demo_vm [] [] False"
  let ?vm = "?vm0\<lparr>vm_inst := (\<lambda>_. demo_ctx\<lparr>ic_struct_rtts := [r]\<rparr>)\<rparr>"
  have at: "rtt_at ?vm 0 = Some r" by (simp add: rtt_at_def)
  have sz: "gc_obj_size (gh_mem (vm_gc ?vm) (unat (16 :: u64))) = Some 40000"
    by (simp add: demo_vm_def demo_heap_def gc_heap_init_def gc_obj_size_def fresh_obj_def demo_rtt_def rtt_size_def)
  have "unat (rt_size r) = 40" using size_at(1) [OF r len(1)] by (simp add: GC_HEADER_def pos_def width_def)
  then have le: "rt_size r \<le> 40000" by (simp add: word_le_nat_alt)
  have all: "(\<exists>j < length ?fs. P j) \<longleftrightarrow> P 0 \<or> P 1" for P by (simp add: Ex_less_Suc2)
  have "\<not> gc_field_is_ref r (word_of_nat 1)"
    unfolding field_tag [OF r len] all by (simp add: is_ref_field_def rtt_field_is_ref_def)
  then show ?thesis
    using struct_set_get [OF r len(1) at _ sz le len(2), of "\<lparr>an_bits = 7, an_hi = 9, an_kind = T_LONG\<rparr>"] r at
    by - (rule exI [of _ r], rule exI [of _ ?vm], auto)
qed

end
