(* ===== verification/VmCallRules.thy ===== *)
theory VmCallRules
  imports VmMemRules
begin

text \<open>
  Calls: no handler touches what belongs to the caller, so that a call that ends gives the frame, the
  call depth and the exception handlers of its caller back.
\<close>

section \<open>What belongs to the caller\<close>

text \<open>
  The exception handlers installed below the current call, and the parts of the frame that only a call
  may change: its code, its places in the pools, its side tables and its instance.
\<close>

definition below :: "u32 \<Rightarrow> jav_handler list \<Rightarrow> jav_handler list" where
  "below d hs = rev (dropWhile (\<lambda>h. d \<le> hd_call_depth h) (rev hs))"

definition base_handlers :: "vm \<Rightarrow> jav_handler list" where
  "base_handlers vm = below (vm_call_depth vm) (vm_handlers vm)"

definition frame_id :: "frame \<Rightarrow> frame" where
  "frame_id f = f\<lparr>fr_pos := 0, fr_sp := 0, fr_stp := 0, fr_instr_pc := 0\<rparr>"

definition ident :: "vm \<Rightarrow> u32 \<times> jav_handler list \<times> frame" where
  "ident vm = (vm_call_depth vm, base_handlers vm, frame_id (vm_frame vm))"

named_theorems keep \<open>operations that keep the identity of the frame\<close>

text \<open>Outcomes that keep it.\<close>

definition keeps_opt :: "u32 \<times> jav_handler list \<times> frame \<Rightarrow> vm option \<Rightarrow> bool" where
  "keeps_opt i r \<longleftrightarrow> (\<forall>vm. r = Some vm \<longrightarrow> ident vm = i)"

definition keeps_val :: "u32 \<times> jav_handler list \<times> frame \<Rightarrow> ('a \<times> vm) option \<Rightarrow> bool" where
  "keeps_val i r \<longleftrightarrow> (\<forall>x vm. r = Some (x, vm) \<longrightarrow> ident vm = i)"

fun keeps_out :: "u32 \<times> jav_handler list \<times> frame \<Rightarrow> vm_out \<Rightarrow> bool" where
  "keeps_out i (Next vm) = (ident vm = i)"
| "keeps_out i (Trapped vm) = (ident vm = i)"
| "keeps_out i (Invoke fn vm) = (ident vm = i)"
| "keeps_out i Fault = True"

definition keeps :: "handler \<Rightarrow> bool" where
  "keeps h \<longleftrightarrow> (\<forall>E vm. keeps_out (ident vm) (h E vm))"

lemma keep_fields [keep]:
  "ident (vm\<lparr>vm_trapped := b\<rparr>) = ident vm" "ident (vm\<lparr>vm_trap_reason := r\<rparr>) = ident vm"
  "ident (vm\<lparr>vm_mems := ms\<rparr>) = ident vm" "ident (vm\<lparr>vm_tables := ts\<rparr>) = ident vm"
  "ident (vm\<lparr>vm_globals := g\<rparr>) = ident vm" "ident (vm\<lparr>vm_inst := c\<rparr>) = ident vm"
  "ident (vm\<lparr>vm_gc := hp\<rparr>) = ident vm" "ident (vm\<lparr>vm_exn_rtts := rs\<rparr>) = ident vm"
  "ident (vm\<lparr>vm_pending_exn := q\<rparr>) = ident vm" "ident (vm\<lparr>vm_unwinding := b\<rparr>) = ident vm"
  "ident (vm\<lparr>vm_tail_pending := b\<rparr>) = ident vm" "ident (vm\<lparr>vm_tail_fn := q\<rparr>) = ident vm"
  "ident (vm\<lparr>vm_host_refs := hr\<rparr>) = ident vm" "ident (vm\<lparr>vm_exhausted := ex\<rparr>) = ident vm"
  "ident (vm\<lparr>vm_locals_store := ls\<rparr>) = ident vm" "ident (vm\<lparr>vm_local_type_store := lt\<rparr>) = ident vm"
  "ident (vm\<lparr>vm_trap_trace := tt\<rparr>) = ident vm" "ident (vm\<lparr>vm_trap_pcs := tp\<rparr>) = ident vm"
  "ident (vm\<lparr>vm_value_stack := vs\<rparr>) = ident vm" "ident (vm\<lparr>vm_value_types := vt\<rparr>) = ident vm"
  by (simp_all add: ident_def base_handlers_def)

lemma keep_frame [keep]: "frame_id g = frame_id (vm_frame vm) \<Longrightarrow> ident (vm\<lparr>vm_frame := g\<rparr>) = ident vm"
  by (simp add: ident_def base_handlers_def)

lemma frame_id_simps [keep]:
  "frame_id (f\<lparr>fr_pos := p\<rparr>) = frame_id f" "frame_id (f\<lparr>fr_sp := n\<rparr>) = frame_id f"
  "frame_id (f\<lparr>fr_stp := n\<rparr>) = frame_id f" "frame_id (f\<lparr>fr_instr_pc := n\<rparr>) = frame_id f"
  by (simp_all add: frame_id_def)

lemma keep_stack [keep]:
  "ident (set_sp n vm) = ident vm" "ident (put_slot i s t vm) = ident vm" "ident (gpush_word s t vm) = ident vm"
  "ident (gpush_int v32 vm) = ident vm" "ident (gpush_long v64 vm) = ident vm" "ident (gpush_float v32 vm) = ident vm"
  "ident (gpush_double v64 vm) = ident vm" "ident (gpush_ref v64 vm) = ident vm" "ident (gpush_v128 s vm) = ident vm"
  "ident (gpush_any a vm) = ident vm" "ident (gdrop k vm) = ident vm" "ident (set_local k s t vm) = ident vm"
  "ident (set_global k s t vm) = ident vm"
  by (simp_all add: set_sp_def put_slot_def gpush_word_def gpush_int_def gpush_long_def gpush_float_def gpush_double_def
      gpush_ref_def gpush_v128_def gpush_any_def gdrop_def set_local_def set_global_def Let_def keep)

lemma keep_pops [keep]:
  "ident (snd (snd (gpop_word vm))) = ident vm" "ident (snd (gpop_int vm)) = ident vm" "ident (snd (gpop_long vm)) = ident vm"
  "ident (snd (gpop_float vm)) = ident vm" "ident (snd (gpop_double vm)) = ident vm" "ident (snd (gpop_ref vm)) = ident vm"
  "ident (snd (gpop_v128 vm)) = ident vm" "ident (snd (gpop_any vm)) = ident vm" "ident (snd (gpop_addr w vm)) = ident vm"
  by (simp_all add: gpop_float_def gpop_double_def gpop_ref_def gpop_addr_eq stack_simps keep)

lemma keep_imms [keep]:
  "ident (snd (imm_u8 E vm)) = ident vm" "ident (snd (imm_u32 E vm)) = ident vm" "ident (snd (imm_u64 E vm)) = ident vm"
  "ident (snd (imm_i32 E vm)) = ident vm" "ident (snd (imm_i64 E vm)) = ident vm"
  by (simp_all add: imm_u8_def imm_u32_def imm_u64_def imm_i32_def imm_i64_def Let_def split_beta keep)

lemma keep_outs [keep]:
  "keeps_out i (guard_trap r vm) \<longleftrightarrow> ident vm = i" "ident (jav_trap_with r vm) = ident vm"
  "keeps_out i (next_or_fault o') \<longleftrightarrow> keeps_opt i o'"
  "keeps_opt i (Some vm) \<longleftrightarrow> ident vm = i" "keeps_opt i None" "keeps_val i (Some (x, vm)) \<longleftrightarrow> ident vm = i" "keeps_val i None"
  by (auto simp: guard_trap_def jav_trap_with_def next_or_fault_def keeps_opt_def keeps_val_def keep split: option.split)

lemma keeps_bind:
  "keeps_val j r \<Longrightarrow> (\<And>x vm. ident vm = j \<Longrightarrow> keeps_opt i (f (x, vm))) \<Longrightarrow> keeps_opt i (Option.bind r f)"
  "keeps_opt j r' \<Longrightarrow> (\<And>vm. ident vm = j \<Longrightarrow> keeps_opt i (g vm)) \<Longrightarrow> keeps_opt i (Option.bind r' g)"
  "(\<And>x. keeps_opt i (k x)) \<Longrightarrow> keeps_opt i (Option.bind r'' k)"
  by (auto simp: keeps_opt_def keeps_val_def bind_eq_Some_conv)

section \<open>Numeric instructions, variables\<close>

lemma keep_skip [keep]: "ident (skip_valtypes E n vm) = ident vm"
  by (induction E n vm rule: skip_valtypes.induct) (simp_all add: Let_def split_beta keep)

lemmas num_ops =
  gen_op_i32_const_def gen_op_i64_const_def gen_op_local_get_def gen_op_local_set_def gen_op_local_tee_def
  gen_op_global_get_def gen_op_global_set_def gen_op_i32_add_def gen_op_i64_add_def gen_op_i32_sub_def
  gen_op_i64_sub_def gen_op_i32_mul_def gen_op_i64_mul_def gen_op_i32_and_def gen_op_i64_and_def
  gen_op_i32_or_def gen_op_i64_or_def gen_op_i32_xor_def gen_op_i64_xor_def gen_op_i32_div_s_def
  gen_op_i64_div_s_def gen_op_i32_div_u_def gen_op_i64_div_u_def gen_op_i32_rem_s_def gen_op_i64_rem_s_def
  gen_op_i32_rem_u_def gen_op_i64_rem_u_def gen_op_i32_shl_def gen_op_i64_shl_def gen_op_i32_shr_s_def
  gen_op_i64_shr_s_def gen_op_i32_shr_u_def gen_op_i64_shr_u_def gen_op_i32_rotl_def gen_op_i64_rotl_def
  gen_op_i32_rotr_def gen_op_i64_rotr_def gen_op_i32_clz_def gen_op_i32_ctz_def gen_op_i32_popcnt_def
  gen_op_i64_clz_def gen_op_i64_ctz_def gen_op_i64_popcnt_def gen_op_i32_eq_def gen_op_i64_eq_def
  gen_op_i32_ne_def gen_op_i64_ne_def gen_op_i32_lt_s_def gen_op_i64_lt_s_def gen_op_i32_gt_s_def
  gen_op_i64_gt_s_def gen_op_i32_le_s_def gen_op_i64_le_s_def gen_op_i32_ge_s_def gen_op_i64_ge_s_def
  gen_op_i32_lt_u_def gen_op_i64_lt_u_def gen_op_i32_gt_u_def gen_op_i64_gt_u_def gen_op_i32_le_u_def
  gen_op_i64_le_u_def gen_op_i32_ge_u_def gen_op_i64_ge_u_def gen_op_i32_eqz_def gen_op_i64_eqz_def
  gen_op_i32_wrap_i64_def gen_op_i64_extend_i32_s_def gen_op_i64_extend_i32_u_def gen_op_i32_extend8_s_def
  gen_op_i32_extend16_s_def gen_op_i64_extend8_s_def gen_op_i64_extend16_s_def gen_op_i64_extend32_s_def
  gen_op_i32_reinterpret_f32_def gen_op_i64_reinterpret_f64_def gen_op_f32_reinterpret_i32_def
  gen_op_f64_reinterpret_i64_def gen_op_f32_neg_def gen_op_f64_neg_def gen_op_nop_def gen_op_unreachable_def
  gen_op_drop_def gen_op_select_def gen_op_select_t_def

lemma keep_num [keep]:
  shows
  "keeps gen_op_i32_const" "keeps gen_op_i64_const" "keeps gen_op_local_get" "keeps gen_op_local_set"
  "keeps gen_op_local_tee" "keeps gen_op_global_get" "keeps gen_op_global_set" "keeps gen_op_i32_add"
  "keeps gen_op_i64_add" "keeps gen_op_i32_sub" "keeps gen_op_i64_sub" "keeps gen_op_i32_mul"
  "keeps gen_op_i64_mul" "keeps gen_op_i32_and" "keeps gen_op_i64_and" "keeps gen_op_i32_or"
  "keeps gen_op_i64_or" "keeps gen_op_i32_xor" "keeps gen_op_i64_xor" "keeps gen_op_i32_div_s"
  "keeps gen_op_i64_div_s" "keeps gen_op_i32_div_u" "keeps gen_op_i64_div_u" "keeps gen_op_i32_rem_s"
  "keeps gen_op_i64_rem_s" "keeps gen_op_i32_rem_u" "keeps gen_op_i64_rem_u" "keeps gen_op_i32_shl"
  "keeps gen_op_i64_shl" "keeps gen_op_i32_shr_s" "keeps gen_op_i64_shr_s" "keeps gen_op_i32_shr_u"
  "keeps gen_op_i64_shr_u" "keeps gen_op_i32_rotl" "keeps gen_op_i64_rotl" "keeps gen_op_i32_rotr"
  "keeps gen_op_i64_rotr" "keeps gen_op_i32_clz" "keeps gen_op_i32_ctz" "keeps gen_op_i32_popcnt"
  "keeps gen_op_i64_clz" "keeps gen_op_i64_ctz" "keeps gen_op_i64_popcnt" "keeps gen_op_i32_eq"
  "keeps gen_op_i64_eq" "keeps gen_op_i32_ne" "keeps gen_op_i64_ne" "keeps gen_op_i32_lt_s"
  "keeps gen_op_i64_lt_s" "keeps gen_op_i32_gt_s" "keeps gen_op_i64_gt_s" "keeps gen_op_i32_le_s"
  "keeps gen_op_i64_le_s" "keeps gen_op_i32_ge_s" "keeps gen_op_i64_ge_s" "keeps gen_op_i32_lt_u"
  "keeps gen_op_i64_lt_u" "keeps gen_op_i32_gt_u" "keeps gen_op_i64_gt_u" "keeps gen_op_i32_le_u"
  "keeps gen_op_i64_le_u" "keeps gen_op_i32_ge_u" "keeps gen_op_i64_ge_u" "keeps gen_op_i32_eqz"
  "keeps gen_op_i64_eqz" "keeps gen_op_i32_wrap_i64" "keeps gen_op_i64_extend_i32_s"
  "keeps gen_op_i64_extend_i32_u" "keeps gen_op_i32_extend8_s" "keeps gen_op_i32_extend16_s"
  "keeps gen_op_i64_extend8_s" "keeps gen_op_i64_extend16_s" "keeps gen_op_i64_extend32_s"
  "keeps gen_op_i32_reinterpret_f32" "keeps gen_op_i64_reinterpret_f64" "keeps gen_op_f32_reinterpret_i32"
  "keeps gen_op_f64_reinterpret_i64" "keeps gen_op_f32_neg" "keeps gen_op_f64_neg" "keeps gen_op_nop"
  "keeps gen_op_unreachable" "keeps gen_op_drop" "keeps gen_op_select" "keeps gen_op_select_t"
  unfolding keeps_def num_ops Let_def split_beta by (simp_all add: keep)

section \<open>Memories and tables\<close>

named_theorems keep_dest \<open>results of partial operations\<close>

lemma keep_write [keep_dest]: "mem_write vm mi ea bs = Some vm' \<Longrightarrow> ident vm' = ident vm"
  by (auto simp: mem_write_def Let_def keep split: option.splits if_splits)

lemma keep_stores [keep_dest]:
  "mem_store_i32 vm mi ea v = Some vm' \<Longrightarrow> ident vm' = ident vm" "mem_store_i8 vm mi ea v = Some vm' \<Longrightarrow> ident vm' = ident vm"
  "mem_store_i16 vm mi ea v = Some vm' \<Longrightarrow> ident vm' = ident vm" "mem_store_i64 vm mi ea w = Some vm' \<Longrightarrow> ident vm' = ident vm"
  "mem_store_f32 vm mi ea v = Some vm' \<Longrightarrow> ident vm' = ident vm" "mem_store_f64 vm mi ea w = Some vm' \<Longrightarrow> ident vm' = ident vm"
  "mem_store_i64_8 vm mi ea w = Some vm' \<Longrightarrow> ident vm' = ident vm" "mem_store_i64_16 vm mi ea w = Some vm' \<Longrightarrow> ident vm' = ident vm"
  "mem_store_i64_32 vm mi ea w = Some vm' \<Longrightarrow> ident vm' = ident vm" "mem_store_v128 vm mi ea s = Some vm' \<Longrightarrow> ident vm' = ident vm"
  by (auto simp: store_defs mem_store_v128_def dest: keep_write)

lemma keep_bulk [keep_dest]:
  "jav_memory_fill vm mi d v n = Some vm' \<Longrightarrow> ident vm' = ident vm"
  "jav_memory_copy vm mi mj d e n = Some vm' \<Longrightarrow> ident vm' = ident vm"
  "jav_memory_init vm mi seg d s32 n32 = Some vm' \<Longrightarrow> ident vm' = ident vm"
  by (auto simp: jav_memory_fill_def jav_memory_copy_def jav_memory_init_def Let_def keep bind_eq_Some_conv
      dest!: keep_write split: if_splits option.splits)

lemma keep_mem_natives [keep]:
  "ident (snd (mem_grow E vm mi n)) = ident vm" "ident (upd_ctx f vm) = ident vm" "ident (jav_data_drop vm seg) = ident vm"
  "ident (jav_elem_drop vm seg) = ident vm" "ident (set_table a t vm) = ident vm" "ident (jav_table_init vm tb seg d s32 n32) = ident vm"
  "ident (snd (snd (imm_memarg E vm))) = ident vm"
  by (auto simp: mem_grow_def upd_ctx_def jav_data_drop_def jav_elem_drop_def set_table_def jav_table_init_def
      imm_memarg_def Let_def split_beta keep split: option.split)

lemma keep_table_grow [keep_dest]: "jav_table_grow vm tb n v = Some (r, vm') \<Longrightarrow> ident vm' = ident vm"
  by (auto simp: jav_table_grow_def Let_def split_beta keep split: if_splits)

lemmas mem_ops =
  gen_op_i32_load_def gen_op_i64_load_def gen_op_f32_load_def gen_op_f64_load_def gen_op_i32_load8_s_def
  gen_op_i32_load8_u_def gen_op_i32_load16_s_def gen_op_i32_load16_u_def gen_op_i64_load8_s_def
  gen_op_i64_load8_u_def gen_op_i64_load16_s_def gen_op_i64_load16_u_def gen_op_i64_load32_s_def
  gen_op_i64_load32_u_def gen_op_v128_load_def gen_op_i32_store_def gen_op_i64_store_def gen_op_f32_store_def
  gen_op_f64_store_def gen_op_i32_store8_def gen_op_i32_store16_def gen_op_i64_store8_def
  gen_op_i64_store16_def gen_op_i64_store32_def gen_op_v128_store_def gen_op_memory_size_def
  gen_op_memory_grow_def gen_op_memory_fill_def gen_op_memory_copy_def gen_op_memory_init_def
  gen_op_data_drop_def gen_op_table_size_def gen_op_table_get_def gen_op_table_set_def gen_op_table_grow_def
  gen_op_table_fill_def gen_op_table_copy_def gen_op_table_init_def gen_op_elem_drop_def

lemma keep_mem [keep]:
  shows
  "keeps gen_op_i32_load" "keeps gen_op_i64_load" "keeps gen_op_f32_load" "keeps gen_op_f64_load"
  "keeps gen_op_i32_load8_s" "keeps gen_op_i32_load8_u" "keeps gen_op_i32_load16_s"
  "keeps gen_op_i32_load16_u" "keeps gen_op_i64_load8_s" "keeps gen_op_i64_load8_u"
  "keeps gen_op_i64_load16_s" "keeps gen_op_i64_load16_u" "keeps gen_op_i64_load32_s"
  "keeps gen_op_i64_load32_u" "keeps gen_op_v128_load" "keeps gen_op_i32_store" "keeps gen_op_i64_store"
  "keeps gen_op_f32_store" "keeps gen_op_f64_store" "keeps gen_op_i32_store8" "keeps gen_op_i32_store16"
  "keeps gen_op_i64_store8" "keeps gen_op_i64_store16" "keeps gen_op_i64_store32" "keeps gen_op_v128_store"
  "keeps gen_op_memory_size" "keeps gen_op_memory_grow" "keeps gen_op_memory_fill" "keeps gen_op_memory_copy"
  "keeps gen_op_memory_init" "keeps gen_op_data_drop" "keeps gen_op_table_size" "keeps gen_op_table_get"
  "keeps gen_op_table_set" "keeps gen_op_table_grow" "keeps gen_op_table_fill" "keeps gen_op_table_copy"
  "keeps gen_op_table_init" "keeps gen_op_elem_drop"
  unfolding keeps_def mem_ops Let_def split_beta by (auto simp: keep dest!: keep_dest split: option.split prod.split)

section \<open>References and managed objects\<close>

lemma keep_write_root [keep]: "ident (write_root r v vm) = ident vm"
  by (cases r) (simp_all add: write_root_def Let_def keep)

lemma keep_on_heap [keep_dest]: "on_heap E f vm = Some (p, vm') \<Longrightarrow> ident vm' = ident vm"
proof -
  have "ident (fold (\<lambda>(r, v). write_root r (word_of_nat v)) rvs vm) = ident vm" for rvs vm
    by (induction rvs arbitrary: vm) (simp_all add: split_beta keep)
  then show "on_heap E f vm = Some (p, vm') \<Longrightarrow> ident vm' = ident vm"
    by (auto simp: on_heap_def Let_def keep)
qed

lemma keep_or_trap [keep_dest]:
  "or_trap r = Some (q, vm') \<Longrightarrow> (\<And>p vm1. r = Some (p, vm1) \<Longrightarrow> ident vm1 = i) \<Longrightarrow> ident vm' = i"
  by (auto simp: or_trap_def keep split: option.splits)

lemma keep_allocs [keep_dest]:
  "vm_struct_alloc E ty vm = Some (q, vm') \<Longrightarrow> ident vm' = ident vm"
  "vm_array_alloc E ty n vm = Some (q, vm') \<Longrightarrow> ident vm' = ident vm"
  unfolding vm_struct_alloc_def vm_array_alloc_def by (erule keep_or_trap, erule keep_on_heap)+

lemma keep_set_cell [keep_dest]: "set_cell q off v vm = Some vm' \<Longrightarrow> ident vm' = ident vm"
  by (auto simp: set_cell_def keep split: if_splits)

lemma keep_store_any [keep_dest]: "store_any q off w v vm = Some vm' \<Longrightarrow> ident vm' = ident vm"
  by (auto simp: store_any_def bind_eq_Some_conv dest!: keep_set_cell split: if_splits)

lemma keep_sets [keep_dest]:
  "jav_struct_set_v ty fld q v vm = Some vm' \<Longrightarrow> ident vm' = ident vm"
  "jav_array_set_v ty q i v vm = Some vm' \<Longrightarrow> ident vm' = ident vm"
  "array_copy_elem dt d di st s si vm = Some vm' \<Longrightarrow> ident vm' = ident vm"
  "data_elem r bs q p i vm = Some vm' \<Longrightarrow> ident vm' = ident vm"
  by (auto simp: jav_struct_set_v_def jav_array_set_v_def array_copy_elem_def data_elem_def Let_def bind_eq_Some_conv
      dest!: keep_store_any keep_set_cell split: if_splits)

lemma keep_loops [keep_dest]:
  "down_loop f n vm = Some vm' \<Longrightarrow> (\<And>k s s'. f k s = Some s' \<Longrightarrow> ident s' = ident s) \<Longrightarrow> ident vm' = ident vm"
  "up_loop f ks vm = Some vm' \<Longrightarrow> (\<And>k s s'. f k s = Some s' \<Longrightarrow> ident s' = ident s) \<Longrightarrow> ident vm' = ident vm"
  subgoal by (induction f n vm rule: down_loop.induct) (auto simp: bind_eq_Some_conv)
  subgoal by (induction f ks vm rule: up_loop.induct) (auto simp: bind_eq_Some_conv)
  done

lemma keep_constructors [keep_dest]:
  "jav_struct_new_default E ty vm = Some (a, vm') \<Longrightarrow> ident vm' = ident vm"
  "jav_array_new_data E ty seg k n vm = Some (a, vm') \<Longrightarrow> ident vm' = ident vm"
  "jav_array_new_elem E ty seg k n vm = Some (a, vm') \<Longrightarrow> ident vm' = ident vm"
  "jav_array_init_data ty seg q d k n vm = Some vm' \<Longrightarrow> ident vm' = ident vm"
  "jav_array_init_elem seg q d k n vm = Some vm' \<Longrightarrow> ident vm' = ident vm"
  subgoal by (auto simp: jav_struct_new_default_def bind_eq_Some_conv split: if_splits dest!: keep_dest)
  subgoal by (auto simp: jav_array_new_data_def Let_def bind_eq_Some_conv keep split: if_splits dest!: keep_dest)
  subgoal by (auto simp: jav_array_new_elem_def Let_def bind_eq_Some_conv keep split: if_splits dest!: keep_dest)
  subgoal by (auto simp: jav_array_init_data_def Let_def keep split: if_splits dest!: keep_dest)
  subgoal by (auto simp: jav_array_init_elem_def Let_def keep split: if_splits dest!: keep_dest)
  done

lemmas ref_ops =
  gen_op_ref_null_def gen_op_ref_is_null_def gen_op_ref_as_non_null_def gen_op_ref_func_def
  gen_op_ref_i31_def gen_op_i31_get_s_def gen_op_i31_get_u_def gen_op_ref_eq_def
  gen_op_any_convert_extern_def gen_op_extern_convert_any_def gen_op_struct_new_def gen_op_struct_get_def
  gen_op_struct_set_def gen_op_struct_new_default_def gen_op_struct_get_s_def gen_op_struct_get_u_def
  gen_op_array_new_def gen_op_array_new_default_def gen_op_array_new_fixed_def gen_op_array_get_def
  gen_op_array_set_def gen_op_array_len_def gen_op_array_get_s_def gen_op_array_get_u_def
  gen_op_array_fill_def gen_op_array_copy_def gen_op_array_new_data_def gen_op_array_new_elem_def
  gen_op_array_init_data_def gen_op_array_init_elem_def
  struct_get_packed_def array_get_packed_def

lemma keep_ref [keep]:
  shows
  "keeps gen_op_ref_null" "keeps gen_op_ref_is_null" "keeps gen_op_ref_as_non_null" "keeps gen_op_ref_func"
  "keeps gen_op_ref_i31" "keeps gen_op_i31_get_s" "keeps gen_op_i31_get_u" "keeps gen_op_ref_eq"
  "keeps gen_op_any_convert_extern" "keeps gen_op_extern_convert_any" "keeps gen_op_struct_new"
  "keeps gen_op_struct_get" "keeps gen_op_struct_set" "keeps gen_op_struct_new_default"
  "keeps gen_op_struct_get_s" "keeps gen_op_struct_get_u" "keeps gen_op_array_new"
  "keeps gen_op_array_new_default" "keeps gen_op_array_new_fixed" "keeps gen_op_array_get"
  "keeps gen_op_array_set" "keeps gen_op_array_len" "keeps gen_op_array_get_s" "keeps gen_op_array_get_u"
  "keeps gen_op_array_fill" "keeps gen_op_array_copy" "keeps gen_op_array_new_data"
  "keeps gen_op_array_new_elem" "keeps gen_op_array_init_data" "keeps gen_op_array_init_elem"
  unfolding keeps_def ref_ops Let_def split_beta
  by (auto simp: keep keeps_opt_def bind_eq_Some_conv dest!: keep_dest)

section \<open>Control and exceptions\<close>

lemma keep_transfer: "opgen_do_transfer vm = Some vm' \<Longrightarrow> ident vm' = ident vm"
proof -
  have "ident (fold (\<lambda>i. move_slot (d + word_of_nat i) (e + word_of_nat i)) is vm) = ident vm" for d e "is" vm
    by (induction "is" arbitrary: vm) (simp_all add: move_slot_def keep)
  then show "opgen_do_transfer vm = Some vm' \<Longrightarrow> ident vm' = ident vm"
    by (auto simp: opgen_do_transfer_def Let_def keep split: if_splits)
qed

lemma keep_transfer_out [keep]: "ident vm = i \<Longrightarrow> keeps_out i (transfer vm)"
  by (auto simp: transfer_def keep keeps_opt_def dest: keep_transfer)

text \<open>Handlers of the current call stand above the base.\<close>

lemma keep_pop_handler:
  assumes "vm_handlers vm \<noteq> []" "hd_call_depth (last (vm_handlers vm)) = vm_call_depth vm"
  shows "ident (vm\<lparr>vm_handlers := butlast (vm_handlers vm)\<rparr>) = ident vm"
proof -
  obtain hs h where "vm_handlers vm = hs @ [h]" using assms(1) by (metis append_butlast_last_id)
  then show ?thesis using assms(2) by (simp add: ident_def base_handlers_def below_def)
qed

lemma keep_push_handler:
  "hd_call_depth h = vm_call_depth vm \<Longrightarrow> ident (vm\<lparr>vm_handlers := vm_handlers vm @ [h]\<rparr>) = ident vm"
  by (simp add: ident_def base_handlers_def below_def)

lemma drop_handlers_eq: "drop_handlers vm = vm\<lparr>vm_handlers := base_handlers vm\<rparr>"
  by (simp add: drop_handlers_def base_handlers_def below_def)

lemma below_below: "d \<le> e \<Longrightarrow> below d (below e hs) = below d hs"
proof -
  assume "d \<le> e"
  then have "dropWhile (\<lambda>h. d \<le> hd_call_depth h) (dropWhile (\<lambda>h. e \<le> hd_call_depth h) xs) =
      dropWhile (\<lambda>h. d \<le> hd_call_depth h) xs" for xs
    by (induction xs) auto
  then show ?thesis by (simp add: below_def)
qed

lemma keep_drop_handlers [keep]: "ident (drop_handlers vm) = ident vm"
  by (simp add: drop_handlers_eq ident_def base_handlers_def below_below)

lemma keep_prune [keep]: "ident (prune_handlers pc vm) = ident vm"
proof (induction pc vm rule: prune_handlers.induct)
  case (1 pc vm)
  then show ?case
    by (subst prune_handlers.simps) (auto simp: Let_def keep_pop_handler)
qed

lemma keep_push_exn [keep]: "ident (push_exn_fields ob vm) = ident vm"
proof -
  have "ident (fold (\<lambda>k. gpush_word (exn_field ob k) (exn_ftype ob k)) ks vm) = ident vm" for ks vm
    by (induction ks arbitrary: vm) (simp_all add: keep)
  then show ?thesis by (simp add: push_exn_fields_def)
qed

lemma keep_catch_loop [keep_dest]: "catch_loop E exn vm = Some vm' \<Longrightarrow> ident vm' = ident vm"
proof (induction E exn vm rule: catch_loop.induct)
  case (1 E exn vm)
  show ?case
  proof (cases "vm_handlers vm = [] \<or> hd_call_depth (last (vm_handlers vm)) \<noteq> vm_call_depth vm")
    case True
    then show ?thesis using 1(2) by (subst (asm) catch_loop.simps) (auto simp: Let_def keep)
  next
    case False
    let ?vm = "vm\<lparr>vm_handlers := butlast (vm_handlers vm)\<rparr>"
    have pop: "ident ?vm = ident vm" using False by (intro keep_pop_handler) auto
    show ?thesis
      using 1(2) False 1(1) [OF refl refl refl False refl refl] pop
      by (subst (asm) catch_loop.simps) (auto simp: Let_def keep split: option.splits prod.splits if_splits dest!: keep_transfer)
  qed
qed

lemma keep_throw [keep_dest]: "do_throw E exn vm = Some vm' \<Longrightarrow> ident vm' = ident vm"
  by (auto simp: do_throw_def keep dest!: keep_catch_loop split: if_splits simp del: prune_handlers.simps catch_loop.simps)

lemma keep_exn_alloc [keep_dest]: "jav_exn_alloc_for_throw E tag vm = Some (q, vm') \<Longrightarrow> ident vm' = ident vm"
  by (auto simp: jav_exn_alloc_for_throw_def Let_def split_beta keep split: if_splits
      elim!: keep_or_trap [where i = "ident vm"] dest!: keep_on_heap)

lemma keep_skips [keep]: "ident (skip_catches E n vm) = ident vm" "ident (snd (imm_blocktype E vm)) = ident vm"
  subgoal by (induction E n vm rule: skip_catches.induct) (simp_all add: Let_def split_beta keep)
  subgoal by (simp add: imm_blocktype_def Let_def split_beta keep)
  done

lemma keep_skip_labels [keep_dest]: "skip_labels E i n vm = Some vm' \<Longrightarrow> ident vm' = ident vm"
  by (erule skip_labels.raw_induct [where P = "\<lambda>E i n vm vm'. ident vm' = ident vm", rotated])
    (auto simp: keep split: if_splits)

lemma keep_tail [keep]: "ident (jav_tail_invoke_ref r vm) = ident vm" "ident (next_stp vm) = ident vm"
  by (simp_all add: jav_tail_invoke_ref_def next_stp_def keep)

lemmas call_ops =
  gen_op_block_def gen_op_loop_def gen_op_if_def gen_op_else_def gen_op_end_def gen_op_br_def
  gen_op_br_if_def gen_op_br_table_def gen_op_return_def gen_op_br_on_null_def gen_op_br_on_non_null_def
  gen_op_call_def gen_op_return_call_def gen_op_call_indirect_def gen_op_return_call_indirect_def
  gen_op_call_ref_def gen_op_return_call_ref_def gen_op_throw_def gen_op_throw_ref_def gen_op_try_table_def
  indirect_target_def ref_target_def

lemma keep_call [keep]:
  shows
  "keeps gen_op_block" "keeps gen_op_loop" "keeps gen_op_if" "keeps gen_op_else" "keeps gen_op_end"
  "keeps gen_op_br" "keeps gen_op_br_if" "keeps gen_op_br_table" "keeps gen_op_return"
  "keeps gen_op_br_on_null" "keeps gen_op_br_on_non_null" "keeps gen_op_call" "keeps gen_op_return_call"
  "keeps gen_op_call_indirect" "keeps gen_op_return_call_indirect" "keeps gen_op_call_ref"
  "keeps gen_op_return_call_ref" "keeps gen_op_throw" "keeps gen_op_throw_ref" "keeps gen_op_try_table"
  unfolding keeps_def call_ops Let_def split_beta
  by (auto simp: keep keeps_opt_def bind_eq_Some_conv keep_push_handler dest!: keep_dest
      split: option.splits if_splits simp del: prune_handlers.simps)

section \<open>The dispatch tables\<close>

text \<open>What the handlers and functions outside the model are relied on for: they keep what belongs to the caller.\<close>

definition env_keeps :: "ienv \<Rightarrow> bool" where
  "env_keeps E \<longleftrightarrow>
     (\<forall>op sub vm. keeps_out (ident vm) (ie_other E op sub vm)) \<and>
     (\<forall>i vm st vm'. ie_invoke E i vm = Some (st, vm') \<longrightarrow> fst (ident vm') = fst (ident vm) \<and> fst (snd (ident vm')) = fst (snd (ident vm)))"

lemma tables_keep:
  "list_all (\<lambda>e. keeps (snd e)) gen_dispatch_main" "list_all (\<lambda>e. keeps (snd e)) gen_sub_fb"
  "list_all (\<lambda>e. keeps (snd e)) gen_sub_fc" "list_all (\<lambda>e. keeps (snd e)) gen_sub_fd"
  unfolding gen_dispatch_main_def gen_sub_fb_def gen_sub_fc_def gen_sub_fd_def by (simp_all add: keep)

lemma lookup_keeps:
  assumes "list_all (\<lambda>e. keeps (snd e)) tab" "\<And>vm. keeps_out (ident vm) (other vm)"
  shows "keeps_out (ident vm) (lookup_handler tab others other k E vm)"
proof (cases "map_of tab k")
  case None
  then show ?thesis using assms(2) by (simp add: lookup_handler_def)
next
  case (Some h)
  then have "keeps h" using assms(1) map_of_SomeD by (force simp: list_all_iff)
  then show ?thesis using Some by (simp add: lookup_handler_def keeps_def)
qed

lemma dispatch_keeps: "env_keeps E \<Longrightarrow> keeps_out (ident vm) (gen_dispatch op E vm)"
proof -
  assume "env_keeps E"
  then have other: "\<And>op sub vm. keeps_out (ident vm) (ie_other E op sub vm)" by (simp add: env_keeps_def)
  have u: "ident (snd (imm_u32 E vm)) = ident vm" by (simp add: keep)
  note sub = lookup_keeps [OF _ other, of _ "snd (imm_u32 E vm)", unfolded u]
  show ?thesis
    unfolding gen_dispatch_def gen_dispatch_fb_def gen_dispatch_fc_def gen_dispatch_fd_def Let_def split_beta
    by (simp add: lookup_keeps [OF tables_keep(1) other] sub [OF tables_keep(2)] sub [OF tables_keep(3)] sub [OF tables_keep(4)])
qed

lemma dispatch_out:
  assumes "env_keeps E"
  shows "gen_dispatch op E vm = Next vm' \<Longrightarrow> ident vm' = ident vm"
    "gen_dispatch op E vm = Trapped vm' \<Longrightarrow> ident vm' = ident vm"
    "gen_dispatch op E vm = Invoke fn vm' \<Longrightarrow> ident vm' = ident vm"
  using dispatch_keeps [OF assms, of vm op] by auto

section \<open>Calls\<close>

lemma keep_run_reset [keep]: "ident (run_reset vm) = ident vm" "ident (stop_frame vm) = ident vm"
  by (simp_all add: run_reset_def stop_frame_def keep)

lemma keep_init_locals: "ident (init_locals saved F src vm) = ident vm"
proof -
  have "ident (fold (\<lambda>i vm. vm\<lparr>vm_locals_store := (vm_locals_store vm)(b + i := vm_value_stack vm (src + i)),
      vm_local_type_store := (vm_local_type_store vm)(b + i := vm_value_types vm (src + i))\<rparr>) is vm) = ident vm"
    "ident (fold (\<lambda>i vm. vm\<lparr>vm_locals_store := (vm_locals_store vm)(b + i := set_slot_l 0 (vm_locals_store vm (b + i))),
      vm_local_type_store := (vm_local_type_store vm)(b + i := T_VOID)\<rparr>) is vm) = ident vm" for b "is" vm
    by (induction "is" arbitrary: vm) (simp_all add: keep)
  then show ?thesis by (simp add: init_locals_def Let_def)
qed

lemma keep_slide [keep]: "ident (slide_results base sp n vm) = ident vm"
proof -
  have "ident (fold (\<lambda>i vm. put_slot (base + i) (vm_value_stack vm (base + (sp - n) + i))
      (vm_value_types vm (base + (sp - n) + i)) vm) is vm) = ident vm" for "is" vm
    by (induction "is" arbitrary: vm) (simp_all add: keep)
  then show ?thesis by (cases "n < sp") (simp_all only: slide_results_def if_True if_False)
qed

text \<open>The identity of the caller, one call below the current one.\<close>

definition caller_id :: "frame \<Rightarrow> vm \<Rightarrow> u32 \<times> jav_handler list \<times> frame" where
  "caller_id saved vm =
     (vm_call_depth vm - 1, below (vm_call_depth vm - 1) (base_handlers vm), frame_id saved)"

lemma caller_id_cong:
  "fst (ident vm) = fst (ident vm') \<Longrightarrow> fst (snd (ident vm)) = fst (snd (ident vm')) \<Longrightarrow> caller_id saved vm = caller_id saved vm'"
  by (simp add: caller_id_def ident_def)

lemma enter_frame_caller: "caller_id saved (enter_frame saved' F src loaded vm) = caller_id saved vm"
proof (rule caller_id_cong)
  have "fst (ident (enter_frame saved' F src loaded vm)) = fst (ident (init_locals saved' F src vm))"
    "fst (snd (ident (enter_frame saved' F src loaded vm))) = fst (snd (ident (init_locals saved' F src vm)))"
    by (simp_all add: enter_frame_def Let_def ident_def base_handlers_def)
  then show "fst (ident (enter_frame saved' F src loaded vm)) = fst (ident vm)"
    "fst (snd (ident (enter_frame saved' F src loaded vm))) = fst (snd (ident vm))"
    by (simp_all add: keep_init_locals)
qed

lemma leave_call_caller:
  assumes "leave_call E fn saved st vm = Some (st', vm')"
  shows "ident vm' = caller_id saved vm"
proof -
  have c: "ident ((drop_handlers vm)\<lparr>vm_call_depth := vm_call_depth vm - 1, vm_frame := saved\<rparr>) = caller_id saved vm"
    by (simp add: drop_handlers_eq ident_def caller_id_def base_handlers_def)
  have d: "vm_call_depth (drop_handlers vm) = vm_call_depth vm" by (simp add: drop_handlers_eq)
  show ?thesis
    using assms unfolding leave_call_def Let_def d
    by (auto simp: keep c dest!: keep_throw split: if_splits)
qed

text \<open>What a job that ends leaves: running and calling keep the identity, a call entered gives the caller's back.\<close>

fun job_result :: "job \<Rightarrow> vm \<Rightarrow> u32 \<times> jav_handler list \<times> frame" where
  "job_result Run vm = ident vm"
| "job_result (Call fn) vm = ident vm"
| "job_result (Enter fn src saved loaded) vm = caller_id saved vm"

lemma call_caller:
  assumes "vm_call_depth vm < depth_limit vm"
  shows "caller_id (vm_frame vm) (vm\<lparr>vm_call_depth := vm_call_depth vm + 1\<rparr>) = ident vm"
proof -
  have "depth_limit vm \<le> MAX_CALL_DEPTH" by (simp add: depth_limit_def Let_def not_less)
  then have "unat (vm_call_depth vm) < 4096"
    using assms by (simp add: MAX_CALL_DEPTH_def word_less_nat_alt word_le_nat_alt)
  then have "vm_call_depth vm \<le> vm_call_depth vm + 1" by (simp add: word_le_nat_alt unat_word_ariths)
  then show ?thesis by (simp add: caller_id_def ident_def base_handlers_def below_below)
qed

lemma bind_Some: "Option.bind r f = Some y \<Longrightarrow> \<exists>x. r = Some x \<and> f x = Some y"
  by (auto simp: bind_eq_Some_conv)

lemma exec_result:
  "exec E j vm = Some r \<Longrightarrow> env_keeps E \<Longrightarrow> ident (snd r) = job_result j vm"
proof (induction E j vm r rule: exec.raw_induct [rotated, consumes 1, case_names step])
  case (step exec' E j vm r)
  note IH = step(1) and body = step(2) and env = step(3)
  show ?case
  proof (cases j)
    case Run
    show ?thesis
      using body unfolding Run job.case Let_def split_beta
      by (auto simp: keep env split: if_splits vm_out.splits dest!: bind_Some dispatch_out [OF env] IH)
  next
    case (Call fn)
    show ?thesis
      using body unfolding Call job.case
      by (auto simp: keep env call_caller not_le split: if_splits dest!: IH)
  next
    case (Enter fn src saved loaded)
    let ?F = "ie_func E fn" and ?vm = "enter_frame saved (ie_func E fn) src loaded vm"
    show ?thesis
    proof (cases "frame_limit saved ?F")
      case (Some l)
      then show ?thesis
        using body leave_call_caller [of E fn saved JAV_TRAP "vm\<lparr>vm_exhausted := Some l\<rparr>" "fst r" "snd r"]
        unfolding Enter job.case by (simp add: Let_def caller_id_def base_handlers_def)
    next
      case None
      obtain st vm1 where run: "(case fn_invoke ?F of None \<Rightarrow> exec' E Run (run_reset ?vm) | Some i \<Rightarrow> ie_invoke E i ?vm) = Some (st, vm1)"
        and rest: "(if st = JAV_TRAP \<or> vm_unwinding vm1 \<or> \<not> vm_tail_pending vm1 then leave_call E fn saved st vm1
          else exec' E (Enter (if vm_tail_fn vm1 \<noteq> 0 then vm_tail_fn vm1 else func_at (vm_ctx vm1) (vm_tail_func vm1))
            (base_stack saved + unat (vm_sp (drop_handlers vm1))) saved (fr_ctx (vm_frame ?vm))) (drop_handlers vm1)) = Some r"
        using body unfolding Enter job.case Let_def None option.case
        by (auto dest!: bind_Some)
      have "fst (ident vm1) = fst (ident ?vm)" "fst (snd (ident vm1)) = fst (snd (ident ?vm))"
        using run env by (auto simp: keep env_keeps_def split: option.splits dest!: IH)
      then have vm1: "caller_id saved vm1 = caller_id saved vm"
        using caller_id_cong enter_frame_caller by metis
      have "caller_id saved (drop_handlers vm1) = caller_id saved vm1"
        by (rule caller_id_cong) (simp_all add: keep)
      then show ?thesis
        using rest vm1 env leave_call_caller [of E fn saved st vm1 "fst r" "snd r"] Enter
        by (auto split: if_splits dest!: IH)
    qed
  qed
qed



section \<open>The frame of a call\<close>

lemma fold_locals:
  assumes "\<And>i vm. f i vm = vm\<lparr>vm_locals_store := (vm_locals_store vm)(b + i := g i vm), vm_local_type_store := (vm_local_type_store vm)(b + i := t i vm)\<rparr>"
    and "\<And>i vm vm'. vm_value_stack vm = vm_value_stack vm' \<and> vm_value_types vm = vm_value_types vm' \<and>
      vm_locals_store vm (b + i) = vm_locals_store vm' (b + i) \<Longrightarrow> g i vm = g i vm' \<and> t i vm = t i vm'"
    and "m \<le> n"
  shows "vm_locals_store (fold f [m..<n] vm) j = (if b + m \<le> j \<and> j < b + n then g (j - b) vm else vm_locals_store vm j) \<and>
    vm_local_type_store (fold f [m..<n] vm) j = (if b + m \<le> j \<and> j < b + n then t (j - b) vm else vm_local_type_store vm j) \<and>
    vm_value_stack (fold f [m..<n] vm) = vm_value_stack vm \<and> vm_value_types (fold f [m..<n] vm) = vm_value_types vm"
  using assms(3)
proof (induction n arbitrary: j rule: dec_induct)
  case base
  then show ?case by auto
next
  case (step n)
  let ?vm = "fold f [m..<n] vm"
  have "g n ?vm = g n vm \<and> t n ?vm = t n vm" using step.IH by (intro assms(2)) simp
  then show ?case using step by (auto simp: assms(1) [of n ?vm])
qed

lemma init_locals_eq:
  fixes saved F src vm
  defines "b \<equiv> base_locals saved" and "np \<equiv> unat (fn_num_params F)" and "nl \<equiv> unat (frame_nlocals F)"
  assumes "np \<le> nl"
  shows "vm_locals_store (init_locals saved F src vm) j =
      (if b \<le> j \<and> j < b + np then vm_value_stack vm (src + (j - b))
       else if b + np \<le> j \<and> j < b + nl then set_slot_l 0 (vm_locals_store vm j) else vm_locals_store vm j)"
    "vm_local_type_store (init_locals saved F src vm) j =
      (if b \<le> j \<and> j < b + np then vm_value_types vm (src + (j - b))
       else if b + np \<le> j \<and> j < b + nl then T_VOID else vm_local_type_store vm j)"
proof -
  let ?f = "\<lambda>i vm. vm\<lparr>vm_locals_store := (vm_locals_store vm)(b + i := vm_value_stack vm (src + i)),
      vm_local_type_store := (vm_local_type_store vm)(b + i := vm_value_types vm (src + i))\<rparr>"
  let ?z = "\<lambda>i vm. vm\<lparr>vm_locals_store := (vm_locals_store vm)(b + i := set_slot_l 0 (vm_locals_store vm (b + i))),
      vm_local_type_store := (vm_local_type_store vm)(b + i := T_VOID)\<rparr>"
  have params: "vm_locals_store (fold ?f [0..<np] vm) j =
      (if b + 0 \<le> j \<and> j < b + np then vm_value_stack vm (src + (j - b)) else vm_locals_store vm j) \<and>
    vm_local_type_store (fold ?f [0..<np] vm) j =
      (if b + 0 \<le> j \<and> j < b + np then vm_value_types vm (src + (j - b)) else vm_local_type_store vm j) \<and>
    vm_value_stack (fold ?f [0..<np] vm) = vm_value_stack vm \<and> vm_value_types (fold ?f [0..<np] vm) = vm_value_types vm" for j
    by (rule fold_locals) simp_all
  have rest: "vm_locals_store (fold ?z [np..<nl] w) j =
      (if b + np \<le> j \<and> j < b + nl then set_slot_l 0 (vm_locals_store w (b + (j - b))) else vm_locals_store w j) \<and>
    vm_local_type_store (fold ?z [np..<nl] w) j = (if b + np \<le> j \<and> j < b + nl then T_VOID else vm_local_type_store w j) \<and>
    vm_value_stack (fold ?z [np..<nl] w) = vm_value_stack w \<and> vm_value_types (fold ?z [np..<nl] w) = vm_value_types w" for j w
    by (rule fold_locals) (use assms(4) in simp_all)
  have eq: "init_locals saved F src vm = fold ?z [np..<nl] (fold ?f [0..<np] vm)"
    by (simp add: init_locals_def b_def np_def nl_def Let_def)
  show "vm_locals_store (init_locals saved F src vm) j =
      (if b \<le> j \<and> j < b + np then vm_value_stack vm (src + (j - b))
       else if b + np \<le> j \<and> j < b + nl then set_slot_l 0 (vm_locals_store vm j) else vm_locals_store vm j)"
    "vm_local_type_store (init_locals saved F src vm) j =
      (if b \<le> j \<and> j < b + np then vm_value_types vm (src + (j - b))
       else if b + np \<le> j \<and> j < b + nl then T_VOID else vm_local_type_store vm j)"
    unfolding eq using params [of j] rest [of "fold ?f [0..<np] vm" j] by simp_all
qed

text \<open>C8. A frame that passes the guards lies inside the pools, above the operands and the locals of its caller;
  its first locals are the arguments with their tags, no local of another frame changes, and of every other
  local of its own the tag and the low half are cleared, but the upper half, which a vector local reads,
  is what an earlier call left there.\<close>

theorem call_frame_spec:
  fixes saved F src loaded vm
  defines "vm' \<equiv> enter_frame saved F src loaded vm" and "b \<equiv> base_locals saved"
    and "np \<equiv> unat (fn_num_params F)" and "nl \<equiv> unat (frame_nlocals F)"
  assumes "frame_limit saved F = None" "np + unat (fn_num_locals F) < 2 ^ 32"
  shows "fr_stack (vm_frame vm') = base_stack saved \<and> vm_sp vm' = 0 \<and> base_stack saved + MAX_STACK \<le> POOL_SLOTS \<and>
    fr_locals (vm_frame vm') = b \<and> nl = np + unat (fn_num_locals F) \<and> b + nl \<le> POOL_SLOTS \<and> nl \<le> 1024 \<and>
    (\<forall>i < np. vm_locals_store vm' (b + i) = vm_value_stack vm (src + i) \<and> vm_local_type_store vm' (b + i) = vm_value_types vm (src + i)) \<and>
    (\<forall>i. np \<le> i \<and> i < nl \<longrightarrow> vm_local_type_store vm' (b + i) = T_VOID \<and> sl_lo (vm_locals_store vm' (b + i)) = 0 \<and>
       sl_hi (vm_locals_store vm' (b + i)) = sl_hi (vm_locals_store vm (b + i))) \<and>
    (\<forall>j. j < b \<or> b + nl \<le> j \<longrightarrow> vm_locals_store vm' j = vm_locals_store vm j \<and> vm_local_type_store vm' j = vm_local_type_store vm j)"
proof -
  have nl: "nl = np + unat (fn_num_locals F)"
    using assms(6) by (simp add: nl_def np_def frame_nlocals_def unat_word_ariths)
  have lim: "base_stack saved + MAX_STACK \<le> POOL_SLOTS" "b + nl \<le> POOL_SLOTS" "nl \<le> 1024"
    using assms(5) by (auto simp: frame_limit_def b_def nl_def MAX_LOCALS_def word_le_nat_alt not_less split: if_splits)
  have store: "vm_locals_store vm' = vm_locals_store (init_locals saved F src vm)"
    "vm_local_type_store vm' = vm_local_type_store (init_locals saved F src vm)"
    "fr_stack (vm_frame vm') = base_stack saved" "vm_sp vm' = 0" "fr_locals (vm_frame vm') = b"
    by (simp_all add: vm'_def enter_frame_def Let_def b_def)
  have "np \<le> nl" using nl by simp
  note eq = init_locals_eq [of F saved src vm, folded b_def np_def nl_def, OF this]
  show ?thesis using nl lim by (simp add: store eq set_slot_l_def)
qed

lemma call_frame_spec_witness:
  "sl_hi (vm_locals_store (enter_frame (demo_frame [] 0) ((ie_func demo_ienv 0)\<lparr>fn_num_locals := 1\<rparr>) 0 0
     ((demo_vm [] [] False)\<lparr>vm_locals_store := (\<lambda>_. \<lparr>sl_lo = 5, sl_hi = 6\<rparr>)\<rparr>)) 0) = 6"
proof -
  let ?F = "(ie_func demo_ienv 0)\<lparr>fn_num_locals := 1\<rparr>"
  let ?vm = "(demo_vm [] [] False)\<lparr>vm_locals_store := (\<lambda>_. \<lparr>sl_lo = 5, sl_hi = 6\<rparr>)\<rparr>"
  have "frame_limit (demo_frame [] 0) ?F = None"
    by (simp add: frame_limit_def demo_eval base_stack_def base_locals_def frame_nlocals_def POOL_SLOTS_def MAX_LOCALS_def)
  from call_frame_spec [OF this, of 0 0 ?vm] show ?thesis
    by (simp add: demo_ienv_def demo_frame_def base_locals_def frame_nlocals_def)
qed

section \<open>Exception layouts\<close>


end
