(* ===== verification/Spec2Isabelle.thy ===== *)
theory Spec2Isabelle
  imports Utf8 ValidatorEdge ModuleCanonSpec GcAlloc JBoundRules VmTabRules VmRefRules VmCallRules
begin

text \<open>
  Verification of the engine core of javelina, a WebAssembly 3.0 engine in C.

  The program.  A module's bytes are read by a generated reader into a capture tree, decoded into
  flat index arrays (\<open>wasm/src/jav_module_index.c\<close>), checked as a module
  (\<open>jav_module_validate.c\<close>) and body by body (\<open>validate.c\<close>), and then run by an interpreter or a
  stencil JIT whose opcode bodies are generated.  Managed objects live in a moving collector
  (\<open>immix/jav_gc.c\<close>) over an Immix heap (\<open>immix/immix_*.c\<close>).  A Java compiler under \<open>compiler/\<close>
  is a test instrument of the engine.  The development models what decides whether untrusted input
  is accepted and whether memory is safe: the validator, the type system behind it, and the heap.

  Theories and sources (paths under \<open>src/wasm/src/\<close>).

  \<^item> \<open>Prelude\<close>: machine-integer types, rule collections and generic lemmas; no code.
  \<^item> \<open>Utf8\<close>: \<open>jav_utf8.c\<close>, the scanner of names.  It accepts exactly the concatenations of
    encodings of Unicode scalar values.
  \<^item> \<open>Subtype\<close>: \<open>jav_subtype.c\<close>, heap and reference subtyping.  The C decision procedure decides the
    declarative relation, is transitive, and returns on the lattices a validated module has; a
    supertype chain that never ends is the value \<open>None\<close>.  The locale \<open>subtyping\<close> is the interface
    its clients use.
  \<^item> \<open>Vtypes\<close>, \<open>OpTables\<close>: value types, error codes and the generated tables \<open>gen/jav_type_meta.h\<close>,
    \<open>gen/jav_jit_meta.h\<close>, row by row without the stencil columns.
  \<^item> \<open>TcState\<close>, \<open>TcControl\<close>, \<open>TcMem\<close>, \<open>TcOps\<close>, \<open>TcGc\<close>, \<open>Typecheck\<close>: \<open>validate.c\<close>.  The record \<open>tcst\<close>
    is \<open>tc_state_t\<close> with its stacks as lists (last element on top), \<open>venv\<close> the constant context and
    the reader; one handler per opcode group, \<open>tc_step\<close> the body of the loop, \<open>jav_typecheck_ex\<close>
    the whole check with the side-table post-pass.
  \<^item> \<open>TcFrame\<close>, \<open>TcHandlers\<close>, \<open>TcInv\<close>, \<open>TcControlInv\<close>, \<open>TcWalk\<close>: the invariant \<open>tc_inv\<close> (stack heights,
    indices held by frames, sorted branch positions, initialisation flags) and its preservation by
    every handler; termination of the walk.
  \<^item> \<open>TcSpec\<close>, \<open>Validator\<close>, \<open>ValidatorRules\<close>, \<open>ValidatorEdge\<close>: what an accepted body guarantees (side
    table, memory access, calls, locals, \<open>end\<close>), and the inputs on which the code departs from the
    specification.
  \<^item> \<open>ModuleTypes\<close>, \<open>ModuleTypesRules\<close>: the type-section part of \<open>jav_module_validate.c\<close> over the flat
    index: limits, closed types, declared supertypes and the structural match.
  \<^item> \<open>PrefixCode\<close>, \<open>ModuleCanon\<close>, \<open>ModuleCanonForm\<close>, \<open>ModuleCanonRules\<close>, \<open>ModuleCanonSpec\<close>: canonicalization
    of recursive type groups in \<open>jav_module_index.c\<close>.  The serialization is a prefix code (locale
    \<open>prefix_code\<close>), canonical ids refine equality of closed types, and an accepted type section
    yields the lattice that \<open>Subtype\<close> assumes.
  \<^item> \<open>ImxLineMap\<close>, \<open>ImxBlock\<close>, \<open>ImxSpace\<close>, \<open>ImxEvac\<close>: the heap, \<open>immix_line_map.c\<close>, \<open>immix_block.c\<close>,
    \<open>immix_block_allocator.c\<close> and \<open>immix_space.c\<close>.  Bitmaps are lists of bytes, the in-band headers a
    map from block addresses to \<open>imx_block\<close>, \<open>imx_space\<close> the allocator's state.
  \<^item> \<open>ImxLineMapRules\<close>, \<open>ImxBlockRules\<close>, \<open>ImxSpaceRules\<close>, \<open>ImxReclaim\<close>, \<open>ImxCycle\<close>, \<open>ImxEvacRules\<close>: bitmaps
    as finite sets (locale \<open>bit_set\<close>, interpreted twice), the hole search, the invariant \<open>heap_ok\<close>
    that keeps the bytes in use apart from the bytes the allocator can still hand out, a step
    relation of allocations and collections with its reachable states, and evacuation.
  \<^item> \<open>GcModel\<close>: the collector, \<open>immix/jav_gc.c\<close>, and the object constructors of \<open>jav_runtime.c\<close>.  The
    memory of objects is a map from addresses to \<open>gc_obj\<close> (header, length word, pointer-sized cells by
    byte offset), the roots the contents of the slots that the embedder enumerates, \<open>gc_heap\<close> the
    collector's state over an \<open>imx_space\<close>.
  \<^item> \<open>GcSpace\<close>, \<open>GcTrace\<close>, \<open>GcVerify\<close>, \<open>GcCollect\<close>, \<open>GcAlloc\<close>: the space during a collection; the
    invariant of the trace (every object is as it was, or marked and found at its new address); the
    exactness of the heap checker; a collection as an isomorphism of the object graph; allocation with
    its collections, the constructors, and what happens when the size of an array wraps.

  \<^item> \<open>JBound\<close>, \<open>JBoundRules\<close>: the wrap-around arithmetic \<open>jint.h\<close> and the intervals \<open>jbound.h\<close> that the
    Java compiler's optimiser reasons with (under \<open>src/compiler/include/javelina/compiler/\<close>); every
    interval operation contains the results of the machine operation.
  \<^item> \<open>Vm\<close>: the machine of the interpreter, \<open>jav_frame.h\<close> with the value model and stack macros of
    \<open>gen/runtime_api.h\<close> and \<open>gen/gen_interp.c\<close>.  The record \<open>vm\<close> is \<open>vm_t\<close> with the stores it reaches, \<open>ienv\<close>
    what the interpreter calls and the development does not model, \<open>vm_out\<close> the end of a handler.
  \<^item> \<open>VmNum\<close>, \<open>VmMem\<close>, \<open>VmRef\<close>, \<open>VmCall\<close>: the handlers of \<open>gen/gen_interp.c\<close>, one definition \<open>gen_op_<name>\<close>
    each, with the natives of \<open>jav_mem.h\<close>, \<open>jav_frame.h\<close> and \<open>jav_runtime.c\<close> they call.
  \<^item> \<open>Interp\<close>: the dispatch tables, the call sequence \<open>jav_call_fn\<close> and the loop of \<open>interp.c\<close>, one
    recursion \<open>exec\<close> over jobs.
  \<^item> \<open>IntSpec\<close>, \<open>VmRules\<close>: the numeric semantics of the WebAssembly specification on mathematical
    integers, and the integer instructions of the interpreter against it.
  \<^item> \<open>VmDemo\<close>: a small machine on which properties of the interpreter are applied.
  \<^item> \<open>VmMemRules\<close>, \<open>VmTabRules\<close>, \<open>VmRefRules\<close>: loads, stores, growth and bulk operations of memories
    against byte lists with unbounded addresses; the loops of tables; the layout of structure types, the
    access to fields, references to integers, and what the collector sees of the operand stack.
  \<^item> \<open>VmCallRules\<close>: every handler keeps what belongs to the caller (\<open>ident\<close>), by the dispatch tables; hence a call
    that ends gives its caller back, by induction on \<open>exec\<close>; the frame of a call; exception layouts.

  Conventions.  A C struct is a record, an enumeration a datatype, an array a list (or a total
  function where the code never bounds it), a vector a list that grows at its end.  Fixed-width
  integers are words where wrap-around can matter and \<open>nat\<close> or \<open>int\<close> where the code bounds them.
  Addresses are natural numbers, null is 0, and masks by powers of two are remainders.  A result of
  \<open>None\<close> is a failed assertion, a read outside an array, or a loop that does not end; error codes
  and null results are ordinary values.

  Bounds and fuel.  Loops are structural recursion, recursion with a measure, or
  \<open>partial_function (option)\<close> where the code may diverge; no definition carries fuel.  Every loop of
  the last kind has a theorem that it returns under stated conditions or one that it diverges.

  Hypotheses on external code.  The byte and LEB128 readers (\<open>bbq_runtime\<close>, a submodule) are a
  parameter of the validator: \<open>reader_ok\<close> says that a one-byte read returns the next byte or fails
  at the end of the input without moving, and that no read moves the cursor back or past the end.
  \<open>aligned_alloc\<close> is a parameter of the heap:
  \<open>os_ok\<close> says that a new block is aligned, not null and not one of the blocks still allocated.
  \<open>gc_env\<close> adds, for \<open>aligned_alloc\<close> and \<open>malloc\<close> under the collector, that new storage is aligned, not
  null, and overlaps neither the blocks nor the large objects of the heap.  \<open>gc_inv\<close> is the contract
  between the collector and the mutator: the roots and the references in objects are null, unaligned
  immediates, or addresses of objects of the heap; a collection and every constructor keep it.

  The record \<open>ienv\<close> holds what the interpreter calls outside the model: the byte readers, the table of
  functions, host and compiled functions (\<open>ie_invoke\<close>), the handlers not modelled (\<open>ie_other\<close>), the match of
  closed types across instances, the allocators, the roots of the embedder, and the upper half of a
  slot that the code leaves uninitialised (\<open>ie_junk\<close>).  \<open>mems_ok\<close> and \<open>tab_ok\<close> bound memories and tables by the
  limits their growth keeps, \<open>env_keeps\<close> says that the handlers and functions outside the model keep the
  caller's frame, depth and exception handlers as the others do, and \<open>ea_fits\<close> says that an address plus its offset is below \<open>2 ^ 64\<close>, which
  holds in every 32-bit memory; what happens beyond it is the subject of \<open>memory64_offset_wraps\<close>.

  Not modelled.  The generated reader and its capture tree, hence the export, segment and
  initialiser passes of \<open>jav_module_validate.c\<close> and the decoders of \<open>jav_module_index.c\<close>, which walk
  that tree; in the interpreter the float instructions, the vector instructions other than load and
  store, and the casts; the JIT, whose stencils are compiled from a specification by tools outside the
  repository, and its equality saturation (\<open>jav_eqsat.c\<close>), which works on an e-graph library that is a
  submodule; the host boxes and the C API, the text tools and the Java compiler's front end and code
  generator, which are clients of the parts above.
  The sanitizer poisoning of the heap has
  no effect on behaviour and is left out.
\<close>

end
